(* ===== verification/Prelude.thy ===== *)
theory Prelude
  imports Main "HOL-Library.AList" "HOL-Library.Word" "HOL-Library.Monad_Syntax"
    "HOL-Library.List_Lexorder" "HOL-Library.Char_ord" "HOL-Library.Multiset"
begin

text \<open>
  What every component of the model shares.

  Standard library data: Rust's unsigned integers are words of their width, a \<open>String\<close> is
  the list of its UTF-8 bytes (a \<open>char\<close> is a byte), a \<open>HashMap\<close> or \<open>BTreeMap\<close> is an association list whose order is the
  order the map is iterated in.  A panic (\<open>unwrap\<close> on \<open>None\<close>, \<open>expect\<close>, an index out of range)
  is the value \<open>None\<close> of an \<open>option\<close> result; a \<open>Result\<close> is a sum with the error on the left.

  The lemma collections: \<open>hash_map_simps\<close> (lookups after updates), \<open>panic_simps\<close> (the option monad).
\<close>

unbundle bit_operations_syntax

type_synonym u16 = "16 word"
type_synonym u32 = "32 word"
type_synonym u64 = "64 word"

named_theorems hash_map_simps \<open>lookups in hash maps after updates\<close>
named_theorems panic_simps \<open>the option monad for code that may panic\<close>


section \<open>Panics\<close>

lemma bind_Some_iff [panic_simps]:
  "Option.bind x f = Some y \<longleftrightarrow> (\<exists>a. x = Some a \<and> f a = Some y)"
  by (cases x) auto

lemma Some_bind_iff [panic_simps]:
  "Some y = Option.bind x f \<longleftrightarrow> (\<exists>a. x = Some a \<and> f a = Some y)"
  by (cases x) auto

text \<open>A loop whose body may panic: the first panic ends it.\<close>

fun fold_panic :: "('a \<Rightarrow> 's \<Rightarrow> 's option) \<Rightarrow> 'a list \<Rightarrow> 's \<Rightarrow> 's option" where
  "fold_panic f [] s = Some s"
| "fold_panic f (x # xs) s = Option.bind (f x s) (fold_panic f xs)"

lemma fold_panic_append:
  "fold_panic f (xs @ ys) s = Option.bind (fold_panic f xs s) (fold_panic f ys)"
  by (induction xs arbitrary: s) (auto split: Option.bind_splits)

text \<open>A loop invariant that also excludes the panic.\<close>

lemma fold_panic_invariant:
  assumes "P s" and "\<And>x s. x \<in> set xs \<Longrightarrow> P s \<Longrightarrow> \<exists>s'. f x s = Some s' \<and> P s'"
  shows "\<exists>s'. fold_panic f xs s = Some s' \<and> P s'"
  using assms
proof (induction xs arbitrary: s)
  case Nil
  then show ?case by simp
next
  case (Cons x xs)
  from Cons.prems obtain s1 where s1: "f x s = Some s1" "P s1" by fastforce
  have "\<exists>s'. fold_panic f xs s1 = Some s' \<and> P s'"
    using s1(2) Cons.prems(2) by (intro Cons.IH) auto
  then show ?case using s1 by simp
qed

lemma fold_panic_total:
  assumes "\<And>x s. x \<in> set xs \<Longrightarrow> f x s \<noteq> None"
  shows "\<exists>s'. fold_panic f xs s = Some s'"
  using fold_panic_invariant [where P = "\<lambda>_. True" and f = f and xs = xs and s = s] assms by auto

lemma fold_invariant:
  assumes "P s" and "\<And>x s. x \<in> set xs \<Longrightarrow> P s \<Longrightarrow> P (f x s)"
  shows "P (fold f xs s)"
  using assms by (induction xs arbitrary: s) auto


section \<open>Hash maps\<close>

declare map_of_eq_Some_iff [simp del] Some_eq_map_of_iff [simp del]

type_synonym ('k, 'v) hash_map = "('k \<times> 'v) list"

abbreviation hm_get :: "('k, 'v) hash_map \<Rightarrow> 'k \<Rightarrow> 'v option" where
  "hm_get m k \<equiv> map_of m k"

abbreviation hm_insert :: "'k \<Rightarrow> 'v \<Rightarrow> ('k, 'v) hash_map \<Rightarrow> ('k, 'v) hash_map" where
  "hm_insert k v m \<equiv> AList.update k v m"

abbreviation hm_remove :: "'k \<Rightarrow> ('k, 'v) hash_map \<Rightarrow> ('k, 'v) hash_map" where
  "hm_remove k m \<equiv> AList.delete k m"

abbreviation hm_keys :: "('k, 'v) hash_map \<Rightarrow> 'k list" where
  "hm_keys m \<equiv> map fst m"

abbreviation hm_values :: "('k, 'v) hash_map \<Rightarrow> 'v list" where
  "hm_values m \<equiv> map snd m"

abbreviation hm_contains_key :: "('k, 'v) hash_map \<Rightarrow> 'k \<Rightarrow> bool" where
  "hm_contains_key m k \<equiv> hm_get m k \<noteq> None"

text \<open>The keys of a hash map are distinct; every operation below keeps that.\<close>

abbreviation hm_ok :: "('k, 'v) hash_map \<Rightarrow> bool" where
  "hm_ok m \<equiv> distinct (map fst m)"

text \<open>\<open>HashMap::extend\<close>: later entries overwrite earlier ones.\<close>

definition hm_extend :: "('k, 'v) hash_map \<Rightarrow> ('k, 'v) hash_map \<Rightarrow> ('k, 'v) hash_map" where
  "hm_extend m kvs = fold (\<lambda>(k, v). hm_insert k v) kvs m"

text \<open>Equality of maps (\<open>HashMap::eq\<close>): the same value at every key.\<close>

definition hm_eq :: "('k, 'v) hash_map \<Rightarrow> ('k, 'v) hash_map \<Rightarrow> bool" where
  "hm_eq m n \<longleftrightarrow> (\<forall>k \<in> set (hm_keys m @ hm_keys n). hm_get m k = hm_get n k)"

lemma hm_get_insert [hash_map_simps, simp]:
  "hm_get (hm_insert k v m) k' = (if k' = k then Some v else hm_get m k')"
  by (simp add: update_conv)

lemma hm_get_remove [hash_map_simps, simp]:
  "hm_get (hm_remove k m) k' = (if k' = k then None else hm_get m k')"
  by (simp add: delete_conv)

lemma hm_get_filter:
  assumes "hm_ok m"
  shows "hm_get (filter P m) k
    = (case hm_get m k of None \<Rightarrow> None | Some v \<Rightarrow> if P (k, v) then Some v else None)"
  using assms
proof (induction m)
  case Nil
  then show ?case by simp
next
  case (Cons kv m)
  have "k = fst kv \<Longrightarrow> hm_get m k = None"
    using Cons.prems by (simp add: map_of_eq_None_iff)
  with Cons show ?case by (cases kv) (auto split: option.splits)
qed

lemma hm_ok_insert [simp]: "hm_ok m \<Longrightarrow> hm_ok (hm_insert k v m)"
  by (rule distinct_update)

lemma hm_ok_remove [simp]: "hm_ok m \<Longrightarrow> hm_ok (hm_remove k m)"
  by (rule distinct_delete)

lemma hm_remove_shorter: "hm_get m k = Some v \<Longrightarrow> length (hm_remove k m) < length m"
proof (induction m)
  case (Cons kv m)
  then show ?case using length_delete_le [of k m] by (cases kv) (auto simp: le_imp_less_Suc)
qed simp

lemma hm_ok_filter [simp]: "hm_ok m \<Longrightarrow> hm_ok (filter P m)"
  by (rule distinct_map_filter)

lemma hm_value_in: "hm_get m k = Some v \<Longrightarrow> (k, v) \<in> set m"
  by (rule map_of_SomeD)

lemma hm_get_eq_iff: "hm_ok m \<Longrightarrow> hm_get m k = Some v \<longleftrightarrow> (k, v) \<in> set m"
  by (rule map_of_eq_Some_iff)

lemma hm_eq_iff: "hm_eq m n \<longleftrightarrow> map_of m = map_of n"
proof
  assume eq: "hm_eq m n"
  show "map_of m = map_of n"
  proof
    fix k
    show "map_of m k = map_of n k"
    proof (cases "k \<in> set (hm_keys m @ hm_keys n)")
      case True
      with eq show ?thesis by (simp add: hm_eq_def)
    next
      case False
      then have "map_of m k = None" and "map_of n k = None"
        by (auto simp: map_of_eq_None_iff)
      then show ?thesis by simp
    qed
  qed
qed (simp add: hm_eq_def)

lemma hm_get_extend:
  "hm_get (hm_extend m kvs) k = (case hm_get (rev kvs) k of None \<Rightarrow> hm_get m k | Some v \<Rightarrow> Some v)"
proof (induction kvs arbitrary: m)
  case Nil
  then show ?case by (simp add: hm_extend_def)
next
  case (Cons kv kvs)
  obtain a b where kv: "kv = (a, b)" by (cases kv)
  have "hm_extend m (kv # kvs) = hm_extend (hm_insert a b m) kvs"
    by (simp add: hm_extend_def kv)
  with Cons.IH [of "hm_insert a b m"] show ?case
    by (auto simp: kv map_add_def split: option.splits)
qed


section \<open>Sorted maps\<close>

text \<open>\<open>BTreeMap::insert\<close>.\<close>

fun btree_insert :: "'k::linorder \<Rightarrow> 'v \<Rightarrow> ('k \<times> 'v) list \<Rightarrow> ('k \<times> 'v) list" where
  "btree_insert k v [] = [(k, v)]"
| "btree_insert k v ((k', v') # m) =
     (if k < k' then (k, v) # (k', v') # m
      else if k = k' then (k, v) # m
      else (k', v') # btree_insert k v m)"

lemma btree_insert_last:
  "\<forall>k' \<in> fst ` set m. k' < k \<Longrightarrow> btree_insert k v m = m @ [(k, v)]"
proof (induction m)
  case (Cons kv m)
  then show ?case by (cases kv) auto
qed simp

lemma map_of_btree_insert: "map_of (btree_insert k v m) k' = (if k' = k then Some v else map_of m k')"
  by (induction m) auto


section \<open>Vectors\<close>

text \<open>\<open>Iterator::position\<close> and \<open>Vec::swap_remove\<close>: the last element takes the removed one's place.\<close>

fun position :: "('a \<Rightarrow> bool) \<Rightarrow> 'a list \<Rightarrow> nat option" where
  "position P [] = None"
| "position P (x # xs) = (if P x then Some 0 else map_option Suc (position P xs))"

definition swap_remove :: "nat \<Rightarrow> 'a list \<Rightarrow> 'a list" where
  "swap_remove i xs = butlast (xs[i := last xs])"

lemma position_SomeD: "position P xs = Some i \<Longrightarrow> i < length xs \<and> P (xs ! i)"
  by (induction xs arbitrary: i) (auto split: if_splits option.splits)

lemma position_None_iff: "position P xs = None \<longleftrightarrow> (\<forall>x \<in> set xs. \<not> P x)"
  by (induction xs) auto

lemma swap_remove_mset:
  assumes "i < length xs"
  shows "mset (swap_remove i xs) = mset xs - {# xs ! i #}"
proof -
  obtain ys y where xs: "xs = ys @ [y]" using assms by (cases xs rule: rev_cases) auto
  show ?thesis
  proof (cases "i = length ys")
    case True
    then show ?thesis by (simp add: swap_remove_def xs)
  next
    case False
    with assms xs have i: "i < length ys" by simp
    then have "mset (swap_remove i xs) = mset (ys[i := y])"
      by (simp add: swap_remove_def xs list_update_append)
    also have "\<dots> = add_mset y (mset ys - {# ys ! i #})"
      using i by (rule mset_update)
    finally show ?thesis
      using i by (simp add: xs nth_append)
  qed
qed

lemma length_swap_remove [simp]: "length (swap_remove i xs) = length xs - 1"
  by (simp add: swap_remove_def)

lemma distinct_swap_remove:
  assumes "distinct xs" and "i < length xs"
  shows "distinct (swap_remove i xs)" and "set (swap_remove i xs) = set xs - {xs ! i}"
proof -
  have eq: "mset (swap_remove i xs) = mset (remove1 (xs ! i) xs)"
    using assms(2) by (simp add: swap_remove_mset)
  show "distinct (swap_remove i xs)"
    using assms mset_eq_imp_distinct_iff [OF eq] by simp
  show "set (swap_remove i xs) = set xs - {xs ! i}"
    using assms mset_eq_setD [OF eq] by simp
qed


section \<open>Machine integers\<close>

text \<open>\<open>u64::saturating_sub\<close>.\<close>

definition saturating_sub :: "'a::len word \<Rightarrow> 'a word \<Rightarrow> 'a word" where
  "saturating_sub a b = (if b \<le> a then a - b else 0)"

lemma unat_saturating_sub: "unat (saturating_sub a b) = unat a - unat b"
  by (simp add: saturating_sub_def unat_sub_if' word_le_nat_alt)

lemma unat_max_word: "unat (- 1 :: 'a::len word) = 2 ^ LENGTH('a) - 1"
  by transfer (simp add: nat_mask_eq take_bit_minus_one_eq_mask mask_nat_def)

lemma unat_Suc_less:
  fixes a :: "'a::len word"
  assumes "a \<noteq> - 1"
  shows "unat (a + 1) = Suc (unat a)"
proof -
  from assms have "1 + a \<noteq> 0"
    by (metis add.commute add_eq_0_iff)
  then show ?thesis
    using unatSuc [of a] by (simp add: add.commute)
qed


section \<open>Strings\<close>

text \<open>\<open>str::starts_with\<close>, \<open>ends_with\<close>, \<open>strip_prefix\<close> and \<open>strip_suffix\<close>.\<close>

definition str_starts_with :: "string \<Rightarrow> string \<Rightarrow> bool" where
  "str_starts_with s pre \<longleftrightarrow> take (length pre) s = pre"

definition str_ends_with :: "string \<Rightarrow> string \<Rightarrow> bool" where
  "str_ends_with s suf \<longleftrightarrow> length suf \<le> length s \<and> drop (length s - length suf) s = suf"

definition str_strip_prefix :: "string \<Rightarrow> string \<Rightarrow> string option" where
  "str_strip_prefix s pre = (if str_starts_with s pre then Some (drop (length pre) s) else None)"

definition str_strip_suffix :: "string \<Rightarrow> string \<Rightarrow> string option" where
  "str_strip_suffix s suf = (if str_ends_with s suf then Some (take (length s - length suf) s) else None)"

lemma str_strip_prefix_Some_iff: "str_strip_prefix s pre = Some rest \<longleftrightarrow> s = pre @ rest"
  by (auto simp: str_strip_prefix_def str_starts_with_def) (metis append_take_drop_id)

lemma str_strip_suffix_Some_iff: "str_strip_suffix s suf = Some rest \<longleftrightarrow> s = rest @ suf"
  by (auto simp: str_strip_suffix_def str_ends_with_def) (metis append_take_drop_id)

text \<open>
  The characters of a string: a byte that is no UTF-8 continuation byte starts one.
  \<open>take_chars\<close> is \<open>chars().take(n)\<close>, \<open>char_count\<close> is \<open>chars().count()\<close>.
\<close>

definition byte :: "char \<Rightarrow> nat" where
  "byte c = of_char c"

definition is_continuation :: "char \<Rightarrow> bool" where
  "is_continuation c \<longleftrightarrow> 128 \<le> byte c \<and> byte c < 192"

fun take_chars :: "nat \<Rightarrow> string \<Rightarrow> string" where
  "take_chars n [] = []"
| "take_chars n (c # cs) =
     (if is_continuation c then c # take_chars n cs
      else case n of 0 \<Rightarrow> [] | Suc m \<Rightarrow> c # take_chars m cs)"

definition char_count :: "string \<Rightarrow> nat" where
  "char_count s = length (filter (\<lambda>c. \<not> is_continuation c) s)"

lemma char_count_take_chars: "char_count (take_chars n s) \<le> n"
  by (induction n s rule: take_chars.induct) (auto simp: char_count_def split: nat.split)

text \<open>\<open>str::from_utf8\<close> accepts exactly the well-formed sequences.\<close>

definition in_range :: "nat \<Rightarrow> nat \<Rightarrow> char \<Rightarrow> bool" where
  "in_range lo hi c \<longleftrightarrow> lo \<le> byte c \<and> byte c \<le> hi"

fun utf8_valid :: "string \<Rightarrow> bool" where
  "utf8_valid [] = True"
| "utf8_valid (c # cs) =
     (if byte c < 128 then utf8_valid cs
      else if in_range 194 223 c then
        (case cs of c1 # r \<Rightarrow> is_continuation c1 \<and> utf8_valid r | _ \<Rightarrow> False)
      else if in_range 224 239 c then
        (case cs of
           c1 # c2 # r \<Rightarrow>
             in_range (if byte c = 224 then 160 else 128) (if byte c = 237 then 159 else 191) c1 \<and>
             is_continuation c2 \<and> utf8_valid r
         | _ \<Rightarrow> False)
      else if in_range 240 244 c then
        (case cs of
           c1 # c2 # c3 # r \<Rightarrow>
             in_range (if byte c = 240 then 144 else 128) (if byte c = 244 then 143 else 191) c1 \<and>
             is_continuation c2 \<and> is_continuation c3 \<and> utf8_valid r
         | _ \<Rightarrow> False)
      else False)"

definition from_utf8 :: "string \<Rightarrow> string option" where
  "from_utf8 bytes = (if utf8_valid bytes then Some bytes else None)"

text \<open>\<open>str::trim\<close>: the encodings of the characters with the Unicode property White_Space.\<close>

definition whitespace_encodings :: "string list" where
  "whitespace_encodings =
     map (\<lambda>ns. map char_of (ns :: nat list))
       ([[9], [10], [11], [12], [13], [32], [194, 133], [194, 160], [225, 154, 128]] @
        map (\<lambda>n. [226, 128, n]) [128 ..< 139] @
        [[226, 128, 168], [226, 128, 169], [226, 128, 175], [226, 129, 159], [227, 128, 128]])"

function strip_encodings :: "string list \<Rightarrow> string \<Rightarrow> string" where
  "strip_encodings ws s =
     (case find (\<lambda>w. w \<noteq> [] \<and> str_starts_with s w) ws of
        None \<Rightarrow> s
      | Some w \<Rightarrow> strip_encodings ws (drop (length w) s))"
  by pat_completeness auto
termination
proof (relation "measure (\<lambda>(ws, s). length s)")
  fix ws s w
  assume "find (\<lambda>w. w \<noteq> [] \<and> str_starts_with s w) ws = Some w"
  then have "w \<noteq> []" and "str_starts_with s w" by (auto simp: find_Some_iff)
  then have "length w \<le> length s" and "0 < length w"
    by (auto simp: str_starts_with_def dest: arg_cong [of _ _ length])
  then have "length s - length w < length s" by arith
  then show "((ws, drop (length w) s), ws, s) \<in> measure (\<lambda>(ws, s). length s)" by simp
qed simp

declare strip_encodings.simps [simp del]

definition trim :: "string \<Rightarrow> string" where
  "trim s =
     rev (strip_encodings (map rev whitespace_encodings)
       (rev (strip_encodings whitespace_encodings s)))"

lemma strip_nothing:
  assumes "\<forall>w \<in> set ws. byte (hd w) \<noteq> byte c"
  shows "strip_encodings ws (c # cs) = c # cs"
proof -
  have "find (\<lambda>w. w \<noteq> [] \<and> str_starts_with (c # cs) w) ws = None"
    using assms by (auto simp: find_None_iff str_starts_with_def neq_Nil_conv)
  then show ?thesis by (subst strip_encodings.simps) simp
qed

lemma whitespace_bytes:
  "\<forall>w \<in> set whitespace_encodings. byte (hd w) \<in> {9, 10, 11, 12, 13, 32, 194, 225, 226, 227}"
  "\<forall>w \<in> set (map rev whitespace_encodings). byte (hd w) \<le> 32 \<or> 128 \<le> byte (hd w)"
  by (simp_all add: whitespace_encodings_def upt_conv_Cons byte_def)

text \<open>\<open>to_ascii_lowercase\<close> and \<open>eq_ignore_ascii_case\<close>.\<close>

definition ascii_lower :: "char \<Rightarrow> char" where
  "ascii_lower c = (if in_range 65 90 c then char_of (byte c + 32) else c)"

definition to_ascii_lowercase :: "string \<Rightarrow> string" where
  "to_ascii_lowercase s = map ascii_lower s"

definition eq_ignore_ascii_case :: "string \<Rightarrow> string \<Rightarrow> bool" where
  "eq_ignore_ascii_case a b \<longleftrightarrow> to_ascii_lowercase a = to_ascii_lowercase b"

text \<open>\<open>str::split\<close> on a byte: always at least one piece.\<close>

fun split_on :: "char \<Rightarrow> string \<Rightarrow> string list" where
  "split_on d [] = [[]]"
| "split_on d (c # cs) =
     (if c = d then [] # split_on d cs
      else (case split_on d cs of [] \<Rightarrow> [[c]] | p # ps \<Rightarrow> (c # p) # ps))"

lemma split_on_not_Nil: "split_on d s \<noteq> []"
  by (cases s) (auto split: list.splits)

text \<open>
  \<open>str::parse::<u64>\<close>: an optional plus sign and one or more decimal digits, whose value must fit.
\<close>

definition digit_value :: "char \<Rightarrow> nat option" where
  "digit_value c = (if in_range 48 57 c then Some (byte c - 48) else None)"

fun parse_digits :: "nat \<Rightarrow> nat \<Rightarrow> string \<Rightarrow> nat option" where
  "parse_digits bound acc [] = Some acc"
| "parse_digits bound acc (c # cs) =
     (case digit_value c of
        None \<Rightarrow> None
      | Some d \<Rightarrow> (if acc * 10 + d < bound then parse_digits bound (acc * 10 + d) cs else None))"

definition parse_unsigned :: "nat \<Rightarrow> string \<Rightarrow> nat option" where
  "parse_unsigned bound s =
     (let body = (case s of c # cs \<Rightarrow> if c = CHR ''+'' then cs else s | [] \<Rightarrow> s)
      in if body = [] then None else parse_digits bound 0 body)"

lemma parse_digits_bound: "parse_digits bound acc s = Some n \<Longrightarrow> acc < bound \<Longrightarrow> n < bound"
  by (induction bound acc s rule: parse_digits.induct) (auto split: option.splits if_splits)

lemma parse_unsigned_bound: "parse_unsigned bound s = Some n \<Longrightarrow> 0 < bound \<Longrightarrow> n < bound"
  by (auto simp: parse_unsigned_def Let_def split: if_splits intro: parse_digits_bound)

definition parse_u64 :: "string \<Rightarrow> u64 option" where
  "parse_u64 s = map_option word_of_nat (parse_unsigned (2 ^ 64) s)"

definition parse_u32 :: "string \<Rightarrow> u32 option" where
  "parse_u32 s = map_option word_of_nat (parse_unsigned (2 ^ 32) s)"

end
