(* ===== verification/Multi_Map.thy ===== *)
theory Multi_Map
  imports Prelude
begin

text \<open>
  The multimap of \<open>src/src/multimap.rs\<close>: a hash map whose values are the vectors (buckets) of the
  values inserted under a key.  The interface its clients rely on is the locale
  \<open>bucket_index\<close>: a relation between keys and values that \<open>insert\<close> and \<open>remove\<close> update pointwise.
\<close>

type_synonym ('k, 'v) multi_map = "('k, 'v list) hash_map"

definition mm_new :: "('k, 'v) multi_map" where
  "mm_new = []"

definition mm_get :: "('k, 'v) multi_map \<Rightarrow> 'k \<Rightarrow> 'v list" where
  "mm_get m k = (case hm_get m k of None \<Rightarrow> [] | Some bucket \<Rightarrow> bucket)"

text \<open>
  \<open>insert\<close>: the bucket is created if there is none, searched for the value, and extended at its
  end when the value is not there.
\<close>

definition mm_insert :: "('k, 'v) multi_map \<Rightarrow> 'k \<Rightarrow> 'v \<Rightarrow> ('k, 'v) multi_map" where
  "mm_insert m k v =
     (let bucket = (case hm_get m k of None \<Rightarrow> [] | Some b \<Rightarrow> b);
          m' = hm_insert k bucket m
      in if v \<in> set bucket then m' else hm_insert k (bucket @ [v]) m')"

text \<open>
  \<open>remove\<close>: the first occurrence is swapped out, an emptied bucket is dropped, and the removed
  value (if any) is returned.
\<close>

definition mm_remove :: "('k, 'v) multi_map \<Rightarrow> 'k \<Rightarrow> 'v \<Rightarrow> ('k, 'v) multi_map \<times> 'v option" where
  "mm_remove m k v =
     (case hm_get m k of
        None \<Rightarrow> (m, None)
      | Some bucket \<Rightarrow>
          (let (bucket', removed) =
                 (case position (\<lambda>value. value = v) bucket of
                    None \<Rightarrow> (bucket, None)
                  | Some index \<Rightarrow> (swap_remove index bucket, Some (bucket ! index)))
           in (if bucket' = [] then hm_remove k m else hm_insert k bucket' m, removed)))"

text \<open>\<open>PartialEq\<close> is that of the inner map, \<open>IntoIter\<close> yields the keys with their buckets.\<close>

definition mm_eq :: "('k, 'v) multi_map \<Rightarrow> ('k, 'v) multi_map \<Rightarrow> bool" where
  "mm_eq m n \<longleftrightarrow> hm_eq m n"

definition mm_into_iter :: "('k, 'v) multi_map \<Rightarrow> ('k \<times> 'v list) list" where
  "mm_into_iter m = m"


section \<open>Well-formedness\<close>

text \<open>Distinct keys, and every bucket is non-empty and free of duplicates.\<close>

definition mm_ok :: "('k, 'v) multi_map \<Rightarrow> bool" where
  "mm_ok m \<longleftrightarrow> hm_ok m \<and> (\<forall>(k, bucket) \<in> set m. bucket \<noteq> [] \<and> distinct bucket)"

lemma mm_ok_bucket:
  assumes "mm_ok m" and "hm_get m k = Some b"
  shows "b \<noteq> []" and "distinct b"
  using assms(1) hm_value_in [OF assms(2)] by (auto simp: mm_ok_def)

lemma mm_ok_keys: "mm_ok m \<Longrightarrow> hm_ok m"
  by (simp add: mm_ok_def)

lemma mm_okI:
  assumes "hm_ok m" and "\<And>k b. hm_get m k = Some b \<Longrightarrow> b \<noteq> [] \<and> distinct b"
  shows "mm_ok m"
  unfolding mm_ok_def using assms(1) assms(2) hm_get_eq_iff [OF assms(1)] by blast

lemma mm_get_distinct: "mm_ok m \<Longrightarrow> distinct (mm_get m k)"
  by (cases "hm_get m k") (simp_all add: mm_get_def mm_ok_bucket)

lemma mm_ok_new: "mm_ok mm_new"
  by (simp add: mm_ok_def mm_new_def)

lemma mm_get_new: "mm_get mm_new k = []"
  by (simp add: mm_get_def mm_new_def)

text \<open>The bucket after an insertion.\<close>

lemma hm_get_mm_insert:
  "hm_get (mm_insert m k v) k' =
     (if k' = k then Some (if v \<in> set (mm_get m k) then mm_get m k else mm_get m k @ [v])
      else hm_get m k')"
  by (cases "hm_get m k") (auto simp: mm_get_def mm_insert_def Let_def)

lemma mm_get_insert:
  "mm_get (mm_insert m k v) k' =
     (if k' = k then (if v \<in> set (mm_get m k) then mm_get m k else mm_get m k @ [v])
      else mm_get m k')"
  unfolding mm_get_def [of "mm_insert m k v"] hm_get_mm_insert by (simp add: mm_get_def)

lemma mm_ok_insert:
  assumes "mm_ok m"
  shows "mm_ok (mm_insert m k v)"
proof (rule mm_okI)
  show "hm_ok (mm_insert m k v)"
    using assms by (simp add: mm_insert_def Let_def mm_ok_keys)
next
  fix k' b
  assume "hm_get (mm_insert m k v) k' = Some b"
  then show "b \<noteq> [] \<and> distinct b"
    using mm_ok_bucket [OF assms, of k' b] mm_get_distinct [OF assms, of k]
    by (auto simp: hm_get_mm_insert split: if_splits)
qed

text \<open>The three cases of a removal.\<close>

lemma mm_remove_no_bucket: "hm_get m k = None \<Longrightarrow> mm_remove m k v = (m, None)"
  by (simp add: mm_remove_def)

lemma mm_remove_absent:
  assumes "hm_get m k = Some b" and "v \<notin> set b"
  shows "mm_remove m k v = (if b = [] then hm_remove k m else hm_insert k b m, None)"
proof -
  have "position (\<lambda>value. value = v) b = None" using assms(2) by (auto simp: position_None_iff)
  with assms(1) show ?thesis by (simp add: mm_remove_def)
qed

lemma mm_remove_present:
  assumes "hm_get m k = Some b" and "v \<in> set b"
  obtains i where "i < length b" and "b ! i = v"
    and "mm_remove m k v =
      (if swap_remove i b = [] then hm_remove k m else hm_insert k (swap_remove i b) m, Some v)"
proof -
  obtain i where i: "position (\<lambda>value. value = v) b = Some i"
    using assms(2) position_None_iff [of "\<lambda>value. value = v" b]
    by (cases "position (\<lambda>value. value = v) b") auto
  show thesis
  proof (rule that [of i])
    show "i < length b" and "b ! i = v" using position_SomeD [OF i] by simp_all
    then show "mm_remove m k v =
      (if swap_remove i b = [] then hm_remove k m else hm_insert k (swap_remove i b) m, Some v)"
      using assms(1) i by (simp add: mm_remove_def)
  qed
qed

lemma mm_remove_result:
  "snd (mm_remove m k v) = (if v \<in> set (mm_get m k) then Some v else None)"
proof (cases "hm_get m k")
  case None
  then show ?thesis by (simp add: mm_remove_no_bucket mm_get_def)
next
  case (Some b)
  show ?thesis
  proof (cases "v \<in> set b")
    case True
    with Some show ?thesis by (auto simp: mm_get_def elim: mm_remove_present)
  next
    case False
    with Some show ?thesis by (simp add: mm_remove_absent mm_get_def)
  qed
qed

text \<open>The bucket after a removal.\<close>

lemma hm_get_mm_remove_other:
  assumes "k' \<noteq> k"
  shows "hm_get (fst (mm_remove m k v)) k' = hm_get m k'"
proof (cases "hm_get m k")
  case None
  then show ?thesis by (simp add: mm_remove_no_bucket)
next
  case (Some b)
  show ?thesis
  proof (cases "v \<in> set b")
    case True
    with Some obtain i where "mm_remove m k v =
      (if swap_remove i b = [] then hm_remove k m else hm_insert k (swap_remove i b) m, Some v)"
      by (rule mm_remove_present)
    with assms show ?thesis by simp
  next
    case False
    with Some assms show ?thesis by (simp add: mm_remove_absent)
  qed
qed

lemma hm_get_mm_remove_same:
  assumes "mm_ok m" and "hm_get (fst (mm_remove m k v)) k = Some b"
  shows "b \<noteq> [] \<and> distinct b \<and> set b = set (mm_get m k) - {v}"
proof (cases "hm_get m k")
  case None
  with assms show ?thesis by (simp add: mm_remove_no_bucket)
next
  case (Some c)
  note c = mm_ok_bucket [OF assms(1) Some]
  show ?thesis
  proof (cases "v \<in> set c")
    case True
    with Some obtain i where i: "i < length c" "c ! i = v" and "mm_remove m k v =
      (if swap_remove i c = [] then hm_remove k m else hm_insert k (swap_remove i c) m, Some v)"
      by (rule mm_remove_present)
    with assms(2) have "b = swap_remove i c" and "b \<noteq> []" by (auto split: if_splits)
    with distinct_swap_remove [OF c(2) i(1)] i(2) Some show ?thesis by (simp add: mm_get_def)
  next
    case False
    with assms Some c show ?thesis by (auto simp: mm_remove_absent mm_get_def split: if_splits)
  qed
qed

lemma mm_remove_bucket_gone:
  assumes "mm_ok m" and "hm_get (fst (mm_remove m k v)) k = None"
  shows "set (mm_get m k) - {v} = {}"
proof (cases "hm_get m k")
  case None
  then show ?thesis by (simp add: mm_get_def)
next
  case (Some c)
  note c = mm_ok_bucket [OF assms(1) Some]
  show ?thesis
  proof (cases "v \<in> set c")
    case True
    with Some obtain i where i: "i < length c" "c ! i = v" and "mm_remove m k v =
      (if swap_remove i c = [] then hm_remove k m else hm_insert k (swap_remove i c) m, Some v)"
      by (rule mm_remove_present)
    with assms(2) have "swap_remove i c = []" by (auto split: if_splits)
    with distinct_swap_remove(2) [OF c(2) i(1)] i(2) Some show ?thesis by (simp add: mm_get_def)
  next
    case False
    with assms Some c show ?thesis by (simp add: mm_remove_absent split: if_splits)
  qed
qed

lemma set_mm_get_remove:
  assumes "mm_ok m"
  shows "set (mm_get (fst (mm_remove m k v)) k') =
      (if k' = k then set (mm_get m k) - {v} else set (mm_get m k'))"
proof (cases "k' = k")
  case True
  show ?thesis
  proof (cases "hm_get (fst (mm_remove m k v)) k")
    case None
    from mm_remove_bucket_gone [OF assms None] None True show ?thesis
      by (simp add: mm_get_def [of "fst (mm_remove m k v)"])
  next
    case (Some b)
    from hm_get_mm_remove_same [OF assms Some] Some True show ?thesis
      by (simp add: mm_get_def [of "fst (mm_remove m k v)"])
  qed
next
  case False
  then show ?thesis by (simp add: mm_get_def hm_get_mm_remove_other)
qed

lemma mm_ok_remove:
  assumes ok: "mm_ok m"
  shows "mm_ok (fst (mm_remove m k v))"
proof (rule mm_okI)
  have "hm_ok m" using ok by (rule mm_ok_keys)
  then show "hm_ok (fst (mm_remove m k v))"
    by (simp add: mm_remove_def split: option.split prod.split)
next
  fix k' b
  assume "hm_get (fst (mm_remove m k v)) k' = Some b"
  then show "b \<noteq> [] \<and> distinct b"
    using hm_get_mm_remove_same [OF ok, of k v b] mm_ok_bucket [OF ok, of k' b]
    by (cases "k' = k") (simp_all add: hm_get_mm_remove_other)
qed


section \<open>The interface\<close>

text \<open>
  What the clients of a multimap rely on.  A client that keeps an index of a relation \<open>R\<close>
  (which keys belong to which values) updates it key by key; \<open>add_all\<close> and \<open>drop_all\<close> are the
  loops the clients run.
\<close>

locale bucket_index =
  fixes empty :: 'm
    and get :: "'m \<Rightarrow> 'k \<Rightarrow> 'v list"
    and add :: "'m \<Rightarrow> 'k \<Rightarrow> 'v \<Rightarrow> 'm"
    and drop_value :: "'m \<Rightarrow> 'k \<Rightarrow> 'v \<Rightarrow> 'm"
    and ok :: "'m \<Rightarrow> bool"
  assumes ok_empty: "ok empty"
    and get_empty: "get empty k = []"
    and ok_add: "ok m \<Longrightarrow> ok (add m k v)"
    and ok_drop: "ok m \<Longrightarrow> ok (drop_value m k v)"
    and get_distinct: "ok m \<Longrightarrow> distinct (get m k)"
    and set_add: "ok m \<Longrightarrow>
      set (get (add m k v) k') = (if k' = k then insert v (set (get m k)) else set (get m k'))"
    and set_drop: "ok m \<Longrightarrow>
      set (get (drop_value m k v) k') = (if k' = k then set (get m k) - {v} else set (get m k'))"
begin

definition indexes :: "'m \<Rightarrow> ('k \<Rightarrow> 'v \<Rightarrow> bool) \<Rightarrow> bool" where
  "indexes m R \<longleftrightarrow> ok m \<and> (\<forall>k v. v \<in> set (get m k) \<longleftrightarrow> R k v)"

lemma indexes_empty: "indexes empty (\<lambda>k v. False)"
  by (simp add: indexes_def ok_empty get_empty)

lemma indexesD: "indexes m R \<Longrightarrow> v \<in> set (get m k) \<longleftrightarrow> R k v"
  by (simp add: indexes_def)

lemma indexes_cong: "indexes m R \<Longrightarrow> (\<And>k v. R k v \<longleftrightarrow> S k v) \<Longrightarrow> indexes m S"
  by (simp add: indexes_def)

lemma indexes_add: "indexes m R \<Longrightarrow> indexes (add m k v) (\<lambda>k' v'. R k' v' \<or> (k' = k \<and> v' = v))"
  by (auto simp: indexes_def ok_add set_add)

lemma indexes_drop:
  "indexes m R \<Longrightarrow> indexes (drop_value m k v) (\<lambda>k' v'. R k' v' \<and> \<not> (k' = k \<and> v' = v))"
  by (auto simp: indexes_def ok_drop set_drop)

lemma indexes_add_all:
  "indexes m R \<Longrightarrow>
    indexes (fold (\<lambda>k m. add m k v) ks m) (\<lambda>k' v'. R k' v' \<or> (k' \<in> set ks \<and> v' = v))"
proof (induction ks arbitrary: m R)
  case Nil
  then show ?case by simp
next
  case (Cons k ks)
  from Cons.IH [OF indexes_add [OF Cons.prems, of k v]] show ?case
    by (auto elim!: indexes_cong)
qed

lemma indexes_drop_all:
  "indexes m R \<Longrightarrow>
    indexes (fold (\<lambda>k m. drop_value m k v) ks m) (\<lambda>k' v'. R k' v' \<and> \<not> (k' \<in> set ks \<and> v' = v))"
proof (induction ks arbitrary: m R)
  case Nil
  then show ?case by simp
next
  case (Cons k ks)
  from Cons.IH [OF indexes_drop [OF Cons.prems, of k v]] show ?case
    by (auto elim!: indexes_cong)
qed

text \<open>A bucket of exactly one element: the relation determines the value.\<close>

lemma singleton_bucket:
  assumes "indexes m R"
  shows "get m k = [v] \<longleftrightarrow> (\<forall>v'. R k v' \<longleftrightarrow> v' = v)"
proof
  assume "get m k = [v]"
  with indexesD [OF assms, of _ k] show "\<forall>v'. R k v' \<longleftrightarrow> v' = v" by auto
next
  assume "\<forall>v'. R k v' \<longleftrightarrow> v' = v"
  with indexesD [OF assms, of _ k] have set: "set (get m k) = {v}" by auto
  have "distinct (get m k)" using assms by (simp add: indexes_def get_distinct)
  with set have "length (get m k) = 1" by (simp add: distinct_card [symmetric])
  then obtain w where "get m k = [w]" by (auto simp: length_Suc_conv)
  with set show "get m k = [v]" by simp
qed

end

abbreviation mm_drop :: "('k, 'v) multi_map \<Rightarrow> 'k \<Rightarrow> 'v \<Rightarrow> ('k, 'v) multi_map" where
  "mm_drop m k v \<equiv> fst (mm_remove m k v)"

interpretation mmi: bucket_index mm_new mm_get mm_insert mm_drop mm_ok
  by unfold_locales
    (simp_all add: mm_ok_new mm_get_new mm_ok_insert mm_ok_remove mm_get_insert
      set_mm_get_remove mm_get_distinct insert_absorb)


section \<open>Properties\<close>

text \<open>
  C20. A multimap is a set of key-value pairs: inserting a pair adds exactly it, removing a pair
  removes exactly it and reports whether it was there, the buckets never hold a duplicate, and an
  empty bucket is never kept.
\<close>

theorem multi_map_is_a_relation:
  assumes "mm_ok m"
  shows "mm_ok (mm_insert m k v) \<and> mm_ok (fst (mm_remove m k v)) \<and>
    (\<forall>k' v'. v' \<in> set (mm_get (mm_insert m k v) k') \<longleftrightarrow> v' \<in> set (mm_get m k') \<or> (k', v') = (k, v)) \<and>
    (\<forall>k' v'. v' \<in> set (mm_get (fst (mm_remove m k v)) k') \<longleftrightarrow>
       v' \<in> set (mm_get m k') \<and> (k', v') \<noteq> (k, v)) \<and>
    snd (mm_remove m k v) = (if v \<in> set (mm_get m k) then Some v else None)"
  using assms
  by (auto simp: mm_ok_insert mm_ok_remove mmi.set_add mmi.set_drop mm_remove_result)

theorem multi_map_is_a_relation_witness:
  "mm_remove (mm_insert (mm_insert mm_new (1::nat) ''a'') 1 ''b'') 1 ''a'' = ([(1, [''b''])], Some ''a'') \<and>
   mm_ok (fst (mm_remove (mm_insert (mm_insert mm_new (1::nat) ''a'') 1 ''b'') 1 ''a''))"
proof -
  let ?m = "mm_insert (mm_insert mm_new (1::nat) ''a'') 1 ''b''"
  have ok: "mm_ok ?m" by (intro mm_ok_insert mm_ok_new)
  have "mm_remove ?m 1 ''a'' = ([(1, [''b''])], Some ''a'')"
    by (simp add: mm_remove_def mm_insert_def mm_new_def swap_remove_def)
  then show ?thesis using multi_map_is_a_relation [OF ok, of 1 "''a''"] by simp
qed

end
