(* ===== verification/Message_Queue.thy ===== *)
theory Message_Queue
  imports Prelude
begin

text \<open>
  The message queue of \<open>src/src/message_queue.rs\<close>: the history of every message, and the
  listeners that wait for messages after their cursor.  A listener holds the sender of a
  one-shot channel; senders are values of a type parameter, and an operation returns the
  sends it performs beside the new queue.  The first part models the operations as the code
  runs them under its locks; the second splits \<open>subscribe\<close> at the point where it holds no
  lock, as a step relation.
\<close>

record ('a, 's) listener =
  l_sender :: 's
  l_cursor :: u32

record ('a, 's) message_queue =
  messages :: "'a list"
  message_listeners :: "('a, 's) listener list"
  last_push_at_field :: u64

type_synonym ('a, 's) send = "'s \<times> u32 \<times> 'a list"

definition mq_new :: "('a, 's) message_queue" where
  "mq_new = \<lparr>messages = [], message_listeners = [], last_push_at_field = 0\<rparr>"

text \<open>The length of the history, truncated to 32 bits by \<open>as u32\<close>.\<close>

definition cursor_of :: "'a list \<Rightarrow> u32" where
  "cursor_of ms = word_of_nat (length ms)"

text \<open>
  \<open>Ok(())\<close> with the send performed, or \<open>Err\<close> with the listener handed back.  The slice starts
  at the listener's cursor, which the guard keeps within the history.
\<close>

definition fire_listener_if_ready ::
    "'a list \<Rightarrow> ('a, 's) listener \<Rightarrow> ('a, 's) listener + ('a, 's) send" where
  "fire_listener_if_ready ms listener =
     (let current_cursor = cursor_of ms
      in if l_cursor listener < current_cursor
         then Inr (l_sender listener, current_cursor, drop (unat (l_cursor listener)) ms)
         else Inl listener)"

text \<open>The draining loop of \<open>push_messages\<close>: listeners that stay, and the sends performed.\<close>

fun fire_all :: "'a list \<Rightarrow> ('a, 's) listener list \<Rightarrow> ('a, 's) listener list \<times> ('a, 's) send list" where
  "fire_all ms [] = ([], [])"
| "fire_all ms (l # ls) =
     (let (remaining, sends) = fire_all ms ls
      in case fire_listener_if_ready ms l of
           Inr s \<Rightarrow> (remaining, s # sends)
         | Inl l' \<Rightarrow> (l' # remaining, sends))"

definition push_messages ::
    "u64 \<Rightarrow> 'a list \<Rightarrow> ('a, 's) message_queue \<Rightarrow> ('a, 's) message_queue \<times> ('a, 's) send list" where
  "push_messages now new_messages q =
     (let q1 = (if new_messages \<noteq> [] then q\<lparr>last_push_at_field := now\<rparr> else q);
          ms = messages q1 @ new_messages;
          (remaining, sends) = fire_all ms (message_listeners q1)
      in (q1\<lparr>messages := ms, message_listeners := remaining\<rparr>, sends))"

text \<open>\<open>subscribe\<close>, with nothing else running between its two critical sections.\<close>

definition mq_subscribe ::
    "u32 \<Rightarrow> 's \<Rightarrow> ('a, 's) message_queue \<Rightarrow> ('a, 's) message_queue \<times> ('a, 's) send list" where
  "mq_subscribe cursor sender q =
     (case fire_listener_if_ready (messages q) \<lparr>l_sender = sender, l_cursor = cursor\<rparr> of
        Inr s \<Rightarrow> (q, [s])
      | Inl listener \<Rightarrow> (q\<lparr>message_listeners := message_listeners q @ [listener]\<rparr>, []))"

definition subscribe_any ::
    "'s \<Rightarrow> ('a, 's) message_queue \<Rightarrow> ('a, 's) message_queue \<times> ('a, 's) send list" where
  "subscribe_any sender q = mq_subscribe (cursor_of (messages q)) sender q"

definition last_push_at :: "('a, 's) message_queue \<Rightarrow> u64 option" where
  "last_push_at q = (if last_push_at_field q = 0 then None else Some (last_push_at_field q))"

definition mq_cursor :: "('a, 's) message_queue \<Rightarrow> u32" where
  "mq_cursor q = cursor_of (messages q)"


section \<open>Operations\<close>

lemma fire_cases:
  "fire_listener_if_ready ms l =
     (if l_cursor l < cursor_of ms
      then Inr (l_sender l, cursor_of ms, drop (unat (l_cursor l)) ms) else Inl l)"
  by (simp add: fire_listener_if_ready_def)

lemma fire_all_eq:
  "fire_all ms ls =
     (filter (\<lambda>l. \<not> l_cursor l < cursor_of ms) ls,
      map (\<lambda>l. (l_sender l, cursor_of ms, drop (unat (l_cursor l)) ms))
        (filter (\<lambda>l. l_cursor l < cursor_of ms) ls))"
  by (induction ls) (simp_all add: fire_cases)

lemma unat_cursor_of: "length ms < 2 ^ 32 \<Longrightarrow> unat (cursor_of ms) = length ms"
  by (simp add: cursor_of_def unat_of_nat)

lemma unat_cursor_le: "unat (cursor_of ms) \<le> length ms"
  by (simp add: cursor_of_def unat_of_nat)

text \<open>The slice of the code never starts past the end.\<close>

lemma fire_in_bounds: "l_cursor l < cursor_of ms \<Longrightarrow> unat (l_cursor l) < length ms"
  using unat_cursor_le [of ms] by (simp add: word_less_nat_alt)

text \<open>Nobody waits for a message that is already there.\<close>

definition no_missed_listener :: "('a, 's) message_queue \<Rightarrow> bool" where
  "no_missed_listener q \<longleftrightarrow> (\<forall>l \<in> set (message_listeners q). \<not> l_cursor l < mq_cursor q)"

lemma no_missed_new: "no_missed_listener mq_new"
  by (simp add: no_missed_listener_def mq_new_def)

lemma messages_push: "messages (fst (push_messages now new q)) = messages q @ new"
  by (simp add: push_messages_def fire_all_eq Let_def)

lemma listeners_push:
  "message_listeners (fst (push_messages now new q)) =
     filter (\<lambda>l. \<not> l_cursor l < cursor_of (messages q @ new)) (message_listeners q)"
  by (simp add: push_messages_def fire_all_eq Let_def)

lemma sends_push:
  "snd (push_messages now new q) =
     map (\<lambda>l. (l_sender l, cursor_of (messages q @ new), drop (unat (l_cursor l)) (messages q @ new)))
       (filter (\<lambda>l. l_cursor l < cursor_of (messages q @ new)) (message_listeners q))"
  by (simp add: push_messages_def fire_all_eq Let_def)

lemma no_missed_push: "no_missed_listener (fst (push_messages now new q))"
  by (simp add: no_missed_listener_def mq_cursor_def messages_push listeners_push)

lemma messages_subscribe: "messages (fst (mq_subscribe c s q)) = messages q"
  by (simp add: mq_subscribe_def fire_cases)

lemma no_missed_subscribe: "no_missed_listener q \<Longrightarrow> no_missed_listener (fst (mq_subscribe c s q))"
  by (auto simp: no_missed_listener_def mq_subscribe_def fire_cases mq_cursor_def)


section \<open>Interleavings of subscribe with push\<close>

text \<open>
  \<open>subscribe\<close> reads the history under the read lock, releases it, and only then takes the lock
  of the listeners.  Between the two it holds neither, so a push may run.  A state is the
  queue, the listeners of the subscribe calls that are between their two sections, and
  everything sent so far.
\<close>

record ('a, 's) mq_system =
  queue :: "('a, 's) message_queue"
  between :: "('a, 's) listener list"
  sent :: "('a, 's) send list"

definition mq_init :: "('a, 's) mq_system" where
  "mq_init = \<lparr>queue = mq_new, between = [], sent = []\<rparr>"

inductive mq_step :: "('a, 's) mq_system \<Rightarrow> ('a, 's) mq_system \<Rightarrow> bool" where
  step_push: "push_messages now new (queue \<sigma>) = (q', sends) \<Longrightarrow>
    mq_step \<sigma> (\<sigma>\<lparr>queue := q', sent := sent \<sigma> @ sends\<rparr>)"
| step_ready: "fire_listener_if_ready (messages (queue \<sigma>)) l = Inr s \<Longrightarrow>
    mq_step \<sigma> (\<sigma>\<lparr>sent := sent \<sigma> @ [s]\<rparr>)"
| step_not_ready: "fire_listener_if_ready (messages (queue \<sigma>)) l = Inl l' \<Longrightarrow>
    mq_step \<sigma> (\<sigma>\<lparr>between := between \<sigma> @ [l']\<rparr>)"
| step_register: "l \<in> set (between \<sigma>) \<Longrightarrow>
    mq_step \<sigma> (\<sigma>\<lparr>queue := (queue \<sigma>)\<lparr>message_listeners := message_listeners (queue \<sigma>) @ [l]\<rparr>,
      between := remove1 l (between \<sigma>)\<rparr>)"

inductive mq_reachable :: "('a, 's) mq_system \<Rightarrow> bool" where
  mq_start: "mq_reachable mq_init"
| mq_next: "mq_reachable \<sigma> \<Longrightarrow> mq_step \<sigma> \<tau> \<Longrightarrow> mq_reachable \<tau>"

inductive_cases mq_stepE: "mq_step \<sigma> \<tau>"

text \<open>
  What every interleaving keeps: a send carries the messages after some cursor up to a length
  the history once had, so nothing is invented, reordered or skipped.
\<close>

definition send_is_slice :: "'a list \<Rightarrow> ('a, 's) send \<Rightarrow> bool" where
  "send_is_slice ms s \<longleftrightarrow> (case s of (_, c, payload) \<Rightarrow>
     \<exists>n start. n \<le> length ms \<and> c = word_of_nat n \<and> start < n \<and> payload = drop start (take n ms))"

lemma send_is_sliceI:
  "n \<le> length ms \<Longrightarrow> start < n \<Longrightarrow> send_is_slice ms (s, word_of_nat n, drop start (take n ms))"
  by (auto simp: send_is_slice_def)

lemma send_is_slice_extend:
  assumes "send_is_slice ms s"
  shows "send_is_slice (ms @ new) s"
proof -
  obtain sender c payload where s: "s = (sender, c, payload)" by (cases s)
  with assms obtain n start where "n \<le> length ms" "start < n"
    and "c = word_of_nat n" "payload = drop start (take n ms)"
    by (auto simp: send_is_slice_def)
  with send_is_sliceI [of n "ms @ new" start sender] show ?thesis by (simp add: s)
qed

lemma fired_is_slice:
  assumes "l_cursor l < cursor_of ms"
  shows "send_is_slice ms (l_sender l, cursor_of ms, drop (unat (l_cursor l)) ms)"
  using send_is_sliceI [of "length ms" ms "unat (l_cursor l)" "l_sender l"] fire_in_bounds [OF assms]
  by (simp add: cursor_of_def)

lemma mq_step_slices:
  assumes "mq_step \<sigma> \<tau>" and "\<forall>s \<in> set (sent \<sigma>). send_is_slice (messages (queue \<sigma>)) s"
  shows "\<forall>s \<in> set (sent \<tau>). send_is_slice (messages (queue \<tau>)) s"
  using assms
proof (induction rule: mq_step.induct)
  case (step_push now new \<sigma> q' sends)
  then have q': "q' = fst (push_messages now new (queue \<sigma>))"
    and sends: "sends = snd (push_messages now new (queue \<sigma>))" by simp_all
  have "send_is_slice (messages (queue \<sigma>) @ new) s" if "s \<in> set sends" for s
    using that fired_is_slice [of _ "messages (queue \<sigma>) @ new"] by (auto simp: sends sends_push)
  with step_push.prems show ?case
    by (auto simp: q' messages_push intro: send_is_slice_extend)
next
  case (step_ready \<sigma> l s)
  then have "send_is_slice (messages (queue \<sigma>)) s"
    using fired_is_slice [of l "messages (queue \<sigma>)"] by (auto simp: fire_cases split: if_splits)
  with step_ready.prems show ?case by simp
qed simp_all

text \<open>
  A subscriber whose listener is still pending in the atomic reading is never ready.  With the
  lock gap it may be: registered although the message it waits for is in the history.
\<close>

definition missed :: "('a, 's) mq_system \<Rightarrow> ('a, 's) listener \<Rightarrow> bool" where
  "missed \<sigma> l \<longleftrightarrow> l \<in> set (message_listeners (queue \<sigma>)) \<and> l_cursor l < mq_cursor (queue \<sigma>)"


text \<open>Operations run one after the other, as when no call overlaps another.\<close>

datatype ('a, 's) mq_op = Push u64 "'a list" | Subscribe u32 's

fun mq_run :: "('a, 's) mq_op list \<Rightarrow> ('a, 's) message_queue \<Rightarrow> ('a, 's) message_queue" where
  "mq_run [] q = q"
| "mq_run (Push now new # ops) q = mq_run ops (fst (push_messages now new q))"
| "mq_run (Subscribe c s # ops) q = mq_run ops (fst (mq_subscribe c s q))"

lemma no_missed_run: "no_missed_listener q \<Longrightarrow> no_missed_listener (mq_run ops q)"
  by (induction ops q rule: mq_run.induct) (simp_all add: no_missed_push no_missed_subscribe)


section \<open>Properties\<close>

text \<open>
  C3. A push appends its messages to the history, fires exactly the listeners whose cursor is
  behind the new length, hands each of them every message after its cursor, and leaves the
  others registered in their order; afterwards no registered listener has a message waiting.
\<close>

theorem push_fires_exactly_the_ready_listeners:
  fixes q :: "('a, 's) message_queue"
  shows "let ms = messages q @ new; (q', sends) = push_messages now new q
    in messages q' = ms \<and> mq_cursor q' = cursor_of ms \<and>
       message_listeners q' = filter (\<lambda>l. \<not> l_cursor l < cursor_of ms) (message_listeners q) \<and>
       sends = map (\<lambda>l. (l_sender l, cursor_of ms, drop (unat (l_cursor l)) ms))
         (filter (\<lambda>l. l_cursor l < cursor_of ms) (message_listeners q)) \<and>
       no_missed_listener q' \<and>
       last_push_at_field q' = (if new = [] then last_push_at_field q else now)"
  using no_missed_push [of now new q]
  by (simp add: push_messages_def fire_all_eq Let_def mq_cursor_def)

text \<open>
  Following the cursors loses nothing: a client that subscribes from cursor \<open>c\<close> and later
  from the cursor it was handed receives, concatenated, the history from \<open>c\<close> on, provided the
  history is shorter than \<open>2 ^ 32\<close> (the width of the cursor).
\<close>

theorem cursors_chain_without_loss:
  fixes q :: "('a, 's) message_queue"
  assumes "snd (mq_subscribe c s q) = [(s, c1, part1)]"
    and "messages q' = messages q @ later" and "length (messages q') < 2 ^ 32"
    and "snd (mq_subscribe c1 s' q') = [(s', c2, part2)]"
  shows "part1 @ part2 = drop (unat c) (messages q') \<and> c2 = mq_cursor q'"
proof -
  have part1: "c1 = cursor_of (messages q)" "part1 = drop (unat c) (messages q)"
    "c < cursor_of (messages q)"
    using assms(1) by (auto simp: mq_subscribe_def fire_cases split: if_splits)
  have part2: "c2 = cursor_of (messages q')" "part2 = drop (unat c1) (messages q')"
    using assms(4) by (auto simp: mq_subscribe_def fire_cases split: if_splits)
  have "length (messages q) < 2 ^ 32" using assms(2,3) by simp
  then have "part2 = later" using part1(1) part2(2) assms(2) by (simp add: unat_cursor_of)
  with part1 part2 assms(2) fire_in_bounds [of "\<lparr>l_sender = s, l_cursor = c\<rparr>" "messages q"]
  show ?thesis by (simp add: mq_cursor_def)
qed

theorem cursors_chain_without_loss_witness:
  "drop (unat (1::u32)) [10, 20, 30, (40::nat)] = [20] @ [30, 40]"
  using cursors_chain_without_loss
    [of 1 "()" "\<lparr>messages = [10, 20], message_listeners = [], last_push_at_field = 5\<rparr>" 2 "[20]"
      "\<lparr>messages = [10, 20, 30, 40], message_listeners = [], last_push_at_field = 5\<rparr>" "[30, 40]"
      "()" 4 "[30, (40::nat)]"]
  by (simp add: mq_subscribe_def fire_cases cursor_of_def)

text \<open>
  In every interleaving of pushes with subscriptions, every payload sent is a contiguous
  slice of the history that ends at the cursor sent with it.
\<close>

theorem interleaved_sends_are_slices:
  fixes \<sigma> :: "('a, 's) mq_system"
  assumes "mq_reachable \<sigma>" and "s \<in> set (sent \<sigma>)"
  shows "send_is_slice (messages (queue \<sigma>)) s"
proof -
  have "\<forall>s \<in> set (sent \<sigma>). send_is_slice (messages (queue \<sigma>)) s"
    using assms(1)
  proof (induction rule: mq_reachable.induct)
    case mq_start
    then show ?case by (simp add: mq_init_def)
  next
    case (mq_next \<sigma> \<tau>)
    then show ?case using mq_step_slices by blast
  qed
  with assms(2) show ?thesis by blast
qed

theorem interleaved_sends_are_slices_witness:
  "send_is_slice [7::nat] ((), 1, [7])"
proof -
  let ?q = "\<lparr>messages = [7::nat], message_listeners = [], last_push_at_field = 3\<rparr>"
  let ?s = "\<lparr>queue = ?q, between = [], sent = [((), 1, [7])]\<rparr>"
  have push: "mq_step mq_init \<lparr>queue = ?q, between = [], sent = []\<rparr>"
    using step_push [of 3 "[7]" "mq_init" ?q "[]"]
    by (simp add: mq_init_def mq_new_def push_messages_def)
  have fire: "mq_step \<lparr>queue = ?q, between = [], sent = []\<rparr> ?s"
    using step_ready [of "\<lparr>queue = ?q, between = [], sent = []\<rparr>"
        "\<lparr>l_sender = (), l_cursor = 0\<rparr>" "((), 1, [7])"]
    by (simp add: fire_cases cursor_of_def)
  have "mq_reachable ?s"
    by (rule mq_next [OF mq_next [OF mq_start push] fire])
  from interleaved_sends_are_slices [OF this, of "((), 1, [7])"] show ?thesis by simp
qed

text \<open>
  The lock gap of \<open>subscribe\<close> is observable: an interleaving exists after which a listener
  is registered although a message after its cursor is already in the history, nothing was sent to
  it, and no subscribe call is still under way: only a later push can wake it.
\<close>

theorem subscribe_can_miss_a_push:
  "\<exists>(\<sigma> :: (nat, unit) mq_system) l. mq_reachable \<sigma> \<and> missed \<sigma> l \<and> sent \<sigma> = [] \<and> between \<sigma> = []"
proof -
  let ?l = "\<lparr>l_sender = (), l_cursor = 0\<rparr> :: (nat, unit) listener"
  let ?q = "\<lparr>messages = [7::nat], message_listeners = [], last_push_at_field = 3\<rparr>"
  let ?a = "\<lparr>queue = mq_new, between = [?l], sent = []\<rparr>"
  let ?b = "\<lparr>queue = ?q, between = [?l], sent = []\<rparr>"
  let ?c = "\<lparr>queue = ?q\<lparr>message_listeners := [?l]\<rparr>, between = [], sent = []\<rparr>"
  have "mq_step mq_init ?a"
    using step_not_ready [of mq_init ?l ?l] by (simp add: mq_init_def mq_new_def fire_cases cursor_of_def)
  moreover have "mq_step ?a ?b"
    using step_push [of 3 "[7]" ?a ?q "[]"] by (simp add: mq_new_def push_messages_def)
  moreover have "mq_step ?b ?c"
    using step_register [of ?l ?b] by simp
  ultimately have "mq_reachable ?c"
    by (meson mq_start mq_next)
  moreover have "missed ?c ?l"
    by (simp add: missed_def mq_cursor_def cursor_of_def)
  ultimately show ?thesis by (intro exI [of _ ?c] exI [of _ ?l]) simp
qed

text \<open>
  Without a push inside the gap nothing is missed: run one after the other, pushes and
  subscriptions keep every registered listener waiting for messages that are not there yet.
\<close>

theorem sequential_queue_never_misses:
  "no_missed_listener (mq_run ops mq_new)"
  by (rule no_missed_run [OF no_missed_new])

end
