(* ===== verification/Client_Registry.thy ===== *)
theory Client_Registry
  imports Prelude
begin

text \<open>
  The registry of attached Studio clients and of discovery probes, \<open>src/src/client_registry.rs\<close>.
  Every operation takes the clock readings the code makes as arguments, in the order it makes
  them.  The mutexes are not modelled: every operation below holds its lock for its whole
  effect on the map it changes.
\<close>

type_synonym client_id = u64

record client_info =
  ci_id :: client_id
  ci_place_id :: "u64 option"
  ci_game_id :: "u64 option"
  ci_client_name :: string
  ci_client_version :: "string option"
  ci_auto_connected :: bool
  ci_match_reason :: "string option"
  ci_remote_addr :: string
  ci_connected_at :: u64
  ci_last_seen :: u64
  ci_subscribed :: bool

record client_handshake =
  ch_place_id :: "u64 option"
  ch_game_id :: "u64 option"
  ch_client_name :: "string option"
  ch_client_version :: "string option"
  ch_auto_connected :: bool
  ch_match_reason :: "string option"

record probe_verdict =
  pv_outcome :: string
  pv_code :: "string option"
  pv_reason :: string
  pv_conflicting_ports :: "u16 list"
  pv_reported_at :: u64

record probe_info =
  pi_place_id :: "u64 option"
  pi_game_id :: "u64 option"
  pi_client_version :: "string option"
  pi_remote_addr :: string
  pi_first_probe_at :: u64
  pi_last_probe_at :: u64
  pi_probe_count :: u64
  pi_verdict :: "probe_verdict option"

record probe_report =
  rp_place_id :: "u64 option"
  rp_game_id :: "u64 option"
  rp_outcome :: string
  rp_code :: "string option"
  rp_reason :: string
  rp_conflicting_ports :: "u16 list"

type_synonym probe_key = "u64 option \<times> u64 option"

record client_registry =
  clients_map :: "(client_id, client_info) hash_map"
  next_id :: u64
  probes_map :: "(probe_key, probe_info) hash_map"

definition registry_new :: client_registry where
  "registry_new = \<lparr>clients_map = [], next_id = 0, probes_map = []\<rparr>"

definition UNSUBSCRIBED_TTL_SECS :: u64 where "UNSUBSCRIBED_TTL_SECS = 60"
definition PROBE_TTL_SECS :: u64 where "PROBE_TTL_SECS = 600"
definition MAX_PROBES :: nat where "MAX_PROBES = 16"
definition MAX_REASON_CHARS :: nat where "MAX_REASON_CHARS = 500"
definition MAX_FIELD_CHARS :: nat where "MAX_FIELD_CHARS = 64"

text \<open>
  \<open>lenient_id\<close>: an id that the JSON holds as a number, as text, or not at all.  The error is
  that of the integer parser.
\<close>

datatype id_repr = Number u64 | Text string

definition lenient_id :: "id_repr option \<Rightarrow> unit + u64 option" where
  "lenient_id r =
     (case r of
        Some (Number n) \<Rightarrow> Inr (Some n)
      | Some (Text t) \<Rightarrow> (case parse_u64 (trim t) of None \<Rightarrow> Inl () | Some n \<Rightarrow> Inr (Some n))
      | None \<Rightarrow> Inr None)"

definition clip :: "string \<Rightarrow> nat \<Rightarrow> string" where
  "clip text max_chars = take_chars max_chars text"


section \<open>Clients\<close>

definition keeps_client :: "u64 \<Rightarrow> client_info \<Rightarrow> bool" where
  "keeps_client now client \<longleftrightarrow>
     ci_subscribed client \<or> saturating_sub now (ci_last_seen client) < UNSUBSCRIBED_TTL_SECS"

definition prune_stale :: "u64 \<Rightarrow> client_registry \<Rightarrow> client_registry" where
  "prune_stale now r = r\<lparr>clients_map := filter (\<lambda>(_, client). keeps_client now client) (clients_map r)\<rparr>"

text \<open>\<open>handshake\<close> reads the clock once to prune and once for the new record.\<close>

definition handshake ::
    "u64 \<Rightarrow> u64 \<Rightarrow> client_handshake \<Rightarrow> string \<Rightarrow> client_registry \<Rightarrow> client_registry \<times> client_id" where
  "handshake t_prune now h remote_addr r =
     (let r1 = prune_stale t_prune r;
          cid = next_id r1;
          info = \<lparr>ci_id = cid, ci_place_id = ch_place_id h, ci_game_id = ch_game_id h,
            ci_client_name = (case ch_client_name h of None \<Rightarrow> ''unknown'' | Some n \<Rightarrow> n),
            ci_client_version = ch_client_version h, ci_auto_connected = ch_auto_connected h,
            ci_match_reason = ch_match_reason h, ci_remote_addr = remote_addr,
            ci_connected_at = now, ci_last_seen = now, ci_subscribed = False\<rparr>
      in (r1\<lparr>next_id := next_id r1 + 1, clients_map := hm_insert cid info (clients_map r1)\<rparr>, cid))"

definition set_subscribed :: "u64 \<Rightarrow> client_id \<Rightarrow> bool \<Rightarrow> client_registry \<Rightarrow> client_registry" where
  "set_subscribed now cid subscribed r =
     (case hm_get (clients_map r) cid of
        None \<Rightarrow> r
      | Some client \<Rightarrow> r\<lparr>clients_map :=
          hm_insert cid (client\<lparr>ci_subscribed := subscribed, ci_last_seen := now\<rparr>) (clients_map r)\<rparr>)"

definition touch :: "u64 \<Rightarrow> client_id \<Rightarrow> client_registry \<Rightarrow> client_registry" where
  "touch now cid r =
     (case hm_get (clients_map r) cid of
        None \<Rightarrow> r
      | Some client \<Rightarrow> r\<lparr>clients_map := hm_insert cid (client\<lparr>ci_last_seen := now\<rparr>) (clients_map r)\<rparr>)"

definition remove_client :: "client_id \<Rightarrow> client_registry \<Rightarrow> client_registry" where
  "remove_client cid r = r\<lparr>clients_map := hm_remove cid (clients_map r)\<rparr>"

definition list_clients :: "u64 \<Rightarrow> client_registry \<Rightarrow> client_registry \<times> client_info list" where
  "list_clients now r =
     (let r1 = prune_stale now r in (r1, sort_key ci_id (hm_values (clients_map r1))))"

definition subscribed_count :: "client_registry \<Rightarrow> nat" where
  "subscribed_count r = length (filter ci_subscribed (hm_values (clients_map r)))"


section \<open>Probes\<close>

definition probe_last :: "probe_info \<Rightarrow> u64" where
  "probe_last probe =
     (case pi_verdict probe of
        None \<Rightarrow> pi_last_probe_at probe
      | Some verdict \<Rightarrow> max (pv_reported_at verdict) (pi_last_probe_at probe))"

definition prune_probes :: "u64 \<Rightarrow> (probe_key, probe_info) hash_map \<Rightarrow> (probe_key, probe_info) hash_map" where
  "prune_probes now probes =
     filter (\<lambda>(_, probe). saturating_sub now (probe_last probe) < PROBE_TTL_SECS) probes"

text \<open>\<open>Iterator::min_by_key\<close>: the first of the least elements.\<close>

fun min_by_key :: "('a \<Rightarrow> 'b::linorder) \<Rightarrow> 'a list \<Rightarrow> 'a option" where
  "min_by_key f [] = None"
| "min_by_key f (x # xs) =
     (case min_by_key f xs of
        None \<Rightarrow> Some x
      | Some y \<Rightarrow> (if f y < f x then Some y else Some x))"

text \<open>The map after pruning and, for a new key in a full map, evicting the oldest probe.\<close>

definition evict_probes ::
    "(probe_key, probe_info) hash_map \<Rightarrow> probe_key \<Rightarrow> (probe_key, probe_info) hash_map" where
  "evict_probes probes key =
     (if \<not> hm_contains_key probes key \<and> length probes \<ge> MAX_PROBES
      then (case map_option fst (min_by_key (\<lambda>(_, probe). pi_last_probe_at probe) probes) of
              None \<Rightarrow> probes
            | Some oldest \<Rightarrow> hm_remove oldest probes)
      else probes)"

text \<open>\<open>probe_entry\<close> returns a mutable entry: here the map that holds it and its value.\<close>

definition probe_entry ::
    "(probe_key, probe_info) hash_map \<Rightarrow> u64 option \<Rightarrow> u64 option \<Rightarrow> u64 \<Rightarrow>
       (probe_key, probe_info) hash_map \<times> probe_info" where
  "probe_entry probes place_id game_id now =
     (let probes1 = evict_probes (prune_probes now probes) (place_id, game_id);
          entry = (case hm_get probes1 (place_id, game_id) of
                     Some probe \<Rightarrow> probe
                   | None \<Rightarrow> \<lparr>pi_place_id = place_id, pi_game_id = game_id, pi_client_version = None,
                       pi_remote_addr = [], pi_first_probe_at = now, pi_last_probe_at = now,
                       pi_probe_count = 0, pi_verdict = None\<rparr>)
      in (hm_insert (place_id, game_id) entry probes1, entry))"

definition record_probe :: "u64 \<Rightarrow> client_handshake \<Rightarrow> string \<Rightarrow> client_registry \<Rightarrow> client_registry" where
  "record_probe now h remote_addr r =
     (let (probes, entry) = probe_entry (probes_map r) (ch_place_id h) (ch_game_id h) now;
          entry1 = entry\<lparr>pi_last_probe_at := now, pi_probe_count := pi_probe_count entry + 1,
            pi_remote_addr := remote_addr\<rparr>;
          entry2 = (case ch_client_version h of
                      None \<Rightarrow> entry1
                    | Some version \<Rightarrow> entry1\<lparr>pi_client_version := Some (clip version MAX_FIELD_CHARS)\<rparr>)
      in r\<lparr>probes_map := hm_insert (ch_place_id h, ch_game_id h) entry2 probes\<rparr>)"

definition record_probe_verdict :: "u64 \<Rightarrow> probe_report \<Rightarrow> string \<Rightarrow> client_registry \<Rightarrow> client_registry" where
  "record_probe_verdict now report remote_addr r =
     (let (probes, entry) = probe_entry (probes_map r) (rp_place_id report) (rp_game_id report) now;
          entry1 = (if pi_remote_addr entry = [] then entry\<lparr>pi_remote_addr := remote_addr\<rparr> else entry);
          verdict = \<lparr>pv_outcome = clip (rp_outcome report) MAX_FIELD_CHARS,
            pv_code = map_option (\<lambda>code. clip code MAX_FIELD_CHARS) (rp_code report),
            pv_reason = clip (rp_reason report) MAX_REASON_CHARS,
            pv_conflicting_ports = take MAX_PROBES (rp_conflicting_ports report),
            pv_reported_at = now\<rparr>
      in r\<lparr>probes_map := hm_insert (rp_place_id report, rp_game_id report)
             (entry1\<lparr>pi_verdict := Some verdict\<rparr>) probes\<rparr>)"

text \<open>A stable sort by the negated time: the most recent first.\<close>

definition recent_probes :: "u64 \<Rightarrow> client_registry \<Rightarrow> client_registry \<times> probe_info list" where
  "recent_probes now r =
     (let probes = prune_probes now (probes_map r)
      in (r\<lparr>probes_map := probes\<rparr>, sort_key (\<lambda>p. - uint (pi_last_probe_at p)) (hm_values probes)))"


section \<open>Runs\<close>

text \<open>Everything a session can do to its registry, with the times it does it at.\<close>

datatype registry_op =
    Handshake u64 u64 client_handshake string
  | SetSubscribed u64 client_id bool
  | Touch u64 client_id
  | Remove client_id
  | PruneStale u64
  | ListClients u64
  | RecordProbe u64 client_handshake string
  | RecordVerdict u64 probe_report string
  | RecentProbes u64

fun registry_step :: "registry_op \<Rightarrow> client_registry \<Rightarrow> client_registry" where
  "registry_step (Handshake t0 t1 h a) r = fst (handshake t0 t1 h a r)"
| "registry_step (SetSubscribed t i b) r = set_subscribed t i b r"
| "registry_step (Touch t i) r = touch t i r"
| "registry_step (Remove i) r = remove_client i r"
| "registry_step (PruneStale t) r = prune_stale t r"
| "registry_step (ListClients t) r = fst (list_clients t r)"
| "registry_step (RecordProbe t h a) r = record_probe t h a r"
| "registry_step (RecordVerdict t rep a) r = record_probe_verdict t rep a r"
| "registry_step (RecentProbes t) r = fst (recent_probes t r)"

definition registry_run :: "registry_op list \<Rightarrow> client_registry \<Rightarrow> client_registry" where
  "registry_run ops r = fold registry_step ops r"


section \<open>Invariants\<close>

definition clients_ok :: "client_registry \<Rightarrow> bool" where
  "clients_ok r \<longleftrightarrow> hm_ok (clients_map r) \<and>
     (\<forall>(cid, c) \<in> set (clients_map r). ci_id c = cid \<and> cid < next_id r)"

definition verdict_bounded :: "probe_verdict \<Rightarrow> bool" where
  "verdict_bounded v \<longleftrightarrow> char_count (pv_outcome v) \<le> MAX_FIELD_CHARS \<and>
     (case pv_code v of None \<Rightarrow> True | Some c \<Rightarrow> char_count c \<le> MAX_FIELD_CHARS) \<and>
     char_count (pv_reason v) \<le> MAX_REASON_CHARS \<and> length (pv_conflicting_ports v) \<le> MAX_PROBES"

definition probe_bounded :: "probe_info \<Rightarrow> bool" where
  "probe_bounded p \<longleftrightarrow>
     (case pi_client_version p of None \<Rightarrow> True | Some v \<Rightarrow> char_count v \<le> MAX_FIELD_CHARS) \<and>
     (case pi_verdict p of None \<Rightarrow> True | Some v \<Rightarrow> verdict_bounded v)"

definition probes_ok :: "(probe_key, probe_info) hash_map \<Rightarrow> bool" where
  "probes_ok ps \<longleftrightarrow> hm_ok ps \<and> length ps \<le> MAX_PROBES \<and> (\<forall>(k, p) \<in> set ps. probe_bounded p)"

lemma clients_okD:
  assumes "clients_ok r" and "hm_get (clients_map r) cid = Some c"
  shows "ci_id c = cid" and "cid < next_id r"
  using assms(1) hm_value_in [OF assms(2)] by (auto simp: clients_ok_def)

lemma clients_okI:
  assumes "hm_ok (clients_map r)"
    and "\<And>cid c. hm_get (clients_map r) cid = Some c \<Longrightarrow> ci_id c = cid \<and> cid < next_id r"
  shows "clients_ok r"
  unfolding clients_ok_def using assms hm_get_eq_iff [OF assms(1)] by blast

lemma clients_ok_keys: "clients_ok r \<Longrightarrow> hm_ok (clients_map r)"
  by (simp add: clients_ok_def)

subsection \<open>What each operation does to the clients\<close>

lemma get_prune_stale:
  assumes "hm_ok (clients_map r)"
  shows "hm_get (clients_map (prune_stale now r)) cid =
    (case hm_get (clients_map r) cid of
       None \<Rightarrow> None | Some c \<Rightarrow> if keeps_client now c then Some c else None)"
  using hm_get_filter [OF assms, of "\<lambda>(_, c). keeps_client now c" cid]
  by (simp add: prune_stale_def split: option.splits)

lemma prune_stale_frame [simp]:
  "next_id (prune_stale now r) = next_id r" "probes_map (prune_stale now r) = probes_map r"
  by (simp_all add: prune_stale_def)

lemma clients_ok_prune:
  assumes "clients_ok r"
  shows "clients_ok (prune_stale now r)"
proof (rule clients_okI)
  show "hm_ok (clients_map (prune_stale now r))"
    using assms by (simp add: prune_stale_def clients_ok_def)
next
  fix cid c
  assume "hm_get (clients_map (prune_stale now r)) cid = Some c"
  then have "hm_get (clients_map r) cid = Some c"
    using get_prune_stale [OF clients_ok_keys [OF assms], of now cid]
    by (auto split: option.splits if_splits)
  with clients_okD [OF assms] show "ci_id c = cid \<and> cid < next_id (prune_stale now r)" by simp
qed

lemma handshake_eq:
  "snd (handshake t0 t1 h a r) = next_id r"
  "next_id (fst (handshake t0 t1 h a r)) = next_id r + 1"
  "probes_map (fst (handshake t0 t1 h a r)) = probes_map r"
  by (simp_all add: handshake_def Let_def)

lemma get_handshake:
  "hm_get (clients_map (fst (handshake t0 t1 h a r))) cid =
     (if cid = next_id r
      then Some \<lparr>ci_id = cid, ci_place_id = ch_place_id h, ci_game_id = ch_game_id h,
            ci_client_name = (case ch_client_name h of None \<Rightarrow> ''unknown'' | Some n \<Rightarrow> n),
            ci_client_version = ch_client_version h, ci_auto_connected = ch_auto_connected h,
            ci_match_reason = ch_match_reason h, ci_remote_addr = a,
            ci_connected_at = t1, ci_last_seen = t1, ci_subscribed = False\<rparr>
      else hm_get (clients_map (prune_stale t0 r)) cid)"
  by (simp add: handshake_def Let_def)

lemma less_next: "(x::u64) < n \<Longrightarrow> n \<noteq> - 1 \<Longrightarrow> x < n + 1"
  by (simp add: word_less_nat_alt unat_Suc_less)

lemma clients_ok_handshake:
  assumes ok: "clients_ok r" and no_wrap: "next_id r \<noteq> - 1"
  shows "clients_ok (fst (handshake t0 t1 h a r))"
proof (rule clients_okI)
  show "hm_ok (clients_map (fst (handshake t0 t1 h a r)))"
    using clients_ok_keys [OF clients_ok_prune [OF ok]] by (simp add: handshake_def Let_def)
next
  fix cid c
  assume get: "hm_get (clients_map (fst (handshake t0 t1 h a r))) cid = Some c"
  show "ci_id c = cid \<and> cid < next_id (fst (handshake t0 t1 h a r))"
  proof (cases "cid = next_id r")
    case True
    have "next_id r < next_id r + 1"
      by (simp add: word_less_nat_alt unat_Suc_less [OF no_wrap])
    with True get show ?thesis by (auto simp: get_handshake handshake_eq)
  next
    case False
    with get have "hm_get (clients_map (prune_stale t0 r)) cid = Some c" by (simp add: get_handshake)
    from clients_okD [OF clients_ok_prune [OF ok] this] show ?thesis
      by (simp add: handshake_eq less_next no_wrap)
  qed
qed

lemma get_set_subscribed:
  "hm_get (clients_map (set_subscribed now cid b r)) cid' =
     (if cid' = cid
      then map_option (\<lambda>c. c\<lparr>ci_subscribed := b, ci_last_seen := now\<rparr>) (hm_get (clients_map r) cid)
      else hm_get (clients_map r) cid')"
  by (auto simp: set_subscribed_def split: option.splits)

lemma get_touch:
  "hm_get (clients_map (touch now cid r)) cid' =
     (if cid' = cid then map_option (\<lambda>c. c\<lparr>ci_last_seen := now\<rparr>) (hm_get (clients_map r) cid)
      else hm_get (clients_map r) cid')"
  by (auto simp: touch_def split: option.splits)

lemma set_subscribed_frame [simp]:
  "next_id (set_subscribed now cid b r) = next_id r"
  "probes_map (set_subscribed now cid b r) = probes_map r"
  "hm_ok (clients_map r) \<Longrightarrow> hm_ok (clients_map (set_subscribed now cid b r))"
  by (auto simp: set_subscribed_def split: option.splits)

lemma touch_frame [simp]:
  "next_id (touch now cid r) = next_id r" "probes_map (touch now cid r) = probes_map r"
  "hm_ok (clients_map r) \<Longrightarrow> hm_ok (clients_map (touch now cid r))"
  by (auto simp: touch_def split: option.splits)

lemma clients_ok_set_subscribed: "clients_ok r \<Longrightarrow> clients_ok (set_subscribed now cid b r)"
  by (rule clients_okI)
    (auto simp: clients_ok_keys get_set_subscribed dest: clients_okD split: if_splits)

lemma clients_ok_touch: "clients_ok r \<Longrightarrow> clients_ok (touch now cid r)"
  by (rule clients_okI)
    (auto simp: clients_ok_keys get_touch dest: clients_okD split: if_splits)

lemma clients_ok_remove: "clients_ok r \<Longrightarrow> clients_ok (remove_client cid r)"
  by (rule clients_okI)
    (auto simp: clients_ok_keys remove_client_def dest: clients_okD split: if_splits)

text \<open>The operations on probes leave the clients alone.\<close>

lemma probe_ops_frame [simp]:
  "clients_map (record_probe now h a r) = clients_map r"
  "next_id (record_probe now h a r) = next_id r"
  "clients_map (record_probe_verdict now rep a r) = clients_map r"
  "next_id (record_probe_verdict now rep a r) = next_id r"
  "clients_map (fst (recent_probes now r)) = clients_map r"
  "next_id (fst (recent_probes now r)) = next_id r"
  by (simp_all add: record_probe_def record_probe_verdict_def recent_probes_def Let_def
      split: prod.split)

lemma clients_ok_cong:
  "clients_map r' = clients_map r \<Longrightarrow> next_id r' = next_id r \<Longrightarrow> clients_ok r' = clients_ok r"
  by (simp add: clients_ok_def)

subsection \<open>What each operation does to the probes\<close>

lemma probes_ok_prune: "probes_ok ps \<Longrightarrow> probes_ok (prune_probes now ps)"
  unfolding prune_probes_def by (auto simp: probes_ok_def intro: le_trans [OF length_filter_le])

lemma min_by_key_None: "min_by_key f xs = None \<longleftrightarrow> xs = []"
  by (cases xs) (auto split: option.splits if_splits)

lemma min_by_key_Some:
  "min_by_key f xs = Some x \<Longrightarrow> x \<in> set xs \<and> (\<forall>y \<in> set xs. f x \<le> f y)"
proof (induction xs arbitrary: x)
  case Nil
  then show ?case by simp
next
  case (Cons z xs)
  show ?case
  proof (cases "min_by_key f xs")
    case None
    with Cons.prems show ?thesis by (auto simp: min_by_key_None)
  next
    case (Some y)
    with Cons.IH [OF Some] Cons.prems show ?thesis by (auto split: if_splits)
  qed
qed

lemma length_update_le: "length (AList.update k v al) \<le> Suc (length al)"
  by (induction al) auto

lemma length_update_mem: "k \<in> fst ` set al \<Longrightarrow> length (AList.update k v al) = length al"
  by (induction al) auto

lemma length_delete_less: "k \<in> fst ` set al \<Longrightarrow> length (AList.delete k al) < length al"
proof (induction al)
  case Nil
  then show ?case by simp
next
  case (Cons kv al)
  show ?case
  proof (cases "fst kv = k")
    case True
    then show ?thesis using length_delete_le [of k al] by (cases kv) (simp add: le_imp_less_Suc)
  next
    case False
    with Cons show ?thesis by (cases kv) auto
  qed
qed

lemma set_delete_subset: "set (AList.delete k al) \<subseteq> set al"
  by (auto simp: AList.delete_eq)

lemma set_update_subset: "set (AList.update k v al) \<subseteq> insert (k, v) (set al)"
  by (induction al) auto

lemma evict_cases:
  obtains "evict_probes ps key = ps" "hm_contains_key ps key \<or> length ps < MAX_PROBES"
  | oldest p where "evict_probes ps key = hm_remove oldest ps" "(oldest, p) \<in> set ps"
    "\<not> hm_contains_key ps key" "\<forall>(k, q) \<in> set ps. pi_last_probe_at p \<le> pi_last_probe_at q"
proof (cases "\<not> hm_contains_key ps key \<and> length ps \<ge> MAX_PROBES")
  case True
  then have "ps \<noteq> []" by (auto simp: MAX_PROBES_def)
  then obtain k p where op: "min_by_key (\<lambda>(_, probe). pi_last_probe_at probe) ps = Some (k, p)"
    using min_by_key_None [of "\<lambda>(_, probe). pi_last_probe_at probe" ps] by fastforce
  from min_by_key_Some [OF op] have "(k, p) \<in> set ps"
    and "\<forall>(k, q) \<in> set ps. pi_last_probe_at p \<le> pi_last_probe_at q" by auto
  moreover have "evict_probes ps key = hm_remove k ps" using True op by (simp add: evict_probes_def)
  ultimately show thesis using True that(2) by blast
next
  case False
  then show thesis by (intro that(1)) (auto simp: evict_probes_def)
qed

text \<open>After the eviction there is room for the key.\<close>

lemma evict_room:
  assumes "length ps \<le> MAX_PROBES"
  shows "length (hm_insert key v (evict_probes ps key)) \<le> MAX_PROBES"
proof (cases rule: evict_cases [of ps key])
  case 1
  show ?thesis
  proof (cases "key \<in> fst ` set ps")
    case True
    with 1 assms length_update_mem [of key ps v] show ?thesis by simp
  next
    case False
    with 1 length_update_le [of key v ps] show ?thesis by (simp add: map_of_eq_None_iff)
  qed
next
  case (2 oldest p)
  then have "oldest \<in> fst ` set ps" by force
  from length_delete_less [OF this] assms 2 length_update_le [of key v "hm_remove oldest ps"]
  show ?thesis by simp
qed

lemma set_evict: "set (evict_probes ps key) \<subseteq> set ps"
  by (cases rule: evict_cases [of ps key]) (simp_all add: set_delete_subset)

lemma hm_ok_evict: "hm_ok ps \<Longrightarrow> hm_ok (evict_probes ps key)"
  by (cases rule: evict_cases [of ps key]) auto

text \<open>\<open>probe_entry\<close>: a fresh entry or the live one that was there, in a map with room for it.\<close>

lemma probe_entry_ok:
  assumes ok: "probes_ok ps" and e: "probe_entry ps pl gm now = (ps', entry)"
  shows "probe_bounded entry" and "probe_bounded v \<Longrightarrow> probes_ok (hm_insert (pl, gm) v ps')"
proof -
  let ?q = "prune_probes now ps"
  let ?e = "evict_probes ?q (pl, gm)"
  have q: "probes_ok ?q" using ok by (rule probes_ok_prune)
  have bounded: "\<forall>(k, p) \<in> set ?e. probe_bounded p"
    using q set_evict [of ?q "(pl, gm)"] by (auto simp: probes_ok_def)
  from e have ps': "ps' = hm_insert (pl, gm) entry ?e" by (auto simp: probe_entry_def Let_def)
  show entry: "probe_bounded entry"
  proof (cases "hm_get ?e (pl, gm)")
    case None
    with e show ?thesis by (auto simp: probe_entry_def Let_def probe_bounded_def)
  next
    case (Some p)
    then have "probe_bounded p" using bounded by (auto dest!: hm_value_in)
    with Some e show ?thesis by (auto simp: probe_entry_def Let_def)
  qed
  assume v: "probe_bounded v"
  have "hm_insert (pl, gm) v ps' = hm_insert (pl, gm) v ?e" by (simp add: ps' update_Some_unfold)
  moreover have "probes_ok (hm_insert (pl, gm) v ?e)"
    using q v bounded set_update_subset [of "(pl, gm)" v ?e] evict_room [of ?q "(pl, gm)" v]
      hm_ok_evict [of ?q "(pl, gm)"]
    by (auto simp: probes_ok_def)
  ultimately show "probes_ok (hm_insert (pl, gm) v ps')" by simp
qed

lemma probes_ok_record_probe: "probes_ok (probes_map r) \<Longrightarrow> probes_ok (probes_map (record_probe now h a r))"
proof -
  assume ok: "probes_ok (probes_map r)"
  obtain ps e where pe: "probe_entry (probes_map r) (ch_place_id h) (ch_game_id h) now = (ps, e)"
    by (cases "probe_entry (probes_map r) (ch_place_id h) (ch_game_id h) now")
  note pok = probe_entry_ok [OF ok pe]
  from pok(1) show ?thesis
    by (auto simp: record_probe_def pe Let_def probe_bounded_def clip_def char_count_take_chars intro!: pok(2)
        split: option.splits)
qed

lemma probes_ok_record_verdict:
  "probes_ok (probes_map r) \<Longrightarrow> probes_ok (probes_map (record_probe_verdict now rep a r))"
proof -
  assume ok: "probes_ok (probes_map r)"
  obtain ps e where pe: "probe_entry (probes_map r) (rp_place_id rep) (rp_game_id rep) now = (ps, e)"
    by (cases "probe_entry (probes_map r) (rp_place_id rep) (rp_game_id rep) now")
  note pok = probe_entry_ok [OF ok pe]
  from pok(1) show ?thesis
    by (auto simp: record_probe_verdict_def pe Let_def probe_bounded_def verdict_bounded_def clip_def char_count_take_chars
        intro!: pok(2) split: option.splits)
qed

lemma probes_ok_step: "probes_ok (probes_map r) \<Longrightarrow> probes_ok (probes_map (registry_step op r))"
  by (cases op)
    (simp_all add: handshake_eq probes_ok_record_probe probes_ok_record_verdict remove_client_def
      list_clients_def Let_def recent_probes_def probes_ok_prune)

text \<open>The id counter advances by one per handshake.\<close>

fun handshakes :: "registry_op list \<Rightarrow> nat" where
  "handshakes [] = 0"
| "handshakes (Handshake t0 t1 h a # ops) = Suc (handshakes ops)"
| "handshakes (_ # ops) = handshakes ops"

lemma clients_ok_step:
  assumes "clients_ok r" and "\<And>t0 t1 h a. op = Handshake t0 t1 h a \<Longrightarrow> next_id r \<noteq> - 1"
  shows "clients_ok (registry_step op r)"
proof (cases op)
  case (ListClients t)
  then show ?thesis using assms by (simp add: list_clients_def Let_def clients_ok_prune)
qed (use assms in \<open>simp_all add: clients_ok_handshake clients_ok_set_subscribed clients_ok_touch
      clients_ok_remove clients_ok_prune clients_ok_cong [OF probe_ops_frame(1,2)]
      clients_ok_cong [OF probe_ops_frame(3,4)] clients_ok_cong [OF probe_ops_frame(5,6)]\<close>)

lemma next_id_step:
  "next_id (registry_step op r) = (case op of Handshake _ _ _ _ \<Rightarrow> next_id r + 1 | _ \<Rightarrow> next_id r)"
  by (cases op) (simp_all add: handshake_eq remove_client_def list_clients_def Let_def)

lemma handshakes_Cons:
  "handshakes (op # ops) = (case op of Handshake _ _ _ _ \<Rightarrow> Suc (handshakes ops) | _ \<Rightarrow> handshakes ops)"
  by (cases op) simp_all

lemma registry_run_ok:
  assumes "clients_ok r" and "unat (next_id r) + handshakes ops < 2 ^ 64"
  shows "clients_ok (registry_run ops r) \<and>
    unat (next_id (registry_run ops r)) = unat (next_id r) + handshakes ops"
  using assms
proof (induction ops arbitrary: r)
  case Nil
  then show ?case by (simp add: registry_run_def)
next
  case (Cons op ops)
  have wrap: "next_id r \<noteq> - 1" if "op = Handshake t0 t1 h a" for t0 t1 h a
  proof
    assume "next_id r = - 1"
    then have "unat (next_id r) = 2 ^ 64 - 1" by (simp add: unat_max_word)
    with Cons.prems(2) that show False by simp
  qed
  have ok: "clients_ok (registry_step op r)"
    using Cons.prems(1) wrap by (rule clients_ok_step)
  have nx: "unat (next_id (registry_step op r)) + handshakes ops
      = unat (next_id r) + handshakes (op # ops)"
    by (cases op) (simp_all add: handshake_eq remove_client_def list_clients_def Let_def unat_Suc_less wrap)
  with Cons.IH [OF ok] Cons.prems(2) show ?case by (simp add: registry_run_def)
qed

lemma clients_ok_new: "clients_ok registry_new"
  by (simp add: clients_ok_def registry_new_def)

lemma list_clients_values:
  "mset (snd (list_clients now r)) =
     mset (filter (keeps_client now) (hm_values (clients_map r)))"
proof -
  have "map snd (filter (\<lambda>(_, c). keeps_client now c) m) = filter (keeps_client now) (map snd m)"
    for m :: "(client_id, client_info) hash_map" by (induction m) auto
  moreover have "mset (snd (list_clients now r)) = mset (hm_values (clients_map (prune_stale now r)))"
    by (simp add: list_clients_def Let_def)
  moreover have "clients_map (prune_stale now r) = filter (\<lambda>(_, c). keeps_client now c) (clients_map r)"
    by (simp add: prune_stale_def)
  ultimately show ?thesis by (simp only:)
qed

lemma distinct_ids:
  assumes "clients_ok r"
  shows "distinct (map ci_id (hm_values (clients_map r)))"
proof -
  have "map ci_id (hm_values (clients_map r)) = map fst (clients_map r)"
    using assms by (auto simp: clients_ok_def)
  with clients_ok_keys [OF assms] show ?thesis by (simp only:)
qed


section \<open>Properties\<close>

text \<open>
  C24. Ids are never reused: in every run with fewer than \<open>2 ^ 64\<close> handshakes the id a handshake
  hands out is the number of handshakes before it, no client holds it, and the registry then
  maps it to a record of that handshake that is not subscribed.
\<close>

theorem handshake_ids_are_fresh:
  assumes "handshakes ops < 2 ^ 64"
  shows "let r = registry_run ops registry_new; (r', cid) = handshake t0 t1 h a r
    in unat cid = handshakes ops \<and> hm_get (clients_map r) cid = None \<and>
       (\<exists>c. hm_get (clients_map r') cid = Some c \<and> ci_id c = cid \<and>
          ci_place_id c = ch_place_id h \<and> \<not> ci_subscribed c)"
proof -
  let ?r = "registry_run ops registry_new"
  have "unat (next_id registry_new) = 0" by (simp add: registry_new_def)
  with registry_run_ok [OF clients_ok_new, of ops] assms
  have ok: "clients_ok ?r" and nx: "unat (next_id ?r) = handshakes ops" by simp_all
  have "hm_get (clients_map ?r) (next_id ?r) = None"
    using clients_okD(2) [OF ok, of "next_id ?r"] by (cases "hm_get (clients_map ?r) (next_id ?r)") auto
  moreover obtain r' where "handshake t0 t1 h a ?r = (r', next_id ?r)"
    using handshake_eq(1) [of t0 t1 h a ?r] by (metis prod.collapse)
  ultimately show ?thesis
    using nx get_handshake [of t0 t1 h a ?r "next_id ?r"] by (simp add: Let_def)
qed

definition sample_handshake :: client_handshake where
  "sample_handshake = \<lparr>ch_place_id = Some 123, ch_game_id = None, ch_client_name = Some ''roxo-plugin'',
     ch_client_version = None, ch_auto_connected = True, ch_match_reason = None\<rparr>"

theorem handshake_ids_are_fresh_witness:
  "let r = registry_run [Handshake 5 5 sample_handshake ''a'', Remove 0] registry_new
   in unat (snd (handshake 9 9 sample_handshake ''b'' r)) = 1"
  using handshake_ids_are_fresh
    [of "[Handshake 5 5 sample_handshake ''a'', Remove 0]" 9 9 sample_handshake "''b''"]
  by (simp add: Let_def split: prod.splits)

text \<open>
  C36. What a remote client can make the registry hold is bounded in every run: at most 16 places
  are remembered, and every text and port list that a probe brings is clipped to its limit.  The address
  of the peer, which the server writes itself, is not among the clipped fields.
\<close>

theorem probe_memory_is_bounded:
  "let ps = probes_map (registry_run ops registry_new)
   in length ps \<le> 16 \<and> hm_ok ps \<and> list_all (\<lambda>(_, p). probe_bounded p) ps"
proof -
  have "probes_ok (probes_map (registry_run ops registry_new))"
    unfolding registry_run_def
  proof (rule fold_invariant [where P = "\<lambda>r. probes_ok (probes_map r)"])
    show "probes_ok (probes_map registry_new)" by (simp add: registry_new_def probes_ok_def)
  qed (rule probes_ok_step)
  then show ?thesis by (auto simp: probes_ok_def list_all_iff MAX_PROBES_def Let_def)
qed

text \<open>
  A subscribed client is only lost by its own removal or unsubscription: every other
  operation, at whatever time, keeps it registered, subscribed and attached to its place.
\<close>

theorem subscribed_clients_survive:
  assumes "clients_ok r" and "hm_get (clients_map r) i = Some c" and "ci_subscribed c"
    and "op \<noteq> Remove i" and "\<And>t. op \<noteq> SetSubscribed t i False"
  shows "\<exists>c'. hm_get (clients_map (registry_step op r)) i = Some c' \<and> ci_subscribed c' \<and>
    ci_place_id c' = ci_place_id c"
proof -
  have keys: "hm_ok (clients_map r)" using assms(1) by (rule clients_ok_keys)
  have kept: "hm_get (clients_map (prune_stale t r)) i = Some c" for t
    using assms(2,3) by (simp add: get_prune_stale [OF keys] keeps_client_def)
  have fresh: "i \<noteq> next_id r" using clients_okD(2) [OF assms(1,2)] by auto
  show ?thesis
  proof (cases op)
    case (Handshake t0 t1 h a)
    then show ?thesis using kept fresh assms(3) by (simp add: get_handshake)
  next
    case (SetSubscribed t j b)
    then show ?thesis using assms by (cases "j = i"; cases b) (simp_all add: get_set_subscribed)
  next
    case (Remove j)
    then show ?thesis using assms by (simp add: remove_client_def)
  next
    case (Touch t j)
    then show ?thesis using assms by (cases "j = i") (simp_all add: get_touch)
  qed (use assms kept in \<open>simp_all add: list_clients_def Let_def\<close>)
qed

theorem subscribed_clients_survive_witness:
  "let r = set_subscribed 7 0 True (fst (handshake 5 5 sample_handshake ''a'' registry_new))
   in \<exists>c. hm_get (clients_map (registry_step (PruneStale 1000000) r)) 0 = Some c \<and> ci_subscribed c"
proof -
  let ?r = "set_subscribed 7 0 True (fst (handshake 5 5 sample_handshake ''a'' registry_new))"
  have ok: "clients_ok ?r"
    by (intro clients_ok_set_subscribed clients_ok_handshake clients_ok_new) (simp add: registry_new_def)
  obtain c where "hm_get (clients_map ?r) 0 = Some c" and "ci_subscribed c"
    by (simp add: get_set_subscribed get_handshake registry_new_def)
  from subscribed_clients_survive [OF ok this, of "PruneStale 1000000"]
  show ?thesis by (auto simp: Let_def)
qed

text \<open>
  The listing of clients is sorted by id without duplicates, holds exactly the clients that
  are subscribed or were seen within the last minute, and its number of subscribed clients is
  the count the status API reports.
\<close>

theorem client_listing_is_exact:
  assumes "clients_ok r"
  shows "let (r', cs) = list_clients now r
    in sorted (map ci_id cs) \<and> distinct (map ci_id cs) \<and>
       set cs = {c. hm_get (clients_map r) (ci_id c) = Some c \<and>
         (ci_subscribed c \<or> unat now - unat (ci_last_seen c) < 60)} \<and>
       length (filter ci_subscribed cs) = subscribed_count r \<and> subscribed_count r' = subscribed_count r"
proof -
  let ?cs = "snd (list_clients now r)"
  note vals = list_clients_values [of now r]
  have sorted: "sorted (map ci_id ?cs)" by (simp add: list_clients_def Let_def)
  have "distinct (map ci_id (hm_values (clients_map (prune_stale now r))))"
    using clients_ok_prune [OF assms] by (rule distinct_ids)
  moreover have "mset (map ci_id ?cs) = mset (map ci_id (hm_values (clients_map (prune_stale now r))))"
    by (simp add: list_clients_def Let_def multiset.map_comp)
  ultimately have dist: "distinct (map ci_id ?cs)" using mset_eq_imp_distinct_iff by blast
  have keeps: "keeps_client now c \<longleftrightarrow> ci_subscribed c \<or> unat now - unat (ci_last_seen c) < 60" for c
    by (simp add: keeps_client_def UNSUBSCRIBED_TTL_SECS_def word_less_nat_alt unat_saturating_sub)
  have "c \<in> snd ` set (clients_map r) \<longleftrightarrow> hm_get (clients_map r) (ci_id c) = Some c" for c
    using assms hm_get_eq_iff [OF clients_ok_keys [OF assms]] by (force simp: clients_ok_def)
  with mset_eq_setD [OF vals] keeps
  have set: "set ?cs = {c. hm_get (clients_map r) (ci_id c) = Some c \<and>
      (ci_subscribed c \<or> unat now - unat (ci_last_seen c) < 60)}" by auto
  have "filter ci_subscribed (filter (keeps_client now) xs) = filter ci_subscribed xs" for xs
    by (induction xs) (auto simp: keeps_client_def)
  then have filtered: "mset (filter ci_subscribed ?cs) = mset (filter ci_subscribed (hm_values (clients_map r)))"
    using vals by (metis mset_filter)
  have count: "length (filter ci_subscribed ?cs) = subscribed_count r"
    unfolding subscribed_count_def using filtered by (rule mset_eq_length)
  have "mset (filter ci_subscribed ?cs)
      = mset (filter ci_subscribed (hm_values (clients_map (fst (list_clients now r)))))"
    by (simp add: list_clients_def Let_def)
  then have "subscribed_count (fst (list_clients now r)) = subscribed_count r"
    using count mset_eq_length by (metis subscribed_count_def)
  with sorted dist set count show ?thesis by (simp add: case_prod_beta)
qed

theorem client_listing_is_exact_witness:
  "let r = fst (handshake 5 5 sample_handshake ''a'' registry_new)
   in sorted (map ci_id (snd (list_clients 64 r))) \<and> subscribed_count r = 0"
proof -
  let ?r = "fst (handshake 5 5 sample_handshake ''a'' registry_new)"
  have "clients_ok ?r" by (intro clients_ok_handshake clients_ok_new) (simp add: registry_new_def)
  from client_listing_is_exact [OF this, of 64] show ?thesis
    by (simp add: case_prod_beta Let_def handshake_def subscribed_count_def registry_new_def prune_stale_def)
qed

text \<open>
  A probe adds one to the count of its place when that place was remembered and starts it
  at one when it was not or had expired, stores the time and address of this probe, keeps a
  verdict that had not expired, touches no other place beyond forgetting expired ones and (when
  the table is full and the place is new) one least recently probed one, and never makes a client.
\<close>

theorem record_probe_counts:
  assumes ok: "probes_ok (probes_map r)"
  shows "let key = (ch_place_id h, ch_game_id h);
             live = hm_get (prune_probes now (probes_map r)) key;
             r' = record_probe now h addr r
    in clients_map r' = clients_map r \<and>
       (\<exists>p. hm_get (probes_map r') key = Some p \<and> pi_last_probe_at p = now \<and> pi_remote_addr p = addr \<and>
          pi_probe_count p = (case live of None \<Rightarrow> 1 | Some q \<Rightarrow> pi_probe_count q + 1) \<and>
          pi_verdict p = (case live of None \<Rightarrow> None | Some q \<Rightarrow> pi_verdict q)) \<and>
       (\<exists>evicted. (evicted = {} \<or> live = None \<and> (\<exists>old. evicted = {old})) \<and>
          (\<forall>key'. key' \<noteq> key \<longrightarrow> hm_get (probes_map r') key' =
             (if key' \<in> evicted then None else hm_get (prune_probes now (probes_map r)) key')))"
proof -
  let ?key = "(ch_place_id h, ch_game_id h)"
  let ?q = "prune_probes now (probes_map r)"
  let ?r' = "record_probe now h addr r"
  let ?e = "evict_probes ?q ?key"
  have other: "hm_get (probes_map ?r') key' = hm_get ?e key'" if "key' \<noteq> ?key" for key'
    using that by (simp add: record_probe_def probe_entry_def Let_def)
  obtain gone where gone: "gone = {} \<or> hm_get ?q ?key = None \<and> (\<exists>old. gone = {old})"
    and same: "hm_get ?e ?key = hm_get ?q ?key"
    and rest: "\<And>key'. key' \<noteq> ?key \<Longrightarrow> hm_get ?e key' = (if key' \<in> gone then None else hm_get ?q key')"
  proof (cases rule: evict_cases [of ?q ?key])
    case 1
    then show thesis by (intro that [of "{}"]) simp_all
  next
    case (2 old p)
    have "hm_ok ?q" using probes_ok_prune [OF ok] by (simp add: probes_ok_def)
    with 2(2) have "hm_get ?q old = Some p" by (simp add: hm_get_eq_iff)
    with 2(3) have "old \<noteq> ?key" by auto
    with 2 show thesis by (intro that [of "{old}"]) simp_all
  qed
  have updated: "\<exists>p. hm_get (probes_map ?r') ?key = Some p \<and> pi_last_probe_at p = now \<and> pi_remote_addr p = addr \<and>
      pi_probe_count p = (case hm_get ?q ?key of None \<Rightarrow> 1 | Some q \<Rightarrow> pi_probe_count q + 1) \<and>
      pi_verdict p = (case hm_get ?q ?key of None \<Rightarrow> None | Some q \<Rightarrow> pi_verdict q)"
    by (cases "hm_get ?q ?key"; cases "ch_client_version h")
      (simp_all add: record_probe_def probe_entry_def Let_def same)
  have clients: "clients_map ?r' = clients_map r" by simp
  have others: "\<exists>evicted. (evicted = {} \<or> hm_get ?q ?key = None \<and> (\<exists>old. evicted = {old})) \<and>
      (\<forall>key'. key' \<noteq> ?key \<longrightarrow> hm_get (probes_map ?r') key' =
         (if key' \<in> evicted then None else hm_get ?q key'))"
    using gone rest by (intro exI [of _ gone]) (simp add: other)
  show ?thesis unfolding Let_def by (rule conjI [OF clients conjI [OF updated others]])
qed

theorem record_probe_counts_witness:
  "let r = record_probe 10 sample_handshake ''x'' registry_new;
       r' = record_probe 20 sample_handshake ''y'' r
   in (\<exists>p. hm_get (probes_map r') (Some 123, None) = Some p \<and> pi_probe_count p = 2) \<and>
      clients_map r' = clients_map r"
proof -
  let ?r = "record_probe 10 sample_handshake ''x'' registry_new"
  have "probes_ok (probes_map ?r)"
    by (rule probes_ok_record_probe) (simp add: registry_new_def probes_ok_def)
  moreover have "hm_get (prune_probes 20 (probes_map ?r)) (Some 123, None) =
      Some \<lparr>pi_place_id = Some 123, pi_game_id = None, pi_client_version = None, pi_remote_addr = ''x'',
        pi_first_probe_at = 10, pi_last_probe_at = 10, pi_probe_count = 1, pi_verdict = None\<rparr>"
    by (simp add: record_probe_def probe_entry_def prune_probes_def evict_probes_def sample_handshake_def
        registry_new_def saturating_sub_def PROBE_TTL_SECS_def probe_last_def MAX_PROBES_def Let_def)
  ultimately show ?thesis
    using record_probe_counts [of ?r sample_handshake 20 "''y''"]
    by (auto simp: Let_def sample_handshake_def)
qed

text \<open>
  The probe report shows the most recently probed place first, each remembered place once,
  and none whose last probe and verdict are both ten minutes old.
\<close>

theorem recent_probes_are_recent:
  "let (r', ps) = recent_probes now r
   in sorted (map (\<lambda>p. - uint (pi_last_probe_at p)) ps) \<and>
      mset ps = mset (filter (\<lambda>p. unat now - unat (probe_last p) < 600) (hm_values (probes_map r))) \<and>
      clients_map r' = clients_map r"
proof -
  have live: "saturating_sub now (probe_last p) < PROBE_TTL_SECS \<longleftrightarrow> unat now - unat (probe_last p) < 600"
    for p by (simp add: PROBE_TTL_SECS_def word_less_nat_alt unat_saturating_sub)
  have "map snd (prune_probes now m) =
      filter (\<lambda>p. unat now - unat (probe_last p) < 600) (map snd m)" for m
    by (induction m) (auto simp: prune_probes_def live)
  then show ?thesis by (simp add: recent_probes_def Let_def)
qed

text \<open>
  A probe report's id is accepted as a number or as decimal text and rejected otherwise: text
  of digits that fits 64 bits gives that number, surrounding whitespace is ignored, an absent id
  stays absent.
\<close>

theorem lenient_id_accepts:
  "lenient_id None = Inr None \<and> lenient_id (Some (Number n)) = Inr (Some n) \<and>
   (lenient_id (Some (Text t)) = Inl () \<longleftrightarrow> parse_unsigned (2 ^ 64) (trim t) = None) \<and>
   (lenient_id (Some (Text t)) = Inr (Some m) \<longleftrightarrow> parse_unsigned (2 ^ 64) (trim t) = Some (unat m))"
proof -
  have "word_of_nat k = m \<longleftrightarrow> k = unat m" if "parse_unsigned (2 ^ 64) (trim t) = Some k" for k
    using parse_unsigned_bound [OF that] by (auto simp: unat_of_nat)
  then show ?thesis by (auto simp: lenient_id_def parse_u64_def split: option.splits)
qed

end
