(* ===== verification/Fs_Path.thy ===== *)
theory Fs_Path
  imports Prelude
begin

text \<open>
  Paths of the standard library (\<open>std::path\<close> on Unix) and the errors of \<open>std::io\<close>.  A path is
  the list of its components: equality, hashing, \<open>parent\<close>, \<open>join\<close>, \<open>strip_prefix\<close> and
  \<open>starts_with\<close> of \<open>Path\<close> all work on components.  Names are taken to be valid UTF-8, so
  \<open>to_str\<close> always succeeds.
\<close>

datatype component = RootDir | CurDir | ParentDir | Normal string

type_synonym path = "component list"

text \<open>The derived order of \<open>Component\<close>, which orders the entries of a directory set.\<close>

fun comp_key :: "component \<Rightarrow> nat \<times> string" where
  "comp_key RootDir = (0, [])"
| "comp_key CurDir = (1, [])"
| "comp_key ParentDir = (2, [])"
| "comp_key (Normal s) = (3, s)"

lemma comp_key_inject: "comp_key a = comp_key b \<longleftrightarrow> a = b"
  by (cases a; cases b) auto

instantiation component :: linorder
begin

definition less_eq_component :: "component \<Rightarrow> component \<Rightarrow> bool" where
  "less_eq_component a b \<longleftrightarrow>
     fst (comp_key a) < fst (comp_key b) \<or>
     fst (comp_key a) = fst (comp_key b) \<and> snd (comp_key a) \<le> snd (comp_key b)"

definition less_component :: "component \<Rightarrow> component \<Rightarrow> bool" where
  "less_component a b \<longleftrightarrow>
     fst (comp_key a) < fst (comp_key b) \<or>
     fst (comp_key a) = fst (comp_key b) \<and> snd (comp_key a) < snd (comp_key b)"

instance
proof
  fix a b c :: component
  show "a < b \<longleftrightarrow> a \<le> b \<and> \<not> b \<le> a"
    by (auto simp: less_component_def less_eq_component_def)
  show "a \<le> a" by (simp add: less_eq_component_def)
  show "a \<le> b \<Longrightarrow> b \<le> c \<Longrightarrow> a \<le> c"
    by (auto simp: less_eq_component_def)
  show "a \<le> b \<or> b \<le> a"
    by (auto simp: less_eq_component_def)
  assume "a \<le> b" and "b \<le> a"
  then have "fst (comp_key a) = fst (comp_key b)" and "snd (comp_key a) = snd (comp_key b)"
    by (auto simp: less_eq_component_def)
  then show "a = b" by (metis comp_key_inject prod.collapse)
qed

end

definition path_parent :: "path \<Rightarrow> path option" where
  "path_parent p = (if p = [] \<or> last p = RootDir then None else Some (butlast p))"

definition path_file_name :: "path \<Rightarrow> string option" where
  "path_file_name p = (if p = [] then None else case last p of Normal s \<Rightarrow> Some s | _ \<Rightarrow> None)"

text \<open>\<open>join\<close>: an absolute argument replaces the base; a leading \<open>.\<close> only survives at the front.\<close>

definition path_join :: "path \<Rightarrow> path \<Rightarrow> path" where
  "path_join base p =
     (case p of
        RootDir # _ \<Rightarrow> p
      | CurDir # rest \<Rightarrow> (if base = [] then p else base @ rest)
      | _ \<Rightarrow> base @ p)"

definition path_starts_with :: "path \<Rightarrow> path \<Rightarrow> bool" where
  "path_starts_with p base \<longleftrightarrow> take (length base) p = base"

definition path_strip_prefix :: "path \<Rightarrow> path \<Rightarrow> path option" where
  "path_strip_prefix p base = (if path_starts_with p base then Some (drop (length base) p) else None)"

text \<open>\<open>PathBuf::push\<close> and \<open>pop\<close> of a single component.\<close>

definition path_pop :: "path \<Rightarrow> path" where
  "path_pop p = (case path_parent p of None \<Rightarrow> p | Some q \<Rightarrow> q)"

text \<open>\<open>file_stem\<close> and \<open>extension\<close> split the name at its last dot, unless that is its first character.\<close>

definition split_at_last_dot :: "string \<Rightarrow> string option \<times> string option" where
  "split_at_last_dot name =
     (let after = rev (takeWhile (\<lambda>c. c \<noteq> CHR ''.'') (rev name));
          rest = dropWhile (\<lambda>c. c \<noteq> CHR ''.'') (rev name)
      in case rest of
           [] \<Rightarrow> (None, Some name)
         | _ # before_rev \<Rightarrow>
             (if before_rev = [] then (Some name, None) else (Some (rev before_rev), Some after)))"

definition path_file_stem :: "path \<Rightarrow> string option" where
  "path_file_stem p =
     (case path_file_name p of
        None \<Rightarrow> None
      | Some name \<Rightarrow> (case split_at_last_dot name of (Some b, _) \<Rightarrow> Some b | (None, a) \<Rightarrow> a))"

definition path_extension :: "path \<Rightarrow> string option" where
  "path_extension p =
     (case path_file_name p of
        None \<Rightarrow> None
      | Some name \<Rightarrow> (case split_at_last_dot name of (Some _, a) \<Rightarrow> a | (None, _) \<Rightarrow> None))"

text \<open>Well-formed component lists: \<open>RootDir\<close> and \<open>CurDir\<close> only stand at the front.\<close>

definition path_ok :: "path \<Rightarrow> bool" where
  "path_ok p \<longleftrightarrow> (\<forall>c \<in> set (tl p). c \<noteq> RootDir \<and> c \<noteq> CurDir)"

definition is_absolute :: "path \<Rightarrow> bool" where
  "is_absolute p \<longleftrightarrow> p \<noteq> [] \<and> hd p = RootDir"


section \<open>Errors of input and output\<close>

datatype io_error_kind = NotFound | InvalidData | AlreadyExists | OtherError

text \<open>An error is its kind, the fixed part of its message and the path the message names.\<close>

record io_error =
  ie_kind :: io_error_kind
  ie_message :: string
  ie_path :: path

type_synonym 'a io_result = "io_error + 'a"

text \<open>\<open>IoResultExt::with_not_found\<close> of memofs: a missing file is \<open>Ok(None)\<close>.\<close>

definition with_not_found :: "'a io_result \<Rightarrow> 'a option io_result" where
  "with_not_found r =
     (case r of
        Inr v \<Rightarrow> Inr (Some v)
      | Inl err \<Rightarrow> (if ie_kind err = NotFound then Inr None else Inl err))"


section \<open>Lemmas\<close>

lemma path_parent_SomeD: "path_parent p = Some q \<Longrightarrow> p \<noteq> [] \<and> q = butlast p"
  by (auto simp: path_parent_def split: if_splits)

lemma path_parent_length: "path_parent p = Some q \<Longrightarrow> length q < length p"
  by (auto dest: path_parent_SomeD)

lemma path_parent_snoc [simp]:
  "path_parent (p @ [c]) = (if c = RootDir then None else Some p)"
  by (simp add: path_parent_def)

lemma path_parent_Nil [simp]: "path_parent [] = None"
  by (simp add: path_parent_def)

lemma strip_prefix_Some_iff: "path_strip_prefix p base = Some rest \<longleftrightarrow> p = base @ rest"
  by (auto simp: path_strip_prefix_def path_starts_with_def)
    (metis append_take_drop_id)

lemma path_starts_with_iff: "path_starts_with p base \<longleftrightarrow> (\<exists>rest. p = base @ rest)"
  by (auto simp: path_starts_with_def) (metis append_take_drop_id)

lemma path_starts_with_refl [simp]: "path_starts_with p p"
  by (simp add: path_starts_with_def)

lemma path_join_strip:
  assumes "path_strip_prefix p base = Some rest" and "path_ok p" and "base \<noteq> []"
  shows "path_join base rest = p"
  using assms
  by (auto simp: strip_prefix_Some_iff path_join_def path_ok_def split: list.split component.split)

lemma path_join_Normal [simp]: "path_join base [Normal s] = base @ [Normal s]"
  by (simp add: path_join_def)

lemma path_join_Nil [simp]: "path_join base [] = base"
  by (simp add: path_join_def)

lemma path_ok_butlast: "path_ok p \<Longrightarrow> path_ok (butlast p)"
  by (auto simp: path_ok_def dest: in_set_butlastD simp flip: butlast_tl)

lemma path_ok_snoc_Normal [simp]: "path_ok p \<Longrightarrow> path_ok (p @ [Normal s])"
  by (cases p) (auto simp: path_ok_def)

end
