(* ===== verification/In_Memory_Fs.thy ===== *)
theory In_Memory_Fs
  imports Fs_Path
begin

text \<open>
  The in-memory file system of memofs, \<open>src/crates/memofs/src/in_memory_fs.rs\<close>, with the
  snapshots it is loaded from (\<open>snapshot.rs\<close>).  A directory's children and the orphans are
  sorted sets of full paths, as the code's \<open>BTreeSet\<close>s; the event channel is the list of events
  sent and not yet received.  An operation that changes the state returns it even when it fails,
  since the code does not roll back.
\<close>

datatype vfs_snapshot =
    VFile string
  | VDir "(string \<times> vfs_snapshot) list"

definition empty_file :: vfs_snapshot where "empty_file = VFile []"
definition empty_dir :: vfs_snapshot where "empty_dir = VDir []"

datatype vfs_event = Create path | Write path | Remove path

datatype entry = File string | Dir "path list"

record in_memory_fs =
  entries :: "(path, entry) hash_map"
  orphans :: "path list"
  events :: "vfs_event list"

definition im_new :: in_memory_fs where
  "im_new = \<lparr>entries = [], orphans = [], events = []\<rparr>"

definition must_be_file :: "path \<Rightarrow> io_error" where
  "must_be_file p = \<lparr>ie_kind = OtherError, ie_message = ''was a directory, but must be a file'', ie_path = p\<rparr>"

definition must_be_dir :: "path \<Rightarrow> io_error" where
  "must_be_dir p = \<lparr>ie_kind = OtherError, ie_message = ''was a file, but must be a directory'', ie_path = p\<rparr>"

definition not_found :: "path \<Rightarrow> io_error" where
  "not_found p = \<lparr>ie_kind = NotFound, ie_message = ''not found'', ie_path = p\<rparr>"


section \<open>Loading and removing\<close>

text \<open>The first half of \<open>load_snapshot\<close>: the path is entered into its parent or the orphans.\<close>

definition link_parent :: "in_memory_fs \<Rightarrow> path \<Rightarrow> in_memory_fs io_result" where
  "link_parent fs p =
     (case path_parent p of
        Some parent_path \<Rightarrow>
          (case hm_get (entries fs) parent_path of
             Some (Dir children) \<Rightarrow>
               Inr (fs\<lparr>entries := hm_insert parent_path (Dir (insort_insert p children)) (entries fs)\<rparr>)
           | Some (File _) \<Rightarrow> Inl (must_be_dir parent_path)
           | None \<Rightarrow> Inr (fs\<lparr>orphans := insort_insert p (orphans fs)\<rparr>))
      | None \<Rightarrow> Inr (fs\<lparr>orphans := insort_insert p (orphans fs)\<rparr>))"

fun load_snapshot :: "in_memory_fs \<Rightarrow> path \<Rightarrow> vfs_snapshot \<Rightarrow> in_memory_fs \<times> unit io_result"
  and load_children :: "in_memory_fs \<Rightarrow> path \<Rightarrow> (string \<times> vfs_snapshot) list \<Rightarrow> in_memory_fs \<times> unit io_result"
where
  "load_snapshot fs p (VFile contents) =
     (case link_parent fs p of
        Inl e \<Rightarrow> (fs, Inl e)
      | Inr fs1 \<Rightarrow> (fs1\<lparr>entries := hm_insert p (File contents) (entries fs1)\<rparr>, Inr ()))"
| "load_snapshot fs p (VDir children) =
     (case link_parent fs p of
        Inl e \<Rightarrow> (fs, Inl e)
      | Inr fs1 \<Rightarrow> load_children (fs1\<lparr>entries := hm_insert p (Dir []) (entries fs1)\<rparr>) p children)"
| "load_children fs p [] = (fs, Inr ())"
| "load_children fs p ((child_name, child) # rest) =
     (case load_snapshot fs (path_join p [Normal child_name]) child of
        (fs', Inl e) \<Rightarrow> (fs', Inl e)
      | (fs', Inr _) \<Rightarrow> load_children fs' p rest)"

text \<open>The breadth-first loop of \<open>remove\<close>: a removed directory's children join the queue.\<close>

function remove_loop :: "(path, entry) hash_map \<Rightarrow> path list \<Rightarrow> (path, entry) hash_map" where
  "remove_loop es [] = es"
| "remove_loop es (p # queue) =
     (case hm_get es p of
        Some (Dir children) \<Rightarrow> remove_loop (hm_remove p es) (queue @ children)
      | Some (File _) \<Rightarrow> remove_loop (hm_remove p es) queue
      | None \<Rightarrow> remove_loop es queue)"
  by pat_completeness auto
termination
  by (relation "measures [\<lambda>(es, queue). length es, \<lambda>(es, queue). length queue]")
    (auto dest: hm_remove_shorter)

definition im_remove :: "in_memory_fs \<Rightarrow> path \<Rightarrow> in_memory_fs" where
  "im_remove fs root_path =
     fs\<lparr>orphans := removeAll root_path (orphans fs),
        entries := remove_loop (entries fs) [root_path]\<rparr>"


section \<open>The backend operations\<close>

definition im_read :: "in_memory_fs \<Rightarrow> path \<Rightarrow> string io_result" where
  "im_read fs p =
     (case hm_get (entries fs) p of
        Some (File contents) \<Rightarrow> Inr contents
      | Some (Dir _) \<Rightarrow> Inl (must_be_file p)
      | None \<Rightarrow> Inl (not_found p))"

definition im_write :: "in_memory_fs \<Rightarrow> path \<Rightarrow> string \<Rightarrow> in_memory_fs \<times> unit io_result" where
  "im_write fs p data = load_snapshot fs p (VFile data)"

definition im_exists :: "in_memory_fs \<Rightarrow> path \<Rightarrow> bool io_result" where
  "im_exists fs p = Inr (hm_contains_key (entries fs) p)"

definition im_read_dir :: "in_memory_fs \<Rightarrow> path \<Rightarrow> path io_result list io_result" where
  "im_read_dir fs p =
     (case hm_get (entries fs) p of
        Some (Dir children) \<Rightarrow> Inr (map Inr children)
      | Some (File _) \<Rightarrow> Inl (must_be_dir p)
      | None \<Rightarrow> Inl (not_found p))"

definition im_create_dir :: "in_memory_fs \<Rightarrow> path \<Rightarrow> in_memory_fs \<times> unit io_result" where
  "im_create_dir fs p = load_snapshot fs p empty_dir"

text \<open>\<open>create_dir_all\<close> loads an empty directory at every proper ancestor, the nearest first.\<close>

function create_ancestors :: "in_memory_fs \<Rightarrow> path \<Rightarrow> in_memory_fs \<times> unit io_result" where
  "create_ancestors fs p =
     (case path_parent p of
        None \<Rightarrow> (fs, Inr ())
      | Some parent \<Rightarrow>
          (case load_snapshot fs parent empty_dir of
             (fs', Inl e) \<Rightarrow> (fs', Inl e)
           | (fs', Inr _) \<Rightarrow> create_ancestors fs' parent))"
  by pat_completeness auto
termination
  by (relation "measure (\<lambda>(fs, p). length p)") (auto dest: path_parent_length)

declare create_ancestors.simps [simp del]

definition im_create_dir_all :: "in_memory_fs \<Rightarrow> path \<Rightarrow> in_memory_fs \<times> unit io_result" where
  "im_create_dir_all fs p =
     (case create_ancestors fs p of
        (fs', Inl e) \<Rightarrow> (fs', Inl e)
      | (fs', Inr _) \<Rightarrow> load_snapshot fs' p empty_dir)"

definition im_remove_file :: "in_memory_fs \<Rightarrow> path \<Rightarrow> in_memory_fs \<times> unit io_result" where
  "im_remove_file fs p =
     (case hm_get (entries fs) p of
        Some (File _) \<Rightarrow> (im_remove fs p, Inr ())
      | Some (Dir _) \<Rightarrow> (fs, Inl (must_be_file p))
      | None \<Rightarrow> (fs, Inl (not_found p)))"

definition im_remove_dir_all :: "in_memory_fs \<Rightarrow> path \<Rightarrow> in_memory_fs \<times> unit io_result" where
  "im_remove_dir_all fs p =
     (case hm_get (entries fs) p of
        Some (Dir _) \<Rightarrow> (im_remove fs p, Inr ())
      | Some (File _) \<Rightarrow> (fs, Inl (must_be_dir p))
      | None \<Rightarrow> (fs, Inl (not_found p)))"

record metadata =
  is_file :: bool

definition is_dir :: "metadata \<Rightarrow> bool" where
  "is_dir m \<longleftrightarrow> \<not> is_file m"

definition im_metadata :: "in_memory_fs \<Rightarrow> path \<Rightarrow> metadata io_result" where
  "im_metadata fs p =
     (case hm_get (entries fs) p of
        Some (File _) \<Rightarrow> Inr \<lparr>is_file = True\<rparr>
      | Some (Dir _) \<Rightarrow> Inr \<lparr>is_file = False\<rparr>
      | None \<Rightarrow> Inl (not_found p))"

text \<open>The loop of \<open>canonicalize\<close> over the components.\<close>

fun normalize_onto :: "path \<Rightarrow> component list \<Rightarrow> path" where
  "normalize_onto normalized [] = normalized"
| "normalize_onto normalized (ParentDir # cs) = normalize_onto (path_pop normalized) cs"
| "normalize_onto normalized (CurDir # cs) = normalize_onto normalized cs"
| "normalize_onto normalized (c # cs) = normalize_onto (path_join normalized [c]) cs"

definition im_canonicalize :: "in_memory_fs \<Rightarrow> path \<Rightarrow> path io_result" where
  "im_canonicalize fs p =
     (let normalized = normalize_onto [] p
      in if hm_contains_key (entries fs) normalized then Inr normalized else Inl (not_found normalized))"

definition im_watch :: "in_memory_fs \<Rightarrow> path \<Rightarrow> in_memory_fs \<times> unit io_result" where
  "im_watch fs p = (fs, Inr ())"

definition im_unwatch :: "in_memory_fs \<Rightarrow> path \<Rightarrow> in_memory_fs \<times> unit io_result" where
  "im_unwatch fs p = (fs, Inr ())"

text \<open>\<open>raise_event\<close> sends on the unbounded channel, whose receiver this object also owns.\<close>

definition raise_event :: "in_memory_fs \<Rightarrow> vfs_event \<Rightarrow> in_memory_fs" where
  "raise_event fs ev = fs\<lparr>events := events fs @ [ev]\<rparr>"


section \<open>What the operations do to the entries\<close>

text \<open>The entry of a parent after one of its children was entered.\<close>

fun add_child :: "path \<Rightarrow> entry option \<Rightarrow> entry option" where
  "add_child p (Some (Dir children)) = Some (Dir (insort_insert p children))"
| "add_child p e = e"

lemma add_child_eq_None [simp]: "add_child p e = None \<longleftrightarrow> e = None"
  by (cases "(p, e)" rule: add_child.cases) auto

lemma add_child_eq_File [simp]: "add_child p e = Some (File c) \<longleftrightarrow> e = Some (File c)"
  by (cases "(p, e)" rule: add_child.cases) auto

lemma link_parent_cases:
  obtains (fails) pp c where "path_parent p = Some pp" "hm_get (entries fs) pp = Some (File c)"
      "link_parent fs p = Inl (must_be_dir pp)"
  | (links) fs1 where "link_parent fs p = Inr fs1"
      "\<And>pp c. path_parent p = Some pp \<Longrightarrow> hm_get (entries fs) pp \<noteq> Some (File c)"
      "\<And>q. hm_get (entries fs1) q =
        (if path_parent p = Some q then add_child p (hm_get (entries fs) q) else hm_get (entries fs) q)"
      "events fs1 = events fs" "hm_ok (entries fs) \<Longrightarrow> hm_ok (entries fs1)"
proof (cases "path_parent p")
  case None
  then show thesis
    by (intro links [of "fs\<lparr>orphans := insort_insert p (orphans fs)\<rparr>"]) (simp_all add: link_parent_def)
next
  case (Some pp)
  show thesis
  proof (cases "hm_get (entries fs) pp")
    case None
    with Some show thesis
      by (intro links [of "fs\<lparr>orphans := insort_insert p (orphans fs)\<rparr>"]) (auto simp: link_parent_def)
  next
    case e: (Some e)
    show thesis
    proof (cases e)
      case (File c)
      with Some e show thesis by (intro fails) (auto simp: link_parent_def)
    next
      case (Dir children)
      let ?fs1 = "fs\<lparr>entries := hm_insert pp (Dir (insort_insert p children)) (entries fs)\<rparr>"
      from Some e Dir show thesis by (intro links [of ?fs1]) (auto simp: link_parent_def)
    qed
  qed
qed

lemma starts_with_child: "path_starts_with q (p @ [c]) \<Longrightarrow> path_starts_with q p"
  by (auto simp: path_starts_with_iff)

lemma not_starts_with_parent: "path_parent p = Some q \<Longrightarrow> \<not> path_starts_with q p"
  by (auto simp: path_starts_with_iff dest!: path_parent_length)

lemma distinct_children_apart:
  "path_starts_with q (p @ [Normal n]) \<Longrightarrow> path_starts_with q (p @ [Normal m]) \<longleftrightarrow> m = n"
  by (auto simp: path_starts_with_iff)

lemma child_not_prefix_of_parent [simp]: "\<not> path_starts_with p (p @ [c])"
  by (auto simp: path_starts_with_iff)

abbreviation child_paths :: "path \<Rightarrow> (string \<times> vfs_snapshot) list \<Rightarrow> path list \<Rightarrow> path list" where
  "child_paths p cs cs0 \<equiv> fold (\<lambda>(n, _). insort_insert (p @ [Normal n])) cs cs0"

text \<open>Loading: it fails exactly under a file, and outside the loaded path only the parent changes.\<close>

lemma load_effect:
  "(\<And>pp c. path_parent p = Some pp \<Longrightarrow> hm_get (entries fs) pp \<noteq> Some (File c)) \<Longrightarrow>
     \<exists>fs'. load_snapshot fs p s = (fs', Inr ()) \<and>
       (\<forall>q. \<not> path_starts_with q p \<longrightarrow> hm_get (entries fs') q =
          (if path_parent p = Some q then add_child p (hm_get (entries fs) q) else hm_get (entries fs) q))"
  "hm_get (entries fs) p = Some (Dir cs0) \<Longrightarrow>
     \<exists>fs'. load_children fs p cs = (fs', Inr ()) \<and>
       (\<forall>q. \<not> path_starts_with q p \<longrightarrow> hm_get (entries fs') q = hm_get (entries fs) q) \<and>
       hm_get (entries fs') p = Some (Dir (child_paths p cs cs0)) \<and>
       (\<forall>q n. path_starts_with q (p @ [Normal n]) \<longrightarrow> n \<notin> fst ` set cs \<longrightarrow>
          hm_get (entries fs') q = hm_get (entries fs) q)"
proof (induction fs p s and fs p cs arbitrary: and cs0 rule: load_snapshot_load_children.induct)
  case (1 fs p contents)
  show ?case
  proof (cases rule: link_parent_cases [of p fs])
    case (fails pp c)
    with 1 show ?thesis by blast
  next
    case (links fs1)
    then show ?thesis by auto
  qed
next
  case (2 fs p children)
  show ?case
  proof (cases rule: link_parent_cases [of p fs])
    case (fails pp c)
    with 2 show ?thesis by blast
  next
    case (links fs1)
    let ?fs2 = "fs1\<lparr>entries := hm_insert p (Dir []) (entries fs1)\<rparr>"
    from "2.IH" [OF links(1), of "[]"] obtain fs' where
      "load_children ?fs2 p children = (fs', Inr ())"
      and "\<forall>q. \<not> path_starts_with q p \<longrightarrow> hm_get (entries fs') q = hm_get (entries ?fs2) q"
      by auto
    moreover have "hm_get (entries ?fs2) q =
        (if path_parent p = Some q then add_child p (hm_get (entries fs) q) else hm_get (entries fs) q)"
      if "\<not> path_starts_with q p" for q
      using that links(3) by auto
    ultimately show ?thesis using links(1) by (intro exI [of _ fs']) simp
  qed
next
  case (3 fs p)
  then show ?case by simp
next
  case (4 fs p child_name child rest)
  let ?c = "p @ [Normal child_name]"
  have "hm_get (entries fs) pp \<noteq> Some (File c)" if "path_parent ?c = Some pp" for pp c
    using "4.prems" that by simp
  from "4.IH"(1) [unfolded path_join_Normal, OF this] obtain fs1 where load1: "load_snapshot fs ?c child = (fs1, Inr ())"
    and frame1: "\<And>q. \<not> path_starts_with q ?c \<Longrightarrow> hm_get (entries fs1) q =
        (if q = p then add_child ?c (hm_get (entries fs) q) else hm_get (entries fs) q)"
    by auto
  have p1: "hm_get (entries fs1) p = Some (Dir (insort_insert ?c cs0))"
    using frame1 [of p] "4.prems" by simp
  from "4.IH"(2) [unfolded path_join_Normal, OF load1 [symmetric] refl p1] obtain fs' where
    load': "load_children fs1 p rest = (fs', Inr ())"
    and frame': "\<And>q. \<not> path_starts_with q p \<Longrightarrow> hm_get (entries fs') q = hm_get (entries fs1) q"
    and p': "hm_get (entries fs') p = Some (Dir (child_paths p rest (insort_insert ?c cs0)))"
    and others': "\<And>q n. path_starts_with q (p @ [Normal n]) \<Longrightarrow> n \<notin> fst ` set rest \<Longrightarrow>
        hm_get (entries fs') q = hm_get (entries fs1) q"
    by auto
  have outside: "hm_get (entries fs') q = hm_get (entries fs) q" if "\<not> path_starts_with q p" for q
  proof -
    have "q \<noteq> p" using that by auto
    with that frame' [OF that] frame1 [of q] starts_with_child [of q p "Normal child_name"]
    show ?thesis by auto
  qed
  have siblings: "hm_get (entries fs') q = hm_get (entries fs) q"
    if "path_starts_with q (p @ [Normal n])" "n \<notin> fst ` set ((child_name, child) # rest)" for q n
  proof -
    have "q \<noteq> p" using that(1) by auto
    moreover have "\<not> path_starts_with q ?c"
      using that distinct_children_apart [OF that(1)] by auto
    ultimately show ?thesis using that others' [OF that(1)] frame1 [of q] by auto
  qed
  show ?case
    using load1 load' p' outside siblings by (intro exI [of _ fs']) simp
qed

text \<open>The relative lookup in a snapshot, and what must be found in the entries after loading it.\<close>

fun snapshot_at :: "vfs_snapshot \<Rightarrow> string list \<Rightarrow> vfs_snapshot option" where
  "snapshot_at s [] = Some s"
| "snapshot_at (VFile c) (n # ns) = None"
| "snapshot_at (VDir cs) (n # ns) = Option.bind (map_of cs n) (\<lambda>s. snapshot_at s ns)"

fun snapshot_ok :: "vfs_snapshot \<Rightarrow> bool" where
  "snapshot_ok (VFile c) = True"
| "snapshot_ok (VDir cs) = (distinct (map fst cs) \<and> (\<forall>(_, s) \<in> set cs. snapshot_ok s))"

fun entry_of :: "path \<Rightarrow> vfs_snapshot \<Rightarrow> entry" where
  "entry_of p (VFile c) = File c"
| "entry_of p (VDir cs) = Dir (child_paths p cs [])"

lemma load_children_names:
  assumes "hm_get (entries fs) p = Some (Dir cs0)" and "load_children fs p cs = (fs', Inr ())"
  shows "hm_get (entries fs') p = Some (Dir (child_paths p cs cs0))"
    and "path_starts_with q (p @ [Normal n]) \<Longrightarrow> n \<notin> fst ` set cs \<Longrightarrow>
      hm_get (entries fs') q = hm_get (entries fs) q"
  using load_effect(2) [OF assms(1), of cs] assms(2) by auto

lemma load_children_ConsE:
  assumes "load_children fs p ((n, s) # rest) = (fs', Inr ())"
  obtains fs1 where "load_snapshot fs (p @ [Normal n]) s = (fs1, Inr ())"
    and "load_children fs1 p rest = (fs', Inr ())"
proof (cases "load_snapshot fs (p @ [Normal n]) s")
  case (Pair fs1 r)
  then show thesis using assms that by (cases r) auto
qed

lemma load_contents:
  "load_snapshot fs p s = (fs', Inr ()) \<Longrightarrow> snapshot_ok s \<Longrightarrow> snapshot_at s ns = Some t \<Longrightarrow>
     hm_get (entries fs') (p @ map Normal ns) = Some (entry_of (p @ map Normal ns) t)"
  "load_children fs p cs = (fs', Inr ()) \<Longrightarrow> hm_get (entries fs) p = Some (Dir cs0) \<Longrightarrow>
     distinct (map fst cs) \<Longrightarrow> \<forall>(_, s) \<in> set cs. snapshot_ok s \<Longrightarrow>
     map_of cs n = Some s' \<Longrightarrow> snapshot_at s' ns = Some t \<Longrightarrow>
     hm_get (entries fs') (p @ Normal n # map Normal ns) = Some (entry_of (p @ Normal n # map Normal ns) t)"
proof (induction fs p s and fs p cs arbitrary: fs' ns t and fs' cs0 n s' ns t
    rule: load_snapshot_load_children.induct)
  case (1 fs p contents)
  then show ?case by (cases ns) (auto split: sum.splits)
next
  case (2 fs p children)
  from "2.prems"(1) obtain fs1 where link: "link_parent fs p = Inr fs1"
    and load: "load_children (fs1\<lparr>entries := hm_insert p (Dir []) (entries fs1)\<rparr>) p children = (fs', Inr ())"
    by (auto split: sum.splits)
  show ?case
  proof (cases ns)
    case Nil
    with "2.prems"(3) load_children_names(1) [OF _ load, of "[]"] show ?thesis by auto
  next
    case (Cons n ns')
    with "2.prems"(3) obtain s' where "map_of children n = Some s'" "snapshot_at s' ns' = Some t"
      by (auto split: Option.bind_splits)
    with "2.IH" [OF link load, of "[]"] "2.prems"(2) Cons show ?thesis by simp
  qed
next
  case (3 fs p)
  then show ?case by simp
next
  case (4 fs p child_name child rest)
  let ?c = "p @ [Normal child_name]"
  from "4.prems"(1) obtain fs1 where load1: "load_snapshot fs ?c child = (fs1, Inr ())"
    and load': "load_children fs1 p rest = (fs', Inr ())"
    by (rule load_children_ConsE)
  have "hm_get (entries fs) pp \<noteq> Some (File c)" if "path_parent ?c = Some pp" for pp c
    using "4.prems"(2) that by simp
  from load_effect(1) [of ?c fs child, OF this] load1
  have "hm_get (entries fs1) p = add_child ?c (hm_get (entries fs) p)" by simp
  then have p1: "hm_get (entries fs1) p = Some (Dir (insort_insert ?c cs0))"
    by (simp add: "4.prems"(2))
  show ?case
  proof (cases "n = child_name")
    case True
    with "4.prems" have s': "s' = child" and "n \<notin> fst ` set rest" by auto
    then have "hm_get (entries fs') (?c @ map Normal ns) = hm_get (entries fs1) (?c @ map Normal ns)"
      using load_children_names(2) [OF p1 load', of _ n] True by (auto simp: path_starts_with_iff)
    moreover have "snapshot_ok child" using "4.prems"(4) by simp
    note "4.IH"(1) [unfolded path_join_Normal, OF load1 this "4.prems"(6) [unfolded s']]
    ultimately show ?thesis using True by simp
  next
    case False
    have "distinct (map fst rest)" and "\<forall>(_, s) \<in> set rest. snapshot_ok s" and "map_of rest n = Some s'"
      using "4.prems"(3,4,5) False by auto
    from "4.IH"(2) [unfolded path_join_Normal, OF load1 [symmetric] refl load' p1 this "4.prems"(6)]
    show ?thesis .
  qed
qed

lemma set_child_paths: "set (child_paths p cs cs0) = set cs0 \<union> (\<lambda>(n, _). p @ [Normal n]) ` set cs"
  by (induction cs arbitrary: cs0) (auto simp: set_insort_insert)

lemma sorted_child_paths: "sorted cs0 \<Longrightarrow> sorted (child_paths p cs cs0)"
  by (induction cs arbitrary: cs0) (auto simp: sorted_insort_insert)

lemma distinct_child_paths: "distinct cs0 \<Longrightarrow> distinct (child_paths p cs cs0)"
  by (induction cs arbitrary: cs0) (auto simp: distinct_insort_insert)


section \<open>Removing\<close>

lemma remove_loop_shrinks:
  "hm_get (remove_loop es queue) q = hm_get es q \<or> hm_get (remove_loop es queue) q = None"
proof (induction es queue rule: remove_loop.induct)
  case (2 es p queue)
  then show ?case by (auto split: option.splits entry.splits if_splits)
qed simp

lemma remove_loop_queued: "p \<in> set queue \<Longrightarrow> hm_get (remove_loop es queue) p = None"
proof (induction es queue rule: remove_loop.induct)
  case (2 es x queue)
  show ?case
  proof (cases "hm_get es x")
    case None
    with 2 show ?thesis using remove_loop_shrinks [of es queue x] by auto
  next
    case (Some e)
    with 2 show ?thesis
      using remove_loop_shrinks [of "hm_remove x es" "queue @ ds" x for ds]
        remove_loop_shrinks [of "hm_remove x es" queue x]
      by (cases e) fastforce+
  qed
qed simp

text \<open>Only descendants can be removed, once directories list nothing but their children.\<close>

definition children_below :: "(path, entry) hash_map \<Rightarrow> bool" where
  "children_below es \<longleftrightarrow>
     (\<forall>p cs c. hm_get es p = Some (Dir cs) \<longrightarrow> c \<in> set cs \<longrightarrow> path_parent c = Some p)"

lemma path_parent_starts_with: "path_parent c = Some p \<Longrightarrow> path_starts_with c p"
  by (auto simp: path_starts_with_iff dest!: path_parent_SomeD)
    (metis append_butlast_last_id)

lemma path_starts_with_trans:
  "path_starts_with a b \<Longrightarrow> path_starts_with b c \<Longrightarrow> path_starts_with a c"
  by (auto simp: path_starts_with_iff)

lemma remove_loop_frame:
  "children_below es \<Longrightarrow> \<forall>p \<in> set queue. path_starts_with p root \<Longrightarrow> \<not> path_starts_with q root \<Longrightarrow>
    hm_get (remove_loop es queue) q = hm_get es q"
proof (induction es queue rule: remove_loop.induct)
  case (2 es x queue)
  from "2.prems" have neq: "q \<noteq> x" and below: "children_below (hm_remove x es)"
    by (auto simp: children_below_def)
  show ?case
  proof (cases "hm_get es x")
    case None
    with 2 show ?thesis by simp
  next
    case (Some e)
    show ?thesis
    proof (cases e)
      case (File c)
      with Some 2 below neq show ?thesis by simp
    next
      case (Dir cs)
      have "path_starts_with c root" if "c \<in> set cs" for c
        using that Some Dir "2.prems"(1,2) path_starts_with_trans [OF path_parent_starts_with]
        by (auto simp: children_below_def)
      with Some Dir 2 below neq show ?thesis by auto
    qed
  qed
qed simp

lemma remove_loop_file:
  "hm_get es p = Some (File c) \<Longrightarrow> remove_loop es [p] = hm_remove p es"
  by simp

lemma load_keeps_children_below:
  "children_below (entries fs) \<Longrightarrow> children_below (entries (fst (load_snapshot fs p s)))"
  "children_below (entries fs) \<Longrightarrow> children_below (entries (fst (load_children fs p cs)))"
proof (induction fs p s and fs p cs rule: load_snapshot_load_children.induct)
  case (1 fs p contents)
  then show ?case
    by (auto simp: link_parent_def children_below_def set_insort_insert
        split: option.splits entry.splits sum.splits if_splits)
next
  case (2 fs p children)
  show ?case
  proof (cases "link_parent fs p")
    case (Inl e)
    with 2 show ?thesis by simp
  next
    case (Inr fs1)
    with "2.prems" have "children_below (entries fs1)"
      by (auto simp: link_parent_def children_below_def set_insort_insert
          split: option.splits entry.splits if_splits)
    then have "children_below (entries (fs1\<lparr>entries := hm_insert p (Dir []) (entries fs1)\<rparr>))"
      by (auto simp: children_below_def)
    from "2.IH" [OF Inr this] Inr show ?thesis by simp
  qed
next
  case (4 fs p child_name child rest)
  show ?case
  proof (cases "load_snapshot fs (p @ [Normal child_name]) child")
    case (Pair fs1 r)
    with 4 show ?thesis by (cases r) auto
  qed
qed simp


section \<open>Properties\<close>

text \<open>What the backend shows at a path that holds a snapshot.\<close>

fun shows_snapshot :: "in_memory_fs \<Rightarrow> path \<Rightarrow> vfs_snapshot \<Rightarrow> bool" where
  "shows_snapshot fs p (VFile contents) \<longleftrightarrow>
     im_read fs p = Inr contents \<and> im_metadata fs p = Inr \<lparr>is_file = True\<rparr>"
| "shows_snapshot fs p (VDir cs) \<longleftrightarrow>
     im_metadata fs p = Inr \<lparr>is_file = False\<rparr> \<and>
     (\<exists>ps. im_read_dir fs p = Inr (map Inr ps) \<and> sorted ps \<and> distinct ps \<and>
        set ps = (\<lambda>(n, _). p @ [Normal n]) ` set cs)"

lemma shows_entry_of:
  assumes "hm_get (entries fs) p = Some (entry_of p t)"
  shows "shows_snapshot fs p t"
proof (cases t)
  case (VFile c)
  with assms show ?thesis by (simp add: im_read_def im_metadata_def)
next
  case (VDir cs)
  with assms show ?thesis
    using set_child_paths [of p cs "[]"] sorted_child_paths [of "[]" p cs] distinct_child_paths [of "[]" p cs]
    by (auto simp: im_read_dir_def im_metadata_def)
qed

lemma load_frame:
  assumes "load_snapshot fs p s = (fs', Inr ())" and "\<not> path_starts_with q p"
  shows "hm_get (entries fs') q =
    (if path_parent p = Some q then add_child p (hm_get (entries fs) q) else hm_get (entries fs) q)"
proof -
  have "hm_get (entries fs) pp \<noteq> Some (File c)" if "path_parent p = Some pp" for pp c
    using assms(1) that by (cases s) (auto simp: link_parent_def)
  from load_effect(1) [of p fs s, OF this] show ?thesis using assms by auto
qed

text \<open>
  Loading a snapshot succeeds exactly when the parent is not a file.  Afterwards the backend
  shows the snapshot at every path inside it: a file reads back its bytes, a directory lists
  exactly its children's full paths, sorted and once each.  Every file outside the loaded path
  reads as before.
\<close>

theorem load_then_read:
  assumes "load_snapshot fs p s = (fs', r)" and "snapshot_ok s"
  shows "(r = Inr () \<longleftrightarrow> (\<forall>pp c. path_parent p = Some pp \<longrightarrow> im_read fs pp \<noteq> Inr c)) \<and>
    (r = Inr () \<longrightarrow>
      (\<forall>ns t. snapshot_at s ns = Some t \<longrightarrow> shows_snapshot fs' (p @ map Normal ns) t) \<and>
      (\<forall>q c. \<not> path_starts_with q p \<longrightarrow> im_read fs' q = Inr c \<longleftrightarrow> im_read fs q = Inr c))"
proof -
  have read: "im_read fs q = Inr c \<longleftrightarrow> hm_get (entries fs) q = Some (File c)" for fs q c
    by (auto simp: im_read_def split: option.splits entry.splits)
  have "r = Inr ()" if "\<forall>pp c. path_parent p = Some pp \<longrightarrow> im_read fs pp \<noteq> Inr c"
    using load_effect(1) [of p fs s] that assms(1) by (auto simp: read)
  moreover have "im_read fs pp \<noteq> Inr c" if "r = Inr ()" "path_parent p = Some pp" for pp c
    using assms(1) that by (cases s) (auto simp: link_parent_def read)
  moreover have "shows_snapshot fs' (p @ map Normal ns) t"
    if "r = Inr ()" "snapshot_at s ns = Some t" for ns t
    using assms that load_contents(1) shows_entry_of by blast
  moreover have "im_read fs' q = Inr c \<longleftrightarrow> im_read fs q = Inr c"
    if "r = Inr ()" "\<not> path_starts_with q p" for q c
    using load_frame [of fs p s fs' q] assms(1) that by (auto simp: read)
  ultimately show ?thesis by blast
qed

definition sample_snapshot :: vfs_snapshot where
  "sample_snapshot = VDir [(''b'', VFile ''hi''), (''a'', VDir [])]"

lemma load_then_read_witness:
  "\<exists>fs'. load_snapshot im_new [RootDir] sample_snapshot = (fs', Inr ()) \<and>
     im_read fs' [RootDir, Normal ''b''] = Inr ''hi''"
proof -
  obtain fs' r where load: "load_snapshot im_new [RootDir] sample_snapshot = (fs', r)"
    by (cases "load_snapshot im_new [RootDir] sample_snapshot")
  have "snapshot_ok sample_snapshot" by (simp add: sample_snapshot_def)
  note result = load_then_read [OF load this]
  have "path_parent [RootDir] = None" by (simp add: path_parent_def)
  with result have "r = Inr ()" by simp
  moreover have "snapshot_at sample_snapshot [''b''] = Some (VFile ''hi'')"
    by (simp add: sample_snapshot_def)
  ultimately have "shows_snapshot fs' ([RootDir] @ map Normal [''b'']) (VFile ''hi'')"
    using result by blast
  then show ?thesis using load \<open>r = Inr ()\<close> by simp
qed

text \<open>Normal paths: no \<open>.\<close> and no \<open>..\<close>, and the root only at the front.\<close>

definition path_normal :: "path \<Rightarrow> bool" where
  "path_normal p \<longleftrightarrow> path_ok p \<and> (\<forall>c \<in> set p. c \<noteq> ParentDir \<and> c \<noteq> CurDir)"

lemma path_normal_pop: "path_normal p \<Longrightarrow> path_normal (path_pop p)"
  by (auto simp: path_normal_def path_pop_def path_parent_def path_ok_butlast dest: in_set_butlastD)

lemma path_normal_snoc_Normal [simp]: "path_normal p \<Longrightarrow> path_normal (p @ [Normal n])"
  by (auto simp: path_normal_def)

lemma normalize_onto_normal:
  "path_normal acc \<Longrightarrow> RootDir \<notin> set cs \<Longrightarrow> path_normal (normalize_onto acc cs)"
  by (induction acc cs rule: normalize_onto.induct) (auto simp: path_normal_pop path_join_def)

lemma normalize_onto_id:
  "\<forall>c \<in> set cs. \<exists>n. c = Normal n \<Longrightarrow> normalize_onto acc cs = acc @ cs"
  by (induction acc cs rule: normalize_onto.induct) auto

lemma normalize_head_root:
  "acc \<noteq> [] \<Longrightarrow> hd acc = RootDir \<Longrightarrow> RootDir \<notin> set cs \<Longrightarrow>
    normalize_onto acc cs \<noteq> [] \<and> hd (normalize_onto acc cs) = RootDir"
proof (induction acc cs rule: normalize_onto.induct)
  case (2 acc cs)
  have "path_pop acc \<noteq> [] \<and> hd (path_pop acc) = RootDir"
    using "2.prems"(1,2) by (cases acc) (auto simp: path_pop_def path_parent_def)
  with 2 show ?case by simp
qed (auto simp: path_join_def)

lemma normalize_normal:
  assumes "path_ok p"
  shows "path_normal (normalize_onto [] p)"
    and "path_normal p \<Longrightarrow> normalize_onto [] p = p"
    and "is_absolute p \<Longrightarrow> is_absolute (normalize_onto [] p)"
proof -
  have tail: "RootDir \<notin> set (tl p)" using assms by (auto simp: path_ok_def)
  show "path_normal (normalize_onto [] p)"
  proof (cases p)
    case Nil
    then show ?thesis by (simp add: path_normal_def path_ok_def)
  next
    case (Cons c cs)
    have "path_normal [RootDir]" "path_normal []" by (simp_all add: path_normal_def path_ok_def)
    then show ?thesis using Cons tail normalize_onto_normal [of "[RootDir]" cs]
      normalize_onto_normal [of "[]" cs] normalize_onto_normal [of "[Normal n]" cs for n]
      path_normal_snoc_Normal [of "[]"]
      by (cases c) (auto simp: path_pop_def path_join_def)
  qed
  show "is_absolute p \<Longrightarrow> is_absolute (normalize_onto [] p)"
    using tail normalize_head_root [of "[RootDir]" "tl p"]
    by (cases p) (auto simp: is_absolute_def path_join_def)
  show "normalize_onto [] p = p" if "path_normal p"
  proof (cases p)
    case Nil
    then show ?thesis by simp
  next
    case (Cons c cs)
    have "\<exists>n. x = Normal n" if "x \<in> set cs" for x
      using that \<open>path_normal p\<close> Cons component.exhaust [of x]
      by (simp add: path_normal_def path_ok_def) blast
    then have "normalize_onto acc cs = acc @ cs" for acc by (intro normalize_onto_id) blast
    then show ?thesis using Cons \<open>path_normal p\<close>
      by (cases c) (auto simp: path_join_def path_normal_def)
  qed
qed

text \<open>
  \<open>canonicalize\<close> answers only with an existing path in normal form, which is its own
  canonical form and absolute when the argument is; a missing path is an error that names the
  normalized path.
\<close>

theorem canonical_paths_are_normal:
  assumes "path_ok p"
  shows "case im_canonicalize fs p of
      Inr q \<Rightarrow> path_normal q \<and> im_exists fs q = Inr True \<and> im_canonicalize fs q = Inr q \<and>
        (is_absolute p \<longrightarrow> is_absolute q)
    | Inl e \<Rightarrow> ie_kind e = NotFound \<and> path_normal (ie_path e) \<and> im_exists fs (ie_path e) = Inr False"
proof -
  define n where "n = normalize_onto [] p"
  have "path_normal n" and "is_absolute p \<longrightarrow> is_absolute n"
    using normalize_normal [OF assms] by (simp_all add: n_def)
  moreover from this(1) have "normalize_onto [] n = n"
    by (intro normalize_normal(2)) (simp_all add: path_normal_def)
  moreover have "im_canonicalize fs p = (if hm_contains_key (entries fs) n then Inr n else Inl (not_found n))"
    by (simp add: im_canonicalize_def n_def Let_def)
  ultimately show ?thesis
    by (simp add: im_canonicalize_def im_exists_def not_found_def Let_def)
qed

lemma canonical_paths_are_normal_witness:
  "path_normal [RootDir, Normal ''b''] \<and>
   im_canonicalize (fst (load_snapshot im_new [RootDir] sample_snapshot))
     [RootDir, Normal ''a'', ParentDir, Normal ''b''] = Inr [RootDir, Normal ''b'']"
proof -
  let ?fs = "fst (load_snapshot im_new [RootDir] sample_snapshot)"
  have ok: "path_ok [RootDir, Normal ''a'', ParentDir, Normal ''b'']" by (simp add: path_ok_def)
  have "im_canonicalize ?fs [RootDir, Normal ''a'', ParentDir, Normal ''b''] = Inr [RootDir, Normal ''b'']"
    by (simp add: im_canonicalize_def Let_def path_join_def path_pop_def path_parent_def
        sample_snapshot_def link_parent_def im_new_def)
  with canonical_paths_are_normal [OF ok, of ?fs] show ?thesis by simp
qed

text \<open>
  Removing a directory tree succeeds exactly for a directory, deletes it, and (in a file
  system whose directories list only their own children, which loading preserves) leaves every
  entry that is not below it as it was.  The removed path is \<^emph>\<open>not\<close> taken out of its parent's
  listing: a parent that listed it before still does.
\<close>

theorem remove_dir_all_effect:
  assumes "children_below (entries fs)" and "im_remove_dir_all fs p = (fs', r)"
  shows "(r = Inr () \<longleftrightarrow> im_metadata fs p = Inr \<lparr>is_file = False\<rparr>) \<and>
    (r \<noteq> Inr () \<longrightarrow> fs' = fs) \<and>
    (r = Inr () \<longrightarrow>
      im_exists fs' p = Inr False \<and>
      (\<forall>q. \<not> path_starts_with q p \<longrightarrow> im_read fs' q = im_read fs q \<and> im_read_dir fs' q = im_read_dir fs q))"
proof -
  have "im_exists fs' p = Inr False" if "fs' = im_remove fs p"
    using that by (simp add: im_exists_def im_remove_def remove_loop_queued del: remove_loop.simps)
  moreover have "hm_get (entries fs') q = hm_get (entries fs) q"
    if "fs' = im_remove fs p" "\<not> path_starts_with q p" for q
    using that assms(1) by (simp add: im_remove_def remove_loop_frame [where root = p] del: remove_loop.simps)
  moreover have "r = Inr () \<and> fs' = im_remove fs p" if "hm_get (entries fs) p = Some (Dir cs)" for cs
    using that assms(2) by (simp add: im_remove_dir_all_def)
  moreover have "r \<noteq> Inr () \<and> fs' = fs" if "\<nexists>cs. hm_get (entries fs) p = Some (Dir cs)"
    using that assms(2) by (auto simp: im_remove_dir_all_def split: option.splits entry.splits)
  moreover have "im_metadata fs p = Inr \<lparr>is_file = False\<rparr> \<longleftrightarrow> (\<exists>cs. hm_get (entries fs) p = Some (Dir cs))"
    by (simp add: im_metadata_def split: option.split entry.split)
  ultimately show ?thesis
    unfolding im_read_def im_read_dir_def by (cases "\<exists>cs. hm_get (entries fs) p = Some (Dir cs)") auto
qed

lemma remove_dir_all_effect_witness:
  "\<exists>fs'. im_remove_dir_all (fst (load_snapshot im_new [RootDir] sample_snapshot)) [RootDir, Normal ''a'']
      = (fs', Inr ()) \<and>
    im_exists fs' [RootDir, Normal ''a''] = Inr False \<and> im_read fs' [RootDir, Normal ''b''] = Inr ''hi'' \<and>
    im_read_dir fs' [RootDir] = Inr [Inr [RootDir, Normal ''a''], Inr [RootDir, Normal ''b'']]"
proof -
  let ?fs = "fst (load_snapshot im_new [RootDir] sample_snapshot)"
  have "children_below (entries im_new)" by (simp add: children_below_def im_new_def)
  then have below: "children_below (entries ?fs)" by (rule load_keeps_children_below)
  obtain fs' r where rm: "im_remove_dir_all ?fs [RootDir, Normal ''a''] = (fs', r)"
    by (cases "im_remove_dir_all ?fs [RootDir, Normal ''a'']")
  have fs: "entries ?fs = [([RootDir], Dir [[RootDir, Normal ''a''], [RootDir, Normal ''b'']]),
      ([RootDir, Normal ''b''], File ''hi''), ([RootDir, Normal ''a''], Dir [])]"
    by (simp add: sample_snapshot_def link_parent_def im_new_def path_parent_def insort_insert_key_def
        less_eq_component_def less_component_def)
  show ?thesis
    using remove_dir_all_effect [OF below rm] rm
    by (auto simp: im_metadata_def im_read_def im_read_dir_def path_starts_with_def fs)
qed


section \<open>Creating a directory that exists\<close>

lemma load_empty_dir:
  assumes "load_snapshot fs p empty_dir = (fs', Inr ())"
  shows "hm_get (entries fs') p = Some (Dir [])" "q \<noteq> p \<Longrightarrow> path_parent p \<noteq> Some q \<Longrightarrow> hm_get (entries fs') q = hm_get (entries fs) q"
  using assms by (cases rule: link_parent_cases [of p fs]; auto simp: empty_dir_def)+

lemma create_ancestors_frame:
  "create_ancestors fs p = (fs', Inr ()) \<Longrightarrow> \<not> path_starts_with p q \<Longrightarrow> hm_get (entries fs') q = hm_get (entries fs) q"
proof (induction fs p rule: create_ancestors.induct)
  case (1 fs p)
  show ?case
  proof (cases "path_parent p")
    case None
    with 1 show ?thesis by (simp add: create_ancestors.simps [of fs p])
  next
    case (Some parent)
    then obtain fs1 where fs1: "load_snapshot fs parent empty_dir = (fs1, Inr ())"
      and rest: "create_ancestors fs1 parent = (fs', Inr ())"
      using 1(2) by (auto simp: create_ancestors.simps [of fs p] split: prod.splits sum.splits)
    note up = path_parent_starts_with
    have "\<not> path_starts_with parent q"
      using 1(3) up [OF Some] path_starts_with_trans by blast
    moreover from this have "q \<noteq> parent" "path_parent parent \<noteq> Some q" using up by auto
    ultimately show ?thesis
      using 1(1) [OF Some fs1 [symmetric]] rest load_empty_dir(2) [OF fs1] by auto
  qed
qed

text \<open>
  \<open>create_dir_all\<close> of a directory that exists forgets its contents: it is listed as empty
  afterwards, although every file below it can still be read.
\<close>

lemma create_dir_all_forgets_children:
  assumes "im_create_dir_all fs p = (fs', Inr ())"
  shows "im_read_dir fs' p = Inr []" and "\<not> path_starts_with p q \<Longrightarrow> im_read fs' q = im_read fs q"
proof -
  from assms obtain fs1 where fs1: "create_ancestors fs p = (fs1, Inr ())"
    and last: "load_snapshot fs1 p empty_dir = (fs', Inr ())"
    by (auto simp: im_create_dir_all_def split: prod.splits sum.splits)
  show "im_read_dir fs' p = Inr []" by (simp add: im_read_dir_def load_empty_dir(1) [OF last])
  assume q: "\<not> path_starts_with p q"
  then have "q \<noteq> p" "path_parent p \<noteq> Some q" using path_parent_starts_with by auto
  then show "im_read fs' q = im_read fs q"
    by (simp add: im_read_def load_empty_dir(2) [OF last] create_ancestors_frame [OF fs1 q])
qed

end
