(* ===== verification/Vfs.thy ===== *)
theory Vfs
  imports In_Memory_Fs
begin

text \<open>
  The virtual file system of memofs, \<open>src/crates/memofs/src/lib.rs\<close>, over the \<open>VfsBackend\<close>
  interface, with the backends \<open>NoopBackend\<close> (\<open>noop_backend.rs\<close>) and \<open>InMemoryFs\<close>.  A backend is
  a record of its operations on a state; \<open>Vfs\<close> and \<open>VfsLock\<close> delegate to \<open>VfsInner\<close> under a lock,
  so an operation is atomic.  The event receiver is the channel, which the backend owns.
\<close>

record 's backend_ops =
  be_read :: "'s \<Rightarrow> path \<Rightarrow> 's \<times> string io_result"
  be_write :: "'s \<Rightarrow> path \<Rightarrow> string \<Rightarrow> 's \<times> unit io_result"
  be_exists :: "'s \<Rightarrow> path \<Rightarrow> 's \<times> bool io_result"
  be_read_dir :: "'s \<Rightarrow> path \<Rightarrow> 's \<times> path io_result list io_result"
  be_create_dir :: "'s \<Rightarrow> path \<Rightarrow> 's \<times> unit io_result"
  be_create_dir_all :: "'s \<Rightarrow> path \<Rightarrow> 's \<times> unit io_result"
  be_metadata :: "'s \<Rightarrow> path \<Rightarrow> 's \<times> metadata io_result"
  be_remove_file :: "'s \<Rightarrow> path \<Rightarrow> 's \<times> unit io_result"
  be_remove_dir_all :: "'s \<Rightarrow> path \<Rightarrow> 's \<times> unit io_result"
  be_canonicalize :: "'s \<Rightarrow> path \<Rightarrow> 's \<times> path io_result"
  be_watch :: "'s \<Rightarrow> path \<Rightarrow> 's \<times> unit io_result"
  be_unwatch :: "'s \<Rightarrow> path \<Rightarrow> 's \<times> unit io_result"

definition noop_error :: io_error where
  "noop_error = \<lparr>ie_kind = OtherError, ie_message = ''NoopBackend doesn't do anything'', ie_path = []\<rparr>"

definition noop_backend :: "unit backend_ops" where
  "noop_backend =
     \<lparr>be_read = \<lambda>s _. (s, Inl noop_error), be_write = \<lambda>s _ _. (s, Inl noop_error),
      be_exists = \<lambda>s _. (s, Inl noop_error), be_read_dir = \<lambda>s _. (s, Inl noop_error),
      be_create_dir = \<lambda>s _. (s, Inl noop_error), be_create_dir_all = \<lambda>s _. (s, Inl noop_error),
      be_metadata = \<lambda>s _. (s, Inl noop_error), be_remove_file = \<lambda>s _. (s, Inl noop_error),
      be_remove_dir_all = \<lambda>s _. (s, Inl noop_error), be_canonicalize = \<lambda>s _. (s, Inl noop_error),
      be_watch = \<lambda>s _. (s, Inl noop_error), be_unwatch = \<lambda>s _. (s, Inl noop_error)\<rparr>"

definition in_memory_backend :: "in_memory_fs backend_ops" where
  "in_memory_backend =
     \<lparr>be_read = \<lambda>s p. (s, im_read s p), be_write = im_write,
      be_exists = \<lambda>s p. (s, im_exists s p), be_read_dir = \<lambda>s p. (s, im_read_dir s p),
      be_create_dir = im_create_dir, be_create_dir_all = im_create_dir_all,
      be_metadata = \<lambda>s p. (s, im_metadata s p), be_remove_file = im_remove_file,
      be_remove_dir_all = im_remove_dir_all, be_canonicalize = \<lambda>s p. (s, im_canonicalize s p),
      be_watch = im_watch, be_unwatch = im_unwatch\<rparr>"

record 's vfs =
  backend :: 's
  watch_enabled :: bool

definition vfs_new :: "'s \<Rightarrow> 's vfs" where
  "vfs_new b = \<lparr>backend = b, watch_enabled = True\<rparr>"

definition set_watch_enabled :: "'s vfs \<Rightarrow> bool \<Rightarrow> 's vfs" where
  "set_watch_enabled v enabled = v\<lparr>watch_enabled := enabled\<rparr>"

text \<open>A backend call on the state of a \<open>Vfs\<close>.\<close>

definition on_backend :: "'s vfs \<Rightarrow> ('s \<Rightarrow> 's \<times> 'a) \<Rightarrow> 's vfs \<times> 'a" where
  "on_backend v f = (case f (backend v) of (s, r) \<Rightarrow> (v\<lparr>backend := s\<rparr>, r))"

text \<open>What \<open>read\<close>, \<open>read_to_string\<close> and \<open>read_dir\<close> share: on success the path is watched.\<close>

definition then_watch :: "'s backend_ops \<Rightarrow> 's vfs \<Rightarrow> path \<Rightarrow> ('s \<Rightarrow> 's \<times> 'a io_result) \<Rightarrow>
    's vfs \<times> 'a io_result" where
  "then_watch ops v p f =
     (case on_backend v f of
        (v1, Inl e) \<Rightarrow> (v1, Inl e)
      | (v1, Inr x) \<Rightarrow>
          (if watch_enabled v1
           then (case on_backend v1 (\<lambda>s. be_watch ops s p) of
                   (v2, Inl e) \<Rightarrow> (v2, Inl e)
                 | (v2, Inr _) \<Rightarrow> (v2, Inr x))
           else (v1, Inr x)))"

definition vfs_read :: "'s backend_ops \<Rightarrow> 's vfs \<Rightarrow> path \<Rightarrow> 's vfs \<times> string io_result" where
  "vfs_read ops v p = then_watch ops v p (\<lambda>s. be_read ops s p)"

definition not_utf8 :: "path \<Rightarrow> io_error" where
  "not_utf8 p = \<lparr>ie_kind = InvalidData, ie_message = ''File was not valid UTF-8'', ie_path = p\<rparr>"

definition vfs_read_to_string :: "'s backend_ops \<Rightarrow> 's vfs \<Rightarrow> path \<Rightarrow> 's vfs \<times> string io_result" where
  "vfs_read_to_string ops v p =
     (case then_watch ops v p (\<lambda>s. be_read ops s p) of
        (v', Inl e) \<Rightarrow> (v', Inl e)
      | (v', Inr contents) \<Rightarrow>
          (v', if utf8_valid contents then Inr contents else Inl (not_utf8 p)))"

definition vfs_exists :: "'s backend_ops \<Rightarrow> 's vfs \<Rightarrow> path \<Rightarrow> 's vfs \<times> bool io_result" where
  "vfs_exists ops v p = on_backend v (\<lambda>s. be_exists ops s p)"

definition vfs_write :: "'s backend_ops \<Rightarrow> 's vfs \<Rightarrow> path \<Rightarrow> string \<Rightarrow> 's vfs \<times> unit io_result" where
  "vfs_write ops v p contents = on_backend v (\<lambda>s. be_write ops s p contents)"

definition vfs_read_dir :: "'s backend_ops \<Rightarrow> 's vfs \<Rightarrow> path \<Rightarrow> 's vfs \<times> path io_result list io_result" where
  "vfs_read_dir ops v p = then_watch ops v p (\<lambda>s. be_read_dir ops s p)"

definition vfs_create_dir :: "'s backend_ops \<Rightarrow> 's vfs \<Rightarrow> path \<Rightarrow> 's vfs \<times> unit io_result" where
  "vfs_create_dir ops v p = on_backend v (\<lambda>s. be_create_dir ops s p)"

definition vfs_create_dir_all :: "'s backend_ops \<Rightarrow> 's vfs \<Rightarrow> path \<Rightarrow> 's vfs \<times> unit io_result" where
  "vfs_create_dir_all ops v p = on_backend v (\<lambda>s. be_create_dir_all ops s p)"

text \<open>The result of \<open>unwatch\<close> is dropped.\<close>

definition vfs_unwatch :: "'s backend_ops \<Rightarrow> 's vfs \<Rightarrow> path \<Rightarrow> 's vfs" where
  "vfs_unwatch ops v p = fst (on_backend v (\<lambda>s. be_unwatch ops s p))"

definition vfs_remove_file :: "'s backend_ops \<Rightarrow> 's vfs \<Rightarrow> path \<Rightarrow> 's vfs \<times> unit io_result" where
  "vfs_remove_file ops v p = on_backend (vfs_unwatch ops v p) (\<lambda>s. be_remove_file ops s p)"

definition vfs_remove_dir_all :: "'s backend_ops \<Rightarrow> 's vfs \<Rightarrow> path \<Rightarrow> 's vfs \<times> unit io_result" where
  "vfs_remove_dir_all ops v p = on_backend (vfs_unwatch ops v p) (\<lambda>s. be_remove_dir_all ops s p)"

definition vfs_metadata :: "'s backend_ops \<Rightarrow> 's vfs \<Rightarrow> path \<Rightarrow> 's vfs \<times> metadata io_result" where
  "vfs_metadata ops v p = on_backend v (\<lambda>s. be_metadata ops s p)"

definition vfs_canonicalize :: "'s backend_ops \<Rightarrow> 's vfs \<Rightarrow> path \<Rightarrow> 's vfs \<times> path io_result" where
  "vfs_canonicalize ops v p = on_backend v (\<lambda>s. be_canonicalize ops s p)"

definition commit_event :: "'s backend_ops \<Rightarrow> 's vfs \<Rightarrow> vfs_event \<Rightarrow> 's vfs \<times> unit io_result" where
  "commit_event ops v ev =
     (case ev of
        Remove p \<Rightarrow> (vfs_unwatch ops v p, Inr ())
      | _ \<Rightarrow> (v, Inr ()))"

text \<open>\<open>str::replace\<close> of a carriage return and line feed by a line feed, left to right.\<close>

fun crlf_to_lf :: "string \<Rightarrow> string" where
  "crlf_to_lf (a # b # rest) =
     (if a = CHR 0x0D \<and> b = CHR 0x0A then CHR 0x0A # crlf_to_lf rest else a # crlf_to_lf (b # rest))"
| "crlf_to_lf s = s"

definition vfs_read_to_string_lf_normalized ::
    "'s backend_ops \<Rightarrow> 's vfs \<Rightarrow> path \<Rightarrow> 's vfs \<times> string io_result" where
  "vfs_read_to_string_lf_normalized ops v p =
     (case vfs_read_to_string ops v p of
        (v', Inl e) \<Rightarrow> (v', Inl e)
      | (v', Inr contents) \<Rightarrow> (v', Inr (crlf_to_lf contents)))"


lemma then_watch_query:
  assumes "\<And>s. fst (f s) = s"
  shows "then_watch ops v p f =
    (case snd (f (backend v)) of
       Inl e \<Rightarrow> (v, Inl e)
     | Inr x \<Rightarrow>
         (if watch_enabled v
          then (v\<lparr>backend := fst (be_watch ops (backend v) p)\<rparr>,
                map_sum id (\<lambda>_. x) (snd (be_watch ops (backend v) p)))
          else (v, Inr x)))"
proof -
  have "f (backend v) = (backend v, snd (f (backend v)))"
    using assms [of "backend v"] by (simp add: prod_eq_iff)
  then show ?thesis
    by (cases "snd (f (backend v))"; cases "be_watch ops (backend v) p"; cases "snd (be_watch ops (backend v) p)")
      (simp_all add: then_watch_def on_backend_def)
qed

lemma map_sum_eq_Inr: "map_sum f g x = Inr y \<longleftrightarrow> (\<exists>z. x = Inr z \<and> y = g z)"
  by (cases x) auto


section \<open>The contract of a backend\<close>

text \<open>
  What a client of \<open>Vfs\<close> relies on: the backend shows a partial map from paths to files (their
  bytes) or directories; queries do not change it and agree with it; a successful write binds the
  path to the bytes and changes no other file; a removed file is gone and nothing else changes.
\<close>

datatype node = AFile string | ADir

locale vfs_backend =
  fixes ops :: "'s backend_ops" and view :: "'s \<Rightarrow> path \<Rightarrow> node option"
  assumes read: "\<And>s p. fst (be_read ops s p) = s \<and>
      (case view s p of
         Some (AFile c) \<Rightarrow> snd (be_read ops s p) = Inr c
       | Some ADir \<Rightarrow> \<exists>e. snd (be_read ops s p) = Inl e \<and> ie_kind e \<noteq> NotFound
       | None \<Rightarrow> \<exists>e. snd (be_read ops s p) = Inl e \<and> ie_kind e = NotFound)"
    and exists: "\<And>s p. be_exists ops s p = (s, Inr (view s p \<noteq> None))"
    and metadata: "\<And>s p. fst (be_metadata ops s p) = s \<and>
      (case view s p of
         Some n \<Rightarrow> snd (be_metadata ops s p) = Inr \<lparr>is_file = (n \<noteq> ADir)\<rparr>
       | None \<Rightarrow> \<exists>e. snd (be_metadata ops s p) = Inl e \<and> ie_kind e = NotFound)"
    and written: "\<And>s p c s' r. be_write ops s p c = (s', r) \<Longrightarrow>
      view s' = (if r = Inr () then (view s)(p \<mapsto> AFile c) else view s)"
    and write_in_dir: "\<And>s p c pp. path_parent p = Some pp \<Longrightarrow> view s pp = Some ADir \<Longrightarrow>
      snd (be_write ops s p c) = Inr ()"
    and remove_file: "\<And>s p s' r. be_remove_file ops s p = (s', r) \<Longrightarrow>
      view s' = (if r = Inr () then (view s)(p := None) else view s) \<and>
      (r = Inr () \<longleftrightarrow> (\<exists>c. view s p = Some (AFile c)))"
    and watch: "\<And>s p. view (fst (be_watch ops s p)) = view s"
    and watch_ok: "\<And>s p. view s p \<noteq> None \<Longrightarrow> snd (be_watch ops s p) = Inr ()"
    and unwatch: "\<And>s p. view (fst (be_unwatch ops s p)) = view s"
    and canonicalize: "\<And>s p. fst (be_canonicalize ops s p) = s"
begin

lemma then_watch_view:
  assumes "then_watch ops v p f = (v', r)" and "\<And>s. fst (f s) = s"
  shows "view (backend v') = view (backend v) \<and> watch_enabled v' = watch_enabled v"
  using assms(1) watch [of "backend v" p]
  by (auto simp: then_watch_query [OF assms(2)] split: sum.splits if_splits)

lemma then_watch_result:
  assumes "\<And>s. fst (f s) = s" and "view (backend v) p \<noteq> None"
  shows "snd (then_watch ops v p f) = snd (f (backend v))"
  using watch_ok [OF assms(2)]
  by (simp add: then_watch_query [OF assms(1)] split: sum.split)

lemma then_watch_error:
  assumes "snd (f (backend v)) = Inl e"
  shows "snd (then_watch ops v p f) = Inl e"
  using assms by (auto simp: then_watch_def on_backend_def split: prod.split)

lemma read_file:
  assumes "view (backend v) p = Some (AFile c)"
  shows "snd (vfs_read ops v p) = Inr c"
  using then_watch_result [of "\<lambda>s. be_read ops s p" v p] read [of _ p] read [of "backend v" p] assms
  by (simp add: vfs_read_def)

lemma read_iff: "snd (vfs_read ops v p) = Inr c \<longleftrightarrow> view (backend v) p = Some (AFile c)"
proof
  assume got: "snd (vfs_read ops v p) = Inr c"
  have "snd (be_read ops (backend v) p) = Inr d" if "snd (vfs_read ops v p) = Inr d" for d
    using then_watch_error [of "\<lambda>s. be_read ops s p" v _ p] that
    by (cases "snd (be_read ops (backend v) p)")
      (auto simp: vfs_read_def then_watch_query read [THEN conjunct1] map_sum_eq_Inr split: if_splits)
  from this [OF got] show "view (backend v) p = Some (AFile c)"
    using read [of "backend v" p] by (auto split: option.splits node.splits)
qed (rule read_file)

lemma read_text:
  assumes "view (backend v) p = Some (AFile c)"
  shows "snd (vfs_read_to_string_lf_normalized ops v p) =
    (if utf8_valid c then Inr (crlf_to_lf c) else Inl (not_utf8 p))"
  using read_file [OF assms]
  by (auto simp: vfs_read_to_string_lf_normalized_def vfs_read_to_string_def vfs_read_def
      split: prod.splits sum.splits)

lemma read_missing:
  assumes "view (backend v) p = None"
  shows "with_not_found (snd (vfs_read_to_string ops v p)) = Inr None"
proof -
  obtain e where e: "snd (be_read ops (backend v) p) = Inl e" "ie_kind e = NotFound"
    using read [of "backend v" p] assms by auto
  from e(1) have "snd (then_watch ops v p (\<lambda>s. be_read ops s p)) = Inl e" by (rule then_watch_error)
  with e(2) show ?thesis
    by (auto simp: vfs_read_to_string_def with_not_found_def split: prod.splits)
qed

lemma write_view:
  assumes "vfs_write ops v p c = (v', r)"
  shows "view (backend v') = (if r = Inr () then (view (backend v))(p \<mapsto> AFile c) else view (backend v))"
  using assms written [of "backend v" p c] by (auto simp: vfs_write_def on_backend_def split: prod.splits)

lemma remove_view:
  assumes "vfs_remove_file ops v p = (v', r)"
  shows "view (backend v') = (if r = Inr () then (view (backend v))(p := None) else view (backend v)) \<and>
    (r = Inr () \<longleftrightarrow> (\<exists>c. view (backend v) p = Some (AFile c)))"
proof -
  have "view (backend (vfs_unwatch ops v p)) = view (backend v)"
    using unwatch [of "backend v" p] by (auto simp: vfs_unwatch_def on_backend_def split: prod.split)
  moreover obtain s' where "be_remove_file ops (backend (vfs_unwatch ops v p)) p = (s', r)" "backend v' = s'"
    using assms by (auto simp: vfs_remove_file_def on_backend_def split: prod.splits)
  ultimately show ?thesis using remove_file [of "backend (vfs_unwatch ops v p)" p s' r] by simp
qed

lemma commit_view: "view (backend (fst (commit_event ops v ev))) = view (backend v)"
  using unwatch by (auto simp: commit_event_def vfs_unwatch_def on_backend_def split: vfs_event.split prod.split)
    (metis fst_conv)

lemma canonicalize_query: "vfs_canonicalize ops v p = (v, snd (be_canonicalize ops (backend v) p))"
  using canonicalize [of "backend v" p]
  by (auto simp: vfs_canonicalize_def on_backend_def split: prod.split)

lemma metadata_query:
  "vfs_metadata ops v p = (v, snd (be_metadata ops (backend v) p))"
  "with_not_found (snd (be_metadata ops (backend v) p)) = Inr None \<longleftrightarrow> view (backend v) p = None"
  using metadata [of "backend v" p]
  by (auto simp: vfs_metadata_def on_backend_def with_not_found_def split: prod.split option.splits)

lemma write_frame:
  assumes "vfs_write ops v p c = (v', Inr ())"
  shows "snd (vfs_read ops v' q) = Inr d \<longleftrightarrow>
    (if q = p then d = c else snd (vfs_read ops v q) = Inr d)"
  using write_view [OF assms] by (auto simp: read_iff)

lemma remove_frame:
  assumes "vfs_remove_file ops v p = (v', Inr ())"
  shows "snd (vfs_read ops v' q) = Inr d \<longleftrightarrow> q \<noteq> p \<and> snd (vfs_read ops v q) = Inr d"
  using remove_view [OF assms] by (auto simp: read_iff)

end


section \<open>The in-memory backend keeps the contract\<close>

fun node_of :: "entry \<Rightarrow> node" where
  "node_of (File c) = AFile c"
| "node_of (Dir _) = ADir"

definition im_view :: "in_memory_fs \<Rightarrow> path \<Rightarrow> node option" where
  "im_view fs p = map_option node_of (hm_get (entries fs) p)"

lemma node_of_add_child [simp]: "map_option node_of (add_child p e) = map_option node_of e"
  by (cases "(p, e)" rule: add_child.cases) auto

lemma im_write_view:
  assumes "im_write fs p c = (fs', r)"
  shows "im_view fs' = (if r = Inr () then (im_view fs)(p \<mapsto> AFile c) else im_view fs)"
proof (cases rule: link_parent_cases [of p fs])
  case (fails pp c)
  with assms show ?thesis by (auto simp: im_write_def)
next
  case (links fs1)
  then have "hm_get (entries fs') q = (if q = p then Some (File c) else
      if path_parent p = Some q then add_child p (hm_get (entries fs) q) else hm_get (entries fs) q)" for q
    using assms by (auto simp: im_write_def)
  moreover have "r = Inr ()" using links assms by (auto simp: im_write_def)
  ultimately show ?thesis by (auto simp: im_view_def)
qed

lemma im_write_in_dir:
  assumes "path_parent p = Some pp" and "im_view fs pp = Some ADir"
  shows "snd (im_write fs p c) = Inr ()"
proof (cases rule: link_parent_cases [of p fs])
  case (fails pp c)
  with assms show ?thesis by (simp add: im_view_def)
next
  case (links fs1)
  then show ?thesis by (simp add: im_write_def)
qed

interpretation imfs: vfs_backend in_memory_backend im_view
proof (unfold_locales, goal_cases)
  case (1 s p)
  then show ?case
    by (auto simp: in_memory_backend_def im_view_def im_read_def must_be_file_def not_found_def
        split: option.splits entry.splits)
next
  case (2 s p)
  then show ?case by (auto simp: in_memory_backend_def im_view_def im_exists_def)
next
  case (3 s p)
  then show ?case
    by (auto simp: in_memory_backend_def im_view_def im_metadata_def not_found_def
        split: option.splits entry.splits)
next
  case (4 s p c s' r)
  then show ?case using im_write_view by (simp add: in_memory_backend_def)
next
  case (5 s p c pp)
  then show ?case using im_write_in_dir by (simp add: in_memory_backend_def)
next
  case (6 s p s' r)
  then show ?case
    by (auto simp: in_memory_backend_def im_remove_file_def im_view_def im_remove_def fun_eq_iff
        split: option.splits entry.splits)
next
  case (7 s p)
  then show ?case by (simp add: in_memory_backend_def im_watch_def)
next
  case (8 s p)
  then show ?case by (simp add: in_memory_backend_def im_watch_def)
next
  case (9 s p)
  then show ?case by (simp add: in_memory_backend_def im_unwatch_def)
next
  case (10 s p)
  then show ?case by (simp add: in_memory_backend_def)
qed


section \<open>Properties\<close>

text \<open>
  A successful write through the virtual file system reads back: as raw bytes, and as text with
  line feeds only when it is valid UTF-8 (an \<open>InvalidData\<close> error naming the path otherwise).
  Every other file reads as before, a failed write changes no file, and a write into an existing
  directory succeeds.  Both settings of the watcher give the same results.
\<close>

theorem vfs_write_then_read:
  assumes "vfs_write in_memory_backend v p c = (v', r)"
  shows "(r = Inr () \<longrightarrow>
      snd (vfs_read in_memory_backend v' p) = Inr c \<and>
      snd (vfs_read_to_string_lf_normalized in_memory_backend v' p) =
        (if utf8_valid c then Inr (crlf_to_lf c) else Inl (not_utf8 p))) \<and>
    (\<forall>q d. q \<noteq> p \<or> r \<noteq> Inr () \<longrightarrow>
      snd (vfs_read in_memory_backend v' q) = Inr d \<longleftrightarrow> snd (vfs_read in_memory_backend v q) = Inr d) \<and>
    (\<forall>pp. path_parent p = Some pp \<longrightarrow>
      snd (vfs_metadata in_memory_backend v pp) = Inr \<lparr>is_file = False\<rparr> \<longrightarrow> r = Inr ())"
proof (intro conjI impI allI)
  assume ok: "r = Inr ()"
  then show "snd (vfs_read in_memory_backend v' p) = Inr c"
    using imfs.write_frame assms by simp
  then show "snd (vfs_read_to_string_lf_normalized in_memory_backend v' p) =
      (if utf8_valid c then Inr (crlf_to_lf c) else Inl (not_utf8 p))"
    by (intro imfs.read_text) (simp add: imfs.read_iff)
next
  fix q d
  assume "q \<noteq> p \<or> r \<noteq> Inr ()"
  then show "snd (vfs_read in_memory_backend v' q) = Inr d \<longleftrightarrow> snd (vfs_read in_memory_backend v q) = Inr d"
    using imfs.write_view [OF assms] by (auto simp: imfs.read_iff)
next
  fix pp
  assume parent: "path_parent p = Some pp" "snd (vfs_metadata in_memory_backend v pp) = Inr \<lparr>is_file = False\<rparr>"
  then have "im_view (backend v) pp = Some ADir"
    using imfs.metadata [of "backend v" pp]
    by (auto simp: vfs_metadata_def on_backend_def split: option.splits prod.splits)
  from imfs.write_in_dir [OF parent(1) this, of c] show "r = Inr ()"
    using assms by (auto simp: vfs_write_def on_backend_def split: prod.splits)
qed

lemma vfs_write_then_read_witness:
  "\<exists>v'. vfs_write in_memory_backend (vfs_new im_new) [Normal ''x''] [CHR 0x0D, CHR 0x0A] = (v', Inr ()) \<and>
     snd (vfs_read_to_string_lf_normalized in_memory_backend v' [Normal ''x'']) = Inr [CHR 0x0A]"
proof -
  obtain v' where w: "vfs_write in_memory_backend (vfs_new im_new) [Normal ''x''] [CHR 0x0D, CHR 0x0A] = (v', Inr ())"
    by (simp add: vfs_write_def on_backend_def vfs_new_def in_memory_backend_def im_write_def
        link_parent_def im_new_def path_parent_def)
  have "utf8_valid [CHR 0x0D, CHR 0x0A]" by code_simp
  with vfs_write_then_read [OF w] w show ?thesis by simp
qed

text \<open>
  \<open>remove_file\<close> succeeds exactly on files; afterwards reading the path is \<open>NotFound\<close> (so
  \<open>with_not_found\<close> gives \<open>None\<close>), and every other file reads as before.
\<close>

theorem vfs_removed_file_is_gone:
  assumes "vfs_remove_file in_memory_backend v p = (v', r)"
  shows "(r = Inr () \<longleftrightarrow> (\<exists>c. snd (vfs_read in_memory_backend v p) = Inr c)) \<and>
    (r = Inr () \<longrightarrow>
      with_not_found (snd (vfs_read_to_string in_memory_backend v' p)) = Inr None \<and>
      (\<forall>q d. q \<noteq> p \<longrightarrow>
        snd (vfs_read in_memory_backend v' q) = Inr d \<longleftrightarrow> snd (vfs_read in_memory_backend v q) = Inr d))"
proof -
  have "im_view (backend v') p = None" if "r = Inr ()"
    using imfs.remove_view [OF assms] that by simp
  then show ?thesis
    using imfs.remove_view [OF assms] imfs.read_missing imfs.remove_frame assms by (auto simp: imfs.read_iff)
qed

lemma vfs_removed_file_is_gone_witness:
  "\<exists>v'. vfs_remove_file in_memory_backend
        (fst (vfs_write in_memory_backend (vfs_new im_new) [Normal ''x''] ''hi'')) [Normal ''x''] = (v', Inr ()) \<and>
     with_not_found (snd (vfs_read_to_string in_memory_backend v' [Normal ''x''])) = Inr None"
proof -
  let ?v = "fst (vfs_write in_memory_backend (vfs_new im_new) [Normal ''x''] ''hi'')"
  obtain v' where w: "vfs_remove_file in_memory_backend ?v [Normal ''x''] = (v', Inr ())"
    by (simp add: vfs_write_def vfs_remove_file_def vfs_unwatch_def on_backend_def vfs_new_def in_memory_backend_def
        im_write_def im_unwatch_def im_remove_file_def link_parent_def im_new_def path_parent_def)
  with vfs_removed_file_is_gone [OF w] show ?thesis by blast
qed

text \<open>
  A removed file stays listed: a file written into a directory and then removed no longer
  exists, yet \<open>read_dir\<close> of the directory still returns its path.
\<close>

theorem removed_file_stays_listed:
  assumes "path_parent p = Some pp" and "im_read_dir fs pp = Inr ps"
    and "im_write fs p c = (fs1, r)"
  shows "r = Inr () \<and>
    (\<exists>fs2 ps'. im_remove_file fs1 p = (fs2, Inr ()) \<and>
       im_exists fs2 p = Inr False \<and> im_read_dir fs2 pp = Inr ps' \<and> Inr p \<in> set ps')"
proof -
  have neq: "pp \<noteq> p" using path_parent_length [OF assms(1)] by auto
  obtain children where "hm_get (entries fs) pp = Some (Dir children)"
    using assms(2) by (auto simp: im_read_dir_def split: option.splits entry.splits)
  with assms(1,3) have "r = Inr ()"
    and fs1: "entries fs1 = hm_insert p (File c) (hm_insert pp (Dir (insort_insert p children)) (entries fs))"
    by (auto simp: im_write_def link_parent_def)
  with neq show ?thesis
    by (auto simp: im_remove_file_def im_remove_def im_exists_def im_read_dir_def set_insort_insert)
qed

lemma removed_file_stays_listed_witness:
  "\<exists>fs2 ps'. im_remove_file (fst (im_write (fst (load_snapshot im_new [] empty_dir)) [Normal ''x''] ''hi''))
       [Normal ''x''] = (fs2, Inr ()) \<and>
     im_exists fs2 [Normal ''x''] = Inr False \<and> im_read_dir fs2 [] = Inr ps' \<and> Inr [Normal ''x''] \<in> set ps'"
proof -
  let ?fs = "fst (load_snapshot im_new [] empty_dir)"
  have "path_parent [Normal ''x''] = Some []" by (simp add: path_parent_def)
  moreover have "im_read_dir ?fs [] = Inr []"
    by (simp add: empty_dir_def link_parent_def im_read_dir_def im_new_def)
  moreover have "im_write ?fs [Normal ''x''] ''hi'' = (fst (im_write ?fs [Normal ''x''] ''hi''),
      snd (im_write ?fs [Normal ''x''] ''hi''))" by simp
  ultimately show ?thesis by (rule removed_file_stays_listed [THEN conjunct2])
qed

text \<open>
  The line ending normalization drops exactly the carriage returns that stand directly before
  a line feed and keeps every other byte in order; text without such a pair is unchanged.
\<close>

theorem crlf_to_lf_drops_paired_cr:
  "crlf_to_lf s = map fst (filter (\<lambda>(a, b). \<not> (a = CHR 0x0D \<and> b = Some (CHR 0x0A)))
     (zip s (map Some (tl s) @ [None])))"
proof (induction s rule: crlf_to_lf.induct)
  case (1 a b rest)
  then show ?case by (cases rest) auto
qed auto

end
