(* ===== verification/Variants.thy ===== *)
theory Variants
  imports Prelude
begin

text \<open>
  Roblox property values, the type \<open>Variant\<close> of \<open>rbx_types\<close> as far as the source looks into it,
  and their comparison \<open>src/src/variant_eq.rs\<close>.  The crate is not part of the repository: a payload
  that the source only compares with \<open>==\<close> is a value of the type parameter \<open>'o\<close>, floats are their
  bits, and what the source calls of other crates (\<open>float_cmp::approx_eq\<close>, the encoding of material
  colors, the order an unstable sort leaves equal keys in) is a field of an environment.
\<close>

type_synonym f32 = "32 word"
type_synonym f64 = "64 word"

text \<open>IEEE 754 bits: what is not a number, and the comparison of the others.\<close>

definition is_nan32 :: "f32 \<Rightarrow> bool" where
  "is_nan32 w \<longleftrightarrow> take_bit 8 (drop_bit 23 w) = 0xFF \<and> take_bit 23 w \<noteq> 0"

definition is_nan64 :: "f64 \<Rightarrow> bool" where
  "is_nan64 w \<longleftrightarrow> take_bit 11 (drop_bit 52 w) = 0x7FF \<and> take_bit 52 w \<noteq> 0"

definition order32 :: "f32 \<Rightarrow> int" where
  "order32 w = (if bit w 31 then - uint (take_bit 31 w) else uint w)"

definition order64 :: "f64 \<Rightarrow> int" where
  "order64 w = (if bit w 63 then - uint (take_bit 63 w) else uint w)"

text \<open>The operator \<open>==\<close> on floats.\<close>

definition eq64 :: "f64 \<Rightarrow> f64 \<Rightarrow> bool" where
  "eq64 a b \<longleftrightarrow> \<not> is_nan64 a \<and> \<not> is_nan64 b \<and> order64 a = order64 b"

text \<open>A referent is none or one of the ids handed out.\<close>

datatype referent = NoRef | Ref nat

definition ref_is_some :: "referent \<Rightarrow> bool" where "ref_is_some r \<longleftrightarrow> r \<noteq> NoRef"
definition ref_is_none :: "referent \<Rightarrow> bool" where "ref_is_none r \<longleftrightarrow> r = NoRef"

record vector2 = v2_x :: f32 v2_y :: f32
record vector3 = v3_x :: f32 v3_y :: f32 v3_z :: f32
record matrix3 = m3_x :: vector3 m3_y :: vector3 m3_z :: vector3
record cframe = cf_position :: vector3 cf_orientation :: matrix3
record color3 = c3_r :: f32 c3_g :: f32 c3_b :: f32
record color_keypoint = ck_time :: f32 ck_color :: color3
record number_keypoint = nk_time :: f32 nk_value :: f32 nk_envelope :: f32
record number_range = nr_min :: f32 nr_max :: f32
record ray = ray_origin :: vector3 ray_direction :: vector3
record rect = rect_min :: vector2 rect_max :: vector2
record region3 = r3_min :: vector3 r3_max :: vector3
record udim = ud_scale :: f32 ud_offset :: "32 word"
record udim2 = ud2_x :: udim ud2_y :: udim
record 'o font = font_family :: string font_weight :: 'o font_style :: 'o font_cached_face_id :: "string option"
record custom_physical =
  density :: f32 friction :: f32 elasticity :: f32 friction_weight :: f32 elasticity_weight :: f32
  acoustic_absorption :: f32

datatype physical_properties = DefaultPhysical | CustomPhysical custom_physical

text \<open>The last constructor stands for the types the comparison does not list, by their name.\<close>

datatype 'o variant =
    VAttributes "(string \<times> 'o variant) list"
  | VAxes 'o
  | VBinaryString string
  | VBool bool
  | VBrickColor 'o
  | VCFrame cframe
  | VColor3 color3
  | VColor3uint8 'o
  | VColorSequence "color_keypoint list"
  | VContent 'o
  | VContentId string
  | VEnum u32
  | VEnumItem 'o
  | VFaces 'o
  | VFloat32 f32
  | VFloat64 f64
  | VFont "'o font"
  | VInt32 "32 word"
  | VInt64 "64 word"
  | VMaterialColors 'o
  | VNetAssetRef 'o
  | VNumberRange number_range
  | VNumberSequence "number_keypoint list"
  | VOptionalCFrame "cframe option"
  | VPhysicalProperties physical_properties
  | VRay ray
  | VRect rect
  | VRef referent
  | VRegion3 region3
  | VRegion3int16 'o
  | VSecurityCapabilities 'o
  | VSharedString 'o
  | VTags "string list"
  | VUDim udim
  | VUDim2 udim2
  | VUniqueId 'o
  | VString string
  | VVector2 vector2
  | VVector2int16 'o
  | VVector3 vector3
  | VVector3int16 'o
  | VOther string 'o

datatype variant_type =
    TAttributes
  | TAxes
  | TBinaryString
  | TBool
  | TBrickColor
  | TCFrame
  | TColor3
  | TColor3uint8
  | TColorSequence
  | TContent
  | TContentId
  | TEnum
  | TEnumItem
  | TFaces
  | TFloat32
  | TFloat64
  | TFont
  | TInt32
  | TInt64
  | TMaterialColors
  | TNetAssetRef
  | TNumberRange
  | TNumberSequence
  | TOptionalCFrame
  | TPhysicalProperties
  | TRay
  | TRect
  | TRef
  | TRegion3
  | TRegion3int16
  | TSecurityCapabilities
  | TSharedString
  | TTags
  | TUDim
  | TUDim2
  | TUniqueId
  | TString
  | TVector2
  | TVector2int16
  | TVector3
  | TVector3int16
  | TOther string

fun variant_ty :: "'o variant \<Rightarrow> variant_type" where
  "variant_ty (VAttributes _) = TAttributes"
| "variant_ty (VAxes _) = TAxes"
| "variant_ty (VBinaryString _) = TBinaryString"
| "variant_ty (VBool _) = TBool"
| "variant_ty (VBrickColor _) = TBrickColor"
| "variant_ty (VCFrame _) = TCFrame"
| "variant_ty (VColor3 _) = TColor3"
| "variant_ty (VColor3uint8 _) = TColor3uint8"
| "variant_ty (VColorSequence _) = TColorSequence"
| "variant_ty (VContent _) = TContent"
| "variant_ty (VContentId _) = TContentId"
| "variant_ty (VEnum _) = TEnum"
| "variant_ty (VEnumItem _) = TEnumItem"
| "variant_ty (VFaces _) = TFaces"
| "variant_ty (VFloat32 _) = TFloat32"
| "variant_ty (VFloat64 _) = TFloat64"
| "variant_ty (VFont _) = TFont"
| "variant_ty (VInt32 _) = TInt32"
| "variant_ty (VInt64 _) = TInt64"
| "variant_ty (VMaterialColors _) = TMaterialColors"
| "variant_ty (VNetAssetRef _) = TNetAssetRef"
| "variant_ty (VNumberRange _) = TNumberRange"
| "variant_ty (VNumberSequence _) = TNumberSequence"
| "variant_ty (VOptionalCFrame _) = TOptionalCFrame"
| "variant_ty (VPhysicalProperties _) = TPhysicalProperties"
| "variant_ty (VRay _) = TRay"
| "variant_ty (VRect _) = TRect"
| "variant_ty (VRef _) = TRef"
| "variant_ty (VRegion3 _) = TRegion3"
| "variant_ty (VRegion3int16 _) = TRegion3int16"
| "variant_ty (VSecurityCapabilities _) = TSecurityCapabilities"
| "variant_ty (VSharedString _) = TSharedString"
| "variant_ty (VTags _) = TTags"
| "variant_ty (VUDim _) = TUDim"
| "variant_ty (VUDim2 _) = TUDim2"
| "variant_ty (VUniqueId _) = TUniqueId"
| "variant_ty (VString _) = TString"
| "variant_ty (VVector2 _) = TVector2"
| "variant_ty (VVector2int16 _) = TVector2int16"
| "variant_ty (VVector3 _) = TVector3"
| "variant_ty (VVector3int16 _) = TVector3int16"
| "variant_ty (VOther name _) = TOther name"

text \<open>What the comparison uses of other crates, and the operator \<open>==\<close> on \<open>Variant\<close>, which the crate derives.\<close>

record 'o variant_env =
  approx_eq_f32 :: "f32 \<Rightarrow> f32 \<Rightarrow> bool"
  approx_eq_f64 :: "f64 \<Rightarrow> f64 \<Rightarrow> bool"
  material_encode :: "'o \<Rightarrow> string"
  sort_color_keypoints :: "color_keypoint list \<Rightarrow> color_keypoint list"
  sort_number_keypoints :: "number_keypoint list \<Rightarrow> number_keypoint list"
  variant_partial_eq :: "'o variant \<Rightarrow> 'o variant \<Rightarrow> bool"

text \<open>The macro \<open>approx_eq!\<close> at the two float types.\<close>

definition approx32 :: "'o variant_env \<Rightarrow> f32 \<Rightarrow> f32 \<Rightarrow> bool" where
  "approx32 env a b \<longleftrightarrow> approx_eq_f32 env a b \<or> is_nan32 a \<and> is_nan32 b"

definition approx64 :: "'o variant_env \<Rightarrow> f64 \<Rightarrow> f64 \<Rightarrow> bool" where
  "approx64 env a b \<longleftrightarrow> approx_eq_f64 env a b \<or> is_nan64 a \<and> is_nan64 b"

definition vector_eq :: "'o variant_env \<Rightarrow> vector3 \<Rightarrow> vector3 \<Rightarrow> bool" where
  "vector_eq env a b \<longleftrightarrow>
     approx32 env (v3_x a) (v3_x b) \<and> approx32 env (v3_y a) (v3_y b) \<and> approx32 env (v3_z a) (v3_z b)"

definition cframe_eq :: "'o variant_env \<Rightarrow> cframe \<Rightarrow> cframe \<Rightarrow> bool" where
  "cframe_eq env a b \<longleftrightarrow>
     vector_eq env (cf_position a) (cf_position b) \<and>
     vector_eq env (m3_x (cf_orientation a)) (m3_x (cf_orientation b)) \<and>
     vector_eq env (m3_y (cf_orientation a)) (m3_y (cf_orientation b)) \<and>
     vector_eq env (m3_z (cf_orientation a)) (m3_z (cf_orientation b))"

definition color3_eq :: "'o variant_env \<Rightarrow> color3 \<Rightarrow> color3 \<Rightarrow> bool" where
  "color3_eq env a b \<longleftrightarrow>
     approx32 env (c3_r a) (c3_r b) \<and> approx32 env (c3_g a) (c3_g b) \<and> approx32 env (c3_b a) (c3_b b)"

text \<open>Sorting by time unwraps \<open>partial_cmp\<close>: two or more keypoints with a NaN among them panic.\<close>

definition sortable :: "f32 list \<Rightarrow> bool" where
  "sortable ts \<longleftrightarrow> length ts \<ge> 2 \<longrightarrow> (\<forall>t \<in> set ts. \<not> is_nan32 t)"

definition color_sequence_eq ::
    "'o variant_env \<Rightarrow> color_keypoint list \<Rightarrow> color_keypoint list \<Rightarrow> bool option" where
  "color_sequence_eq env a b =
     (if length a \<noteq> length b then Some False
      else if \<not> (sortable (map ck_time a) \<and> sortable (map ck_time b)) then None
      else Some (\<forall>(a_kp, b_kp) \<in> set (zip (sort_color_keypoints env a) (sort_color_keypoints env b)).
        approx32 env (ck_time a_kp) (ck_time b_kp) \<and> color3_eq env (ck_color a_kp) (ck_color b_kp)))"

definition number_sequence_eq ::
    "'o variant_env \<Rightarrow> number_keypoint list \<Rightarrow> number_keypoint list \<Rightarrow> bool option" where
  "number_sequence_eq env a b =
     (if length a \<noteq> length b then Some False
      else if \<not> (sortable (map nk_time a) \<and> sortable (map nk_time b)) then None
      else Some (\<forall>(a_kp, b_kp) \<in> set (zip (sort_number_keypoints env a) (sort_number_keypoints env b)).
        approx32 env (nk_time a_kp) (nk_time b_kp) \<and> approx32 env (nk_value a_kp) (nk_value b_kp) \<and>
        approx32 env (nk_envelope a_kp) (nk_envelope b_kp)))"

definition font_eq :: "'o font \<Rightarrow> 'o font \<Rightarrow> bool" where
  "font_eq a b \<longleftrightarrow>
     font_weight a = font_weight b \<and> font_style a = font_style b \<and> font_family a = font_family b \<and>
     font_cached_face_id a = font_cached_face_id b"

definition number_range_eq :: "'o variant_env \<Rightarrow> number_range \<Rightarrow> number_range \<Rightarrow> bool" where
  "number_range_eq env a b \<longleftrightarrow> approx32 env (nr_max a) (nr_max b) \<and> approx32 env (nr_min a) (nr_min b)"

definition optional_cframe_eq :: "'o variant_env \<Rightarrow> cframe option \<Rightarrow> cframe option \<Rightarrow> bool" where
  "optional_cframe_eq env a b =
     (case (a, b) of
        (Some a, Some b) \<Rightarrow> cframe_eq env a b
      | (None, None) \<Rightarrow> True
      | _ \<Rightarrow> False)"

definition physical_properties_eq ::
    "'o variant_env \<Rightarrow> physical_properties \<Rightarrow> physical_properties \<Rightarrow> bool" where
  "physical_properties_eq env a b =
     (case (a, b) of
        (DefaultPhysical, DefaultPhysical) \<Rightarrow> True
      | (CustomPhysical a2, CustomPhysical b2) \<Rightarrow>
          approx32 env (density a2) (density b2) \<and> approx32 env (elasticity a2) (elasticity b2) \<and>
          approx32 env (friction a2) (friction b2) \<and>
          approx32 env (elasticity_weight a2) (elasticity_weight b2) \<and>
          approx32 env (friction_weight a2) (friction_weight b2) \<and>
          approx32 env (acoustic_absorption a2) (acoustic_absorption b2)
      | _ \<Rightarrow> False)"

definition ray_eq :: "'o variant_env \<Rightarrow> ray \<Rightarrow> ray \<Rightarrow> bool" where
  "ray_eq env a b \<longleftrightarrow>
     vector_eq env (ray_direction a) (ray_direction b) \<and> vector_eq env (ray_origin a) (ray_origin b)"

definition vector2_eq :: "'o variant_env \<Rightarrow> vector2 \<Rightarrow> vector2 \<Rightarrow> bool" where
  "vector2_eq env a b \<longleftrightarrow> approx32 env (v2_x a) (v2_x b) \<and> approx32 env (v2_y a) (v2_y b)"

definition rect_eq :: "'o variant_env \<Rightarrow> rect \<Rightarrow> rect \<Rightarrow> bool" where
  "rect_eq env a b \<longleftrightarrow>
     approx32 env (v2_x (rect_max a)) (v2_x (rect_max b)) \<and>
     approx32 env (v2_y (rect_max a)) (v2_y (rect_max b)) \<and>
     approx32 env (v2_x (rect_min a)) (v2_x (rect_min b)) \<and>
     approx32 env (v2_y (rect_min a)) (v2_y (rect_min b))"

definition region3_eq :: "'o variant_env \<Rightarrow> region3 \<Rightarrow> region3 \<Rightarrow> bool" where
  "region3_eq env a b \<longleftrightarrow> vector_eq env (r3_max a) (r3_max b) \<and> vector_eq env (r3_min a) (r3_min b)"

text \<open>The tags are compared in sorted order, as texts in the order of their bytes.\<close>

definition tags_eq :: "string list \<Rightarrow> string list \<Rightarrow> bool" where
  "tags_eq a b \<longleftrightarrow>
     length a = length b \<and> (\<forall>(a_tag, b_tag) \<in> set (zip (sort a) (sort b)). a_tag = b_tag)"

definition udim_eq :: "'o variant_env \<Rightarrow> udim \<Rightarrow> udim \<Rightarrow> bool" where
  "udim_eq env a b \<longleftrightarrow> approx32 env (ud_scale a) (ud_scale b) \<and> ud_offset a = ud_offset b"

definition udim2_eq :: "'o variant_env \<Rightarrow> udim2 \<Rightarrow> udim2 \<Rightarrow> bool" where
  "udim2_eq env a b \<longleftrightarrow>
     approx32 env (ud_scale (ud2_x a)) (ud_scale (ud2_x b)) \<and> ud_offset (ud2_x a) = ud_offset (ud2_x b) \<and>
     approx32 env (ud_scale (ud2_y a)) (ud_scale (ud2_y b)) \<and> ud_offset (ud2_y a) = ud_offset (ud2_y b)"

text \<open>
  \<open>variant_eq\<close>: \<open>None\<close> is a panic, either of the sort by time or of the arm for unlisted types.
  \<open>attribute_entries_eq\<close> is its loop over the two attribute maps, which are kept sorted by key.
\<close>

fun variant_eq :: "'o variant_env \<Rightarrow> 'o variant \<Rightarrow> 'o variant \<Rightarrow> bool option"
  and attribute_entries_eq ::
    "'o variant_env \<Rightarrow> (string \<times> 'o variant) list \<Rightarrow> (string \<times> 'o variant) list \<Rightarrow> bool option"
where
  "variant_eq env (VAttributes a) v =
     (if variant_ty v \<noteq> TAttributes then Some False
      else case v of VAttributes b \<Rightarrow> if length a \<noteq> length b then Some False else attribute_entries_eq env a b
      | _ \<Rightarrow> None)"
| "variant_eq env (VAxes a) v =
     (if variant_ty v \<noteq> TAxes then Some False else case v of VAxes b \<Rightarrow> Some (a = b) | _ \<Rightarrow> None)"
| "variant_eq env (VBinaryString a) v =
     (if variant_ty v \<noteq> TBinaryString then Some False else case v of VBinaryString b \<Rightarrow> Some (a = b) | _ \<Rightarrow> None)"
| "variant_eq env (VBool a) v =
     (if variant_ty v \<noteq> TBool then Some False else case v of VBool b \<Rightarrow> Some (a = b) | _ \<Rightarrow> None)"
| "variant_eq env (VBrickColor a) v =
     (if variant_ty v \<noteq> TBrickColor then Some False else case v of VBrickColor b \<Rightarrow> Some (a = b) | _ \<Rightarrow> None)"
| "variant_eq env (VCFrame a) v =
     (if variant_ty v \<noteq> TCFrame then Some False else case v of VCFrame b \<Rightarrow> Some (cframe_eq env a b) | _ \<Rightarrow> None)"
| "variant_eq env (VColor3 a) v =
     (if variant_ty v \<noteq> TColor3 then Some False else case v of VColor3 b \<Rightarrow> Some (color3_eq env a b) | _ \<Rightarrow> None)"
| "variant_eq env (VColor3uint8 a) v =
     (if variant_ty v \<noteq> TColor3uint8 then Some False else case v of VColor3uint8 b \<Rightarrow> Some (a = b) | _ \<Rightarrow> None)"
| "variant_eq env (VColorSequence a) v =
     (if variant_ty v \<noteq> TColorSequence then Some False else case v of VColorSequence b \<Rightarrow> color_sequence_eq env a b | _ \<Rightarrow> None)"
| "variant_eq env (VContent a) v =
     (if variant_ty v \<noteq> TContent then Some False else case v of VContent b \<Rightarrow> Some (a = b) | _ \<Rightarrow> None)"
| "variant_eq env (VContentId a) v =
     (if variant_ty v \<noteq> TContentId then Some False else case v of VContentId b \<Rightarrow> Some (a = b) | _ \<Rightarrow> None)"
| "variant_eq env (VEnum a) v =
     (if variant_ty v \<noteq> TEnum then Some False else case v of VEnum b \<Rightarrow> Some (a = b) | _ \<Rightarrow> None)"
| "variant_eq env (VEnumItem a) v =
     (if variant_ty v \<noteq> TEnumItem then Some False else case v of VEnumItem b \<Rightarrow> Some (a = b) | _ \<Rightarrow> None)"
| "variant_eq env (VFaces a) v =
     (if variant_ty v \<noteq> TFaces then Some False else case v of VFaces b \<Rightarrow> Some (a = b) | _ \<Rightarrow> None)"
| "variant_eq env (VFloat32 a) v =
     (if variant_ty v \<noteq> TFloat32 then Some False else case v of VFloat32 b \<Rightarrow> Some (approx32 env a b) | _ \<Rightarrow> None)"
| "variant_eq env (VFloat64 a) v =
     (if variant_ty v \<noteq> TFloat64 then Some False else case v of VFloat64 b \<Rightarrow> Some (approx64 env a b) | _ \<Rightarrow> None)"
| "variant_eq env (VFont a) v =
     (if variant_ty v \<noteq> TFont then Some False else case v of VFont b \<Rightarrow> Some (font_eq a b) | _ \<Rightarrow> None)"
| "variant_eq env (VInt32 a) v =
     (if variant_ty v \<noteq> TInt32 then Some False else case v of VInt32 b \<Rightarrow> Some (a = b) | _ \<Rightarrow> None)"
| "variant_eq env (VInt64 a) v =
     (if variant_ty v \<noteq> TInt64 then Some False else case v of VInt64 b \<Rightarrow> Some (a = b) | _ \<Rightarrow> None)"
| "variant_eq env (VMaterialColors a) v =
     (if variant_ty v \<noteq> TMaterialColors then Some False else case v of VMaterialColors b \<Rightarrow> Some (material_encode env a = material_encode env b) | _ \<Rightarrow> None)"
| "variant_eq env (VNetAssetRef a) v =
     (if variant_ty v \<noteq> TNetAssetRef then Some False else case v of VNetAssetRef b \<Rightarrow> Some (a = b) | _ \<Rightarrow> None)"
| "variant_eq env (VNumberRange a) v =
     (if variant_ty v \<noteq> TNumberRange then Some False else case v of VNumberRange b \<Rightarrow> Some (number_range_eq env a b) | _ \<Rightarrow> None)"
| "variant_eq env (VNumberSequence a) v =
     (if variant_ty v \<noteq> TNumberSequence then Some False else case v of VNumberSequence b \<Rightarrow> number_sequence_eq env a b | _ \<Rightarrow> None)"
| "variant_eq env (VOptionalCFrame a) v =
     (if variant_ty v \<noteq> TOptionalCFrame then Some False else case v of VOptionalCFrame b \<Rightarrow> Some (optional_cframe_eq env a b) | _ \<Rightarrow> None)"
| "variant_eq env (VPhysicalProperties a) v =
     (if variant_ty v \<noteq> TPhysicalProperties then Some False else case v of VPhysicalProperties b \<Rightarrow> Some (physical_properties_eq env a b) | _ \<Rightarrow> None)"
| "variant_eq env (VRay a) v =
     (if variant_ty v \<noteq> TRay then Some False else case v of VRay b \<Rightarrow> Some (ray_eq env a b) | _ \<Rightarrow> None)"
| "variant_eq env (VRect a) v =
     (if variant_ty v \<noteq> TRect then Some False else case v of VRect b \<Rightarrow> Some (rect_eq env a b) | _ \<Rightarrow> None)"
| "variant_eq env (VRef a) v =
     (if variant_ty v \<noteq> TRef then Some False else case v of VRef b \<Rightarrow> Some (a = b) | _ \<Rightarrow> None)"
| "variant_eq env (VRegion3 a) v =
     (if variant_ty v \<noteq> TRegion3 then Some False else case v of VRegion3 b \<Rightarrow> Some (region3_eq env a b) | _ \<Rightarrow> None)"
| "variant_eq env (VRegion3int16 a) v =
     (if variant_ty v \<noteq> TRegion3int16 then Some False else case v of VRegion3int16 b \<Rightarrow> Some (a = b) | _ \<Rightarrow> None)"
| "variant_eq env (VSecurityCapabilities a) v =
     (if variant_ty v \<noteq> TSecurityCapabilities then Some False else case v of VSecurityCapabilities b \<Rightarrow> Some (a = b) | _ \<Rightarrow> None)"
| "variant_eq env (VSharedString a) v =
     (if variant_ty v \<noteq> TSharedString then Some False else case v of VSharedString b \<Rightarrow> Some (a = b) | _ \<Rightarrow> None)"
| "variant_eq env (VTags a) v =
     (if variant_ty v \<noteq> TTags then Some False else case v of VTags b \<Rightarrow> Some (tags_eq a b) | _ \<Rightarrow> None)"
| "variant_eq env (VUDim a) v =
     (if variant_ty v \<noteq> TUDim then Some False else case v of VUDim b \<Rightarrow> Some (udim_eq env a b) | _ \<Rightarrow> None)"
| "variant_eq env (VUDim2 a) v =
     (if variant_ty v \<noteq> TUDim2 then Some False else case v of VUDim2 b \<Rightarrow> Some (udim2_eq env a b) | _ \<Rightarrow> None)"
| "variant_eq env (VUniqueId a) v =
     (if variant_ty v \<noteq> TUniqueId then Some False else case v of VUniqueId b \<Rightarrow> Some (a = b) | _ \<Rightarrow> None)"
| "variant_eq env (VString a) v =
     (if variant_ty v \<noteq> TString then Some False else case v of VString b \<Rightarrow> Some (a = b) | _ \<Rightarrow> None)"
| "variant_eq env (VVector2 a) v =
     (if variant_ty v \<noteq> TVector2 then Some False else case v of VVector2 b \<Rightarrow> Some (vector2_eq env a b) | _ \<Rightarrow> None)"
| "variant_eq env (VVector2int16 a) v =
     (if variant_ty v \<noteq> TVector2int16 then Some False else case v of VVector2int16 b \<Rightarrow> Some (a = b) | _ \<Rightarrow> None)"
| "variant_eq env (VVector3 a) v =
     (if variant_ty v \<noteq> TVector3 then Some False else case v of VVector3 b \<Rightarrow> Some (vector_eq env a b) | _ \<Rightarrow> None)"
| "variant_eq env (VVector3int16 a) v =
     (if variant_ty v \<noteq> TVector3int16 then Some False else case v of VVector3int16 b \<Rightarrow> Some (a = b) | _ \<Rightarrow> None)"
| "variant_eq env (VOther name a) v = (if variant_ty v \<noteq> TOther name then Some False else None)"
| "attribute_entries_eq env ((a_name, a_value) # a) ((b_name, b_value) # b) =
     (if a_name \<noteq> b_name then Some False
      else case variant_eq env a_value b_value of
        None \<Rightarrow> None
      | Some False \<Rightarrow> Some False
      | Some True \<Rightarrow> attribute_entries_eq env a b)"
| "attribute_entries_eq env [] b = Some True"
| "attribute_entries_eq env a [] = Some True"


section \<open>The comparison is total, reflexive and symmetric where it can be\<close>

lemma variant_ty_iff:
  "variant_ty v = TAttributes \<longleftrightarrow> (\<exists>b. v = VAttributes b)"
  "variant_ty v = TAxes \<longleftrightarrow> (\<exists>b. v = VAxes b)"
  "variant_ty v = TBinaryString \<longleftrightarrow> (\<exists>b. v = VBinaryString b)"
  "variant_ty v = TBool \<longleftrightarrow> (\<exists>b. v = VBool b)"
  "variant_ty v = TBrickColor \<longleftrightarrow> (\<exists>b. v = VBrickColor b)"
  "variant_ty v = TCFrame \<longleftrightarrow> (\<exists>b. v = VCFrame b)"
  "variant_ty v = TColor3 \<longleftrightarrow> (\<exists>b. v = VColor3 b)"
  "variant_ty v = TColor3uint8 \<longleftrightarrow> (\<exists>b. v = VColor3uint8 b)"
  "variant_ty v = TColorSequence \<longleftrightarrow> (\<exists>b. v = VColorSequence b)"
  "variant_ty v = TContent \<longleftrightarrow> (\<exists>b. v = VContent b)"
  "variant_ty v = TContentId \<longleftrightarrow> (\<exists>b. v = VContentId b)"
  "variant_ty v = TEnum \<longleftrightarrow> (\<exists>b. v = VEnum b)"
  "variant_ty v = TEnumItem \<longleftrightarrow> (\<exists>b. v = VEnumItem b)"
  "variant_ty v = TFaces \<longleftrightarrow> (\<exists>b. v = VFaces b)"
  "variant_ty v = TFloat32 \<longleftrightarrow> (\<exists>b. v = VFloat32 b)"
  "variant_ty v = TFloat64 \<longleftrightarrow> (\<exists>b. v = VFloat64 b)"
  "variant_ty v = TFont \<longleftrightarrow> (\<exists>b. v = VFont b)"
  "variant_ty v = TInt32 \<longleftrightarrow> (\<exists>b. v = VInt32 b)"
  "variant_ty v = TInt64 \<longleftrightarrow> (\<exists>b. v = VInt64 b)"
  "variant_ty v = TMaterialColors \<longleftrightarrow> (\<exists>b. v = VMaterialColors b)"
  "variant_ty v = TNetAssetRef \<longleftrightarrow> (\<exists>b. v = VNetAssetRef b)"
  "variant_ty v = TNumberRange \<longleftrightarrow> (\<exists>b. v = VNumberRange b)"
  "variant_ty v = TNumberSequence \<longleftrightarrow> (\<exists>b. v = VNumberSequence b)"
  "variant_ty v = TOptionalCFrame \<longleftrightarrow> (\<exists>b. v = VOptionalCFrame b)"
  "variant_ty v = TPhysicalProperties \<longleftrightarrow> (\<exists>b. v = VPhysicalProperties b)"
  "variant_ty v = TRay \<longleftrightarrow> (\<exists>b. v = VRay b)"
  "variant_ty v = TRect \<longleftrightarrow> (\<exists>b. v = VRect b)"
  "variant_ty v = TRef \<longleftrightarrow> (\<exists>b. v = VRef b)"
  "variant_ty v = TRegion3 \<longleftrightarrow> (\<exists>b. v = VRegion3 b)"
  "variant_ty v = TRegion3int16 \<longleftrightarrow> (\<exists>b. v = VRegion3int16 b)"
  "variant_ty v = TSecurityCapabilities \<longleftrightarrow> (\<exists>b. v = VSecurityCapabilities b)"
  "variant_ty v = TSharedString \<longleftrightarrow> (\<exists>b. v = VSharedString b)"
  "variant_ty v = TTags \<longleftrightarrow> (\<exists>b. v = VTags b)"
  "variant_ty v = TUDim \<longleftrightarrow> (\<exists>b. v = VUDim b)"
  "variant_ty v = TUDim2 \<longleftrightarrow> (\<exists>b. v = VUDim2 b)"
  "variant_ty v = TUniqueId \<longleftrightarrow> (\<exists>b. v = VUniqueId b)"
  "variant_ty v = TString \<longleftrightarrow> (\<exists>b. v = VString b)"
  "variant_ty v = TVector2 \<longleftrightarrow> (\<exists>b. v = VVector2 b)"
  "variant_ty v = TVector2int16 \<longleftrightarrow> (\<exists>b. v = VVector2int16 b)"
  "variant_ty v = TVector3 \<longleftrightarrow> (\<exists>b. v = VVector3 b)"
  "variant_ty v = TVector3int16 \<longleftrightarrow> (\<exists>b. v = VVector3int16 b)"
  "variant_ty v = TOther name \<longleftrightarrow> (\<exists>b. v = VOther name b)"
  by (cases v; auto)+

text \<open>The values whose comparison with themselves does not panic.\<close>

fun comparable :: "'o variant \<Rightarrow> bool" where
  "comparable (VAttributes entries) = (\<forall>(_, v) \<in> set entries. comparable v)"
| "comparable (VColorSequence kps) = sortable (map ck_time kps)"
| "comparable (VNumberSequence kps) = sortable (map nk_time kps)"
| "comparable (VOther _ _) = False"
| "comparable _ = True"

definition approx_reflexive :: "'o variant_env \<Rightarrow> bool" where
  "approx_reflexive env \<longleftrightarrow>
     (\<forall>x. \<not> is_nan32 x \<longrightarrow> approx_eq_f32 env x x) \<and> (\<forall>x. \<not> is_nan64 x \<longrightarrow> approx_eq_f64 env x x)"

definition approx_symmetric :: "'o variant_env \<Rightarrow> bool" where
  "approx_symmetric env \<longleftrightarrow>
     (\<forall>x y. approx_eq_f32 env x y = approx_eq_f32 env y x) \<and>
     (\<forall>x y. approx_eq_f64 env x y = approx_eq_f64 env y x)"

named_theorems payload_eq_defs \<open>the comparisons of the payloads\<close>

declare vector_eq_def [payload_eq_defs] cframe_eq_def [payload_eq_defs] color3_eq_def [payload_eq_defs]
  font_eq_def [payload_eq_defs] number_range_eq_def [payload_eq_defs]
  optional_cframe_eq_def [payload_eq_defs] physical_properties_eq_def [payload_eq_defs]
  ray_eq_def [payload_eq_defs] vector2_eq_def [payload_eq_defs] rect_eq_def [payload_eq_defs]
  region3_eq_def [payload_eq_defs] udim_eq_def [payload_eq_defs] udim2_eq_def [payload_eq_defs]

lemma approx_refl:
  assumes "approx_reflexive env"
  shows "approx32 env x x" and "approx64 env y y"
  using assms by (auto simp: approx_reflexive_def approx32_def approx64_def)

lemma approx_sym:
  assumes "approx_symmetric env"
  shows "approx32 env x x' = approx32 env x' x" and "approx64 env y y' = approx64 env y' y"
  using assms by (auto simp: approx_symmetric_def approx32_def approx64_def)

lemma zip_same_all: "(\<forall>(x, y) \<in> set (zip xs xs). P x y) \<longleftrightarrow> (\<forall>x \<in> set xs. P x x)"
  by (induction xs) auto

lemma zip_swap_all: "(\<forall>(x, y) \<in> set (zip xs ys). P x y) \<longleftrightarrow> (\<forall>(x, y) \<in> set (zip ys xs). P y x)"
  by (induction xs ys rule: list_induct2') auto

lemma tags_eq_iff: "tags_eq a b \<longleftrightarrow> mset a = mset b"
proof -
  have "tags_eq a b \<longleftrightarrow> sort a = sort b"
    by (auto simp: tags_eq_def list_eq_iff_zip_eq)
  also have "\<dots> \<longleftrightarrow> mset a = mset b"
    using properties_for_sort [of "sort b" a] by (metis mset_sort sorted_sort)
  finally show ?thesis .
qed

lemma sequence_eq_refl:
  assumes "approx_reflexive env"
  shows "color_sequence_eq env a a = (if sortable (map ck_time a) then Some True else None)"
    and "number_sequence_eq env b b = (if sortable (map nk_time b) then Some True else None)"
  by (simp_all add: color_sequence_eq_def number_sequence_eq_def zip_same_all color3_eq_def
      approx_refl [OF assms])

lemma sequence_eq_sym:
  assumes "approx_symmetric env"
  shows "color_sequence_eq env a b = color_sequence_eq env b a"
    and "number_sequence_eq env c d = number_sequence_eq env d c"
proof -
  show "color_sequence_eq env a b = color_sequence_eq env b a"
    unfolding color_sequence_eq_def color3_eq_def
    using zip_swap_all [where P = "\<lambda>a_kp b_kp. approx32 env (ck_time a_kp) (ck_time b_kp) \<and>
        approx32 env (c3_r (ck_color a_kp)) (c3_r (ck_color b_kp)) \<and>
        approx32 env (c3_g (ck_color a_kp)) (c3_g (ck_color b_kp)) \<and>
        approx32 env (c3_b (ck_color a_kp)) (c3_b (ck_color b_kp))"
        and xs = "sort_color_keypoints env a" and ys = "sort_color_keypoints env b"] approx_sym(1) [OF assms]
    by auto
  show "number_sequence_eq env c d = number_sequence_eq env d c"
    unfolding number_sequence_eq_def
    using zip_swap_all [where P = "\<lambda>a_kp b_kp. approx32 env (nk_time a_kp) (nk_time b_kp) \<and>
        approx32 env (nk_value a_kp) (nk_value b_kp) \<and> approx32 env (nk_envelope a_kp) (nk_envelope b_kp)"
        and xs = "sort_number_keypoints env c" and ys = "sort_number_keypoints env d"] approx_sym(1) [OF assms]
    by auto
qed

lemma variant_eq_ty: "variant_ty a \<noteq> variant_ty b \<Longrightarrow> variant_eq env a b = Some False"
  by (cases a) auto

lemma variant_eq_self:
  "approx_reflexive env \<Longrightarrow> v = a \<Longrightarrow> variant_eq env a v = (if comparable a then Some True else None)"
  "approx_reflexive env \<Longrightarrow> ys = xs \<Longrightarrow> attribute_entries_eq env xs ys =
      (if \<forall>(_, v) \<in> set xs. comparable v then Some True else None)"
  by (induction env a v and env xs ys rule: variant_eq_attribute_entries_eq.induct)
    (auto simp: payload_eq_defs approx_refl sequence_eq_refl tags_eq_iff
      split: option.split physical_properties.split)

lemma payload_eq_sym:
  assumes "approx_symmetric env"
  shows "vector_eq env v v' = vector_eq env v' v"
    and "cframe_eq env c c' = cframe_eq env c' c"
    and "color3_eq env k k' = color3_eq env k' k"
    and "number_range_eq env n n' = number_range_eq env n' n"
    and "optional_cframe_eq env oc oc' = optional_cframe_eq env oc' oc"
    and "physical_properties_eq env p p' = physical_properties_eq env p' p"
    and "ray_eq env r r' = ray_eq env r' r"
    and "vector2_eq env w w' = vector2_eq env w' w"
    and "rect_eq env t t' = rect_eq env t' t"
    and "region3_eq env g g' = region3_eq env g' g"
    and "udim_eq env u u' = udim_eq env u' u"
    and "udim2_eq env d d' = udim2_eq env d' d"
proof -
  note sym = approx_sym(1) [OF assms]
  have vec: "vector_eq env a b = vector_eq env b a" for a b
    unfolding vector_eq_def sym [of "v3_x a"] sym [of "v3_y a"] sym [of "v3_z a"] by (rule refl)
  have cf: "cframe_eq env a b = cframe_eq env b a" for a b
    unfolding cframe_eq_def using vec by auto
  show "vector_eq env v v' = vector_eq env v' v" by (rule vec)
  show "cframe_eq env c c' = cframe_eq env c' c" by (rule cf)
  show "optional_cframe_eq env oc oc' = optional_cframe_eq env oc' oc"
    using cf by (auto simp: optional_cframe_eq_def split: option.splits)
  show "color3_eq env k k' = color3_eq env k' k"
    unfolding color3_eq_def using sym by blast
  show "number_range_eq env n n' = number_range_eq env n' n"
    unfolding number_range_eq_def using sym by blast
  show "physical_properties_eq env p p' = physical_properties_eq env p' p"
    using sym by (auto simp: physical_properties_eq_def split: physical_properties.splits)
  show "ray_eq env r r' = ray_eq env r' r" unfolding ray_eq_def using vec by blast
  show "vector2_eq env w w' = vector2_eq env w' w" unfolding vector2_eq_def using sym by blast
  show "rect_eq env t t' = rect_eq env t' t" unfolding rect_eq_def using sym by blast
  show "region3_eq env g g' = region3_eq env g' g" unfolding region3_eq_def using vec by blast
  show "udim_eq env u u' = udim_eq env u' u" unfolding udim_eq_def using sym by metis
  show "udim2_eq env d d' = udim2_eq env d' d" unfolding udim2_eq_def using sym by metis
qed

lemma variant_eq_sym:
  "approx_symmetric env \<Longrightarrow> variant_eq env a b = variant_eq env b a"
  "approx_symmetric env \<Longrightarrow> attribute_entries_eq env xs ys = attribute_entries_eq env ys xs"
proof (induction env a b and env xs ys rule: variant_eq_attribute_entries_eq.induct)
  case (43 env a_name a_value a b_name b_value b)
  then show ?case by (auto split: option.split bool.split)
next
  case (44 env b)
  then show ?case by (cases b) auto
qed (auto simp: variant_ty_iff variant_eq_ty payload_eq_sym sequence_eq_sym approx_sym font_eq_def tags_eq_iff)


lemma variant_eq_total:
  "comparable a \<Longrightarrow> comparable v \<Longrightarrow> variant_eq env a v \<noteq> None"
  "\<forall>(_, x) \<in> set xs. comparable x \<Longrightarrow> \<forall>(_, x) \<in> set ys. comparable x \<Longrightarrow> attribute_entries_eq env xs ys \<noteq> None"
proof (induction env a v and env xs ys rule: variant_eq_attribute_entries_eq.induct)
  case (43 env a_name a_value a b_name b_value b)
  then show ?case by (auto split: option.split bool.split)
qed (auto simp: variant_ty_iff color_sequence_eq_def number_sequence_eq_def)


section \<open>Properties\<close>

text \<open>
  Comparing a value with itself says equal, also when it holds a NaN, and panics exactly when
  it has a sequence of two or more keypoints with a NaN time, or is of a type the comparison does
  not list, at any depth of its attributes.  The hypothesis is what \<open>float_cmp\<close> documents:
  a number approximately equals itself.
\<close>

theorem variant_eq_reflexive:
  assumes "approx_reflexive env"
  shows "variant_eq env v v = (if comparable v then Some True else None)"
  by (rule variant_eq_self(1) [OF assms refl])

definition exact_env :: "'o variant_env" where
  "exact_env = \<lparr>approx_eq_f32 = (=), approx_eq_f64 = (=), material_encode = \<lambda>_. [],
     sort_color_keypoints = \<lambda>kps. kps, sort_number_keypoints = \<lambda>kps. kps,
     variant_partial_eq = (=)\<rparr>"

lemma variant_eq_reflexive_witness:
  "variant_eq exact_env (VAttributes [(''a'', VFloat32 0x7FC00000)] :: nat variant)
     (VAttributes [(''a'', VFloat32 0x7FC00000)]) = Some True \<and>
   variant_eq exact_env (VAttributes [(''a'', VOther ''x'' (0::nat))]) (VAttributes [(''a'', VOther ''x'' 0)]) = None"
proof -
  have "approx_reflexive (exact_env :: nat variant_env)" by (simp add: approx_reflexive_def exact_env_def)
  from variant_eq_reflexive [OF this] show ?thesis by (simp del: variant_eq.simps)
qed

text \<open>
  The comparison does not depend on the order of its arguments, panics included, and values of
  different types are different.  The hypothesis is the symmetry of the approximate comparison.
\<close>

theorem variant_eq_symmetric:
  assumes "approx_symmetric env"
  shows "variant_eq env a b = variant_eq env b a \<and>
    (variant_ty a \<noteq> variant_ty b \<longrightarrow> variant_eq env a b = Some False)"
  using variant_eq_sym(1) [OF assms] variant_eq_ty by blast

lemma variant_eq_symmetric_witness:
  "variant_eq exact_env (VTags [''a'', ''b''] :: nat variant) (VTags [''b'', ''a'']) = Some True \<and>
   variant_eq exact_env (VTags [''b'', ''a''] :: nat variant) (VTags [''a'', ''b'']) = Some True"
proof -
  have "approx_symmetric (exact_env :: nat variant_env)" by (auto simp: approx_symmetric_def exact_env_def)
  from variant_eq_symmetric [OF this, of "VTags [''a'', ''b'']" "VTags [''b'', ''a'']"]
  show ?thesis by (simp add: tags_eq_iff)
qed


end
