(* ===== verification/Metadata.thy ===== *)
theory Metadata
  imports Variants Fs_Path
begin

text \<open>
  What Rojo keeps beside an instance: \<open>src/src/snapshot/metadata.rs\<close>, with the parts it is made of:
  globs (\<open>glob.rs\<close>), the middleware names (\<open>snapshot_middleware/mod.rs\<close>), the values of project
  files (\<open>resolution.rs\<close>) and project nodes (\<open>project.rs\<close>).  The crate \<open>globset\<close> is a parameter:
  which texts are patterns and which paths a pattern matches.
\<close>

section \<open>Globs\<close>

record glob_env =
  glob_valid :: "string \<Rightarrow> bool"
  glob_match :: "string \<Rightarrow> path \<Rightarrow> bool"

text \<open>A compiled glob is its pattern; an invalid pattern is an error of \<open>globset\<close>.\<close>

type_synonym glob = string

definition glob_new :: "glob_env \<Rightarrow> string \<Rightarrow> glob option" where
  "glob_new g pattern = (if glob_valid g pattern then Some pattern else None)"

record ignorable_glob =
  ig_glob :: glob
  ig_negated :: bool
  ig_raw :: string

definition ignorable_glob_new :: "glob_env \<Rightarrow> string \<Rightarrow> ignorable_glob option" where
  "ignorable_glob_new g pattern =
     (let (negated, body) =
        (case str_strip_prefix pattern ''!'' of
           Some rest \<Rightarrow> (True, rest)
         | None \<Rightarrow>
             if str_starts_with pattern [CHR 0x5C, CHR ''!''] then (False, drop 1 pattern)
             else (False, pattern))
      in map_option (\<lambda>gl. \<lparr>ig_glob = gl, ig_negated = negated, ig_raw = pattern\<rparr>) (glob_new g body))"

definition ig_is_match :: "glob_env \<Rightarrow> ignorable_glob \<Rightarrow> path \<Rightarrow> bool" where
  "ig_is_match g ig p = glob_match g (ig_glob ig) p"

text \<open>\<open>PartialEq\<close> leaves the raw text out.\<close>

definition ig_eq :: "ignorable_glob \<Rightarrow> ignorable_glob \<Rightarrow> bool" where
  "ig_eq a b \<longleftrightarrow> ig_negated a = ig_negated b \<and> ig_glob a = ig_glob b"


section \<open>Middleware\<close>

datatype middleware =
    Csv | JsonModel | Json | ServerScript | ClientScript | ModuleScript | PluginScript
  | LegacyClientScript | LegacyServerScript | RunContextServerScript | RunContextClientScript
  | ProjectMw | Rbxm | Rbxmx | Toml | Text | Yaml | Ignore
  | DirMw | ServerScriptDir | ClientScriptDir | PluginScriptDir | ModuleScriptDir | CsvDir

definition mw_is_dir :: "middleware \<Rightarrow> bool" where
  "mw_is_dir mw \<longleftrightarrow>
     mw \<in> {DirMw, ServerScriptDir, ClientScriptDir, PluginScriptDir, ModuleScriptDir, CsvDir}"

definition handles_own_properties :: "middleware \<Rightarrow> bool" where
  "handles_own_properties mw \<longleftrightarrow> mw \<in> {JsonModel, ProjectMw, Rbxm, Rbxmx}"


section \<open>Values and nodes of project files\<close>

text \<open>A fixed-size array is the tuple of its numbers, twelve of them grouped by three.\<close>

type_synonym array3 = "f64 \<times> f64 \<times> f64"

datatype 'o ambiguous_value =
    ABool bool
  | AString string
  | AStringArray "string list"
  | ANumber f64
  | AArray2 "f64 \<times> f64"
  | AArray3 array3
  | AArray4 "f64 \<times> f64 \<times> f64 \<times> f64"
  | AArray12 "array3 \<times> array3 \<times> array3 \<times> array3"
  | AAttributes "(string \<times> 'o variant) list"
  | AFont "'o font"
  | AMaterialColors 'o

datatype 'o unresolved_value =
    FullyQualified "'o variant"
  | Ambiguous "'o ambiguous_value"

datatype path_node = Required path | Optional path

definition pn_path :: "path_node \<Rightarrow> path" where
  "pn_path n = (case n of Required p \<Rightarrow> p | Optional p \<Rightarrow> p)"

definition pn_is_optional :: "path_node \<Rightarrow> bool" where
  "pn_is_optional n = (case n of Required _ \<Rightarrow> False | Optional _ \<Rightarrow> True)"

text \<open>The fields in the order of the struct; the maps are sorted by key.\<close>

datatype 'o project_node = ProjectNode
  (pj_class_name: "string option")
  (pj_id: "string option")
  (pj_children: "(string \<times> 'o project_node) list")
  (pj_properties: "(string \<times> 'o unresolved_value) list")
  (pj_attributes: "(string \<times> 'o unresolved_value) list")
  (pj_ignore_unknown_instances: "bool option")
  (pj_path: "path_node option")

text \<open>The derived \<open>PartialEq\<close>: floats compare as numbers, variants as their crate compares them.\<close>

definition attributes_partial_eq ::
    "'o variant_env \<Rightarrow> (string \<times> 'o variant) list \<Rightarrow> (string \<times> 'o variant) list \<Rightarrow> bool" where
  "attributes_partial_eq env a b \<longleftrightarrow>
     list_all2 (\<lambda>(k, v) (k', v'). k = k' \<and> variant_partial_eq env v v') a b"

definition array3_eq :: "array3 \<Rightarrow> array3 \<Rightarrow> bool" where
  "array3_eq a b = (case (a, b) of ((x, y, z), (x', y', z')) \<Rightarrow> eq64 x x' \<and> eq64 y y' \<and> eq64 z z')"

definition ambiguous_eq :: "'o variant_env \<Rightarrow> 'o ambiguous_value \<Rightarrow> 'o ambiguous_value \<Rightarrow> bool" where
  "ambiguous_eq env a b =
     (case a of
        ABool x \<Rightarrow> (case b of ABool x' \<Rightarrow> x = x' | _ \<Rightarrow> False)
      | AString x \<Rightarrow> (case b of AString x' \<Rightarrow> x = x' | _ \<Rightarrow> False)
      | AStringArray x \<Rightarrow> (case b of AStringArray x' \<Rightarrow> x = x' | _ \<Rightarrow> False)
      | ANumber x \<Rightarrow> (case b of ANumber x' \<Rightarrow> eq64 x x' | _ \<Rightarrow> False)
      | AArray2 (x, y) \<Rightarrow> (case b of AArray2 (x', y') \<Rightarrow> eq64 x x' \<and> eq64 y y' | _ \<Rightarrow> False)
      | AArray3 x \<Rightarrow> (case b of AArray3 x' \<Rightarrow> array3_eq x x' | _ \<Rightarrow> False)
      | AArray4 (x, y, z, w) \<Rightarrow> (case b of AArray4 (x', y', z', w') \<Rightarrow> eq64 x x' \<and> eq64 y y' \<and> eq64 z z' \<and> eq64 w w' | _ \<Rightarrow> False)
      | AArray12 (x, y, z, w) \<Rightarrow> (case b of AArray12 (x', y', z', w') \<Rightarrow> array3_eq x x' \<and> array3_eq y y' \<and> array3_eq z z' \<and> array3_eq w w' | _ \<Rightarrow> False)
      | AAttributes x \<Rightarrow> (case b of AAttributes x' \<Rightarrow> attributes_partial_eq env x x' | _ \<Rightarrow> False)
      | AFont x \<Rightarrow> (case b of AFont x' \<Rightarrow> x = x' | _ \<Rightarrow> False)
      | AMaterialColors x \<Rightarrow> (case b of AMaterialColors x' \<Rightarrow> x = x' | _ \<Rightarrow> False))"

definition unresolved_eq :: "'o variant_env \<Rightarrow> 'o unresolved_value \<Rightarrow> 'o unresolved_value \<Rightarrow> bool" where
  "unresolved_eq env a b =
     (case a of
        FullyQualified x \<Rightarrow> (case b of FullyQualified x' \<Rightarrow> variant_partial_eq env x x' | _ \<Rightarrow> False)
      | Ambiguous x \<Rightarrow> (case b of Ambiguous x' \<Rightarrow> ambiguous_eq env x x' | _ \<Rightarrow> False))"

definition values_eq :: "'o variant_env \<Rightarrow> (string \<times> 'o unresolved_value) list \<Rightarrow>
    (string \<times> 'o unresolved_value) list \<Rightarrow> bool" where
  "values_eq env a b \<longleftrightarrow> list_all2 (\<lambda>(k, v) (k', v'). k = k' \<and> unresolved_eq env v v') a b"

fun project_node_eq :: "'o variant_env \<Rightarrow> 'o project_node \<Rightarrow> 'o project_node \<Rightarrow> bool"
  and children_eq ::
    "'o variant_env \<Rightarrow> (string \<times> 'o project_node) list \<Rightarrow> (string \<times> 'o project_node) list \<Rightarrow> bool"
where
  "project_node_eq env (ProjectNode cl i cs ps as ign p) (ProjectNode cl' i' cs' ps' as' ign' p') =
     (cl = cl' \<and> i = i' \<and> children_eq env cs cs' \<and> values_eq env ps ps' \<and> values_eq env as as' \<and>
      ign = ign' \<and> p = p')"
| "children_eq env [] [] = True"
| "children_eq env ((k, n) # cs) ((k', n') # cs') = (k = k' \<and> project_node_eq env n n' \<and> children_eq env cs cs')"
| "children_eq env _ _ = False"


section \<open>Rules, contexts and metadata\<close>

record sync_rule =
  sr_include :: glob
  sr_exclude :: "glob option"
  sr_middleware :: middleware
  sr_suffix :: "string option"
  sr_base_path :: path

definition sr_matches :: "glob_env \<Rightarrow> sync_rule \<Rightarrow> path \<Rightarrow> bool" where
  "sr_matches g rule p =
     (case path_strip_prefix p (sr_base_path rule) of
        Some suffix \<Rightarrow>
          (case sr_exclude rule of
             Some pattern \<Rightarrow> \<not> glob_match g pattern suffix \<and> glob_match g (sr_include rule) suffix
           | None \<Rightarrow> glob_match g (sr_include rule) suffix)
      | None \<Rightarrow> False)"

text \<open>\<open>file_name_for_path\<close>; the error is the invalid file name.\<close>

definition file_name_for_path :: "sync_rule \<Rightarrow> path \<Rightarrow> path + string" where
  "file_name_for_path rule p =
     (case sr_suffix rule of
        Some suffix \<Rightarrow>
          (case path_file_name p of
             None \<Rightarrow> Inl p
           | Some file_name \<Rightarrow>
               Inr (if str_ends_with file_name suffix
                    then take (length file_name - length suffix) file_name else file_name))
      | None \<Rightarrow> (case path_file_stem p of None \<Rightarrow> Inl p | Some stem \<Rightarrow> Inr stem))"

record path_ignore_rule =
  pi_base_path :: path
  pi_glob :: ignorable_glob

definition pi_matches :: "glob_env \<Rightarrow> path_ignore_rule \<Rightarrow> path \<Rightarrow> bool" where
  "pi_matches g rule p =
     (case path_strip_prefix p (pi_base_path rule) of
        Some suffix \<Rightarrow> ig_is_match g (pi_glob rule) suffix
      | None \<Rightarrow> False)"

definition pi_is_negation :: "path_ignore_rule \<Rightarrow> bool" where
  "pi_is_negation rule = ig_negated (pi_glob rule)"

definition is_path_ignored :: "glob_env \<Rightarrow> path_ignore_rule list \<Rightarrow> path \<Rightarrow> bool" where
  "is_path_ignored g rules p =
     fold (\<lambda>rule ignored. if pi_matches g rule p then \<not> pi_is_negation rule else ignored) rules False"

record instance_context =
  path_ignore_rules :: "path_ignore_rule list"
  emit_legacy_scripts :: bool
  sync_rules :: "sync_rule list"

definition emit_legacy_scripts_default :: "bool option" where
  "emit_legacy_scripts_default = Some True"

definition context_new :: instance_context where
  "context_new =
     \<lparr>path_ignore_rules = [], emit_legacy_scripts = the emit_legacy_scripts_default, sync_rules = []\<rparr>"

definition with_emit_legacy_scripts :: "bool option \<Rightarrow> instance_context" where
  "with_emit_legacy_scripts emit =
     context_new\<lparr>emit_legacy_scripts :=
       the (case emit of Some b \<Rightarrow> Some b | None \<Rightarrow> emit_legacy_scripts_default)\<rparr>"

definition add_path_ignore_rules :: "instance_context \<Rightarrow> path_ignore_rule list \<Rightarrow> instance_context" where
  "add_path_ignore_rules c new_rules =
     (if new_rules = [] then c else c\<lparr>path_ignore_rules := path_ignore_rules c @ new_rules\<rparr>)"

definition add_sync_rules :: "instance_context \<Rightarrow> sync_rule list \<Rightarrow> instance_context" where
  "add_sync_rules c new_rules = c\<lparr>sync_rules := sync_rules c @ new_rules\<rparr>"

definition clear_sync_rules :: "instance_context \<Rightarrow> instance_context" where
  "clear_sync_rules c = c\<lparr>sync_rules := []\<rparr>"

definition set_emit_legacy_scripts :: "instance_context \<Rightarrow> bool \<Rightarrow> instance_context" where
  "set_emit_legacy_scripts c emit = c\<lparr>emit_legacy_scripts := emit\<rparr>"

definition get_user_sync_rule :: "glob_env \<Rightarrow> instance_context \<Rightarrow> path \<Rightarrow> sync_rule option" where
  "get_user_sync_rule g c p = List.find (\<lambda>rule. sr_matches g rule p) (sync_rules c)"

definition ignore_rule_eq :: "path_ignore_rule \<Rightarrow> path_ignore_rule \<Rightarrow> bool" where
  "ignore_rule_eq a b \<longleftrightarrow> pi_base_path a = pi_base_path b \<and> ig_eq (pi_glob a) (pi_glob b)"

definition context_eq :: "instance_context \<Rightarrow> instance_context \<Rightarrow> bool" where
  "context_eq a b \<longleftrightarrow>
     list_all2 ignore_rule_eq (path_ignore_rules a) (path_ignore_rules b) \<and>
     emit_legacy_scripts a = emit_legacy_scripts b \<and> sync_rules a = sync_rules b"

datatype 'o instigating_source =
    SourcePath path
  | SourceNode path string "'o project_node" "string option"

definition source_path :: "'o instigating_source \<Rightarrow> path" where
  "source_path s = (case s of SourcePath p \<Rightarrow> p | SourceNode p _ _ _ \<Rightarrow> p)"

fun source_eq :: "'o variant_env \<Rightarrow> 'o instigating_source \<Rightarrow> 'o instigating_source \<Rightarrow> bool" where
  "source_eq env (SourcePath p) (SourcePath p') = (p = p')"
| "source_eq env (SourceNode p name node pc) (SourceNode p' name' node' pc') =
     (p = p' \<and> name = name' \<and> project_node_eq env node node' \<and> pc = pc')"
| "source_eq env _ _ = False"

type_synonym rojo_ref = string

definition REF_ID_ATTRIBUTE_NAME :: string where "REF_ID_ATTRIBUTE_NAME = ''Rojo_Id''"
definition REF_POINTER_ATTRIBUTE_PREFIX :: string where "REF_POINTER_ATTRIBUTE_PREFIX = ''Rojo_Target_''"

record 'o instance_metadata =
  md_ignore_unknown_instances :: bool
  md_instigating_source :: "'o instigating_source option"
  md_relevant_paths :: "path list"
  md_context :: instance_context
  md_specified_id :: "rojo_ref option"
  md_middleware :: "middleware option"
  md_schema :: "string option"

definition metadata_new :: "'o instance_metadata" where
  "metadata_new =
     \<lparr>md_ignore_unknown_instances = False, md_instigating_source = None, md_relevant_paths = [],
      md_context = context_new, md_specified_id = None, md_middleware = None, md_schema = None\<rparr>"

definition metadata_eq :: "'o variant_env \<Rightarrow> 'o instance_metadata \<Rightarrow> 'o instance_metadata \<Rightarrow> bool" where
  "metadata_eq env a b \<longleftrightarrow>
     md_ignore_unknown_instances a = md_ignore_unknown_instances b \<and>
     rel_option (source_eq env) (md_instigating_source a) (md_instigating_source b) \<and>
     md_relevant_paths a = md_relevant_paths b \<and>
     context_eq (md_context a) (md_context b) \<and>
     md_specified_id a = md_specified_id b \<and>
     md_middleware a = md_middleware b \<and>
     md_schema a = md_schema b"

end
