(* ===== verification/Dom.thy ===== *)
theory Dom
  imports Variants
begin

text \<open>
  The instance tree \<open>WeakDom\<close> of the crate \<open>rbx_dom_weak\<close>, which is not part of the repository: a
  record of its operations on some state, and a locale with their documented effect on the map
  from referents to instances.  The theory of rooted trees below is about that map alone.  A
  reference implementation on an association list keeps the laws.
\<close>

record 'o inst =
  i_referent :: referent
  i_parent :: referent
  i_name :: string
  i_class :: string
  i_properties :: "(string, 'o variant) hash_map"
  i_children :: "referent list"

text \<open>\<open>InstanceBuilder\<close>, as far as it is used: no referent and no children of its own.\<close>

record 'o builder =
  b_class :: string
  b_name :: string
  b_properties :: "(string, 'o variant) hash_map"

definition built :: "'o builder \<Rightarrow> referent \<Rightarrow> referent \<Rightarrow> 'o inst" where
  "built b r p = \<lparr>i_referent = r, i_parent = p, i_name = b_name b, i_class = b_class b,
     i_properties = b_properties b, i_children = []\<rparr>"

text \<open>
  What the tree makes of a builder it inserts.  \<open>rbx_dom_weak\<close> keeps the unique ids of its instances
  apart: a builder whose \<open>UniqueId\<close> is already taken gets a new one.  Everything else stays.
\<close>

definition kept_properties :: "(string, 'o variant) hash_map \<Rightarrow> (string, 'o variant) hash_map \<Rightarrow> bool" where
  "kept_properties props props' \<longleftrightarrow> props' = props \<or>
     (\<exists>u u'. hm_get props ''UniqueId'' = Some (VUniqueId u) \<and> props' = hm_insert ''UniqueId'' (VUniqueId u') props)"

definition stored_as :: "'o builder \<Rightarrow> 'o builder \<Rightarrow> bool" where
  "stored_as b b' \<longleftrightarrow> b_name b' = b_name b \<and> b_class b' = b_class b \<and> kept_properties (b_properties b) (b_properties b')"

lemma stored_as_refl: "stored_as b b"
  by (simp add: stored_as_def kept_properties_def)

text \<open>
  \<open>dom_set\<close> is a write through \<open>get_by_ref_mut\<close>; \<open>dom_insert\<close> and \<open>dom_destroy\<close> panic (\<open>None\<close>)
  for a referent that is not in the tree.
\<close>

record ('d, 'o) dom_ops =
  dom_new :: "'o builder \<Rightarrow> 'd"
  dom_root :: "'d \<Rightarrow> referent"
  dom_get :: "'d \<Rightarrow> referent \<Rightarrow> 'o inst option"
  dom_set :: "'d \<Rightarrow> referent \<Rightarrow> 'o inst \<Rightarrow> 'd"
  dom_insert :: "'d \<Rightarrow> referent \<Rightarrow> 'o builder \<Rightarrow> ('d \<times> referent) option"
  dom_destroy :: "'d \<Rightarrow> referent \<Rightarrow> 'd option"


section \<open>Rooted trees of instances\<close>

type_synonym 'o dom_view = "referent \<Rightarrow> 'o inst option"

definition child_of :: "'o dom_view \<Rightarrow> referent \<Rightarrow> referent \<Rightarrow> bool" where
  "child_of view p c \<longleftrightarrow> (\<exists>i. view p = Some i \<and> c \<in> set (i_children i))"

abbreviation descends :: "'o dom_view \<Rightarrow> referent \<Rightarrow> referent \<Rightarrow> bool" where
  "descends view \<equiv> (child_of view)\<^sup>*\<^sup>*"

definition dom_wf :: "'o dom_view \<Rightarrow> referent \<Rightarrow> bool" where
  "dom_wf view root \<longleftrightarrow>
     view NoRef = None \<and>
     (\<exists>i. view root = Some i \<and> i_parent i = NoRef) \<and>
     (\<forall>r i. view r = Some i \<longrightarrow>
        i_referent i = r \<and> distinct (i_children i) \<and>
        (\<forall>c \<in> set (i_children i). \<exists>ci. view c = Some ci \<and> i_parent ci = r) \<and>
        descends view root r)"

definition inserted_view :: "'o dom_view \<Rightarrow> referent \<Rightarrow> referent \<Rightarrow> 'o builder \<Rightarrow> 'o dom_view" where
  "inserted_view view p r b =
     (\<lambda>x. if x = r then Some (built b r p)
          else if x = p then map_option (\<lambda>i. i\<lparr>i_children := i_children i @ [r]\<rparr>) (view x)
          else view x)"

definition destroyed_view :: "'o dom_view \<Rightarrow> referent \<Rightarrow> 'o dom_view" where
  "destroyed_view view r =
     (\<lambda>x. if descends view r x then None
          else map_option (\<lambda>i. i\<lparr>i_children := removeAll r (i_children i)\<rparr>) (view x))"

lemma dom_wfD:
  assumes "dom_wf view root"
  shows "view NoRef = None" and "\<exists>i. view root = Some i \<and> i_parent i = NoRef"
    and "view r = Some i \<Longrightarrow> i_referent i = r" and "view r = Some i \<Longrightarrow> distinct (i_children i)"
    and "view r = Some i \<Longrightarrow> c \<in> set (i_children i) \<Longrightarrow> \<exists>ci. view c = Some ci \<and> i_parent ci = r"
    and "view r = Some i \<Longrightarrow> descends view root r"
  using assms by (auto simp: dom_wf_def)

lemma child_of_parent:
  assumes "dom_wf view root" and "child_of view p c"
  obtains ci where "view c = Some ci" and "i_parent ci = p"
  using assms dom_wfD(5) unfolding child_of_def by metis

lemma descends_in_view:
  assumes "dom_wf view root" and "descends view r x" and "view r \<noteq> None"
  shows "view x \<noteq> None"
  using assms(2,3) by (induction rule: rtranclp_induct) (auto elim: child_of_parent [OF assms(1)])

text \<open>The step into a node comes from its parent, so walking up is deterministic.\<close>

lemma descends_step_up:
  assumes "dom_wf view root" and "descends view r c" and "c \<noteq> r" and "child_of view p c"
  shows "descends view r p"
proof -
  from assms(2,3) obtain q where q: "descends view r q" "child_of view q c"
    by (cases rule: rtranclp.cases) auto
  obtain ci where "view c = Some ci" "i_parent ci = q" by (rule child_of_parent [OF assms(1) q(2)])
  moreover obtain ci' where "view c = Some ci'" "i_parent ci' = p" by (rule child_of_parent [OF assms(1,4)])
  ultimately show ?thesis using q(1) by simp
qed

lemma root_no_child:
  assumes "dom_wf view root"
  shows "\<not> child_of view p root"
proof
  assume c: "child_of view p root"
  then have "view p \<noteq> None" by (auto simp: child_of_def)
  moreover obtain ci where "view root = Some ci" "i_parent ci = p" by (rule child_of_parent [OF assms c])
  ultimately show False using dom_wfD(1,2) [OF assms] by auto
qed

lemma root_not_below:
  assumes "dom_wf view root" and "r \<noteq> root"
  shows "\<not> descends view r root"
  using assms(2) root_no_child [OF assms(1)] by (metis rtranclp.cases)

text \<open>Below itself a node is not its own child, so a subtree never contains an ancestor.\<close>

lemma child_not_above:
  assumes wf: "dom_wf view root" and "child_of view p c"
  shows "\<not> descends view c p"
proof
  assume below: "descends view c p"
  have "descends view root p" using assms by (auto simp: child_of_def dom_wfD(6))
  then have "descends view c root"
    using below
  proof (induction rule: converse_rtranclp_induct)
    case base
    then show ?case .
  next
    case (step y z)
    have "descends view c z" by (rule step.IH [OF step.prems])
    show ?case
    proof (cases "z = c")
      case True
      have "child_of view p z" using assms(2) True by simp
      obtain zi where "view z = Some zi" "i_parent zi = y" by (rule child_of_parent [OF wf step.hyps(1)])
      moreover obtain zi' where "view z = Some zi'" "i_parent zi' = p" by (rule child_of_parent [OF wf \<open>child_of view p z\<close>])
      ultimately show ?thesis using step.prems by simp
    next
      case False
      then show ?thesis using descends_step_up [OF wf \<open>descends view c z\<close> _ step.hyps(1)] by blast
    qed
  qed
  then have "c = root" using root_not_below [OF wf] by blast
  with assms(2) root_no_child [OF wf] show False by blast
qed

text \<open>The ancestors of a node are linearly ordered, so siblings have disjoint subtrees.\<close>

lemma ancestors_linear:
  assumes wf: "dom_wf view root" and "descends view a x" and "descends view b x"
  shows "descends view a b \<or> descends view b a"
  using assms(2,3)
proof (induction rule: rtranclp_induct)
  case base
  then show ?case by blast
next
  case (step y z)
  show ?case
  proof (cases "z = b")
    case True
    with step.hyps show ?thesis by (meson rtranclp.rtrancl_into_rtrancl)
  next
    case False
    have "descends view b y" by (rule descends_step_up [OF wf step.prems False step.hyps(2)])
    then show ?thesis by (rule step.IH)
  qed
qed

lemma siblings_disjoint:
  assumes wf: "dom_wf view root" and "child_of view p a" and "child_of view p b" and "a \<noteq> b"
    and "descends view a x"
  shows "\<not> descends view b x"
proof
  assume "descends view b x"
  from ancestors_linear [OF wf assms(5) this] show False
  proof
    assume "descends view a b"
    then have "descends view a p" using descends_step_up [OF wf _ _ assms(3)] assms(4) by blast
    with child_not_above [OF wf assms(2)] show False ..
  next
    assume "descends view b a"
    then have "descends view b p" using descends_step_up [OF wf _ _ assms(2)] assms(4) by blast
    with child_not_above [OF wf assms(3)] show False ..
  qed
qed

lemma descends_iff_children:
  assumes "view s = Some i"
  shows "descends view s x \<longleftrightarrow> x = s \<or> (\<exists>c \<in> set (i_children i). descends view c x)"
  using assms by (auto simp: child_of_def elim: converse_rtranclpE intro: converse_rtranclp_into_rtranclp)

fun disjoint_subtrees :: "'o dom_view \<Rightarrow> referent list \<Rightarrow> bool" where
  "disjoint_subtrees view [] \<longleftrightarrow> True"
| "disjoint_subtrees view (s # queue) \<longleftrightarrow>
     (\<forall>q \<in> set queue. \<forall>x. descends view s x \<longrightarrow> \<not> descends view q x) \<and> disjoint_subtrees view queue"

lemma disjoint_subtrees_append:
  "disjoint_subtrees view (xs @ ys) \<longleftrightarrow> disjoint_subtrees view xs \<and> disjoint_subtrees view ys \<and>
    (\<forall>s \<in> set xs. \<forall>q \<in> set ys. \<forall>x. descends view s x \<longrightarrow> \<not> descends view q x)"
  by (induction xs) auto

lemma disjoint_subtrees_children:
  assumes wf: "dom_wf view root"
  shows "distinct cs \<Longrightarrow> (\<And>c. c \<in> set cs \<Longrightarrow> child_of view s c) \<Longrightarrow> disjoint_subtrees view cs"
proof (induction cs)
  case (Cons c cs)
  have "\<not> descends view q x" if "q \<in> set cs" "descends view c x" for q x
    using siblings_disjoint [OF wf, of s c q x] Cons.prems that by auto
  with Cons show ?case by simp
qed simp

lemma disjoint_subtrees_step:
  assumes wf: "dom_wf view root" and s: "view s = Some i" and disj: "disjoint_subtrees view (s # rest)"
  shows "disjoint_subtrees view (rest @ i_children i)"
proof -
  have "disjoint_subtrees view (i_children i)"
    by (rule disjoint_subtrees_children [OF wf dom_wfD(4) [OF wf s]]) (use s in \<open>auto simp: child_of_def\<close>)
  moreover have "descends view s x" if "c \<in> set (i_children i)" "descends view c x" for c x
    using descends_iff_children [of view s, OF s] that by blast
  ultimately show ?thesis using disj by (auto simp: disjoint_subtrees_append)
qed

lemma child_of_mono:
  assumes "\<And>p i. view p = Some i \<Longrightarrow> \<exists>i'. view' p = Some i' \<and> set (i_children i) \<subseteq> set (i_children i')"
  shows "descends view r x \<Longrightarrow> descends view' r x"
proof (induction rule: rtranclp_induct)
  case base
  show ?case by simp
next
  case (step y z)
  from step.hyps(2) obtain i where "view y = Some i" "z \<in> set (i_children i)" by (auto simp: child_of_def)
  with assms have "child_of view' y z" by (fastforce simp: child_of_def)
  with step.IH show ?case by simp
qed

lemma dom_wf_new:
  assumes "r \<noteq> NoRef"
  shows "dom_wf (\<lambda>x. if x = r then Some (built b r NoRef) else None) r"
  using assms by (auto simp: dom_wf_def built_def)

lemma inserted_view_mono:
  assumes "view r = None" and "view p = Some i"
  shows "\<exists>i'. inserted_view view q r b p = Some i' \<and> set (i_children i) \<subseteq> set (i_children i')"
  using assms by (auto simp: inserted_view_def)

lemma dom_wf_insert:
  assumes wf: "dom_wf view root" and p: "view p = Some pi" and r: "view r = None" "r \<noteq> NoRef"
  shows "dom_wf (inserted_view view p r b) root"
proof -
  let ?v = "inserted_view view p r b"
  have "descends ?v root x" if "view x = Some i" for x i
    by (rule child_of_mono [OF _ dom_wfD(6) [OF wf that]]) (rule inserted_view_mono [where view = view, OF r(1)])
  moreover have "child_of ?v p r" using p r by (auto simp: inserted_view_def child_of_def)
  ultimately have reach: "descends ?v root x" if "?v x = Some i" for x i
    using that p by (auto simp: inserted_view_def split: if_splits intro: rtranclp.rtrancl_into_rtrancl)
  have r_not_child: "r \<notin> set (i_children i)" if "view x = Some i" for x i
    using dom_wfD(5) [OF wf that] r by fastforce
  have "distinct (i_children i) \<and> i_referent i = x" if "?v x = Some i" for x i
    using that dom_wfD(3,4) [OF wf] r_not_child
    by (auto simp: inserted_view_def built_def split: if_splits)
  moreover have "\<exists>ci. ?v c = Some ci \<and> i_parent ci = x" if "?v x = Some i" "c \<in> set (i_children i)" for x i c
  proof (cases "c = r")
    case True
    have "x = p" using that r_not_child True by (auto simp: inserted_view_def built_def split: if_splits)
    then show ?thesis using True by (simp add: inserted_view_def built_def)
  next
    case False
    with that obtain i0 where "view x = Some i0" "c \<in> set (i_children i0)"
      by (auto simp: inserted_view_def built_def split: if_splits)
    with dom_wfD(5) [OF wf] obtain ci where "view c = Some ci" "i_parent ci = x" by blast
    with False show ?thesis by (auto simp: inserted_view_def)
  qed
  moreover have "\<exists>i. ?v root = Some i \<and> i_parent i = NoRef"
    using dom_wfD(2) [OF wf] r by (auto simp: inserted_view_def)
  moreover have "?v NoRef = None" using dom_wfD(1) [OF wf] r p by (auto simp: inserted_view_def)
  ultimately show ?thesis unfolding dom_wf_def using reach by blast
qed

lemma dom_wf_set:
  assumes wf: "dom_wf view root" and r: "view r = Some i" and same: "i_referent i' = i_referent i"
    "i_parent i' = i_parent i" "i_children i' = i_children i"
  shows "dom_wf (view(r \<mapsto> i')) root"
proof -
  have children: "child_of (view(r \<mapsto> i')) = child_of view"
    using r same by (auto simp: child_of_def fun_eq_iff)
  have parent: "\<exists>k. (view(r \<mapsto> i')) x = Some k \<and> i_parent k = q" if "\<exists>j. view x = Some j \<and> i_parent j = q" for x q
    using that r same by (cases "x = r") auto
  have like: "\<exists>j. view x = Some j \<and> i_referent j = i_referent k \<and> i_children j = i_children k"
    if "(view(r \<mapsto> i')) x = Some k" for x k
    using that r same by (cases "x = r") auto
  have "i_referent k = x \<and> distinct (i_children k) \<and> descends view root x" if "(view(r \<mapsto> i')) x = Some k" for x k
    using like [OF that] dom_wfD(3,4,6) [OF wf] by metis
  moreover have "\<exists>ci. (view(r \<mapsto> i')) c = Some ci \<and> i_parent ci = x"
    if "(view(r \<mapsto> i')) x = Some k" "c \<in> set (i_children k)" for x k c
    using like [OF that(1)] that(2) dom_wfD(5) [OF wf] by (intro parent) metis
  moreover have "(view(r \<mapsto> i')) NoRef = None" using dom_wfD(1) [OF wf] r by auto
  ultimately show ?thesis
    unfolding dom_wf_def children using parent dom_wfD(2) [OF wf] by blast
qed

lemma destroyed_children:
  assumes wf: "dom_wf view root" and "\<not> descends view r x" and "view x = Some i" and "c \<in> set (i_children i)" and "c \<noteq> r"
  shows "\<not> descends view r c"
proof
  assume "descends view r c"
  moreover have "child_of view x c" using assms(3,4) by (auto simp: child_of_def)
  ultimately have "descends view r x" using descends_step_up [OF wf _ assms(5)] by blast
  with assms(2) show False ..
qed

lemma dom_wf_destroy:
  assumes wf: "dom_wf view root" and r: "r \<noteq> root"
  shows "dom_wf (destroyed_view view r) root"
proof -
  let ?v = "destroyed_view view r"
  have alive: "\<exists>j. view x = Some j \<and> \<not> descends view r x \<and> i = j\<lparr>i_children := removeAll r (i_children j)\<rparr>"
    if "?v x = Some i" for x i
    using that by (auto simp: destroyed_view_def split: if_splits)
  have reach: "\<not> descends view r x \<longrightarrow> descends ?v root x" if "descends view root x" for x
    using that
  proof (induction rule: rtranclp_induct)
    case base
    show ?case by simp
  next
    case (step y z)
    show ?case
    proof
      assume z: "\<not> descends view r z"
      then have y: "\<not> descends view r y" using step.hyps(2) by (meson rtranclp.rtrancl_into_rtrancl)
      have "z \<noteq> r" using z by auto
      then have "child_of ?v y z"
        using step.hyps(2) y by (auto simp: child_of_def destroyed_view_def)
      with y step.IH show "descends ?v root z" by simp
    qed
  qed
  have "?v NoRef = None" using dom_wfD(1) [OF wf] by (simp add: destroyed_view_def)
  moreover have "\<exists>i. ?v root = Some i \<and> i_parent i = NoRef"
    using dom_wfD(2) [OF wf] root_not_below [OF wf r] by (auto simp: destroyed_view_def)
  moreover have "i_referent i = x \<and> distinct (i_children i) \<and> descends ?v root x" if "?v x = Some i" for x i
    using alive [OF that] dom_wfD(3,4,6) [OF wf] reach by (auto simp: distinct_removeAll)
  moreover have "\<exists>ci. ?v c = Some ci \<and> i_parent ci = x" if a: "?v x = Some i" and c: "c \<in> set (i_children i)" for x i c
  proof -
    obtain j where j: "view x = Some j" "\<not> descends view r x" "c \<in> set (i_children j)" "c \<noteq> r"
      using alive [OF a] c by auto
    then have "\<not> descends view r c" using destroyed_children [OF wf] by blast
    moreover obtain ci where "view c = Some ci" "i_parent ci = x" using dom_wfD(5) [OF wf j(1,3)] by blast
    ultimately show ?thesis by (simp add: destroyed_view_def)
  qed
  ultimately show ?thesis unfolding dom_wf_def by blast
qed


section \<open>The laws\<close>

locale weak_dom =
  fixes D :: "('d, 'o) dom_ops" and ok :: "'d \<Rightarrow> bool"
  assumes new_law: "\<And>b. ok (dom_new D b) \<and> dom_root D (dom_new D b) \<noteq> NoRef \<and>
      dom_get D (dom_new D b) = (\<lambda>x. if x = dom_root D (dom_new D b)
        then Some (built b (dom_root D (dom_new D b)) NoRef) else None)"
    and set_law: "\<And>d r i i'. ok d \<Longrightarrow> dom_get D d r = Some i \<Longrightarrow> i_referent i' = i_referent i \<Longrightarrow>
      i_parent i' = i_parent i \<Longrightarrow> i_children i' = i_children i \<Longrightarrow>
      ok (dom_set D d r i') \<and> dom_root D (dom_set D d r i') = dom_root D d \<and>
      dom_get D (dom_set D d r i') = (dom_get D d)(r \<mapsto> i')"
    and insert_law: "\<And>d p b. ok d \<Longrightarrow> dom_get D d p \<noteq> None \<Longrightarrow>
      \<exists>d' r b'. dom_insert D d p b = Some (d', r) \<and> ok d' \<and> dom_root D d' = dom_root D d \<and>
        r \<noteq> NoRef \<and> dom_get D d r = None \<and> stored_as b b' \<and> dom_get D d' = inserted_view (dom_get D d) p r b'"
    and insert_panics: "\<And>d p b. ok d \<Longrightarrow> dom_get D d p = None \<Longrightarrow> dom_insert D d p b = None"
    and destroy_law: "\<And>d r. ok d \<Longrightarrow> dom_wf (dom_get D d) (dom_root D d) \<Longrightarrow> dom_get D d r \<noteq> None \<Longrightarrow>
      \<exists>d'. dom_destroy D d r = Some d' \<and> ok d' \<and> dom_root D d' = dom_root D d \<and>
        dom_get D d' = destroyed_view (dom_get D d) r"
    and destroy_panics: "\<And>d r. ok d \<Longrightarrow> dom_get D d r = None \<Longrightarrow> dom_destroy D d r = None"


section \<open>A reference implementation\<close>

record 'o ref_dom =
  rd_root :: referent
  rd_next :: nat
  rd_map :: "(referent, 'o inst) hash_map"

definition rd_new :: "'o builder \<Rightarrow> 'o ref_dom" where
  "rd_new b = \<lparr>rd_root = Ref 0, rd_next = 1, rd_map = [(Ref 0, built b (Ref 0) NoRef)]\<rparr>"

definition rd_get :: "'o ref_dom \<Rightarrow> referent \<Rightarrow> 'o inst option" where
  "rd_get d r = hm_get (rd_map d) r"

definition rd_set :: "'o ref_dom \<Rightarrow> referent \<Rightarrow> 'o inst \<Rightarrow> 'o ref_dom" where
  "rd_set d r i = d\<lparr>rd_map := hm_insert r i (rd_map d)\<rparr>"

definition rd_insert :: "'o ref_dom \<Rightarrow> referent \<Rightarrow> 'o builder \<Rightarrow> ('o ref_dom \<times> referent) option" where
  "rd_insert d p b =
     (case rd_get d p of
        None \<Rightarrow> None
      | Some i \<Rightarrow>
          (let r = Ref (rd_next d) in
           Some (d\<lparr>rd_next := rd_next d + 1,
             rd_map := hm_insert r (built b r p)
               (hm_insert p (i\<lparr>i_children := i_children i @ [r]\<rparr>) (rd_map d))\<rparr>, r)))"

function drop_subtrees :: "(referent, 'o inst) hash_map \<Rightarrow> referent list \<Rightarrow> (referent, 'o inst) hash_map" where
  "drop_subtrees m [] = m"
| "drop_subtrees m (x # queue) =
     (case hm_get m x of
        None \<Rightarrow> drop_subtrees m queue
      | Some i \<Rightarrow> drop_subtrees (hm_remove x m) (queue @ i_children i))"
  by pat_completeness auto
termination
  by (relation "measures [\<lambda>(m, queue). length m, \<lambda>(m, queue). length queue]")
    (auto dest: hm_remove_shorter)

definition rd_destroy :: "'o ref_dom \<Rightarrow> referent \<Rightarrow> 'o ref_dom option" where
  "rd_destroy d r =
     (if rd_get d r = None then None
      else Some (d\<lparr>rd_map := map (\<lambda>(k, i). (k, i\<lparr>i_children := removeAll r (i_children i)\<rparr>))
        (drop_subtrees (rd_map d) [r])\<rparr>))"

definition ref_dom_ops :: "('o ref_dom, 'o) dom_ops" where
  "ref_dom_ops = \<lparr>dom_new = rd_new, dom_root = rd_root, dom_get = rd_get, dom_set = rd_set,
     dom_insert = rd_insert, dom_destroy = rd_destroy\<rparr>"

definition rd_ok :: "'o ref_dom \<Rightarrow> bool" where
  "rd_ok d \<longleftrightarrow> (\<forall>r i. rd_get d r = Some i \<longrightarrow> (\<exists>n < rd_next d. r = Ref n))"

lemma descends_split:
  assumes x: "hm_get m x = Some i"
  shows "(\<exists>s \<in> insert x S. descends (hm_get m) s y) \<longleftrightarrow>
    y = x \<or> (\<exists>s \<in> S \<union> set (i_children i). descends (hm_get (hm_remove x m)) s y)"
proof
  assume "\<exists>s \<in> insert x S. descends (hm_get m) s y"
  then obtain s where "s \<in> insert x S" "descends (hm_get m) s y" by blast
  from this(2,1) show "y = x \<or> (\<exists>s \<in> S \<union> set (i_children i). descends (hm_get (hm_remove x m)) s y)"
  proof (induction rule: rtranclp_induct)
    case base
    then show ?case by auto
  next
    case (step y z)
    show ?case
    proof (cases "y = x")
      case True
      then show ?thesis using step.hyps(2) x by (auto simp: child_of_def)
    next
      case False
      then have "child_of (hm_get (hm_remove x m)) y z" using step.hyps(2) by (auto simp: child_of_def)
      with False step.IH [OF step.prems] show ?thesis by (meson rtranclp.rtrancl_into_rtrancl)
    qed
  qed
next
  have mono: "descends (hm_get m) s y" if "descends (hm_get (hm_remove x m)) s y" for s
    by (rule child_of_mono [OF _ that]) (auto split: if_splits)
  assume "y = x \<or> (\<exists>s \<in> S \<union> set (i_children i). descends (hm_get (hm_remove x m)) s y)"
  then consider "y = x" | s where "s \<in> S" "descends (hm_get m) s y"
    | s where "s \<in> set (i_children i)" "descends (hm_get m) s y"
    using mono by blast
  then show "\<exists>s \<in> insert x S. descends (hm_get m) s y"
  proof cases
    case 3
    then have "child_of (hm_get m) x s" using x by (auto simp: child_of_def)
    with 3 show ?thesis by (meson converse_rtranclp_into_rtranclp insertI1)
  qed auto
qed

lemma descends_from_missing: "view s = None \<Longrightarrow> descends view s y \<Longrightarrow> y = s"
  by (auto elim: converse_rtranclpE simp: child_of_def)

lemma get_drop_subtrees:
  "hm_get (drop_subtrees m queue) y =
    (if \<exists>s \<in> set queue. descends (hm_get m) s y then None else hm_get m y)"
proof (induction m queue rule: drop_subtrees.induct)
  case (1 m)
  then show ?case by simp
next
  case (2 m x queue)
  show ?case
  proof (cases "hm_get m x")
    case None
    have "(\<exists>s \<in> set (x # queue). descends (hm_get m) s y) \<longleftrightarrow>
        y = x \<or> (\<exists>s \<in> set queue. descends (hm_get m) s y)"
      using descends_from_missing [of "hm_get m" x y] None by auto
    with 2(1) [OF None] None show ?thesis by auto
  next
    case (Some i)
    have "(\<exists>s \<in> set (x # queue). descends (hm_get m) s y) \<longleftrightarrow>
        y = x \<or> (\<exists>s \<in> set (queue @ i_children i). descends (hm_get (hm_remove x m)) s y)"
      using descends_split [OF Some, of "set queue" y] by simp
    with 2(2) [OF Some] Some show ?thesis by auto
  qed
qed

lemma get_map_values: "hm_get (map (\<lambda>(k, i). (k, f i)) m) x = map_option f (hm_get m x)"
  by (induction m) auto

interpretation rd: weak_dom ref_dom_ops rd_ok
proof (unfold_locales, goal_cases)
  case (1 b)
  then show ?case by (auto simp: ref_dom_ops_def rd_ok_def rd_new_def rd_get_def fun_eq_iff)
next
  case (2 d r i i')
  then show ?case by (auto simp: ref_dom_ops_def rd_ok_def rd_set_def rd_get_def fun_eq_iff)
next
  case (3 d p b)
  then obtain i where i: "hm_get (rd_map d) p = Some i" by (auto simp: ref_dom_ops_def rd_get_def)
  have fresh: "hm_get (rd_map d) (Ref (rd_next d)) = None"
    using 3(1) by (fastforce simp: rd_ok_def rd_get_def)
  have "p \<noteq> Ref (rd_next d)" using i fresh by auto
  with 3(1) i fresh have "\<exists>d' r. dom_insert ref_dom_ops d p b = Some (d', r) \<and> rd_ok d' \<and>
      dom_root ref_dom_ops d' = dom_root ref_dom_ops d \<and> r \<noteq> NoRef \<and> dom_get ref_dom_ops d r = None \<and>
      dom_get ref_dom_ops d' = inserted_view (dom_get ref_dom_ops d) p r b"
    by (auto simp: ref_dom_ops_def rd_insert_def rd_get_def rd_ok_def Let_def inserted_view_def fun_eq_iff
        intro: less_SucI)
  then show ?case using stored_as_refl by blast
next
  case (4 d p b)
  then show ?case by (simp add: ref_dom_ops_def rd_insert_def)
next
  case (5 d r)
  have get: "rd_get d = hm_get (rd_map d)" for d :: "'a ref_dom"
    by (simp add: rd_get_def fun_eq_iff)
  from 5 show ?case
    by (auto simp: ref_dom_ops_def rd_destroy_def rd_ok_def get get_map_values get_drop_subtrees
        destroyed_view_def fun_eq_iff simp del: drop_subtrees.simps split: if_splits)
next
  case (6 d r)
  then show ?case by (simp add: ref_dom_ops_def rd_destroy_def)
qed

lemma ref_dom_is_weak_dom: "weak_dom ref_dom_ops rd_ok"
  by (rule rd.weak_dom_axioms)

end
