(* ===== verification/Rojo_Tree.thy ===== *)
theory Rojo_Tree
  imports Dom Metadata Multi_Map
begin

text \<open>
  The instance tree with Rojo's metadata, \<open>src/src/snapshot/tree.rs\<close>, and the snapshots it is
  built from, \<open>instance_snapshot.rs\<close>.  \<open>WeakDom\<close> is the parameter \<open>D\<close>.  A panic is \<open>None\<close>;
  logging is left out.
\<close>

datatype 'o instance_snapshot = Snapshot
  (sn_id: referent)
  (sn_metadata: "'o instance_metadata")
  (sn_name: string)
  (sn_class: string)
  (sn_properties: "(string, 'o variant) hash_map")
  (sn_children: "'o instance_snapshot list")

definition snapshot_new :: "'o instance_snapshot" where
  "snapshot_new = Snapshot NoRef metadata_new ''DEFAULT'' ''DEFAULT'' [] []"

text \<open>
  \<open>from_raw_tree\<close> takes each instance out of the map; a missing one panics.  The recursion is
  bounded by fuel: every level takes an entry out, so the number of entries is enough.
\<close>

fun from_raw :: "nat \<Rightarrow> (referent, 'o inst) hash_map \<Rightarrow> referent \<Rightarrow>
    ((referent, 'o inst) hash_map \<times> 'o instance_snapshot) option"
  and from_raw_list :: "nat \<Rightarrow> (referent, 'o inst) hash_map \<Rightarrow> referent list \<Rightarrow>
    ((referent, 'o inst) hash_map \<times> 'o instance_snapshot list) option"
where
  "from_raw 0 raw r = None"
| "from_raw (Suc n) raw r =
     (case hm_get raw r of
        None \<Rightarrow> None
      | Some i \<Rightarrow>
          (case from_raw_list n (hm_remove r raw) (i_children i) of
             None \<Rightarrow> None
           | Some (raw', children) \<Rightarrow>
               Some (raw', Snapshot r metadata_new (i_name i) (i_class i) (i_properties i) children)))"
| "from_raw_list n raw [] = Some (raw, [])"
| "from_raw_list n raw (r # rs) =
     (case from_raw n raw r of
        None \<Rightarrow> None
      | Some (raw', child) \<Rightarrow>
          (case from_raw_list n raw' rs of
             None \<Rightarrow> None
           | Some (raw'', children) \<Rightarrow> Some (raw'', child # children)))"

definition from_raw_tree :: "(referent, 'o inst) hash_map \<Rightarrow> referent \<Rightarrow>
    ((referent, 'o inst) hash_map \<times> 'o instance_snapshot) option" where
  "from_raw_tree raw r = from_raw (Suc (length raw)) raw r"

lemma from_raw_shrinks:
  "from_raw n raw r = Some (raw', s) \<Longrightarrow> length raw' < length raw"
  "from_raw_list n raw rs = Some (raw', ss) \<Longrightarrow> length raw' \<le> length raw"
proof (induction n raw r and n raw rs arbitrary: raw' s and raw' ss rule: from_raw_from_raw_list.induct)
  case (2 n raw r)
  then show ?case
    by (auto split: option.splits dest!: hm_remove_shorter) (meson le_less_trans)
qed (fastforce split: option.splits)+

lemma from_raw_enough_fuel:
  "length raw < n \<Longrightarrow> length raw < m \<Longrightarrow> from_raw n raw r = from_raw m raw r"
  "length raw < n \<Longrightarrow> length raw < m \<Longrightarrow> from_raw_list n raw rs = from_raw_list m raw rs"
proof (induction n raw r and n raw rs arbitrary: m and m rule: from_raw_from_raw_list.induct)
  case (2 n raw r)
  then obtain k where m: "m = Suc k" by (cases m) auto
  show ?case
  proof (cases "hm_get raw r")
    case None
    with m show ?thesis by simp
  next
    case (Some i)
    have "from_raw_list n (hm_remove r raw) (i_children i) = from_raw_list k (hm_remove r raw) (i_children i)"
      using hm_remove_shorter [OF Some] "2.prems" m by (intro "2.IH" [OF Some]) auto
    with Some m show ?thesis by simp
  qed
next
  case (4 n raw r rs)
  have "from_raw n raw r = from_raw m raw r" using "4.prems" by (rule "4.IH"(1))
  moreover have "from_raw_list n raw' rs = from_raw_list m raw' rs" if "from_raw n raw r = Some (raw', c)" for raw' c
    using from_raw_shrinks(1) [OF that] "4.prems" by (intro "4.IH"(2) [OF that refl]) auto
  ultimately show ?case by (auto split: option.split)
qed auto


section \<open>The tree\<close>

record ('d, 'o) rojo_tree =
  rt_inner :: 'd
  rt_metadata_map :: "(referent, 'o instance_metadata) hash_map"
  rt_path_to_ids :: "(path, referent) multi_map"
  rt_specified_id_to_refs :: "(rojo_ref, referent) multi_map"

definition set_specified_id :: "('d, 'o) rojo_tree \<Rightarrow> referent \<Rightarrow> rojo_ref \<Rightarrow> ('d, 'o) rojo_tree" where
  "set_specified_id t r specified =
     (let t' =
        (case hm_get (rt_metadata_map t) r of
           None \<Rightarrow> t
         | Some metadata \<Rightarrow>
             (let t1 = t\<lparr>rt_metadata_map :=
                 hm_insert r (metadata\<lparr>md_specified_id := Some specified\<rparr>) (rt_metadata_map t)\<rparr>
              in case md_specified_id metadata of
                   None \<Rightarrow> t1
                 | Some old \<Rightarrow> t1\<lparr>rt_specified_id_to_refs := mm_drop (rt_specified_id_to_refs t1) old r\<rparr>))
      in t'\<lparr>rt_specified_id_to_refs := mm_insert (rt_specified_id_to_refs t') specified r\<rparr>)"

definition insert_metadata ::
    "('d, 'o) rojo_tree \<Rightarrow> referent \<Rightarrow> 'o instance_metadata \<Rightarrow> ('d, 'o) rojo_tree" where
  "insert_metadata t r metadata =
     (let t1 = t\<lparr>rt_path_to_ids :=
          fold (\<lambda>p m. mm_insert m p r) (md_relevant_paths metadata) (rt_path_to_ids t)\<rparr>;
          t2 = (case md_specified_id metadata of None \<Rightarrow> t1 | Some s \<Rightarrow> set_specified_id t1 r s)
      in t2\<lparr>rt_metadata_map := hm_insert r metadata (rt_metadata_map t2)\<rparr>)"

definition remove_metadata :: "('d, 'o) rojo_tree \<Rightarrow> referent \<Rightarrow> ('d, 'o) rojo_tree option" where
  "remove_metadata t r =
     (case hm_get (rt_metadata_map t) r of
        None \<Rightarrow> None
      | Some metadata \<Rightarrow>
          (let t1 = t\<lparr>rt_metadata_map := hm_remove r (rt_metadata_map t)\<rparr>;
               t2 = (case md_specified_id metadata of
                       None \<Rightarrow> t1
                     | Some s \<Rightarrow> t1\<lparr>rt_specified_id_to_refs := mm_drop (rt_specified_id_to_refs t1) s r\<rparr>)
           in Some (t2\<lparr>rt_path_to_ids :=
                fold (\<lambda>p m. mm_drop m p r) (md_relevant_paths metadata) (rt_path_to_ids t2)\<rparr>)))"

definition update_metadata ::
    "('d, 'o) rojo_tree \<Rightarrow> referent \<Rightarrow> 'o instance_metadata \<Rightarrow> ('d, 'o) rojo_tree" where
  "update_metadata t r metadata =
     (case hm_get (rt_metadata_map t) r of
        None \<Rightarrow> t\<lparr>rt_metadata_map := hm_insert r metadata (rt_metadata_map t)\<rparr>
      | Some existing \<Rightarrow>
          (let paths =
                 (if md_relevant_paths existing \<noteq> md_relevant_paths metadata
                  then fold (\<lambda>p m. mm_insert m p r) (md_relevant_paths metadata)
                         (fold (\<lambda>p m. mm_drop m p r) (md_relevant_paths existing) (rt_path_to_ids t))
                  else rt_path_to_ids t);
               specs =
                 (if md_specified_id existing \<noteq> md_specified_id metadata
                  then (let added = (case md_specified_id metadata of
                               None \<Rightarrow> rt_specified_id_to_refs t
                             | Some new \<Rightarrow> mm_insert (rt_specified_id_to_refs t) new r)
                        in case md_specified_id existing of
                             None \<Rightarrow> added
                           | Some old \<Rightarrow> mm_drop added old r)
                  else rt_specified_id_to_refs t)
           in t\<lparr>rt_path_to_ids := paths, rt_specified_id_to_refs := specs,
                rt_metadata_map := hm_insert r metadata (rt_metadata_map t)\<rparr>))"

definition get_root_id :: "('d, 'o) dom_ops \<Rightarrow> ('d, 'o) rojo_tree \<Rightarrow> referent" where
  "get_root_id D t = dom_root D (rt_inner t)"

text \<open>\<open>get_instance\<close>: an instance without metadata panics (the outer option).\<close>

definition get_instance :: "('d, 'o) dom_ops \<Rightarrow> ('d, 'o) rojo_tree \<Rightarrow> referent \<Rightarrow>
    ('o inst \<times> 'o instance_metadata) option option" where
  "get_instance D t r =
     (case dom_get D (rt_inner t) r of
        None \<Rightarrow> Some None
      | Some i \<Rightarrow>
          (case hm_get (rt_metadata_map t) r of
             None \<Rightarrow> None
           | Some metadata \<Rightarrow> Some (Some (i, metadata))))"

definition rt_root :: "('d, 'o) dom_ops \<Rightarrow> ('d, 'o) rojo_tree \<Rightarrow> ('o inst \<times> 'o instance_metadata) option" where
  "rt_root D t = Option.bind (get_instance D t (get_root_id D t)) (\<lambda>x. x)"

text \<open>A write through \<open>get_instance_mut\<close> to the name, class or properties.\<close>

definition modify_instance :: "('d, 'o) dom_ops \<Rightarrow> ('d, 'o) rojo_tree \<Rightarrow> referent \<Rightarrow>
    ('o inst \<Rightarrow> 'o inst) \<Rightarrow> ('d, 'o) rojo_tree" where
  "modify_instance D t r f =
     (case dom_get D (rt_inner t) r of
        None \<Rightarrow> t
      | Some i \<Rightarrow> t\<lparr>rt_inner := dom_set D (rt_inner t) r (f i)\<rparr>)"

definition model_classes :: "string list" where
  "model_classes =
     [''Model'', ''Actor'', ''Tool'', ''HopperBin'', ''Flag'', ''WorldModel'', ''Workspace'', ''Status'']"

definition NeedsPivotMigration :: string where
  "NeedsPivotMigration = ''NeedsPivotMigration''"

definition hack_needs_pivot_migration :: "'o instance_snapshot \<Rightarrow> (string, 'o variant) hash_map" where
  "hack_needs_pivot_migration s =
     (if sn_class s \<in> set model_classes \<and> \<not> hm_contains_key (sn_properties s) NeedsPivotMigration
      then [(NeedsPivotMigration, VBool False)] else [])"

definition builder_of :: "'o instance_snapshot \<Rightarrow> 'o builder" where
  "builder_of s =
     \<lparr>b_class = sn_class s, b_name = sn_name s,
      b_properties = hm_extend (hm_extend [] (hack_needs_pivot_migration s)) (sn_properties s)\<rparr>"

fun insert_instance :: "('d, 'o) dom_ops \<Rightarrow> ('d, 'o) rojo_tree \<Rightarrow> referent \<Rightarrow> 'o instance_snapshot \<Rightarrow>
    (('d, 'o) rojo_tree \<times> referent) option"
  and insert_instances :: "('d, 'o) dom_ops \<Rightarrow> ('d, 'o) rojo_tree \<Rightarrow> referent \<Rightarrow>
    'o instance_snapshot list \<Rightarrow> ('d, 'o) rojo_tree option"
where
  "insert_instance D t parent_ref (Snapshot s_id metadata name class_name properties children) =
     (case dom_insert D (rt_inner t) parent_ref
             (builder_of (Snapshot s_id metadata name class_name properties children)) of
        None \<Rightarrow> None
      | Some (inner, r) \<Rightarrow>
          (case insert_instances D (insert_metadata (t\<lparr>rt_inner := inner\<rparr>) r metadata) r children of
             None \<Rightarrow> None
           | Some t' \<Rightarrow> Some (t', r)))"
| "insert_instances D t parent_ref [] = Some t"
| "insert_instances D t parent_ref (s # ss) =
     (case insert_instance D t parent_ref s of
        None \<Rightarrow> None
      | Some (t', _) \<Rightarrow> insert_instances D t' parent_ref ss)"

definition rt_new :: "('d, 'o) dom_ops \<Rightarrow> 'o instance_snapshot \<Rightarrow> ('d, 'o) rojo_tree option" where
  "rt_new D s =
     (let inner = dom_new D \<lparr>b_class = sn_class s, b_name = sn_name s, b_properties = sn_properties s\<rparr>;
          t = \<lparr>rt_inner = inner, rt_metadata_map = [], rt_path_to_ids = mm_new,
               rt_specified_id_to_refs = mm_new\<rparr>;
          root_ref = dom_root D inner
      in insert_instances D (insert_metadata t root_ref (sn_metadata s)) root_ref (sn_children s))"

text \<open>The loop of \<open>remove\<close>: each round takes out an entry of the metadata map or panics.\<close>

lemma remove_metadata_shorter:
  "remove_metadata t r = Some t' \<Longrightarrow> length (rt_metadata_map t') < length (rt_metadata_map t)"
  by (auto simp: remove_metadata_def Let_def split: option.splits dest: hm_remove_shorter)

lemma remove_metadata_inner: "remove_metadata t r = Some t' \<Longrightarrow> rt_inner t' = rt_inner t"
  by (auto simp: remove_metadata_def Let_def split: option.splits)

function rt_remove_loop :: "('d, 'o) dom_ops \<Rightarrow> ('d, 'o) rojo_tree \<Rightarrow> referent list \<Rightarrow> ('d, 'o) rojo_tree option"
where
  "rt_remove_loop D t [] = Some t"
| "rt_remove_loop D t (r # to_move) =
     (case remove_metadata t r of
        None \<Rightarrow> None
      | Some t' \<Rightarrow>
          rt_remove_loop D t'
            (case dom_get D (rt_inner t') r of None \<Rightarrow> to_move | Some i \<Rightarrow> to_move @ i_children i))"
  by pat_completeness auto
termination
  by (relation "measure (\<lambda>(D, t, to_move). length (rt_metadata_map t))")
    (auto dest: remove_metadata_shorter)

definition rt_remove :: "('d, 'o) dom_ops \<Rightarrow> ('d, 'o) rojo_tree \<Rightarrow> referent \<Rightarrow> ('d, 'o) rojo_tree option" where
  "rt_remove D t r =
     (case rt_remove_loop D t [r] of
        None \<Rightarrow> None
      | Some t' \<Rightarrow>
          (case dom_destroy D (rt_inner t') r of
             None \<Rightarrow> None
           | Some inner \<Rightarrow> Some (t'\<lparr>rt_inner := inner\<rparr>)))"

definition get_ids_at_path :: "('d, 'o) rojo_tree \<Rightarrow> path \<Rightarrow> referent list" where
  "get_ids_at_path t p = mm_get (rt_path_to_ids t) p"

definition get_metadata :: "('d, 'o) rojo_tree \<Rightarrow> referent \<Rightarrow> 'o instance_metadata option" where
  "get_metadata t r = hm_get (rt_metadata_map t) r"

definition get_specified_id :: "('d, 'o) rojo_tree \<Rightarrow> rojo_ref \<Rightarrow> referent option" where
  "get_specified_id t specified =
     (case mm_get (rt_specified_id_to_refs t) specified of [r] \<Rightarrow> Some r | _ \<Rightarrow> None)"

text \<open>One step of the iterator \<open>RojoDescendants\<close>: the queue and what \<open>next\<close> returns.\<close>

definition descendants_next :: "('d, 'o) dom_ops \<Rightarrow> ('d, 'o) rojo_tree \<Rightarrow> referent list \<Rightarrow>
    (referent list \<times> ('o inst \<times> 'o instance_metadata) option) option" where
  "descendants_next D t queue =
     (case queue of
        [] \<Rightarrow> Some ([], None)
      | r # rest \<Rightarrow>
          (case dom_get D (rt_inner t) r of
             None \<Rightarrow> None
           | Some i \<Rightarrow>
               (case get_metadata t (i_referent i) of
                  None \<Rightarrow> None
                | Some metadata \<Rightarrow> Some (rest @ i_children i, Some (i, metadata)))))"


section \<open>The invariant\<close>

text \<open>
  The metadata has one entry per instance, and the two multimaps index it: by every relevant path,
  and by the specified id.
\<close>

definition metadata_paths :: "(referent, 'o instance_metadata) hash_map \<Rightarrow> path \<Rightarrow> referent \<Rightarrow> bool" where
  "metadata_paths mds p r \<longleftrightarrow> (\<exists>m. hm_get mds r = Some m \<and> p \<in> set (md_relevant_paths m))"

definition metadata_specs :: "(referent, 'o instance_metadata) hash_map \<Rightarrow> rojo_ref \<Rightarrow> referent \<Rightarrow> bool" where
  "metadata_specs mds s r \<longleftrightarrow> (\<exists>m. hm_get mds r = Some m \<and> md_specified_id m = Some s)"

definition index_inv :: "('d, 'o) rojo_tree \<Rightarrow> bool" where
  "index_inv t \<longleftrightarrow>
     mmi.indexes (rt_path_to_ids t) (metadata_paths (rt_metadata_map t)) \<and>
     mmi.indexes (rt_specified_id_to_refs t) (metadata_specs (rt_metadata_map t))"

definition tree_inv :: "('d, 'o) dom_ops \<Rightarrow> ('d \<Rightarrow> bool) \<Rightarrow> ('d, 'o) rojo_tree \<Rightarrow> bool" where
  "tree_inv D ok t \<longleftrightarrow>
     ok (rt_inner t) \<and> dom_wf (dom_get D (rt_inner t)) (dom_root D (rt_inner t)) \<and>
     (\<forall>r. hm_contains_key (rt_metadata_map t) r \<longleftrightarrow> dom_get D (rt_inner t) r \<noteq> None) \<and>
     index_inv t"

lemma metadata_paths_insert:
  "metadata_paths (hm_insert r m mds) p q \<longleftrightarrow>
    (if q = r then p \<in> set (md_relevant_paths m) else metadata_paths mds p q)"
  by (simp add: metadata_paths_def)

lemma metadata_specs_insert:
  "metadata_specs (hm_insert r m mds) s q \<longleftrightarrow>
    (if q = r then md_specified_id m = Some s else metadata_specs mds s q)"
  by (simp add: metadata_specs_def)

lemma metadata_paths_remove:
  "metadata_paths (hm_remove r mds) p q \<longleftrightarrow> q \<noteq> r \<and> metadata_paths mds p q"
  by (simp add: metadata_paths_def)

lemma metadata_specs_remove:
  "metadata_specs (hm_remove r mds) s q \<longleftrightarrow> q \<noteq> r \<and> metadata_specs mds s q"
  by (simp add: metadata_specs_def)

lemmas metadata_index_simps = metadata_paths_insert metadata_specs_insert metadata_paths_remove
  metadata_specs_remove

lemma metadata_paths_at: "hm_get mds r = Some m \<Longrightarrow> metadata_paths mds p r \<longleftrightarrow> p \<in> set (md_relevant_paths m)"
  by (simp add: metadata_paths_def)

lemma metadata_specs_at: "hm_get mds r = Some m \<Longrightarrow> metadata_specs mds s r \<longleftrightarrow> md_specified_id m = Some s"
  by (simp add: metadata_specs_def)

lemma index_inv_set_specified_id:
  assumes inv: "index_inv t" and r: "hm_get (rt_metadata_map t) r = Some m"
  shows "index_inv (set_specified_id t r s)"
proof -
  let ?mds = "hm_insert r (m\<lparr>md_specified_id := Some s\<rparr>) (rt_metadata_map t)"
  have paths: "mmi.indexes (rt_path_to_ids t) (metadata_paths ?mds)"
    using inv r by (auto simp: index_inv_def metadata_index_simps metadata_paths_at split: if_splits elim!: mmi.indexes_cong)
  have specs: "mmi.indexes (rt_specified_id_to_refs t) (metadata_specs (rt_metadata_map t))"
    using inv by (simp add: index_inv_def)
  show ?thesis
  proof (cases "md_specified_id m")
    case None
    have "mmi.indexes (mm_insert (rt_specified_id_to_refs t) s r) (metadata_specs ?mds)"
      by (rule mmi.indexes_cong [OF mmi.indexes_add [OF specs]])
        (use None r in \<open>auto simp: metadata_index_simps metadata_specs_at\<close>)
    with paths r None show ?thesis by (simp add: set_specified_id_def index_inv_def)
  next
    case (Some old)
    have "mmi.indexes (mm_insert (mm_drop (rt_specified_id_to_refs t) old r) s r) (metadata_specs ?mds)"
      by (rule mmi.indexes_cong [OF mmi.indexes_add [OF mmi.indexes_drop [OF specs]]])
        (use Some r in \<open>auto simp: metadata_index_simps metadata_specs_at\<close>)
    with paths r Some show ?thesis by (simp add: set_specified_id_def index_inv_def Let_def)
  qed
qed

lemma index_inv_insert_metadata:
  assumes inv: "index_inv t" and r: "hm_get (rt_metadata_map t) r = None"
  shows "index_inv (insert_metadata t r m)"
    and "rt_metadata_map (insert_metadata t r m) = hm_insert r m (rt_metadata_map t)"
    and "rt_inner (insert_metadata t r m) = rt_inner t"
proof -
  have "mmi.indexes (fold (\<lambda>p m. mm_insert m p r) (md_relevant_paths m) (rt_path_to_ids t))
      (metadata_paths (hm_insert r m (rt_metadata_map t)))"
    by (rule mmi.indexes_cong [OF mmi.indexes_add_all])
      (use inv r in \<open>auto simp: index_inv_def metadata_index_simps metadata_paths_def\<close>)
  moreover have "mmi.indexes (case md_specified_id m of None \<Rightarrow> rt_specified_id_to_refs t
        | Some s \<Rightarrow> mm_insert (rt_specified_id_to_refs t) s r)
      (metadata_specs (hm_insert r m (rt_metadata_map t)))"
  proof (cases "md_specified_id m")
    case None
    then show ?thesis using inv r
      by (auto simp: index_inv_def metadata_index_simps metadata_specs_def split: if_splits elim!: mmi.indexes_cong)
  next
    case (Some s)
    have "mmi.indexes (mm_insert (rt_specified_id_to_refs t) s r) (metadata_specs (hm_insert r m (rt_metadata_map t)))"
      by (rule mmi.indexes_cong [OF mmi.indexes_add])
        (use inv r Some in \<open>auto simp: index_inv_def metadata_index_simps metadata_specs_def\<close>)
    with Some show ?thesis by simp
  qed
  ultimately show "index_inv (insert_metadata t r m)"
    using r by (auto simp: index_inv_def insert_metadata_def set_specified_id_def Let_def split: option.splits)
  show "rt_metadata_map (insert_metadata t r m) = hm_insert r m (rt_metadata_map t)"
    using r by (auto simp: insert_metadata_def set_specified_id_def Let_def split: option.splits)
  show "rt_inner (insert_metadata t r m) = rt_inner t"
    using r by (auto simp: insert_metadata_def set_specified_id_def Let_def split: option.splits)
qed

lemma index_inv_remove_metadata:
  assumes inv: "index_inv t" and rm: "remove_metadata t r = Some t'"
  shows "index_inv t'" and "rt_metadata_map t' = hm_remove r (rt_metadata_map t)"
proof -
  obtain m where r: "hm_get (rt_metadata_map t) r = Some m"
    using rm by (auto simp: remove_metadata_def split: option.splits)
  have "mmi.indexes (fold (\<lambda>p m. mm_drop m p r) (md_relevant_paths m) (rt_path_to_ids t))
      (metadata_paths (hm_remove r (rt_metadata_map t)))"
    by (rule mmi.indexes_cong [OF mmi.indexes_drop_all])
      (use inv r in \<open>auto simp: index_inv_def metadata_index_simps metadata_paths_at\<close>)
  moreover have "mmi.indexes (case md_specified_id m of None \<Rightarrow> rt_specified_id_to_refs t
        | Some s \<Rightarrow> mm_drop (rt_specified_id_to_refs t) s r)
      (metadata_specs (hm_remove r (rt_metadata_map t)))"
  proof (cases "md_specified_id m")
    case None
    then show ?thesis using inv r
      by (auto simp: index_inv_def metadata_index_simps metadata_specs_at split: if_splits elim!: mmi.indexes_cong)
  next
    case (Some s)
    have "mmi.indexes (mm_drop (rt_specified_id_to_refs t) s r) (metadata_specs (hm_remove r (rt_metadata_map t)))"
      by (rule mmi.indexes_cong [OF mmi.indexes_drop])
        (use inv r Some in \<open>auto simp: index_inv_def metadata_index_simps metadata_specs_at\<close>)
    with Some show ?thesis by simp
  qed
  ultimately show "index_inv t'"
    using r rm by (auto simp: index_inv_def remove_metadata_def Let_def split: option.splits)
  show "rt_metadata_map t' = hm_remove r (rt_metadata_map t)"
    using r rm by (auto simp: remove_metadata_def Let_def split: option.splits)
qed

lemma index_inv_update_metadata:
  assumes inv: "index_inv t" and r: "hm_get (rt_metadata_map t) r = Some e"
  shows "index_inv (update_metadata t r m)"
proof -
  let ?mds = "hm_insert r m (rt_metadata_map t)"
  have "mmi.indexes (if md_relevant_paths e \<noteq> md_relevant_paths m
        then fold (\<lambda>p m. mm_insert m p r) (md_relevant_paths m)
               (fold (\<lambda>p m. mm_drop m p r) (md_relevant_paths e) (rt_path_to_ids t))
        else rt_path_to_ids t) (metadata_paths ?mds)"
  proof (cases "md_relevant_paths e = md_relevant_paths m")
    case True
    then show ?thesis using inv r
      by (auto simp: index_inv_def metadata_index_simps metadata_paths_at split: if_splits elim!: mmi.indexes_cong)
  next
    case False
    have "mmi.indexes (fold (\<lambda>p m. mm_insert m p r) (md_relevant_paths m)
               (fold (\<lambda>p m. mm_drop m p r) (md_relevant_paths e) (rt_path_to_ids t))) (metadata_paths ?mds)"
      by (rule mmi.indexes_cong [OF mmi.indexes_add_all [OF mmi.indexes_drop_all]])
        (use inv r in \<open>auto simp: index_inv_def metadata_index_simps metadata_paths_at\<close>)
    with False show ?thesis by simp
  qed
  moreover have "mmi.indexes
      (if md_specified_id e \<noteq> md_specified_id m
       then (let added = (case md_specified_id m of None \<Rightarrow> rt_specified_id_to_refs t
                 | Some new \<Rightarrow> mm_insert (rt_specified_id_to_refs t) new r)
             in case md_specified_id e of None \<Rightarrow> added | Some old \<Rightarrow> mm_drop added old r)
       else rt_specified_id_to_refs t) (metadata_specs ?mds)"
  proof -
    have start: "mmi.indexes (rt_specified_id_to_refs t) (metadata_specs (rt_metadata_map t))"
      using inv by (simp add: index_inv_def)
    let ?added = "case md_specified_id m of None \<Rightarrow> rt_specified_id_to_refs t
      | Some new \<Rightarrow> mm_insert (rt_specified_id_to_refs t) new r"
    have added: "mmi.indexes ?added (\<lambda>s q. metadata_specs (rt_metadata_map t) s q \<or>
        (md_specified_id m = Some s \<and> q = r))"
    proof (cases "md_specified_id m")
      case None
      with start show ?thesis by simp
    next
      case (Some new)
      have "mmi.indexes (mm_insert (rt_specified_id_to_refs t) new r)
          (\<lambda>s q. metadata_specs (rt_metadata_map t) s q \<or> (md_specified_id m = Some s \<and> q = r))"
        by (rule mmi.indexes_cong [OF mmi.indexes_add [OF start]]) (use Some in auto)
      with Some show ?thesis by simp
    qed
    have "mmi.indexes (case md_specified_id e of None \<Rightarrow> ?added | Some old \<Rightarrow> mm_drop ?added old r)
        (metadata_specs ?mds)" if "md_specified_id e \<noteq> md_specified_id m"
    proof (cases "md_specified_id e")
      case None
      with added r show ?thesis
        by (auto simp: metadata_index_simps metadata_specs_at split: if_splits elim!: mmi.indexes_cong)
    next
      case (Some old)
      have "mmi.indexes (mm_drop ?added old r) (metadata_specs ?mds)"
        by (rule mmi.indexes_cong [OF mmi.indexes_drop [OF added]])
          (use that Some r in \<open>auto simp: metadata_index_simps metadata_specs_at\<close>)
      with Some show ?thesis by simp
    qed
    moreover have "mmi.indexes (rt_specified_id_to_refs t) (metadata_specs ?mds)" if "md_specified_id e = md_specified_id m"
      using start that r by (auto simp: metadata_index_simps metadata_specs_at split: if_splits elim!: mmi.indexes_cong)
    ultimately show ?thesis by (simp add: Let_def)
  qed
  ultimately show ?thesis using r by (simp add: index_inv_def update_metadata_def Let_def)
qed


section \<open>Every operation keeps it\<close>

lemma tree_invD:
  assumes "tree_inv D ok t"
  shows "ok (rt_inner t)" and "dom_wf (dom_get D (rt_inner t)) (dom_root D (rt_inner t))"
    and "hm_get (rt_metadata_map t) r = None \<longleftrightarrow> dom_get D (rt_inner t) r = None"
    and "index_inv t"
  using assms unfolding tree_inv_def by blast+

text \<open>
  What an insertion has to show: instance \<open>r\<close> is new with respect to \<open>t0\<close> and has the snapshot's
  name, class, metadata and properties (with the pivot migration, and with another unique id if its own
  was taken), and its children are, in order, what the snapshot's children show.
\<close>

fun shows_new :: "('d, 'o) dom_ops \<Rightarrow> ('d, 'o) rojo_tree \<Rightarrow> ('d, 'o) rojo_tree \<Rightarrow> referent \<Rightarrow>
    'o instance_snapshot \<Rightarrow> bool" where
  "shows_new D t0 t r (Snapshot s_id metadata name class_name properties children) \<longleftrightarrow>
     dom_get D (rt_inner t0) r = None \<and>
     (\<exists>i. dom_get D (rt_inner t) r = Some i \<and> hm_get (rt_metadata_map t) r = Some metadata \<and>
        i_name i = name \<and> i_class i = class_name \<and>
        kept_properties (b_properties (builder_of (Snapshot s_id metadata name class_name properties children)))
          (i_properties i) \<and>
        list_all2 (shows_new D t0 t) (i_children i) children)"

context weak_dom
begin

lemma get_instance_total:
  assumes "tree_inv D ok t"
  shows "get_instance D t r =
    Some (case dom_get D (rt_inner t) r of
       None \<Rightarrow> None
     | Some i \<Rightarrow> Some (i, the (hm_get (rt_metadata_map t) r)))"
  using tree_invD(3) [OF assms, of r] by (auto simp: get_instance_def split: option.splits)

lemma tree_inv_set_specified_id:
  assumes inv: "tree_inv D ok t" and r: "dom_get D (rt_inner t) r \<noteq> None"
  shows "tree_inv D ok (set_specified_id t r s)"
proof -
  obtain m where m: "hm_get (rt_metadata_map t) r = Some m" using tree_invD(3) [OF inv, of r] r by auto
  have "rt_inner (set_specified_id t r s) = rt_inner t"
    and "hm_contains_key (rt_metadata_map (set_specified_id t r s)) q \<longleftrightarrow> hm_contains_key (rt_metadata_map t) q" for q
    using m by (auto simp: set_specified_id_def Let_def split: option.splits)
  then show ?thesis
    using inv index_inv_set_specified_id [OF tree_invD(4) [OF inv] m] by (simp add: tree_inv_def)
qed

lemma tree_inv_update_metadata:
  assumes inv: "tree_inv D ok t" and r: "dom_get D (rt_inner t) r \<noteq> None"
  shows "tree_inv D ok (update_metadata t r m)"
    and "rt_inner (update_metadata t r m) = rt_inner t"
proof -
  obtain e where e: "hm_get (rt_metadata_map t) r = Some e" using tree_invD(3) [OF inv, of r] r by auto
  show "rt_inner (update_metadata t r m) = rt_inner t"
    using e by (simp add: update_metadata_def Let_def)
  moreover have "rt_metadata_map (update_metadata t r m) = hm_insert r m (rt_metadata_map t)"
    using e by (simp add: update_metadata_def Let_def)
  ultimately show "tree_inv D ok (update_metadata t r m)"
    using inv e r index_inv_update_metadata [OF tree_invD(4) [OF inv] e] by (auto simp: tree_inv_def)
qed

lemma tree_inv_modify_instance:
  assumes inv: "tree_inv D ok t"
    and f: "\<And>i. i_referent (f i) = i_referent i \<and> i_parent (f i) = i_parent i \<and> i_children (f i) = i_children i"
  shows "tree_inv D ok (modify_instance D t r f)"
proof (cases "dom_get D (rt_inner t) r")
  case None
  with inv show ?thesis by (simp add: modify_instance_def)
next
  case (Some i)
  have "i_referent (f i) = i_referent i" "i_parent (f i) = i_parent i" "i_children (f i) = i_children i"
    using f by auto
  note step = set_law [OF tree_invD(1) [OF inv] Some this] dom_wf_set [OF tree_invD(2) [OF inv] Some this]
  with inv Some show ?thesis by (auto simp: modify_instance_def tree_inv_def index_inv_def)
qed

text \<open>Adding the instance and its metadata.\<close>

lemma tree_inv_insert_one:
  assumes inv: "tree_inv D ok t" and p: "dom_get D (rt_inner t) p \<noteq> None"
    and ins: "dom_insert D (rt_inner t) p b = Some (inner, r)"
  shows "tree_inv D ok (insert_metadata (t\<lparr>rt_inner := inner\<rparr>) r m)"
    and "\<exists>b'. stored_as b b' \<and> dom_get D (rt_inner (insert_metadata (t\<lparr>rt_inner := inner\<rparr>) r m))
      = inserted_view (dom_get D (rt_inner t)) p r b'"
    and "dom_get D (rt_inner t) r = None" and "dom_root D inner = dom_root D (rt_inner t)"
    and "rt_metadata_map (insert_metadata (t\<lparr>rt_inner := inner\<rparr>) r m) = hm_insert r m (rt_metadata_map t)"
proof -
  obtain b' where new: "ok inner" "dom_root D inner = dom_root D (rt_inner t)" "r \<noteq> NoRef" "dom_get D (rt_inner t) r = None"
    "dom_get D inner = inserted_view (dom_get D (rt_inner t)) p r b'" and stored: "stored_as b b'"
    using insert_law [OF tree_invD(1) [OF inv] p, of b] ins by auto
  obtain pi where pi: "dom_get D (rt_inner t) p = Some pi" using p by auto
  have wf: "dom_wf (dom_get D inner) (dom_root D inner)"
    unfolding new by (rule dom_wf_insert [OF tree_invD(2) [OF inv] pi new(4,3)])
  have "hm_get (rt_metadata_map t) r = None" using tree_invD(3) [OF inv, of r] new(4) by simp
  then have md: "hm_get (rt_metadata_map (t\<lparr>rt_inner := inner\<rparr>)) r = None" by simp
  have "index_inv (t\<lparr>rt_inner := inner\<rparr>)" using tree_invD(4) [OF inv] by (simp add: index_inv_def)
  note step = index_inv_insert_metadata [OF this md, of m]
  have keys: "hm_contains_key (hm_insert r m (rt_metadata_map t)) q \<longleftrightarrow> dom_get D inner q \<noteq> None" for q
    using tree_invD(3) [OF inv, of q] new(4,5) p by (auto simp: inserted_view_def)
  show "tree_inv D ok (insert_metadata (t\<lparr>rt_inner := inner\<rparr>) r m)"
    unfolding tree_inv_def using step new(1) wf keys by simp
  show "\<exists>b'. stored_as b b' \<and> dom_get D (rt_inner (insert_metadata (t\<lparr>rt_inner := inner\<rparr>) r m))
      = inserted_view (dom_get D (rt_inner t)) p r b'"
    using step(3) new(5) stored by (intro exI [of _ b']) simp
  show "dom_get D (rt_inner t) r = None" "dom_root D inner = dom_root D (rt_inner t)" by (rule new)+
  show "rt_metadata_map (insert_metadata (t\<lparr>rt_inner := inner\<rparr>) r m) = hm_insert r m (rt_metadata_map t)"
    using step(2) by simp
qed

text \<open>
  What an insertion leaves alone: the root, the instances other than the parent (which gains
  exactly the children \<open>cs\<close> at the end), and their metadata.
\<close>

definition grown :: "('d, 'o) rojo_tree \<Rightarrow> referent \<Rightarrow> referent list \<Rightarrow> ('d, 'o) rojo_tree \<Rightarrow> bool" where
  "grown t p cs t' \<longleftrightarrow>
     dom_root D (rt_inner t') = dom_root D (rt_inner t) \<and>
     (\<forall>q i. dom_get D (rt_inner t) q = Some i \<longrightarrow>
        hm_get (rt_metadata_map t') q = hm_get (rt_metadata_map t) q \<and>
        dom_get D (rt_inner t') q = Some (i\<lparr>i_children := i_children i @ (if q = p then cs else [])\<rparr>))"

lemma grownD:
  assumes "grown t p cs t'" and "dom_get D (rt_inner t) q = Some i"
  shows "dom_get D (rt_inner t') q = Some (i\<lparr>i_children := i_children i @ (if q = p then cs else [])\<rparr>)"
    and "hm_get (rt_metadata_map t') q = hm_get (rt_metadata_map t) q"
  using assms unfolding grown_def by blast+

lemma grown_root: "grown t p cs t' \<Longrightarrow> dom_root D (rt_inner t') = dom_root D (rt_inner t)"
  by (simp add: grown_def)

lemma grown_refl: "grown t p [] t"
  by (simp add: grown_def)

lemma grown_keeps:
  assumes "grown t p cs t'" and "dom_get D (rt_inner t) q \<noteq> None"
  shows "dom_get D (rt_inner t') q \<noteq> None"
proof -
  obtain i where "dom_get D (rt_inner t) q = Some i" using assms(2) by auto
  from grownD(1) [OF assms(1) this] show ?thesis by simp
qed

lemma grown_trans:
  assumes "grown t p cs t1" and "grown t1 p cs' t2"
  shows "grown t p (cs @ cs') t2"
  unfolding grown_def
proof (intro conjI allI impI)
  show "dom_root D (rt_inner t2) = dom_root D (rt_inner t)" using assms grown_root by metis
  fix q i
  assume q: "dom_get D (rt_inner t) q = Some i"
  note 1 = grownD [OF assms(1) q] and 2 = grownD [OF assms(2) grownD(1) [OF assms(1) q]]
  show "hm_get (rt_metadata_map t2) q = hm_get (rt_metadata_map t) q" using 1 2 by simp
  show "dom_get D (rt_inner t2) q = Some (i\<lparr>i_children := i_children i @ (if q = p then cs @ cs' else [])\<rparr>)"
    using 2(1) by simp
qed

text \<open>Growth below an instance that is new does not show.\<close>

lemma grown_trans_new:
  assumes "grown t p cs t1" and "grown t1 r cs' t2" and r: "dom_get D (rt_inner t) r = None"
  shows "grown t p cs t2"
  unfolding grown_def
proof (intro conjI allI impI)
  show "dom_root D (rt_inner t2) = dom_root D (rt_inner t)" using assms grown_root by metis
  fix q i
  assume q: "dom_get D (rt_inner t) q = Some i"
  then have "q \<noteq> r" using r by auto
  note 1 = grownD [OF assms(1) q] and 2 = grownD [OF assms(2) grownD(1) [OF assms(1) q]]
  show "hm_get (rt_metadata_map t2) q = hm_get (rt_metadata_map t) q" using 1 2 by simp
  show "dom_get D (rt_inner t2) q = Some (i\<lparr>i_children := i_children i @ (if q = p then cs else [])\<rparr>)"
    using 2(1) \<open>q \<noteq> r\<close> by simp
qed

lemma grown_insert_one:
  assumes inv: "tree_inv D ok t" and p: "dom_get D (rt_inner t) p \<noteq> None"
    and ins: "dom_insert D (rt_inner t) p b = Some (inner, r)"
  shows "grown t p [r] (insert_metadata (t\<lparr>rt_inner := inner\<rparr>) r m)"
proof -
  note new = tree_inv_insert_one [OF assms]
  have inner: "rt_inner (insert_metadata (t\<lparr>rt_inner := inner\<rparr>) r m) = inner"
    using tree_invD(3,4) [OF inv] new(3) by (subst index_inv_insert_metadata(3)) (simp_all add: index_inv_def)
  with new(2) [of m] obtain b' where get: "dom_get D inner = inserted_view (dom_get D (rt_inner t)) p r b'" by auto
  show ?thesis
    unfolding grown_def inner new(5)
  proof (intro conjI allI impI)
    show "dom_root D inner = dom_root D (rt_inner t)" by (rule new(4))
    fix q i
    assume q: "dom_get D (rt_inner t) q = Some i"
    with new(3) have "q \<noteq> r" by auto
    then show "hm_get (hm_insert r m (rt_metadata_map t)) q = hm_get (rt_metadata_map t) q" by simp
    show "dom_get D inner q = Some (i\<lparr>i_children := i_children i @ (if q = p then [r] else [])\<rparr>)"
      using q \<open>q \<noteq> r\<close> by (auto simp: get inserted_view_def)
  qed
qed

lemma shows_grown:
  "shows_new D t0 t r s \<Longrightarrow> grown t p cs t' \<Longrightarrow> dom_get D (rt_inner t0) p \<noteq> None \<Longrightarrow> shows_new D t0 t' r s"
proof (induction s arbitrary: r)
  case (Snapshot s_id metadata name class_name properties children)
  from Snapshot.prems(1) obtain i where i: "dom_get D (rt_inner t0) r = None" "dom_get D (rt_inner t) r = Some i"
    "hm_get (rt_metadata_map t) r = Some metadata" "i_name i = name" "i_class i = class_name"
    "kept_properties (b_properties (builder_of (Snapshot s_id metadata name class_name properties children))) (i_properties i)"
    "list_all2 (shows_new D t0 t) (i_children i) children"
    by auto
  have "r \<noteq> p" using i(1) Snapshot.prems(3) by auto
  with grownD [OF Snapshot.prems(2) i(2)] have "dom_get D (rt_inner t') r = Some i"
    "hm_get (rt_metadata_map t') r = Some metadata" using i(3) by simp_all
  moreover have "list_all2 (shows_new D t0 t') (i_children i) children"
    using i(7) by (rule list.rel_mono_strong) (use Snapshot.IH Snapshot.prems(2,3) in blast)
  ultimately show ?case using i by simp
qed

lemma shows_older:
  "shows_new D t1 t r s \<Longrightarrow> (\<And>q. dom_get D (rt_inner t1) q = None \<Longrightarrow> dom_get D (rt_inner t0) q = None) \<Longrightarrow>
    shows_new D t0 t r s"
proof (induction s arbitrary: r)
  case (Snapshot s_id metadata name class_name properties children)
  from Snapshot.prems(1) obtain i where i: "dom_get D (rt_inner t1) r = None" "dom_get D (rt_inner t) r = Some i"
    "hm_get (rt_metadata_map t) r = Some metadata" "i_name i = name" "i_class i = class_name"
    "kept_properties (b_properties (builder_of (Snapshot s_id metadata name class_name properties children))) (i_properties i)"
    "list_all2 (shows_new D t1 t) (i_children i) children"
    by auto
  have "list_all2 (shows_new D t0 t) (i_children i) children"
    using i(7) by (rule list.rel_mono_strong) (use Snapshot.IH Snapshot.prems(2) in blast)
  then show ?case using i Snapshot.prems(2) by simp
qed

definition inserts :: "'o instance_snapshot \<Rightarrow> bool" where
  "inserts s \<longleftrightarrow>
     (\<forall>t p. tree_inv D ok t \<longrightarrow> dom_get D (rt_inner t) p \<noteq> None \<longrightarrow>
        (\<exists>t' r. insert_instance D t p s = Some (t', r) \<and> tree_inv D ok t' \<and> grown t p [r] t' \<and>
           shows_new D t t' r s))"

lemma insert_instances_grows:
  assumes "tree_inv D ok t" and "dom_get D (rt_inner t) p \<noteq> None" and "\<And>s. s \<in> set ss \<Longrightarrow> inserts s"
  shows "\<exists>t' cs. insert_instances D t p ss = Some t' \<and> tree_inv D ok t' \<and> grown t p cs t' \<and>
    list_all2 (shows_new D t t') cs ss"
  using assms
proof (induction ss arbitrary: t)
  case Nil
  then show ?case using grown_refl by auto
next
  case (Cons s ss)
  from Cons.prems have "inserts s" by simp
  with Cons.prems obtain t1 r where t1: "insert_instance D t p s = Some (t1, r)" "tree_inv D ok t1"
    "grown t p [r] t1" "shows_new D t t1 r s"
    unfolding inserts_def by meson
  have p1: "dom_get D (rt_inner t1) p \<noteq> None" by (rule grown_keeps [OF t1(3) Cons.prems(2)])
  from Cons.IH [OF t1(2) this] Cons.prems(3) obtain t' cs where
    t': "insert_instances D t1 p ss = Some t'" "tree_inv D ok t'" "grown t1 p cs t'"
      "list_all2 (shows_new D t1 t') cs ss" by auto
  have "list_all2 (shows_new D t t') cs ss"
    using t'(4) by (rule list.rel_mono_strong) (use shows_older grown_keeps [OF t1(3)] in blast)
  moreover have "shows_new D t t' r s" by (rule shows_grown [OF t1(4) t'(3) Cons.prems(2)])
  ultimately show ?case
    using t1(1) t'(1,2) grown_trans [OF t1(3) t'(3)] by (intro exI [of _ t'] exI [of _ "r # cs"]) simp
qed

lemma all_snapshots_insert: "inserts s"
proof (induction s)
  case (Snapshot s_id metadata name class_name properties children)
  show ?case
    unfolding inserts_def
  proof (intro allI impI)
    fix t p
    assume inv: "tree_inv D ok t" and p: "dom_get D (rt_inner t) p \<noteq> None"
    let ?s = "Snapshot s_id metadata name class_name properties children"
    obtain inner r where ins: "dom_insert D (rt_inner t) p (builder_of ?s) = Some (inner, r)"
      using insert_law [OF tree_invD(1) [OF inv] p, of "builder_of ?s"] by auto
    let ?t1 = "insert_metadata (t\<lparr>rt_inner := inner\<rparr>) r metadata"
    note new = tree_inv_insert_one [OF inv p ins]
    obtain b' where stored: "stored_as (builder_of ?s) b'" and r: "dom_get D (rt_inner ?t1) r = Some (built b' r p)"
      using new(2) [of metadata] by (auto simp: inserted_view_def)
    then have "dom_get D (rt_inner ?t1) r \<noteq> None" by simp
    from insert_instances_grows [where ss = children, OF new(1) this Snapshot.IH] obtain t' cs where
      t': "insert_instances D ?t1 r children = Some t'" "tree_inv D ok t'" "grown ?t1 r cs t'"
        "list_all2 (shows_new D ?t1 t') cs children" by auto
    have older: "dom_get D (rt_inner t) q = None" if "dom_get D (rt_inner ?t1) q = None" for q
      using that grown_keeps [OF grown_insert_one [OF inv p ins]] by blast
    have "list_all2 (shows_new D t t') cs children"
      using t'(4) by (rule list.rel_mono_strong) (use shows_older older in blast)
    moreover have "hm_get (rt_metadata_map t') r = Some metadata"
      using grownD(2) [OF t'(3) r] new(5) by simp
    ultimately have "shows_new D t t' r ?s"
      using grownD(1) [OF t'(3) r] new(3) stored by (simp add: built_def stored_as_def) (simp add: builder_of_def)
    moreover have "grown t p [r] t'"
      by (rule grown_trans_new [OF grown_insert_one [OF inv p ins] t'(3) new(3)])
    ultimately show "\<exists>t' r'. insert_instance D t p ?s = Some (t', r') \<and> tree_inv D ok t' \<and>
        grown t p [r'] t' \<and> shows_new D t t' r' ?s"
      using ins t' by simp
  qed
qed

lemma insert_instance_grows:
  assumes "tree_inv D ok t" and "dom_get D (rt_inner t) p \<noteq> None"
  obtains t' r where "insert_instance D t p s = Some (t', r)" and "tree_inv D ok t'" and "grown t p [r] t'"
    and "shows_new D t t' r s"
  using all_snapshots_insert [of s] assms unfolding inserts_def by meson

lemma insert_instance_panics:
  assumes "tree_inv D ok t" and "dom_get D (rt_inner t) p = None"
  shows "insert_instance D t p s = None"
  using insert_panics [OF tree_invD(1) [OF assms(1)] assms(2)] by (cases s) simp

text \<open>Removing: the loop takes out the metadata of the whole subtree, each entry once.\<close>

lemma remove_loop_effect:
  assumes wf: "dom_wf (dom_get D (rt_inner t)) root"
    and md: "\<And>s x. s \<in> set queue \<Longrightarrow> descends (dom_get D (rt_inner t)) s x \<Longrightarrow> hm_get (rt_metadata_map t) x \<noteq> None"
    and dom: "\<And>s. s \<in> set queue \<Longrightarrow> dom_get D (rt_inner t) s \<noteq> None"
    and disj: "disjoint_subtrees (dom_get D (rt_inner t)) queue"
    and inv: "index_inv t"
  shows "\<exists>t'. rt_remove_loop D t queue = Some t' \<and> rt_inner t' = rt_inner t \<and> index_inv t' \<and>
    (\<forall>x. hm_get (rt_metadata_map t') x =
      (if \<exists>s \<in> set queue. descends (dom_get D (rt_inner t)) s x then None else hm_get (rt_metadata_map t) x))"
  using assms
proof (induction "length (rt_metadata_map t)" arbitrary: t queue rule: less_induct)
  case less
  let ?v = "dom_get D (rt_inner t)"
  show ?case
  proof (cases queue)
    case Nil
    with less.prems(5) show ?thesis by simp
  next
    case (Cons s rest)
    obtain i where i: "?v s = Some i" using less.prems(3) [of s] Cons by auto
    have "hm_get (rt_metadata_map t) s \<noteq> None" using less.prems(2) [of s s] Cons by simp
    then obtain t1 where t1: "remove_metadata t s = Some t1"
      by (auto simp: remove_metadata_def Let_def)
    have inner: "rt_inner t1 = rt_inner t" by (rule remove_metadata_inner [OF t1])
    have mds: "rt_metadata_map t1 = hm_remove s (rt_metadata_map t)"
      by (rule index_inv_remove_metadata(2) [OF less.prems(5) t1])
    note below = descends_iff_children [of ?v s, OF i]
    have apart: "\<not> descends ?v q s" if "q \<in> set (rest @ i_children i)" for q
      using that less.prems(4) Cons child_not_above [OF less.prems(1), of s q] i
      by (auto simp: child_of_def)
    have "\<exists>t'. rt_remove_loop D t1 (rest @ i_children i) = Some t' \<and> rt_inner t' = rt_inner t1 \<and> index_inv t' \<and>
      (\<forall>x. hm_get (rt_metadata_map t') x =
        (if \<exists>q \<in> set (rest @ i_children i). descends (dom_get D (rt_inner t1)) q x then None
         else hm_get (rt_metadata_map t1) x))"
    proof (rule less.hyps)
      show "length (rt_metadata_map t1) < length (rt_metadata_map t)" by (rule remove_metadata_shorter [OF t1])
      show "dom_wf (dom_get D (rt_inner t1)) root" unfolding inner by (rule less.prems(1))
      show "index_inv t1" by (rule index_inv_remove_metadata(1) [OF less.prems(5) t1])
      show "disjoint_subtrees (dom_get D (rt_inner t1)) (rest @ i_children i)"
        unfolding inner using disjoint_subtrees_step [where view = ?v, OF less.prems(1) i] less.prems(4) Cons by simp
      show "dom_get D (rt_inner t1) q \<noteq> None" if "q \<in> set (rest @ i_children i)" for q
        using that less.prems(3) [of q] Cons dom_wfD(5) [where view = ?v, OF less.prems(1) i, of q] inner by auto
      show "hm_get (rt_metadata_map t1) x \<noteq> None"
        if q: "q \<in> set (rest @ i_children i)" "descends (dom_get D (rt_inner t1)) q x" for q x
      proof -
        have "x \<noteq> s" using apart [OF q(1)] q(2) inner by auto
        moreover have "hm_get (rt_metadata_map t) x \<noteq> None"
          using q less.prems(2) [of q x] less.prems(2) [of s x] below [of x] Cons inner by auto
        ultimately show ?thesis by (simp add: mds)
      qed
    qed
    then show ?thesis
      using t1 Cons i below by (auto simp: inner mds split: if_splits)
  qed
qed

lemma rt_remove_effect:
  assumes inv: "tree_inv D ok t" and r: "dom_get D (rt_inner t) r \<noteq> None"
  obtains t' where "rt_remove D t r = Some t'" and "dom_root D (rt_inner t') = dom_root D (rt_inner t)"
    and "dom_get D (rt_inner t') = destroyed_view (dom_get D (rt_inner t)) r"
    and "\<And>x. hm_get (rt_metadata_map t') x =
      (if descends (dom_get D (rt_inner t)) r x then None else hm_get (rt_metadata_map t) x)"
    and "r \<noteq> dom_root D (rt_inner t) \<Longrightarrow> tree_inv D ok t'"
proof -
  let ?v = "dom_get D (rt_inner t)"
  note wf = tree_invD(2) [OF inv]
  have md: "hm_get (rt_metadata_map t) x \<noteq> None" if "s \<in> set [r]" "descends ?v s x" for s x
    using descends_in_view [OF wf that(2)] r tree_invD(3) [OF inv, of x] that(1) by simp
  have dom: "?v s \<noteq> None" if "s \<in> set [r]" for s using that r by simp
  have "disjoint_subtrees ?v [r]" by simp
  have "\<exists>t'. rt_remove_loop D t [r] = Some t' \<and> rt_inner t' = rt_inner t \<and> index_inv t' \<and>
    (\<forall>x. hm_get (rt_metadata_map t') x =
      (if \<exists>s \<in> set [r]. descends ?v s x then None else hm_get (rt_metadata_map t) x))"
    by (rule remove_loop_effect [OF wf md dom \<open>disjoint_subtrees ?v [r]\<close> tree_invD(4) [OF inv]])
  then obtain t1 where
    t1: "rt_remove_loop D t [r] = Some t1" "rt_inner t1 = rt_inner t" "index_inv t1"
      "\<And>x. hm_get (rt_metadata_map t1) x = (if descends ?v r x then None else hm_get (rt_metadata_map t) x)"
    by (auto simp del: rt_remove_loop.simps)
  obtain inner where inner: "dom_destroy D (rt_inner t) r = Some inner" "ok inner"
    "dom_root D inner = dom_root D (rt_inner t)" "dom_get D inner = destroyed_view ?v r"
    using destroy_law [OF tree_invD(1) [OF inv] wf r] by auto
  show thesis
  proof
    show "rt_remove D t r = Some (t1\<lparr>rt_inner := inner\<rparr>)"
      using t1(1,2) inner(1) by (simp add: rt_remove_def del: rt_remove_loop.simps)
    have "hm_contains_key (rt_metadata_map t1) x \<longleftrightarrow> dom_get D inner x \<noteq> None" for x
      using t1(4) [of x] inner(4) tree_invD(3) [OF inv, of x]
      by (cases "dom_get D (rt_inner t) x") (auto simp: destroyed_view_def)
    then show "tree_inv D ok (t1\<lparr>rt_inner := inner\<rparr>)" if "r \<noteq> dom_root D (rt_inner t)"
      using dom_wf_destroy [OF wf that] inner t1(3) by (simp add: tree_inv_def index_inv_def)
  qed (use inner t1 in auto)
qed

lemma rt_remove_panics:
  assumes "tree_inv D ok t" and "dom_get D (rt_inner t) r = None"
  shows "rt_remove D t r = None"
  using tree_invD(3) [OF assms(1), of r] assms(2) by (simp add: rt_remove_def remove_metadata_def)

lemma rt_new_inv: "\<exists>t. rt_new D s = Some t \<and> tree_inv D ok t"
proof -
  let ?inner = "dom_new D \<lparr>b_class = sn_class s, b_name = sn_name s, b_properties = sn_properties s\<rparr>"
  let ?t = "\<lparr>rt_inner = ?inner, rt_metadata_map = [], rt_path_to_ids = mm_new,
    rt_specified_id_to_refs = mm_new\<rparr> :: ('d, 'o) rojo_tree"
  let ?root = "dom_root D ?inner"
  note new = new_law [of "\<lparr>b_class = sn_class s, b_name = sn_name s, b_properties = sn_properties s\<rparr>"]
  have "metadata_paths ([] :: (referent, 'o instance_metadata) hash_map) = (\<lambda>p r. False)"
    and "metadata_specs ([] :: (referent, 'o instance_metadata) hash_map) = (\<lambda>p r. False)"
    by (simp_all add: fun_eq_iff metadata_paths_def metadata_specs_def)
  then have "index_inv ?t"
    by (simp add: index_inv_def mmi.indexes_empty)
  note md = index_inv_insert_metadata [OF this, of ?root "sn_metadata s"]
  have wf: "dom_wf (dom_get D ?inner) ?root"
    using new dom_wf_new [of ?root] by simp
  have "tree_inv D ok (insert_metadata ?t ?root (sn_metadata s))"
    unfolding tree_inv_def using md new wf by simp
  moreover have "dom_get D (rt_inner (insert_metadata ?t ?root (sn_metadata s))) ?root \<noteq> None"
    using md(3) new by simp
  ultimately obtain t where "insert_instances D (insert_metadata ?t ?root (sn_metadata s)) ?root (sn_children s) = Some t"
    "tree_inv D ok t"
    using insert_instances_grows all_snapshots_insert by blast
  then show ?thesis by (simp add: rt_new_def Let_def)
qed

end


section \<open>Runs of the operations\<close>

datatype 'o tree_op =
    InsertInstance referent "'o instance_snapshot"
  | RemoveInstance referent
  | UpdateMetadata referent "'o instance_metadata"
  | SetSpecifiedId referent rojo_ref
  | WriteInstance referent string string "(string, 'o variant) hash_map"

fun tree_step :: "('d, 'o) dom_ops \<Rightarrow> 'o tree_op \<Rightarrow> ('d, 'o) rojo_tree \<Rightarrow> ('d, 'o) rojo_tree option" where
  "tree_step D (InsertInstance p s) t = map_option fst (insert_instance D t p s)"
| "tree_step D (RemoveInstance r) t = rt_remove D t r"
| "tree_step D (UpdateMetadata r m) t = Some (update_metadata t r m)"
| "tree_step D (SetSpecifiedId r s) t = Some (set_specified_id t r s)"
| "tree_step D (WriteInstance r name class_name properties) t =
     Some (modify_instance D t r (\<lambda>i. i\<lparr>i_name := name, i_class := class_name, i_properties := properties\<rparr>))"

text \<open>A call names an instance of the tree, and a removal not its root.\<close>

fun op_target :: "'o tree_op \<Rightarrow> referent" where
  "op_target (InsertInstance p s) = p"
| "op_target (RemoveInstance r) = r"
| "op_target (UpdateMetadata r m) = r"
| "op_target (SetSpecifiedId r s) = r"
| "op_target (WriteInstance r _ _ _) = r"

definition op_allowed :: "('d, 'o) dom_ops \<Rightarrow> 'o tree_op \<Rightarrow> ('d, 'o) rojo_tree \<Rightarrow> bool" where
  "op_allowed D op t \<longleftrightarrow>
     dom_get D (rt_inner t) (op_target op) \<noteq> None \<and> op \<noteq> RemoveInstance (get_root_id D t)"

fun allowed_run :: "('d, 'o) dom_ops \<Rightarrow> 'o tree_op list \<Rightarrow> ('d, 'o) rojo_tree \<Rightarrow> bool" where
  "allowed_run D [] t = True"
| "allowed_run D (op # ops) t =
     (op_allowed D op t \<and> (case tree_step D op t of None \<Rightarrow> True | Some t' \<Rightarrow> allowed_run D ops t'))"

fun tree_run :: "('d, 'o) dom_ops \<Rightarrow> 'o tree_op list \<Rightarrow> ('d, 'o) rojo_tree \<Rightarrow> ('d, 'o) rojo_tree option" where
  "tree_run D [] t = Some t"
| "tree_run D (op # ops) t = Option.bind (tree_step D op t) (tree_run D ops)"

context weak_dom
begin

lemma tree_step_inv:
  assumes inv: "tree_inv D ok t" and allowed: "op_allowed D op t"
  shows "\<exists>t'. tree_step D op t = Some t' \<and> tree_inv D ok t'"
proof (cases op)
  case (InsertInstance p s)
  with allowed have "dom_get D (rt_inner t) p \<noteq> None" by (simp add: op_allowed_def)
  from insert_instance_grows [OF inv this, of s] InsertInstance show ?thesis by (metis fst_conv option.simps(9) tree_step.simps(1))
next
  case (RemoveInstance r)
  with allowed have "dom_get D (rt_inner t) r \<noteq> None" "r \<noteq> dom_root D (rt_inner t)"
    by (auto simp: op_allowed_def get_root_id_def)
  from rt_remove_effect [OF inv this(1)] this(2) RemoveInstance show ?thesis by (metis tree_step.simps(2))
next
  case (UpdateMetadata r m)
  with allowed tree_inv_update_metadata(1) [OF inv, of r m] show ?thesis by (simp add: op_allowed_def)
next
  case (SetSpecifiedId r s)
  with allowed tree_inv_set_specified_id [OF inv, of r s] show ?thesis by (simp add: op_allowed_def)
next
  case (WriteInstance r name class_name properties)
  then show ?thesis using tree_inv_modify_instance [OF inv] by simp
qed

lemma tree_run_inv:
  "tree_inv D ok t \<Longrightarrow> allowed_run D ops t \<Longrightarrow> \<exists>t'. tree_run D ops t = Some t' \<and> tree_inv D ok t'"
proof (induction ops arbitrary: t)
  case Nil
  then show ?case by simp
next
  case (Cons op ops)
  from Cons.prems obtain t1 where "tree_step D op t = Some t1" "tree_inv D ok t1"
    using tree_step_inv by (metis allowed_run.simps(2))
  with Cons show ?case by simp
qed

end

text \<open>Lookups are exact: nothing panics, and both indices answer as a search of the metadata would.\<close>

definition tree_exact :: "('d, 'o) dom_ops \<Rightarrow> ('d, 'o) rojo_tree \<Rightarrow> bool" where
  "tree_exact D t \<longleftrightarrow>
     rt_root D t \<noteq> None \<and> (\<forall>r. get_instance D t r \<noteq> None) \<and>
     (\<forall>p. distinct (get_ids_at_path t p)) \<and>
     (\<forall>p r. r \<in> set (get_ids_at_path t p) \<longleftrightarrow>
        (\<exists>i m. get_instance D t r = Some (Some (i, m)) \<and> p \<in> set (md_relevant_paths m))) \<and>
     (\<forall>s r. get_specified_id t s = Some r \<longleftrightarrow>
        (\<forall>r'. (\<exists>i m. get_instance D t r' = Some (Some (i, m)) \<and> md_specified_id m = Some s) \<longleftrightarrow> r' = r))"

lemma get_specified_id_iff:
  "get_specified_id t s = Some r \<longleftrightarrow> mm_get (rt_specified_id_to_refs t) s = [r]"
  by (auto simp: get_specified_id_def split: list.split)

context weak_dom
begin

lemma tree_inv_exact:
  assumes inv: "tree_inv D ok t"
  shows "tree_exact D t"
proof -
  have get: "get_instance D t r = Some (Some (i, m)) \<longleftrightarrow>
      dom_get D (rt_inner t) r = Some i \<and> hm_get (rt_metadata_map t) r = Some m" for r i m
    using tree_invD(3) [OF inv, of r] by (auto simp: get_instance_def split: option.splits)
  have md: "(\<exists>i. dom_get D (rt_inner t) r = Some i) \<longleftrightarrow> (\<exists>m. hm_get (rt_metadata_map t) r = Some m)" for r
    using tree_invD(3) [OF inv, of r] by auto
  obtain i where i: "dom_get D (rt_inner t) (dom_root D (rt_inner t)) = Some i"
    using dom_wfD(2) [OF tree_invD(2) [OF inv]] by auto
  have "rt_root D t \<noteq> None"
    using i get_instance_total [OF inv] by (simp add: rt_root_def get_root_id_def)
  moreover have "get_instance D t r \<noteq> None" for r using get_instance_total [OF inv] by simp
  moreover have "distinct (get_ids_at_path t p)" for p
    using tree_invD(4) [OF inv] mm_get_distinct
    by (auto simp: get_ids_at_path_def index_inv_def mmi.indexes_def)
  moreover have "r \<in> set (get_ids_at_path t p) \<longleftrightarrow>
      (\<exists>i m. get_instance D t r = Some (Some (i, m)) \<and> p \<in> set (md_relevant_paths m))" for p r
    using tree_invD(4) [OF inv] md
    by (auto simp: get_ids_at_path_def index_inv_def get metadata_paths_def dest!: mmi.indexesD)
  moreover have "get_specified_id t s = Some r \<longleftrightarrow>
      (\<forall>r'. (\<exists>i m. get_instance D t r' = Some (Some (i, m)) \<and> md_specified_id m = Some s) \<longleftrightarrow> r' = r)" for s r
  proof -
    have "(\<exists>i m. get_instance D t r' = Some (Some (i, m)) \<and> md_specified_id m = Some s) \<longleftrightarrow>
        metadata_specs (rt_metadata_map t) s r'" for r'
      using md by (auto simp: get metadata_specs_def)
    moreover have "mmi.indexes (rt_specified_id_to_refs t) (metadata_specs (rt_metadata_map t))"
      using tree_invD(4) [OF inv] by (simp add: index_inv_def)
    ultimately show ?thesis
      unfolding get_specified_id_iff by (simp add: mmi.singleton_bucket)
  qed
  ultimately show ?thesis unfolding tree_exact_def by blast
qed

lemma insertion_effect:
  assumes "tree_inv D ok t" and "dom_get D (rt_inner t) p = Some pi"
  shows "\<exists>t' r. insert_instance D t p s = Some (t', r) \<and> shows_new D t t' r s \<and>
    (\<forall>q i m. get_instance D t q = Some (Some (i, m)) \<longrightarrow>
       get_instance D t' q = Some (Some (if q = p then i\<lparr>i_children := i_children i @ [r]\<rparr> else i, m)))"
proof -
  have "dom_get D (rt_inner t) p \<noteq> None" using assms(2) by simp
  from insert_instance_grows [OF assms(1) this, of s] obtain t' r where
    t': "insert_instance D t p s = Some (t', r)" "grown t p [r] t'" "shows_new D t t' r s" .
  have "get_instance D t' q = Some (Some (if q = p then i\<lparr>i_children := i_children i @ [r]\<rparr> else i, m))"
    if "get_instance D t q = Some (Some (i, m))" for q i m
  proof -
    have "dom_get D (rt_inner t) q = Some i" "hm_get (rt_metadata_map t) q = Some m"
      using that by (auto simp: get_instance_def split: option.splits)
    with grownD [OF t'(2) this(1)] show ?thesis by (simp add: get_instance_def)
  qed
  with t'(1,3) show ?thesis by blast
qed

lemma removal_effect:
  assumes inv: "tree_inv D ok t" and r: "dom_get D (rt_inner t) r \<noteq> None"
  shows "\<exists>t'. rt_remove D t r = Some t' \<and>
    (\<forall>q. get_instance D t' q =
       (if descends (dom_get D (rt_inner t)) r q then Some None
        else map_option (map_option (\<lambda>(i, m). (i\<lparr>i_children := removeAll r (i_children i)\<rparr>, m)))
          (get_instance D t q))) \<and>
    (\<forall>q. descends (dom_get D (rt_inner t)) r q \<longrightarrow> get_metadata t' q = None) \<and>
    (rt_root D t' = None \<longleftrightarrow> r = get_root_id D t)"
proof -
  obtain t' where t': "rt_remove D t r = Some t'" "dom_root D (rt_inner t') = dom_root D (rt_inner t)"
    "dom_get D (rt_inner t') = destroyed_view (dom_get D (rt_inner t)) r"
    "\<And>x. hm_get (rt_metadata_map t') x =
      (if descends (dom_get D (rt_inner t)) r x then None else hm_get (rt_metadata_map t) x)"
    using rt_remove_effect [OF inv r] by blast
  have get: "get_instance D t' q =
      (if descends (dom_get D (rt_inner t)) r q then Some None
       else map_option (map_option (\<lambda>(i, m). (i\<lparr>i_children := removeAll r (i_children i)\<rparr>, m)))
         (get_instance D t q))" for q
    using t'(3,4) by (simp add: get_instance_def destroyed_view_def split: option.split)
  have "get_instance D t (get_root_id D t) \<noteq> Some None \<and> get_instance D t (get_root_id D t) \<noteq> None"
    using dom_wfD(2) [OF tree_invD(2) [OF inv]] get_instance_total [OF inv] by (auto simp: get_root_id_def)
  then have "rt_root D t' = None \<longleftrightarrow> descends (dom_get D (rt_inner t)) r (get_root_id D t)"
    using t'(2) by (auto simp: rt_root_def get get_root_id_def split: if_splits)
  also have "\<dots> \<longleftrightarrow> r = get_root_id D t"
    using root_not_below [OF tree_invD(2) [OF inv], of r] by (auto simp: get_root_id_def)
  finally show ?thesis using t'(1,4) get by (auto simp: get_metadata_def)
qed

end


section \<open>Properties\<close>

text \<open>
  C1. Building a tree never panics, and neither does any run of insertions, removals, metadata
  updates, id assignments and writes that name instances of the tree (and do not remove its root).
  After each run every lookup is exact: each instance has metadata, \<open>get_ids_at_path\<close> returns, once
  each, exactly the instances with that relevant path, and \<open>get_specified_id\<close> answers exactly when
  one instance only has the id.
\<close>

theorem tree_runs_stay_exact:
  assumes "weak_dom D ok"
  shows "\<exists>t0. rt_new D s = Some t0 \<and>
    (\<forall>ops. allowed_run D ops t0 \<longrightarrow> (\<exists>t. tree_run D ops t0 = Some t \<and> tree_exact D t))"
  using weak_dom.rt_new_inv [OF assms, of s] weak_dom.tree_run_inv [OF assms]
    weak_dom.tree_inv_exact [OF assms] by blast

lemma tree_runs_stay_exact_witness:
  "\<exists>t0. rt_new ref_dom_ops (snapshot_new :: nat instance_snapshot) = Some t0 \<and>
    (\<forall>ops. allowed_run ref_dom_ops ops t0 \<longrightarrow> (\<exists>t. tree_run ref_dom_ops ops t0 = Some t \<and> tree_exact ref_dom_ops t))"
  by (rule tree_runs_stay_exact [OF ref_dom_is_weak_dom])

text \<open>
  Inserting a snapshot under an instance gives new instances that show it: names, classes,
  metadata, children in order, and the properties, to which every model class without a
  \<open>NeedsPivotMigration\<close> of its own gets it as false.  The parent gains exactly the returned
  instance as its last child, and no other instance or metadata changes.
\<close>

theorem insertion_shows_the_snapshot:
  assumes "weak_dom D ok" and "tree_inv D ok t" and "dom_get D (rt_inner t) p = Some pi"
  shows "\<exists>t' r. insert_instance D t p s = Some (t', r) \<and> shows_new D t t' r s \<and>
    (\<forall>q i m. get_instance D t q = Some (Some (i, m)) \<longrightarrow>
       get_instance D t' q = Some (Some (if q = p then i\<lparr>i_children := i_children i @ [r]\<rparr> else i, m)))"
  by (rule weak_dom.insertion_effect [OF assms])

lemma insertion_shows_the_snapshot_witness:
  "\<exists>t. rt_new ref_dom_ops (snapshot_new :: nat instance_snapshot) = Some t \<and>
    (\<exists>t' r. insert_instance ref_dom_ops t (get_root_id ref_dom_ops t) snapshot_new = Some (t', r) \<and>
       shows_new ref_dom_ops t t' r snapshot_new)"
proof -
  obtain t where t: "rt_new ref_dom_ops (snapshot_new :: nat instance_snapshot) = Some t" "tree_inv ref_dom_ops rd_ok t"
    using rd.rt_new_inv by blast
  obtain i where "dom_get ref_dom_ops (rt_inner t) (get_root_id ref_dom_ops t) = Some i"
    using dom_wfD(2) [OF tree_invD(2) [OF t(2)]] by (auto simp: get_root_id_def)
  from insertion_shows_the_snapshot [OF ref_dom_is_weak_dom t(2) this, of snapshot_new] t(1)
  show ?thesis by blast
qed

text \<open>
  Removing an instance takes out exactly it and its descendants, with their metadata, and its
  parent loses it from its children; every other instance keeps its metadata and fields.  An
  instance that is not in the tree panics.  Removing the root succeeds too and leaves a tree
  without a root, on which \<open>root()\<close> panics.
\<close>

theorem removal_takes_the_subtree:
  assumes "weak_dom D ok" and "tree_inv D ok t"
  shows "(dom_get D (rt_inner t) r = None \<longrightarrow> rt_remove D t r = None) \<and>
    (dom_get D (rt_inner t) r \<noteq> None \<longrightarrow> (\<exists>t'. rt_remove D t r = Some t' \<and>
       (\<forall>q. get_instance D t' q =
          (if descends (dom_get D (rt_inner t)) r q then Some None
           else map_option (map_option (\<lambda>(i, m). (i\<lparr>i_children := removeAll r (i_children i)\<rparr>, m)))
             (get_instance D t q))) \<and>
       (\<forall>q. descends (dom_get D (rt_inner t)) r q \<longrightarrow> get_metadata t' q = None) \<and>
       (rt_root D t' = None \<longleftrightarrow> r = get_root_id D t)))"
  using weak_dom.removal_effect [OF assms] weak_dom.rt_remove_panics [OF assms] by blast

lemma removal_takes_the_subtree_witness:
  "\<exists>t. rt_new ref_dom_ops (snapshot_new :: nat instance_snapshot) = Some t \<and>
    (\<exists>t'. rt_remove ref_dom_ops t (get_root_id ref_dom_ops t) = Some t' \<and> rt_root ref_dom_ops t' = None)"
proof -
  obtain t where t: "rt_new ref_dom_ops (snapshot_new :: nat instance_snapshot) = Some t" "tree_inv ref_dom_ops rd_ok t"
    using rd.rt_new_inv by blast
  have "dom_get ref_dom_ops (rt_inner t) (get_root_id ref_dom_ops t) \<noteq> None"
    using dom_wfD(2) [OF tree_invD(2) [OF t(2)]] by (auto simp: get_root_id_def)
  with removal_takes_the_subtree [OF ref_dom_is_weak_dom t(2), of "get_root_id ref_dom_ops t"] t(1)
  show ?thesis by blast
qed

text \<open>
  \<open>update_metadata\<close> with the id of no instance is not refused: the metadata is recorded for an
  instance that does not exist, and no index knows it, so the tree is no longer exact: the entry
  has relevant paths under which it is not found.
\<close>

theorem stray_metadata_is_recorded:
  assumes "weak_dom D ok" and "tree_inv D ok t" and "dom_get D (rt_inner t) r = None"
  shows "get_instance D (update_metadata t r m) r = Some None \<and>
    get_metadata (update_metadata t r m) r = Some m \<and>
    (\<forall>p. r \<notin> set (get_ids_at_path (update_metadata t r m) p)) \<and>
    \<not> tree_inv D ok (update_metadata t r m)"
proof -
  have none: "hm_get (rt_metadata_map t) r = None" using tree_invD(3) [OF assms(2), of r] assms(3) by simp
  then have up: "update_metadata t r m = t\<lparr>rt_metadata_map := hm_insert r m (rt_metadata_map t)\<rparr>"
    by (simp add: update_metadata_def)
  have "r \<notin> set (mm_get (rt_path_to_ids t) p)" for p
    using tree_invD(4) [OF assms(2)] none
    by (auto simp: index_inv_def metadata_paths_def dest!: mmi.indexesD)
  with assms(3) show ?thesis
    by (auto simp: up get_instance_def get_metadata_def get_ids_at_path_def tree_inv_def)
qed

lemma stray_metadata_is_recorded_witness:
  "\<exists>t. rt_new ref_dom_ops (snapshot_new :: nat instance_snapshot) = Some t \<and>
    get_metadata (update_metadata t NoRef metadata_new) NoRef = Some metadata_new \<and>
    get_instance ref_dom_ops (update_metadata t NoRef metadata_new) NoRef = Some None"
proof -
  obtain t where t: "rt_new ref_dom_ops (snapshot_new :: nat instance_snapshot) = Some t" "tree_inv ref_dom_ops rd_ok t"
    using rd.rt_new_inv by blast
  have "dom_get ref_dom_ops (rt_inner t) NoRef = None" by (rule dom_wfD(1) [OF tree_invD(2) [OF t(2)]])
  from stray_metadata_is_recorded [OF ref_dom_is_weak_dom t(2) this, of metadata_new] t(1) show ?thesis by blast
qed

end
