(* ===== verification/Patch_Compute.thy ===== *)
theory Patch_Compute
  imports Rojo_Tree
begin

text \<open>
  Patches, \<open>src/src/snapshot/patch.rs\<close>, and their computation from a snapshot and a tree,
  \<open>patch_compute.rs\<close>.  The mutable context and patch set are passed along; a panic is \<open>None\<close>.
  Hash maps are iterated in the order of their association list.
\<close>

record 'o patch_add =
  pa_parent_id :: referent
  pa_instance :: "'o instance_snapshot"

record 'o patch_update =
  pu_id :: referent
  pu_changed_name :: "string option"
  pu_changed_class_name :: "string option"
  pu_changed_properties :: "(string, 'o variant option) hash_map"
  pu_changed_metadata :: "'o instance_metadata option"

record 'o patch_set =
  removed_instances :: "referent list"
  added_instances :: "'o patch_add list"
  updated_instances :: "'o patch_update list"

definition patch_set_new :: "'o patch_set" where
  "patch_set_new = \<lparr>removed_instances = [], added_instances = [], updated_instances = []\<rparr>"

record 'o applied_patch_set =
  ap_removed :: "referent list"
  ap_added :: "referent list"
  ap_updated :: "'o patch_update list"

definition applied_new :: "'o applied_patch_set" where
  "applied_new = \<lparr>ap_removed = [], ap_added = [], ap_updated = []\<rparr>"

definition applied_is_empty :: "'o applied_patch_set \<Rightarrow> bool" where
  "applied_is_empty p \<longleftrightarrow> ap_removed p = [] \<and> ap_added p = [] \<and> ap_updated p = []"

type_synonym id_map = "(referent, referent) hash_map"


section \<open>References\<close>

text \<open>A referent property is rewritten when its target is known.\<close>

definition rewrite_ref :: "id_map \<Rightarrow> 'o variant \<Rightarrow> 'o variant" where
  "rewrite_ref ids v =
     (case v of
        VRef r \<Rightarrow> (case hm_get ids r of Some r' \<Rightarrow> VRef r' | None \<Rightarrow> VRef r)
      | _ \<Rightarrow> v)"

definition rewrite_refs_in_updates :: "id_map \<Rightarrow> 'o patch_update list \<Rightarrow> 'o patch_update list" where
  "rewrite_refs_in_updates ids updates =
     map (\<lambda>u. u\<lparr>pu_changed_properties :=
       map (\<lambda>(k, v). (k, map_option (rewrite_ref ids) v)) (pu_changed_properties u)\<rparr>) updates"

fun rewrite_refs_in_snapshot :: "id_map \<Rightarrow> 'o instance_snapshot \<Rightarrow> 'o instance_snapshot" where
  "rewrite_refs_in_snapshot ids (Snapshot s_id metadata name class_name properties children) =
     Snapshot s_id metadata name class_name (map (\<lambda>(k, v). (k, rewrite_ref ids v)) properties)
       (map (rewrite_refs_in_snapshot ids) children)"

definition rewrite_refs_in_additions :: "id_map \<Rightarrow> 'o patch_add list \<Rightarrow> 'o patch_add list" where
  "rewrite_refs_in_additions ids additions =
     map (\<lambda>a. a\<lparr>pa_instance := rewrite_refs_in_snapshot ids (pa_instance a)\<rparr>) additions"

text \<open>The id an attribute names: a string, or a binary string that is valid UTF-8.\<close>

definition attribute_rojo_ref :: "'o variant \<Rightarrow> rojo_ref option" where
  "attribute_rojo_ref v =
     (case v of
        VString s \<Rightarrow> Some s
      | VBinaryString bytes \<Rightarrow> from_utf8 bytes
      | _ \<Rightarrow> None)"

definition compute_ref_properties ::
    "(string, 'o variant) hash_map \<Rightarrow> ('d, 'o) rojo_tree \<Rightarrow> (string, 'o variant option) hash_map" where
  "compute_ref_properties properties t =
     (case hm_get properties ''Attributes'' of
        Some (VAttributes attrs) \<Rightarrow>
          fold (\<lambda>(attr_name, attr_value) m.
            case str_strip_prefix attr_name REF_POINTER_ATTRIBUTE_PREFIX of
              None \<Rightarrow> m
            | Some prop_name \<Rightarrow>
                (case attribute_rojo_ref attr_value of
                   None \<Rightarrow> m
                 | Some rojo_ref \<Rightarrow>
                     hm_insert prop_name (map_option VRef (get_specified_id t rojo_ref)) m)) attrs []
      | _ \<Rightarrow> [])"


section \<open>The properties of one instance\<close>

text \<open>The first loop: the snapshot's properties against the instance's.\<close>

definition changed_values :: "'o variant_env \<Rightarrow> (string, 'o variant) hash_map \<Rightarrow>
    (string, 'o variant) hash_map \<Rightarrow> (string, 'o variant option) hash_map option" where
  "changed_values env properties instance_properties =
     fold_panic (\<lambda>(name, snapshot_value) changed.
       case hm_get instance_properties name of
         Some instance_value \<Rightarrow>
           (case variant_eq env snapshot_value instance_value of
              None \<Rightarrow> None
            | Some equal \<Rightarrow> Some (if equal then changed else hm_insert name (Some snapshot_value) changed))
       | None \<Rightarrow> Some (hm_insert name (Some snapshot_value) changed)) properties []"

text \<open>The second: what the snapshot does not mention is removed.\<close>

definition removed_values :: "(string, 'o variant) hash_map \<Rightarrow> (string, 'o variant) hash_map \<Rightarrow>
    (string, 'o variant option) hash_map \<Rightarrow> (string, 'o variant option) hash_map" where
  "removed_values properties instance_properties changed =
     fold (\<lambda>name changed.
       if name \<in> set (hm_keys properties) then changed else hm_insert name None changed)
       (hm_keys instance_properties) changed"

text \<open>The third: referent properties that attributes specify.\<close>

definition attribute_ref_change :: "'o variant_env \<Rightarrow> (string, 'o variant) hash_map \<Rightarrow>
    string \<times> 'o variant option \<Rightarrow> (string, 'o variant option) hash_map \<Rightarrow>
    (string, 'o variant option) hash_map" where
  "attribute_ref_change env instance_properties =
     (\<lambda>(name, ref_value) changed.
       case (ref_value, hm_get instance_properties name) of
         (Some target, Some instance_value) \<Rightarrow>
           (if \<not> variant_partial_eq env target instance_value
            then hm_insert name ref_value changed else hm_remove name changed)
       | (None, None) \<Rightarrow> hm_remove name changed
       | _ \<Rightarrow> hm_insert name ref_value changed)"

definition pivot_migration_change :: "string \<Rightarrow> (string, 'o variant) hash_map \<Rightarrow>
    (string, 'o variant option) hash_map \<Rightarrow> (string, 'o variant option) hash_map" where
  "pivot_migration_change actual_class instance_properties changed =
     (if actual_class \<in> set model_classes
      then (let changed =
              (if \<not> hm_contains_key instance_properties NeedsPivotMigration
               then hm_insert NeedsPivotMigration (Some (VBool False)) changed else changed)
            in case hm_get changed NeedsPivotMigration of
                 Some (Some (VBool _)) \<Rightarrow> changed
               | Some None \<Rightarrow> hm_remove NeedsPivotMigration changed
               | _ \<Rightarrow> hm_insert NeedsPivotMigration (Some (VBool False)) changed)
      else changed)"

text \<open>\<open>compute_property_patches\<close>: the update to push, if there is one.\<close>

definition compute_property_patches :: "'o variant_env \<Rightarrow> ('d, 'o) rojo_tree \<Rightarrow>
    'o instance_snapshot \<Rightarrow> 'o inst \<times> 'o instance_metadata \<Rightarrow> 'o patch_update option option" where
  "compute_property_patches env t s = (\<lambda>(i, metadata).
     let attribute_ref_properties = compute_ref_properties (sn_properties s) t;
         changed_name = (if sn_name s = i_name i then None else Some (sn_name s));
         changed_class_name = (if sn_class s = i_class i then None else Some (sn_class s));
         changed_metadata = (if metadata_eq env (sn_metadata s) metadata then None else Some (sn_metadata s))
     in case changed_values env (sn_properties s) (i_properties i) of
          None \<Rightarrow> None
        | Some changed \<Rightarrow>
            (let changed = removed_values (sn_properties s) (i_properties i) changed;
                 changed = fold (attribute_ref_change env (i_properties i)) attribute_ref_properties changed;
                 changed = pivot_migration_change
                   (case changed_class_name of Some c \<Rightarrow> c | None \<Rightarrow> i_class i) (i_properties i) changed
             in if changed = [] \<and> changed_name = None \<and> changed_class_name = None \<and> changed_metadata = None
                then Some None
                else Some (Some
                  \<lparr>pu_id = i_referent i, pu_changed_name = changed_name,
                   pu_changed_class_name = changed_class_name, pu_changed_properties = changed,
                   pu_changed_metadata = changed_metadata\<rparr>)))"


section \<open>Pairing the children\<close>

text \<open>\<open>tree.get_instance(id).expect(...)\<close>\<close>

definition expect_instance :: "('d, 'o) dom_ops \<Rightarrow> ('d, 'o) rojo_tree \<Rightarrow> referent \<Rightarrow>
    ('o inst \<times> 'o instance_metadata) option" where
  "expect_instance D t r = Option.bind (get_instance D t r) (\<lambda>x. x)"

text \<open>\<open>find\<close>: the first child not yet paired with the snapshot's name and class, from index \<open>i\<close>.\<close>

fun find_match :: "('d, 'o) dom_ops \<Rightarrow> ('d, 'o) rojo_tree \<Rightarrow> string \<Rightarrow> string \<Rightarrow>
    (referent \<times> bool) list \<Rightarrow> nat \<Rightarrow> (nat \<times> referent) option option" where
  "find_match D t name class_name [] n = Some None"
| "find_match D t name class_name ((child_id, paired) # rest) n =
     (if paired then find_match D t name class_name rest (Suc n)
      else case expect_instance D t child_id of
        None \<Rightarrow> None
      | Some (i, _) \<Rightarrow>
          (if name = i_name i \<and> class_name = i_class i then Some (Some (n, child_id))
           else find_match D t name class_name rest (Suc n)))"

fun compute_internal :: "'o variant_env \<Rightarrow> ('d, 'o) dom_ops \<Rightarrow> ('d, 'o) rojo_tree \<Rightarrow>
    'o instance_snapshot \<Rightarrow> referent \<Rightarrow> id_map \<times> 'o patch_set \<Rightarrow> (id_map \<times> 'o patch_set) option"
  and pair_children :: "'o variant_env \<Rightarrow> ('d, 'o) dom_ops \<Rightarrow> ('d, 'o) rojo_tree \<Rightarrow>
    'o instance_snapshot list \<Rightarrow> referent \<Rightarrow> (referent \<times> bool) list \<Rightarrow> id_map \<times> 'o patch_set \<Rightarrow>
    ((referent \<times> bool) list \<times> id_map \<times> 'o patch_set) option"
where
  "compute_internal env D t (Snapshot s_id metadata name class_name properties children) r (ids, ps) =
     (let ids = (if ref_is_some s_id then hm_insert s_id r ids else ids)
      in case expect_instance D t r of
        None \<Rightarrow> None
      | Some im \<Rightarrow>
          (case compute_property_patches env t
              (Snapshot s_id metadata name class_name properties children) im of
             None \<Rightarrow> None
           | Some update \<Rightarrow>
               (let ps = (case update of
                      None \<Rightarrow> ps
                    | Some u \<Rightarrow> ps\<lparr>updated_instances := updated_instances ps @ [u]\<rparr>)
                in case pair_children env D t children r
                     (map (\<lambda>c. (c, False)) (i_children (fst im))) (ids, ps) of
                  None \<Rightarrow> None
                | Some (pairs, ids', ps') \<Rightarrow>
                    Some (ids', ps'\<lparr>removed_instances :=
                      removed_instances ps' @ map fst (filter (\<lambda>(c, paired). \<not> paired) pairs)\<rparr>))))"
| "pair_children env D t [] r pairs st = Some (pairs, st)"
| "pair_children env D t (s # ss) r pairs (ids, ps) =
     (case find_match D t (sn_name s) (sn_class s) pairs 0 of
        None \<Rightarrow> None
      | Some (Some (n, child_id)) \<Rightarrow>
          (case compute_internal env D t s child_id (ids, ps) of
             None \<Rightarrow> None
           | Some st' \<Rightarrow> pair_children env D t ss r (pairs[n := (child_id, True)]) st')
      | Some None \<Rightarrow>
          pair_children env D t ss r pairs
            (ids, ps\<lparr>added_instances := added_instances ps @ [\<lparr>pa_parent_id = r, pa_instance = s\<rparr>]\<rparr>))"

definition compute_patch_set :: "'o variant_env \<Rightarrow> ('d, 'o) dom_ops \<Rightarrow> 'o instance_snapshot option \<Rightarrow>
    ('d, 'o) rojo_tree \<Rightarrow> referent \<Rightarrow> 'o patch_set option" where
  "compute_patch_set env D s t r =
     (case s of
        Some s \<Rightarrow>
          (case compute_internal env D t s r ([], patch_set_new) of
             None \<Rightarrow> None
           | Some (ids, ps) \<Rightarrow>
               Some (ps\<lparr>updated_instances := rewrite_refs_in_updates ids (updated_instances ps),
                 added_instances := rewrite_refs_in_additions ids (added_instances ps)\<rparr>))
      | None \<Rightarrow>
          Some (let ps = patch_set_new
                in if r \<noteq> get_root_id D t
                   then ps\<lparr>removed_instances := removed_instances ps @ [r]\<rparr> else ps))"

section \<open>What a computed patch names\<close>

text \<open>
  A patch below \<open>r\<close>: it removes proper descendants with disjoint subtrees, and whatever it adds to
  or updates is \<open>r\<close> or a descendant outside the removed subtrees.
\<close>

definition named :: "'o patch_add list \<Rightarrow> 'o patch_update list \<Rightarrow> referent set" where
  "named A U = pa_parent_id ` set A \<union> pu_id ` set U"

lemma named_append [simp]: "named (A @ B) (U @ W) = named A U \<union> named B W"
  by (auto simp: named_def)

lemma named_Nil [simp]: "named [] [] = {}"
  by (simp add: named_def)

definition fits_below :: "'o dom_view \<Rightarrow> referent \<Rightarrow> referent list \<Rightarrow> referent set \<Rightarrow> bool" where
  "fits_below v r R N \<longleftrightarrow>
     (\<forall>x \<in> set R. descends v r x \<and> x \<noteq> r \<and> v x \<noteq> None) \<and> disjoint_subtrees v R \<and>
     (\<forall>q \<in> N. descends v r q \<and> v q \<noteq> None \<and> (\<forall>x \<in> set R. \<not> descends v x q))"

text \<open>The same for the paired children \<open>P\<close> of \<open>r\<close>: everything is at \<open>r\<close> or below one of them.\<close>

definition fits_children :: "'o dom_view \<Rightarrow> referent \<Rightarrow> referent set \<Rightarrow> referent list \<Rightarrow> referent set \<Rightarrow> bool" where
  "fits_children v r P R N \<longleftrightarrow>
     (\<forall>x \<in> set R. \<exists>c \<in> P. descends v c x \<and> x \<noteq> c \<and> v x \<noteq> None) \<and> disjoint_subtrees v R \<and>
     (\<forall>q \<in> N. (q = r \<or> (\<exists>c \<in> P. descends v c q)) \<and> v q \<noteq> None \<and> (\<forall>x \<in> set R. \<not> descends v x q))"

lemma fits_children_empty [simp]: "fits_children v r P [] {}"
  by (simp add: fits_children_def)

lemma apart_of_siblings:
  assumes wf: "dom_wf v root" and "child_of v r c" and "child_of v r d" and "c \<noteq> d"
    and "descends v c x" and "descends v d q"
  shows "\<not> descends v x q"
proof
  assume "descends v x q"
  with assms(5) have "descends v c q" by simp
  with siblings_disjoint [OF wf assms(2,3,4)] assms(6) show False by blast
qed

lemma apart_of_parent:
  assumes wf: "dom_wf v root" and "child_of v r c" and "descends v c x"
  shows "\<not> descends v x r"
  using child_not_above [OF wf assms(2)] assms(3) rtranclp_trans by metis

lemma fits_children_step:
  assumes wf: "dom_wf v root" and c: "child_of v r c" "c \<notin> P" and P: "\<forall>d \<in> P. child_of v r d"
    and r: "v r \<noteq> None" and below: "fits_below v c R1 N1" and rest: "fits_children v r P R2 N2"
  shows "fits_children v r (insert c P) (R1 @ R2) (N1 \<union> N2)"
proof -
  have "\<not> descends v x q" if "x \<in> set R1" "q \<in> N2" for x q
    using that below rest apart_of_parent [OF wf c(1)] apart_of_siblings [OF wf c(1), of _ x q] P c(2)
    unfolding fits_below_def fits_children_def by metis
  moreover have "\<not> descends v x q" if "x \<in> set R2" "q \<in> N1" for x q
    using that below rest apart_of_siblings [OF wf _ c(1), of _ x q] P c(2)
    unfolding fits_below_def fits_children_def by metis
  moreover have "\<not> descends v y z" if "x \<in> set R1" "y \<in> set R2" "descends v x z" for x y z
    using that below rest apart_of_siblings [OF wf _ c(1), of _ y z] P c(2) rtranclp_trans
    unfolding fits_below_def fits_children_def by metis
  ultimately show ?thesis
    using below rest unfolding fits_below_def fits_children_def disjoint_subtrees_append by auto
qed

lemma fits_children_add_here:
  assumes wf: "dom_wf v root" and "v r \<noteq> None" and P: "\<forall>d \<in> P. child_of v r d"
    and "fits_children v r P R N"
  shows "fits_children v r P R (insert r N)"
  using assms(2,4) apart_of_parent [OF wf] P unfolding fits_children_def by blast

text \<open>Adding the children that stay unpaired gives a patch below \<open>r\<close>.\<close>

lemma fits_children_finish:
  assumes wf: "dom_wf v root" and r: "v r = Some i" and P: "P \<subseteq> set (i_children i)"
    and rest: "fits_children v r P R N" and C: "distinct C" "set C \<subseteq> set (i_children i)" "set C \<inter> P = {}"
    and N: "N' \<subseteq> {r}"
  shows "fits_below v r (R @ C) (N' \<union> N)"
proof -
  have child: "child_of v r c" if "c \<in> set (i_children i)" for c using that r by (auto simp: child_of_def)
  have down: "descends v r x" if "c \<in> set (i_children i)" "descends v c x" for c x
    using child [OF that(1)] that(2) by (simp add: converse_rtranclp_into_rtranclp)
  have not_r: "x \<noteq> r" if "c \<in> set (i_children i)" "descends v c x" for c x
    using child_not_above [OF wf child [OF that(1)]] that(2) by blast
  have in_dom: "v c \<noteq> None" if "c \<in> set (i_children i)" for c
    using dom_wfD(5) [where view = v, OF wf r that] by auto
  have CC: "disjoint_subtrees v C"
    by (rule disjoint_subtrees_children [OF wf C(1)]) (use C(2) child in blast)
  have RC: "\<not> descends v c z" if xc: "x \<in> set R" "c \<in> set C" "descends v x z" for x c z
  proof -
    obtain d where d: "d \<in> P" "descends v d x" using rest xc(1) by (auto simp: fits_children_def)
    then have "d \<noteq> c" "descends v d z" using xc C(3) by auto
    then show ?thesis using siblings_disjoint [OF wf child child, of d c z] d(1) P C(2) xc(2) by blast
  qed
  have NC: "\<not> descends v c q" if qc: "q \<in> N' \<union> N" "c \<in> set C" for c q
  proof (cases "q = r")
    case True
    then show ?thesis using child_not_above [OF wf child] C(2) qc(2) by blast
  next
    case False
    then obtain d where d: "d \<in> P" "descends v d q" using rest qc(1) N by (auto simp: fits_children_def)
    then show ?thesis using siblings_disjoint [OF wf child child, of d c q] P C(2,3) qc(2) by blast
  qed
  have N'R: "\<not> descends v x q" if qx: "q \<in> N'" "x \<in> set R" for x q
  proof -
    obtain d where d: "d \<in> P" "descends v d x" using rest qx(2) by (auto simp: fits_children_def)
    have "child_of v r d" using child d(1) P by blast
    with apart_of_parent [OF wf _ d(2)] qx(1) N show ?thesis by blast
  qed
  have R: "descends v r x \<and> x \<noteq> r \<and> v x \<noteq> None" if x: "x \<in> set R" for x
  proof -
    obtain d where d: "d \<in> P" "descends v d x" "v x \<noteq> None"
      using rest x by (auto simp: fits_children_def)
    have "d \<in> set (i_children i)" using d(1) P by blast
    from down [OF this d(2)] not_r [OF this d(2)] d(3) show ?thesis by simp
  qed
  have C': "descends v r c \<and> c \<noteq> r \<and> v c \<noteq> None" if c: "c \<in> set C" for c
  proof -
    have "c \<in> set (i_children i)" using c C(2) by blast
    from down [OF this rtranclp.rtrancl_refl] not_r [OF this rtranclp.rtrancl_refl] in_dom [OF this]
    show ?thesis by simp
  qed
  have NN: "descends v r q \<and> v q \<noteq> None" if q: "q \<in> N' \<union> N" for q
  proof (cases "q = r")
    case True
    then show ?thesis using r by simp
  next
    case False
    then obtain d where d: "d \<in> P" "descends v d q" "v q \<noteq> None"
      using rest q N by (auto simp: fits_children_def)
    have "d \<in> set (i_children i)" using d(1) P by blast
    from down [OF this d(2)] d(3) show ?thesis by simp
  qed
  have NR: "\<not> descends v x q" if "q \<in> N" "x \<in> set R" for x q
    using rest that unfolding fits_children_def by blast
  have "disjoint_subtrees v R" using rest by (simp add: fits_children_def)
  then show ?thesis
    unfolding fits_below_def disjoint_subtrees_append set_append
    using R C' NN NR N'R NC CC RC by auto
qed

section \<open>Computing a patch does not panic\<close>

definition tree_comparable :: "('d, 'o) dom_ops \<Rightarrow> ('d, 'o) rojo_tree \<Rightarrow> bool" where
  "tree_comparable D t \<longleftrightarrow>
     (\<forall>r i. dom_get D (rt_inner t) r = Some i \<longrightarrow> (\<forall>v \<in> set (hm_values (i_properties i)). comparable v))"

fun snapshot_comparable :: "'o instance_snapshot \<Rightarrow> bool" where
  "snapshot_comparable (Snapshot s_id metadata name class_name properties children) \<longleftrightarrow>
     (\<forall>v \<in> set (hm_values properties). comparable v) \<and> (\<forall>c \<in> set children. snapshot_comparable c)"

lemma changed_values_total:
  assumes "\<forall>v \<in> set (hm_values properties). comparable v" and "\<forall>v \<in> set (hm_values ips). comparable v"
  shows "\<exists>ch. changed_values env properties ips = Some ch"
proof -
  have "(case x of (name, sv) \<Rightarrow> \<lambda>changed. case hm_get ips name of
         Some iv \<Rightarrow> (case variant_eq env sv iv of None \<Rightarrow> None
            | Some equal \<Rightarrow> Some (if equal then changed else hm_insert name (Some sv) changed))
       | None \<Rightarrow> Some (hm_insert name (Some sv) changed)) ch \<noteq> None"
    if "x \<in> set properties" for x and ch :: "(string, 'a variant option) hash_map"
  proof (cases x)
    case (Pair name sv)
    have "comparable sv" using assms(1) that Pair by force
    then have "variant_eq env sv iv \<noteq> None" if "hm_get ips name = Some iv" for iv
      using assms(2) hm_value_in [OF that] by (intro variant_eq_total(1)) force+
    then show ?thesis using Pair by (auto split: option.split)
  qed
  then show ?thesis unfolding changed_values_def by (rule fold_panic_total)
qed

lemma compute_property_patches_total:
  assumes "\<forall>v \<in> set (hm_values (sn_properties s)). comparable v"
    and "\<forall>v \<in> set (hm_values (i_properties i)). comparable v"
  shows "\<exists>u. compute_property_patches env t s (i, m) = Some u \<and> (\<forall>x. u = Some x \<longrightarrow> pu_id x = i_referent i)"
  using changed_values_total [OF assms, of env]
  by (auto simp: compute_property_patches_def Let_def)

text \<open>The paired children of a list of flagged children.\<close>

definition paired_ids :: "(referent \<times> bool) list \<Rightarrow> referent set" where
  "paired_ids pairs = {c. (c, True) \<in> set pairs}"

lemma no_paired_ids: "paired_ids (map (\<lambda>c. (c, False)) cs) = {}"
  by (auto simp: paired_ids_def)

lemma flag_pair:
  assumes "distinct (map fst pairs)" and "n < length pairs" and "pairs ! n = (c, False)"
  shows "map fst (pairs[n := (c, True)]) = map fst pairs"
    and "paired_ids (pairs[n := (c, True)]) = insert c (paired_ids pairs)" and "c \<notin> paired_ids pairs"
    and "c \<in> set (map fst pairs)"
proof -
  have at: "map fst pairs ! n = c" using assms by simp
  show "map fst (pairs[n := (c, True)]) = map fst pairs"
    using at assms(2) by (simp add: map_update) (metis at list_update_id)
  have unique: "m = n" if "m < length pairs" "fst (pairs ! m) = c" for m
    using assms(1,2) at that by (metis length_map nth_eq_iff_index_eq nth_map)
  show "c \<notin> paired_ids pairs"
  proof
    assume "c \<in> paired_ids pairs"
    then obtain m where "m < length pairs" "pairs ! m = (c, True)"
      by (auto simp: paired_ids_def in_set_conv_nth)
    with unique [of m] assms(3) show False by auto
  qed
  show "paired_ids (pairs[n := (c, True)]) = insert c (paired_ids pairs)"
    using assms(2,3) by (auto simp: paired_ids_def in_set_conv_nth nth_list_update) (metis nth_list_update_neq old.prod.inject)+
  show "c \<in> set (map fst pairs)" using assms(2,3) by (metis at length_map nth_mem)
qed

context weak_dom
begin

lemma expect_instance_total:
  assumes inv: "tree_inv D ok t" and "dom_get D (rt_inner t) r = Some i"
  shows "\<exists>m. expect_instance D t r = Some (i, m)"
  using get_instance_total [OF inv, of r] assms(2) by (simp add: expect_instance_def)

lemma find_match_total:
  assumes inv: "tree_inv D ok t" and "\<forall>c \<in> set (map fst pairs). dom_get D (rt_inner t) c \<noteq> None"
  shows "find_match D t name class_name pairs k = Some None \<or>
    (\<exists>n c. n < length pairs \<and> pairs ! n = (c, False) \<and>
       find_match D t name class_name pairs k = Some (Some (k + n, c)))"
  using assms(2)
proof (induction pairs arbitrary: k)
  case Nil
  then show ?case by simp
next
  case (Cons cp rest)
  obtain c p where cp: "cp = (c, p)" by (cases cp)
  obtain i where "dom_get D (rt_inner t) c = Some i" using Cons.prems cp by auto
  from expect_instance_total [OF inv this] obtain m where im: "expect_instance D t c = Some (i, m)" ..
  have later: "find_match D t name class_name rest (Suc k) = Some None \<or>
    (\<exists>n c'. n < length (cp # rest) \<and> (cp # rest) ! n = (c', False) \<and>
       find_match D t name class_name rest (Suc k) = Some (Some (k + n, c')))"
  proof -
    have "\<forall>c \<in> set (map fst rest). dom_get D (rt_inner t) c \<noteq> None" using Cons.prems by simp
    from Cons.IH [OF this, of "Suc k"] show ?thesis
    proof
      assume "\<exists>n c. n < length rest \<and> rest ! n = (c, False) \<and>
        find_match D t name class_name rest (Suc k) = Some (Some (Suc k + n, c))"
      then obtain n c' where "n < length rest" "rest ! n = (c', False)"
        "find_match D t name class_name rest (Suc k) = Some (Some (Suc k + n, c'))" by blast
      then show ?thesis by (intro disjI2 exI [of _ "Suc n"] exI [of _ c']) simp
    qed simp
  qed
  show ?case
  proof (cases "p \<or> \<not> (name = i_name i \<and> class_name = i_class i)")
    case True
    then have "find_match D t name class_name (cp # rest) k = find_match D t name class_name rest (Suc k)"
      using cp im by auto
    with later show ?thesis by simp
  next
    case False
    then show ?thesis using cp im by (intro disjI2 exI [of _ 0] exI [of _ c]) simp
  qed
qed

definition computes :: "'o variant_env \<Rightarrow> ('d, 'o) rojo_tree \<Rightarrow> 'o instance_snapshot \<Rightarrow> bool" where
  "computes env t s \<longleftrightarrow>
     (\<forall>r ids ps. dom_get D (rt_inner t) r \<noteq> None \<longrightarrow>
        (\<exists>ids' R A U. compute_internal env D t s r (ids, ps) = Some (ids',
             ps\<lparr>removed_instances := removed_instances ps @ R, added_instances := added_instances ps @ A,
                updated_instances := updated_instances ps @ U\<rparr>) \<and>
           fits_below (dom_get D (rt_inner t)) r R (named A U)))"

lemma pair_children_fits:
  assumes inv: "tree_inv D ok t" and r: "dom_get D (rt_inner t) r = Some i"
    and all: "\<And>s. s \<in> set ss \<Longrightarrow> computes env t s"
  shows "map fst pairs = i_children i \<Longrightarrow>
    \<exists>pairs' ids' R A U. pair_children env D t ss r pairs (ids, ps) = Some (pairs', ids',
        ps\<lparr>removed_instances := removed_instances ps @ R, added_instances := added_instances ps @ A,
           updated_instances := updated_instances ps @ U\<rparr>) \<and>
      map fst pairs' = i_children i \<and> paired_ids pairs \<subseteq> paired_ids pairs' \<and>
      fits_children (dom_get D (rt_inner t)) r (paired_ids pairs' - paired_ids pairs) R (named A U)"
  using all
proof (induction ss arbitrary: pairs ids ps)
  case Nil
  then show ?case
    by (intro exI [of _ pairs] exI [of _ ids] exI [of _ "[]"]) simp
next
  case (Cons s ss)
  let ?v = "dom_get D (rt_inner t)"
  note wf = tree_invD(2) [OF inv]
  have child: "child_of ?v r c" if "c \<in> set (i_children i)" for c using that r by (auto simp: child_of_def)
  have dom: "\<forall>c \<in> set (map fst pairs). ?v c \<noteq> None"
    using Cons.prems(1) dom_wfD(5) [where view = ?v, OF wf r] by auto
  have IH: "\<And>s. s \<in> set ss \<Longrightarrow> computes env t s" using Cons.prems(2) by simp
  have paired_child: "c \<in> set (i_children i)" if "c \<in> paired_ids ps'" "map fst ps' = i_children i" for c ps'
    using that by (force simp: paired_ids_def simp flip: that(2))
  from find_match_total [OF inv dom, of "sn_name s" "sn_class s" 0] show ?case
  proof
    assume none: "find_match D t (sn_name s) (sn_class s) pairs 0 = Some None"
    let ?a = "\<lparr>pa_parent_id = r, pa_instance = s\<rparr>"
    from Cons.IH [OF Cons.prems(1) IH, of ids "ps\<lparr>added_instances := added_instances ps @ [?a]\<rparr>"]
    obtain pairs' ids' R A U where rest:
      "pair_children env D t ss r pairs (ids, ps\<lparr>added_instances := added_instances ps @ [?a]\<rparr>) = Some (pairs', ids',
        ps\<lparr>removed_instances := removed_instances ps @ R, added_instances := added_instances ps @ (?a # A),
           updated_instances := updated_instances ps @ U\<rparr>)"
      "map fst pairs' = i_children i" "paired_ids pairs \<subseteq> paired_ids pairs'"
      "fits_children ?v r (paired_ids pairs' - paired_ids pairs) R (named A U)"
      by auto
    have "fits_children ?v r (paired_ids pairs' - paired_ids pairs) R (insert r (named A U))"
      by (rule fits_children_add_here [OF wf _ _ rest(4)]) (use r child paired_child rest(2) in auto)
    moreover have "named (?a # A) U = insert r (named A U)" by (simp add: named_def)
    moreover have "pair_children env D t (s # ss) r pairs (ids, ps)
      = pair_children env D t ss r pairs (ids, ps\<lparr>added_instances := added_instances ps @ [?a]\<rparr>)"
      using none by simp
    ultimately show ?thesis using rest(1,2,3) by metis
  next
    assume "\<exists>n c. n < length pairs \<and> pairs ! n = (c, False) \<and>
      find_match D t (sn_name s) (sn_class s) pairs 0 = Some (Some (0 + n, c))"
    then obtain n c where found: "n < length pairs" "pairs ! n = (c, False)"
      "find_match D t (sn_name s) (sn_class s) pairs 0 = Some (Some (n, c))" by auto
    have "distinct (map fst pairs)" using Cons.prems(1) dom_wfD(4) [where view = ?v, OF wf r] by simp
    note flag = flag_pair [OF this found(1,2)]
    have "?v c \<noteq> None" using dom flag(4) by blast
    with Cons.prems(2) [of s] obtain ids1 R1 A1 U1 where one:
      "compute_internal env D t s c (ids, ps) = Some (ids1,
        ps\<lparr>removed_instances := removed_instances ps @ R1, added_instances := added_instances ps @ A1,
           updated_instances := updated_instances ps @ U1\<rparr>)"
      "fits_below ?v c R1 (named A1 U1)"
      unfolding computes_def by (meson list.set_intros(1))
    let ?ps1 = "ps\<lparr>removed_instances := removed_instances ps @ R1, added_instances := added_instances ps @ A1,
           updated_instances := updated_instances ps @ U1\<rparr>"
    have "map fst (pairs[n := (c, True)]) = i_children i" using flag(1) Cons.prems(1) by simp
    from Cons.IH [OF this IH, of ids1 ?ps1]
    obtain pairs' ids' R2 A2 U2 where rest:
      "pair_children env D t ss r (pairs[n := (c, True)]) (ids1, ?ps1) = Some (pairs', ids',
        ps\<lparr>removed_instances := removed_instances ps @ (R1 @ R2), added_instances := added_instances ps @ (A1 @ A2),
           updated_instances := updated_instances ps @ (U1 @ U2)\<rparr>)"
      "map fst pairs' = i_children i" "insert c (paired_ids pairs) \<subseteq> paired_ids pairs'"
      "fits_children ?v r (paired_ids pairs' - insert c (paired_ids pairs)) R2 (named A2 U2)"
      unfolding flag(2) by auto
    have "fits_children ?v r (insert c (paired_ids pairs' - insert c (paired_ids pairs))) (R1 @ R2)
        (named A1 U1 \<union> named A2 U2)"
      by (rule fits_children_step [OF wf _ _ _ _ one(2) rest(4)])
        (use r child paired_child [OF _ rest(2)] flag(4) Cons.prems(1) in auto)
    moreover have "insert c (paired_ids pairs' - insert c (paired_ids pairs)) = paired_ids pairs' - paired_ids pairs"
      using rest(3) flag(3) by auto
    moreover have "pair_children env D t (s # ss) r pairs (ids, ps)
        = pair_children env D t ss r (pairs[n := (c, True)]) (ids1, ?ps1)"
      using found(3) one(1) by simp
    ultimately show ?thesis using rest(1,2,3) by (metis insert_subset named_append)
  qed
qed

lemma all_snapshots_compute:
  assumes inv: "tree_inv D ok t" and cmp: "tree_comparable D t"
  shows "snapshot_comparable s \<Longrightarrow> computes env t s"
proof (induction s)
  case (Snapshot s_id metadata name class_name properties children)
  let ?v = "dom_get D (rt_inner t)"
  let ?s = "Snapshot s_id metadata name class_name properties children"
  show ?case
    unfolding computes_def
  proof (intro allI impI)
    fix r ids and ps :: "'o patch_set"
    assume "?v r \<noteq> None"
    then obtain i where i: "?v r = Some i" by auto
    note wf = tree_invD(2) [OF inv]
    obtain m where im: "expect_instance D t r = Some (i, m)" using expect_instance_total [OF inv i] ..
    have "\<forall>v \<in> set (hm_values (i_properties i)). comparable v" using cmp i by (auto simp: tree_comparable_def)
    moreover have "\<forall>v \<in> set (hm_values (sn_properties ?s)). comparable v" using Snapshot.prems by simp
    ultimately obtain u where u: "compute_property_patches env t ?s (i, m) = Some u"
      "\<And>x. u = Some x \<Longrightarrow> pu_id x = i_referent i"
      using compute_property_patches_total by blast
    define U0 where "U0 = (case u of None \<Rightarrow> [] | Some x \<Rightarrow> [x])"
    let ?ids = "if ref_is_some s_id then hm_insert s_id r ids else ids"
    let ?ps = "ps\<lparr>updated_instances := updated_instances ps @ U0\<rparr>"
    have ps: "(case u of None \<Rightarrow> ps | Some u \<Rightarrow> ps\<lparr>updated_instances := updated_instances ps @ [u]\<rparr>) = ?ps"
      by (cases u) (simp_all add: U0_def)
    have kids: "\<And>s. s \<in> set children \<Longrightarrow> computes env t s" using Snapshot by simp
    have "map fst (map (\<lambda>c. (c, False)) (i_children i)) = i_children i" by (simp add: comp_def)
    from pair_children_fits [where ids = ?ids and ps = ?ps and ss = children, OF inv i kids this]
    obtain pairs' ids' R A U where rest:
      "pair_children env D t children r (map (\<lambda>c. (c, False)) (i_children i)) (?ids, ?ps) = Some (pairs', ids',
        ps\<lparr>removed_instances := removed_instances ps @ R, added_instances := added_instances ps @ A,
           updated_instances := updated_instances ps @ (U0 @ U)\<rparr>)"
      "map fst pairs' = i_children i" "fits_children ?v r (paired_ids pairs') R (named A U)"
      by (auto simp: no_paired_ids)
    define C where "C = map fst (filter (\<lambda>(c, paired). \<not> paired) pairs')"
    have distinct: "distinct (map fst pairs')" using rest(2) dom_wfD(4) [where view = ?v, OF wf i] by simp
    have "fits_below ?v r (R @ C) (named [] U0 \<union> named A U)"
    proof (rule fits_children_finish [OF wf i _ rest(3)])
      show "distinct C" unfolding C_def using distinct by (rule distinct_map_filter)
      show "set C \<subseteq> set (i_children i)" unfolding C_def rest(2) [symmetric] by auto
      show "paired_ids pairs' \<subseteq> set (i_children i)" unfolding rest(2) [symmetric] by (force simp: paired_ids_def)
      show "set C \<inter> paired_ids pairs' = {}"
        using distinct by (auto simp: C_def paired_ids_def dest: eq_key_imp_eq_value)
      show "named [] U0 \<subseteq> {r}"
        using u(2) dom_wfD(3) [where view = ?v, OF wf i] by (auto simp: U0_def named_def split: option.splits)
    qed
    moreover have "named [] U0 \<union> named A U = named A (U0 @ U)" by (auto simp: named_def)
    moreover have "compute_internal env D t ?s r (ids, ps) = Some (ids',
        ps\<lparr>removed_instances := removed_instances ps @ (R @ C), added_instances := added_instances ps @ A,
           updated_instances := updated_instances ps @ (U0 @ U)\<rparr>)"
      using im u(1) rest(1) by (simp add: Let_def ps C_def)
    ultimately show "\<exists>ids' R A U. compute_internal env D t ?s r (ids, ps) = Some (ids',
          ps\<lparr>removed_instances := removed_instances ps @ R, added_instances := added_instances ps @ A,
             updated_instances := updated_instances ps @ U\<rparr>) \<and> fits_below ?v r R (named A U)"
      by metis
  qed
qed

end

end
