(* ===== verification/Patch_Apply.thy ===== *)
theory Patch_Apply
  imports Patch_Compute
begin

text \<open>
  Applying a patch to the tree, \<open>src/src/snapshot/patch_apply.rs\<close>.  The context and the tree are
  passed along; a panic is \<open>None\<close>.  The set of instances to revisit is a list without duplicates.
\<close>

record 'o apply_context =
  pc_snapshot_ids :: id_map
  pc_has_refs :: "referent list"
  pc_attribute_refs :: "(referent, string \<times> string) multi_map"
  pc_applied :: "'o applied_patch_set"

definition apply_context_new :: "'o apply_context" where
  "apply_context_new =
     \<lparr>pc_snapshot_ids = [], pc_has_refs = [], pc_attribute_refs = mm_new, pc_applied = applied_new\<rparr>"

definition apply_remove_instance :: "('d, 'o) dom_ops \<Rightarrow> referent \<Rightarrow>
    'o apply_context \<times> ('d, 'o) rojo_tree \<Rightarrow> ('o apply_context \<times> ('d, 'o) rojo_tree) option" where
  "apply_remove_instance D r = (\<lambda>(c, t).
     case rt_remove D t r of
       None \<Rightarrow> None
     | Some t' \<Rightarrow>
         Some (c\<lparr>pc_applied := (pc_applied c)\<lparr>ap_removed := ap_removed (pc_applied c) @ [r]\<rparr>\<rparr>, t'))"

text \<open>\<open>defer_ref_properties\<close>: the last id attribute wins; pointer attributes are remembered.\<close>

definition defer_attribute :: "referent \<Rightarrow> string \<times> 'o variant \<Rightarrow>
    rojo_ref option \<times> (referent, string \<times> string) multi_map \<Rightarrow>
    rojo_ref option \<times> (referent, string \<times> string) multi_map" where
  "defer_attribute r = (\<lambda>(attr_name, attr_value) (attr_id, deferred).
     (if attr_name = REF_ID_ATTRIBUTE_NAME
      then (case attribute_rojo_ref attr_value of Some s \<Rightarrow> Some s | None \<Rightarrow> attr_id) else attr_id,
      case str_strip_prefix attr_name REF_POINTER_ATTRIBUTE_PREFIX of
        None \<Rightarrow> deferred
      | Some prop_name \<Rightarrow>
          (case attribute_rojo_ref attr_value of
             Some prop_value \<Rightarrow> mm_insert deferred r (prop_name, prop_value)
           | None \<Rightarrow> deferred)))"

definition defer_ref_properties :: "('d, 'o) dom_ops \<Rightarrow> referent \<Rightarrow>
    'o apply_context \<times> ('d, 'o) rojo_tree \<Rightarrow> ('o apply_context \<times> ('d, 'o) rojo_tree) option" where
  "defer_ref_properties D r = (\<lambda>(c, t).
     case expect_instance D t r of
       None \<Rightarrow> None
     | Some (i, _) \<Rightarrow>
         (case hm_get (i_properties i) ''Attributes'' of
            Some (VAttributes attrs) \<Rightarrow>
              (case fold (defer_attribute r) attrs (None, pc_attribute_refs c) of
                 (attr_id, deferred) \<Rightarrow>
                   Some (c\<lparr>pc_attribute_refs := deferred\<rparr>,
                     case attr_id of None \<Rightarrow> t | Some s \<Rightarrow> set_specified_id t r s))
          | _ \<Rightarrow> Some (c, t)))"

definition has_refs :: "(string, 'o variant) hash_map \<Rightarrow> bool" where
  "has_refs properties \<longleftrightarrow>
     (\<exists>v \<in> set (hm_values properties). case v of VRef r \<Rightarrow> ref_is_some r | _ \<Rightarrow> False)"

definition note_added :: "'o apply_context \<Rightarrow> referent \<Rightarrow> referent \<Rightarrow> (string, 'o variant) hash_map \<Rightarrow> 'o apply_context" where
  "note_added c r s_id properties =
     c\<lparr>pc_applied := (pc_applied c)\<lparr>ap_added := ap_added (pc_applied c) @ [r]\<rparr>,
       pc_has_refs := (if has_refs properties then List.insert r (pc_has_refs c) else pc_has_refs c),
       pc_snapshot_ids := (if ref_is_some s_id then hm_insert s_id r (pc_snapshot_ids c) else pc_snapshot_ids c)\<rparr>"

fun apply_add_child :: "('d, 'o) dom_ops \<Rightarrow> referent \<Rightarrow> 'o instance_snapshot \<Rightarrow>
    'o apply_context \<times> ('d, 'o) rojo_tree \<Rightarrow> ('o apply_context \<times> ('d, 'o) rojo_tree) option"
  and apply_add_children :: "('d, 'o) dom_ops \<Rightarrow> referent \<Rightarrow> 'o instance_snapshot list \<Rightarrow>
    'o apply_context \<times> ('d, 'o) rojo_tree \<Rightarrow> ('o apply_context \<times> ('d, 'o) rojo_tree) option"
where
  "apply_add_child D parent_id (Snapshot s_id metadata name class_name properties children) (c, t) =
     (case insert_instance D t parent_id (Snapshot s_id metadata name class_name properties []) of
        None \<Rightarrow> None
      | Some (t', r) \<Rightarrow>
          Option.bind (apply_add_children D r children (note_added c r s_id properties, t'))
            (defer_ref_properties D r))"
| "apply_add_children D parent_id [] st = Some st"
| "apply_add_children D parent_id (s # ss) st =
     Option.bind (apply_add_child D parent_id s st) (apply_add_children D parent_id ss)"

text \<open>
  The loop over the changed properties: the instance's properties and the applied ones.  A null
  reference is skipped; what is recorded as applied is the entry of the patch.
\<close>

definition apply_property :: "id_map \<Rightarrow> string \<times> 'o variant option \<Rightarrow>
    (string, 'o variant) hash_map \<times> (string, 'o variant option) hash_map \<Rightarrow>
    (string, 'o variant) hash_map \<times> (string, 'o variant option) hash_map" where
  "apply_property ids = (\<lambda>(key, property_entry) (properties, applied).
     case property_entry of
       Some (VRef r) \<Rightarrow>
         (if ref_is_none r then (properties, applied)
          else (hm_insert key (VRef (case hm_get ids r of Some r' \<Rightarrow> r' | None \<Rightarrow> r)) properties,
                hm_insert key property_entry applied))
     | Some v \<Rightarrow> (hm_insert key v properties, hm_insert key property_entry applied)
     | None \<Rightarrow> (hm_remove key properties, hm_insert key property_entry applied))"

definition apply_update_child :: "('d, 'o) dom_ops \<Rightarrow> 'o patch_update \<Rightarrow>
    'o apply_context \<times> ('d, 'o) rojo_tree \<Rightarrow> ('o apply_context \<times> ('d, 'o) rojo_tree) option" where
  "apply_update_child D u = (\<lambda>(c, t).
     let r = pu_id u;
         t = (case pu_changed_metadata u of None \<Rightarrow> t | Some m \<Rightarrow> update_metadata t r m)
     in case get_instance D t r of
          None \<Rightarrow> None
        | Some None \<Rightarrow> Some (c, t)
        | Some (Some (i, _)) \<Rightarrow>
            (case fold (apply_property (pc_snapshot_ids c)) (pu_changed_properties u) (i_properties i, []) of
               (properties, applied) \<Rightarrow>
                 let t = modify_instance D t r (\<lambda>i. i\<lparr>
                       i_name := (case pu_changed_name u of None \<Rightarrow> i_name i | Some n \<Rightarrow> n),
                       i_class := (case pu_changed_class_name u of None \<Rightarrow> i_class i | Some k \<Rightarrow> k),
                       i_properties := properties\<rparr>)
                 in map_option (\<lambda>(c, t).
                      (c\<lparr>pc_applied := (pc_applied c)\<lparr>ap_updated := ap_updated (pc_applied c) @
                         [\<lparr>pu_id = r, pu_changed_name = pu_changed_name u,
                           pu_changed_class_name = pu_changed_class_name u,
                           pu_changed_properties = applied,
                           pu_changed_metadata = pu_changed_metadata u\<rparr>]\<rparr>\<rparr>, t))
                      (defer_ref_properties D r (c, t))))"

text \<open>The two loops of \<open>finalize_patch_application\<close>.\<close>

definition finalize_refs :: "('d, 'o) dom_ops \<Rightarrow> id_map \<Rightarrow> referent \<Rightarrow> ('d, 'o) rojo_tree \<Rightarrow>
    ('d, 'o) rojo_tree option" where
  "finalize_refs D ids r t =
     (case expect_instance D t r of
        None \<Rightarrow> None
      | Some _ \<Rightarrow> Some (modify_instance D t r (\<lambda>i.
          i\<lparr>i_properties := map (\<lambda>(k, v). (k, rewrite_ref ids v)) (i_properties i)\<rparr>)))"

definition finalize_attribute_refs :: "('d, 'o) dom_ops \<Rightarrow> referent \<times> (string \<times> string) list \<Rightarrow>
    ('d, 'o) rojo_tree \<Rightarrow> ('d, 'o) rojo_tree option" where
  "finalize_attribute_refs D = (\<lambda>(r, refs) t.
     let real_rewrites = List.map_filter (\<lambda>(prop_name, prop_value).
           map_option (\<lambda>target. (prop_name, VRef target)) (get_specified_id t prop_value)) refs
     in case expect_instance D t r of
          None \<Rightarrow> None
        | Some _ \<Rightarrow> Some (modify_instance D t r (\<lambda>i.
            i\<lparr>i_properties := hm_extend (i_properties i) real_rewrites\<rparr>)))"

definition finalize_patch_application :: "('d, 'o) dom_ops \<Rightarrow> 'o apply_context \<times> ('d, 'o) rojo_tree \<Rightarrow>
    ('o applied_patch_set \<times> ('d, 'o) rojo_tree) option" where
  "finalize_patch_application D = (\<lambda>(c, t).
     case fold_panic (finalize_refs D (pc_snapshot_ids c)) (pc_has_refs c) t of
       None \<Rightarrow> None
     | Some t \<Rightarrow>
         map_option (\<lambda>t. (pc_applied c, t))
           (fold_panic (finalize_attribute_refs D) (mm_into_iter (pc_attribute_refs c)) t))"

definition apply_patch_set :: "('d, 'o) dom_ops \<Rightarrow> 'o patch_set \<Rightarrow> ('d, 'o) rojo_tree \<Rightarrow>
    ('o applied_patch_set \<times> ('d, 'o) rojo_tree) option" where
  "apply_patch_set D ps t =
     Option.bind (fold_panic (apply_remove_instance D) (removed_instances ps) (apply_context_new, t)) (\<lambda>st.
     Option.bind (fold_panic (\<lambda>a. apply_add_child D (pa_parent_id a) (pa_instance a)) (added_instances ps) st) (\<lambda>st.
     Option.bind (fold_panic (apply_update_child D) (updated_instances ps) st) (\<lambda>st.
     finalize_patch_application D st)))"

section \<open>Applying a patch that fits does not panic\<close>

fun snapshot_size :: "'o instance_snapshot \<Rightarrow> nat" where
  "snapshot_size (Snapshot s_id metadata name class_name properties children) =
     Suc (sum_list (map snapshot_size children))"

text \<open>The instances to revisit, and those with deferred references, are in the tree.\<close>

definition revisited :: "'o apply_context \<Rightarrow> referent set" where
  "revisited c = set (pc_has_refs c) \<union> fst ` set (pc_attribute_refs c)"

lemma keys_mm_insert: "fst ` set (mm_insert m k v) = insert k (fst ` set m)"
  by (simp add: mm_insert_def Let_def dom_update)

lemma keys_deferred:
  "fst ` set (snd (fold (defer_attribute r) attrs (x, m))) \<subseteq> insert r (fst ` set m)"
proof (induction attrs arbitrary: x m)
  case Nil
  then show ?case by auto
next
  case (Cons a attrs)
  obtain y m' where y: "defer_attribute r a (x, m) = (y, m')" by (cases "defer_attribute r a (x, m)")
  then have "m' = m \<or> (\<exists>v. m' = mm_insert m r v)"
    by (auto simp: defer_attribute_def split: option.splits prod.splits)
  then have "fst ` set m' \<subseteq> insert r (fst ` set m)"
    by (elim disjE exE) (simp_all add: keys_mm_insert subset_insertI)
  with Cons.IH [of y m'] y show ?case by auto
qed

lemma set_specified_id_inner [simp]: "rt_inner (set_specified_id t r s) = rt_inner t"
  by (simp add: set_specified_id_def Let_def split: option.split)

context weak_dom
begin

abbreviation alive :: "('d, 'o) rojo_tree \<Rightarrow> referent \<Rightarrow> bool" where
  "alive t r \<equiv> dom_get D (rt_inner t) r \<noteq> None"

definition survives :: "('d, 'o) rojo_tree \<Rightarrow> ('d, 'o) rojo_tree \<Rightarrow> bool" where
  "survives t t' \<longleftrightarrow> (\<forall>q. alive t q \<longrightarrow> alive t' q)"

lemma survives_refl: "survives t t" by (simp add: survives_def)

lemma survives_trans: "survives t t1 \<Longrightarrow> survives t1 t2 \<Longrightarrow> survives t t2"
  by (simp add: survives_def)

text \<open>A state of the application: the tree is well formed and everything to revisit is in it.\<close>

definition state_ok :: "'o apply_context \<times> ('d, 'o) rojo_tree \<Rightarrow> bool" where
  "state_ok = (\<lambda>(c, t). tree_inv D ok t \<and> (\<forall>r \<in> revisited c. alive t r))"

lemma expect_alive:
  assumes "tree_inv D ok t" and "alive t r"
  obtains i m where "expect_instance D t r = Some (i, m)" and "dom_get D (rt_inner t) r = Some i"
  using expect_instance_total [OF assms(1)] assms(2) by blast

lemma defer_total:
  assumes st: "state_ok (c, t)" and r: "alive t r"
  shows "\<exists>c' t'. defer_ref_properties D r (c, t) = Some (c', t') \<and> state_ok (c', t') \<and>
    rt_inner t' = rt_inner t \<and> pc_applied c' = pc_applied c"
proof -
  have inv: "tree_inv D ok t" using st by (simp add: state_ok_def)
  obtain i m where im: "expect_instance D t r = Some (i, m)" by (rule expect_alive [OF inv r])
  show ?thesis
  proof (cases "\<exists>attrs. hm_get (i_properties i) ''Attributes'' = Some (VAttributes attrs)")
    case True
    then obtain attrs where attrs: "hm_get (i_properties i) ''Attributes'' = Some (VAttributes attrs)" ..
    obtain attr_id deferred where fold: "fold (defer_attribute r) attrs (None, pc_attribute_refs c) = (attr_id, deferred)"
      by (cases "fold (defer_attribute r) attrs (None, pc_attribute_refs c)")
    let ?t = "case attr_id of None \<Rightarrow> t | Some s \<Rightarrow> set_specified_id t r s"
    have "fst ` set deferred \<subseteq> insert r (fst ` set (pc_attribute_refs c))"
      using keys_deferred [of r attrs None "pc_attribute_refs c"] fold by simp
    moreover have "tree_inv D ok ?t"
      using inv tree_inv_set_specified_id [OF inv r] by (auto split: option.split)
    moreover have inner: "rt_inner ?t = rt_inner t" by (simp split: option.split)
    ultimately have "state_ok (c\<lparr>pc_attribute_refs := deferred\<rparr>, ?t)"
      using st r by (auto simp: state_ok_def revisited_def)
    with im attrs fold inner show ?thesis by (simp add: defer_ref_properties_def)
  next
    case False
    then have "defer_ref_properties D r (c, t) = Some (c, t)"
      using im by (auto simp: defer_ref_properties_def split: option.splits variant.splits)
    with st show ?thesis by simp
  qed
qed

definition adds :: "'o instance_snapshot \<Rightarrow> bool" where
  "adds s \<longleftrightarrow>
     (\<forall>p c t. state_ok (c, t) \<longrightarrow> alive t p \<longrightarrow>
        (\<exists>c' t' rs. apply_add_child D p s (c, t) = Some (c', t') \<and> state_ok (c', t') \<and> survives t t' \<and>
           pc_applied c' = (pc_applied c)\<lparr>ap_added := ap_added (pc_applied c) @ rs\<rparr> \<and>
           length rs = snapshot_size s \<and> distinct rs \<and> (\<forall>x \<in> set rs. \<not> alive t x \<and> alive t' x)))"

lemma apply_add_children_total:
  assumes "\<And>s. s \<in> set ss \<Longrightarrow> adds s" and "state_ok (c, t)" and "alive t p"
  shows "\<exists>c' t' rs. apply_add_children D p ss (c, t) = Some (c', t') \<and> state_ok (c', t') \<and> survives t t' \<and>
    pc_applied c' = (pc_applied c)\<lparr>ap_added := ap_added (pc_applied c) @ rs\<rparr> \<and>
    length rs = sum_list (map snapshot_size ss) \<and> distinct rs \<and> (\<forall>x \<in> set rs. \<not> alive t x \<and> alive t' x)"
  using assms
proof (induction ss arbitrary: c t)
  case Nil
  then show ?case by (auto simp: survives_refl intro!: exI [of _ "[]"])
next
  case (Cons s ss)
  from Cons.prems have "adds s" by simp
  with Cons.prems obtain c1 t1 rs1 where 1: "apply_add_child D p s (c, t) = Some (c1, t1)" "state_ok (c1, t1)"
    "survives t t1" "pc_applied c1 = (pc_applied c)\<lparr>ap_added := ap_added (pc_applied c) @ rs1\<rparr>"
    "length rs1 = snapshot_size s" "distinct rs1" "\<forall>x \<in> set rs1. \<not> alive t x \<and> alive t1 x"
    unfolding adds_def by meson
  have "alive t1 p" using 1(3) Cons.prems(3) by (auto simp: survives_def)
  with Cons.IH [OF _ 1(2)] Cons.prems(1) obtain c' t' rs2 where 2: "apply_add_children D p ss (c1, t1) = Some (c', t')"
    "state_ok (c', t')" "survives t1 t'" "pc_applied c' = (pc_applied c1)\<lparr>ap_added := ap_added (pc_applied c1) @ rs2\<rparr>"
    "length rs2 = sum_list (map snapshot_size ss)" "distinct rs2" "\<forall>x \<in> set rs2. \<not> alive t1 x \<and> alive t' x"
    by auto
  have "distinct (rs1 @ rs2)" "\<forall>x \<in> set (rs1 @ rs2). \<not> alive t x \<and> alive t' x"
    using 1 2 by (auto simp: survives_def)
  then show ?case
    using 1 2 survives_trans [OF 1(3) 2(3)] by (intro exI [of _ c'] exI [of _ t'] exI [of _ "rs1 @ rs2"]) simp
qed

lemma all_snapshots_add: "adds s"
proof (induction s)
  case (Snapshot s_id metadata name class_name properties children)
  show ?case
    unfolding adds_def
  proof (intro allI impI)
    fix p t and c :: "'o apply_context"
    assume st: "state_ok (c, t)" and p: "alive t p"
    have inv: "tree_inv D ok t" using st by (simp add: state_ok_def)
    let ?s = "Snapshot s_id metadata name class_name properties []"
    obtain t1 r where 1: "insert_instance D t p ?s = Some (t1, r)" "tree_inv D ok t1" "grown t p [r] t1"
      "shows_new D t t1 r ?s"
      by (rule insert_instance_grows [OF inv p, of ?s])
    have keep: "survives t t1" using grown_keeps [OF 1(3)] by (simp add: survives_def)
    have r: "\<not> alive t r" "alive t1 r" using 1(4) by auto
    let ?c1 = "note_added c r s_id properties"
    have "state_ok (?c1, t1)"
      using st 1(2) keep r by (auto simp: state_ok_def revisited_def note_added_def survives_def split: if_splits)
    from apply_add_children_total [where ss = children, OF Snapshot.IH this r(2)]
    obtain c2 t2 rs where 2: "apply_add_children D r children (?c1, t1) = Some (c2, t2)" "state_ok (c2, t2)"
      "survives t1 t2" "pc_applied c2 = (pc_applied ?c1)\<lparr>ap_added := ap_added (pc_applied ?c1) @ rs\<rparr>"
      "length rs = sum_list (map snapshot_size children)" "distinct rs" "\<forall>x \<in> set rs. \<not> alive t1 x \<and> alive t2 x"
      by auto
    have "alive t2 r" using r(2) 2(3) by (auto simp: survives_def)
    from defer_total [OF 2(2) this] obtain c' t' where 3: "defer_ref_properties D r (c2, t2) = Some (c', t')"
      "state_ok (c', t')" "rt_inner t' = rt_inner t2" "pc_applied c' = pc_applied c2" by blast
    have "distinct (r # rs)" "\<forall>x \<in> set (r # rs). \<not> alive t x \<and> alive t' x" "survives t t'"
      using 2 3 r keep by (auto simp: survives_def)
    moreover have "pc_applied c' = (pc_applied c)\<lparr>ap_added := ap_added (pc_applied c) @ (r # rs)\<rparr>"
      using 2(4) 3(4) by (simp add: note_added_def)
    moreover have "apply_add_child D p (Snapshot s_id metadata name class_name properties children) (c, t) = Some (c', t')"
      using 1(1) 2(1) 3(1) by simp
    moreover have "length (r # rs) = snapshot_size (Snapshot s_id metadata name class_name properties children)"
      using 2(5) by simp
    ultimately show "\<exists>c' t' rs. apply_add_child D p (Snapshot s_id metadata name class_name properties children) (c, t)
          = Some (c', t') \<and> state_ok (c', t') \<and> survives t t' \<and>
        pc_applied c' = (pc_applied c)\<lparr>ap_added := ap_added (pc_applied c) @ rs\<rparr> \<and>
        length rs = snapshot_size (Snapshot s_id metadata name class_name properties children) \<and>
        distinct rs \<and> (\<forall>x \<in> set rs. \<not> alive t x \<and> alive t' x)"
      using 3(2) by blast
  qed
qed

lemma modify_alive:
  assumes inv: "tree_inv D ok t"
    and f: "\<And>i. i_referent (f i) = i_referent i \<and> i_parent (f i) = i_parent i \<and> i_children (f i) = i_children i"
  shows "alive (modify_instance D t r f) q \<longleftrightarrow> alive t q"
proof (cases "dom_get D (rt_inner t) r")
  case None
  then show ?thesis by (simp add: modify_instance_def)
next
  case (Some i)
  from set_law [OF tree_invD(1) [OF inv] Some, of "f i"] f show ?thesis
    using Some by (simp add: modify_instance_def)
qed

lemma apply_update_total:
  assumes st: "state_ok (c, t)" and r: "alive t (pu_id u)"
  shows "\<exists>c' t' x. apply_update_child D u (c, t) = Some (c', t') \<and> state_ok (c', t') \<and> survives t t' \<and>
    pc_applied c' = (pc_applied c)\<lparr>ap_updated := ap_updated (pc_applied c) @ [x]\<rparr> \<and> pu_id x = pu_id u"
proof -
  let ?r = "pu_id u"
  have inv: "tree_inv D ok t" using st by (simp add: state_ok_def)
  define t1 where "t1 = (case pu_changed_metadata u of None \<Rightarrow> t | Some m \<Rightarrow> update_metadata t ?r m)"
  have t1: "tree_inv D ok t1" "rt_inner t1 = rt_inner t"
    using inv tree_inv_update_metadata [OF inv r] by (auto simp: t1_def split: option.split)
  obtain i where i: "dom_get D (rt_inner t1) ?r = Some i" using r t1(2) by auto
  obtain m where im: "get_instance D t1 ?r = Some (Some (i, m))"
    using get_instance_total [OF t1(1), of ?r] i by simp
  obtain properties applied where pa:
    "fold (apply_property (pc_snapshot_ids c)) (pu_changed_properties u) (i_properties i, []) = (properties, applied)"
    by (cases "fold (apply_property (pc_snapshot_ids c)) (pu_changed_properties u) (i_properties i, [])")
  let ?f = "\<lambda>i. i\<lparr>i_name := (case pu_changed_name u of None \<Rightarrow> i_name i | Some n \<Rightarrow> n),
                       i_class := (case pu_changed_class_name u of None \<Rightarrow> i_class i | Some k \<Rightarrow> k),
                       i_properties := properties\<rparr>"
  let ?t2 = "modify_instance D t1 ?r ?f"
  have t2: "tree_inv D ok ?t2" by (rule tree_inv_modify_instance [OF t1(1)]) simp
  have alive2: "alive ?t2 q \<longleftrightarrow> alive t q" for q
    using modify_alive [OF t1(1), of ?f] t1(2) by simp
  have "state_ok (c, ?t2)" using st t2 alive2 by (simp add: state_ok_def)
  from defer_total [OF this, of ?r] alive2 r obtain c' t' where d:
    "defer_ref_properties D ?r (c, ?t2) = Some (c', t')" "state_ok (c', t')" "rt_inner t' = rt_inner ?t2"
    "pc_applied c' = pc_applied c" by blast
  let ?x = "\<lparr>pu_id = ?r, pu_changed_name = pu_changed_name u, pu_changed_class_name = pu_changed_class_name u,
    pu_changed_properties = applied, pu_changed_metadata = pu_changed_metadata u\<rparr>"
  let ?c = "c'\<lparr>pc_applied := (pc_applied c')\<lparr>ap_updated := ap_updated (pc_applied c') @ [?x]\<rparr>\<rparr>"
  have "apply_update_child D u (c, t) = Some (?c, t')"
    using im pa d(1) by (simp add: apply_update_child_def Let_def flip: t1_def)
  moreover have "state_ok (?c, t')" using d(2) by (simp add: state_ok_def revisited_def)
  moreover have "survives t t'" using d(3) alive2 by (simp add: survives_def)
  ultimately show ?thesis using d(4) by (intro exI [of _ ?c] exI [of _ t'] exI [of _ ?x]) simp
qed

end

context weak_dom
begin

lemma destroyed_descends:
  assumes apart: "\<And>z. descends v x z \<Longrightarrow> \<not> descends v y z"
  shows "descends (destroyed_view v x) y q \<longleftrightarrow> descends v y q"
proof
  assume "descends (destroyed_view v x) y q"
  then show "descends v y q"
    by (rule child_of_mono [rotated]) (auto simp: destroyed_view_def split: if_splits)
next
  assume "descends v y q"
  then show "descends (destroyed_view v x) y q"
  proof (induction rule: rtranclp_induct)
    case base
    then show ?case by simp
  next
    case (step a b)
    have "\<not> descends v x a" "b \<noteq> x"
      using apart step.hyps by (auto intro: rtranclp.rtrancl_into_rtrancl)
    then have "child_of (destroyed_view v x) a b"
      using step.hyps(2) by (auto simp: child_of_def destroyed_view_def)
    with step.IH show ?case by simp
  qed
qed

lemma disjoint_subtrees_cong:
  "disjoint_subtrees v R \<Longrightarrow> (\<And>y q. y \<in> set R \<Longrightarrow> descends v' y q \<longleftrightarrow> descends v y q) \<Longrightarrow> disjoint_subtrees v' R"
  by (induction R) auto

lemma removals_total:
  "tree_inv D ok t \<Longrightarrow> disjoint_subtrees (dom_get D (rt_inner t)) R \<Longrightarrow>
    (\<And>x. x \<in> set R \<Longrightarrow> alive t x \<and> x \<noteq> dom_root D (rt_inner t)) \<Longrightarrow>
    \<exists>t'. fold_panic (apply_remove_instance D) R (c, t) = Some
        (c\<lparr>pc_applied := (pc_applied c)\<lparr>ap_removed := ap_removed (pc_applied c) @ R\<rparr>\<rparr>, t') \<and>
      tree_inv D ok t' \<and> dom_root D (rt_inner t') = dom_root D (rt_inner t) \<and>
      (\<forall>q. alive t' q \<longleftrightarrow> alive t q \<and> (\<forall>x \<in> set R. \<not> descends (dom_get D (rt_inner t)) x q))"
proof (induction R arbitrary: c t)
  case Nil
  then show ?case by simp
next
  case (Cons x R)
  let ?v = "dom_get D (rt_inner t)"
  have x: "alive t x" "x \<noteq> dom_root D (rt_inner t)" using Cons.prems(3) by auto
  obtain t1 where 1: "rt_remove D t x = Some t1" "dom_root D (rt_inner t1) = dom_root D (rt_inner t)"
    "dom_get D (rt_inner t1) = destroyed_view ?v x" "tree_inv D ok t1"
    by (rule rt_remove_effect [OF Cons.prems(1) x(1)]) (use x(2) in blast)
  have apart: "\<not> descends ?v y z" if "y \<in> set R" "descends ?v x z" for y z
    using Cons.prems(2) that by auto
  have same: "descends (dom_get D (rt_inner t1)) y q \<longleftrightarrow> descends ?v y q" if "y \<in> set R" for y q
    unfolding 1(3) by (rule destroyed_descends) (use apart that in blast)
  have alive1: "alive t1 q \<longleftrightarrow> alive t q \<and> \<not> descends ?v x q" for q
    by (simp add: 1(3) destroyed_view_def)
  let ?c1 = "c\<lparr>pc_applied := (pc_applied c)\<lparr>ap_removed := ap_removed (pc_applied c) @ [x]\<rparr>\<rparr>"
  have disj: "disjoint_subtrees (dom_get D (rt_inner t1)) R"
    by (rule disjoint_subtrees_cong [of ?v]) (use Cons.prems(2) same in auto)
  have in_t1: "alive t1 y \<and> y \<noteq> dom_root D (rt_inner t1)" if y: "y \<in> set R" for y
  proof -
    have "alive t y \<and> y \<noteq> dom_root D (rt_inner t)" using Cons.prems(3) [of y] y by simp
    moreover have "\<not> descends ?v x y" using apart [OF y, of y] by auto
    ultimately show ?thesis using alive1 [of y] 1(2) by simp
  qed
  from Cons.IH [OF 1(4) disj in_t1, where c = ?c1] obtain t' where 2: "fold_panic (apply_remove_instance D) R (?c1, t1) = Some
        (?c1\<lparr>pc_applied := (pc_applied ?c1)\<lparr>ap_removed := ap_removed (pc_applied ?c1) @ R\<rparr>\<rparr>, t')"
      "tree_inv D ok t'" "dom_root D (rt_inner t') = dom_root D (rt_inner t1)"
      "\<And>q. alive t' q \<longleftrightarrow> alive t1 q \<and> (\<forall>x \<in> set R. \<not> descends (dom_get D (rt_inner t1)) x q)"
    by auto
  have "fold_panic (apply_remove_instance D) (x # R) (c, t) = Some
      (c\<lparr>pc_applied := (pc_applied c)\<lparr>ap_removed := ap_removed (pc_applied c) @ x # R\<rparr>\<rparr>, t')"
    using 1(1) 2(1) by (simp add: apply_remove_instance_def)
  moreover have "alive t' q \<longleftrightarrow> alive t q \<and> (\<forall>y \<in> set (x # R). \<not> descends ?v y q)" for q
    using 2(4) [of q] alive1 [of q] same [of _ q] by auto
  ultimately show ?case using 1(2) 2(2,3) by (intro exI [of _ t']) simp
qed

lemma additions_total:
  assumes "state_ok (c, t)" and "\<And>a. a \<in> set A \<Longrightarrow> alive t (pa_parent_id a)"
  shows "\<exists>c' t' rs. fold_panic (\<lambda>a. apply_add_child D (pa_parent_id a) (pa_instance a)) A (c, t) = Some (c', t') \<and>
    state_ok (c', t') \<and> survives t t' \<and>
    pc_applied c' = (pc_applied c)\<lparr>ap_added := ap_added (pc_applied c) @ rs\<rparr> \<and>
    length rs = sum_list (map (\<lambda>a. snapshot_size (pa_instance a)) A) \<and> distinct rs \<and>
    (\<forall>x \<in> set rs. \<not> alive t x \<and> alive t' x)"
  using assms
proof (induction A arbitrary: c t)
  case Nil
  then show ?case by (auto simp: survives_refl intro!: exI [of _ "[]"])
next
  case (Cons a A)
  have "adds (pa_instance a)" by (rule all_snapshots_add)
  with Cons.prems(1) Cons.prems(2) [of a] obtain c1 t1 rs1 where
    1: "apply_add_child D (pa_parent_id a) (pa_instance a) (c, t) = Some (c1, t1)" "state_ok (c1, t1)"
    "survives t t1" "pc_applied c1 = (pc_applied c)\<lparr>ap_added := ap_added (pc_applied c) @ rs1\<rparr>"
    "length rs1 = snapshot_size (pa_instance a)" "distinct rs1" "\<forall>x \<in> set rs1. \<not> alive t x \<and> alive t1 x"
    unfolding adds_def by (meson list.set_intros(1))
  have "alive t1 (pa_parent_id b)" if "b \<in> set A" for b
    using 1(3) Cons.prems(2) [of b] that by (auto simp: survives_def)
  from Cons.IH [OF 1(2) this] obtain c' t' rs2 where
    2: "fold_panic (\<lambda>a. apply_add_child D (pa_parent_id a) (pa_instance a)) A (c1, t1) = Some (c', t')"
    "state_ok (c', t')" "survives t1 t'" "pc_applied c' = (pc_applied c1)\<lparr>ap_added := ap_added (pc_applied c1) @ rs2\<rparr>"
    "length rs2 = sum_list (map (\<lambda>a. snapshot_size (pa_instance a)) A)" "distinct rs2"
    "\<forall>x \<in> set rs2. \<not> alive t1 x \<and> alive t' x" by auto
  have "distinct (rs1 @ rs2)" "\<forall>x \<in> set (rs1 @ rs2). \<not> alive t x \<and> alive t' x"
    using 1 2 by (auto simp: survives_def)
  then show ?case
    using 1 2 survives_trans [OF 1(3) 2(3)] by (intro exI [of _ c'] exI [of _ t'] exI [of _ "rs1 @ rs2"]) simp
qed

lemma updates_total:
  assumes "state_ok (c, t)" and "\<And>u. u \<in> set U \<Longrightarrow> alive t (pu_id u)"
  shows "\<exists>c' t' xs. fold_panic (apply_update_child D) U (c, t) = Some (c', t') \<and> state_ok (c', t') \<and> survives t t' \<and>
    pc_applied c' = (pc_applied c)\<lparr>ap_updated := ap_updated (pc_applied c) @ xs\<rparr> \<and> map pu_id xs = map pu_id U"
  using assms
proof (induction U arbitrary: c t)
  case Nil
  then show ?case by (auto simp: survives_refl intro!: exI [of _ "[]"])
next
  case (Cons u U)
  from apply_update_total [OF Cons.prems(1), of u] Cons.prems(2) [of u] obtain c1 t1 x where
    1: "apply_update_child D u (c, t) = Some (c1, t1)" "state_ok (c1, t1)" "survives t t1"
    "pc_applied c1 = (pc_applied c)\<lparr>ap_updated := ap_updated (pc_applied c) @ [x]\<rparr>" "pu_id x = pu_id u"
    by auto
  have "alive t1 (pu_id w)" if "w \<in> set U" for w
    using 1(3) Cons.prems(2) [of w] that by (auto simp: survives_def)
  from Cons.IH [OF 1(2) this] obtain c' t' xs where
    2: "fold_panic (apply_update_child D) U (c1, t1) = Some (c', t')" "state_ok (c', t')" "survives t1 t'"
    "pc_applied c' = (pc_applied c1)\<lparr>ap_updated := ap_updated (pc_applied c1) @ xs\<rparr>" "map pu_id xs = map pu_id U"
    by auto
  show ?case
    using 1 2 survives_trans [OF 1(3) 2(3)] by (intro exI [of _ c'] exI [of _ t'] exI [of _ "x # xs"]) simp
qed

lemma finalize_total:
  assumes st: "state_ok (c, t)"
  shows "\<exists>t'. finalize_patch_application D (c, t) = Some (pc_applied c, t') \<and> tree_inv D ok t' \<and> survives t t'"
proof -
  let ?P = "\<lambda>t'. tree_inv D ok t' \<and> survives t t'"
  have keep: "?P (modify_instance D t1 r f)" if "?P t1"
      "\<And>i. i_referent (f i) = i_referent i \<and> i_parent (f i) = i_parent i \<and> i_children (f i) = i_children i" for t1 r f
    using that tree_inv_modify_instance [OF _ that(2)] modify_alive [OF _ that(2)] by (auto simp: survives_def)
  have "\<exists>t2. finalize_refs D (pc_snapshot_ids c) r t1 = Some t2 \<and> ?P t2"
    if r: "r \<in> set (pc_has_refs c)" and P: "?P t1" for r t1
  proof -
    have "alive t1 r" using st r P by (auto simp: state_ok_def revisited_def survives_def)
    then obtain i m where "expect_instance D t1 r = Some (i, m)" using expect_alive P by blast
    then show ?thesis using keep [OF P] by (simp add: finalize_refs_def)
  qed
  moreover have "?P t" using st by (simp add: state_ok_def survives_refl)
  ultimately obtain t1 where 1: "fold_panic (finalize_refs D (pc_snapshot_ids c)) (pc_has_refs c) t = Some t1" "?P t1"
    using fold_panic_invariant [where P = ?P and f = "finalize_refs D (pc_snapshot_ids c)" and xs = "pc_has_refs c" and s = t]
    by blast
  have "\<exists>t2. finalize_attribute_refs D x t1 = Some t2 \<and> ?P t2"
    if x: "x \<in> set (mm_into_iter (pc_attribute_refs c))" and P: "?P t1" for x t1
  proof (cases x)
    case (Pair r refs)
    have "alive t1 (fst x)" using st x P by (auto simp: state_ok_def revisited_def survives_def mm_into_iter_def)
    then obtain i m where "expect_instance D t1 (fst x) = Some (i, m)" using expect_alive P by blast
    then show ?thesis using keep [OF P] Pair by (simp add: finalize_attribute_refs_def Let_def)
  qed
  with 1(2) obtain t2 where 2: "fold_panic (finalize_attribute_refs D) (mm_into_iter (pc_attribute_refs c)) t1 = Some t2" "?P t2"
    using fold_panic_invariant [where P = ?P and f = "finalize_attribute_refs D" and xs = "mm_into_iter (pc_attribute_refs c)" and s = t1]
    by blast
  from 1 2 show ?thesis by (simp add: finalize_patch_application_def)
qed

lemma apply_patch_set_total:
  assumes inv: "tree_inv D ok t"
    and R: "disjoint_subtrees (dom_get D (rt_inner t)) (removed_instances ps)"
      "\<And>x. x \<in> set (removed_instances ps) \<Longrightarrow> alive t x \<and> x \<noteq> dom_root D (rt_inner t)"
    and N: "\<And>q. q \<in> named (added_instances ps) (updated_instances ps) \<Longrightarrow>
      alive t q \<and> (\<forall>x \<in> set (removed_instances ps). \<not> descends (dom_get D (rt_inner t)) x q)"
  shows "\<exists>ap t'. apply_patch_set D ps t = Some (ap, t') \<and> tree_inv D ok t' \<and>
    ap_removed ap = removed_instances ps \<and>
    length (ap_added ap) = sum_list (map (\<lambda>a. snapshot_size (pa_instance a)) (added_instances ps)) \<and>
    distinct (ap_added ap) \<and> (\<forall>x \<in> set (ap_added ap). alive t' x) \<and>
    map pu_id (ap_updated ap) = map pu_id (updated_instances ps)"
proof -
  let ?c = "apply_context_new :: 'o apply_context"
  obtain t1 where 1: "fold_panic (apply_remove_instance D) (removed_instances ps) (?c, t) = Some
        (?c\<lparr>pc_applied := (pc_applied ?c)\<lparr>ap_removed := ap_removed (pc_applied ?c) @ removed_instances ps\<rparr>\<rparr>, t1)"
    "tree_inv D ok t1" "\<And>q. alive t1 q \<longleftrightarrow> alive t q \<and>
        (\<forall>x \<in> set (removed_instances ps). \<not> descends (dom_get D (rt_inner t)) x q)"
    using removals_total [OF inv R, of ?c] by blast
  let ?c1 = "?c\<lparr>pc_applied := (pc_applied ?c)\<lparr>ap_removed := ap_removed (pc_applied ?c) @ removed_instances ps\<rparr>\<rparr>"
  have "state_ok (?c1, t1)"
    using 1(2) by (simp add: state_ok_def revisited_def apply_context_new_def mm_new_def)
  moreover have named1: "alive t1 q" if "q \<in> named (added_instances ps) (updated_instances ps)" for q
    using 1(3) N [OF that] by blast
  ultimately obtain c2 t2 rs where 2:
    "fold_panic (\<lambda>a. apply_add_child D (pa_parent_id a) (pa_instance a)) (added_instances ps) (?c1, t1) = Some (c2, t2)"
    "state_ok (c2, t2)" "survives t1 t2" "pc_applied c2 = (pc_applied ?c1)\<lparr>ap_added := ap_added (pc_applied ?c1) @ rs\<rparr>"
    "length rs = sum_list (map (\<lambda>a. snapshot_size (pa_instance a)) (added_instances ps))" "distinct rs"
    "\<forall>x \<in> set rs. alive t2 x"
    using additions_total [of ?c1 t1 "added_instances ps"] by (auto simp: named_def)
  have "alive t2 (pu_id u)" if "u \<in> set (updated_instances ps)" for u
    using named1 [of "pu_id u"] that 2(3) by (auto simp: survives_def named_def)
  from updates_total [where U = "updated_instances ps", OF 2(2) this] obtain c3 t3 xs where 3:
    "fold_panic (apply_update_child D) (updated_instances ps) (c2, t2) = Some (c3, t3)" "state_ok (c3, t3)"
    "survives t2 t3" "pc_applied c3 = (pc_applied c2)\<lparr>ap_updated := ap_updated (pc_applied c2) @ xs\<rparr>"
    "map pu_id xs = map pu_id (updated_instances ps)" by auto
  obtain t' where 4: "finalize_patch_application D (c3, t3) = Some (pc_applied c3, t')" "tree_inv D ok t'" "survives t3 t'"
    using finalize_total [OF 3(2)] by blast
  have "apply_patch_set D ps t = Some (pc_applied c3, t')"
    using 1(1) 2(1) 3(1) 4(1) by (simp add: apply_patch_set_def)
  moreover have "ap_removed (pc_applied c3) = removed_instances ps" "ap_added (pc_applied c3) = rs"
    "ap_updated (pc_applied c3) = xs"
    using 2(4) 3(4) by (simp_all add: apply_context_new_def applied_new_def)
  ultimately show ?thesis
    using 2(5,6,7) 3(3,5) 4(2,3) by (auto simp: survives_def)
qed

end

lemma named_rewritten [simp]:
  "named (rewrite_refs_in_additions ids A) (rewrite_refs_in_updates ids U) = named A U"
  by (simp add: named_def rewrite_refs_in_additions_def rewrite_refs_in_updates_def image_image)

lemma snapshot_size_rewritten [simp]: "snapshot_size (rewrite_refs_in_snapshot ids s) = snapshot_size s"
proof (induction s)
  case (Snapshot s_id metadata name class_name properties children)
  have "map (\<lambda>c. snapshot_size (rewrite_refs_in_snapshot ids c)) children = map snapshot_size children"
    by (rule map_cong [OF refl]) (rule Snapshot)
  then show ?case unfolding rewrite_refs_in_snapshot.simps snapshot_size.simps map_map comp_def
    by (simp only:)
qed

context weak_dom
begin

lemma compute_patch_set_fits:
  assumes inv: "tree_inv D ok t" and cmp: "tree_comparable D t" and r: "alive t r"
    and s: "\<And>s. snap = Some s \<Longrightarrow> snapshot_comparable s"
  shows "\<exists>ps. compute_patch_set env D snap t r = Some ps \<and>
    disjoint_subtrees (dom_get D (rt_inner t)) (removed_instances ps) \<and>
    (\<forall>x \<in> set (removed_instances ps). alive t x \<and> x \<noteq> dom_root D (rt_inner t) \<and>
       descends (dom_get D (rt_inner t)) r x \<and> (x = r \<longrightarrow> snap = None)) \<and>
    (\<forall>q \<in> named (added_instances ps) (updated_instances ps).
       alive t q \<and> (\<forall>x \<in> set (removed_instances ps). \<not> descends (dom_get D (rt_inner t)) x q))"
proof (cases snap)
  case None
  then show ?thesis using r by (simp add: compute_patch_set_def patch_set_new_def get_root_id_def Let_def)
next
  case (Some s')
  have "computes env t s'" by (rule all_snapshots_compute [OF inv cmp]) (rule s [OF Some])
  then obtain ids R A U where c: "compute_internal env D t s' r ([], patch_set_new) = Some (ids,
      (patch_set_new :: 'o patch_set)\<lparr>removed_instances := removed_instances (patch_set_new :: 'o patch_set) @ R,
        added_instances := added_instances patch_set_new @ A,
        updated_instances := updated_instances patch_set_new @ U\<rparr>)"
    "fits_below (dom_get D (rt_inner t)) r R (named A U)"
    using computes_def [THEN iffD1, rule_format, OF _ r, of env s' "[]" patch_set_new] by blast
  have "x \<noteq> dom_root D (rt_inner t)" if "x \<in> set R" for x
    using c(2) that root_not_below [OF tree_invD(2) [OF inv], of r] by (auto simp: fits_below_def)
  with c Some show ?thesis
    by (simp add: compute_patch_set_def patch_set_new_def fits_below_def)
qed

text \<open>Resynchronizing an instance with any snapshot of it.\<close>

lemma resnapshot_total:
  assumes "tree_inv D ok t" and "tree_comparable D t"
    and "dom_get D (rt_inner t) r \<noteq> None" and "\<And>s. snap = Some s \<Longrightarrow> snapshot_comparable s"
  shows "\<exists>ps ap t'. compute_patch_set env D snap t r = Some ps \<and> apply_patch_set D ps t = Some (ap, t') \<and>
    tree_inv D ok t' \<and> rt_root D t' \<noteq> None \<and>
    (\<forall>x \<in> set (removed_instances ps). descends (dom_get D (rt_inner t)) r x \<and> (x = r \<longrightarrow> snap = None)) \<and>
    ap_removed ap = removed_instances ps \<and>
    length (ap_added ap) = sum_list (map (\<lambda>a. snapshot_size (pa_instance a)) (added_instances ps)) \<and>
    distinct (ap_added ap) \<and> (\<forall>x \<in> set (ap_added ap). get_metadata t' x \<noteq> None) \<and>
    map pu_id (ap_updated ap) = map pu_id (updated_instances ps)"
proof -
  obtain ps where ps: "compute_patch_set env D snap t r = Some ps"
    "disjoint_subtrees (dom_get D (rt_inner t)) (removed_instances ps)"
    "\<And>x. x \<in> set (removed_instances ps) \<Longrightarrow> dom_get D (rt_inner t) x \<noteq> None \<and> x \<noteq> dom_root D (rt_inner t)"
    "\<And>x. x \<in> set (removed_instances ps) \<Longrightarrow> descends (dom_get D (rt_inner t)) r x \<and> (x = r \<longrightarrow> snap = None)"
    "\<And>q. q \<in> named (added_instances ps) (updated_instances ps) \<Longrightarrow> dom_get D (rt_inner t) q \<noteq> None \<and>
       (\<forall>x \<in> set (removed_instances ps). \<not> descends (dom_get D (rt_inner t)) x q)"
  proof -
    from compute_patch_set_fits [OF assms(1-3), of snap env] assms(4)
    obtain ps where c: "compute_patch_set env D snap t r = Some ps"
      "disjoint_subtrees (dom_get D (rt_inner t)) (removed_instances ps)"
      and R: "\<forall>x \<in> set (removed_instances ps). dom_get D (rt_inner t) x \<noteq> None \<and> x \<noteq> dom_root D (rt_inner t) \<and>
       descends (dom_get D (rt_inner t)) r x \<and> (x = r \<longrightarrow> snap = None)"
      and N: "\<forall>q \<in> named (added_instances ps) (updated_instances ps). dom_get D (rt_inner t) q \<noteq> None \<and>
         (\<forall>x \<in> set (removed_instances ps). \<not> descends (dom_get D (rt_inner t)) x q)" by auto
    show ?thesis by (rule that [OF c]) (use R N in simp_all)
  qed
  obtain ap t' where ap: "apply_patch_set D ps t = Some (ap, t')" "tree_inv D ok t'"
    "ap_removed ap = removed_instances ps"
    "length (ap_added ap) = sum_list (map (\<lambda>a. snapshot_size (pa_instance a)) (added_instances ps))"
    "distinct (ap_added ap)" "\<forall>x \<in> set (ap_added ap). dom_get D (rt_inner t') x \<noteq> None"
    "map pu_id (ap_updated ap) = map pu_id (updated_instances ps)"
    using apply_patch_set_total [OF assms(1) ps(2,3,5)] by auto
  have "rt_root D t' \<noteq> None"
    using tree_inv_exact [OF ap(2)] by (simp add: tree_exact_def)
  moreover have "\<forall>x \<in> set (ap_added ap). get_metadata t' x \<noteq> None"
    using ap(6) tree_invD(3) [OF ap(2)] by (auto simp: get_metadata_def)
  ultimately show ?thesis using ps(1,4) ap by (intro exI [of _ ps] exI [of _ ap] exI [of _ t']) simp
qed

end


section \<open>The properties of an update\<close>

text \<open>What each loop does to one key.\<close>

lemma get_changed_values:
  assumes "fold_panic (\<lambda>(name, sv) changed. case hm_get ips name of
         Some iv \<Rightarrow> (case variant_eq env sv iv of None \<Rightarrow> None
            | Some equal \<Rightarrow> Some (if equal then changed else hm_insert name (Some sv) changed))
       | None \<Rightarrow> Some (hm_insert name (Some sv) changed)) sps acc = Some ch" and "hm_ok sps"
  shows "hm_get ch k = (case hm_get sps k of
      None \<Rightarrow> hm_get acc k
    | Some sv \<Rightarrow> (if \<exists>iv. hm_get ips k = Some iv \<and> variant_eq env sv iv = Some True
        then hm_get acc k else Some (Some sv)))"
    and "hm_ok acc \<Longrightarrow> hm_ok ch"
proof -
  have "hm_get ch k = (case hm_get sps k of
      None \<Rightarrow> hm_get acc k
    | Some sv \<Rightarrow> (if \<exists>iv. hm_get ips k = Some iv \<and> variant_eq env sv iv = Some True
        then hm_get acc k else Some (Some sv))) \<and> (hm_ok acc \<longrightarrow> hm_ok ch)"
    using assms
  proof (induction sps arbitrary: acc)
    case Nil
    then show ?case by simp
  next
    case (Cons x sps)
    obtain name sv where x: "x = (name, sv)" by (cases x)
    have fresh: "hm_get sps name = None" and ok: "hm_ok sps" using Cons.prems(2) x by (auto simp: map_of_eq_None_iff)
    show ?case
    proof (cases "\<exists>iv. hm_get ips name = Some iv \<and> variant_eq env sv iv = Some True")
      case True
      with Cons.prems(1) x have "fold_panic (\<lambda>(name, sv) changed. case hm_get ips name of
         Some iv \<Rightarrow> (case variant_eq env sv iv of None \<Rightarrow> None
            | Some equal \<Rightarrow> Some (if equal then changed else hm_insert name (Some sv) changed))
       | None \<Rightarrow> Some (hm_insert name (Some sv) changed)) sps acc = Some ch" by auto
      from Cons.IH [OF this ok] True fresh x show ?thesis by auto
    next
      case False
      with Cons.prems(1) x have "fold_panic (\<lambda>(name, sv) changed. case hm_get ips name of
         Some iv \<Rightarrow> (case variant_eq env sv iv of None \<Rightarrow> None
            | Some equal \<Rightarrow> Some (if equal then changed else hm_insert name (Some sv) changed))
       | None \<Rightarrow> Some (hm_insert name (Some sv) changed)) sps (hm_insert name (Some sv) acc) = Some ch"
        by (auto split: option.splits)
      from Cons.IH [OF this ok] False fresh x show ?thesis by (auto split: option.splits)
    qed
  qed
  then show "hm_get ch k = (case hm_get sps k of
      None \<Rightarrow> hm_get acc k
    | Some sv \<Rightarrow> (if \<exists>iv. hm_get ips k = Some iv \<and> variant_eq env sv iv = Some True
        then hm_get acc k else Some (Some sv)))"
    and "hm_ok acc \<Longrightarrow> hm_ok ch" by blast+
qed

lemma get_removed_values:
  "hm_get (removed_values sps ips ch) k =
    (if k \<in> set (hm_keys ips) \<and> k \<notin> set (hm_keys sps) then Some None else hm_get ch k)"
  and removed_values_ok: "hm_ok ch \<Longrightarrow> hm_ok (removed_values sps ips ch)"
proof -
  have "hm_get (fold (\<lambda>name changed. if name \<in> set (hm_keys sps) then changed else hm_insert name None changed) ks ch) k =
    (if k \<in> set ks \<and> k \<notin> set (hm_keys sps) then Some None else hm_get ch k)" for ks and ch :: "(string, 'a variant option) hash_map"
    by (induction ks arbitrary: ch) auto
  then show "hm_get (removed_values sps ips ch) k =
    (if k \<in> set (hm_keys ips) \<and> k \<notin> set (hm_keys sps) then Some None else hm_get ch k)"
    by (simp add: removed_values_def)
  show "hm_ok ch \<Longrightarrow> hm_ok (removed_values sps ips ch)"
    unfolding removed_values_def by (rule fold_invariant [where P = hm_ok]) auto
qed

lemma get_applied:
  assumes "fold (apply_property ids) ch (props, applied) = (props', applied')" and "hm_ok ch"
  shows "hm_get props' k = (case hm_get ch k of
      None \<Rightarrow> hm_get props k
    | Some None \<Rightarrow> None
    | Some (Some v) \<Rightarrow> (if v = VRef NoRef then hm_get props k else Some (rewrite_ref ids v)))"
    and "hm_get applied' k = (case hm_get ch k of
      None \<Rightarrow> hm_get applied k
    | Some e \<Rightarrow> (if e = Some (VRef NoRef) then hm_get applied k else Some e))"
proof -
  have "hm_get props' k = (case hm_get ch k of
      None \<Rightarrow> hm_get props k
    | Some None \<Rightarrow> None
    | Some (Some v) \<Rightarrow> (if v = VRef NoRef then hm_get props k else Some (rewrite_ref ids v))) \<and>
    hm_get applied' k = (case hm_get ch k of
      None \<Rightarrow> hm_get applied k
    | Some e \<Rightarrow> (if e = Some (VRef NoRef) then hm_get applied k else Some e))"
    using assms
  proof (induction ch arbitrary: props applied)
    case Nil
    then show ?case by simp
  next
    case (Cons x ch)
    obtain key e where x: "x = (key, e)" by (cases x)
    have fresh: "hm_get ch key = None" and ok: "hm_ok ch" using Cons.prems(2) x by (auto simp: map_of_eq_None_iff)
    obtain props1 applied1 where one: "apply_property ids x (props, applied) = (props1, applied1)"
      by (cases "apply_property ids x (props, applied)")
    have "fold (apply_property ids) ch (props1, applied1) = (props', applied')" using Cons.prems(1) one by simp
    note IH = Cons.IH [OF this ok]
    have "hm_get props1 k = (if k = key then (case e of None \<Rightarrow> None
          | Some v \<Rightarrow> (if v = VRef NoRef then hm_get props k else Some (rewrite_ref ids v))) else hm_get props k)"
      and "hm_get applied1 k = (if k = key \<and> e \<noteq> Some (VRef NoRef) then Some e else hm_get applied k)"
      using one x by (auto simp: apply_property_def rewrite_ref_def ref_is_none_def split: option.splits variant.splits if_splits)
    with IH x fresh show ?case by (auto split: option.splits)
  qed
  then show "hm_get props' k = (case hm_get ch k of
      None \<Rightarrow> hm_get props k
    | Some None \<Rightarrow> None
    | Some (Some v) \<Rightarrow> (if v = VRef NoRef then hm_get props k else Some (rewrite_ref ids v)))"
    and "hm_get applied' k = (case hm_get ch k of
      None \<Rightarrow> hm_get applied k
    | Some e \<Rightarrow> (if e = Some (VRef NoRef) then hm_get applied k else Some e))"
    by blast+
qed


section \<open>Properties\<close>

text \<open>
  C38. Computing the patch for an instance of a well-formed tree and applying it to that tree never
  panics, whatever the snapshot is, as long as its values and the tree's can be compared (of a type the
  comparison knows, without keypoint times that are not numbers).  The tree
  stays well formed and keeps its root, the removed instances are proper descendants (or the
  instance itself when there is no snapshot), and the applied patch accounts for everything: the
  same removals, one addition per added snapshot node, an update for every update, in order.
\<close>

theorem computed_patches_apply:
  assumes "weak_dom D ok" and "tree_inv D ok t" and "tree_comparable D t"
    and "dom_get D (rt_inner t) r \<noteq> None" and "\<And>s. snap = Some s \<Longrightarrow> snapshot_comparable s"
  shows "\<exists>ps ap t'. compute_patch_set env D snap t r = Some ps \<and> apply_patch_set D ps t = Some (ap, t') \<and>
    tree_inv D ok t' \<and> rt_root D t' \<noteq> None \<and>
    (\<forall>x \<in> set (removed_instances ps). descends (dom_get D (rt_inner t)) r x \<and> (x = r \<longrightarrow> snap = None)) \<and>
    ap_removed ap = removed_instances ps \<and>
    length (ap_added ap) = sum_list (map (\<lambda>a. snapshot_size (pa_instance a)) (added_instances ps)) \<and>
    distinct (ap_added ap) \<and> (\<forall>x \<in> set (ap_added ap). get_metadata t' x \<noteq> None) \<and>
    map pu_id (ap_updated ap) = map pu_id (updated_instances ps)"
  by (rule weak_dom.resnapshot_total [OF assms])

lemma computed_patches_apply_witness:
  "\<exists>t. rt_new ref_dom_ops (snapshot_new :: nat instance_snapshot) = Some t \<and>
    (\<exists>ps ap t'. compute_patch_set exact_env ref_dom_ops (Some (Snapshot NoRef metadata_new ''a'' ''b'' [] [snapshot_new]))
        t (get_root_id ref_dom_ops t) = Some ps \<and>
      apply_patch_set ref_dom_ops ps t = Some (ap, t') \<and> rt_root ref_dom_ops t' \<noteq> None)"
proof -
  obtain t where t: "rt_new ref_dom_ops (snapshot_new :: nat instance_snapshot) = Some t" "tree_inv ref_dom_ops rd_ok t"
    using rd.rt_new_inv by blast
  then have "rd_get (rt_inner t) = (\<lambda>x. if x = Ref 0 then Some (built \<lparr>b_class = ''DEFAULT'', b_name = ''DEFAULT'', b_properties = []\<rparr> (Ref 0) NoRef) else None)"
    by (auto simp: rt_new_def snapshot_new_def metadata_new_def ref_dom_ops_def rd_new_def rd_get_def
        insert_metadata_def Let_def fun_eq_iff)
  then have cmp: "tree_comparable ref_dom_ops t"
    by (auto simp: tree_comparable_def ref_dom_ops_def built_def)
  have "dom_get ref_dom_ops (rt_inner t) (get_root_id ref_dom_ops t) \<noteq> None"
    using dom_wfD(2) [OF tree_invD(2) [OF t(2)]] by (auto simp: get_root_id_def)
  then have "snapshot_comparable s \<Longrightarrow> ?thesis" if "s = Snapshot NoRef metadata_new ''a'' ''b'' [] [snapshot_new]"
    for s :: "nat instance_snapshot"
    using computed_patches_apply [OF ref_dom_is_weak_dom t(2) cmp, of "get_root_id ref_dom_ops t" "Some s" exact_env] t(1) that
    by (fastforce intro!: exI [of _ t])
  then show ?thesis by (simp add: snapshot_new_def)
qed

section \<open>What an update amounts to\<close>

text \<open>No attribute stands for a reference property.\<close>

definition no_ref_pointers :: "(string, 'o variant) hash_map \<Rightarrow> bool" where
  "no_ref_pointers properties \<longleftrightarrow>
     (case hm_get properties ''Attributes'' of
        Some (VAttributes attrs) \<Rightarrow>
          (\<forall>(attr_name, _) \<in> set attrs. str_strip_prefix attr_name REF_POINTER_ATTRIBUTE_PREFIX = None)
      | _ \<Rightarrow> True)"

lemma no_ref_pointers_compute: "no_ref_pointers properties \<Longrightarrow> compute_ref_properties properties t = []"
proof (cases "hm_get properties ''Attributes''")
  case (Some a)
  assume n: "no_ref_pointers properties"
  show ?thesis
  proof (cases "\<exists>attrs. a = VAttributes attrs")
    case True
    then obtain attrs where a: "a = VAttributes attrs" by auto
    have "fold (\<lambda>(attr_name, attr_value) m.
            case str_strip_prefix attr_name REF_POINTER_ATTRIBUTE_PREFIX of
              None \<Rightarrow> m
            | Some prop_name \<Rightarrow>
                (case attribute_rojo_ref attr_value of
                   None \<Rightarrow> m
                 | Some rojo_ref \<Rightarrow>
                     hm_insert prop_name (map_option VRef (get_specified_id t rojo_ref)) m)) xs m = m"
      if "\<forall>(attr_name, _) \<in> set xs. str_strip_prefix attr_name REF_POINTER_ATTRIBUTE_PREFIX = None" for xs m
      using that by (induction xs) auto
    with n Some a show ?thesis by (simp add: no_ref_pointers_def compute_ref_properties_def)
  next
    case False
    with Some show ?thesis by (auto simp: compute_ref_properties_def split: variant.split)
  qed
qed (simp add: compute_ref_properties_def)

text \<open>The changed properties of the first two loops, applied to the instance.\<close>

lemma changes_applied:
  assumes "hm_ok sps" and "hm_ok ips" and "changed_values env sps ips = Some ch"
  shows "hm_get (removed_values sps ips ch) k = (case hm_get sps k of
      None \<Rightarrow> if hm_get ips k = None then None else Some None
    | Some sv \<Rightarrow> if \<exists>iv. hm_get ips k = Some iv \<and> variant_eq env sv iv = Some True then None else Some (Some sv))"
    and "hm_ok (removed_values sps ips ch)"
proof -
  have ch: "hm_get ch k = (case hm_get sps k of
      None \<Rightarrow> hm_get [] k
    | Some sv \<Rightarrow> (if \<exists>iv. hm_get ips k = Some iv \<and> variant_eq env sv iv = Some True
        then hm_get [] k else Some (Some sv)))" and ok: "hm_ok ch"
    using get_changed_values [OF assms(3) [unfolded changed_values_def] assms(1)] by auto
  have key: "k \<in> set (hm_keys m) \<longleftrightarrow> hm_get m k \<noteq> None" for m :: "(string, 'a variant) hash_map"
    by (simp add: map_of_eq_None_iff)
  show "hm_get (removed_values sps ips ch) k = (case hm_get sps k of
      None \<Rightarrow> if hm_get ips k = None then None else Some None
    | Some sv \<Rightarrow> if \<exists>iv. hm_get ips k = Some iv \<and> variant_eq env sv iv = Some True then None else Some (Some sv))"
    unfolding get_removed_values key ch by (cases "hm_get sps k"; cases "hm_get ips k") auto
  show "hm_ok (removed_values sps ips ch)" by (rule removed_values_ok [OF ok])
qed

lemma get_pivot_migration:
  "hm_get (pivot_migration_change class_name ips ch) k =
    (if k = NeedsPivotMigration \<and> class_name \<in> set model_classes
     then if hm_get ips k = None then Some (Some (VBool False))
       else case hm_get ch k of
         Some (Some (VBool b)) \<Rightarrow> Some (Some (VBool b)) | Some None \<Rightarrow> None | _ \<Rightarrow> Some (Some (VBool False))
     else hm_get ch k)"
  and pivot_migration_ok: "hm_ok ch \<Longrightarrow> hm_ok (pivot_migration_change class_name ips ch)"
  by (auto simp: pivot_migration_change_def Let_def split: option.split variant.split)

text \<open>
  The properties an instance has after an update: an old value that equals the snapshot's stays; other
  values of the snapshot replace the old ones, references rewritten, but a null reference replaces
  nothing; a key the snapshot does not have goes.  Models differ in their pivot flag: it is added as
  false when it is not there, kept when the snapshot does not set it, and set to false when the snapshot
  has the value that is already there.
\<close>

definition carried_over :: "id_map \<Rightarrow> 'o variant \<Rightarrow> 'o variant option \<Rightarrow> 'o variant option" where
  "carried_over ids sv old = (if rewrite_ref ids sv = VRef NoRef then old else Some (rewrite_ref ids sv))"

definition updated_value :: "'o variant_env \<Rightarrow> id_map \<Rightarrow> 'o instance_snapshot \<Rightarrow> (string, 'o variant) hash_map \<Rightarrow>
    string \<Rightarrow> 'o variant option" where
  "updated_value env ids s ips k =
     (if k = NeedsPivotMigration \<and> sn_class s \<in> set model_classes
      then case (hm_get ips k, hm_get (sn_properties s) k) of
          (None, _) \<Rightarrow> Some (VBool False)
        | (Some iv, None) \<Rightarrow> Some iv
        | (Some iv, Some sv) \<Rightarrow>
            (case sv of VBool b \<Rightarrow> if variant_eq env sv iv = Some True then Some (VBool False) else Some (VBool b)
             | _ \<Rightarrow> Some (VBool False))
      else case (hm_get (sn_properties s) k, hm_get ips k) of
          (None, _) \<Rightarrow> None
        | (Some sv, Some iv) \<Rightarrow> if variant_eq env sv iv = Some True then Some iv else carried_over ids sv (Some iv)
        | (Some sv, None) \<Rightarrow> carried_over ids sv None)"

lemma no_pointers_deferred:
  assumes "\<forall>(attr_name, _) \<in> set attrs. str_strip_prefix attr_name REF_POINTER_ATTRIBUTE_PREFIX = None"
  shows "snd (fold (defer_attribute r) attrs (x, m)) = m"
  using assms by (induction attrs arbitrary: x) (auto simp: defer_attribute_def)

lemma rewritten_updates_ok:
  "hm_ok (map (\<lambda>(k, v). (k, f v)) ch) = hm_ok ch" "hm_get (map (\<lambda>(k, v). (k, f v)) ch) k = map_option f (hm_get ch k)"
  by (induction ch) (auto simp: image_iff)

lemma no_ref_pointers_iff:
  "no_ref_pointers properties \<longleftrightarrow> (\<forall>attrs. hm_get properties ''Attributes'' = Some (VAttributes attrs) \<longrightarrow>
     (\<forall>(attr_name, _) \<in> set attrs. str_strip_prefix attr_name REF_POINTER_ATTRIBUTE_PREFIX = None))"
  by (auto simp: no_ref_pointers_def split: option.split variant.split)

lemma rewritten_attributes: "rewrite_ref ids v = VAttributes attrs \<longleftrightarrow> v = VAttributes attrs"
  by (auto simp: rewrite_ref_def split: variant.split option.split)

lemma rewrite_ref_none: "rewrite_ref [] v = v"
  by (simp add: rewrite_ref_def split: variant.split)

text \<open>The update of one instance, all the way through the computation.\<close>

lemma computed_update:
  assumes ok: "hm_ok (sn_properties s)" "hm_ok (i_properties i)" and refs: "no_ref_pointers (sn_properties s)"
    and u: "compute_property_patches env t s (i, md) = Some (Some u)"
  shows "pu_id u = i_referent i" and "pu_changed_name u = (if sn_name s = i_name i then None else Some (sn_name s))"
    and "pu_changed_class_name u = (if sn_class s = i_class i then None else Some (sn_class s))"
    and "hm_ok (pu_changed_properties u)"
    and "(case hm_get (pu_changed_properties u) k of
        None \<Rightarrow> hm_get (i_properties i) k
      | Some None \<Rightarrow> None
      | Some (Some v) \<Rightarrow> carried_over ids v (hm_get (i_properties i) k)) = updated_value env ids s (i_properties i) k"
proof -
  let ?sps = "sn_properties s" and ?ips = "i_properties i"
  obtain ch where ch: "changed_values env ?sps ?ips = Some ch"
    using u by (auto simp: compute_property_patches_def Let_def split: option.splits)
  have cls: "(case (if sn_class s = i_class i then None else Some (sn_class s)) of Some c \<Rightarrow> c | None \<Rightarrow> i_class i) = sn_class s"
    by simp
  let ?ch = "pivot_migration_change (sn_class s) ?ips (removed_values ?sps ?ips ch)"
  have all: "pu_id u = i_referent i \<and> pu_changed_name u = (if sn_name s = i_name i then None else Some (sn_name s)) \<and>
      pu_changed_class_name u = (if sn_class s = i_class i then None else Some (sn_class s)) \<and> pu_changed_properties u = ?ch"
    using u unfolding compute_property_patches_def Let_def prod.case ch no_ref_pointers_compute [OF refs] cls
    by (auto split: if_splits)
  then show "pu_id u = i_referent i" "pu_changed_name u = (if sn_name s = i_name i then None else Some (sn_name s))"
    "pu_changed_class_name u = (if sn_class s = i_class i then None else Some (sn_class s))" by blast+
  from all have props: "pu_changed_properties u = ?ch" by blast
  note left = changes_applied [OF ok ch]
  show "hm_ok (pu_changed_properties u)" unfolding props by (rule pivot_migration_ok [OF left(2)])
  show "(case hm_get (pu_changed_properties u) k of
        None \<Rightarrow> hm_get ?ips k
      | Some None \<Rightarrow> None
      | Some (Some v) \<Rightarrow> carried_over ids v (hm_get ?ips k)) = updated_value env ids s ?ips k"
    unfolding props get_pivot_migration left(1) updated_value_def
    by (cases "hm_get ?sps k"; cases "hm_get ?ips k")
      (auto simp: carried_over_def rewrite_ref_def split: variant.split)
qed

context weak_dom
begin

lemma update_effect:
  assumes inv: "tree_inv D ok t" and i: "dom_get D (rt_inner t) r = Some i" and md: "hm_get (rt_metadata_map t) r = Some md"
    and ok: "hm_ok (sn_properties s)" "hm_ok (i_properties i)"
    and refs: "no_ref_pointers (sn_properties s)" "no_ref_pointers (i_properties i)"
    and u: "compute_property_patches env t s (i, md) = Some (Some u)"
    and ps: "removed_instances ps = []" "added_instances ps = []" "updated_instances ps = rewrite_refs_in_updates ids [u]"
  shows "\<exists>ap t' i'. apply_patch_set D ps t = Some (ap, t') \<and>
    dom_get D (rt_inner t') = (dom_get D (rt_inner t))(r \<mapsto> i') \<and>
    i_name i' = sn_name s \<and> i_class i' = sn_class s \<and> i_parent i' = i_parent i \<and> i_children i' = i_children i \<and>
    (\<forall>k. hm_get (i_properties i') k = updated_value env ids s (i_properties i) k)"
proof -
  note computed = computed_update [OF ok refs(1) u]
  have r: "i_referent i = r" using dom_wfD(3) [OF tree_invD(2) [OF inv] i] .
  let ?u = "u\<lparr>pu_changed_properties := map (\<lambda>(k, v). (k, map_option (rewrite_ref ids) v)) (pu_changed_properties u)\<rparr>"
  have us: "updated_instances ps = [?u]" using ps(3) by (simp add: rewrite_refs_in_updates_def)
  define t1 where "t1 = (case pu_changed_metadata u of None \<Rightarrow> t | Some m \<Rightarrow> update_metadata t r m)"
  have t1: "tree_inv D ok t1" "rt_inner t1 = rt_inner t"
    using inv tree_inv_update_metadata [OF inv, of r] i by (auto simp: t1_def split: option.split)
  obtain m where im: "get_instance D t1 r = Some (Some (i, m))"
    using get_instance_total [OF t1(1), of r] i t1(2) by simp
  obtain properties applied where pa:
    "fold (apply_property []) (pu_changed_properties ?u) (i_properties i, []) = (properties, applied)"
    by (cases "fold (apply_property []) (pu_changed_properties ?u) (i_properties i, [])")
  have final: "hm_get properties k = updated_value env ids s (i_properties i) k" for k
  proof -
    have "pu_changed_properties ?u = map (\<lambda>(k, v). (k, map_option (rewrite_ref ids) v)) (pu_changed_properties u)" by simp
    note applied = get_applied(1) [OF pa [unfolded this], unfolded rewritten_updates_ok, OF computed(4), of k]
    have "hm_get properties k = (case hm_get (pu_changed_properties u) k of
        None \<Rightarrow> hm_get (i_properties i) k
      | Some None \<Rightarrow> None
      | Some (Some v) \<Rightarrow> carried_over ids v (hm_get (i_properties i) k))"
      using applied by (simp add: carried_over_def rewrite_ref_none split: option.split)
    then show ?thesis using computed(5) by simp
  qed
  have plain: "no_ref_pointers properties"
  proof -
    have "''Attributes'' \<noteq> NeedsPivotMigration" by (simp add: NeedsPivotMigration_def)
    then have "hm_get properties ''Attributes'' \<in> {None, hm_get (i_properties i) ''Attributes''} \<union>
        Some ` rewrite_ref ids ` set_option (hm_get (sn_properties s) ''Attributes'')"
      unfolding final updated_value_def carried_over_def by (auto split: option.split)
    then show ?thesis
      using refs unfolding no_ref_pointers_iff by (auto simp: rewritten_attributes)
  qed
  let ?f = "\<lambda>i. i\<lparr>i_name := (case pu_changed_name u of None \<Rightarrow> i_name i | Some n \<Rightarrow> n),
                       i_class := (case pu_changed_class_name u of None \<Rightarrow> i_class i | Some k \<Rightarrow> k),
                       i_properties := properties\<rparr>"
  let ?t2 = "modify_instance D t1 r ?f"
  have t2: "tree_inv D ok ?t2" by (rule tree_inv_modify_instance [OF t1(1)]) simp
  have view: "dom_get D (rt_inner ?t2) = (dom_get D (rt_inner t))(r \<mapsto> ?f i)"
    using set_law [OF tree_invD(1) [OF t1(1)], of r i "?f i"] i t1(2) by (simp add: modify_instance_def)
  obtain m' where im': "expect_instance D ?t2 r = Some (?f i, m')"
    using get_instance_total [OF t2, of r] view by (auto simp: expect_instance_def)
  have "\<exists>t3. defer_ref_properties D r (apply_context_new, ?t2) = Some (apply_context_new, t3) \<and> rt_inner t3 = rt_inner ?t2"
  proof (cases "\<exists>attrs. hm_get properties ''Attributes'' = Some (VAttributes attrs)")
    case True
    then obtain attrs where attrs: "hm_get properties ''Attributes'' = Some (VAttributes attrs)" ..
    then have "snd (fold (defer_attribute r) attrs (None, mm_new)) = mm_new"
      using plain by (intro no_pointers_deferred) (simp add: no_ref_pointers_def)
    then obtain attr_id where "fold (defer_attribute r) attrs (None, mm_new) = (attr_id, mm_new)"
      by (cases "fold (defer_attribute r) attrs (None, mm_new)") auto
    with im' attrs show ?thesis
      by (simp add: defer_ref_properties_def apply_context_new_def split: option.split)
  next
    case False
    with im' show ?thesis by (auto simp: defer_ref_properties_def split: option.splits variant.splits)
  qed
  then obtain t3 where t3: "defer_ref_properties D r (apply_context_new, ?t2) = Some (apply_context_new, t3)"
    "rt_inner t3 = rt_inner ?t2" by blast
  have "\<exists>ap. apply_patch_set D ps t = Some (ap, t3)"
    using im pa t3(1) computed(1) r
    by (simp add: apply_patch_set_def ps(1,2) us apply_update_child_def Let_def finalize_patch_application_def
        apply_context_new_def mm_new_def mm_into_iter_def flip: t1_def)
  moreover have "i_name (?f i) = sn_name s" "i_class (?f i) = sn_class s" using computed(2,3) by simp_all
  ultimately show ?thesis
    using view t3(2) final by (auto intro!: exI [of _ t3] exI [of _ "?f i"])
qed

end

text \<open>
  C2. An update carries an instance over to its snapshot.  The patch of the update of one instance,
  computed by all steps of \<open>compute_property_patches\<close>, references rewritten, and applied with
  everything that follows, leaves the instance with the snapshot's name and class, the parent and the
  children it had, and for every key the value that \<open>updated_value\<close> tells; no other instance changes.
  Neither side has pointer attributes (\<open>Rojo_Target_\<close>), which stand for further properties, and
  computing the patch does not panic.
\<close>

theorem property_changes_converge:
  assumes "weak_dom D ok" and "tree_inv D ok t" and "dom_get D (rt_inner t) r = Some i"
    and "hm_get (rt_metadata_map t) r = Some md"
    and "hm_ok (sn_properties s)" and "hm_ok (i_properties i)"
    and "no_ref_pointers (sn_properties s)" and "no_ref_pointers (i_properties i)"
    and "compute_property_patches env t s (i, md) = Some (Some u)"
    and "removed_instances ps = []" and "added_instances ps = []"
    and "updated_instances ps = rewrite_refs_in_updates ids [u]"
  shows "\<exists>ap t' i'. apply_patch_set D ps t = Some (ap, t') \<and>
    dom_get D (rt_inner t') = (dom_get D (rt_inner t))(r \<mapsto> i') \<and>
    i_name i' = sn_name s \<and> i_class i' = sn_class s \<and> i_parent i' = i_parent i \<and> i_children i' = i_children i \<and>
    (\<forall>k. hm_get (i_properties i') k = updated_value env ids s (i_properties i) k)"
  by (rule weak_dom.update_effect [OF assms])

text \<open>A model that gets another name, a changed value and one value less.\<close>

definition old_model :: "(nat ref_dom, nat) rojo_tree" where
  "old_model = the (rt_new ref_dom_ops (Snapshot NoRef metadata_new ''M'' ''Model'' [(''a'', VBool False), (''b'', VBool True)] []))"

definition new_model :: "nat instance_snapshot" where
  "new_model = Snapshot NoRef metadata_new ''N'' ''Model'' [(''a'', VBool True)] []"

definition old_model_root :: "nat inst" where
  "old_model_root = \<lparr>i_referent = Ref 0, i_parent = NoRef, i_name = ''M'', i_class = ''Model'',
     i_properties = [(''a'', VBool False), (''b'', VBool True)], i_children = []\<rparr>"

definition model_update :: "nat patch_update" where
  "model_update = \<lparr>pu_id = Ref 0, pu_changed_name = Some ''N'', pu_changed_class_name = None,
     pu_changed_properties = [(''a'', Some (VBool True)), (''b'', None), (NeedsPivotMigration, Some (VBool False))],
     pu_changed_metadata = None\<rparr>"

lemma property_changes_converge_witness:
  "\<exists>ap t' i'. apply_patch_set ref_dom_ops (patch_set_new\<lparr>updated_instances := [model_update]\<rparr>) old_model = Some (ap, t') \<and>
    dom_get ref_dom_ops (rt_inner t') (Ref 0) = Some i' \<and> i_name i' = ''N'' \<and> i_class i' = ''Model'' \<and>
    hm_get (i_properties i') ''a'' = Some (VBool True) \<and> hm_get (i_properties i') ''b'' = None \<and>
    hm_get (i_properties i') NeedsPivotMigration = Some (VBool False)"
proof -
  have inv: "tree_inv ref_dom_ops rd_ok old_model"
    using rd.rt_new_inv unfolding old_model_def by (metis option.sel)
  have root: "dom_get ref_dom_ops (rt_inner old_model) (Ref 0) = Some old_model_root"
    "hm_get (rt_metadata_map old_model) (Ref 0) = Some metadata_new"
    by code_simp+
  have u: "compute_property_patches exact_env old_model new_model (old_model_root, metadata_new) = Some (Some model_update)"
    by code_simp
  have "\<exists>ap t' i'. apply_patch_set ref_dom_ops (patch_set_new\<lparr>updated_instances := [model_update]\<rparr>) old_model = Some (ap, t') \<and>
    dom_get ref_dom_ops (rt_inner t') = (dom_get ref_dom_ops (rt_inner old_model))(Ref 0 \<mapsto> i') \<and>
    i_name i' = sn_name new_model \<and> i_class i' = sn_class new_model \<and> i_parent i' = i_parent old_model_root \<and>
    i_children i' = i_children old_model_root \<and>
    (\<forall>k. hm_get (i_properties i') k = updated_value exact_env [] new_model (i_properties old_model_root) k)"
    by (rule property_changes_converge [OF ref_dom_is_weak_dom inv root _ _ _ _ u])
      (simp_all add: new_model_def old_model_root_def model_update_def patch_set_new_def rewrite_refs_in_updates_def
        no_ref_pointers_def rewrite_ref_none)
  moreover have "updated_value exact_env [] new_model (i_properties old_model_root) ''a'' = Some (VBool True)"
    "updated_value exact_env [] new_model (i_properties old_model_root) ''b'' = None"
    "updated_value exact_env [] new_model (i_properties old_model_root) NeedsPivotMigration = Some (VBool False)"
    "sn_name new_model = ''N''" "sn_class new_model = ''Model''"
    by code_simp+
  ultimately show ?thesis by (metis fun_upd_same)
qed

text \<open>
  An update never clears a reference: when the snapshot has the null reference where the
  instance has another value, the patch lists the change, but applying it skips the key, reports
  nothing for it and leaves the old value; the next patch lists it again.
\<close>

theorem null_reference_is_never_applied:
  assumes "hm_ok sps" and "hm_get sps k = Some (VRef NoRef)" and "hm_get ips k = Some iv"
    and "variant_eq env (VRef NoRef) iv = Some False"
    and "changed_values env sps ips = Some ch"
    and "fold (apply_property ids) (removed_values sps ips ch) (ips, []) = (props, applied)"
  shows "hm_get (removed_values sps ips ch) k = Some (Some (VRef NoRef)) \<and>
    hm_get props k = Some iv \<and> hm_get applied k = None"
proof -
  have ch: "hm_get ch k = Some (Some (VRef NoRef))" and ok: "hm_ok ch"
    using get_changed_values [OF assms(5) [unfolded changed_values_def] assms(1)] assms(2,3,4) by auto
  have "k \<in> set (hm_keys sps)" using hm_value_in [OF assms(2)] by force
  then have "hm_get (removed_values sps ips ch) k = Some (Some (VRef NoRef))"
    by (simp add: get_removed_values ch)
  with get_applied [OF assms(6) removed_values_ok [OF ok], of k] assms(3) show ?thesis by simp
qed

lemma null_reference_is_never_applied_witness:
  "hm_get (fst (fold (apply_property [])
      (removed_values [(''Value'', VRef NoRef)] [(''Value'', VRef (Ref 1))]
        [(''Value'', Some (VRef NoRef :: nat variant))])
      ([(''Value'', VRef (Ref 1))], []))) ''Value'' = Some (VRef (Ref 1))"
proof -
  let ?sps = "[(''Value'', VRef NoRef :: nat variant)]"
  let ?ips = "[(''Value'', VRef (Ref 1) :: nat variant)]"
  let ?ch = "[(''Value'', Some (VRef NoRef :: nat variant))]"
  have "changed_values exact_env ?sps ?ips = Some ?ch"
    by (simp add: changed_values_def)
  moreover obtain props applied where
    fold: "fold (apply_property []) (removed_values ?sps ?ips ?ch) (?ips, []) = (props, applied)"
    by (cases "fold (apply_property []) (removed_values ?sps ?ips ?ch) (?ips, [])")
  ultimately have "hm_get props ''Value'' = Some (VRef (Ref 1))"
    using null_reference_is_never_applied
      [of ?sps "''Value''" ?ips "VRef (Ref 1)" exact_env ?ch "[]" props applied] by simp
  with fold show ?thesis by simp
qed

end
