(* ===== verification/Patch_Laws.thy ===== *)
theory Patch_Laws
  imports Patch_Apply
begin

text \<open>
  How computing and applying patches fit together: a freshly inserted snapshot needs no patch, and
  the places where the computation of \<open>patch_compute.rs\<close> and the bookkeeping of \<open>patch_apply.rs\<close>
  do not agree with the tree.
\<close>

section \<open>Snapshots that settle\<close>

text \<open>
  A snapshot the tree can hold as it is: its values compare, it does not set the pivot flag the
  tree manages for models, no attribute stands for a reference, and it has no unique id, which the tree
  would replace if it were taken.
\<close>

fun settled :: "'o variant_env \<Rightarrow> 'o instance_snapshot \<Rightarrow> bool" where
  "settled env (Snapshot s_id metadata name class_name properties children) \<longleftrightarrow>
     hm_ok properties \<and> (\<forall>v \<in> set (hm_values properties). comparable v) \<and> metadata_eq env metadata metadata \<and>
     no_ref_pointers properties \<and> (\<forall>u. hm_get properties ''UniqueId'' \<noteq> Some (VUniqueId u)) \<and>
     (class_name \<in> set model_classes \<longrightarrow> hm_get properties NeedsPivotMigration = None) \<and>
     (\<forall>c \<in> set children. settled env c)"

lemma map_of_empty_iff: "(\<forall>k. hm_get m k = None) \<longleftrightarrow> m = []"
  by (cases m) auto

lemma get_rev_ok: "hm_ok m \<Longrightarrow> hm_get (rev m) k = hm_get m k"
proof -
  assume "hm_ok m"
  then have "hm_get (rev m) k = Some v \<longleftrightarrow> hm_get m k = Some v" for v by (simp add: hm_get_eq_iff rev_map [symmetric])
  then show ?thesis by (metis option.exhaust)
qed

lemma get_builder_properties:
  assumes "hm_ok (sn_properties s)"
  shows "hm_get (b_properties (builder_of s)) k =
    (case hm_get (sn_properties s) k of Some v \<Rightarrow> Some v
     | None \<Rightarrow> if k = NeedsPivotMigration \<and> sn_class s \<in> set model_classes \<and>
           hm_get (sn_properties s) NeedsPivotMigration = None then Some (VBool False) else None)"
  using assms
  by (auto simp: builder_of_def hack_needs_pivot_migration_def hm_get_extend get_rev_ok split: option.split)

text \<open>An instance with the snapshot's fields and the properties the tree gave it needs no update.\<close>

lemma settled_needs_no_update:
  assumes ok: "hm_ok (sn_properties s)" and refl: "approx_reflexive env"
    and cmp: "\<forall>v \<in> set (hm_values (sn_properties s)). comparable v"
    and meta: "metadata_eq env (sn_metadata s) (sn_metadata s)" and refs: "no_ref_pointers (sn_properties s)"
    and pivot: "sn_class s \<in> set model_classes \<longrightarrow> hm_get (sn_properties s) NeedsPivotMigration = None"
    and i: "i_name i = sn_name s" "i_class i = sn_class s" "i_properties i = b_properties (builder_of s)"
  shows "compute_property_patches env t s (i, sn_metadata s) = Some None"
proof -
  let ?sps = "sn_properties s" and ?ips = "b_properties (builder_of s)"
  note get_ips = get_builder_properties [OF ok]
  have same: "variant_eq env v v = Some True" if "(k, v) \<in> set ?sps" for k v
    using cmp that variant_eq_self(1) [OF refl HOL.refl, of v] by force
  have "\<exists>ch. changed_values env ?sps ?ips = Some ch \<and> ch = []"
    unfolding changed_values_def
  proof (rule fold_panic_invariant)
    fix x and ch :: "(string, 'a variant option) hash_map"
    assume x: "x \<in> set ?sps" and ch: "ch = []"
    obtain k v where kv: "x = (k, v)" by (cases x)
    have "hm_get ?ips k = Some v" using x ok by (simp add: get_ips kv map_of_is_SomeI)
    with same x ch show "\<exists>ch'. (case x of (name, snapshot_value) \<Rightarrow> \<lambda>changed. case hm_get ?ips name of
         Some instance_value \<Rightarrow> (case variant_eq env snapshot_value instance_value of None \<Rightarrow> None
            | Some equal \<Rightarrow> Some (if equal then changed else hm_insert name (Some snapshot_value) changed))
       | None \<Rightarrow> Some (hm_insert name (Some snapshot_value) changed)) ch = Some ch' \<and> ch' = []"
      by (simp add: kv)
  qed simp
  then have ch: "changed_values env ?sps ?ips = Some []" by simp
  let ?left = "removed_values ?sps ?ips []"
  have key: "k \<in> set (hm_keys m) \<longleftrightarrow> hm_get m k \<noteq> None" for k and m :: "(string, 'a variant) hash_map"
    by (simp add: map_of_eq_None_iff)
  have left: "hm_get ?left k = (if k = NeedsPivotMigration \<and> sn_class s \<in> set model_classes then Some None else None)" for k
    using pivot unfolding get_removed_values key get_ips by (auto split: option.split)
  have "pivot_migration_change (sn_class s) ?ips ?left = []"
  proof (cases "sn_class s \<in> set model_classes")
    case True
    then have "hm_get ?ips NeedsPivotMigration \<noteq> None" "hm_get ?left NeedsPivotMigration = Some None"
      using pivot by (simp_all add: get_ips left)
    then have "pivot_migration_change (sn_class s) ?ips ?left = hm_remove NeedsPivotMigration ?left"
      using True by (simp add: pivot_migration_change_def)
    moreover have "hm_get (hm_remove NeedsPivotMigration ?left) k = None" for k by (simp add: left)
    ultimately show ?thesis using map_of_empty_iff by metis
  next
    case False
    then have "hm_get ?left k = None" for k by (simp add: left)
    with False show ?thesis using map_of_empty_iff by (metis pivot_migration_change_def)
  qed
  with ch show ?thesis
    by (simp add: compute_property_patches_def i meta no_ref_pointers_compute [OF refs])
qed

text \<open>The first unpaired child is the next one when everything before it is paired.\<close>

lemma find_match_next:
  "expect_instance D t c = Some (i, m) \<Longrightarrow> i_name i = name \<Longrightarrow> i_class i = class_name \<Longrightarrow>
    find_match D t name class_name (map (\<lambda>c. (c, True)) done' @ (c, False) # rest) n =
      Some (Some (n + length done', c))"
  by (induction done' arbitrary: n) simp_all

definition stays :: "'o variant_env \<Rightarrow> ('d, 'o) dom_ops \<Rightarrow> ('d, 'o) rojo_tree \<Rightarrow> referent \<Rightarrow>
    'o instance_snapshot \<Rightarrow> bool" where
  "stays env D t r s \<longleftrightarrow>
     (\<exists>i m. expect_instance D t r = Some (i, m) \<and> i_name i = sn_name s \<and> i_class i = sn_class s) \<and>
     (\<forall>ids ps. \<exists>ids'. compute_internal env D t s r (ids, ps) = Some (ids', ps))"

lemma pair_children_stays:
  "list_all2 (stays env D t) cs ss \<Longrightarrow>
    \<exists>ids'. pair_children env D t ss r (map (\<lambda>c. (c, True)) done' @ map (\<lambda>c. (c, False)) cs) (ids, ps) =
      Some (map (\<lambda>c. (c, True)) (done' @ cs), ids', ps)"
proof (induction cs ss arbitrary: done' ids rule: list_all2_induct)
  case Nil
  then show ?case by simp
next
  case (Cons c cs s ss)
  from Cons.hyps(1) obtain i m where im: "expect_instance D t c = Some (i, m)" "i_name i = sn_name s"
    "i_class i = sn_class s" by (auto simp: stays_def)
  from Cons.hyps(1) obtain ids1 where s: "compute_internal env D t s c (ids, ps) = Some (ids1, ps)"
    by (auto simp: stays_def)
  let ?pairs = "map (\<lambda>c. (c, True)) done' @ (c, False) # map (\<lambda>c. (c, False)) cs"
  have "?pairs[length done' := (c, True)] = map (\<lambda>c. (c, True)) (done' @ [c]) @ map (\<lambda>c. (c, False)) cs"
    by (simp add: list_update_append)
  then show ?case
    using Cons.IH [of "done' @ [c]" ids1] find_match_next [OF im, of done' _ 0] s by simp
qed

context weak_dom
begin

lemma shown_snapshot_stays:
  assumes inv: "tree_inv D ok t" and refl: "approx_reflexive env"
  shows "settled env s \<Longrightarrow> shows_new D t0 t r s \<Longrightarrow> stays env D t r s"
proof (induction s arbitrary: r)
  case (Snapshot s_id metadata name class_name properties children)
  let ?s = "Snapshot s_id metadata name class_name properties children"
  from Snapshot.prems(2) obtain i where i: "dom_get D (rt_inner t) r = Some i"
    "hm_get (rt_metadata_map t) r = Some metadata" "i_name i = name" "i_class i = class_name"
    "kept_properties (b_properties (builder_of ?s)) (i_properties i)"
    and cs: "list_all2 (shows_new D t0 t) (i_children i) children" by auto
  have im: "expect_instance D t r = Some (i, metadata)"
    using get_instance_total [OF inv, of r] i(1,2) by (simp add: expect_instance_def)
  have "hm_get (b_properties (builder_of ?s)) ''UniqueId'' \<noteq> Some (VUniqueId u)" for u
    using get_builder_properties [of ?s "''UniqueId''"] Snapshot.prems(1) by (auto split: option.splits)
  then have "i_properties i = b_properties (builder_of ?s)" using i(5) by (auto simp: kept_properties_def)
  then have none: "compute_property_patches env t ?s (i, metadata) = Some None"
    using settled_needs_no_update [of ?s env i t] refl Snapshot.prems(1) i(3,4) by simp
  have "list_all2 (stays env D t) (i_children i) children"
    using cs by (rule list.rel_mono_strong) (use Snapshot.IH Snapshot.prems(1) in simp)
  note pairs = pair_children_stays [OF this, where done' = "[]", simplified]
  have "\<exists>ids'. compute_internal env D t ?s r (ids, ps) = Some (ids', ps)" for ids ps
  proof -
    let ?ids = "if ref_is_some s_id then hm_insert s_id r ids else ids"
    obtain ids' where "pair_children env D t children r (map (\<lambda>c. (c, False)) (i_children i)) (?ids, ps) =
      Some (map (\<lambda>c. (c, True)) (i_children i), ids', ps)" using pairs [of r ?ids ps] by blast
    with im none show ?thesis by (simp add: Let_def filter_map comp_def)
  qed
  with im i show ?case by (auto simp: stays_def)
qed

end


section \<open>Properties\<close>

text \<open>
  C39. Syncing settles: right after a snapshot is inserted, computing the patch between the same
  snapshot and the new instance gives the empty patch, at every depth (every child is paired with
  its own instance even among namesakes).  The snapshot must be one the tree can hold as it is, in every
  node: its values and metadata compare (of a type the comparison knows, without keypoint times that are not
  numbers, approximate equality reflexive), a model class does not set \<open>NeedsPivotMigration\<close>, no attribute is a pointer
  \<open>Rojo_Target_\<close>, and there is no \<open>UniqueId\<close>.
\<close>

theorem fresh_instance_needs_no_patch:
  assumes "weak_dom D ok" and "approx_reflexive env" and "tree_inv D ok t"
    and "dom_get D (rt_inner t) p \<noteq> None" and "settled env s"
  shows "\<exists>t' r. insert_instance D t p s = Some (t', r) \<and>
    compute_patch_set env D (Some s) t' r = Some patch_set_new"
proof -
  obtain t' r where t': "insert_instance D t p s = Some (t', r)" "tree_inv D ok t'" "shows_new D t t' r s"
    using weak_dom.all_snapshots_insert [OF assms(1), of s] assms(3,4)
    unfolding weak_dom.inserts_def [OF assms(1)] by blast
  from weak_dom.shown_snapshot_stays [OF assms(1) t'(2) assms(2,5) t'(3)]
  obtain ids where "compute_internal env D t' s r ([], patch_set_new) = Some (ids, patch_set_new)"
    by (auto simp: stays_def)
  then have "compute_patch_set env D (Some s) t' r = Some patch_set_new"
    by (simp add: compute_patch_set_def patch_set_new_def rewrite_refs_in_updates_def rewrite_refs_in_additions_def)
  with t'(1) show ?thesis by blast
qed

lemma fresh_instance_needs_no_patch_witness:
  "\<exists>t t' r. rt_new ref_dom_ops (snapshot_new :: nat instance_snapshot) = Some t \<and>
    insert_instance ref_dom_ops t (get_root_id ref_dom_ops t)
      (Snapshot NoRef metadata_new ''M'' ''Model'' [(''a'', VBool True)] [snapshot_new, snapshot_new]) = Some (t', r) \<and>
    compute_patch_set exact_env ref_dom_ops
      (Some (Snapshot NoRef metadata_new ''M'' ''Model'' [(''a'', VBool True)] [snapshot_new, snapshot_new])) t' r =
      Some patch_set_new"
proof -
  obtain t where t: "rt_new ref_dom_ops (snapshot_new :: nat instance_snapshot) = Some t" "tree_inv ref_dom_ops rd_ok t"
    using rd.rt_new_inv by blast
  have root: "dom_get ref_dom_ops (rt_inner t) (get_root_id ref_dom_ops t) \<noteq> None"
    using dom_wfD(2) [OF tree_invD(2) [OF t(2)]] by (auto simp: get_root_id_def)
  have "metadata_eq (exact_env :: nat variant_env) metadata_new metadata_new"
    by (simp add: metadata_eq_def metadata_new_def context_eq_def context_new_def)
  then have "settled exact_env (Snapshot NoRef metadata_new ''M'' ''Model'' [(''a'', VBool True)]
      [snapshot_new, snapshot_new :: nat instance_snapshot])"
    by (simp add: snapshot_new_def no_ref_pointers_def NeedsPivotMigration_def)
  from fresh_instance_needs_no_patch [OF ref_dom_is_weak_dom _ t(2) root this] t(1) show ?thesis
    by (auto simp: approx_reflexive_def exact_env_def)
qed

text \<open>
  The pivot flag never settles when the snapshot sets it: for an instance of a model class that
  has the flag with the very value of the snapshot, the computed update still sets it to false, so
  a flag that is true in both is turned off.
\<close>

theorem agreed_pivot_flag_is_reset:
  assumes "sn_class s \<in> set model_classes" and "i_class i = sn_class s" and "i_name i = sn_name s"
    and "metadata_eq env (sn_metadata s) m" and "no_ref_pointers (sn_properties s)"
    and "sn_properties s = [(NeedsPivotMigration, VBool flag)]" and "i_properties i = sn_properties s"
  shows "compute_property_patches env t s (i, m) = Some (Some
    \<lparr>pu_id = i_referent i, pu_changed_name = None, pu_changed_class_name = None,
     pu_changed_properties = [(NeedsPivotMigration, Some (VBool False))], pu_changed_metadata = None\<rparr>)"
  using assms
  by (simp add: compute_property_patches_def no_ref_pointers_compute changed_values_def removed_values_def
      pivot_migration_change_def Let_def)

lemma agreed_pivot_flag_is_reset_witness:
  "\<exists>u. compute_property_patches (exact_env :: nat variant_env)
     \<lparr>rt_inner = (), rt_metadata_map = [], rt_path_to_ids = mm_new, rt_specified_id_to_refs = mm_new\<rparr>
     (Snapshot NoRef metadata_new ''M'' ''Model'' [(NeedsPivotMigration, VBool True)] [])
     (\<lparr>i_referent = Ref 1, i_parent = NoRef, i_name = ''M'', i_class = ''Model'',
       i_properties = [(NeedsPivotMigration, VBool True)], i_children = []\<rparr>, metadata_new) = Some (Some u) \<and>
     pu_changed_properties u = [(NeedsPivotMigration, Some (VBool False))]"
proof -
  have "metadata_eq (exact_env :: nat variant_env) metadata_new metadata_new"
    by (simp add: metadata_eq_def metadata_new_def context_eq_def context_new_def)
  then show ?thesis
    by (subst agreed_pivot_flag_is_reset [where flag = True])
      (simp_all add: no_ref_pointers_def NeedsPivotMigration_def model_classes_def)
qed

text \<open>
  A reference to an instance the same patch creates is recorded twice over: the tree gets the
  new instance's id, the applied patch that is sent to clients keeps the snapshot's id.
\<close>

theorem applied_reference_is_not_rewritten:
  assumes "hm_ok changes" and "hm_get changes k = Some (Some (VRef (Ref n)))" and "hm_get ids (Ref n) = Some r"
    and "fold (apply_property ids) changes (props, []) = (props', applied)"
  shows "hm_get props' k = Some (VRef r) \<and> hm_get applied k = Some (Some (VRef (Ref n)))"
  using get_applied [OF assms(4,1), of k] assms(2,3) by (simp add: rewrite_ref_def)

lemma applied_reference_is_not_rewritten_witness:
  "\<exists>props applied. fold (apply_property [(Ref 7, Ref 2)]) [(''Value'', Some (VRef (Ref 7) :: nat variant))] ([], []) =
      (props, applied) \<and>
    hm_get props ''Value'' = Some (VRef (Ref 2)) \<and> hm_get applied ''Value'' = Some (Some (VRef (Ref 7)))"
proof -
  obtain props applied where
    "fold (apply_property [(Ref 7, Ref 2)]) [(''Value'', Some (VRef (Ref 7) :: nat variant))] ([], []) = (props, applied)"
    by (cases "fold (apply_property [(Ref 7, Ref 2)]) [(''Value'', Some (VRef (Ref 7) :: nat variant))] ([], [])")
  with applied_reference_is_not_rewritten [OF _ _ _ this, of "''Value''" 7 "Ref 2"] show ?thesis by simp
qed

end
