(* ===== verification/Change_Processor.thy ===== *)
theory Change_Processor
  imports Patch_Laws Vfs Message_Queue
begin

text \<open>
  The change processor, \<open>src/src/change_processor.rs\<close>: one job thread turns file system events and
  patches from clients into patches of the tree, and pushes what was applied to the message queue.
  The middleware that takes snapshots (\<open>snapshot_from_vfs\<close>, \<open>snapshot_project_node\<close>) is a
  parameter; it may watch paths, so it returns the virtual file system too.  The requests to the
  standard file system are a list of effects: their results are only logged.
\<close>

record ('s, 'o) snapshotters =
  take_from_vfs :: "instance_context \<Rightarrow> 's vfs \<Rightarrow> path \<Rightarrow> 's vfs \<times> (string + 'o instance_snapshot option)"
  take_project_node :: "instance_context \<Rightarrow> path \<Rightarrow> string \<Rightarrow> 'o project_node \<Rightarrow> 's vfs \<Rightarrow>
    string option \<Rightarrow> 's vfs \<times> (string + 'o instance_snapshot option)"

record ('s, 'd, 'o, 'q) job_context =
  jc_tree :: "('d, 'o) rojo_tree"
  jc_vfs :: "'s vfs"
  jc_message_queue :: "('o applied_patch_set, 'q) message_queue"

definition prefix_not_found :: io_error where
  "prefix_not_found = \<lparr>ie_kind = OtherError, ie_message = ''prefix not found'', ie_path = []\<rparr>"

text \<open>The loop of \<open>canonicalize_event_path\<close>, from the path up through its ancestors.\<close>

function canonicalize_from :: "'s backend_ops \<Rightarrow> 's vfs \<Rightarrow> path \<Rightarrow> path \<Rightarrow> 's vfs \<times> path io_result" where
  "canonicalize_from ops v p ancestor =
     (case vfs_canonicalize ops v ancestor of
        (v', Inr canonical_ancestor) \<Rightarrow>
          (v', case path_strip_prefix p ancestor of
                 None \<Rightarrow> Inl prefix_not_found
               | Some missing_suffix \<Rightarrow> Inr (path_join canonical_ancestor missing_suffix))
      | (v', Inl err) \<Rightarrow>
          (if ie_kind err = NotFound
           then (case path_parent ancestor of
                   Some parent \<Rightarrow> canonicalize_from ops v' p parent
                 | None \<Rightarrow> (v', Inl err))
           else (v', Inl err)))"
  by pat_completeness auto
termination
  by (relation "measure (\<lambda>(ops, v, p, ancestor). length ancestor)") (auto dest: path_parent_length)

declare canonicalize_from.simps [simp del]

definition canonicalize_event_path :: "'s backend_ops \<Rightarrow> 's vfs \<Rightarrow> path \<Rightarrow> 's vfs \<times> path io_result" where
  "canonicalize_event_path ops v p = canonicalize_from ops v p p"

text \<open>The search of \<open>apply_patches\<close> for the nearest ancestor that has instances.\<close>

function affected_ids :: "('d, 'o) rojo_tree \<Rightarrow> path \<Rightarrow> referent list" where
  "affected_ids t p =
     (let ids = get_ids_at_path t p
      in if ids \<noteq> [] then ids
         else case path_parent p of Some parent \<Rightarrow> affected_ids t parent | None \<Rightarrow> [])"
  by pat_completeness auto
termination
  by (relation "measure (\<lambda>(t, p). length p)") (auto dest: path_parent_length)

declare affected_ids.simps [simp del]

text \<open>The new snapshot of what created an instance: an error or a missing source is not a snapshot.\<close>

definition compute_and_apply_changes :: "'o variant_env \<Rightarrow> ('d, 'o) dom_ops \<Rightarrow> 's backend_ops \<Rightarrow>
    ('s, 'o) snapshotters \<Rightarrow> referent \<Rightarrow> 's vfs \<times> ('d, 'o) rojo_tree \<Rightarrow>
    ('o applied_patch_set option \<times> 's vfs \<times> ('d, 'o) rojo_tree) option" where
  "compute_and_apply_changes env D ops S r = (\<lambda>(v, t).
     let resnapshot = (\<lambda>(v', result).
           case result of
             Inl _ \<Rightarrow> Some (None, v', t)
           | Inr snapshot \<Rightarrow>
               (case compute_patch_set env D snapshot t r of
                  None \<Rightarrow> None
                | Some ps \<Rightarrow> map_option (\<lambda>(ap, t'). (Some ap, v', t')) (apply_patch_set D ps t)))
     in case get_metadata t r of
          None \<Rightarrow> None
        | Some metadata \<Rightarrow>
            (case md_instigating_source metadata of
               None \<Rightarrow> Some (None, v, t)
             | Some (SourcePath p) \<Rightarrow>
                 (case vfs_metadata ops v p of
                    (v1, result) \<Rightarrow>
                      (case with_not_found result of
                         Inr (Some _) \<Rightarrow> resnapshot (take_from_vfs S (md_context metadata) v1 p)
                       | Inr None \<Rightarrow>
                           map_option (\<lambda>(ap, t'). (Some ap, v1, t'))
                             (apply_patch_set D (patch_set_new\<lparr>removed_instances := [r]\<rparr>) t)
                       | Inl _ \<Rightarrow> Some (None, v1, t)))
             | Some (SourceNode p name node parent_class) \<Rightarrow>
                 resnapshot (take_project_node S (md_context metadata) p name node v parent_class)))"

definition apply_patches :: "'o variant_env \<Rightarrow> ('d, 'o) dom_ops \<Rightarrow> 's backend_ops \<Rightarrow> ('s, 'o) snapshotters \<Rightarrow>
    path \<Rightarrow> 's vfs \<times> ('d, 'o) rojo_tree \<Rightarrow>
    ('o applied_patch_set list \<times> 's vfs \<times> ('d, 'o) rojo_tree) option" where
  "apply_patches env D ops S p = (\<lambda>(v, t).
     fold_panic (\<lambda>r (applied, vt).
       map_option (\<lambda>(patch, vt').
         (case patch of
            None \<Rightarrow> applied
          | Some patch \<Rightarrow> if applied_is_empty patch then applied else applied @ [patch], vt'))
         (compute_and_apply_changes env D ops S r vt)) (affected_ids t p) ([], (v, t)))"

definition event_path :: "vfs_event \<Rightarrow> path" where
  "event_path ev = (case ev of Create p \<Rightarrow> p | Write p \<Rightarrow> p | Remove p \<Rightarrow> p)"

definition handle_vfs_event :: "'o variant_env \<Rightarrow> ('d, 'o) dom_ops \<Rightarrow> 's backend_ops \<Rightarrow> ('s, 'o) snapshotters \<Rightarrow>
    u64 \<Rightarrow> vfs_event \<Rightarrow> ('s, 'd, 'o, 'q) job_context \<Rightarrow>
    (('s, 'd, 'o, 'q) job_context \<times> ('o applied_patch_set, 'q) send list) option" where
  "handle_vfs_event env D ops S now ev c =
     (case commit_event ops (jc_vfs c) ev of
        (v, Inl _) \<Rightarrow> Some (c\<lparr>jc_vfs := v\<rparr>, [])
      | (v, Inr _) \<Rightarrow>
          map_option (\<lambda>(applied, v', t').
            let (q', sends) = push_messages now applied (jc_message_queue c)
            in (c\<lparr>jc_vfs := v', jc_tree := t', jc_message_queue := q'\<rparr>, sends))
            (case canonicalize_event_path ops v (event_path ev) of
               (v1, Inr p) \<Rightarrow> apply_patches env D ops S p (v1, jc_tree c)
             | (v1, Inl _) \<Rightarrow> Some ([], v1, jc_tree c)))"


section \<open>Patches from clients\<close>

datatype file_effect = RemoveFile path | WriteFile path string

definition removal_effects :: "('d, 'o) dom_ops \<Rightarrow> ('d, 'o) rojo_tree \<Rightarrow> referent \<Rightarrow> file_effect list option" where
  "removal_effects D t r =
     map_option (\<lambda>found.
       case found of
         Some (_, metadata) \<Rightarrow>
           (case md_instigating_source metadata of Some (SourcePath p) \<Rightarrow> [RemoveFile p] | _ \<Rightarrow> [])
       | None \<Rightarrow> []) (get_instance D t r)"

text \<open>A changed \<open>Source\<close> is written when it is a string and the instance came from a path.\<close>

definition source_effects :: "'o instigating_source option \<Rightarrow> 'o variant option \<Rightarrow> file_effect list" where
  "source_effects source changed_value =
     (case source of
        Some (SourcePath p) \<Rightarrow>
          (case changed_value of Some (VString value) \<Rightarrow> [WriteFile p value] | _ \<Rightarrow> [])
      | _ \<Rightarrow> [])"

definition update_effects :: "('d, 'o) dom_ops \<Rightarrow> ('d, 'o) rojo_tree \<Rightarrow> 'o patch_update \<Rightarrow> file_effect list option" where
  "update_effects D t u =
     map_option (\<lambda>found.
       case found of
         Some (_, metadata) \<Rightarrow>
           concat (map (\<lambda>(key, changed_value).
             if key = ''Source'' then source_effects (md_instigating_source metadata) changed_value else [])
             (pu_changed_properties u))
       | None \<Rightarrow> []) (get_instance D t (pu_id u))"

definition handle_tree_event :: "('d, 'o) dom_ops \<Rightarrow> u64 \<Rightarrow> 'o patch_set \<Rightarrow> ('s, 'd, 'o, 'q) job_context \<Rightarrow>
    (('s, 'd, 'o, 'q) job_context \<times> file_effect list \<times> ('o applied_patch_set, 'q) send list) option" where
  "handle_tree_event D now ps c =
     (let t = jc_tree c
      in Option.bind (fold_panic (\<lambda>r effects. map_option (\<lambda>e. effects @ e) (removal_effects D t r))
           (removed_instances ps) []) (\<lambda>effects.
         Option.bind (fold_panic (\<lambda>u effects. map_option (\<lambda>e. effects @ e) (update_effects D t u))
           (updated_instances ps) effects) (\<lambda>effects.
         map_option (\<lambda>(ap, t').
           let (q', sends) = (if applied_is_empty ap then (jc_message_queue c, [])
                              else push_messages now [ap] (jc_message_queue c))
           in (c\<lparr>jc_tree := t', jc_message_queue := q'\<rparr>, effects, sends))
           (apply_patch_set D ps t))))"

text \<open>The loop of the job thread, over what \<open>select!\<close> receives; a closed channel ends it too.\<close>

datatype 'o job_input =
    VfsInput "vfs_event option"
  | TreeInput "'o patch_set option"
  | ShutdownInput

fun run_job :: "'o variant_env \<Rightarrow> ('d, 'o) dom_ops \<Rightarrow> 's backend_ops \<Rightarrow> ('s, 'o) snapshotters \<Rightarrow>
    (u64 \<times> 'o job_input) list \<Rightarrow> ('s, 'd, 'o, 'q) job_context \<Rightarrow> ('s, 'd, 'o, 'q) job_context option" where
  "run_job env D ops S [] c = Some c"
| "run_job env D ops S ((now, input) # inputs) c =
     (case input of
        VfsInput (Some ev) \<Rightarrow>
          Option.bind (handle_vfs_event env D ops S now ev c) (\<lambda>(c', _). run_job env D ops S inputs c')
      | TreeInput (Some ps) \<Rightarrow>
          Option.bind (handle_tree_event D now ps c) (\<lambda>(c', _, _). run_job env D ops S inputs c')
      | _ \<Rightarrow> Some c)"


section \<open>Event paths\<close>

text \<open>The longest ancestor of a path that is not reported missing decides its canonical form.\<close>

definition decides :: "'s backend_ops \<Rightarrow> 's \<Rightarrow> path \<Rightarrow> path \<Rightarrow> path io_result \<Rightarrow> bool" where
  "decides ops s p a r \<longleftrightarrow>
     path_starts_with p a \<and> r = snd (be_canonicalize ops s a) \<and>
     (\<forall>b. path_starts_with p b \<and> length a < length b \<longrightarrow>
        (\<exists>e. snd (be_canonicalize ops s b) = Inl e \<and> ie_kind e = NotFound))"

lemma canonicalize_from_decides:
  assumes be: "vfs_backend ops view"
  shows "p = ancestor @ rest \<Longrightarrow>
    (\<And>b. path_starts_with p b \<Longrightarrow> length ancestor < length b \<Longrightarrow>
      \<exists>e. snd (be_canonicalize ops (backend v) b) = Inl e \<and> ie_kind e = NotFound) \<Longrightarrow>
    fst (canonicalize_from ops v p ancestor) = v \<and>
    (\<exists>a suffix r. p = a @ suffix \<and> decides ops (backend v) p a r \<and>
      snd (canonicalize_from ops v p ancestor) = map_sum id (\<lambda>c. path_join c suffix) r \<and>
      (\<forall>e. r = Inl e \<longrightarrow> ie_kind e = NotFound \<longrightarrow> path_parent a = None))"
proof (induction "length ancestor" arbitrary: ancestor rest rule: less_induct)
  case less
  note query = vfs_backend.canonicalize_query [OF be, of v ancestor]
  let ?r = "snd (be_canonicalize ops (backend v) ancestor)"
  have here: "decides ops (backend v) p ancestor ?r"
    using less.prems by (auto simp: decides_def path_starts_with_iff)
  show ?case
  proof (cases ?r)
    case (Inr c)
    have "vfs_canonicalize ops v ancestor = (v, Inr c)" using query Inr by (simp only:)
    moreover have "path_strip_prefix p ancestor = Some rest" unfolding strip_prefix_Some_iff by (rule less.prems(1))
    ultimately have "canonicalize_from ops v p ancestor = (v, Inr (path_join c rest))"
      unfolding canonicalize_from.simps [of ops v p ancestor] by (simp only: prod.case sum.case option.case)
    then show ?thesis using here less.prems(1) Inr
      by (intro conjI exI [of _ ancestor] exI [of _ rest] exI [of _ ?r]) simp_all
  next
    case (Inl e)
    show ?thesis
    proof (cases "\<exists>parent. path_parent ancestor = Some parent \<and> ie_kind e = NotFound")
      case True
      then obtain parent where up: "path_parent ancestor = Some parent" "ie_kind e = NotFound" by blast
      have step: "canonicalize_from ops v p ancestor = canonicalize_from ops v p parent"
        using up query Inl by (simp add: canonicalize_from.simps [of ops v p ancestor])
      from path_parent_SomeD [OF up(1)] have anc: "ancestor = parent @ [last ancestor]" by simp
      then have p: "p = parent @ (last ancestor # rest)" using less.prems(1) by (metis append.assoc append_Cons append_Nil)
      have "\<exists>e. snd (be_canonicalize ops (backend v) b) = Inl e \<and> ie_kind e = NotFound"
        if b: "path_starts_with p b" "length parent < length b" for b
      proof (cases "length ancestor < length b")
        case False
        have "length b = length ancestor" using False b(2) anc by (metis Suc_leI length_append_singleton linorder_neqE_nat not_less)
        then have "b = ancestor" using b(1) less.prems(1) by (simp add: path_starts_with_def)
        with Inl up(2) show ?thesis by blast
      qed (use less.prems(2) b(1) in blast)
      from less.hyps [OF path_parent_length [OF up(1)] p this] step show ?thesis by simp
    next
      case False
      then have "canonicalize_from ops v p ancestor = (v, Inl e)"
        using query Inl by (auto simp: canonicalize_from.simps [of ops v p ancestor] split: option.split)
      moreover have "ie_kind e = NotFound \<longrightarrow> path_parent ancestor = None"
        using False by (cases "path_parent ancestor") auto
      ultimately show ?thesis using here less.prems(1) Inl
        by (intro conjI exI [of _ ancestor] exI [of _ rest] exI [of _ ?r]) simp_all
    qed
  qed
qed

text \<open>The nearest ancestor, the path itself included, that has instances.\<close>

lemma affected_ids_nearest:
  assumes "affected_ids t p \<noteq> []"
  shows "\<exists>q. path_starts_with p q \<and> affected_ids t p = get_ids_at_path t q \<and>
    (\<forall>b. path_starts_with p b \<and> length q < length b \<longrightarrow> get_ids_at_path t b = [])"
  using assms
proof (induction t p rule: affected_ids.induct)
  case (1 t p)
  show ?case
  proof (cases "get_ids_at_path t p = []")
    case False
    then have "affected_ids t p = get_ids_at_path t p" by (simp add: affected_ids.simps [of t p])
    then show ?thesis by (auto simp: path_starts_with_def intro!: exI [of _ p] dest: arg_cong [of _ _ length])
  next
    case True
    with 1(2) obtain parent where up: "path_parent p = Some parent" "affected_ids t p = affected_ids t parent"
      by (auto simp: affected_ids.simps [of t p] split: option.splits)
    from path_parent_SomeD [OF up(1)] have p: "p = parent @ [last p]" by simp
    from 1(1) [OF refl _ up(1)] True 1(2) up(2) obtain q where
      q: "path_starts_with parent q" "affected_ids t parent = get_ids_at_path t q"
        "\<And>b. path_starts_with parent b \<Longrightarrow> length q < length b \<Longrightarrow> get_ids_at_path t b = []" by auto
    have "get_ids_at_path t b = []" if b: "path_starts_with p b" "length q < length b" for b
    proof (cases "b = p")
      case False
      then have "path_starts_with parent b"
        using b(1) p by (metis append_assoc path_starts_with_iff butlast_append butlast_snoc append_Nil2)
      with q(3) b(2) show ?thesis by blast
    qed (use True in simp)
    moreover have "path_starts_with p q"
      using q(1) p by (metis append_assoc path_starts_with_iff)
    ultimately show ?thesis using q(2) up(2) by metis
  qed
qed


section \<open>Resynchronizing does not panic\<close>

lemma canonicalize_event_path_query:
  assumes "vfs_backend ops view"
  shows "fst (canonicalize_event_path ops v p) = v"
  unfolding canonicalize_event_path_def
  by (rule canonicalize_from_decides [OF assms, where rest = "[]", THEN conjunct1])
    (auto simp: path_starts_with_def)

lemma push_messages_appends: "messages (fst (push_messages now new q)) = messages q @ new"
  by (simp add: push_messages_def Let_def split: prod.split)

definition snapshots_comparable :: "('s, 'o) snapshotters \<Rightarrow> bool" where
  "snapshots_comparable S \<longleftrightarrow>
     (\<forall>ctx v p s. snd (take_from_vfs S ctx v p) = Inr (Some s) \<longrightarrow> snapshot_comparable s) \<and>
     (\<forall>ctx p name node v pc s. snd (take_project_node S ctx p name node v pc) = Inr (Some s) \<longrightarrow>
        snapshot_comparable s)"

text \<open>The file the root was created from is still there.\<close>

definition root_source_present :: "('d, 'o) dom_ops \<Rightarrow> ('s \<Rightarrow> path \<Rightarrow> node option) \<Rightarrow> 's vfs \<Rightarrow>
    ('d, 'o) rojo_tree \<Rightarrow> bool" where
  "root_source_present D view v t \<longleftrightarrow>
     (\<forall>m q. get_metadata t (get_root_id D t) = Some m \<longrightarrow> md_instigating_source m = Some (SourcePath q) \<longrightarrow>
        view (backend v) q \<noteq> None)"

context weak_dom
begin

lemma removal_patch_total:
  assumes inv: "tree_inv D ok t" and r: "alive t r" "r \<noteq> get_root_id D t"
  shows "\<exists>ap t'. apply_patch_set D (patch_set_new\<lparr>removed_instances := [r]\<rparr>) t = Some (ap, t') \<and> tree_inv D ok t'"
  using apply_patch_set_total [OF inv, of "patch_set_new\<lparr>removed_instances := [r]\<rparr>"] r
  by (auto simp: patch_set_new_def get_root_id_def)

lemma resnapshot_applies:
  assumes inv: "tree_inv D ok t" and cmp: "tree_comparable D t" and r: "alive t r"
    and s: "\<And>s. snap = Some s \<Longrightarrow> snapshot_comparable s"
  obtains ps ap t' where "compute_patch_set env D snap t r = Some ps" and "apply_patch_set D ps t = Some (ap, t')"
    and "tree_inv D ok t'"
  using resnapshot_total [OF inv cmp r s] by blast

lemma changes_total:
  assumes inv: "tree_inv D ok t" and cmp: "tree_comparable D t" and r: "alive t r"
    and S: "snapshots_comparable S" and be: "vfs_backend ops view" and root: "root_source_present D view v t"
  shows "\<exists>ap v' t'. compute_and_apply_changes env D ops S r (v, t) = Some (ap, v', t') \<and> tree_inv D ok t'"
proof -
  obtain m where m: "get_metadata t r = Some m"
    using r tree_invD(3) [OF inv, of r] by (auto simp: get_metadata_def)
  show ?thesis
  proof (cases "md_instigating_source m")
    case None
    with m inv show ?thesis by (simp add: compute_and_apply_changes_def)
  next
    case (Some source)
    show ?thesis
    proof (cases source)
      case (SourceNode p name node pc)
      obtain v' result where sn: "take_project_node S (md_context m) p name node v pc = (v', result)" by fastforce
      show ?thesis
      proof (cases result)
        case (Inr snap)
        have "snapshot_comparable s" if "snap = Some s" for s
          using S that sn Inr unfolding snapshots_comparable_def by (metis snd_conv)
        from resnapshot_applies [where env = env, OF inv cmp r this] obtain ps ap t' where
          "compute_patch_set env D snap t r = Some ps" "apply_patch_set D ps t = Some (ap, t')" "tree_inv D ok t'" .
        with m Some SourceNode sn Inr show ?thesis by (simp add: compute_and_apply_changes_def)
      qed (use m Some SourceNode sn inv in \<open>simp add: compute_and_apply_changes_def\<close>)
    next
      case (SourcePath p)
      note query = vfs_backend.metadata_query [OF be, of v p]
      show ?thesis
      proof (cases "with_not_found (snd (be_metadata ops (backend v) p))")
        case (Inl e)
        with m Some SourcePath query inv show ?thesis by (simp add: compute_and_apply_changes_def)
      next
        case found: (Inr present)
        show ?thesis
        proof (cases present)
          case None
          then have "r \<noteq> get_root_id D t"
            using root m Some SourcePath query(2) found by (auto simp: root_source_present_def)
          from removal_patch_total [OF inv r this] m Some SourcePath query(1) found None show ?thesis
            by (auto simp: compute_and_apply_changes_def)
        next
          case (Some x)
          obtain v' result where sn: "take_from_vfs S (md_context m) v p = (v', result)" by fastforce
          show ?thesis
          proof (cases result)
            case (Inr snap)
            have "snapshot_comparable s" if "snap = Some s" for s
              using S that sn Inr unfolding snapshots_comparable_def by (metis snd_conv)
            from resnapshot_applies [where env = env, OF inv cmp r this] obtain ps ap t' where
              "compute_patch_set env D snap t r = Some ps" "apply_patch_set D ps t = Some (ap, t')" "tree_inv D ok t'" .
            with m \<open>md_instigating_source m = Some source\<close> SourcePath query(1) found Some sn Inr show ?thesis
              by (simp add: compute_and_apply_changes_def)
          qed (use m \<open>md_instigating_source m = Some source\<close> SourcePath query(1) found Some sn inv
            in \<open>simp add: compute_and_apply_changes_def\<close>)
        qed
      qed
    qed
  qed
qed

lemma path_ids_alive:
  assumes "tree_inv D ok t" and "r \<in> set (get_ids_at_path t p)"
  shows "alive t r"
  using tree_inv_exact [OF assms(1)] assms(2) unfolding tree_exact_def
  by (fastforce simp: get_instance_def split: option.splits)

lemma apply_patches_total:
  assumes inv: "tree_inv D ok t" and cmp: "tree_comparable D t"
    and S: "snapshots_comparable S" and be: "vfs_backend ops view" and root: "root_source_present D view v t"
    and one: "\<And>q. length (get_ids_at_path t q) \<le> 1"
  shows "\<exists>new v' t'. apply_patches env D ops S p (v, t) = Some (new, v', t') \<and> tree_inv D ok t' \<and>
    length new \<le> 1 \<and> (\<forall>x \<in> set new. \<not> applied_is_empty x) \<and>
    (affected_ids t p = [] \<longrightarrow> t' = t \<and> new = [])"
proof (cases "affected_ids t p")
  case Nil
  with inv show ?thesis by (simp add: apply_patches_def)
next
  case (Cons r rs)
  then obtain q where "affected_ids t p = get_ids_at_path t q" using affected_ids_nearest [of t p] by auto
  with Cons one [of q] path_ids_alive [OF inv, of r q] have r: "rs = []" "alive t r" by auto
  from changes_total [OF inv cmp r(2) S be root, of env] obtain ap v' t' where
    "compute_and_apply_changes env D ops S r (v, t) = Some (ap, v', t')" "tree_inv D ok t'" by blast
  with Cons r(1) show ?thesis by (cases ap) (simp_all add: apply_patches_def)
qed

text \<open>The updates of a client: those of unknown instances are skipped.\<close>

lemma client_updates_total:
  assumes "state_ok (c, t)" and "\<And>u. u \<in> set U \<Longrightarrow> pu_changed_metadata u = None"
  shows "\<exists>c' t'. fold_panic (apply_update_child D) U (c, t) = Some (c', t') \<and> state_ok (c', t')"
  using assms
proof (induction U arbitrary: c t)
  case Nil
  then show ?case by simp
next
  case (Cons u U)
  have "\<exists>c1 t1. apply_update_child D u (c, t) = Some (c1, t1) \<and> state_ok (c1, t1)"
  proof (cases "alive t (pu_id u)")
    case True
    from apply_update_total [OF Cons.prems(1) this] show ?thesis by blast
  next
    case False
    with Cons.prems show ?thesis by (simp add: apply_update_child_def get_instance_def)
  qed
  then obtain c1 t1 where 1: "apply_update_child D u (c, t) = Some (c1, t1)" "state_ok (c1, t1)" by blast
  from Cons.IH [OF 1(2)] Cons.prems(2) 1(1) show ?case by simp
qed

lemma update_effects_total:
  assumes "tree_inv D ok t"
  shows "\<exists>es. fold_panic (\<lambda>u effects. map_option (\<lambda>e. effects @ e) (update_effects D t u)) U es0 = Some es \<and>
    (\<forall>x. x \<in> set es \<longleftrightarrow> x \<in> set es0 \<or> (\<exists>u \<in> set U. \<exists>i m p s. get_instance D t (pu_id u) = Some (Some (i, m)) \<and>
       md_instigating_source m = Some (SourcePath p) \<and>
       (''Source'', Some (VString s)) \<in> set (pu_changed_properties u) \<and> x = WriteFile p s))"
proof (induction U arbitrary: es0)
  case Nil
  then show ?case by simp
next
  case (Cons u U)
  have "\<exists>es. update_effects D t u = Some es \<and>
    (\<forall>x. x \<in> set es \<longleftrightarrow> (\<exists>i m p s. get_instance D t (pu_id u) = Some (Some (i, m)) \<and>
       md_instigating_source m = Some (SourcePath p) \<and>
       (''Source'', Some (VString s)) \<in> set (pu_changed_properties u) \<and> x = WriteFile p s))"
  proof (cases "get_instance D t (pu_id u)")
    case None
    with get_instance_total [OF assms, of "pu_id u"] show ?thesis by simp
  next
    case (Some found)
    show ?thesis
    proof (cases found)
      case None
      with Some show ?thesis by (simp add: update_effects_def)
    next
      case (Some im)
      obtain i m where im: "im = (i, m)" by fastforce
      have "update_effects D t u = Some (concat (map (\<lambda>(key, changed_value).
          if key = ''Source'' then source_effects (md_instigating_source m) changed_value else [])
          (pu_changed_properties u)))"
        using \<open>get_instance D t (pu_id u) = Some found\<close> Some im by (simp add: update_effects_def)
      moreover have "x \<in> set (source_effects (md_instigating_source m) v) \<longleftrightarrow>
          (\<exists>p s. md_instigating_source m = Some (SourcePath p) \<and> v = Some (VString s) \<and> x = WriteFile p s)" for x v
        by (auto simp: source_effects_def split: option.splits instigating_source.splits variant.splits)
      ultimately show ?thesis
        using \<open>get_instance D t (pu_id u) = Some found\<close> Some im by (auto split: if_splits)
    qed
  qed
  then obtain es1 where 1: "update_effects D t u = Some es1"
    "\<And>x. x \<in> set es1 \<longleftrightarrow> (\<exists>i m p s. get_instance D t (pu_id u) = Some (Some (i, m)) \<and>
       md_instigating_source m = Some (SourcePath p) \<and>
       (''Source'', Some (VString s)) \<in> set (pu_changed_properties u) \<and> x = WriteFile p s)" by blast
  from Cons.IH [of "es0 @ es1"] 1 show ?case by (auto simp: ex_disj_distrib)
qed

end


section \<open>Properties\<close>

text \<open>A tree with one instance, for the witnesses.\<close>

lemma single_instance_tree:
  assumes "md_specified_id m = None" and "md_relevant_paths m = []"
  obtains t where "rt_new ref_dom_ops (Snapshot NoRef m ''a'' ''b'' [] [] :: nat instance_snapshot) = Some t"
    and "tree_inv ref_dom_ops rd_ok t" and "tree_comparable ref_dom_ops t"
    and "get_metadata t (get_root_id ref_dom_ops t) = Some m"
    and "rt_path_to_ids t = mm_new"
proof -
  let ?s = "Snapshot NoRef m ''a'' ''b'' [] [] :: nat instance_snapshot"
  obtain t where t: "rt_new ref_dom_ops ?s = Some t" "tree_inv ref_dom_ops rd_ok t"
    using rd.rt_new_inv by blast
  have "rd_get (rt_inner t) = (\<lambda>x. if x = Ref 0 then
      Some (built \<lparr>b_class = ''b'', b_name = ''a'', b_properties = []\<rparr> (Ref 0) NoRef) else None)"
    using t(1) assms by (auto simp: rt_new_def ref_dom_ops_def rd_new_def rd_get_def insert_metadata_def Let_def fun_eq_iff)
  then have "tree_comparable ref_dom_ops t"
    by (auto simp: tree_comparable_def ref_dom_ops_def built_def)
  moreover have "get_metadata t (get_root_id ref_dom_ops t) = Some m"
    using t(1) assms by (auto simp: rt_new_def ref_dom_ops_def rd_new_def insert_metadata_def Let_def get_metadata_def get_root_id_def)
  moreover have "rt_path_to_ids t = mm_new"
    using t(1) assms by (auto simp: rt_new_def ref_dom_ops_def rd_new_def insert_metadata_def Let_def)
  ultimately show ?thesis using that t by blast
qed

definition sample_snapshotters :: "('s, nat) snapshotters" where
  "sample_snapshotters = \<lparr>take_from_vfs = \<lambda>_ v _. (v, Inr None),
     take_project_node = \<lambda>_ _ _ _ v _. (v, Inl ''error'')\<rparr>"

text \<open>
  C26. A file system event is mapped to the tree's paths by its longest ancestor that still exists:
  the result is that ancestor's canonical form with the missing rest appended, every longer ancestor
  being reported missing.  It fails only when an ancestor fails with another error or none exists.
\<close>

theorem event_paths_keep_missing_suffix:
  assumes "vfs_backend ops view"
  shows "fst (canonicalize_event_path ops v p) = v \<and>
    (\<exists>a suffix r. p = a @ suffix \<and> decides ops (backend v) p a r \<and>
      snd (canonicalize_event_path ops v p) = map_sum id (\<lambda>c. path_join c suffix) r \<and>
      (\<forall>e. r = Inl e \<longrightarrow> ie_kind e = NotFound \<longrightarrow> path_parent a = None))"
  unfolding canonicalize_event_path_def
  by (rule canonicalize_from_decides [OF assms, where rest = "[]"])
    (auto simp: path_starts_with_def)

lemma event_paths_keep_missing_suffix_witness:
  "\<exists>a suffix r. [RootDir, Normal ''out'', Normal ''f''] = a @ suffix \<and>
    decides in_memory_backend im_new [RootDir, Normal ''out'', Normal ''f''] a r"
  using event_paths_keep_missing_suffix [OF imfs.vfs_backend_axioms, of "vfs_new im_new" "[RootDir, Normal ''out'', Normal ''f'']"]
  by (auto simp: vfs_new_def)



text \<open>
  A write request of a client (which only changes names, classes and properties) never panics,
  whatever instances and values it names, keeps the tree well formed and the virtual file system
  untouched.  It writes exactly the string values for \<open>Source\<close> of instances that came from a path,
  to that path, and removes no file.
\<close>

theorem client_writes_never_panic:
  assumes "weak_dom D ok" and "tree_inv D ok (jc_tree c)"
    and "removed_instances ps = []" and "added_instances ps = []"
    and "\<And>u. u \<in> set (updated_instances ps) \<Longrightarrow> pu_changed_metadata u = None"
  shows "\<exists>c' effects sends. handle_tree_event D now ps c = Some (c', effects, sends) \<and>
    tree_inv D ok (jc_tree c') \<and> jc_vfs c' = jc_vfs c \<and>
    (\<forall>x. x \<in> set effects \<longleftrightarrow> (\<exists>u \<in> set (updated_instances ps). \<exists>i m p s.
       get_instance D (jc_tree c) (pu_id u) = Some (Some (i, m)) \<and>
       md_instigating_source m = Some (SourcePath p) \<and>
       (''Source'', Some (VString s)) \<in> set (pu_changed_properties u) \<and> x = WriteFile p s))"
proof -
  let ?t = "jc_tree c"
  obtain es where es: "fold_panic (\<lambda>u effects. map_option (\<lambda>e. effects @ e) (update_effects D ?t u))
      (updated_instances ps) [] = Some es"
    "\<And>x. x \<in> set es \<longleftrightarrow> (\<exists>u \<in> set (updated_instances ps). \<exists>i m p s.
       get_instance D ?t (pu_id u) = Some (Some (i, m)) \<and> md_instigating_source m = Some (SourcePath p) \<and>
       (''Source'', Some (VString s)) \<in> set (pu_changed_properties u) \<and> x = WriteFile p s)"
    using weak_dom.update_effects_total [OF assms(1,2), of "updated_instances ps" "[]"] by auto
  have "weak_dom.state_ok D ok (apply_context_new, ?t)"
    using assms(2) by (simp add: weak_dom.state_ok_def [OF assms(1)] revisited_def apply_context_new_def mm_new_def)
  from weak_dom.client_updates_total [OF assms(1) this assms(5)] obtain c1 t1 where
    1: "fold_panic (apply_update_child D) (updated_instances ps) (apply_context_new, ?t) = Some (c1, t1)"
    "weak_dom.state_ok D ok (c1, t1)" by blast
  obtain t' where t': "finalize_patch_application D (c1, t1) = Some (pc_applied c1, t')" "tree_inv D ok t'"
    using weak_dom.finalize_total [OF assms(1) 1(2)] by blast
  have "apply_patch_set D ps ?t = Some (pc_applied c1, t')"
    using assms(3,4) 1(1) t'(1) by (simp add: apply_patch_set_def)
  with es(1) assms(3) have "\<exists>c' sends. handle_tree_event D now ps c = Some (c', es, sends) \<and>
      jc_tree c' = t' \<and> jc_vfs c' = jc_vfs c"
    by (auto simp: handle_tree_event_def Let_def split: prod.split if_splits)
  then obtain c' sends where "handle_tree_event D now ps c = Some (c', es, sends)" "jc_tree c' = t'"
    "jc_vfs c' = jc_vfs c" by blast
  with t'(2) es(2) show ?thesis by (intro exI [of _ c'] exI [of _ es] exI [of _ sends]) simp
qed

lemma client_writes_never_panic_witness:
  "\<exists>t c' effects sends. rt_new ref_dom_ops (Snapshot NoRef metadata_new ''a'' ''b'' [] [] :: nat instance_snapshot) = Some t \<and>
    handle_tree_event ref_dom_ops 7 \<lparr>removed_instances = [], added_instances = [], updated_instances =
        [\<lparr>pu_id = Ref 9, pu_changed_name = None, pu_changed_class_name = None,
          pu_changed_properties = [(''Source'', Some (VString ''x''))], pu_changed_metadata = None\<rparr>]\<rparr>
      \<lparr>jc_tree = t, jc_vfs = vfs_new im_new, jc_message_queue = (mq_new :: (nat applied_patch_set, nat) message_queue)\<rparr> =
      Some (c', effects, sends) \<and> tree_inv ref_dom_ops rd_ok (jc_tree c')"
proof -
  obtain t where t: "rt_new ref_dom_ops (Snapshot NoRef metadata_new ''a'' ''b'' [] [] :: nat instance_snapshot) = Some t"
    "tree_inv ref_dom_ops rd_ok t"
    by (rule single_instance_tree [of metadata_new]) (simp_all add: metadata_new_def)
  let ?c = "\<lparr>jc_tree = t, jc_vfs = vfs_new im_new, jc_message_queue = (mq_new :: (nat applied_patch_set, nat) message_queue)\<rparr>"
  let ?ps = "\<lparr>removed_instances = [], added_instances = [], updated_instances =
        [\<lparr>pu_id = Ref 9, pu_changed_name = None, pu_changed_class_name = None,
          pu_changed_properties = [(''Source'', Some (VString ''x''))], pu_changed_metadata = None\<rparr>]\<rparr> :: nat patch_set"
  have "tree_inv ref_dom_ops rd_ok (jc_tree ?c)" using t(2) by simp
  from client_writes_never_panic [OF ref_dom_is_weak_dom this, of ?ps 7]
  obtain c' effects sends where "handle_tree_event ref_dom_ops 7 ?ps ?c = Some (c', effects, sends)"
    "tree_inv ref_dom_ops rd_ok (jc_tree c')" by auto
  with t(1) show ?thesis by blast
qed

text \<open>
  Deleting the file the root instance came from removes the root itself: the tree is left
  without a root, although the patch computation refuses to remove it.
\<close>

theorem deleted_root_source_removes_root:
  assumes "weak_dom D ok" and "vfs_backend ops view" and "tree_inv D ok t"
    and "get_metadata t (get_root_id D t) = Some m" and "md_instigating_source m = Some (SourcePath q)"
    and "view (backend v) q = None"
  shows "compute_patch_set env D None t (get_root_id D t) = Some patch_set_new \<and>
    (\<exists>ap v' t'. compute_and_apply_changes env D ops S (get_root_id D t) (v, t) = Some (Some ap, v', t') \<and>
       ap_removed ap = [get_root_id D t] \<and> rt_root D t' = None)"
proof -
  let ?r = "get_root_id D t"
  note query = vfs_backend.metadata_query [OF assms(2), of v q]
  have "dom_get D (rt_inner t) ?r \<noteq> None"
    using dom_wfD(2) [OF tree_invD(2) [OF assms(3)]] by (auto simp: get_root_id_def)
  from weak_dom.removal_effect [OF assms(1,3) this] obtain t' where
    t': "rt_remove D t ?r = Some t'" "rt_root D t' = None" by blast
  have "with_not_found (snd (be_metadata ops (backend v) q)) = Inr None" using query(2) assms(6) by blast
  moreover have "apply_patch_set D (patch_set_new\<lparr>removed_instances := [?r]\<rparr>) t =
      Some (applied_new\<lparr>ap_removed := [?r]\<rparr>, t')"
    using t'(1) by (simp add: apply_patch_set_def patch_set_new_def apply_remove_instance_def apply_context_new_def
        finalize_patch_application_def applied_new_def mm_into_iter_def mm_new_def)
  ultimately have "compute_and_apply_changes env D ops S ?r (v, t) =
      Some (Some (applied_new\<lparr>ap_removed := [?r]\<rparr>), v, t')"
    using assms(4,5) query(1) by (simp add: compute_and_apply_changes_def)
  then show ?thesis using t'(2) by (simp add: compute_patch_set_def)
qed

lemma deleted_root_source_removes_root_witness:
  "\<exists>t ap v' t'. rt_new ref_dom_ops (Snapshot NoRef (metadata_new\<lparr>md_instigating_source := Some (SourcePath [RootDir, Normal ''p''])\<rparr>)
        ''a'' ''b'' [] [] :: nat instance_snapshot) = Some t \<and>
    compute_and_apply_changes exact_env ref_dom_ops in_memory_backend sample_snapshotters (get_root_id ref_dom_ops t)
      (vfs_new im_new, t) = Some (ap, v', t') \<and> rt_root ref_dom_ops t' = None"
proof -
  let ?m = "metadata_new\<lparr>md_instigating_source := Some (SourcePath [RootDir, Normal ''p''])\<rparr> :: nat instance_metadata"
  obtain t where t: "rt_new ref_dom_ops (Snapshot NoRef ?m ''a'' ''b'' [] [] :: nat instance_snapshot) = Some t"
    "tree_inv ref_dom_ops rd_ok t" "get_metadata t (get_root_id ref_dom_ops t) = Some ?m"
    by (rule single_instance_tree [of ?m]) (simp_all add: metadata_new_def)
  have "im_view (backend (vfs_new im_new)) [RootDir, Normal ''p''] = None"
    by (simp add: im_view_def vfs_new_def im_new_def)
  from deleted_root_source_removes_root [OF ref_dom_is_weak_dom imfs.vfs_backend_axioms t(2,3) _ this,
      of exact_env sample_snapshotters] t(1)
  show ?thesis by (auto intro!: exI [of _ t])
qed

end
