(* ===== verification/Ip_Address.thy ===== *)
theory Ip_Address
  imports Prelude
begin

text \<open>
  \<open>std::net::IpAddr\<close> as far as the server uses it: an IPv4 address is its four octets, an IPv6
  address its eight 16-bit segments, and \<open>str::parse\<close> is the parser of the standard library,
  function by function.  A parser takes the text to read and returns its value and what is left;
  one that fails has consumed nothing.
\<close>

type_synonym u8 = "8 word"

datatype ip_addr = V4 "u8 list" | V6 "u16 list"

definition is_loopback :: "ip_addr \<Rightarrow> bool" where
  "is_loopback ip = (case ip of V4 os \<Rightarrow> os \<noteq> [] \<and> hd os = 127 | V6 segs \<Rightarrow> segs = [0, 0, 0, 0, 0, 0, 0, 1])"

definition is_unspecified :: "ip_addr \<Rightarrow> bool" where
  "is_unspecified ip = (case ip of V4 os \<Rightarrow> os = [0, 0, 0, 0] | V6 segs \<Rightarrow> segs = [0, 0, 0, 0, 0, 0, 0, 0])"

definition v4_is_private :: "u8 list \<Rightarrow> bool" where
  "v4_is_private os \<longleftrightarrow>
     (case os of
        a # b # _ \<Rightarrow> a = 10 \<or> a = 172 \<and> 16 \<le> b \<and> b \<le> 31 \<or> a = 192 \<and> b = 168
      | _ \<Rightarrow> False)"

definition v4_is_link_local :: "u8 list \<Rightarrow> bool" where
  "v4_is_link_local os \<longleftrightarrow> (case os of a # b # _ \<Rightarrow> a = 169 \<and> b = 254 | _ \<Rightarrow> False)"

definition hi_byte :: "u16 \<Rightarrow> u8" where "hi_byte w = ucast (drop_bit 8 w)"
definition lo_byte :: "u16 \<Rightarrow> u8" where "lo_byte w = ucast w"
definition from_be_bytes :: "u8 \<Rightarrow> u8 \<Rightarrow> u16" where "from_be_bytes a b = push_bit 8 (ucast a) OR ucast b"

definition to_ipv4_mapped :: "u16 list \<Rightarrow> u8 list option" where
  "to_ipv4_mapped segs =
     (if length segs = 8 \<and> take 6 segs = [0, 0, 0, 0, 0, 0xffff]
      then Some [hi_byte (segs ! 6), lo_byte (segs ! 6), hi_byte (segs ! 7), lo_byte (segs ! 7)]
      else None)"

text \<open>Well-formed addresses have four octets or eight segments.\<close>

definition ip_ok :: "ip_addr \<Rightarrow> bool" where
  "ip_ok ip = (case ip of V4 os \<Rightarrow> length os = 4 | V6 segs \<Rightarrow> length segs = 8)"


section \<open>Parsing\<close>

definition to_digit :: "nat \<Rightarrow> char \<Rightarrow> nat option" where
  "to_digit radix c =
     (let d = (if in_range 48 57 c then Some (byte c - 48)
               else if in_range 97 122 c then Some (byte c - 87)
               else if in_range 65 90 c then Some (byte c - 55) else None)
      in case d of Some n \<Rightarrow> if n < radix then Some n else None | None \<Rightarrow> None)"

text \<open>The digit loop of \<open>read_number\<close>: value, number of digits and rest; too many digits fail.\<close>

fun read_digits :: "nat \<Rightarrow> nat \<Rightarrow> nat \<Rightarrow> nat \<Rightarrow> string \<Rightarrow> (nat \<times> nat \<times> string) option" where
  "read_digits radix max_digits acc digit_count [] = Some (acc, digit_count, [])"
| "read_digits radix max_digits acc digit_count (c # cs) =
     (case to_digit radix c of
        None \<Rightarrow> Some (acc, digit_count, c # cs)
      | Some d \<Rightarrow>
          (if Suc digit_count > max_digits then None
           else read_digits radix max_digits (acc * radix + d) (Suc digit_count) cs))"

definition read_number :: "nat \<Rightarrow> nat \<Rightarrow> bool \<Rightarrow> nat \<Rightarrow> string \<Rightarrow> (nat \<times> string) option" where
  "read_number radix max_digits allow_zero_prefix bound s =
     (case read_digits radix max_digits 0 0 s of
        None \<Rightarrow> None
      | Some (n, digit_count, rest) \<Rightarrow>
          (if digit_count = 0 then None
           else if \<not> allow_zero_prefix \<and> hd s = CHR ''0'' \<and> digit_count > 1 then None
           else if n < bound then Some (n, rest) else None))"

definition read_separator :: "char \<Rightarrow> nat \<Rightarrow> (string \<Rightarrow> ('a \<times> string) option) \<Rightarrow> string \<Rightarrow> ('a \<times> string) option" where
  "read_separator sep idx inner s =
     (if idx = 0 then inner s
      else case s of c # cs \<Rightarrow> if c = sep then inner cs else None | [] \<Rightarrow> None)"

fun read_octets :: "nat \<Rightarrow> nat \<Rightarrow> string \<Rightarrow> (u8 list \<times> string) option" where
  "read_octets 0 i s = Some ([], s)"
| "read_octets (Suc n) i s =
     (case read_separator CHR ''.'' i (read_number 10 3 False 256) s of
        None \<Rightarrow> None
      | Some (o', rest) \<Rightarrow> map_option (\<lambda>(os, rest'). (word_of_nat o' # os, rest')) (read_octets n (Suc i) rest))"

definition read_ipv4_addr :: "string \<Rightarrow> (u8 list \<times> string) option" where
  "read_ipv4_addr = read_octets 4 0"

text \<open>\<open>read_groups\<close> for at most \<open>limit\<close> groups: the groups, whether an IPv4 tail was read, the rest.\<close>

fun read_groups :: "nat \<Rightarrow> nat \<Rightarrow> string \<Rightarrow> u16 list \<times> bool \<times> string" where
  "read_groups 0 i s = ([], False, s)"
| "read_groups (Suc n) i s =
     (case (if 0 < n then read_separator CHR '':'' i read_ipv4_addr s else None) of
        Some (os, rest) \<Rightarrow> ([from_be_bytes (os ! 0) (os ! 1), from_be_bytes (os ! 2) (os ! 3)], True, rest)
      | None \<Rightarrow>
          (case read_separator CHR '':'' i (read_number 16 4 True 65536) s of
             None \<Rightarrow> ([], False, s)
           | Some (g, rest) \<Rightarrow>
               (case read_groups n (Suc i) rest of
                  (gs, v4, rest') \<Rightarrow> (word_of_nat g # gs, v4, rest'))))"

definition read_ipv6_addr :: "string \<Rightarrow> (u16 list \<times> string) option" where
  "read_ipv6_addr s =
     (case read_groups 8 0 s of
        (head, head_ipv4, rest) \<Rightarrow>
          (if length head = 8 then Some (head, rest)
           else if head_ipv4 then None
           else case rest of
             a # b # rest' \<Rightarrow>
               (if a = CHR '':'' \<and> b = CHR '':''
                then (case read_groups (8 - (length head + 1)) 0 rest' of
                  (tail, _, rest'') \<Rightarrow>
                    Some (head @ replicate (8 - length head - length tail) 0 @ tail, rest''))
                else None)
           | _ \<Rightarrow> None))"

definition read_ip_addr :: "string \<Rightarrow> (ip_addr \<times> string) option" where
  "read_ip_addr s =
     (case read_ipv4_addr s of
        Some (os, rest) \<Rightarrow> Some (V4 os, rest)
      | None \<Rightarrow> map_option (\<lambda>(segs, rest). (V6 segs, rest)) (read_ipv6_addr s))"

definition parse_ip_addr :: "string \<Rightarrow> ip_addr option" where
  "parse_ip_addr s = (case read_ip_addr s of Some (ip, []) \<Rightarrow> Some ip | _ \<Rightarrow> None)"


section \<open>Parsed addresses are well formed\<close>

lemma read_octets_length: "read_octets n i s = Some (os, rest) \<Longrightarrow> length os = n"
  by (induction n i s arbitrary: os rest rule: read_octets.induct) (auto split: option.splits)

lemma read_groups_length: "read_groups n i s = (gs, v4, rest) \<Longrightarrow> length gs \<le> n"
proof (induction n i s arbitrary: gs v4 rest rule: read_groups.induct)
  case (2 n i s)
  then show ?case
    by (auto split: option.splits prod.splits if_splits)
qed simp

lemma read_ipv6_length: "read_ipv6_addr s = Some (segs, rest) \<Longrightarrow> length segs = 8"
proof -
  assume r: "read_ipv6_addr s = Some (segs, rest)"
  obtain head v4 rest1 where h: "read_groups 8 0 s = (head, v4, rest1)" by (cases "read_groups 8 0 s")
  have "length head \<le> 8" by (rule read_groups_length [OF h])
  with r h show ?thesis
    by (auto simp: read_ipv6_addr_def split: if_splits list.splits prod.splits dest!: read_groups_length)
qed

lemma parse_ip_addr_ok: "parse_ip_addr s = Some ip \<Longrightarrow> ip_ok ip"
  by (auto simp: parse_ip_addr_def read_ip_addr_def read_ipv4_addr_def ip_ok_def
      split: option.splits list.splits prod.splits dest: read_octets_length read_ipv6_length)

end
