(* ===== verification/Web_Origin.thy ===== *)
theory Web_Origin
  imports Ip_Address
begin

text \<open>
  The host and origin validation of the web server, \<open>src/src/web/origin.rs\<close>.  The parsers of the
  \<open>http\<close> crate are a record of functions: \<open>HeaderValue::to_str\<close>, \<open>Authority\<close> and \<open>Uri\<close> from a
  string.  The headers of a request are the values of \<open>Host\<close> and \<open>Origin\<close> in order; \<open>get\<close> takes the first.
\<close>

record authority =
  au_str :: string
  au_host :: string
  au_port :: "u16 option"

record uri =
  uri_authority :: "authority option"
  uri_host :: "string option"
  uri_port :: "u16 option"

record http_env =
  header_to_str :: "string \<Rightarrow> string option"
  parse_authority_str :: "string \<Rightarrow> authority option"
  parse_uri :: "string \<Rightarrow> uri option"

record request_headers =
  rh_host :: "string list"
  rh_origin :: "string list"

record http_response =
  status :: nat
  content_type :: string
  body :: string

record allowed_hosts_rec =
  ah_port :: u16
  ah_bind_ip :: "ip_addr option"
  ah_extra_hosts :: "string list"

definition normalize_host :: "string \<Rightarrow> string" where
  "normalize_host host =
     (let inner = (case str_strip_prefix host ''['' of
            None \<Rightarrow> host
          | Some h \<Rightarrow> (case str_strip_suffix h '']'' of None \<Rightarrow> host | Some h' \<Rightarrow> h'))
      in hd (split_on CHR ''%'' inner))"

definition canonical :: "ip_addr \<Rightarrow> ip_addr" where
  "canonical ip =
     (case ip of
        V6 v6 \<Rightarrow> (case to_ipv4_mapped v6 of Some v4 \<Rightarrow> V4 v4 | None \<Rightarrow> ip)
      | V4 _ \<Rightarrow> ip)"

definition is_private_bind :: "ip_addr \<Rightarrow> bool" where
  "is_private_bind ip =
     (case canonical ip of
        V4 v4 \<Rightarrow> v4_is_private v4 \<or> v4_is_link_local v4
      | V6 v6 \<Rightarrow> (let first = v6 ! 0 in first AND 0xfe00 = 0xfc00 \<or> first AND 0xffc0 = 0xfe80))"

definition allows_extra :: "allowed_hosts_rec \<Rightarrow> string \<Rightarrow> bool" where
  "allows_extra a host =
     (let host_ip = map_option canonical (parse_ip_addr host)
      in list_ex (\<lambda>allowed.
           case (host_ip, map_option canonical (parse_ip_addr allowed)) of
             (Some host_ip, Some allowed_ip) \<Rightarrow> host_ip = allowed_ip
           | _ \<Rightarrow> eq_ignore_ascii_case host allowed) (ah_extra_hosts a))"

definition allows :: "allowed_hosts_rec \<Rightarrow> string \<Rightarrow> u16 option \<Rightarrow> bool" where
  "allows a host port =
     (let host = normalize_host host;
          host_ok = (eq_ignore_ascii_case host ''localhost'' \<or>
            (case map_option canonical (parse_ip_addr host) of
               None \<Rightarrow> False
             | Some ip \<Rightarrow> is_loopback ip \<or> ah_bind_ip a = Some ip) \<or>
            allows_extra a host)
      in host_ok \<and> (case port of None \<Rightarrow> True | Some p \<Rightarrow> p = ah_port a))"

definition allowed_hosts :: "ip_addr \<Rightarrow> u16 \<Rightarrow> string list \<Rightarrow> allowed_hosts_rec option" where
  "allowed_hosts addr port extra =
     (let extra_hosts = filter (\<lambda>host. host \<noteq> []) (map (\<lambda>host. normalize_host (trim host)) extra)
      in if is_loopback addr
         then Some \<lparr>ah_port = port, ah_bind_ip = None, ah_extra_hosts = extra_hosts\<rparr>
         else if is_private_bind addr
         then Some \<lparr>ah_port = port, ah_bind_ip = Some (canonical addr), ah_extra_hosts = extra_hosts\<rparr>
         else if extra_hosts \<noteq> []
         then Some \<lparr>ah_port = port,
           ah_bind_ip = (if \<not> is_unspecified addr then Some (canonical addr) else None),
           ah_extra_hosts = extra_hosts\<rparr>
         else None)"

definition reject_userinfo :: "authority \<Rightarrow> unit option" where
  "reject_userinfo a = (if CHR ''@'' \<in> set (au_str a) then None else Some ())"

definition parse_authority :: "http_env \<Rightarrow> string \<Rightarrow> (string \<times> u16 option) option" where
  "parse_authority h v =
     do { a \<leftarrow> parse_authority_str h v;
          _ \<leftarrow> reject_userinfo a;
          Some (au_host a, au_port a) }"

definition parse_origin :: "http_env \<Rightarrow> string \<Rightarrow> (string \<times> u16 option) option" where
  "parse_origin h v =
     do { u \<leftarrow> parse_uri h v;
          a \<leftarrow> uri_authority u;
          _ \<leftarrow> reject_userinfo a;
          host \<leftarrow> uri_host u;
          Some (host, uri_port u) }"

definition first :: "'a list \<Rightarrow> 'a option" where
  "first xs = (case xs of x # _ \<Rightarrow> Some x | [] \<Rightarrow> None)"

definition reject :: http_response where
  "reject = \<lparr>status = 404, content_type = ''text/plain'', body = ''Not Found''\<rparr>"

definition check_request_origin :: "http_env \<Rightarrow> request_headers \<Rightarrow> allowed_hosts_rec option \<Rightarrow> http_response option" where
  "check_request_origin h rq allowed =
     (case allowed of
        None \<Rightarrow> None
      | Some allowed \<Rightarrow>
          (let host_ok = (case do { v \<leftarrow> first (rh_host rq); s \<leftarrow> header_to_str h v; parse_authority h s } of
                 None \<Rightarrow> False
               | Some (host, port) \<Rightarrow> allows allowed host port)
           in if \<not> host_ok then Some reject
              else case first (rh_origin rq) of
                Some origin \<Rightarrow>
                  (let origin_ok = (case do { s \<leftarrow> header_to_str h origin; parse_origin h s } of
                         None \<Rightarrow> False
                       | Some (host, port) \<Rightarrow> allows allowed host port)
                   in if \<not> origin_ok then Some reject else None)
              | None \<Rightarrow> None))"


section \<open>Properties\<close>

text \<open>The hosts a server bound to an address answers to, when no extra hosts are listed.\<close>

definition names_server :: "ip_addr \<Rightarrow> string \<Rightarrow> bool" where
  "names_server addr host \<longleftrightarrow>
     eq_ignore_ascii_case (normalize_host host) ''localhost'' \<or>
     (case parse_ip_addr (normalize_host host) of
        None \<Rightarrow> False
      | Some ip \<Rightarrow> is_loopback (canonical ip) \<or> canonical ip = canonical addr)"

lemma allows_names_server:
  assumes "allowed_hosts addr port [] = Some a"
  shows "allows a host p \<Longrightarrow> names_server addr host"
    and "p = None \<or> p = Some port \<Longrightarrow> eq_ignore_ascii_case (normalize_host host) ''localhost'' \<Longrightarrow> allows a host p"
  using assms
  by (auto simp: allowed_hosts_def allows_def allows_extra_def names_server_def Let_def split: if_splits option.splits)

text \<open>The hosts it answers to with extra hosts listed: also these, as the same address or the same name.\<close>

definition listed_host :: "string list \<Rightarrow> string \<Rightarrow> bool" where
  "listed_host extra host \<longleftrightarrow>
     (\<exists>entry \<in> set extra. normalize_host (trim entry) \<noteq> [] \<and>
        (case (parse_ip_addr (normalize_host host), parse_ip_addr (normalize_host (trim entry))) of
           (Some ip, Some ip') \<Rightarrow> canonical ip = canonical ip'
         | _ \<Rightarrow> eq_ignore_ascii_case (normalize_host host) (normalize_host (trim entry))))"

lemma allows_trusted:
  assumes "allowed_hosts addr port extra = Some a" and "allows a host p"
  shows "names_server addr host \<or> listed_host extra host" and "p = None \<or> p = Some port"
proof -
  have a: "ah_extra_hosts a = filter (\<lambda>host. host \<noteq> []) (map (\<lambda>host. normalize_host (trim host)) extra)" "ah_port a = port"
    "ah_bind_ip a = None \<or> ah_bind_ip a = Some (canonical addr)"
    using assms(1) by (auto simp: allowed_hosts_def Let_def split: if_splits)
  have "listed_host extra host" if "allows_extra a (normalize_host host)"
    using that by (fastforce simp: allows_extra_def listed_host_def a(1) list_ex_iff split: option.splits)
  then show "names_server addr host \<or> listed_host extra host"
    using assms(2) a(3) by (auto simp: allows_def names_server_def Let_def split: option.splits)
  show "p = None \<or> p = Some port"
    using assms(2) a(2) by (auto simp: allows_def Let_def split: option.splits)
qed

text \<open>
  While validation is on and no extra hosts are listed, a request gets through only if its
  first Host header, and its first Origin header if it has one, parse to a host without user
  information that is localhost, a loopback literal or the bind address; a rebound request, whose
  host is a domain name, gets the same uninformative answer whatever else it carries.
\<close>

theorem rebound_requests_are_rejected:
  assumes "allowed_hosts addr port [] = Some a" and "check_request_origin h rq (Some a) = r"
  shows "r = Some reject \<or> r = None \<and>
    (\<exists>v s host p. first (rh_host rq) = Some v \<and> header_to_str h v = Some s \<and>
       parse_authority h s = Some (host, p) \<and> names_server addr host) \<and>
    (\<forall>v. first (rh_origin rq) = Some v \<longrightarrow>
       (\<exists>s host p. header_to_str h v = Some s \<and> parse_origin h s = Some (host, p) \<and> names_server addr host))"
  using assms(2) allows_names_server(1) [OF assms(1)]
  by (auto simp: check_request_origin_def Let_def bind_Some_iff split: option.splits if_splits)

definition sample_http_env :: http_env where
  "sample_http_env = \<lparr>header_to_str = Some,
     parse_authority_str = \<lambda>s. Some \<lparr>au_str = s, au_host = s, au_port = None\<rparr>,
     parse_uri = \<lambda>s. None\<rparr>"

lemma x_com: "normalize_host ''x.com'' = ''x.com''" "parse_ip_addr ''x.com'' = None"
proof -
  show "normalize_host ''x.com'' = ''x.com''"
    by (simp add: normalize_host_def str_strip_prefix_def str_starts_with_def)
  have "to_digit 10 CHR ''x'' = None" and "to_digit 16 CHR ''x'' = None"
    by (simp_all add: to_digit_def in_range_def byte_def)
  then have four: "read_octets (Suc 3) 0 ''x.com'' = None" and "read_groups (Suc 7) 0 ''x.com'' = ([], False, ''x.com'')"
    unfolding read_octets.simps read_groups.simps
    by (simp_all add: read_octets.simps(2) [where n = 3, simplified] read_ipv4_addr_def read_number_def read_separator_def)
  then show "parse_ip_addr ''x.com'' = None"
    by (simp add: parse_ip_addr_def read_ip_addr_def read_ipv4_addr_def read_ipv6_addr_def)
qed

lemma rebound_requests_are_rejected_witness:
  "check_request_origin sample_http_env \<lparr>rh_host = [''x.com''], rh_origin = []\<rparr>
     (allowed_hosts (V4 [127, 0, 0, 1]) 34872 []) = Some reject"
proof -
  obtain a where a: "allowed_hosts (V4 [127, 0, 0, 1]) 34872 [] = Some a"
    by (simp add: allowed_hosts_def is_loopback_def)
  have "\<not> names_server (V4 [127, 0, 0, 1]) ''x.com''"
    by (simp add: names_server_def x_com eq_ignore_ascii_case_def to_ascii_lowercase_def)
  moreover have "parse_authority sample_http_env ''x.com'' = Some (''x.com'', None)" by code_simp
  moreover have "header_to_str sample_http_env s = Some s" for s by (simp add: sample_http_env_def)
  ultimately have "\<not> (\<exists>v s host p. first (rh_host \<lparr>rh_host = [''x.com''], rh_origin = []\<rparr>) = Some v \<and>
      header_to_str sample_http_env v = Some s \<and> parse_authority sample_http_env s = Some (host, p) \<and>
      names_server (V4 [127, 0, 0, 1]) host)"
    by (simp add: first_def)
  with rebound_requests_are_rejected [OF a refl, of sample_http_env "\<lparr>rh_host = [''x.com''], rh_origin = []\<rparr>"]
  show ?thesis unfolding a by blast
qed

text \<open>
  A server bound to the IPv4-mapped form of a loopback address has no validation: the bind
  address is tested before it is made canonical, and its canonical form is no private address.
\<close>

theorem mapped_loopback_bind_is_unprotected:
  assumes "canonical (V6 segs) = V4 (127 # os)"
  shows "allowed_hosts (V6 segs) port [] = None \<and> check_request_origin h rq (allowed_hosts (V6 segs) port []) = None"
proof -
  obtain os' where m: "to_ipv4_mapped segs = Some os'" "os' = 127 # os"
    using assms by (auto simp: canonical_def split: option.splits)
  then have "\<not> is_loopback (V6 segs)" "\<not> is_private_bind (V6 segs)"
    by (auto simp: is_loopback_def to_ipv4_mapped_def is_private_bind_def canonical_def v4_is_private_def
        v4_is_link_local_def split: if_splits list.splits)
  then show ?thesis by (simp add: allowed_hosts_def check_request_origin_def)
qed

lemma mapped_loopback_bind_is_unprotected_witness:
  "check_request_origin sample_http_env \<lparr>rh_host = [''x.com''], rh_origin = []\<rparr>
     (allowed_hosts (V6 [0, 0, 0, 0, 0, 0xffff, 0x7f00, 1]) 34872 []) = None"
proof -
  have "canonical (V6 [0, 0, 0, 0, 0, 0xffff, 0x7f00, 1]) = V4 [127, 0, 0, 1]" by code_simp
  from mapped_loopback_bind_is_unprotected [OF this] show ?thesis by blast
qed

end
