(* ===== verification/Floats.thy ===== *)
theory Floats
  imports Variants "HOL-Library.Log_Nat"
begin

text \<open>
  The casts between Rust's numbers that the source writes with \<open>as\<close>, on the bits of the floats: a
  finite float is a sign and \<open>m * 2 ^ e\<close> for a natural \<open>m\<close>; encoding rounds to the nearest float,
  ties to even, and overflows to infinity.  A NaN becomes the quiet NaN of the target; casts to
  integers truncate, saturate and take NaN to zero.
\<close>

text \<open>A format: the bits of the fraction and the bias of the exponent.\<close>

record float_format =
  ff_fraction :: nat
  ff_bias :: nat

definition single :: float_format where "single = \<lparr>ff_fraction = 23, ff_bias = 127\<rparr>"
definition double :: float_format where "double = \<lparr>ff_fraction = 52, ff_bias = 1023\<rparr>"

text \<open>Magnitude bits of infinity: all exponent bits and no fraction.\<close>

definition infinity_bits :: "float_format \<Rightarrow> nat" where
  "infinity_bits F = (2 * ff_bias F + 1) * 2 ^ ff_fraction F"

text \<open>Magnitude bits to \<open>m\<close> and \<open>e\<close>.\<close>

definition decode :: "float_format \<Rightarrow> nat \<Rightarrow> nat \<times> int" where
  "decode F bits =
     (let b = bits div 2 ^ ff_fraction F; f = bits mod 2 ^ ff_fraction F
      in if b = 0 then (f, 1 - int (ff_bias F) - int (ff_fraction F))
         else (2 ^ ff_fraction F + f, int b - int (ff_bias F) - int (ff_fraction F)))"

definition round_half_even :: "nat \<Rightarrow> nat \<Rightarrow> nat" where
  "round_half_even m k =
     (let q = m div 2 ^ k; r = m mod 2 ^ k
      in if 2 * r < 2 ^ k then q else if 2 * r > 2 ^ k then q + 1 else if even q then q else q + 1)"

definition encode :: "float_format \<Rightarrow> nat \<Rightarrow> int \<Rightarrow> nat" where
  "encode F m e =
     (if m = 0 then 0
      else (let top = e + int (floorlog 2 m) - 1;
                ulp = max top (1 - int (ff_bias F)) - int (ff_fraction F);
                q = (if ulp \<le> e then m * 2 ^ nat (e - ulp) else round_half_even m (nat (ulp - e)));
                bits = nat (ulp + int (ff_fraction F) + int (ff_bias F) - 1) * 2 ^ ff_fraction F + q
            in min bits (infinity_bits F)))"

lemma round_exact: "round_half_even (q * 2 ^ k) k = q"
  by (simp add: round_half_even_def)

lemma round_none [simp]: "round_half_even m 0 = m"
  using round_exact [of m 0] by simp

lemma encode_exact:
  assumes "0 < m" and "ulp = max (e + int (floorlog 2 m) - 1) (1 - int (ff_bias F)) - int (ff_fraction F)" and "ulp \<le> e"
  shows "encode F m e =
    min (nat (ulp + int (ff_fraction F) + int (ff_bias F) - 1) * 2 ^ ff_fraction F + m * 2 ^ nat (e - ulp)) (infinity_bits F)"
  using assms(1,3) unfolding encode_def assms(2) [symmetric] Let_def by simp

lemma floorlog_eqI: "2 ^ k \<le> m \<Longrightarrow> m < 2 ^ Suc k \<Longrightarrow> floorlog 2 m = Suc k"
  by (intro antisym floorlog_leI floorlog_ge_SucI) simp_all

text \<open>Encoding depends on the value only.\<close>

lemma round_scaled: "round_half_even (m * 2 ^ j) (k + j) = round_half_even m k"
proof -
  have "m * 2 ^ j div 2 ^ (k + j) = m div 2 ^ k" by (simp add: power_add)
  moreover have "m * 2 ^ j mod 2 ^ (k + j) = (m mod 2 ^ k) * 2 ^ j" by (simp add: power_add mult_mod_left)
  moreover have "2 * (r * 2 ^ j) < 2 ^ (k + j) \<longleftrightarrow> 2 * r < 2 ^ k" for r :: nat
    using mult_less_cancel2 [of "2 * r" "2 ^ j" "2 ^ k"] by (simp add: power_add mult.assoc)
  moreover have "2 ^ (k + j) < 2 * (r * 2 ^ j) \<longleftrightarrow> 2 ^ k < 2 * r" for r :: nat
    using mult_less_cancel2 [of "2 ^ k" "2 ^ j" "2 * r"] by (simp add: power_add mult.assoc)
  ultimately show ?thesis by (simp add: round_half_even_def Let_def)
qed

lemma encode_scaled:
  assumes "0 < m"
  shows "encode F (m * 2 ^ j) (e - int j) = encode F m e"
proof -
  have top: "e - int j + int (floorlog 2 (m * 2 ^ j)) - 1 = e + int (floorlog 2 m) - 1"
    using assms by simp
  let ?ulp = "max (e + int (floorlog 2 m) - 1) (1 - int (ff_bias F)) - int (ff_fraction F)"
  have "(if ?ulp \<le> e - int j then m * 2 ^ j * 2 ^ nat (e - int j - ?ulp)
         else round_half_even (m * 2 ^ j) (nat (?ulp - (e - int j)))) =
        (if ?ulp \<le> e then m * 2 ^ nat (e - ?ulp) else round_half_even m (nat (?ulp - e)))"
  proof (cases "?ulp \<le> e")
    case True
    show ?thesis
    proof (cases "?ulp \<le> e - int j")
      case True
      then have "nat (e - ?ulp) = j + nat (e - int j - ?ulp)" by simp
      with True show ?thesis by (simp add: power_add)
    next
      case False
      define d where "d = nat (?ulp - (e - int j))"
      define c where "c = nat (e - ?ulp)"
      have "j = c + d" using True False by (simp add: c_def d_def)
      then have "round_half_even (m * 2 ^ j) d = m * 2 ^ c"
        using round_exact [of "m * 2 ^ c" d] by (simp add: power_add mult.assoc)
      with True False show ?thesis by (simp add: d_def c_def)
    qed
  next
    case False
    then have "nat (?ulp - (e - int j)) = nat (?ulp - e) + j" by linarith
    moreover have "\<not> ?ulp \<le> e - int j" using False by linarith
    ultimately show ?thesis using False by (simp only: if_False round_scaled)
  qed
  note same = this
  have "m * 2 ^ j \<noteq> 0" and "m \<noteq> 0" using assms by simp_all
  then show ?thesis unfolding encode_def Let_def top same by (simp only: if_False)
qed

text \<open>Decoding and encoding in the same format gives the bits back.\<close>

lemma encode_decode:
  assumes "bits < infinity_bits F"
  shows "case decode F bits of (m, e) \<Rightarrow> encode F m e = bits"
proof (cases "bits div 2 ^ ff_fraction F = 0")
  case True
  define f where "f = bits mod 2 ^ ff_fraction F"
  have bits: "bits = f" and f: "f < 2 ^ ff_fraction F"
    using True by (simp_all add: f_def div_eq_0_iff)
  have "floorlog 2 f \<le> ff_fraction F" using f by (simp add: floorlog_leI)
  then have "max (1 - int (ff_bias F) - int (ff_fraction F) + int (floorlog 2 f) - 1) (1 - int (ff_bias F)) =
    1 - int (ff_bias F)" by simp
  with True assms show ?thesis
    unfolding decode_def Let_def f_def [symmetric] by (simp add: encode_def bits Let_def)
next
  case False
  define b f where "b = bits div 2 ^ ff_fraction F" and "f = bits mod 2 ^ ff_fraction F"
  have bits: "bits = b * 2 ^ ff_fraction F + f" and f: "f < 2 ^ ff_fraction F"
    by (simp_all add: b_def f_def div_mult_mod_eq)
  have b: "0 < b" using False by (simp add: b_def)
  have log: "floorlog 2 (2 ^ ff_fraction F + f) = Suc (ff_fraction F)"
    using f by (intro floorlog_eqI) simp_all
  have "nat (int b - 1) * 2 ^ ff_fraction F + (2 ^ ff_fraction F + f) = bits"
    using b by (simp add: bits nat_diff_distrib' algebra_simps)
  moreover have "max (int b - int (ff_bias F)) (1 - int (ff_bias F)) = int b - int (ff_bias F)" using b by simp
  ultimately show ?thesis
    using assms b unfolding decode_def Let_def b_def [symmetric] f_def [symmetric]
    by (simp add: encode_def log Let_def)
qed

lemma divide_block:
  fixes r :: nat
  assumes "r < d"
  shows "(c * d + r) div d = c" and "(c * d + r) mod d = r"
  using assms by simp_all

text \<open>A number that fits is encoded exactly.\<close>

lemma decode_exact:
  assumes "0 < m" and "m < 2 ^ Suc (ff_fraction F)" and "1 - int (ff_bias F) \<le> e + int (floorlog 2 m) - 1"
    and "e + int (floorlog 2 m) - 1 \<le> int (ff_bias F)"
  shows "\<exists>j. decode F (encode F m e) = (m * 2 ^ j, e - int j) \<and> encode F m e < infinity_bits F"
proof -
  define P B k where "P = ff_fraction F" and "B = ff_bias F" and "k = floorlog 2 m"
  have "k \<noteq> 0" using assms(1) by (simp add: k_def floorlog_eq_zero_iff)
  then have k: "0 < k" "k \<le> Suc P" and m: "2 ^ (k - 1) \<le> m" "m < 2 ^ k"
    using assms(1,2) floorlog_bounds [of m 2] floorlog_leI [of m 2 "Suc P"]
    by (simp_all add: k_def P_def)
  define top where "top = e + int k - 1"
  define j where "j = Suc P - k"
  define q where "q = m * 2 ^ j"
  have jk: "k - 1 + j = P" "k + j = Suc P" using k by (simp_all add: j_def)
  have "2 ^ (k - 1) * 2 ^ j \<le> q" "q < 2 ^ k * 2 ^ j" using m by (simp_all add: q_def)
  then have q: "2 ^ P \<le> q" "q < 2 * 2 ^ P" unfolding power_add [symmetric] jk by simp_all
  have top: "1 - int B \<le> top" "top \<le> int B" using assms(3,4) by (simp_all add: top_def k_def B_def)
  then have ulp: "max top (1 - int B) = top" by simp
  have e: "top - int P \<le> e" "nat (e - (top - int P)) = j" using k by (simp_all add: top_def j_def)
  define n where "n = nat (top + int B - 1)"
  have n: "n + 1 \<le> 2 * B" "int n = top + int B - 1" using top by (simp_all add: n_def)
  have "encode F m e = min (nat (top - int P + int P + int B - 1) * 2 ^ P + m * 2 ^ nat (e - (top - int P))) (infinity_bits F)"
    unfolding P_def B_def
    by (rule encode_exact) (use assms(1) ulp e(1) in \<open>simp_all only: top_def k_def P_def B_def\<close>)
  then have bits: "encode F m e = min (n * 2 ^ P + q) (infinity_bits F)"
    unfolding e(2) q_def n_def by (simp only: diff_add_cancel)
  have "n * 2 ^ P + q < (n + 2) * 2 ^ P" using q(2) by (simp add: algebra_simps)
  also have "\<dots> \<le> infinity_bits F"
    unfolding infinity_bits_def P_def [symmetric] B_def [symmetric]
    using n(1) by (intro mult_le_mono1) simp
  finally have small: "n * 2 ^ P + q < infinity_bits F" .
  have split: "n * 2 ^ P + q = (n + 1) * 2 ^ P + (q - 2 ^ P)" and r: "q - 2 ^ P < 2 ^ P" using q by simp_all
  have "(n * 2 ^ P + q) div 2 ^ P = n + 1" "(n * 2 ^ P + q) mod 2 ^ P = q - 2 ^ P"
    unfolding split by (simp_all only: divide_block [OF r])
  then have "decode F (n * 2 ^ P + q) = (q, top - int P)"
    using q(1) n(2) unfolding decode_def P_def [symmetric] B_def [symmetric] by (simp add: Let_def)
  moreover have "top - int P = e - int j" using k by (simp add: top_def j_def)
  ultimately show ?thesis using bits small by (intro exI [of _ j]) (simp add: q_def)
qed



section \<open>Casts\<close>

text \<open>The sign bit and the magnitude bits of a float, and the float they make.\<close>

definition quiet_nan_bits :: "float_format \<Rightarrow> nat" where
  "quiet_nan_bits F = infinity_bits F + 2 ^ (ff_fraction F - 1)"

text \<open>\<open>as\<close> between the formats, on magnitudes.\<close>

definition convert :: "float_format \<Rightarrow> float_format \<Rightarrow> nat \<Rightarrow> nat" where
  "convert F G mag =
     (if infinity_bits F < mag then quiet_nan_bits G
      else if mag = infinity_bits F then infinity_bits G
      else case decode F mag of (m, e) \<Rightarrow> encode G m e)"

definition f32_to_f64 :: "f32 \<Rightarrow> f64" where
  "f32_to_f64 w =
     word_of_nat ((if 2 ^ 31 \<le> unat w then 2 ^ 63 else 0) + convert single double (unat w mod 2 ^ 31))"

definition f64_to_f32 :: "f64 \<Rightarrow> f32" where
  "f64_to_f32 w =
     word_of_nat ((if 2 ^ 63 \<le> unat w then 2 ^ 31 else 0) + convert double single (unat w mod 2 ^ 63))"

definition int_to_f64 :: "int \<Rightarrow> f64" where
  "int_to_f64 n = word_of_nat ((if n < 0 then 2 ^ 63 else 0) + encode double (nat \<bar>n\<bar>) 0)"

text \<open>\<open>as i32\<close> and \<open>as i64\<close>: the truncated value within the bounds.\<close>

definition truncate_value :: "nat \<Rightarrow> int \<Rightarrow> nat" where
  "truncate_value m e = (if 0 \<le> e then m * 2 ^ nat e else m div 2 ^ nat (- e))"

definition f64_to_int :: "nat \<Rightarrow> f64 \<Rightarrow> int" where
  "f64_to_int width w =
     (let mag = unat w mod 2 ^ 63; negative = (2 ^ 63 \<le> unat w);
          low = - (2 ^ (width - 1)); high = 2 ^ (width - 1) - 1
      in if infinity_bits double < mag then 0
         else if mag = infinity_bits double then (if negative then low else high)
         else case decode double mag of
           (m, e) \<Rightarrow> max low (min high (if negative then - int (truncate_value m e) else int (truncate_value m e))))"


section \<open>Casts that lose nothing\<close>

lemma infinity_single: "infinity_bits single = 0x7F800000" by (simp add: infinity_bits_def single_def)
lemma infinity_double: "infinity_bits double = 0x7FF0000000000000" by (simp add: infinity_bits_def double_def)

lemma decode_zero: "decode F 0 = (0, 1 - int (ff_bias F) - int (ff_fraction F))"
  by (simp add: decode_def)

lemma decode_bounds:
  assumes "decode F bits = (m, e)" and "bits < infinity_bits F" and "0 < ff_bias F"
  shows "m < 2 ^ Suc (ff_fraction F)" and "1 - int (ff_bias F) - int (ff_fraction F) \<le> e"
    and "e \<le> int (ff_bias F) - int (ff_fraction F)" and "m = 0 \<longleftrightarrow> bits = 0"
proof -
  define b f where "b = bits div 2 ^ ff_fraction F" and "f = bits mod 2 ^ ff_fraction F"
  have f: "f < 2 ^ ff_fraction F" by (simp add: f_def)
  have "b < 2 * ff_bias F + 1"
    using assms(2) unfolding b_def infinity_bits_def by (simp add: less_mult_imp_div_less)
  moreover have "bits = b * 2 ^ ff_fraction F + f" by (simp add: b_def f_def div_mult_mod_eq)
  ultimately show "m < 2 ^ Suc (ff_fraction F)" and "1 - int (ff_bias F) - int (ff_fraction F) \<le> e"
    and "e \<le> int (ff_bias F) - int (ff_fraction F)" and "m = 0 \<longleftrightarrow> bits = 0"
    using assms(1,3) f unfolding decode_def Let_def b_def [symmetric] f_def [symmetric]
    by (auto split: if_splits)
qed

lemma single_in_double:
  assumes "decode single bits = (m, e)" and "bits < infinity_bits single" and "0 < m"
  shows "\<exists>j. decode double (encode double m e) = (m * 2 ^ j, e - int j) \<and> encode double m e < infinity_bits double"
proof (rule decode_exact)
  have "0 < ff_bias single" by (simp add: single_def)
  note b = decode_bounds [OF assms(1,2) this]
  have m: "m < 2 ^ 24" and e: "- 149 \<le> e" "e \<le> 104" using b(1-3) by (simp_all add: single_def)
  show "m < 2 ^ Suc (ff_fraction double)" using m by (simp add: double_def)
  have "floorlog 2 m \<le> 24" using m by (intro floorlog_leI) simp_all
  then show "e + int (floorlog 2 m) - 1 \<le> int (ff_bias double)" using e by (simp add: double_def)
  show "1 - int (ff_bias double) \<le> e + int (floorlog 2 m) - 1" using e by (simp add: double_def)
qed (rule assms(3))

lemma convert_back:
  assumes "mag \<le> infinity_bits single"
  shows "convert double single (convert single double mag) = mag"
proof (cases "mag = infinity_bits single")
  case True
  then show ?thesis by (simp add: convert_def)
next
  case False
  with assms have less: "mag < infinity_bits single" by simp
  obtain m e where d: "decode single mag = (m, e)" by fastforce
  show ?thesis
  proof (cases "m = 0")
    case True
    then have "mag = 0" using decode_bounds(4) [OF d less] by (simp add: single_def)
    then show ?thesis by (simp add: convert_def decode_zero encode_def infinity_single infinity_double)
  next
    case False
    then have "0 < m" by simp
    from single_in_double [OF d less this] obtain j where
      j: "decode double (encode double m e) = (m * 2 ^ j, e - int j)" "encode double m e < infinity_bits double" by blast
    have "encode single m e = mag" using encode_decode [OF less] d by simp
    then show ?thesis using less d j encode_scaled [OF \<open>0 < m\<close>, of single j e] by (simp add: convert_def)
  qed
qed

lemma convert_double_bound: "mag \<le> infinity_bits single \<Longrightarrow> convert single double mag \<le> infinity_bits double"
  by (auto simp: convert_def encode_def Let_def split: prod.split)

lemma not_nan32:
  assumes "\<not> is_nan32 w"
  shows "unat w mod 2 ^ 31 \<le> infinity_bits single"
proof (rule ccontr)
  define mag where "mag = unat w mod 2 ^ 31"
  assume "\<not> ?thesis"
  then have big: "0x7F800000 < mag" "mag < 2 ^ 31" by (simp_all add: infinity_single mag_def)
  obtain c where w: "unat w = c * 2 ^ 31 + mag" unfolding mag_def by (metis div_mult_mod_eq)
  have "mag div 2 ^ 23 = 255" using big by simp
  then have e: "(unat w div 2 ^ 23) mod 256 = 255"
    by (subst w) (simp add: div_add1_eq)
  define r where "r = mag - 255 * 2 ^ 23"
  have r: "mag = 255 * 2 ^ 23 + r" "0 < r" "r < 2 ^ 23" using big by (simp_all add: r_def)
  have "unat w = (c * 256 + 255) * 2 ^ 23 + r" unfolding w r(1) by (simp add: algebra_simps)
  then have "unat w mod 2 ^ 23 = r" using divide_block(2) [OF r(3)] by metis
  then have f: "unat w mod 2 ^ 23 \<noteq> 0" using r(2) by simp
  have "unat (take_bit 8 (drop_bit 23 w)) = 255"
    using e by (simp add: take_bit_eq_mod drop_bit_eq_div unat_div_distrib unat_mod_distrib)
  then have "take_bit 8 (drop_bit 23 w) = 0xFF" by (simp add: word_unat_eq_iff)
  moreover have "take_bit 23 w \<noteq> 0"
    using f by (simp add: word_unat_eq_iff take_bit_eq_mod unat_mod_distrib)
  ultimately show False using assms by (simp add: is_nan32_def)
qed

text \<open>Widening a float and narrowing it again gives the same bits, unless it is a NaN.\<close>

lemma f32_via_f64:
  assumes "\<not> is_nan32 w"
  shows "f64_to_f32 (f32_to_f64 w) = w"
proof -
  define mag where "mag = unat w mod 2 ^ 31"
  define s :: nat where "s = (if 2 ^ 31 \<le> unat w then 1 else 0)"
  have bound: "convert single double mag < 2 ^ 63"
    using convert_double_bound [OF not_nan32 [OF assms]] by (simp add: mag_def infinity_double)
  have s: "s \<le> 1" by (simp add: s_def)
  have wide: "f32_to_f64 w = word_of_nat (s * 2 ^ 63 + convert single double mag)"
    by (simp add: f32_to_f64_def mag_def s_def)
  have u: "unat (f32_to_f64 w) = s * 2 ^ 63 + convert single double mag"
    unfolding wide unat_of_nat using bound s by (intro mod_less) (simp; linarith)
  have div: "2 ^ 63 \<le> unat (f32_to_f64 w) \<longleftrightarrow> s = 1" "unat (f32_to_f64 w) mod 2 ^ 63 = convert single double mag"
    unfolding u using bound s by (auto simp: le_Suc_eq)
  have "unat w < 2 ^ 32" using unsigned_less [of w] by simp
  then have "unat w = s * 2 ^ 31 + mag"
    by (cases "2 ^ 31 \<le> unat w") (simp_all add: s_def mag_def le_mod_geq)
  moreover have "word_of_nat (unat w) = w" by simp
  ultimately have w: "w = word_of_nat (s * 2 ^ 31 + mag)" by simp
  show ?thesis
    unfolding f64_to_f32_def div convert_back [OF not_nan32 [OF assms], folded mag_def]
    using s w by (auto simp: le_Suc_eq)
qed

text \<open>So does an integer of at most 53 bits through a float, in any integer type that holds it.\<close>

lemma int_via_f64:
  assumes small: "\<bar>n\<bar> < 2 ^ 53" and fits: "- (2 ^ (width - 1)) \<le> n" "n \<le> 2 ^ (width - 1) - 1"
  shows "f64_to_int width (int_to_f64 n) = n"
proof -
  define m where "m = nat \<bar>n\<bar>"
  define s :: nat where "s = (if n < 0 then 1 else 0)"
  have s: "s \<le> 1" by (simp add: s_def)
  have m: "m < 2 ^ 53" using small by (simp add: m_def nat_less_iff)
  have "\<exists>j. decode double (encode double m 0) = (m * 2 ^ j, - int j) \<and> encode double m 0 < infinity_bits double"
    if "0 < m"
  proof -
    have "floorlog 2 m \<le> 53" using m by (intro floorlog_leI) simp_all
    moreover have "m < 2 ^ Suc (ff_fraction double)" using m by (simp add: double_def)
    ultimately show ?thesis using decode_exact [OF that, of double 0] by (simp add: double_def)
  qed
  moreover have "encode double 0 0 < infinity_bits double" by (simp add: encode_def infinity_double)
  moreover have "truncate_value (m * 2 ^ j) (- int j) = m" for j
    by (cases j) (simp_all add: truncate_value_def nat_add_distrib)
  ultimately have d: "(case decode double (encode double m 0) of (m, e) \<Rightarrow> truncate_value m e) = m"
    "encode double m 0 < infinity_bits double"
  proof (atomize (full), cases "m = 0")
    case True
    then have "encode double m 0 = 0" by (simp add: encode_def)
    then show "(case decode double (encode double m 0) of (m, e) \<Rightarrow> truncate_value m e) = m \<and>
        encode double m 0 < infinity_bits double"
      by (simp add: decode_zero truncate_value_def True infinity_double)
  qed auto
  have "encode double m 0 < 2 ^ 63" using d(2) by (simp add: infinity_double)
  then have u: "unat (int_to_f64 n) = s * 2 ^ 63 + encode double m 0"
    unfolding int_to_f64_def unat_of_nat m_def [symmetric] s_def [symmetric]
    using s by (subst mod_less) (auto simp: s_def)
  have parts: "2 ^ 63 \<le> unat (int_to_f64 n) \<longleftrightarrow> n < 0" "unat (int_to_f64 n) mod 2 ^ 63 = encode double m 0"
    unfolding u using \<open>encode double m 0 < 2 ^ 63\<close> s by (auto simp: s_def)
  obtain a b where ab: "decode double (encode double m 0) = (a, b)" by fastforce
  have "f64_to_int width (int_to_f64 n) =
      max (- (2 ^ (width - 1))) (min (2 ^ (width - 1) - 1) (if n < 0 then - int m else int m))"
    using d ab unfolding f64_to_int_def Let_def parts by simp
  also have "(if n < 0 then - int m else int m) = n" by (simp add: m_def)
  also have "max (- (2 ^ (width - 1))) (min (2 ^ (width - 1) - 1) n) = n" using fits by linarith
  finally show ?thesis .
qed

end
