(* ===== verification/Text.thy ===== *)
theory Text
  imports Prelude
begin

text \<open>Formatting of the standard library: numbers in decimal, \<open>join\<close>, and parts of paths as text.\<close>

function decimal :: "nat \<Rightarrow> string" where
  "decimal n = (if n < 10 then [char_of (48 + n)] else decimal (n div 10) @ [char_of (48 + n mod 10)])"
  by pat_completeness auto
termination by (relation "measure id") auto

declare decimal.simps [simp del]

fun join_with :: "string \<Rightarrow> string list \<Rightarrow> string" where
  "join_with sep [] = []"
| "join_with sep [s] = s"
| "join_with sep (s # t # ss) = s @ sep @ join_with sep (t # ss)"

lemma digit_value_char_of: "d < 10 \<Longrightarrow> digit_value (char_of (48 + d)) = Some d"
  by (simp add: digit_value_def in_range_def byte_def)

lemma parse_digits_snoc:
  "parse_digits bound acc s = Some n \<Longrightarrow> d < 10 \<Longrightarrow> n * 10 + d < bound \<Longrightarrow>
    parse_digits bound acc (s @ [char_of (48 + d)]) = Some (n * 10 + d)"
  by (induction s arbitrary: acc) (auto simp: digit_value_char_of split: option.splits if_splits)

text \<open>What is printed parses back.\<close>

lemma parse_decimal: "n < bound \<Longrightarrow> parse_digits bound 0 (decimal n) = Some n"
proof (induction n rule: decimal.induct)
  case (1 n)
  show ?case
  proof (cases "n < 10")
    case True
    then show ?thesis using 1(2) by (simp add: decimal.simps [of n] digit_value_char_of)
  next
    case False
    then have "n div 10 < bound" using 1(2) by (meson div_le_dividend le_less_trans)
    with 1(1) [OF False] have "parse_digits bound 0 (decimal (n div 10)) = Some (n div 10)" .
    from parse_digits_snoc [OF this, of "n mod 10"] 1(2) False show ?thesis
      by (subst decimal.simps) simp
  qed
qed

end
