(* ===== verification/Resolution.thy ===== *)
theory Resolution
  imports Floats Metadata Text
begin

text \<open>
  Resolving the values of project and model files, \<open>src/src/resolution.rs\<close>.  The reflection database
  and the \<open>Content\<close> type of the Roblox crates are fields of an environment; a superclass chain of
  the database has no cycle (the model gives up on a class met twice, where the code would loop).
\<close>

datatype data_type = DtValue variant_type | DtEnum string | DtUnknown

record property_descriptor =
  pd_data_type :: data_type

record class_descriptor =
  cd_superclass :: "string option"
  cd_properties :: "(string, property_descriptor) hash_map"

record reflection_db =
  db_classes :: "(string, class_descriptor) hash_map"
  db_enums :: "(string, (string, u32) hash_map) hash_map"

datatype content_type = ContentNone | ContentUri string | ContentOther

record 'o resolve_env =
  re_db :: reflection_db
  content_value :: "'o \<Rightarrow> content_type"
  content_from :: "string \<Rightarrow> 'o"

function find_in_classes :: "(string, class_descriptor) hash_map \<Rightarrow> string \<Rightarrow> string \<Rightarrow> property_descriptor option" where
  "find_in_classes classes class_name prop_name =
     (case hm_get classes class_name of
        None \<Rightarrow> None
      | Some c \<Rightarrow>
          (case hm_get (cd_properties c) prop_name of
             Some descriptor \<Rightarrow> Some descriptor
           | None \<Rightarrow>
               (case cd_superclass c of
                  None \<Rightarrow> None
                | Some superclass \<Rightarrow> find_in_classes (hm_remove class_name classes) superclass prop_name)))"
  by pat_completeness auto
termination
  by (relation "measure (\<lambda>(classes, _, _). length classes)") (auto dest: hm_remove_shorter)

declare find_in_classes.simps [simp del]

definition find_descriptor :: "reflection_db \<Rightarrow> string \<Rightarrow> string \<Rightarrow> property_descriptor option" where
  "find_descriptor db class_name prop_name = find_in_classes (db_classes db) class_name prop_name"

text \<open>\<open>nonexhaustive_list\<close>; it panics on an empty list.\<close>

definition nonexhaustive_list :: "string list \<Rightarrow> string option" where
  "nonexhaustive_list values =
     (if values = [] then None
      else
        (let last_index = length values - 1;
             main_length = min last_index 9;
             output = concat (map (\<lambda>v. v @ '', '') (take main_length values))
         in Some (if length values > 8
                  then output @ ''or '' @ decimal (length values - main_length) @ '' more''
                  else output @ ''or '' @ values ! (length values - 1))))"

definition describe :: "'o ambiguous_value \<Rightarrow> string" where
  "describe v =
     (case v of
        ABool _ \<Rightarrow> ''a bool''
      | AString _ \<Rightarrow> ''a string''
      | AStringArray _ \<Rightarrow> ''an array of strings''
      | ANumber _ \<Rightarrow> ''a number''
      | AArray2 _ \<Rightarrow> ''an array of two numbers''
      | AArray3 _ \<Rightarrow> ''an array of three numbers''
      | AArray4 _ \<Rightarrow> ''an array of four numbers''
      | AArray12 _ \<Rightarrow> ''an array of twelve numbers''
      | AAttributes _ \<Rightarrow> ''an object containing attributes''
      | AFont _ \<Rightarrow> ''an object describing a Font''
      | AMaterialColors _ \<Rightarrow> ''an object describing MaterialColors'')"

text \<open>The errors, by the values their messages name.\<close>

datatype 'o resolve_error =
    UnknownProperty string string
  | UnknownEnum string
  | InvalidEnumValue string string string string string
  | RefAsString string
  | WrongType string string variant_type string
  | UnknownDataType string string
  | NotUnambiguous "'o ambiguous_value"

text \<open>The enum branch of \<open>resolve\<close>; the outer option is the panic of the error message.\<close>

definition resolve_enum :: "(string, u32) hash_map \<Rightarrow> string \<Rightarrow> string \<Rightarrow> string \<Rightarrow> 'o ambiguous_value \<Rightarrow>
    ('o resolve_error + 'o variant) option" where
  "resolve_enum items enum_name class_name prop_name v =
     (let error = (\<lambda>what. map_option (\<lambda>examples.
            Inl (InvalidEnumValue class_name prop_name what enum_name examples))
            (nonexhaustive_list (sort (hm_keys items))))
      in case v of
           AString value \<Rightarrow>
             (case hm_get items value of Some resolved \<Rightarrow> Some (Inr (VEnum resolved)) | None \<Rightarrow> error value)
         | unresolved \<Rightarrow> error (describe unresolved))"

definition vec3_of :: "array3 \<Rightarrow> vector3" where
  "vec3_of = (\<lambda>(x, y, z). \<lparr>v3_x = f64_to_f32 x, v3_y = f64_to_f32 y, v3_z = f64_to_f32 z\<rparr>)"

definition array_of :: "vector3 \<Rightarrow> array3" where
  "array_of v = (f32_to_f64 (v3_x v), f32_to_f64 (v3_y v), f32_to_f64 (v3_z v))"

definition resolve_value :: "'o resolve_env \<Rightarrow> variant_type \<Rightarrow> string \<Rightarrow> string \<Rightarrow> 'o ambiguous_value \<Rightarrow>
    'o resolve_error + 'o variant" where
  "resolve_value env ty class_name prop_name v =
     (let wrong = Inl (WrongType class_name prop_name ty (describe v))
      in case ty of
           TBool \<Rightarrow> (case v of ABool b \<Rightarrow> Inr (VBool b) | _ \<Rightarrow> wrong)
         | TFloat32 \<Rightarrow> (case v of ANumber n \<Rightarrow> Inr (VFloat32 (f64_to_f32 n)) | _ \<Rightarrow> wrong)
         | TFloat64 \<Rightarrow> (case v of ANumber n \<Rightarrow> Inr (VFloat64 n) | _ \<Rightarrow> wrong)
         | TInt32 \<Rightarrow> (case v of ANumber n \<Rightarrow> Inr (VInt32 (word_of_int (f64_to_int 32 n))) | _ \<Rightarrow> wrong)
         | TInt64 \<Rightarrow> (case v of ANumber n \<Rightarrow> Inr (VInt64 (word_of_int (f64_to_int 64 n))) | _ \<Rightarrow> wrong)
         | TString \<Rightarrow> (case v of AString s \<Rightarrow> Inr (VString s) | _ \<Rightarrow> wrong)
         | TTags \<Rightarrow> (case v of AStringArray ss \<Rightarrow> Inr (VTags ss) | _ \<Rightarrow> wrong)
         | TContent \<Rightarrow> (case v of AString s \<Rightarrow> Inr (VContent (content_from env s)) | _ \<Rightarrow> wrong)
         | TContentId \<Rightarrow> (case v of AString s \<Rightarrow> Inr (VContentId s) | _ \<Rightarrow> wrong)
         | TVector2 \<Rightarrow> (case v of AArray2 (x, y) \<Rightarrow>
             Inr (VVector2 \<lparr>v2_x = f64_to_f32 x, v2_y = f64_to_f32 y\<rparr>) | _ \<Rightarrow> wrong)
         | TVector3 \<Rightarrow> (case v of AArray3 a \<Rightarrow> Inr (VVector3 (vec3_of a)) | _ \<Rightarrow> wrong)
         | TColor3 \<Rightarrow> (case v of AArray3 (x, y, z) \<Rightarrow>
             Inr (VColor3 \<lparr>c3_r = f64_to_f32 x, c3_g = f64_to_f32 y, c3_b = f64_to_f32 z\<rparr>) | _ \<Rightarrow> wrong)
         | TCFrame \<Rightarrow> (case v of AArray12 (p, x, y, z) \<Rightarrow>
             Inr (VCFrame \<lparr>cf_position = vec3_of p,
               cf_orientation = \<lparr>m3_x = vec3_of x, m3_y = vec3_of y, m3_z = vec3_of z\<rparr>\<rparr>) | _ \<Rightarrow> wrong)
         | TAttributes \<Rightarrow> (case v of AAttributes as \<Rightarrow> Inr (VAttributes as) | _ \<Rightarrow> wrong)
         | TFont \<Rightarrow> (case v of AFont f \<Rightarrow> Inr (VFont f) | _ \<Rightarrow> wrong)
         | TMaterialColors \<Rightarrow> (case v of AMaterialColors c \<Rightarrow> Inr (VMaterialColors c) | _ \<Rightarrow> wrong)
         | TRef \<Rightarrow> (case v of AString _ \<Rightarrow> Inl (RefAsString prop_name) | _ \<Rightarrow> wrong)
         | _ \<Rightarrow> wrong)"

definition resolve_ambiguous :: "'o resolve_env \<Rightarrow> 'o ambiguous_value \<Rightarrow> string \<Rightarrow> string \<Rightarrow>
    ('o resolve_error + 'o variant) option" where
  "resolve_ambiguous env v class_name prop_name =
     (case find_descriptor (re_db env) class_name prop_name of
        None \<Rightarrow> Some (Inl (UnknownProperty class_name prop_name))
      | Some property \<Rightarrow>
          (case pd_data_type property of
             DtEnum enum_name \<Rightarrow>
               (case hm_get (db_enums (re_db env)) enum_name of
                  None \<Rightarrow> Some (Inl (UnknownEnum enum_name))
                | Some items \<Rightarrow> resolve_enum items enum_name class_name prop_name v)
           | DtValue ty \<Rightarrow> Some (resolve_value env ty class_name prop_name v)
           | DtUnknown \<Rightarrow> Some (Inl (UnknownDataType class_name prop_name))))"

definition resolve :: "'o resolve_env \<Rightarrow> 'o unresolved_value \<Rightarrow> string \<Rightarrow> string \<Rightarrow>
    ('o resolve_error + 'o variant) option" where
  "resolve env u class_name prop_name =
     (case u of
        FullyQualified full \<Rightarrow> Some (Inr full)
      | Ambiguous partial \<Rightarrow> resolve_ambiguous env partial class_name prop_name)"

definition resolve_unambiguous :: "'o unresolved_value \<Rightarrow> 'o resolve_error + 'o variant" where
  "resolve_unambiguous u =
     (case u of
        FullyQualified full \<Rightarrow> Inr full
      | Ambiguous partial \<Rightarrow>
          (case partial of
             ABool b \<Rightarrow> Inr (VBool b)
           | ANumber n \<Rightarrow> Inr (VFloat64 n)
           | AString s \<Rightarrow> Inr (VString s)
           | other \<Rightarrow> Inl (NotUnambiguous other)))"

text \<open>\<open>from_variant\<close>; the enum branch looks for the first item with the value.\<close>

definition enum_item_name :: "reflection_db \<Rightarrow> property_descriptor \<Rightarrow> u32 \<Rightarrow> string option" where
  "enum_item_name db property value =
     (case pd_data_type property of
        DtEnum enum_name \<Rightarrow>
          (case hm_get (db_enums db) enum_name of
             Some items \<Rightarrow> map_option fst (List.find (\<lambda>(variant_name, id). id = value) items)
           | None \<Rightarrow> None)
      | _ \<Rightarrow> None)"

definition from_variant :: "'o resolve_env \<Rightarrow> 'o variant \<Rightarrow> string \<Rightarrow> string \<Rightarrow> 'o unresolved_value" where
  "from_variant env v class_name prop_name =
     (case find_descriptor (re_db env) class_name prop_name of
        None \<Rightarrow> FullyQualified v
      | Some property \<Rightarrow>
          (case v of
             VEnum value \<Rightarrow>
               (case enum_item_name (re_db env) property value of
                  Some variant_name \<Rightarrow> Ambiguous (AString variant_name)
                | None \<Rightarrow> FullyQualified v)
           | VBool b \<Rightarrow> Ambiguous (ABool b)
           | VFloat32 n \<Rightarrow> Ambiguous (ANumber (f32_to_f64 n))
           | VFloat64 n \<Rightarrow> Ambiguous (ANumber n)
           | VInt32 n \<Rightarrow> Ambiguous (ANumber (int_to_f64 (sint n)))
           | VInt64 n \<Rightarrow> Ambiguous (ANumber (int_to_f64 (sint n)))
           | VString s \<Rightarrow> Ambiguous (AString s)
           | VTags tags \<Rightarrow> Ambiguous (AStringArray tags)
           | VContent c \<Rightarrow>
               (case content_value env c of
                  ContentNone \<Rightarrow> Ambiguous (AString [])
                | ContentUri uri \<Rightarrow> Ambiguous (AString uri)
                | ContentOther \<Rightarrow> FullyQualified v)
           | VContentId s \<Rightarrow> Ambiguous (AString s)
           | VVector2 p \<Rightarrow> Ambiguous (AArray2 (f32_to_f64 (v2_x p), f32_to_f64 (v2_y p)))
           | VVector3 p \<Rightarrow> Ambiguous (AArray3 (array_of p))
           | VColor3 c \<Rightarrow> Ambiguous (AArray3 (f32_to_f64 (c3_r c), f32_to_f64 (c3_g c), f32_to_f64 (c3_b c)))
           | VCFrame cf \<Rightarrow> Ambiguous (AArray12 (array_of (cf_position cf),
               array_of (m3_x (cf_orientation cf)), array_of (m3_y (cf_orientation cf)),
               array_of (m3_z (cf_orientation cf))))
           | VAttributes attr \<Rightarrow> Ambiguous (AAttributes attr)
           | VFont f \<Rightarrow> Ambiguous (AFont f)
           | VMaterialColors c \<Rightarrow> Ambiguous (AMaterialColors c)
           | _ \<Rightarrow> FullyQualified v))"

definition from_variant_unambiguous :: "'o variant \<Rightarrow> 'o unresolved_value" where
  "from_variant_unambiguous v =
     (case v of
        VString s \<Rightarrow> Ambiguous (AString s)
      | VFloat64 n \<Rightarrow> Ambiguous (ANumber n)
      | VBool b \<Rightarrow> Ambiguous (ABool b)
      | VBinaryString bytes \<Rightarrow>
          (case from_utf8 bytes of
             Some s \<Rightarrow> Ambiguous (AString s)
           | None \<Rightarrow> FullyQualified (VBinaryString bytes))
      | _ \<Rightarrow> FullyQualified v)"



section \<open>Properties\<close>

text \<open>
  What the written form of a value can hold: no NaN in a single float, no integer past 53 bits, no
  \<open>Content\<close> without a value, which is written like one with the empty URI.
\<close>

definition vec3_plain :: "vector3 \<Rightarrow> bool" where
  "vec3_plain v \<longleftrightarrow> \<not> is_nan32 (v3_x v) \<and> \<not> is_nan32 (v3_y v) \<and> \<not> is_nan32 (v3_z v)"

definition representable :: "'o resolve_env \<Rightarrow> 'o variant \<Rightarrow> bool" where
  "representable env v \<longleftrightarrow>
     (case v of
        VFloat32 n \<Rightarrow> \<not> is_nan32 n
      | VInt64 n \<Rightarrow> \<bar>sint n\<bar> < 2 ^ 53
      | VVector2 p \<Rightarrow> \<not> is_nan32 (v2_x p) \<and> \<not> is_nan32 (v2_y p)
      | VVector3 p \<Rightarrow> vec3_plain p
      | VColor3 c \<Rightarrow> \<not> is_nan32 (c3_r c) \<and> \<not> is_nan32 (c3_g c) \<and> \<not> is_nan32 (c3_b c)
      | VCFrame cf \<Rightarrow> vec3_plain (cf_position cf) \<and> vec3_plain (m3_x (cf_orientation cf)) \<and>
          vec3_plain (m3_y (cf_orientation cf)) \<and> vec3_plain (m3_z (cf_orientation cf))
      | VContent c \<Rightarrow> content_value env c \<noteq> ContentNone
      | _ \<Rightarrow> True)"

lemma vec3_back: "vec3_plain v \<Longrightarrow> vec3_of (array_of v) = v"
  by (simp add: vec3_plain_def vec3_of_def array_of_def f32_via_f64)

lemma int32_back: "word_of_int (f64_to_int 32 (int_to_f64 (sint (n :: 32 word)))) = n"
proof -
  have "- (2 ^ 31) \<le> sint n" "sint n < 2 ^ 31" using sint_ge [of n] sint_lt [of n] by simp_all
  then have "f64_to_int 32 (int_to_f64 (sint n)) = sint n" by (intro int_via_f64) simp_all
  then show ?thesis by simp
qed

lemma int64_back:
  assumes "\<bar>sint n\<bar> < 2 ^ 53"
  shows "word_of_int (f64_to_int 64 (int_to_f64 (sint (n :: 64 word)))) = n"
proof -
  have "f64_to_int 64 (int_to_f64 (sint n)) = sint n" using assms by (intro int_via_f64) simp_all
  then show ?thesis by simp
qed

lemma enum_item_name_get:
  assumes "pd_data_type d = DtEnum e" and "hm_get (db_enums db) e = Some items" and "hm_ok items"
    and "enum_item_name db d value = Some name"
  shows "hm_get items name = Some value"
  using assms by (auto simp: enum_item_name_def hm_get_eq_iff find_Some_iff) (metis nth_mem)

text \<open>
  C23. Writing a property value in the short form of project and model files and resolving it again
  for the same property gives the value back, bit for bit, for every type of value and whether or
  not the property is known.  The value must be one the short form can hold: single floats that are
  numbers, integers within 53 bits, a \<open>Content\<close> that has a value.  Of the crate, a \<open>Content\<close> made from a
  URI has that URI, and one with a URI is determined by it.  A known property has the type of the value,
  or is an enum with distinct names.
\<close>

theorem written_values_resolve_back:
  assumes "representable env v"
    and "\<And>uri. content_value env (content_from env uri) = ContentUri uri"
    and "\<And>c c' uri. content_value env c = ContentUri uri \<Longrightarrow> content_value env c' = ContentUri uri \<Longrightarrow> c = c'"
    and "\<And>d. find_descriptor (re_db env) class_name prop_name = Some d \<Longrightarrow>
      pd_data_type d = DtValue (variant_ty v) \<or>
      (\<exists>e items value. v = VEnum value \<and> pd_data_type d = DtEnum e \<and> hm_get (db_enums (re_db env)) e = Some items \<and> hm_ok items)"
  shows "resolve env (from_variant env v class_name prop_name) class_name prop_name = Some (Inr v)"
proof (cases "find_descriptor (re_db env) class_name prop_name")
  case None
  then show ?thesis by (simp add: from_variant_def resolve_def)
next
  case (Some d)
  show ?thesis
  proof (cases "pd_data_type d = DtValue (variant_ty v)")
    case True
    have "content_from env uri = c" if "content_value env c = ContentUri uri" for c uri
      by (rule assms(3) [OF assms(2) that])
    with True Some assms(1) show ?thesis
      by (cases v) (auto simp: from_variant_def resolve_def resolve_ambiguous_def resolve_value_def representable_def
          enum_item_name_def f32_via_f64 vec3_back int32_back int64_back split: content_type.splits)
  next
    case False
    with assms(4) [OF Some] obtain e items n where e: "v = VEnum n" "pd_data_type d = DtEnum e"
      "hm_get (db_enums (re_db env)) e = Some items" "hm_ok items" by blast
    show ?thesis
    proof (cases "enum_item_name (re_db env) d n")
      case None
      with Some e(1) show ?thesis by (simp add: from_variant_def resolve_def)
    next
      case name: (Some name)
      with Some e(1-3) enum_item_name_get [OF e(2,3,4) name] show ?thesis
        by (simp add: from_variant_def resolve_def resolve_ambiguous_def resolve_enum_def)
    qed
  qed
qed

text \<open>An environment with one class of one property.\<close>

definition one_property :: "variant_type \<Rightarrow> nat resolve_env" where
  "one_property ty = \<lparr>re_db = \<lparr>db_classes = [(''C'', \<lparr>cd_superclass = None,
       cd_properties = [(''P'', \<lparr>pd_data_type = DtValue ty\<rparr>)]\<rparr>)], db_enums = []\<rparr>,
     content_value = \<lambda>_. ContentOther, content_from = \<lambda>_. 0\<rparr>"

lemma find_one_property: "find_descriptor (re_db (one_property ty)) ''C'' ''P'' = Some \<lparr>pd_data_type = DtValue ty\<rparr>"
  by (simp add: find_descriptor_def find_in_classes.simps one_property_def)

text \<open>The same with \<open>Content\<close> as its URI.\<close>

definition uri_property :: "variant_type \<Rightarrow> string resolve_env" where
  "uri_property ty = \<lparr>re_db = \<lparr>db_classes = [(''C'', \<lparr>cd_superclass = None,
       cd_properties = [(''P'', \<lparr>pd_data_type = DtValue ty\<rparr>)]\<rparr>)], db_enums = []\<rparr>,
     content_value = ContentUri, content_from = \<lambda>uri. uri\<rparr>"

lemma find_uri_property: "find_descriptor (re_db (uri_property ty)) ''C'' ''P'' = Some \<lparr>pd_data_type = DtValue ty\<rparr>"
  by (simp add: find_descriptor_def find_in_classes.simps uri_property_def)

lemma written_values_resolve_back_witness:
  "resolve (uri_property TFloat32) (from_variant (uri_property TFloat32) (VFloat32 0x3DCCCCCD) ''C'' ''P'') ''C'' ''P'' =
     Some (Inr (VFloat32 0x3DCCCCCD)) \<and>
   resolve (uri_property TContent) (from_variant (uri_property TContent) (VContent ''a'') ''C'' ''P'') ''C'' ''P'' =
     Some (Inr (VContent ''a''))"
proof
  have plain: "representable (uri_property TFloat32) (VFloat32 0x3DCCCCCD)"
    "representable (uri_property TContent) (VContent ''a'')"
    by (simp_all add: representable_def is_nan32_def uri_property_def)
  have uris: "content_value (uri_property ty) (content_from (uri_property ty) uri) = ContentUri uri"
    "content_value (uri_property ty) c = ContentUri uri \<Longrightarrow> content_value (uri_property ty) c' = ContentUri uri \<Longrightarrow> c = c'"
    for ty c c' uri by (simp_all add: uri_property_def)
  show "resolve (uri_property TFloat32) (from_variant (uri_property TFloat32) (VFloat32 0x3DCCCCCD) ''C'' ''P'') ''C'' ''P'' =
      Some (Inr (VFloat32 0x3DCCCCCD))"
    by (rule written_values_resolve_back [OF plain(1) uris]) (simp_all add: find_uri_property)
  show "resolve (uri_property TContent) (from_variant (uri_property TContent) (VContent ''a'') ''C'' ''P'') ''C'' ''P'' =
      Some (Inr (VContent ''a''))"
    by (rule written_values_resolve_back [OF plain(2) uris]) (simp_all add: find_uri_property)
qed

text \<open>
  The short form of a 64-bit integer property goes through a double: beyond 53 bits the value
  read back is another one, for example one less.
\<close>

theorem large_integers_are_rounded:
  assumes "find_descriptor (re_db env) class_name prop_name = Some d" and "pd_data_type d = DtValue TInt64"
  shows "resolve env (from_variant env (VInt64 (2 ^ 53 + 1)) class_name prop_name) class_name prop_name =
    Some (Inr (VInt64 (2 ^ 53)))"
proof -
  have log: "floorlog 2 (2 ^ 53 + 1) = Suc 53" by (intro floorlog_eqI) simp_all
  have "encode double (2 ^ 53 + 1) 0 = 1076 * 2 ^ 52"
    unfolding encode_def log by (simp add: double_def round_half_even_def infinity_bits_def)
  then have "int_to_f64 (2 ^ 53 + 1) = word_of_nat (1076 * 2 ^ 52)" by (simp add: int_to_f64_def)
  moreover have "decode double 0x4340000000000000 = (2 ^ 52, 1)" by (simp add: decode_def double_def)
  then have "f64_to_int 64 (word_of_nat (1076 * 2 ^ 52)) = 2 ^ 53"
    by (simp add: f64_to_int_def infinity_double truncate_value_def unat_of_nat)
  ultimately have "f64_to_int 64 (int_to_f64 (2 ^ 53 + 1)) = 2 ^ 53" by simp
  with assms show ?thesis
    by (simp add: from_variant_def resolve_def resolve_ambiguous_def resolve_value_def)
qed

lemma large_integers_are_rounded_witness:
  "resolve (one_property TInt64) (from_variant (one_property TInt64) (VInt64 (2 ^ 53 + 1)) ''C'' ''P'') ''C'' ''P'' =
     Some (Inr (VInt64 (2 ^ 53)))"
  by (rule large_integers_are_rounded [OF find_one_property]) simp

end
