(* ===== verification/Auto_Connect.thy ===== *)
theory Auto_Connect
  imports Fs_Path
begin

text \<open>
  The auto-connect policy and the derived project id, \<open>src/src/auto_connect.rs\<close>.  The serialized form
  of a policy is a boolean or a name (serde's untagged enum); the file system's \<open>canonicalize\<close>, the
  text of a path and the BLAKE3 hash in hexadecimal are arguments.
\<close>

datatype auto_connect_policy = Off | Matching | Always

definition policy_default :: auto_connect_policy where "policy_default = Matching"

definition policy_as_str :: "auto_connect_policy \<Rightarrow> string" where
  "policy_as_str p = (case p of Off \<Rightarrow> ''off'' | Matching \<Rightarrow> ''matching'' | Always \<Rightarrow> ''always'')"

definition policy_from_str :: "string \<Rightarrow> string + auto_connect_policy" where
  "policy_from_str source =
     (let other = to_ascii_lowercase source
      in if other \<in> {''off'', ''never'', ''false''} then Inr Off
         else if other \<in> {''matching'', ''match'', ''true''} then Inr Matching
         else if other = ''always'' then Inr Always
         else Inl (''Invalid auto-connect policy '' @ [CHR 0x27] @ other @ [CHR 0x27] @
           ''. Valid values are: off, matching, always''))"

datatype policy_repr = PolicyBool bool | PolicyName string

definition policy_deserialize :: "policy_repr \<Rightarrow> string + auto_connect_policy" where
  "policy_deserialize repr =
     (case repr of
        PolicyBool b \<Rightarrow> Inr (if b then Matching else Off)
      | PolicyName name \<Rightarrow>
          (let other = to_ascii_lowercase name
           in if other \<in> {''off'', ''never''} then Inr Off
              else if other \<in> {''matching'', ''match''} then Inr Matching
              else if other = ''always'' then Inr Always
              else Inl (''invalid autoConnect value '' @ [CHR 0x27] @ other @ [CHR 0x27] @
                ''. Valid values are 'off', 'matching', 'always', true, or false'')))"

definition policy_serialize :: "auto_connect_policy \<Rightarrow> policy_repr" where
  "policy_serialize p = PolicyName (policy_as_str p)"

text \<open>Slicing the hash panics when it has fewer than 16 characters.\<close>

definition derive_project_id :: "(path \<Rightarrow> path io_result) \<Rightarrow> (path \<Rightarrow> string) \<Rightarrow> (string \<Rightarrow> string) \<Rightarrow> path \<Rightarrow>
    string option" where
  "derive_project_id canonicalize to_string_lossy blake3_hex project_file_location =
     (let canonical = (case canonicalize project_file_location of Inr p \<Rightarrow> p | Inl _ \<Rightarrow> project_file_location);
          hash = blake3_hex (to_string_lossy canonical)
      in if length hash < 16 then None else Some (''roxo-'' @ take 16 hash))"


section \<open>Properties\<close>

text \<open>
  A policy survives being written to a project file or printed for the command line, in any case
  of its letters; the two readers accept the same names except that only the command line reads the
  words true and false, which the file spells as booleans.
\<close>

theorem policies_read_back:
  shows "policy_deserialize (policy_serialize p) = Inr p \<and>
    (to_ascii_lowercase s = policy_as_str p \<longrightarrow> policy_from_str s = Inr p \<and> policy_deserialize (PolicyName s) = Inr p) \<and>
    (policy_from_str s = Inr q \<longleftrightarrow>
       policy_deserialize (PolicyName s) = Inr q \<or>
       (\<exists>b. to_ascii_lowercase s = (if b then ''true'' else ''false'') \<and> policy_deserialize (PolicyBool b) = Inr q))"
proof -
  have "to_ascii_lowercase (policy_as_str p) = policy_as_str p"
    by (cases p) (simp_all add: policy_as_str_def to_ascii_lowercase_def ascii_lower_def in_range_def byte_def)
  then show ?thesis
    by (cases p; cases q) (auto simp: policy_from_str_def policy_deserialize_def policy_serialize_def policy_as_str_def Let_def
        split: if_splits)
qed

lemma policies_read_back_witness:
  "policy_from_str ''MATCHING'' = Inr Matching"
proof -
  have "to_ascii_lowercase ''MATCHING'' = policy_as_str Matching" by code_simp
  then show ?thesis using policies_read_back [of Matching "''MATCHING''"] by blast
qed

end
