(* ===== verification/Project.thy ===== *)
theory Project
  imports Vfs Metadata Auto_Connect Ip_Address
begin

text \<open>
  Project files, \<open>src/src/project.rs\<close>.  The JSON parser (\<open>json::from_slice\<close> with the derived
  deserializer) is an argument, and so is the standard file system's \<open>metadata\<close>, which \<open>locate\<close>
  asks instead of the virtual one.  A \<open>todo!\<close> is a panic, the value \<open>None\<close>.
\<close>

definition DEFAULT_PROJECT_NAMES :: "string list" where
  "DEFAULT_PROJECT_NAMES = [''default.project.json'', ''default.project.jsonc'']"

datatype project_error =
    NoProjectFound path
  | FolderNameInvalid path
  | ProjectNameInvalid path
  | ProjectIo io_error
  | ProjectJson string path

text \<open>The rules of syncback, \<open>SyncbackRules\<close> of \<open>src/src/syncback/mod.rs\<close>.\<close>

record syncback_rules =
  ignore_trees :: "string list"
  ignore_paths :: "string list"
  ignore_properties :: "(string \<times> string list) list"
  sync_current_camera :: "bool option"
  sync_unscriptable :: "bool option"
  ignore_referents :: "bool option"
  create_ignore_dir_paths :: "bool option"

record 'o project =
  p_schema :: "string option"
  p_name :: "string option"
  p_tree :: "'o project_node"
  p_serve_port :: "u16 option"
  p_project_id :: "string option"
  p_auto_connect :: "auto_connect_policy option"
  p_serve_place_ids :: "u64 list option"
  p_blocked_place_ids :: "u64 list option"
  p_place_id :: "u64 option"
  p_game_id :: "u64 option"
  p_serve_address :: "ip_addr option"
  p_serve_allowed_hosts :: "string list"
  p_emit_legacy_scripts :: "bool option"
  p_glob_ignore_paths :: "ignorable_glob list"
  p_syncback_rules :: "syncback_rules option"
  p_sync_rules :: "sync_rule list"
  p_file_location :: path

definition is_project_file :: "path \<Rightarrow> bool" where
  "is_project_file p =
     (case path_file_name p of
        Some name \<Rightarrow> str_ends_with name ''.project.json'' \<or> str_ends_with name ''.project.jsonc''
      | None \<Rightarrow> False)"

text \<open>The loop of \<open>locate\<close> over the default names: a failing \<open>metadata\<close> ends the whole function.\<close>

fun locate_in :: "(path \<Rightarrow> metadata io_result) \<Rightarrow> path \<Rightarrow> string list \<Rightarrow> path option" where
  "locate_in fs_metadata p [] = None"
| "locate_in fs_metadata p (filename # rest) =
     (let child_path = path_join p [Normal filename]
      in case fs_metadata child_path of
           Inl _ \<Rightarrow> None
         | Inr child_meta \<Rightarrow> if is_file child_meta then Some child_path else locate_in fs_metadata p rest)"

definition locate :: "(path \<Rightarrow> metadata io_result) \<Rightarrow> path \<Rightarrow> path option" where
  "locate fs_metadata p =
     (case fs_metadata p of
        Inl _ \<Rightarrow> None
      | Inr meta \<Rightarrow>
          (if is_file meta then (if is_project_file p then Some p else None)
           else locate_in fs_metadata p DEFAULT_PROJECT_NAMES))"

definition folder_location :: "'o project \<Rightarrow> path option" where
  "folder_location p = path_parent (p_file_location p)"

definition set_file_name :: "'o project \<Rightarrow> string option \<Rightarrow> (project_error + 'o project) option" where
  "set_file_name p fallback =
     (case path_file_name (p_file_location p) of
        None \<Rightarrow> Some (Inl (ProjectNameInvalid (p_file_location p)))
      | Some file_name \<Rightarrow>
          (if file_name \<in> set DEFAULT_PROJECT_NAMES
           then (case folder_location p of
                   None \<Rightarrow> None
                 | Some folder \<Rightarrow>
                     (case path_file_name folder of
                        Some folder_name \<Rightarrow> Some (Inr (p\<lparr>p_name := Some folder_name\<rparr>))
                      | None \<Rightarrow> Some (Inl (FolderNameInvalid (p_file_location p)))))
           else (case fallback of
                   Some name \<Rightarrow> Some (Inr (p\<lparr>p_name := Some name\<rparr>))
                 | None \<Rightarrow> None)))"

text \<open>The keys \<open>validate_reserved_names\<close> warns about, in the order of the walk.\<close>

fun reserved_names :: "'o project_node \<Rightarrow> string list" where
  "reserved_names (ProjectNode cl i children ps as ign p) =
     concat (map (\<lambda>(name, child). (if str_starts_with name ''$'' then [name] else []) @ reserved_names child) children)"

definition load_from_slice :: "(string \<Rightarrow> string + 'o project) \<Rightarrow> string \<Rightarrow> path \<Rightarrow> string option \<Rightarrow>
    (project_error + 'o project) option" where
  "load_from_slice from_slice contents project_file_location fallback_name =
     (case from_slice contents of
        Inl e \<Rightarrow> Some (Inl (ProjectJson e project_file_location))
      | Inr project \<Rightarrow>
          (let project = project\<lparr>p_file_location := project_file_location\<rparr>
           in if p_name project = None then set_file_name project fallback_name else Some (Inr project)))"

text \<open>Reading a project file: a missing file is its own error.\<close>

definition read_project :: "'s backend_ops \<Rightarrow> 's vfs \<Rightarrow> path \<Rightarrow> 's vfs \<times> (project_error + string)" where
  "read_project ops v p =
     (case vfs_read ops v p of
        (v', Inr contents) \<Rightarrow> (v', Inr contents)
      | (v', Inl e) \<Rightarrow> (v', Inl (if ie_kind e = NotFound then NoProjectFound p else ProjectIo e)))"

definition load_exact :: "(string \<Rightarrow> string + 'o project) \<Rightarrow> 's backend_ops \<Rightarrow> 's vfs \<Rightarrow> path \<Rightarrow> string option \<Rightarrow>
    ('s vfs \<times> (project_error + 'o project)) option" where
  "load_exact from_slice ops v project_file_location fallback_name =
     (case read_project ops v project_file_location of
        (v', Inl e) \<Rightarrow> Some (v', Inl e)
      | (v', Inr contents) \<Rightarrow>
          map_option (\<lambda>r. (v', r)) (load_from_slice from_slice contents project_file_location fallback_name))"

definition load_fuzzy :: "(string \<Rightarrow> string + 'o project) \<Rightarrow> (path \<Rightarrow> metadata io_result) \<Rightarrow> 's backend_ops \<Rightarrow>
    's vfs \<Rightarrow> path \<Rightarrow> ('s vfs \<times> (project_error + 'o project option)) option" where
  "load_fuzzy from_slice fs_metadata ops v fuzzy_project_location =
     (case locate fs_metadata fuzzy_project_location of
        Some project_path \<Rightarrow>
          (case read_project ops v project_path of
             (v', Inl e) \<Rightarrow> Some (v', Inl e)
           | (v', Inr contents) \<Rightarrow>
               map_option (\<lambda>r. (v', map_sum id Some r)) (load_from_slice from_slice contents project_path None))
      | None \<Rightarrow> Some (v, Inr None))"

fun first_default :: "'s backend_ops \<Rightarrow> 's vfs \<Rightarrow> path \<Rightarrow> string list \<Rightarrow> 's vfs \<times> path option" where
  "first_default ops v p [] = (v, None)"
| "first_default ops v p (name # names) =
     (let project_path = path_join p [Normal name]
      in case vfs_exists ops v project_path of
           (v', r) \<Rightarrow> if r = Inr True then (v', Some project_path) else first_default ops v' p names)"

definition load_initial_project :: "(string \<Rightarrow> string + 'o project) \<Rightarrow> 's backend_ops \<Rightarrow> 's vfs \<Rightarrow> path \<Rightarrow>
    ('s vfs \<times> (project_error + 'o project)) option" where
  "load_initial_project from_slice ops v p =
     (if is_project_file p then load_exact from_slice ops v p None
      else case first_default ops v p DEFAULT_PROJECT_NAMES of
        (v', Some project_path) \<Rightarrow> load_exact from_slice ops v' project_path None
      | (v', None) \<Rightarrow> Some (v', Inl (NoProjectFound p)))"


section \<open>Properties\<close>

lemma file_name_has_parent: "path_file_name p = Some n \<Longrightarrow> path_parent p = Some (butlast p)"
  by (auto simp: path_file_name_def path_parent_def split: if_splits component.splits)

text \<open>
  Loading a readable project file that parses gives that project, located at the file, under its
  own name; without one, a default project file takes its folder's name (an error when the folder
  has none) and any other file the fallback.  Without a fallback, as when a session starts from such
  a file, loading panics, and this is the only way it does.
\<close>

theorem loaded_projects_are_named:
  assumes "vfs_backend ops view" and "view (backend v) p = Some (AFile contents)"
    and "from_slice contents = Inr (proj :: 'o project)" and "path_file_name p = Some file_name"
  shows "map_option snd (load_exact from_slice ops v p fallback) =
    (let located = proj\<lparr>p_file_location := p\<rparr>
     in case p_name proj of
          Some _ \<Rightarrow> Some (Inr located)
        | None \<Rightarrow>
            (if file_name \<in> {''default.project.json'', ''default.project.jsonc''}
             then Some (case path_file_name (butlast p) of
                    Some folder_name \<Rightarrow> Inr (located\<lparr>p_name := Some folder_name\<rparr>)
                  | None \<Rightarrow> Inl (FolderNameInvalid p))
             else map_option (\<lambda>name. Inr (located\<lparr>p_name := Some name\<rparr>)) fallback))"
proof -
  obtain v' where "vfs_read ops v p = (v', Inr contents)"
    using vfs_backend.read_file [OF assms(1,2)] by (metis prod.collapse)
  then show ?thesis
    using assms(3,4) file_name_has_parent [OF assms(4)]
    by (auto simp: load_exact_def read_project_def load_from_slice_def set_file_name_def folder_location_def
        DEFAULT_PROJECT_NAMES_def Let_def split: option.splits)
qed

definition nameless_project :: "nat project" where
  "nameless_project = \<lparr>p_schema = None, p_name = None, p_tree = ProjectNode None None [] [] [] None None,
     p_serve_port = None, p_project_id = None, p_auto_connect = None, p_serve_place_ids = None,
     p_blocked_place_ids = None, p_place_id = None, p_game_id = None, p_serve_address = None,
     p_serve_allowed_hosts = [], p_emit_legacy_scripts = None, p_glob_ignore_paths = [],
     p_syncback_rules = None, p_sync_rules = [], p_file_location = []\<rparr>"

lemma loaded_projects_are_named_witness:
  "load_initial_project (\<lambda>_. Inr nameless_project) in_memory_backend
     (vfs_new (fst (load_snapshot im_new [RootDir] (VDir [(''my.project.json'', VFile ''{}'')]))))
     [RootDir, Normal ''my.project.json''] = None"
proof -
  let ?v = "vfs_new (fst (load_snapshot im_new [RootDir] (VDir [(''my.project.json'', VFile ''{}'')])))"
  let ?p = "[RootDir, Normal ''my.project.json'']"
  have "im_view (backend ?v) ?p = Some (AFile ''{}'')" by code_simp
  from loaded_projects_are_named [where from_slice = "\<lambda>_. Inr nameless_project" and fallback = None,
      OF imfs.vfs_backend_axioms this refl]
  have "load_exact (\<lambda>_. Inr nameless_project) in_memory_backend ?v ?p None = None"
    by (simp add: path_file_name_def nameless_project_def)
  moreover have "is_project_file ?p" by code_simp
  ultimately show ?thesis by (simp add: load_initial_project_def)
qed

text \<open>
  A folder whose only project file is \<open>default.project.jsonc\<close> is not recognized when a project
  is looked for by its folder: the search stops at the first default name that does not exist.
\<close>

theorem jsonc_folder_is_not_located:
  assumes "fs_metadata folder = Inr \<lparr>is_file = False\<rparr>"
    and "fs_metadata (folder @ [Normal ''default.project.json'']) = Inl e"
  shows "load_fuzzy from_slice fs_metadata ops v folder = Some (v, Inr None)"
  using assms by (simp add: load_fuzzy_def locate_def DEFAULT_PROJECT_NAMES_def)

lemma jsonc_folder_is_not_located_witness:
  "let fs = fst (load_snapshot im_new [RootDir] (VDir [(''default.project.jsonc'', VFile ''{}'')]))
   in im_metadata fs [RootDir, Normal ''default.project.jsonc''] = Inr \<lparr>is_file = True\<rparr> \<and>
      load_fuzzy (\<lambda>_. Inr nameless_project) (im_metadata fs) in_memory_backend (vfs_new fs) [RootDir] =
        Some (vfs_new fs, Inr None)"
proof -
  let ?fs = "fst (load_snapshot im_new [RootDir] (VDir [(''default.project.jsonc'', VFile ''{}'')]))"
  have "im_metadata ?fs [RootDir, Normal ''default.project.jsonc''] = Inr \<lparr>is_file = True\<rparr>"
    and "im_metadata ?fs [RootDir] = Inr \<lparr>is_file = False\<rparr>"
    and "im_metadata ?fs ([RootDir] @ [Normal ''default.project.json'']) = Inl (not_found [RootDir, Normal ''default.project.json''])"
    by code_simp+
  then show ?thesis using jsonc_folder_is_not_located [of "im_metadata ?fs" "[RootDir]"] unfolding Let_def by blast
qed

end
