(* ===== verification/Session_Registry.thy ===== *)
theory Session_Registry
  imports Vfs Text
begin

text \<open>
  The directory of running sessions, \<open>src/src/session_registry.rs\<close>.  The standard file system is a
  backend of the \<open>Vfs\<close> interface (the same operations); environment variables, process ids, the
  \<open>kill\<close> system call and the JSON form of a beacon are fields of an environment.  The Unix version
  of \<open>is_process_alive\<close> is modelled.
\<close>

record beacon =
  sb_session_id :: "128 word"
  sb_pid :: u32
  sb_address :: string
  sb_port :: u16
  sb_project_name :: string
  sb_project_id :: string
  sb_project_path :: path
  sb_place_id :: "u64 option"
  sb_game_id :: "u64 option"
  sb_serve_place_ids :: "u64 list option"
  sb_auto_connect :: string
  sb_server_version :: string
  sb_started_at :: u64

record 's registry_env =
  rg_fs :: "'s backend_ops"
  rg_var_os :: "string \<Rightarrow> path option"
  rg_process_id :: u32
  rg_kill :: "int \<Rightarrow> int \<Rightarrow> int"
  rg_to_json :: "beacon \<Rightarrow> string + string"
  rg_from_json :: "string \<Rightarrow> beacon option"
  rg_canonicalize :: "path \<Rightarrow> path io_result"

datatype registry_error =
    NoHomeDirectory
  | RegistryIo io_error
  | RegistryJson string
  | NoSession
  | MultipleSessions string

definition base_url :: "beacon \<Rightarrow> string" where
  "base_url b = ''http://'' @ sb_address b @ '':'' @ decimal (unat (sb_port b))"

definition or_else :: "'a option \<Rightarrow> 'a option \<Rightarrow> 'a option" where
  "or_else a b = (case a of None \<Rightarrow> b | Some _ \<Rightarrow> a)"

definition sessions_dir :: "'s registry_env \<Rightarrow> 's \<Rightarrow> 's \<times> (registry_error + path)" where
  "sessions_dir e s =
     (let in_home = (\<lambda>var. map_option (\<lambda>home. path_join home [Normal ''.roxo'']) (rg_var_os e var))
      in case or_else (rg_var_os e ''ROXO_HOME'') (or_else (in_home ''HOME'') (in_home ''USERPROFILE'')) of
           None \<Rightarrow> (s, Inl NoHomeDirectory)
         | Some home \<Rightarrow>
             (let dir = path_join home [Normal ''sessions'']
              in case be_create_dir_all (rg_fs e) s dir of
                   (s', Inl err) \<Rightarrow> (s', Inl (RegistryIo err))
                 | (s', Inr _) \<Rightarrow> (s', Inr dir)))"

text \<open>\<open>publish\<close> returns the path its guard removes.\<close>

definition publish :: "'s registry_env \<Rightarrow> 's \<Rightarrow> beacon \<Rightarrow> 's \<times> (registry_error + path)" where
  "publish e s b =
     (case sessions_dir e s of
        (s1, Inl err) \<Rightarrow> (s1, Inl err)
      | (s1, Inr dir) \<Rightarrow>
          (let p = path_join dir [Normal (decimal (unat (sb_port b)) @ ''.json'')]
           in case rg_to_json e b of
                Inl err \<Rightarrow> (s1, Inl (RegistryJson err))
              | Inr text \<Rightarrow>
                  (case be_write (rg_fs e) s1 p text of
                     (s2, Inl err) \<Rightarrow> (s2, Inl (RegistryIo err))
                   | (s2, Inr _) \<Rightarrow> (s2, Inr p))))"

definition drop_guard :: "'s registry_env \<Rightarrow> 's \<Rightarrow> path \<Rightarrow> 's" where
  "drop_guard e s p = fst (be_remove_file (rg_fs e) s p)"

text \<open>\<open>pid as i32\<close> reads the bits as a signed number.\<close>

definition is_process_alive :: "'s registry_env \<Rightarrow> u32 \<Rightarrow> bool" where
  "is_process_alive e pid \<longleftrightarrow> pid = rg_process_id e \<or> rg_kill e (sint pid) 0 = 0"

definition is_beacon_path :: "path \<Rightarrow> bool" where
  "is_beacon_path p \<longleftrightarrow> path_extension p = Some ''json''"

definition read_beacon :: "'s registry_env \<Rightarrow> 's \<Rightarrow> path \<Rightarrow> 's \<times> beacon option" where
  "read_beacon e s p =
     (case be_read (rg_fs e) s p of
        (s', Inl _) \<Rightarrow> (s', None)
      | (s', Inr bytes) \<Rightarrow> (s', rg_from_json e bytes))"

text \<open>The loop of \<open>list\<close> over the entries of the directory.\<close>

fun list_entries :: "'s registry_env \<Rightarrow> 's \<Rightarrow> path io_result list \<Rightarrow> beacon list \<Rightarrow> 's \<times> (registry_error + beacon list)" where
  "list_entries e s [] sessions = (s, Inr sessions)"
| "list_entries e s (entry # dir_entries) sessions =
     (case entry of
        Inl err \<Rightarrow> (s, Inl (RegistryIo err))
      | Inr p \<Rightarrow>
          (if \<not> is_beacon_path p then list_entries e s dir_entries sessions
           else case read_beacon e s p of
             (s1, None) \<Rightarrow> list_entries e (fst (be_remove_file (rg_fs e) s1 p)) dir_entries sessions
           | (s1, Some b) \<Rightarrow>
               (if is_process_alive e (sb_pid b) then list_entries e s1 dir_entries (sessions @ [b])
                else list_entries e (fst (be_remove_file (rg_fs e) s1 p)) dir_entries sessions)))"

definition list_sessions :: "'s registry_env \<Rightarrow> 's \<Rightarrow> 's \<times> (registry_error + beacon list)" where
  "list_sessions e s =
     (case sessions_dir e s of
        (s1, Inl _) \<Rightarrow> (s1, Inr [])
      | (s1, Inr dir) \<Rightarrow>
          (case be_read_dir (rg_fs e) s1 dir of
             (s2, Inl err) \<Rightarrow> (s2, Inl (RegistryIo err))
           | (s2, Inr dir_entries) \<Rightarrow>
               (case list_entries e s2 dir_entries [] of
                  (s3, Inl err) \<Rightarrow> (s3, Inl err)
                | (s3, Inr sessions) \<Rightarrow> (s3, Inr (sort_key sb_port sessions)))))"

definition MAX_PEER_PORTS :: nat where "MAX_PEER_PORTS = 16"

fun peer_entries :: "'s registry_env \<Rightarrow> 128 word \<Rightarrow> 's \<Rightarrow> path io_result list \<Rightarrow> 's \<times> u16 list" where
  "peer_entries e own_session s [] = (s, [])"
| "peer_entries e own_session s (entry # dir_entries) =
     (case entry of
        Inl _ \<Rightarrow> peer_entries e own_session s dir_entries
      | Inr p \<Rightarrow>
          (if \<not> is_beacon_path p then peer_entries e own_session s dir_entries
           else case read_beacon e s p of
             (s1, None) \<Rightarrow> peer_entries e own_session s1 dir_entries
           | (s1, Some b) \<Rightarrow>
               (case peer_entries e own_session s1 dir_entries of
                  (s2, ports) \<Rightarrow> (s2, if sb_session_id b \<noteq> own_session then sb_port b # ports else ports))))"

definition peer_ports :: "'s registry_env \<Rightarrow> 's \<Rightarrow> 128 word \<Rightarrow> 's \<times> u16 list" where
  "peer_ports e s own_session =
     (case sessions_dir e s of
        (s1, Inl _) \<Rightarrow> (s1, [])
      | (s1, Inr dir) \<Rightarrow>
          (case be_read_dir (rg_fs e) s1 dir of
             (s2, Inl _) \<Rightarrow> (s2, [])
           | (s2, Inr dir_entries) \<Rightarrow>
               (case peer_entries e own_session s2 dir_entries of
                  (s3, ports) \<Rightarrow> (s3, take MAX_PEER_PORTS (remdups_adj (sort ports))))))"

definition resolve_session :: "'s registry_env \<Rightarrow> 's \<Rightarrow> u16 option \<Rightarrow> path option \<Rightarrow> 's \<times> (registry_error + beacon)" where
  "resolve_session e s port project =
     (case list_sessions e s of
        (s1, Inl err) \<Rightarrow> (s1, Inl err)
      | (s1, Inr sessions) \<Rightarrow>
          (let sessions = (case port of None \<Rightarrow> sessions | Some port \<Rightarrow> filter (\<lambda>b. sb_port b = port) sessions);
               sessions = (case project of None \<Rightarrow> sessions
                 | Some project \<Rightarrow>
                     (let project = (case rg_canonicalize e project of Inr p \<Rightarrow> p | Inl _ \<Rightarrow> project)
                      in filter (\<lambda>b. path_starts_with (sb_project_path b) project) sessions))
           in (s1, case sessions of
                 [] \<Rightarrow> Inl NoSession
               | [b] \<Rightarrow> Inr b
               | _ \<Rightarrow> Inl (MultipleSessions (join_with [CHR 0x0A]
                   (map (\<lambda>b. ''  port '' @ decimal (unat (sb_port b)) @ '' - '' @ sb_project_name b) sessions))))))"


section \<open>Properties\<close>

text \<open>The beacons in the files of a directory, over a backend that keeps its contract.\<close>

definition beacon_at :: "'s registry_env \<Rightarrow> ('s \<Rightarrow> path \<Rightarrow> node option) \<Rightarrow> 's \<Rightarrow> path \<Rightarrow> beacon option" where
  "beacon_at e view s p =
     (case view s p of Some (AFile bytes) \<Rightarrow> rg_from_json e bytes | _ \<Rightarrow> None)"

lemma read_beacon_at:
  assumes "vfs_backend (rg_fs e) view"
  shows "read_beacon e s p = (s, beacon_at e view s p)"
  using vfs_backend.read [OF assms, of s p]
  by (auto simp: read_beacon_def beacon_at_def split: prod.splits sum.splits option.splits node.splits)

text \<open>The beacon a path contributes to the list: one that parses and whose process is alive.\<close>

definition live_beacon :: "'s registry_env \<Rightarrow> ('s \<Rightarrow> path \<Rightarrow> node option) \<Rightarrow> 's \<Rightarrow> path \<Rightarrow> beacon option" where
  "live_beacon e view s p =
     (case beacon_at e view s p of
        Some b \<Rightarrow> (if is_process_alive e (sb_pid b) then Some b else None)
      | None \<Rightarrow> None)"

definition beacon_paths :: "path io_result list \<Rightarrow> path list" where
  "beacon_paths es = filter is_beacon_path (List.map_filter (\<lambda>r. case r of Inr p \<Rightarrow> Some p | Inl _ \<Rightarrow> None) es)"

lemma beacon_paths_simps [simp]:
  "beacon_paths [] = []"
  "beacon_paths (Inl err # es) = beacon_paths es"
  "beacon_paths (Inr p # es) = (if is_beacon_path p then p # beacon_paths es else beacon_paths es)"
  by (simp_all add: beacon_paths_def map_filter_simps)

lemma set_beacon_paths: "set (beacon_paths es) = {p. Inr p \<in> set es \<and> is_beacon_path p}"
proof (induction es)
  case (Cons r es)
  then show ?case by (cases r) auto
qed simp

definition is_stale :: "'s registry_env \<Rightarrow> ('s \<Rightarrow> path \<Rightarrow> node option) \<Rightarrow> 's \<Rightarrow> path \<Rightarrow> bool" where
  "is_stale e view s p \<longleftrightarrow> live_beacon e view s p = None \<and> (\<exists>c. view s p = Some (AFile c))"

lemma remove_stale:
  assumes "vfs_backend (rg_fs e) view" and "live_beacon e view s p = None"
  shows "view (fst (be_remove_file (rg_fs e) s p)) = (\<lambda>q. if q = p \<and> is_stale e view s q then None else view s q)"
    and "live_beacon e view (fst (be_remove_file (rg_fs e) s p)) = live_beacon e view s"
proof -
  obtain s' r where rm: "be_remove_file (rg_fs e) s p = (s', r)" by (cases "be_remove_file (rg_fs e) s p")
  from vfs_backend.remove_file [OF assms(1) rm] assms(2)
  show v: "view (fst (be_remove_file (rg_fs e) s p)) = (\<lambda>q. if q = p \<and> is_stale e view s q then None else view s q)"
    by (auto simp: rm is_stale_def fun_eq_iff)
  show "live_beacon e view (fst (be_remove_file (rg_fs e) s p)) = live_beacon e view s"
    using assms(2) by (auto simp: live_beacon_def beacon_at_def v is_stale_def fun_eq_iff)
qed

text \<open>The loop collects the live beacons and removes the stale files among the beacon paths.\<close>

lemma list_entries_effect:
  assumes "vfs_backend (rg_fs e) view" and "list_entries e s es acc = (s', Inr sessions)"
  shows "sessions = acc @ List.map_filter (live_beacon e view s) (beacon_paths es) \<and>
    view s' = (\<lambda>q. if q \<in> set (beacon_paths es) \<and> is_stale e view s q then None else view s q)"
  using assms(2)
proof (induction es arbitrary: s acc)
  case Nil
  then show ?case by (simp add: map_filter_simps)
next
  case (Cons r es)
  from Cons.prems obtain p where r: "r = Inr p" by (cases r) auto
  consider "\<not> is_beacon_path p" | b where "is_beacon_path p" "live_beacon e view s p = Some b"
    | "is_beacon_path p" "live_beacon e view s p = None" by blast
  then show ?case
  proof cases
    case 1
    with Cons r show ?thesis by simp
  next
    case 2
    then have "list_entries e s es (acc @ [b]) = (s', Inr sessions)"
      using Cons.prems
      by (auto simp: r read_beacon_at [OF assms(1)] live_beacon_def split: option.splits if_splits)
    from Cons.IH [OF this] 2 show ?thesis
      by (auto simp: r map_filter_simps is_stale_def fun_eq_iff)
  next
    case 3
    let ?s = "fst (be_remove_file (rg_fs e) s p)"
    from 3 have "list_entries e ?s es acc = (s', Inr sessions)"
      using Cons.prems
      by (auto simp: r read_beacon_at [OF assms(1)] live_beacon_def split: option.splits if_splits)
    from Cons.IH [OF this] 3 remove_stale [OF assms(1) 3(2)] show ?thesis
      by (auto simp: r map_filter_simps is_stale_def fun_eq_iff)
  qed
qed

lemma list_entries_succeeds: "(\<forall>r \<in> set es. \<exists>p. r = Inr p) \<Longrightarrow> \<exists>sessions. snd (list_entries e s es acc) = Inr sessions"
  by (induction es arbitrary: s acc) (auto split: prod.split option.split)

lemma distinct_remdups_adj_sorted: "sorted (xs :: 'b :: linorder list) \<Longrightarrow> distinct (remdups_adj xs)"
  by (induction xs rule: remdups_adj.induct) (auto simp: order_le_less)

lemma set_mapfilter: "set (List.map_filter f xs) = {y. \<exists>x \<in> set xs. f x = Some y}"
  by (induction xs) (auto simp: map_filter_simps split: option.splits)

lemma peer_entries_ports:
  assumes "vfs_backend (rg_fs e) view"
  shows "peer_entries e own s es = (s, map sb_port (filter (\<lambda>b. sb_session_id b \<noteq> own)
    (List.map_filter (beacon_at e view s) (beacon_paths es))))"
  by (induction es) (auto simp: read_beacon_at [OF assms] map_filter_simps split: sum.split option.split)

text \<open>
  Over a file system that keeps the backend contract, \<open>list\<close> returns, in ascending order of
  the port, exactly the beacons of the directory's \<open>.json\<close> files that parse and whose process is
  alive; it removes every other \<open>.json\<close> file of the directory and touches nothing else.
\<close>

theorem listing_prunes_stale_beacons:
  assumes "vfs_backend (rg_fs e) view"
    and "sessions_dir e s = (s1, Inr dir)" and "be_read_dir (rg_fs e) s1 dir = (s2, Inr es)"
    and "list_sessions e s = (s', Inr sessions)"
  shows "sorted (map sb_port sessions) \<and>
    mset sessions = mset (List.map_filter (live_beacon e view s2) (beacon_paths es)) \<and>
    view s' = (\<lambda>q. if q \<in> set (beacon_paths es) \<and> is_stale e view s2 q then None else view s2 q)"
proof -
  from assms(2-4) obtain found where found: "list_entries e s2 es [] = (s', Inr found)"
    and sessions: "sessions = sort_key sb_port found"
    by (auto simp: list_sessions_def split: prod.splits sum.splits)
  from list_entries_effect [OF assms(1) found] show ?thesis by (simp add: sessions)
qed

text \<open>A directory with a live session, one whose process is gone, and a half-written file.\<close>

definition sample_beacon :: "u32 \<Rightarrow> u16 \<Rightarrow> beacon" where
  "sample_beacon pid port = \<lparr>sb_session_id = word_of_int (uint port), sb_pid = pid, sb_address = ''127.0.0.1'',
     sb_port = port, sb_project_name = ''p'', sb_project_id = ''roxo'', sb_project_path = [RootDir],
     sb_place_id = None, sb_game_id = None, sb_serve_place_ids = None, sb_auto_connect = ''matching'',
     sb_server_version = ''7'', sb_started_at = 0\<rparr>"

definition sample_fs :: "in_memory_fs backend_ops" where
  "sample_fs = in_memory_backend\<lparr>be_create_dir_all := (\<lambda>s p. (s, Inr ()))\<rparr>"

lemma sample_backend: "vfs_backend sample_fs im_view"
proof -
  have same: "be_read sample_fs = be_read in_memory_backend" "be_exists sample_fs = be_exists in_memory_backend"
    "be_metadata sample_fs = be_metadata in_memory_backend" "be_write sample_fs = be_write in_memory_backend"
    "be_remove_file sample_fs = be_remove_file in_memory_backend" "be_watch sample_fs = be_watch in_memory_backend"
    "be_unwatch sample_fs = be_unwatch in_memory_backend"
    "be_canonicalize sample_fs = be_canonicalize in_memory_backend"
    by (simp_all add: sample_fs_def)
  show ?thesis using imfs.vfs_backend_axioms unfolding vfs_backend_def same .
qed

definition sample_env :: "in_memory_fs registry_env" where
  "sample_env = \<lparr>rg_fs = sample_fs,
     rg_var_os = (\<lambda>v. if v = ''HOME'' then Some [RootDir] else None), rg_process_id = 1,
     rg_kill = (\<lambda>pid sig. if pid = 2 then 0 else - 1), rg_to_json = (\<lambda>b. Inr [char_of (unat (sb_pid b))]),
     rg_from_json = (\<lambda>t. case t of [c] \<Rightarrow> Some (sample_beacon (of_char c) 34872) | _ \<Rightarrow> None),
     rg_canonicalize = Inr\<rparr>"

definition sample_dir :: in_memory_fs where
  "sample_dir = fst (load_snapshot im_new [RootDir] (VDir [(''.roxo'', VDir [(''sessions'',
     VDir [(''1.json'', VFile [CHR 0x02]), (''2.json'', VFile [CHR 0x03]), (''3.json'', VFile ''oops''), (''n.txt'', VFile [])])])]))"

text \<open>The directory the sample environment finds.\<close>

definition sample_sessions :: path where
  "sample_sessions = [RootDir, Normal ''.roxo'', Normal ''sessions'']"

lemma sample_sessions_dir: "sessions_dir sample_env sample_dir = (sample_dir, Inr sample_sessions)"
  by code_simp

lemma sample_read_dir: "be_read_dir (rg_fs sample_env) sample_dir sample_sessions =
    (sample_dir, Inr (map (\<lambda>n. Inr (sample_sessions @ [Normal n])) [''1.json'', ''2.json'', ''3.json'', ''n.txt'']))"
  by code_simp

lemma sample_listing: "list_sessions sample_env sample_dir =
    (fst (list_sessions sample_env sample_dir), Inr [sample_beacon 2 34872])"
  by code_simp

lemma listing_prunes_stale_beacons_witness:
  "\<exists>s'. list_sessions sample_env sample_dir = (s', Inr [sample_beacon 2 34872]) \<and>
     im_view s' (sample_sessions @ [Normal ''3.json'']) = None"
proof -
  have "vfs_backend (rg_fs sample_env) im_view"
    using sample_backend by (simp add: sample_env_def)
  from listing_prunes_stale_beacons [OF this sample_sessions_dir sample_read_dir sample_listing]
  have "im_view (fst (list_sessions sample_env sample_dir)) = (\<lambda>q. if q \<in> set (beacon_paths
      (map (\<lambda>n. Inr (sample_sessions @ [Normal n])) [''1.json'', ''2.json'', ''3.json'', ''n.txt'']))
      \<and> is_stale sample_env im_view sample_dir q then None else im_view sample_dir q)"
    by blast
  moreover have "(sample_sessions @ [Normal ''3.json'']) \<in> set (beacon_paths
      (map (\<lambda>n. Inr (sample_sessions @ [Normal n])) [''1.json'', ''2.json'', ''3.json'', ''n.txt'']))"
    by code_simp
  moreover have "live_beacon sample_env im_view sample_dir (sample_sessions @ [Normal ''3.json'']) = None"
    "im_view sample_dir (sample_sessions @ [Normal ''3.json'']) = Some (AFile ''oops'')"
    by code_simp+
  ultimately have "im_view (fst (list_sessions sample_env sample_dir)) (sample_sessions @ [Normal ''3.json'']) = None"
    by (simp add: is_stale_def)
  with sample_listing show ?thesis by blast
qed

text \<open>
  C25. The peer ports a server advertises are strictly ascending, at most 16, and the smallest ports
  that beacons of other sessions name: if any such port is missing, 16 smaller ones are there.  The
  file system is not changed once the directory exists.
\<close>

theorem peer_ports_are_the_smallest:
  assumes "vfs_backend (rg_fs e) view"
    and "sessions_dir e s = (s1, Inr dir)" and "be_read_dir (rg_fs e) s1 dir = (s2, Inr es)"
    and "peers = {sb_port b | b p. p \<in> set (beacon_paths es) \<and> beacon_at e view s2 p = Some b \<and> sb_session_id b \<noteq> own}"
  shows "\<exists>ports. peer_ports e s own = (s2, ports) \<and> sorted_wrt (<) ports \<and> length ports \<le> 16 \<and>
    set ports \<subseteq> peers \<and> (\<forall>x \<in> peers - set ports. length ports = 16 \<and> (\<forall>y \<in> set ports. y < x))"
proof -
  let ?all = "map sb_port (filter (\<lambda>b. sb_session_id b \<noteq> own) (List.map_filter (beacon_at e view s2) (beacon_paths es)))"
  let ?ds = "remdups_adj (sort ?all)"
  have all: "set ?all = peers"
    unfolding assms(4) set_map set_filter set_mapfilter by blast
  have pp: "peer_ports e s own = (s2, take 16 ?ds)"
    by (simp add: peer_ports_def assms(2,3) peer_entries_ports [OF assms(1)] MAX_PEER_PORTS_def)
  have ds: "sorted_wrt (<) ?ds"
    by (simp add: strict_sorted_iff distinct_remdups_adj_sorted)
  have "y < x" if "x \<in> set ?ds" "x \<notin> set (take 16 ?ds)" "y \<in> set (take 16 ?ds)" for x y
  proof -
    have "sorted_wrt (<) (take 16 ?ds @ drop 16 ?ds)" using ds by (simp only: append_take_drop_id)
    moreover have "x \<in> set (drop 16 ?ds)" using that(1,2) by (metis Un_iff append_take_drop_id set_append)
    ultimately show ?thesis using that(3) unfolding sorted_wrt_append by blast
  qed
  moreover have "length (take 16 ?ds) = 16" if "x \<in> set ?ds" "x \<notin> set (take 16 ?ds)" for x
    using that by (cases "length ?ds \<le> 16") auto
  moreover have "set (take 16 ?ds) \<subseteq> peers"
    using set_take_subset [of 16 ?ds] all by auto
  ultimately show ?thesis
    using pp ds all by (intro exI [of _ "take 16 ?ds"]) (auto simp: sorted_wrt_take)
qed

lemma peer_ports_are_the_smallest_witness:
  "\<exists>ports. peer_ports sample_env sample_dir 0 = (sample_dir, ports) \<and> sorted_wrt (<) ports"
proof -
  have "vfs_backend (rg_fs sample_env) im_view"
    using sample_backend by (simp add: sample_env_def)
  from peer_ports_are_the_smallest [OF this sample_sessions_dir sample_read_dir refl, of 0]
  show ?thesis by blast
qed

end
