(* ===== verification/Float_Display.thy ===== *)
theory Float_Display
  imports Floats Text
begin

text \<open>
  How the standard library prints a finite \<open>f64\<close> with \<open>{}\<close>: the shortest decimal digits that read
  back as the same float (the closest ones to its value among those), without an exponent.
\<close>

text \<open>
  The nearest double of \<open>d * 10 ^ p\<close>, on magnitudes.  A negative power of ten is divided out to 64 or
  more bits, with a last bit that says whether anything was cut off.
\<close>

definition decimal_bits :: "nat \<Rightarrow> int \<Rightarrow> nat" where
  "decimal_bits d p =
     (if 0 \<le> p then encode double (d * 10 ^ nat p) 0
      else (let den = 10 ^ nat (- p);
                s = 64 + floorlog 2 den;
                num = d * 2 ^ s;
                q = num div den
            in encode double (2 * q + (if num mod den = 0 then 0 else 1)) (- int s - 1)))"

text \<open>\<open>m * 2 ^ e\<close> in units of \<open>10 ^ p\<close>: the quotient and whether the next integer is nearer.\<close>

definition scale_down :: "nat \<Rightarrow> int \<Rightarrow> int \<Rightarrow> nat \<times> bool" where
  "scale_down m e p =
     (let num = m * 2 ^ nat e * 10 ^ nat (- p);
          den = 2 ^ nat (- e) * 10 ^ nat p
      in (num div den, den < 2 * (num mod den)))"

text \<open>The candidate with the unit \<open>10 ^ p\<close>, if one of the two neighbours reads back.\<close>

definition shortest_at :: "nat \<Rightarrow> int \<Rightarrow> nat \<Rightarrow> int \<Rightarrow> nat option" where
  "shortest_at m e bits p =
     (case scale_down m e p of
        (d, up) \<Rightarrow>
          (let near = (if up then d + 1 else d); far = (if up then d else d + 1)
           in if decimal_bits near p = bits then Some near
              else if decimal_bits far p = bits then Some far else None))"

text \<open>The number of decimal digits before the point of a value: the first power of ten above it.\<close>

fun decimal_exponent :: "nat \<Rightarrow> nat \<Rightarrow> int \<Rightarrow> int \<Rightarrow> int" where
  "decimal_exponent 0 m e k = k"
| "decimal_exponent (Suc n) m e k =
     (if fst (scale_down m e k) = 0 then decimal_exponent n m e (k - 1) else k + 1)"

text \<open>Units from the largest to the one of 17 digits, which always reads back.\<close>

fun shortest_from :: "nat \<Rightarrow> nat \<Rightarrow> int \<Rightarrow> nat \<Rightarrow> int \<Rightarrow> nat \<times> int" where
  "shortest_from 0 m e bits p = (fst (scale_down m e p), p)"
| "shortest_from (Suc n) m e bits p =
     (case shortest_at m e bits p of Some d \<Rightarrow> (d, p) | None \<Rightarrow> shortest_from n m e bits (p - 1))"

text \<open>A candidate that was rounded up to a power of ten has fewer digits.\<close>

function strip_zeros :: "nat \<Rightarrow> int \<Rightarrow> nat \<times> int" where
  "strip_zeros d p = (if d \<noteq> 0 \<and> d mod 10 = 0 then strip_zeros (d div 10) (p + 1) else (d, p))"
  by pat_completeness auto
termination by (relation "measure fst") auto

declare strip_zeros.simps [simp del]

definition shortest_digits :: "nat \<Rightarrow> nat \<times> int" where
  "shortest_digits bits =
     (case decode double bits of
        (m, e) \<Rightarrow>
          (case shortest_from 17 m e bits (decimal_exponent 700 m e 309 - 1) of (d, p) \<Rightarrow> strip_zeros d p))"

text \<open>Digits with a decimal point: \<open>d * 10 ^ p\<close>.\<close>

definition positional :: "nat \<Rightarrow> int \<Rightarrow> string" where
  "positional d p =
     (let ds = decimal d
      in if 0 \<le> p then ds @ replicate (nat p) (CHR ''0'')
         else (let k = nat (- p);
                   padded = replicate (k + 1 - length ds) (CHR ''0'') @ ds;
                   whole = take (length padded - k) padded
               in whole @ ''.'' @ drop (length padded - k) padded))"

definition display_f64 :: "f64 \<Rightarrow> string" where
  "display_f64 w =
     (let mag = unat w mod 2 ^ 63; sign = (if 2 ^ 63 \<le> unat w then ''-'' else '''')
      in if infinity_bits double < mag then ''NaN''
         else if mag = infinity_bits double then sign @ ''inf''
         else if mag = 0 then sign @ ''0''
         else case shortest_digits mag of (d, p) \<Rightarrow> sign @ positional d p)"

text \<open>What a printed number is made of.\<close>

definition number_char :: "char \<Rightarrow> bool" where
  "number_char c \<longleftrightarrow> in_range 48 57 c \<or> c = CHR ''.'' \<or> c = CHR ''-''"

lemma decimal_digits: "\<forall>c \<in> set (decimal n). in_range 48 57 c"
proof (induction n rule: decimal.induct)
  case (1 n)
  show ?case
  proof (cases "n < 10")
    case True
    then show ?thesis by (simp add: decimal.simps [of n] in_range_def byte_def)
  next
    case False
    then show ?thesis using 1 by (subst decimal.simps) (simp add: in_range_def byte_def)
  qed
qed

lemma decimal_not_Nil [simp]: "decimal n \<noteq> []"
  by (subst decimal.simps) simp

lemma positional_chars: "\<forall>c \<in> set (positional d p). number_char c"
  using decimal_digits [of d]
  by (auto simp: positional_def number_char_def Let_def in_range_def byte_def dest!: in_set_takeD in_set_dropD)

lemma display_f64_chars:
  assumes "unat w mod 2 ^ 63 < infinity_bits double"
  shows "display_f64 w \<noteq> [] \<and> (\<forall>c \<in> set (display_f64 w). number_char c)"
proof -
  have "positional d p \<noteq> []" for d p
    by (cases "0 \<le> p") (auto simp: positional_def Let_def)
  moreover have "number_char CHR ''0''" "number_char CHR ''-''"
    by (simp_all add: number_char_def in_range_def byte_def)
  ultimately show ?thesis
    using assms positional_chars by (auto simp: display_f64_def Let_def split: prod.split)
qed

end
