(* ===== verification/Lua_Ast.thy ===== *)
theory Lua_Ast
  imports Float_Display
begin

text \<open>
  The printer of generated Lua code, \<open>src/src/lua_ast.rs\<close>.  The stream is a state that is threaded
  through the writers, as in the source; writing to a string never fails, and a panic is \<open>None\<close>.
\<close>

datatype expression =
    ENil
  | EBool bool
  | ENumber f64
  | EString string
  | ETable "(expression \<times> expression) list"
  | EArray "expression list"

datatype statement = Return expression

abbreviation newline :: char where "newline \<equiv> CHR 0x0A"
abbreviation tab :: char where "tab \<equiv> CHR 0x09"
abbreviation quote :: char where "quote \<equiv> CHR 0x22"
abbreviation backslash :: char where "backslash \<equiv> CHR 0x5C"


section \<open>The stream\<close>

record lua_stream =
  indent_level :: nat
  is_start_of_line :: bool
  stream_text :: string

definition stream_new :: lua_stream where
  "stream_new = \<lparr>indent_level = 0, is_start_of_line = True, stream_text = []\<rparr>"

definition stream_indent :: "lua_stream \<Rightarrow> lua_stream" where
  "stream_indent st = st\<lparr>indent_level := indent_level st + 1\<rparr>"

definition stream_unindent :: "lua_stream \<Rightarrow> lua_stream option" where
  "stream_unindent st = (if indent_level st = 0 then None else Some (st\<lparr>indent_level := indent_level st - 1\<rparr>))"

definition stream_line :: "lua_stream \<Rightarrow> lua_stream" where
  "stream_line st = st\<lparr>is_start_of_line := True, stream_text := stream_text st @ [newline]\<rparr>"

text \<open>One piece between line breaks, and \<open>write_str\<close>.\<close>

definition write_piece :: "string \<Rightarrow> lua_stream \<Rightarrow> lua_stream" where
  "write_piece line st =
     (if line = [] then st
      else st\<lparr>is_start_of_line := False,
              stream_text := stream_text st @ (if is_start_of_line st then replicate (indent_level st) tab else []) @ line\<rparr>)"

definition write_str :: "string \<Rightarrow> lua_stream \<Rightarrow> lua_stream" where
  "write_str value st =
     (case split_on newline value of
        [] \<Rightarrow> st
      | first_line # lines \<Rightarrow> fold (\<lambda>line st. write_piece line (stream_line st)) lines (write_piece first_line st))"


section \<open>Printing\<close>

definition lua_keywords :: "string list" where
  "lua_keywords = [''and'', ''break'', ''do'', ''else'', ''elseif'', ''end'', ''false'', ''for'', ''function'',
     ''if'', ''in'', ''local'', ''nil'', ''not'', ''or'', ''repeat'', ''return'', ''then'', ''true'', ''until'', ''while'']"

definition is_keyword :: "string \<Rightarrow> bool" where
  "is_keyword s \<longleftrightarrow> s \<in> set lua_keywords"

definition is_valid_ident_char_start :: "char \<Rightarrow> bool" where
  "is_valid_ident_char_start c \<longleftrightarrow> in_range 65 90 c \<or> in_range 97 122 c \<or> c = CHR ''_''"

definition is_valid_ident_char :: "char \<Rightarrow> bool" where
  "is_valid_ident_char c \<longleftrightarrow> in_range 65 90 c \<or> in_range 97 122 c \<or> in_range 48 57 c \<or> c = CHR ''_''"

definition is_valid_ident :: "string \<Rightarrow> bool" where
  "is_valid_ident s =
     (if is_keyword s then False
      else case s of
        [] \<Rightarrow> False
      | c # cs \<Rightarrow> is_valid_ident_char_start c \<and> list_all is_valid_ident_char cs)"

definition escape_char :: "char \<Rightarrow> string" where
  "escape_char c =
     (if c = quote then [backslash, quote]
      else if c = CHR 0x0D then [backslash, CHR ''r'']
      else if c = newline then [backslash, CHR ''n'']
      else if c = tab then [backslash, CHR ''t'']
      else if c = backslash then [backslash, backslash]
      else [c])"

definition lua_escape :: "string \<Rightarrow> string" where
  "lua_escape s = concat (map escape_char s)"

definition fmt_f64 :: "f64 \<Rightarrow> string" where
  "fmt_f64 x =
     (let mag = unat x mod 2 ^ 63
      in if infinity_bits double < mag then ''0/0''
         else if mag = infinity_bits double then (if 2 ^ 63 \<le> unat x then ''-math.huge'' else ''math.huge'')
         else display_f64 x)"

text \<open>\<open>fmt_lua\<close>, \<open>fmt_table_key\<close> and the loops over entries and elements.\<close>

function (sequential) fmt_lua :: "expression \<Rightarrow> lua_stream \<Rightarrow> lua_stream option"
  and fmt_table_key :: "expression \<Rightarrow> lua_stream \<Rightarrow> lua_stream option"
  and fmt_entries :: "(expression \<times> expression) list \<Rightarrow> lua_stream \<Rightarrow> lua_stream option"
  and fmt_elements :: "expression list \<Rightarrow> lua_stream \<Rightarrow> lua_stream option"
where
  "fmt_lua ENil st = Some (write_str ''nil'' st)"
| "fmt_lua (EBool b) st = Some (write_str (if b then ''true'' else ''false'') st)"
| "fmt_lua (ENumber x) st = Some (write_str (fmt_f64 x) st)"
| "fmt_lua (EString s) st = Some (write_str [quote] (write_str (lua_escape s) (write_str [quote] st)))"
| "fmt_lua (ETable entries) st =
     (case fmt_entries entries (stream_indent (write_str [CHR ''{'', newline] st)) of
        None \<Rightarrow> None
      | Some st' \<Rightarrow> (case stream_unindent st' of None \<Rightarrow> None | Some st'' \<Rightarrow> Some (write_str ''}'' st'')))"
| "fmt_lua (EArray elements) st =
     (case fmt_elements elements (write_str ''{'' st) of None \<Rightarrow> None | Some st' \<Rightarrow> Some (write_str ''}'' st'))"
| "fmt_table_key ENil st = None"
| "fmt_table_key (EString s) st =
     Some (if is_valid_ident s then write_str s st
           else write_str [quote, CHR '']''] (write_str (lua_escape s) (write_str [CHR ''['', quote] st)))"
| "fmt_table_key (EBool b) st =
     (case fmt_lua (EBool b) (write_str ''['' st) of None \<Rightarrow> None | Some st' \<Rightarrow> Some (write_str '']'' st'))"
| "fmt_table_key (ENumber x) st =
     (case fmt_lua (ENumber x) (write_str ''['' st) of None \<Rightarrow> None | Some st' \<Rightarrow> Some (write_str '']'' st'))"
| "fmt_table_key (ETable es) st =
     (case fmt_lua (ETable es) (write_str ''['' st) of None \<Rightarrow> None | Some st' \<Rightarrow> Some (write_str '']'' st'))"
| "fmt_table_key (EArray es) st =
     (case fmt_lua (EArray es) (write_str ''['' st) of None \<Rightarrow> None | Some st' \<Rightarrow> Some (write_str '']'' st'))"
| "fmt_entries [] st = Some st"
| "fmt_entries ((key, val) # entries) st =
     (case fmt_table_key key st of
        None \<Rightarrow> None
      | Some st1 \<Rightarrow>
          (case fmt_lua val (write_str '' = '' st1) of
             None \<Rightarrow> None
           | Some st2 \<Rightarrow> fmt_entries entries (write_str [CHR '','', newline] st2)))"
| "fmt_elements [] st = Some st"
| "fmt_elements (e # elements) st =
     (case fmt_lua e st of
        None \<Rightarrow> None
      | Some st1 \<Rightarrow> fmt_elements elements (if elements = [] then st1 else write_str '', '' st1))"
  by pat_completeness auto
termination
  by (relation "measure (\<lambda>x. case x of
        Inl (Inl (e, _)) \<Rightarrow> 2 * size e
      | Inl (Inr (e, _)) \<Rightarrow> 2 * size e + 1
      | Inr (Inl (entries, _)) \<Rightarrow> 2 * size_list (size_prod size size) entries
      | Inr (Inr (elements, _)) \<Rightarrow> 2 * size_list size elements)") auto

definition statement_to_string :: "statement \<Rightarrow> string option" where
  "statement_to_string s =
     (case s of Return e \<Rightarrow> map_option stream_text (fmt_lua e (write_str ''return '' stream_new)))"

section \<open>The printed text\<close>

text \<open>What is written, as a function of the nesting depth alone.\<close>

definition quoted :: "string \<Rightarrow> string" where
  "quoted s = [quote] @ lua_escape s @ [quote]"

definition tabs :: "nat \<Rightarrow> string" where
  "tabs n = replicate n tab"

fun render :: "nat \<Rightarrow> expression \<Rightarrow> string" where
  "render n ENil = ''nil''"
| "render n (EBool b) = (if b then ''true'' else ''false'')"
| "render n (ENumber x) = fmt_f64 x"
| "render n (EString s) = quoted s"
| "render n (ETable entries) =
     [CHR ''{'', newline] @
     concat (map (\<lambda>(key, val). tabs (Suc n) @
       (case key of EString s \<Rightarrow> (if is_valid_ident s then s else ''['' @ quoted s @ '']'')
        | _ \<Rightarrow> ''['' @ render (Suc n) key @ '']'') @ '' = '' @ render (Suc n) val @ [CHR '','', newline]) entries) @
     tabs n @ ''}''"
| "render n (EArray elements) = ''{'' @ join_with '', '' (map (render n) elements) @ ''}''"

definition render_key :: "nat \<Rightarrow> expression \<Rightarrow> string" where
  "render_key n key =
     (case key of EString s \<Rightarrow> (if is_valid_ident s then s else ''['' @ quoted s @ '']'')
      | _ \<Rightarrow> ''['' @ render n key @ '']'')"

text \<open>No table has \<open>nil\<close> as a key.\<close>

fun keys_ok :: "expression \<Rightarrow> bool" where
  "keys_ok (ETable entries) \<longleftrightarrow> (\<forall>(key, val) \<in> set entries. key \<noteq> ENil \<and> keys_ok key \<and> keys_ok val)"
| "keys_ok (EArray elements) \<longleftrightarrow> (\<forall>e \<in> set elements. keys_ok e)"
| "keys_ok _ \<longleftrightarrow> True"

text \<open>A piece without a line break, at the current place of the stream.\<close>

definition put :: "string \<Rightarrow> lua_stream \<Rightarrow> lua_stream" where
  "put text st = write_piece text st"

lemma split_on_none: "d \<notin> set s \<Longrightarrow> split_on d s = [s]"
  by (induction s) auto

lemma split_on_snoc: "d \<notin> set s \<Longrightarrow> split_on d (s @ [d]) = [s, []]"
  by (induction s) auto

lemma write_line_free: "newline \<notin> set s \<Longrightarrow> write_str s st = put s st"
  by (simp add: write_str_def split_on_none put_def)

lemma write_line_end: "newline \<notin> set s \<Longrightarrow> write_str (s @ [newline]) st = stream_line (put s st)"
  by (simp add: write_str_def split_on_snoc put_def write_piece_def)

lemma put_put: "put b (put a st) = put (a @ b) st"
  by (auto simp: put_def write_piece_def)

lemma put_Nil [simp]: "put [] st = st"
  by (simp add: put_def write_piece_def)

lemma put_indent [simp]: "indent_level (put a st) = indent_level st"
  by (simp add: put_def write_piece_def)

text \<open>Printed text has line breaks only in tables; a whole expression acts like one piece.\<close>

definition emit :: "string \<Rightarrow> lua_stream \<Rightarrow> lua_stream" where
  "emit text st = st\<lparr>is_start_of_line := False,
     stream_text := stream_text st @ (if is_start_of_line st then tabs (indent_level st) else []) @ text\<rparr>"

lemma put_emit: "a \<noteq> [] \<Longrightarrow> put a st = emit a st"
  by (simp add: put_def write_piece_def emit_def tabs_def)

lemma emit_emit: "emit b (emit a st) = emit (a @ b) st"
  by (simp add: emit_def)

lemma emit_indent [simp]: "indent_level (emit a st) = indent_level st"
  by (simp add: emit_def)

lemma escape_line_free: "newline \<notin> set (lua_escape s)"
  by (auto simp: lua_escape_def escape_char_def)

lemma write_emit: "newline \<notin> set a \<Longrightarrow> a \<noteq> [] \<Longrightarrow> write_str a st = emit a st"
  by (simp add: write_line_free put_emit)

lemma write_quoted: "write_str [quote] (write_str (lua_escape s) (write_str [quote] st)) = emit (quoted s) st"
proof -
  have "write_str (lua_escape s) st' = put (lua_escape s) st'" for st'
    by (rule write_line_free) (rule escape_line_free)
  then show ?thesis by (simp add: write_line_free put_put quoted_def put_emit emit_emit)
qed

lemma fmt_f64_cases:
  obtains "fmt_f64 x = ''0/0''" | "fmt_f64 x = ''math.huge''" | "fmt_f64 x = ''-math.huge''"
  | "fmt_f64 x \<noteq> []" "\<forall>c \<in> set (fmt_f64 x). number_char c"
proof -
  let ?mag = "unat x mod 2 ^ 63"
  consider "infinity_bits double < ?mag" | "infinity_bits double = ?mag" | "?mag < infinity_bits double" by linarith
  then show thesis
  proof cases
    case 3
    then have "fmt_f64 x = display_f64 x" by (simp add: fmt_f64_def Let_def)
    with display_f64_chars [OF 3] show thesis using that(4) by simp
  next
    case 2
    then show thesis using that(2,3) by (cases "2 ^ 63 \<le> unat x") (simp_all add: fmt_f64_def Let_def)
  qed (use that(1) in \<open>simp add: fmt_f64_def Let_def\<close>)
qed

lemma number_char_not_newline: "\<not> number_char newline"
  by (simp add: number_char_def in_range_def byte_def)

lemma fmt_f64_line: "newline \<notin> set (fmt_f64 x)" "fmt_f64 x \<noteq> []"
  by (cases rule: fmt_f64_cases [of x]; use number_char_not_newline in auto)+

lemma ident_line: "is_valid_ident s \<Longrightarrow> newline \<notin> set s \<and> s \<noteq> []"
  by (auto simp: is_valid_ident_def list_all_iff is_valid_ident_char_def is_valid_ident_char_start_def
      in_range_def byte_def split: list.splits if_splits)

definition entry_text :: "nat \<Rightarrow> expression \<times> expression \<Rightarrow> string" where
  "entry_text n = (\<lambda>(key, val). tabs n @ render_key n key @ '' = '' @ render n val @ [CHR '','', newline])"

lemma render_table: "render n (ETable entries) =
    [CHR ''{'', newline] @ concat (map (entry_text (Suc n)) entries) @ tabs n @ ''}''"
  by (simp add: entry_text_def [abs_def] render_key_def [abs_def] cong: map_cong)

text \<open>The stream prints the text of an expression, and panics exactly on a \<open>nil\<close> key.\<close>

lemma fmt_render:
  "fmt_lua e st = (if keys_ok e then Some (emit (render (indent_level st) e) st) else None)"
  "fmt_table_key key st =
     (if key \<noteq> ENil \<and> keys_ok key then Some (emit (render_key (indent_level st) key) st) else None)"
  "is_start_of_line st \<Longrightarrow> fmt_entries entries st =
     (if keys_ok (ETable entries)
      then Some (st\<lparr>stream_text := stream_text st @ concat (map (entry_text (indent_level st)) entries)\<rparr>) else None)"
  "fmt_elements elements st =
     (if keys_ok (EArray elements)
      then Some (if elements = [] then st else emit (join_with '', '' (map (render (indent_level st)) elements)) st) else None)"
proof (induction e st and key st and entries st and elements st
    rule: fmt_lua_fmt_table_key_fmt_entries_fmt_elements.induct)
  case (4 s st)
  then show ?case by (simp only: fmt_lua.simps write_quoted render.simps keys_ok.simps if_True)
next
  case (5 entries st)
  let ?st = "stream_indent (write_str [CHR ''{'', newline] st)"
  have st: "?st = st\<lparr>indent_level := Suc (indent_level st), is_start_of_line := True,
      stream_text := stream_text st @ (if is_start_of_line st then tabs (indent_level st) else []) @ [CHR ''{'', newline]\<rparr>"
    using write_line_end [of "''{''" st] by (simp add: stream_indent_def stream_line_def put_def write_piece_def tabs_def)
  then have "is_start_of_line ?st" by simp
  from 5 [OF this] show ?case
    unfolding render_table by (simp add: st stream_unindent_def write_emit emit_def del: render.simps)
next
  case (6 elements st)
  then show ?case by (auto simp: write_emit emit_emit)
next
  case (9 b st)
  then show ?case by (simp add: write_emit emit_emit render_key_def)
next
  case (10 x st)
  then show ?case using fmt_f64_line [of x] by (simp add: write_emit emit_emit render_key_def)
next
  case (11 es st)
  then show ?case by (simp add: write_emit emit_emit render_key_def)
next
  case (12 es st)
  then show ?case by (simp add: write_emit emit_emit render_key_def)
next
  case (8 s st)
  have "write_str [quote, CHR '']''] (write_str (lua_escape s) (write_str [CHR ''['', quote] st)) =
      emit (''['' @ quoted s @ '']'') st"
    using write_line_free [OF escape_line_free] by (simp add: write_line_free put_put quoted_def put_emit emit_emit)
  then show ?case using ident_line [of s] by (simp add: render_key_def write_emit)
next
  case (14 key val entries st)
  then have key: "fmt_table_key key st = (if key \<noteq> ENil \<and> keys_ok key then Some (emit (render_key (indent_level st) key) st) else None)"
    by simp
  show ?case
  proof (cases "key \<noteq> ENil \<and> keys_ok key \<and> keys_ok val")
    case True
    let ?st1 = "emit (render_key (indent_level st) key) st"
    let ?st2 = "emit (render_key (indent_level st) key @ '' = '' @ render (indent_level st) val) st"
    have v: "fmt_lua val (write_str '' = '' ?st1) = Some ?st2"
      using 14(2) [of ?st1] True key by (simp add: write_emit emit_emit)
    let ?st3 = "write_str [CHR '','', newline] ?st2"
    have st3: "?st3 = st\<lparr>stream_text := stream_text st @ entry_text (indent_level st) (key, val)\<rparr>"
      using write_line_end [of "'',''" ?st2] 14(4)
      by (simp add: stream_line_def put_def write_piece_def emit_def entry_text_def)
    then have "is_start_of_line ?st3" using 14(4) by simp
    moreover have "fmt_table_key key st = Some ?st1" using key True by simp
    ultimately have "fmt_entries entries ?st3 = (if keys_ok (ETable entries)
        then Some (?st3\<lparr>stream_text := stream_text ?st3 @ concat (map (entry_text (indent_level ?st3)) entries)\<rparr>)
        else None)"
      using 14(3) v by blast
    moreover have "fmt_entries ((key, val) # entries) st = fmt_entries entries ?st3"
      using key True v by simp
    ultimately show ?thesis unfolding st3 using True by simp
  next
    case False
    then show ?thesis using key 14(2) by (auto simp: write_emit)
  qed
next
  case (16 e elements st)
  then show ?case by (cases elements) (auto simp: write_emit emit_emit)
qed (use fmt_f64_line in \<open>auto simp: write_emit\<close>)


section \<open>Reading the text back\<close>

text \<open>
  A reader of Lua's literals and table constructors, written from the Lua manual: spaces, tabs and
  line breaks between tokens are skipped, numeric and constant expressions are read as one word.
\<close>

datatype lua_value =
    LNil
  | LBool bool
  | LNumber string
  | LString string
  | LTable "(lua_value option \<times> lua_value) list"

definition skip_space :: "string \<Rightarrow> string" where
  "skip_space s = dropWhile (\<lambda>c. c \<in> {CHR '' '', tab, newline}) s"

definition unescape_char :: "char \<Rightarrow> char option" where
  "unescape_char c =
     (if c = quote then Some quote else if c = backslash then Some backslash
      else if c = CHR ''n'' then Some newline else if c = CHR ''t'' then Some tab
      else if c = CHR ''r'' then Some (CHR 0x0D) else None)"

text \<open>After the opening quote; a line break inside is an error.\<close>

fun read_string :: "string \<Rightarrow> (string \<times> string) option" where
  "read_string [] = None"
| "read_string (c # cs) =
     (if c = quote then Some ([], cs)
      else if c = newline then None
      else if c = backslash then
        (case cs of
           [] \<Rightarrow> None
         | d # ds \<Rightarrow>
             (case unescape_char d of
                None \<Rightarrow> None
              | Some u \<Rightarrow> map_option (\<lambda>(s, rest). (u # s, rest)) (read_string ds)))
      else map_option (\<lambda>(s, rest). (c # s, rest)) (read_string cs))"

definition word_char :: "char \<Rightarrow> bool" where
  "word_char c \<longleftrightarrow> is_valid_ident_char c \<or> c \<in> {CHR ''.'', CHR ''-'', CHR ''/''}"

definition word_value :: "string \<Rightarrow> lua_value" where
  "word_value w =
     (if w = ''nil'' then LNil else if w = ''true'' then LBool True else if w = ''false'' then LBool False
      else LNumber w)"

definition expect :: "char \<Rightarrow> string \<Rightarrow> string option" where
  "expect c s = (case skip_space s of [] \<Rightarrow> None | d # ds \<Rightarrow> if d = c then Some ds else None)"

text \<open>An expression, the fields of a table up to its closing brace, and one field.\<close>

fun read_value :: "nat \<Rightarrow> string \<Rightarrow> (lua_value \<times> string) option"
  and read_fields :: "nat \<Rightarrow> string \<Rightarrow> ((lua_value option \<times> lua_value) list \<times> string) option"
  and read_field :: "nat \<Rightarrow> string \<Rightarrow> ((lua_value option \<times> lua_value) \<times> string) option"
where
  "read_value 0 s = None"
| "read_value (Suc n) s =
     (case skip_space s of
        [] \<Rightarrow> None
      | c # cs \<Rightarrow>
          if c = quote then map_option (\<lambda>(t, rest). (LString t, rest)) (read_string cs)
          else if c = CHR ''{'' then map_option (\<lambda>(fields, rest). (LTable fields, rest)) (read_fields n cs)
          else if word_char c then Some (word_value (takeWhile word_char (c # cs)), dropWhile word_char (c # cs))
          else None)"
| "read_fields 0 s = None"
| "read_fields (Suc n) s =
     (case expect (CHR ''}'') s of
        Some rest \<Rightarrow> Some ([], rest)
      | None \<Rightarrow>
          Option.bind (read_field n s) (\<lambda>(field, rest).
            case expect (CHR '','') rest of
              Some rest \<Rightarrow> map_option (\<lambda>(fields, rest). (field # fields, rest)) (read_fields n rest)
            | None \<Rightarrow> map_option (\<lambda>rest. ([field], rest)) (expect (CHR ''}'') rest)))"
| "read_field 0 s = None"
| "read_field (Suc n) s =
     (case expect (CHR ''['') s of
        Some rest \<Rightarrow>
          Option.bind (read_value n rest) (\<lambda>(key, rest).
            Option.bind (expect (CHR '']'') rest) (\<lambda>rest.
              Option.bind (expect (CHR ''='') rest) (\<lambda>rest.
                map_option (\<lambda>(val, rest). ((Some key, val), rest)) (read_value n rest))))
      | None \<Rightarrow>
          (let word = takeWhile word_char (skip_space s)
           in case expect (CHR ''='') (dropWhile word_char (skip_space s)) of
                Some rest \<Rightarrow>
                  if is_valid_ident word
                  then map_option (\<lambda>(val, rest). ((Some (LString word), val), rest)) (read_value n rest)
                  else None
              | None \<Rightarrow> map_option (\<lambda>(val, rest). ((None, val), rest)) (read_value n s)))"

text \<open>The value an expression stands for.\<close>

fun meaning :: "expression \<Rightarrow> lua_value" where
  "meaning ENil = LNil"
| "meaning (EBool b) = LBool b"
| "meaning (ENumber x) = LNumber (fmt_f64 x)"
| "meaning (EString s) = LString s"
| "meaning (ETable entries) = LTable (map (\<lambda>(key, val). (Some (meaning key), meaning val)) entries)"
| "meaning (EArray elements) = LTable (map (\<lambda>e. (None, meaning e)) elements)"

lemma read_escaped: "read_string (lua_escape s @ quote # rest) = Some (s, rest)"
  by (induction s) (simp_all add: lua_escape_def escape_char_def unescape_char_def)

lemma skip_tabs [simp]: "skip_space (tabs n @ s) = skip_space s"
  by (induction n) (simp_all add: tabs_def skip_space_def)

lemma skip_space_Cons: "skip_space (c # s) = (if c \<in> {CHR '' '', tab, newline} then skip_space s else c # s)"
  by (simp add: skip_space_def)

text \<open>Where a word ends.\<close>

definition word_ends :: "string \<Rightarrow> bool" where
  "word_ends s \<longleftrightarrow> (case s of [] \<Rightarrow> True | c # _ \<Rightarrow> \<not> word_char c)"

lemma read_word:
  assumes "\<forall>c \<in> set w. word_char c" and "w \<noteq> []" and "word_ends rest"
  shows "takeWhile word_char (w @ rest) = w" "dropWhile word_char (w @ rest) = rest"
    "skip_space (w @ rest) = w @ rest"
proof -
  show "takeWhile word_char (w @ rest) = w" "dropWhile word_char (w @ rest) = rest"
    using assms by (cases rest; auto simp: word_ends_def)+
  obtain c cs where w: "w = c # cs" "word_char c" using assms(1,2) by (cases w) auto
  then have "c \<notin> {CHR '' '', tab, newline}"
    by (auto simp: word_char_def is_valid_ident_char_def in_range_def byte_def)
  then show "skip_space (w @ rest) = w @ rest" by (simp add: w skip_space_Cons)
qed

lemma word_not_special:
  assumes "word_char c"
  shows "c \<noteq> quote" "c \<noteq> CHR ''{''" "c \<noteq> CHR ''}''" "c \<noteq> CHR ''[''" "c \<noteq> CHR ''=''"
    "c \<notin> {CHR '' '', tab, newline, CHR ''}'', CHR ''['', CHR ''=''}"
  using assms by (auto simp: word_char_def is_valid_ident_char_def in_range_def byte_def)

lemma read_word_value:
  assumes "\<forall>c \<in> set w. word_char c" and "w \<noteq> []" and "word_ends rest"
  shows "read_value (Suc n) (w @ rest) = Some (word_value w, rest)"
proof -
  note word = read_word [OF assms]
  obtain c cs where w: "w = c # cs" "word_char c" using assms(1,2) by (cases w) auto
  with word word_not_special [of c] show ?thesis by simp
qed

lemma fmt_f64_word: "\<forall>c \<in> set (fmt_f64 x). word_char c" "word_value (fmt_f64 x) = LNumber (fmt_f64 x)"
proof -
  have number: "word_char c" if "number_char c" for c
    using that by (auto simp: number_char_def word_char_def is_valid_ident_char_def)
  have letters: "\<not> number_char CHR ''n''" "\<not> number_char CHR ''t''" "\<not> number_char CHR ''f''"
    by (simp_all add: number_char_def in_range_def byte_def)
  show "\<forall>c \<in> set (fmt_f64 x). word_char c"
    by (cases rule: fmt_f64_cases [of x])
      (use number in \<open>auto simp: word_char_def is_valid_ident_char_def in_range_def byte_def\<close>)
  show "word_value (fmt_f64 x) = LNumber (fmt_f64 x)"
    by (cases rule: fmt_f64_cases [of x]) (use letters in \<open>auto simp: word_value_def\<close>)
qed

lemma ident_word: "is_valid_ident s \<Longrightarrow> \<forall>c \<in> set s. word_char c"
  by (auto simp: is_valid_ident_def list_all_iff word_char_def is_valid_ident_char_def is_valid_ident_char_start_def
      split: list.splits if_splits)

text \<open>Text of a value never starts with what ends a table or starts a key.\<close>

lemma render_start:
  obtains c cs where "render n e = c # cs" "c \<notin> {CHR '' '', tab, newline, CHR ''}'', CHR ''['', CHR ''=''}"
proof (cases e)
  case (ENumber x)
  obtain c cs where "fmt_f64 x = c # cs" using fmt_f64_line(2) [of x] by (cases "fmt_f64 x") auto
  moreover from this have "word_char c" using fmt_f64_word(1) [of x] by simp
  ultimately show thesis using that [of c cs] word_not_special(6) [of c] ENumber by simp
next
  case (EBool b)
  then show thesis using that by (cases b) simp_all
qed (use that in \<open>auto simp: quoted_def\<close>)


lemma skip_space_idem [simp]: "skip_space (skip_space s) = skip_space s"
  by (simp add: skip_space_def)

lemma expect_skip: "expect c (skip_space s) = expect c s"
  by (simp add: expect_def)

lemma read_skip: "read_value n (skip_space s) = read_value n s" "read_field n (skip_space s) = read_field n s"
  "read_fields n (skip_space s) = read_fields n s"
proof -
  show v: "read_value n (skip_space s) = read_value n s" for n by (cases n) simp_all
  show f: "read_field n (skip_space s) = read_field n s" for n by (cases n) (auto simp: expect_skip v Let_def split: option.split)
  show "read_fields n (skip_space s) = read_fields n s" by (cases n) (auto simp: expect_skip f split: option.split)
qed

lemma read_space:
  assumes "skip_space s = skip_space s'"
  shows "read_value n s = read_value n s'" "read_fields n s = read_fields n s'"
  using read_skip [of n s] read_skip [of n s'] assms by simp_all

text \<open>How much fuel reading an expression back takes.\<close>

fun read_fuel :: "expression \<Rightarrow> nat" where
  "read_fuel (ETable entries) = Suc (Suc (sum_list (map (\<lambda>(key, val). read_fuel key + read_fuel val + 2) entries)))"
| "read_fuel (EArray elements) = Suc (Suc (sum_list (map (\<lambda>e. read_fuel e + 2) elements)))"
| "read_fuel _ = 1"

definition reads_back :: "expression \<Rightarrow> bool" where
  "reads_back e \<longleftrightarrow> (\<forall>n k rest. read_fuel e \<le> n \<longrightarrow> word_ends rest \<longrightarrow>
     read_value n (render k e @ rest) = Some (meaning e, rest))"

lemma expect_not: "c \<notin> {CHR '' '', tab, newline} \<Longrightarrow> expect d (c # s) = (if c = d then Some s else None)"
  by (simp add: expect_def skip_space_Cons)

lemma expect_render: "d \<in> {CHR ''}'', CHR ''[''} \<Longrightarrow> expect d (render k e @ rest) = None"
  by (rule render_start [of k e]) (auto simp: expect_not)

lemma word_ends_simps [simp]: "word_ends (CHR '','' # s)" "word_ends (CHR ''}'' # s)" "word_ends (CHR '']'' # s)"
  "word_ends (CHR '' '' # s)" "word_ends []"
  by (simp_all add: word_ends_def word_char_def is_valid_ident_char_def in_range_def byte_def)

text \<open>A positional field: what follows its word is no equals sign.\<close>

lemma read_positional:
  assumes "c = CHR '','' \<or> c = CHR ''}''"
  shows "read_field (Suc n) (render k e @ c # rest) =
    map_option (\<lambda>(val, rest). ((None, val), rest)) (read_value n (render k e @ c # rest))"
proof -
  have word: "expect (CHR ''='') (dropWhile word_char (skip_space (w @ c # rest))) = None"
    if "\<forall>d \<in> set w. word_char d" "w \<noteq> []" for w
    using read_word [OF that, of "c # rest"] assms by (auto simp: expect_not)
  have other: "expect (CHR ''='') (dropWhile word_char (skip_space (d # s))) = None"
    if "\<not> word_char d" "d \<notin> {CHR '' '', tab, newline, CHR ''=''}" for d s
    using that by (simp add: skip_space_Cons expect_not)
  have "\<not> word_char quote" "\<not> word_char CHR ''{''" using word_not_special(1,2) by blast+
  then have "expect (CHR ''='') (dropWhile word_char (skip_space (render k e @ c # rest))) = None"
    by (cases e) (use word [of "''nil''"] word [of "''true''"] word [of "''false''"] word [OF fmt_f64_word(1) fmt_f64_line(2)]
        other in \<open>auto simp: quoted_def word_char_def is_valid_ident_char_def in_range_def byte_def\<close>)
  then show ?thesis by (simp add: expect_render)
qed

lemma read_elements:
  assumes "\<forall>e \<in> set es. reads_back e" and "Suc (sum_list (map (\<lambda>e. read_fuel e + 2) es)) \<le> n"
  shows "read_fields n (join_with '', '' (map (render k) es) @ CHR ''}'' # rest) =
    Some (map (\<lambda>e. (None, meaning e)) es, rest)"
  using assms
proof (induction es arbitrary: n)
  case Nil
  then show ?case by (cases n) (simp_all add: expect_not)
next
  case (Cons e es)
  then obtain m where n: "n = Suc (Suc m)" and m: "read_fuel e \<le> m" by (cases n; cases "n - 1") auto
  show ?case
  proof (cases es)
    case Nil
    have "read_value m (render k e @ CHR ''}'' # rest) = Some (meaning e, CHR ''}'' # rest)"
      using Cons.prems(1) m by (simp add: reads_back_def)
    then show ?thesis by (simp add: Nil n expect_render read_positional expect_not del: read_value.simps read_field.simps)
  next
    case (Cons f fs)
    let ?more = "join_with '', '' (map (render k) es) @ CHR ''}'' # rest"
    have "read_value m (render k e @ CHR '','' # CHR '' '' # ?more) = Some (meaning e, CHR '','' # CHR '' '' # ?more)"
      using Cons.prems(1) m by (simp add: reads_back_def)
    moreover have "read_fields (Suc m) (CHR '' '' # ?more) = Some (map (\<lambda>e. (None, meaning e)) es, rest)"
      using Cons.IH [of "Suc m"] Cons.prems n read_space(2) [of "CHR '' '' # ?more" ?more "Suc m"]
      by (simp add: skip_space_Cons del: read_fields.simps)
    ultimately show ?thesis using Cons unfolding n read_fields.simps(2) [of "Suc m"]
      by (simp add: expect_render read_positional expect_not del: read_value.simps read_field.simps read_fields.simps)
  qed
qed


text \<open>A keyed field: the key, the equals sign and the value.\<close>

lemma render_key_cases:
  assumes "key \<noteq> ENil"
  obtains s where "key = EString s" "is_valid_ident s" "render_key n key = s"
  | "render_key n key = ''['' @ render n key @ '']''"
proof (cases "\<exists>s. key = EString s \<and> is_valid_ident s")
  case False
  then show thesis using that(2) assms by (cases key) (auto simp: render_key_def)
qed (use that(1) in \<open>auto simp: render_key_def\<close>)

lemma read_keyed:
  assumes "reads_back key" and "reads_back val" and "key \<noteq> ENil" and "read_fuel key \<le> m" and "read_fuel val \<le> m"
  shows "read_field (Suc m) (tabs k @ render_key k key @ '' = '' @ render k val @ CHR '','' # rest) =
    Some ((Some (meaning key), meaning val), CHR '','' # rest)"
proof -
  have val: "read_value m (CHR '' '' # render k val @ CHR '','' # rest) = Some (meaning val, CHR '','' # rest)"
    using assms(2,5) read_space(1) [of "CHR '' '' # render k val @ CHR '','' # rest" "render k val @ CHR '','' # rest" m]
    by (simp add: reads_back_def skip_space_Cons)
  let ?tail = "CHR '' '' # CHR ''='' # CHR '' '' # render k val @ CHR '','' # rest"
  have equals: "expect (CHR ''='') ?tail = Some (CHR '' '' # render k val @ CHR '','' # rest)"
    by (simp add: expect_def skip_space_Cons)
  have tabs: "expect d (tabs k @ s) = expect d s" for d s by (simp add: expect_def)
  from assms(3) show ?thesis
  proof (cases rule: render_key_cases [of key k])
    case (1 s)
    note word = read_word [OF ident_word [OF 1(2)], of ?tail]
    have s: "s \<noteq> []" using ident_line [OF 1(2)] by simp
    then obtain c cs where "s = c # cs" "word_char c" using ident_word [OF 1(2)] by (cases s) auto
    then have "expect (CHR ''['') (s @ ?tail) = None" using word_not_special(4,6) [of c] by (simp add: expect_not)
    with word s equals val 1 show ?thesis by (simp add: tabs)
  next
    case 2
    have "read_value m (render k key @ CHR '']'' # ?tail) = Some (meaning key, CHR '']'' # ?tail)"
      using assms(1,4) by (simp add: reads_back_def)
    then show ?thesis using equals val 2 by (simp add: tabs expect_not)
  qed
qed

lemma expect_key:
  assumes "key \<noteq> ENil"
  shows "expect (CHR ''}'') (tabs j @ render_key k key @ s) = None"
  using assms
proof (cases rule: render_key_cases [of key k])
  case (1 t)
  then obtain c cs where "t = c # cs" "word_char c" using ident_word [OF 1(2)] ident_line [OF 1(2)] by (cases t) auto
  with 1 show ?thesis using word_not_special(3,6) [of c] by (simp add: expect_def skip_space_Cons)
qed (simp_all add: expect_def skip_space_Cons)

lemma read_entries:
  assumes "\<forall>(key, val) \<in> set es. key \<noteq> ENil \<and> reads_back key \<and> reads_back val"
    and "Suc (sum_list (map (\<lambda>(key, val). read_fuel key + read_fuel val + 2) es)) \<le> n"
  shows "read_fields n (concat (map (entry_text k) es) @ tabs j @ CHR ''}'' # rest) =
    Some (map (\<lambda>(key, val). (Some (meaning key), meaning val)) es, rest)"
  using assms
proof (induction es arbitrary: n)
  case Nil
  then show ?case by (cases n) (simp_all add: expect_def skip_space_Cons)
next
  case (Cons e es)
  obtain key val where e: "e = (key, val)" by (cases e)
  from Cons.prems obtain m where n: "n = Suc (Suc m)" and m: "read_fuel key \<le> m" "read_fuel val \<le> m"
    by (cases n; cases "n - 1") (auto simp: e)
  let ?more = "concat (map (entry_text k) es) @ tabs j @ CHR ''}'' # rest"
  have "read_fields (Suc m) (newline # ?more) = Some (map (\<lambda>(key, val). (Some (meaning key), meaning val)) es, rest)"
    using Cons.IH [of "Suc m"] Cons.prems n e read_space(2) [of "newline # ?more" ?more "Suc m"]
    by (simp add: skip_space_Cons del: read_fields.simps)
  moreover have "read_field (Suc m) (tabs k @ render_key k key @ '' = '' @ render k val @ CHR '','' # newline # ?more) =
      Some ((Some (meaning key), meaning val), CHR '','' # newline # ?more)"
    using Cons.prems(1) e m by (intro read_keyed) auto
  moreover have "key \<noteq> ENil" using Cons.prems(1) e by simp
  ultimately show ?case unfolding n read_fields.simps(2) [of "Suc m"]
    by (simp add: e entry_text_def expect_key expect_not del: read_fields.simps read_field.simps)
qed

lemma reads_backI:
  assumes "\<And>n k rest. read_fuel e \<le> Suc n \<Longrightarrow> word_ends rest \<Longrightarrow>
    read_value (Suc n) (render k e @ rest) = Some (meaning e, rest)"
  shows "reads_back e"
  unfolding reads_back_def
proof (intro allI impI)
  fix n k rest
  assume "read_fuel e \<le> n" and "word_ends rest"
  moreover from this have "n \<noteq> 0" by (cases e) auto
  ultimately show "read_value n (render k e @ rest) = Some (meaning e, rest)"
    using assms [of "n - 1" rest k] by simp
qed

lemma reads_back_word:
  assumes "\<And>k. render k e = w" and "\<forall>c \<in> set w. word_char c" and "w \<noteq> []" and "word_value w = meaning e"
  shows "reads_back e"
  by (rule reads_backI) (simp only: assms(1) read_word_value [OF assms(2,3)] assms(4))

lemma constant_words: "\<forall>w \<in> {''nil'', ''true'', ''false''}. \<forall>c \<in> set w. word_char c"
  by (simp add: word_char_def is_valid_ident_char_def in_range_def byte_def)

lemma render_reads_back: "keys_ok e \<Longrightarrow> reads_back e"
proof (induction e)
  case (ENumber x)
  show ?case by (rule reads_back_word [of _ "fmt_f64 x"]) (simp_all add: fmt_f64_word fmt_f64_line)
next
  case ENil
  show ?case by (rule reads_back_word [of _ "''nil''"]) (use constant_words in \<open>simp_all add: word_value_def\<close>)
next
  case (EBool b)
  show ?case
    by (rule reads_back_word [of _ "if b then ''true'' else ''false''"]) (use constant_words in \<open>simp_all add: word_value_def\<close>)
next
  case (EString s)
  show ?case using read_escaped [of s] by (intro reads_backI) (simp add: quoted_def skip_space_Cons)
next
  case (ETable es)
  have "\<forall>(key, val) \<in> set es. key \<noteq> ENil \<and> reads_back key \<and> reads_back val"
  proof (intro ballI, clarify)
    fix key val
    assume "(key, val) \<in> set es"
    with ETable.IH [OF this] ETable.prems show "key \<noteq> ENil \<and> reads_back key \<and> reads_back val" by fastforce
  qed
  note fields = read_entries [OF this]
  show ?case
  proof (rule reads_backI)
    fix n k rest
    assume "read_fuel (ETable es) \<le> Suc n"
    then have "read_fields n (concat (map (entry_text (Suc k)) es) @ tabs k @ CHR ''}'' # rest) =
        Some (map (\<lambda>(key, val). (Some (meaning key), meaning val)) es, rest)"
      by (intro fields) simp
    moreover have "read_fields n (newline # s) = read_fields n s" for s
      by (rule read_space(2)) (simp add: skip_space_Cons)
    ultimately show "read_value (Suc n) (render k (ETable es) @ rest) = Some (meaning (ETable es), rest)"
      unfolding render_table by (simp add: skip_space_Cons del: read_fields.simps)
  qed
next
  case (EArray es)
  then have "\<forall>e \<in> set es. reads_back e" by auto
  from read_elements [OF this] show ?case by (intro reads_backI) (simp add: skip_space_Cons)
qed

lemma printed_code:
  assumes "keys_ok e"
  shows "\<exists>text. statement_to_string (Return e) = Some (''return '' @ text) \<and>
    read_value (read_fuel e) text = Some (meaning e, [])"
proof -
  have "fmt_lua e (write_str ''return '' stream_new) = Some (emit (render 0 e) (emit ''return '' stream_new))"
    using assms by (simp add: fmt_render write_emit stream_new_def)
  moreover have "read_value (read_fuel e) (render 0 e) = Some (meaning e, [])"
    using render_reads_back [OF assms] by (simp add: reads_back_def) (metis append_Nil2 le_refl word_ends_simps(5))
  ultimately show ?thesis
    by (auto simp: statement_to_string_def emit_def stream_new_def tabs_def)
qed

lemma unprintable_code: "\<not> keys_ok e \<Longrightarrow> statement_to_string (Return e) = None"
  by (simp add: statement_to_string_def fmt_render)

text \<open>
  C9. Printing generated Lua code panics exactly when a table has the key \<open>nil\<close>, and otherwise the
  code is \<open>return\<close> followed by an expression that reads back, with Lua's syntax, as the value that
  was printed: strings byte for byte, tables entry by entry in order, nothing left over.  The text of a
  number is its own meaning; how Lua rounds it is not part of the claim.
\<close>

theorem generated_code_reads_back:
  "case statement_to_string (Return e) of
     None \<Rightarrow> \<not> keys_ok e
   | Some code \<Rightarrow> keys_ok e \<and>
       (\<exists>text. code = ''return '' @ text \<and> read_value (read_fuel e) text = Some (meaning e, []))"
  using printed_code [of e] unprintable_code [of e] by (cases "keys_ok e") auto

end
