(* ===== verification/Json.thy ===== *)
theory Json
  imports Floats
begin

text \<open>
  Parsing JSON with comments, \<open>src/src/json.rs\<close>.  The parser \<open>jsonc_parser\<close> and the deserializer of a
  type (serde) are arguments; the message a caller adds to an error is the value \<open>context\<close>.
\<close>

datatype json_number = PosInt u64 | NegInt "64 word" | FloatNumber f64

text \<open>\<open>Number::as_f64\<close>.\<close>

definition number_as_f64 :: "json_number \<Rightarrow> f64" where
  "number_as_f64 n =
     (case n of PosInt w \<Rightarrow> int_to_f64 (uint w) | NegInt w \<Rightarrow> int_to_f64 (sint w) | FloatNumber x \<Rightarrow> x)"

datatype json_value =
    JNull
  | JBool bool
  | JNumber json_number
  | JString string
  | JArray "json_value list"
  | JObject "(string \<times> json_value) list"

datatype json_error = NotUtf8 | ParseError string | NoJsonValue | InvalidStructure string

type_synonym jsonc = "string \<Rightarrow> string + json_value option"
type_synonym 'a deserializer = "json_value \<Rightarrow> string + 'a"

definition parse_value :: "jsonc \<Rightarrow> string \<Rightarrow> json_error + json_value" where
  "parse_value jsonc text =
     (case jsonc text of
        Inl e \<Rightarrow> Inl (ParseError e)
      | Inr None \<Rightarrow> Inl NoJsonValue
      | Inr (Some v) \<Rightarrow> Inr v)"

definition parse_value_with_context :: "jsonc \<Rightarrow> string \<Rightarrow> 'c \<Rightarrow> 'c \<times> json_error + json_value" where
  "parse_value_with_context jsonc text context =
     (case jsonc text of
        Inl e \<Rightarrow> Inl (context, ParseError e)
      | Inr None \<Rightarrow> Inl (context, NoJsonValue)
      | Inr (Some v) \<Rightarrow> Inr v)"

definition from_str :: "jsonc \<Rightarrow> 'a deserializer \<Rightarrow> string \<Rightarrow> json_error + 'a" where
  "from_str jsonc from_value text =
     (case parse_value jsonc text of
        Inl e \<Rightarrow> Inl e
      | Inr v \<Rightarrow> (case from_value v of Inl e \<Rightarrow> Inl (InvalidStructure e) | Inr x \<Rightarrow> Inr x))"

definition from_str_with_context :: "jsonc \<Rightarrow> 'a deserializer \<Rightarrow> string \<Rightarrow> 'c \<Rightarrow> 'c \<times> json_error + 'a" where
  "from_str_with_context jsonc from_value text context =
     (case parse_value_with_context jsonc text context of
        Inl e \<Rightarrow> Inl e
      | Inr v \<Rightarrow> (case from_value v of Inl e \<Rightarrow> Inl (context, InvalidStructure e) | Inr x \<Rightarrow> Inr x))"

definition parse_value_from_slice_with_context :: "jsonc \<Rightarrow> string \<Rightarrow> 'c \<Rightarrow> 'c \<times> json_error + json_value" where
  "parse_value_from_slice_with_context jsonc bytes context =
     (case from_utf8 bytes of
        None \<Rightarrow> Inl (context, NotUtf8)
      | Some text \<Rightarrow> parse_value_with_context jsonc text context)"

definition from_slice :: "jsonc \<Rightarrow> 'a deserializer \<Rightarrow> string \<Rightarrow> json_error + 'a" where
  "from_slice jsonc from_value bytes =
     (case from_utf8 bytes of None \<Rightarrow> Inl NotUtf8 | Some text \<Rightarrow> from_str jsonc from_value text)"

definition from_slice_with_context :: "jsonc \<Rightarrow> 'a deserializer \<Rightarrow> string \<Rightarrow> 'c \<Rightarrow> 'c \<times> json_error + 'a" where
  "from_slice_with_context jsonc from_value bytes context =
     (case from_utf8 bytes of
        None \<Rightarrow> Inl (context, NotUtf8)
      | Some text \<Rightarrow> from_str_with_context jsonc from_value text context)"

text \<open>The context only decorates the error.\<close>

lemma from_slice_context:
  "from_slice_with_context jsonc from_value bytes context = map_sum (Pair context) id (from_slice jsonc from_value bytes)"
  by (simp add: from_slice_with_context_def from_slice_def from_str_with_context_def from_str_def
      parse_value_with_context_def parse_value_def split: option.split sum.split)

end
