(* ===== verification/Lua_Values.thy ===== *)
theory Lua_Values
  imports Json Lua_Ast
begin

text \<open>
  Data files as modules: the conversions of JSON, TOML and YAML values to Lua expressions
  (\<open>json.rs\<close>, \<open>toml.rs\<close> and \<open>yaml.rs\<close> under \<open>src/src/snapshot_middleware\<close>).  The values are those
  of the crates; a TOML date is its text, and a YAML float its text with the crate's reading of it.
\<close>

section \<open>Conversions\<close>

fun json_to_lua_value :: "json_value \<Rightarrow> expression" where
  "json_to_lua_value JNull = ENil"
| "json_to_lua_value (JBool b) = EBool b"
| "json_to_lua_value (JNumber n) = ENumber (number_as_f64 n)"
| "json_to_lua_value (JString s) = EString s"
| "json_to_lua_value (JArray vs) = EArray (map json_to_lua_value vs)"
| "json_to_lua_value (JObject kvs) = ETable (map (\<lambda>(key, v). (EString key, json_to_lua_value v)) kvs)"

definition json_to_lua :: "json_value \<Rightarrow> statement" where
  "json_to_lua v = Return (json_to_lua_value v)"

datatype toml_value =
    TomlDatetime string
  | TomlBoolean bool
  | TomlFloat f64
  | TomlInteger "64 word"
  | TomlString string
  | TomlArray "toml_value list"
  | TomlTable "(string \<times> toml_value) list"

fun toml_to_lua_value :: "toml_value \<Rightarrow> expression" where
  "toml_to_lua_value (TomlDatetime t) = EString t"
| "toml_to_lua_value (TomlBoolean b) = EBool b"
| "toml_to_lua_value (TomlFloat x) = ENumber x"
| "toml_to_lua_value (TomlInteger n) = ENumber (int_to_f64 (sint n))"
| "toml_to_lua_value (TomlString s) = EString s"
| "toml_to_lua_value (TomlArray vs) = EArray (map toml_to_lua_value vs)"
| "toml_to_lua_value (TomlTable kvs) = ETable (map (\<lambda>(key, v). (EString key, toml_to_lua_value v)) kvs)"

definition toml_to_lua :: "toml_value \<Rightarrow> statement" where
  "toml_to_lua v = Return (toml_to_lua_value v)"

datatype yaml =
    YReal "f64 option"
  | YInteger "64 word"
  | YString string
  | YBoolean bool
  | YArray "yaml list"
  | YHash "(yaml \<times> yaml) list"
  | YAlias nat
  | YNull
  | YBadValue

datatype yaml_error = IntegerTooLarge "64 word" | YamlAlias | BadYaml

definition MAX_FLOAT_INT :: "64 word" where "MAX_FLOAT_INT = push_bit 53 1"

text \<open>The outer option is the panic of a float text that is no number; maps stop at the first error.\<close>

function yaml_to_luau :: "yaml \<Rightarrow> (yaml_error + expression) option"
  and yaml_list :: "yaml list \<Rightarrow> (yaml_error + expression list) option"
  and yaml_entries :: "(yaml \<times> yaml) list \<Rightarrow> (yaml_error + (expression \<times> expression) list) option"
where
  "yaml_to_luau (YString s) = Some (Inr (EString s))"
| "yaml_to_luau (YBoolean b) = Some (Inr (EBool b))"
| "yaml_to_luau (YInteger n) =
     Some (if sint n \<le> sint MAX_FLOAT_INT then Inr (ENumber (int_to_f64 (sint n))) else Inl (IntegerTooLarge n))"
| "yaml_to_luau (YReal r) = map_option (\<lambda>x. Inr (ENumber x)) r"
| "yaml_to_luau YNull = Some (Inr ENil)"
| "yaml_to_luau (YArray vs) = map_option (map_sum id EArray) (yaml_list vs)"
| "yaml_to_luau (YHash kvs) = map_option (map_sum id ETable) (yaml_entries kvs)"
| "yaml_to_luau (YAlias n) = Some (Inl YamlAlias)"
| "yaml_to_luau YBadValue = Some (Inl BadYaml)"
| "yaml_list [] = Some (Inr [])"
| "yaml_list (v # vs) =
     (case yaml_to_luau v of
        None \<Rightarrow> None
      | Some (Inl e) \<Rightarrow> Some (Inl e)
      | Some (Inr x) \<Rightarrow> map_option (map_sum id (Cons x)) (yaml_list vs))"
| "yaml_entries [] = Some (Inr [])"
| "yaml_entries ((k, v) # kvs) =
     (case yaml_to_luau k of
        None \<Rightarrow> None
      | Some (Inl e) \<Rightarrow> Some (Inl e)
      | Some (Inr key) \<Rightarrow>
          (case yaml_to_luau v of
             None \<Rightarrow> None
           | Some (Inl e) \<Rightarrow> Some (Inl e)
           | Some (Inr val) \<Rightarrow> map_option (map_sum id (Cons (key, val))) (yaml_entries kvs)))"
  by pat_completeness auto
termination
  by (relation "measure (\<lambda>x. case x of
        Inl y \<Rightarrow> size y
      | Inr (Inl ys) \<Rightarrow> size_list size ys
      | Inr (Inr kvs) \<Rightarrow> size_list (size_prod size size) kvs)") auto


section \<open>Properties\<close>

lemma json_keys_ok: "keys_ok (json_to_lua_value v)"
  by (induction v) auto

lemma toml_keys_ok: "keys_ok (toml_to_lua_value v)"
  by (induction v) auto

text \<open>
  A JSON or TOML file always becomes a module: the code prints without a panic and reads back as
  the converted value.
\<close>

theorem data_modules_print:
  "(\<exists>text. statement_to_string (json_to_lua j) = Some (''return '' @ text) \<and>
     read_value (read_fuel (json_to_lua_value j)) text = Some (meaning (json_to_lua_value j), [])) \<and>
   (\<exists>text. statement_to_string (toml_to_lua t) = Some (''return '' @ text) \<and>
     read_value (read_fuel (toml_to_lua_value t)) text = Some (meaning (toml_to_lua_value t), []))"
  using printed_code [of "json_to_lua_value j"] printed_code [of "toml_to_lua_value t"] json_keys_ok [of j] toml_keys_ok [of t]
  by (simp add: json_to_lua_def toml_to_lua_def)

lemma negative_rounds: "int_to_f64 (- (2 ^ 53) - 1) = int_to_f64 (- (2 ^ 53))"
proof -
  have log: "floorlog 2 (2 ^ 53 + 1) = Suc 53" "floorlog 2 (2 ^ 53) = Suc 53" by (intro floorlog_eqI; simp)+
  have "encode double (2 ^ 53 + 1) 0 = 1076 * 2 ^ 52" "encode double (2 ^ 53) 0 = 1076 * 2 ^ 52"
    unfolding encode_def log by (simp_all add: double_def round_half_even_def infinity_bits_def)
  then show ?thesis by (simp add: int_to_f64_def)
qed

text \<open>
  The YAML conversion is not as careful.  A mapping with a null key is accepted and makes the
  printer panic; and of the integers that are no doubles only the large positive ones are refused,
  so a large negative one is silently changed.
\<close>

theorem yaml_values_slip_through:
  "yaml_to_luau (YHash [(YNull, YString s)]) = Some (Inr (ETable [(ENil, EString s)])) \<and>
   statement_to_string (Return (ETable [(ENil, EString s)])) = None \<and>
   (yaml_to_luau (YInteger n) = Some (Inl (IntegerTooLarge n)) \<longleftrightarrow> 2 ^ 53 < sint n) \<and>
   yaml_to_luau (YInteger (- (2 ^ 53) - 1)) = yaml_to_luau (YInteger (- (2 ^ 53)))"
proof (intro conjI)
  have "sint MAX_FLOAT_INT = 2 ^ 53" by (simp add: MAX_FLOAT_INT_def)
  then show "yaml_to_luau (YInteger n) = Some (Inl (IntegerTooLarge n)) \<longleftrightarrow> 2 ^ 53 < sint n" by auto
  show "yaml_to_luau (YInteger (- (2 ^ 53) - 1)) = yaml_to_luau (YInteger (- (2 ^ 53)))"
    using negative_rounds by (simp add: MAX_FLOAT_INT_def)
qed (simp_all add: unprintable_code)

end
