(* ===== verification/Localization.thy ===== *)
theory Localization
  imports Prelude "HOL-Library.Option_ord"
begin

text \<open>
  Localization tables, the CSV half of \<open>src/src/snapshot_middleware/csv.rs\<close>: a CSV file becomes the
  JSON contents of the instance, and back.  The reader and writer of the crate \<open>csv\<close> and the
  (de)serializer of the entries are fields of an environment; a \<open>BTreeMap\<close> is a list sorted by key.
\<close>

record localization_entry =
  le_key :: "string option"
  le_context :: "string option"
  le_example :: "string option"
  le_source :: "string option"
  le_values :: "(string \<times> string) list"

record csv_env =
  csv_read :: "string \<Rightarrow> string + string list \<times> string list list"
  csv_write :: "string list list \<Rightarrow> string"
  entries_to_json :: "localization_entry list \<Rightarrow> string"
  entries_from_json :: "string \<Rightarrow> string + localization_entry list"

definition entry_default :: localization_entry where
  "entry_default = \<lparr>le_key = None, le_context = None, le_example = None, le_source = None, le_values = []\<rparr>"

definition read_cell :: "string \<times> string \<Rightarrow> localization_entry \<Rightarrow> localization_entry" where
  "read_cell = (\<lambda>(header, val) entry.
     if header = [] \<or> val = [] then entry
     else if header = ''Key'' then entry\<lparr>le_key := Some val\<rparr>
     else if header = ''Source'' then entry\<lparr>le_source := Some val\<rparr>
     else if header = ''Context'' then entry\<lparr>le_context := Some val\<rparr>
     else if header = ''Example'' then entry\<lparr>le_example := Some val\<rparr>
     else entry\<lparr>le_values := btree_insert header val (le_values entry)\<rparr>)"

definition read_record :: "string list \<Rightarrow> string list \<Rightarrow> localization_entry" where
  "read_record headers rec = fold read_cell (zip headers rec) entry_default"

definition convert_localization_csv :: "csv_env \<Rightarrow> string \<Rightarrow> string + string" where
  "convert_localization_csv env contents =
     (case csv_read env contents of
        Inl e \<Rightarrow> Inl e
      | Inr (headers, records) \<Rightarrow>
          Inr (entries_to_json env
            (filter (\<lambda>entry. \<not> (le_key entry = None \<and> le_source entry = None)) (map (read_record headers) records))))"

definition unwrap_or_default :: "string option \<Rightarrow> string" where
  "unwrap_or_default s = (case s of None \<Rightarrow> [] | Some t \<Rightarrow> t)"

definition table_headers :: "localization_entry list \<Rightarrow> string list" where
  "table_headers csv = remdups_adj (sort (concat (map (\<lambda>entry. map fst (le_values entry)) csv)))"

definition write_entry :: "string list \<Rightarrow> localization_entry \<Rightarrow> string list" where
  "write_entry extra_headers entry =
     [unwrap_or_default (le_key entry), unwrap_or_default (le_source entry),
      unwrap_or_default (le_context entry), unwrap_or_default (le_example entry)] @
     map (\<lambda>header. unwrap_or_default (map_of (le_values entry) header)) extra_headers"

definition localization_to_csv :: "csv_env \<Rightarrow> string \<Rightarrow> string + string" where
  "localization_to_csv env csv_contents =
     (case entries_from_json env csv_contents of
        Inl e \<Rightarrow> Inl e
      | Inr entries \<Rightarrow>
          (let csv = sort_key le_source entries;
               extra_headers = table_headers csv;
               headers = [''Key'', ''Source'', ''Context'', ''Example''] @ extra_headers
           in Inr (csv_write env (headers # map (write_entry extra_headers) csv))))"


section \<open>The round trip\<close>

text \<open>What a row keeps of an entry: empty texts are the same as missing ones.\<close>

definition non_empty :: "string option \<Rightarrow> string option" where
  "non_empty s = (if s = Some [] then None else s)"

definition clean_entry :: "localization_entry \<Rightarrow> localization_entry" where
  "clean_entry entry =
     \<lparr>le_key = non_empty (le_key entry), le_context = non_empty (le_context entry),
      le_example = non_empty (le_example entry), le_source = non_empty (le_source entry),
      le_values = filter (\<lambda>(_, text). text \<noteq> []) (le_values entry)\<rparr>"

definition has_key_or_source :: "localization_entry \<Rightarrow> bool" where
  "has_key_or_source entry \<longleftrightarrow> \<not> (le_key entry = None \<and> le_source entry = None)"

text \<open>The values are a sorted map, and no language has an empty or a reserved name.\<close>

definition entry_ok :: "localization_entry \<Rightarrow> bool" where
  "entry_ok entry \<longleftrightarrow> sorted_wrt (<) (map fst (le_values entry)) \<and>
     (\<forall>language \<in> fst ` set (le_values entry). language \<notin> {[], ''Key'', ''Source'', ''Context'', ''Example''})"

lemma read_values:
  assumes "sorted_wrt (<) hs" and "\<forall>h \<in> set hs. h \<notin> {[], ''Key'', ''Source'', ''Context'', ''Example''}"
    and "\<forall>k \<in> fst ` set (le_values e). \<forall>h \<in> set hs. k < h"
  shows "fold read_cell (zip hs (map f hs)) e =
    e\<lparr>le_values := le_values e @ filter (\<lambda>(_, text). text \<noteq> []) (map (\<lambda>h. (h, f h)) hs)\<rparr>"
  using assms
proof (induction hs arbitrary: e)
  case (Cons h hs)
  show ?case
  proof (cases "f h = []")
    case True
    with Cons show ?thesis by (simp add: read_cell_def)
  next
    case False
    then have cell: "read_cell (h, f h) e = e\<lparr>le_values := le_values e @ [(h, f h)]\<rparr>"
      using Cons.prems(2,3) btree_insert_last [of "le_values e" h "f h"] by (simp add: read_cell_def)
    have "fold read_cell (zip hs (map f hs)) (e\<lparr>le_values := le_values e @ [(h, f h)]\<rparr>) =
        e\<lparr>le_values := (le_values e @ [(h, f h)]) @ filter (\<lambda>(_, text). text \<noteq> []) (map (\<lambda>h. (h, f h)) hs)\<rparr>"
      using Cons.IH [of "e\<lparr>le_values := le_values e @ [(h, f h)]\<rparr>"] Cons.prems by auto
    with cell False show ?thesis by simp
  qed
qed simp

lemma sublist_values:
  fixes m :: "('k::linorder \<times> string) list"
  assumes m: "sorted_wrt (<) (map fst m)" and hs: "sorted_wrt (<) hs" and sub: "fst ` set m \<subseteq> set hs"
  shows "filter (\<lambda>(_, text). text \<noteq> []) (map (\<lambda>h. (h, unwrap_or_default (map_of m h))) hs) =
    filter (\<lambda>(_, text). text \<noteq> []) m" (is "filter ?P ?xs = filter ?P m")
proof -
  have ok: "hm_ok m" "distinct hs" "sorted (map fst m)" "sorted hs"
    using m hs by (simp_all add: strict_sorted_iff)
  have fst_xs: "map fst ?xs = hs" by (induction hs) auto
  have eq: "set (filter ?P ?xs) = set (filter ?P m)"
  proof (intro set_eqI iffI)
    fix x
    assume "x \<in> set (filter ?P ?xs)"
    then obtain h where h: "x = (h, unwrap_or_default (map_of m h))" "unwrap_or_default (map_of m h) \<noteq> []" by auto
    then obtain t where "map_of m h = Some t" by (cases "map_of m h") (auto simp: unwrap_or_default_def)
    with h show "x \<in> set (filter ?P m)" by (simp add: unwrap_or_default_def map_of_SomeD)
  next
    fix x
    assume x: "x \<in> set (filter ?P m)"
    obtain h t where ht: "x = (h, t)" by (rule prod.exhaust)
    with x have ht: "x = (h, t)" "(h, t) \<in> set m" "t \<noteq> []" by simp_all
    have "map_of m h = Some t" by (rule map_of_is_SomeI [OF ok(1) ht(2)])
    moreover have "h \<in> set hs" using ht(2) sub by (metis fst_conv imageI subsetD)
    ultimately show "x \<in> set (filter ?P ?xs)" using ht by (simp add: unwrap_or_default_def image_iff)
  qed
  show ?thesis
  proof (rule map_sorted_distinct_set_unique [of fst])
    show "inj_on fst (set (filter ?P ?xs) \<union> set (filter ?P m))"
      unfolding eq Un_absorb
    proof (rule inj_on_subset)
      show "inj_on fst (set m)" using ok(1) by (simp only: distinct_map)
    qed (rule filter_is_subset)
    show "sorted (map fst (filter ?P ?xs))" by (rule sorted_filter) (simp only: fst_xs ok(4))
    show "distinct (map fst (filter ?P ?xs))" by (rule distinct_map_filter) (simp only: fst_xs ok(2))
    show "sorted (map fst (filter ?P m))" using ok(3) by (rule sorted_filter)
    show "distinct (map fst (filter ?P m))" using ok(1) by (rule distinct_map_filter)
  qed (rule eq)
qed

lemma table_headers_sorted: "sorted_wrt (<) (table_headers csv)"
proof -
  have "distinct (remdups_adj xs)" if "sorted xs" for xs :: "string list"
    using that by (induction xs rule: remdups_adj.induct) (auto simp: order_le_less)
  then show ?thesis by (simp add: table_headers_def strict_sorted_iff)
qed

lemma set_table_headers: "set (table_headers csv) = (\<Union>entry \<in> set csv. fst ` set (le_values entry))"
  by (auto simp: table_headers_def)

text \<open>Reading the row an entry was written to.\<close>

lemma read_fixed_cells:
  "read_cell (''Key'', unwrap_or_default k) (e\<lparr>le_key := None\<rparr>) = e\<lparr>le_key := non_empty k\<rparr>"
  "read_cell (''Source'', unwrap_or_default k) (e\<lparr>le_source := None\<rparr>) = e\<lparr>le_source := non_empty k\<rparr>"
  "read_cell (''Context'', unwrap_or_default k) (e\<lparr>le_context := None\<rparr>) = e\<lparr>le_context := non_empty k\<rparr>"
  "read_cell (''Example'', unwrap_or_default k) (e\<lparr>le_example := None\<rparr>) = e\<lparr>le_example := non_empty k\<rparr>"
  by (cases k; simp add: read_cell_def unwrap_or_default_def non_empty_def)+

lemma read_written_entry:
  assumes "sorted_wrt (<) hs" and "\<forall>h \<in> set hs. h \<notin> {[], ''Key'', ''Source'', ''Context'', ''Example''}"
    and "sorted_wrt (<) (map fst (le_values entry))" and "fst ` set (le_values entry) \<subseteq> set hs"
  shows "read_record ([''Key'', ''Source'', ''Context'', ''Example''] @ hs) (write_entry hs entry) = clean_entry entry"
proof -
  let ?f = "\<lambda>h. unwrap_or_default (map_of (le_values entry) h)"
  define fixed where "fixed = \<lparr>le_key = non_empty (le_key entry), le_context = non_empty (le_context entry),
      le_example = non_empty (le_example entry), le_source = non_empty (le_source entry), le_values = []\<rparr>"
  have "read_record ([''Key'', ''Source'', ''Context'', ''Example''] @ hs) (write_entry hs entry) =
      fold read_cell (zip hs (map ?f hs)) fixed"
    using read_fixed_cells(1) [of "le_key entry" entry_default]
      read_fixed_cells(2) [of "le_source entry" "entry_default\<lparr>le_key := non_empty (le_key entry)\<rparr>"]
      read_fixed_cells(3) [of "le_context entry" "entry_default\<lparr>le_key := non_empty (le_key entry),
        le_source := non_empty (le_source entry)\<rparr>"]
      read_fixed_cells(4) [of "le_example entry" "entry_default\<lparr>le_key := non_empty (le_key entry),
        le_source := non_empty (le_source entry), le_context := non_empty (le_context entry)\<rparr>"]
    by (simp add: read_record_def write_entry_def entry_default_def fixed_def)
  also have "\<dots> = fixed\<lparr>le_values := filter (\<lambda>(_, text). text \<noteq> []) (map (\<lambda>h. (h, ?f h)) hs)\<rparr>"
    using read_values [OF assms(1,2), of fixed ?f] by (simp add: fixed_def)
  also have "\<dots> = clean_entry entry"
    unfolding sublist_values [OF assms(3,1,4)] by (simp add: fixed_def clean_entry_def)
  finally show ?thesis .
qed

text \<open>
  A localization table survives being written to a CSV file and read again: the entries come
  back in the order of their source text, with empty texts dropped like missing ones; only entries
  with neither key nor source are lost.
\<close>

theorem localization_round_trip:
  assumes "\<And>headers rows. \<forall>row \<in> set rows. length row = length headers \<Longrightarrow>
      csv_read env (csv_write env (headers # rows)) = Inr (headers, rows)"
    and "entries_from_json env json = Inr entries" and "\<forall>entry \<in> set entries. entry_ok entry"
  shows "\<exists>text. localization_to_csv env json = Inr text \<and>
    convert_localization_csv env text =
      Inr (entries_to_json env (filter has_key_or_source (map clean_entry (sort_key le_source entries))))"
proof -
  let ?csv = "sort_key le_source entries"
  let ?hs = "table_headers ?csv"
  let ?headers = "[''Key'', ''Source'', ''Context'', ''Example''] @ ?hs"
  let ?rows = "map (write_entry ?hs) ?csv"
  have "csv_read env (csv_write env (?headers # ?rows)) = Inr (?headers, ?rows)"
    by (rule assms(1)) (simp add: write_entry_def)
  then have "convert_localization_csv env (csv_write env (?headers # ?rows)) =
      Inr (entries_to_json env (filter has_key_or_source (map (read_record ?headers) ?rows)))"
    unfolding convert_localization_csv_def by (simp only: sum.case prod.case has_key_or_source_def [abs_def])
  moreover have "map (read_record ?headers) ?rows = map clean_entry ?csv"
    unfolding map_map
  proof (rule map_cong [OF refl])
    fix entry
    assume "entry \<in> set ?csv"
    then show "(read_record ?headers \<circ> write_entry ?hs) entry = clean_entry entry"
      unfolding comp_def using assms(3) table_headers_sorted [of ?csv]
      by (intro read_written_entry) (auto simp: set_table_headers entry_ok_def)
  qed
  moreover have "localization_to_csv env json = Inr (csv_write env (?headers # ?rows))"
    using assms(2) by (simp add: localization_to_csv_def Let_def)
  ultimately show ?thesis by metis
qed

text \<open>A reader and a writer that keep the law: marked characters, ends of cells and ends of rows.\<close>

definition sample_write :: "string list list \<Rightarrow> string" where
  "sample_write rows = concat (map (\<lambda>row. concat (map (\<lambda>cell. concat (map (\<lambda>c. [CHR ''x'', c]) cell) @ ''y'') row) @ ''z'') rows)"

fun add_char :: "char \<Rightarrow> string list list \<Rightarrow> string list list" where
  "add_char c ((cell # cells) # rows) = ((c # cell) # cells) # rows"
| "add_char c rows = rows"

fun add_cell :: "string list list \<Rightarrow> string list list" where
  "add_cell (cells # rows) = ([] # cells) # rows"
| "add_cell rows = rows"

fun sample_rows :: "string \<Rightarrow> string list list" where
  "sample_rows [] = []"
| "sample_rows [m] = (if m = CHR ''z'' then [[]] else [])"
| "sample_rows (m # c # s) =
     (if m = CHR ''x'' then add_char c (sample_rows s)
      else if m = CHR ''y'' then add_cell (sample_rows (c # s))
      else [] # sample_rows (c # s))"

lemma sample_rows_end: "sample_rows (CHR ''y'' # s) = add_cell (sample_rows s)" "sample_rows (CHR ''z'' # s) = [] # sample_rows s"
  by (cases s; simp)+

lemma sample_rows_write: "sample_rows (sample_write rows) = rows"
proof (induction rows)
  case (Cons row rows)
  have cell: "sample_rows (concat (map (\<lambda>c. [CHR ''x'', c]) cell) @ CHR ''y'' # s) = (cell # cells) # rest"
    if "sample_rows s = cells # rest" for cell cells rest s
    using that by (induction cell) (simp_all add: sample_rows_end)
  have "sample_rows (concat (map (\<lambda>cell. concat (map (\<lambda>c. [CHR ''x'', c]) cell) @ ''y'') row) @ CHR ''z'' # s) = row # sample_rows s" for s
    by (induction row) (simp_all add: sample_rows_end cell)
  with Cons show ?case by (simp add: sample_write_def)
qed (simp add: sample_write_def)

definition sample_entry :: "string \<Rightarrow> string \<Rightarrow> localization_entry" where
  "sample_entry source spanish = entry_default\<lparr>le_source := Some source, le_example := Some [], le_values := [(''es'', spanish)]\<rparr>"

definition sample_csv :: csv_env where
  "sample_csv = \<lparr>csv_read = \<lambda>text. case sample_rows text of [] \<Rightarrow> Inl ''empty'' | headers # rows \<Rightarrow> Inr (headers, rows),
     csv_write = sample_write,
     entries_to_json = \<lambda>es. concat (map (\<lambda>e. unwrap_or_default (le_source e)) es),
     entries_from_json = \<lambda>_. Inr [sample_entry ''b'' ''Be'', sample_entry ''a'' []]\<rparr>"

lemma localization_round_trip_witness:
  "\<exists>text. localization_to_csv sample_csv [] = Inr text \<and> convert_localization_csv sample_csv text = Inr ''ab''"
proof -
  have "\<exists>text. localization_to_csv sample_csv [] = Inr text \<and>
      convert_localization_csv sample_csv text = Inr (entries_to_json sample_csv (filter has_key_or_source
        (map clean_entry (sort_key le_source [sample_entry ''b'' ''Be'', sample_entry ''a'' []]))))"
    by (rule localization_round_trip)
      (auto simp: sample_csv_def sample_rows_write entry_ok_def sample_entry_def)
  moreover have "entries_to_json sample_csv (filter has_key_or_source
      (map clean_entry (sort_key le_source [sample_entry ''b'' ''Be'', sample_entry ''a'' []]))) = ''ab''"
    by code_simp
  ultimately show ?thesis by simp
qed

end
