(* ===== verification/Outcome.thy ===== *)
theory Outcome
  imports Vfs
begin

text \<open>
  Code that threads a state (the virtual file system), may fail with an error, may panic, and may
  recurse without end: the last is fuel that has run out.  \<open>and_then\<close> is the question mark operator.
\<close>

datatype ('e, 'a) outcome = Done 'a | Failed 'e | Panics | OutOfFuel

type_synonym ('v, 'e, 'a) action = "'v \<Rightarrow> 'v \<times> ('e, 'a) outcome"

definition yields :: "'a \<Rightarrow> ('v, 'e, 'a) action" where "yields x = (\<lambda>v. (v, Done x))"
definition fails :: "'e \<Rightarrow> ('v, 'e, 'a) action" where "fails e = (\<lambda>v. (v, Failed e))"
definition panics :: "('v, 'e, 'a) action" where "panics = (\<lambda>v. (v, Panics))"
definition out_of_fuel :: "('v, 'e, 'a) action" where "out_of_fuel = (\<lambda>v. (v, OutOfFuel))"

definition and_then :: "('v, 'e, 'a) action \<Rightarrow> ('a \<Rightarrow> ('v, 'e, 'b) action) \<Rightarrow> ('v, 'e, 'b) action" where
  "and_then m f = (\<lambda>v.
     case m v of
       (v', Done x) \<Rightarrow> f x v'
     | (v', Failed e) \<Rightarrow> (v', Failed e)
     | (v', Panics) \<Rightarrow> (v', Panics)
     | (v', OutOfFuel) \<Rightarrow> (v', OutOfFuel))"

text \<open>A result without effects: of a fallible function, and of one that may panic.\<close>

definition of_result :: "'e + 'a \<Rightarrow> ('v, 'e, 'a) action" where
  "of_result r = (case r of Inl e \<Rightarrow> fails e | Inr x \<Rightarrow> yields x)"

definition of_panicking :: "'a option \<Rightarrow> ('v, 'e, 'a) action" where
  "of_panicking r = (case r of None \<Rightarrow> panics | Some x \<Rightarrow> yields x)"

definition map_error :: "('e \<Rightarrow> 'f) \<Rightarrow> 'e + 'a \<Rightarrow> 'f + 'a" where
  "map_error f r = map_sum f id r"

text \<open>An operation of the virtual file system, its error converted.\<close>

definition of_io :: "(io_error \<Rightarrow> 'e) \<Rightarrow> ('s vfs \<Rightarrow> 's vfs \<times> 'a io_result) \<Rightarrow> ('s vfs, 'e, 'a) action" where
  "of_io f m = (\<lambda>v. case m v of (v', r) \<Rightarrow> of_result (map_error f r) v')"

text \<open>A loop that collects results, and \<open>collect\<close> of results without effects.\<close>

fun for_each :: "('x \<Rightarrow> ('v, 'e, 'y) action) \<Rightarrow> 'x list \<Rightarrow> ('v, 'e, 'y list) action" where
  "for_each f [] = yields []"
| "for_each f (x # xs) = and_then (f x) (\<lambda>y. and_then (for_each f xs) (\<lambda>ys. yields (y # ys)))"

fun fold_result :: "('x \<Rightarrow> 'a \<Rightarrow> 'e + 'a) \<Rightarrow> 'x list \<Rightarrow> 'a \<Rightarrow> 'e + 'a" where
  "fold_result f [] a = Inr a"
| "fold_result f (x # xs) a = (case f x a of Inl e \<Rightarrow> Inl e | Inr a' \<Rightarrow> fold_result f xs a')"

lemma and_then_assoc: "and_then (and_then m f) g = and_then m (\<lambda>x. and_then (f x) g)"
  by (rule ext) (auto simp: and_then_def split: prod.split outcome.split)

lemma and_then_yields [simp]: "and_then (yields x) f = f x"
  by (simp add: and_then_def yields_def)

lemma yields_right [simp]: "and_then m yields = m"
  by (rule ext) (auto simp: and_then_def yields_def split: prod.split outcome.split)

lemma and_then_stops [simp]:
  "and_then (fails e) f = fails e" "and_then panics f = panics" "and_then out_of_fuel f = out_of_fuel"
  by (simp_all add: and_then_def fails_def panics_def out_of_fuel_def)

lemma and_then_at: "m v = (v', Done x) \<Longrightarrow> and_then m f v = f x v'"
  by (simp add: and_then_def)

lemma and_then_OutOfFuel: "snd (m v) = OutOfFuel \<Longrightarrow> snd (and_then m f v) = OutOfFuel"
  by (auto simp: and_then_def split: prod.splits outcome.splits)

lemma and_then_Done:
  "and_then m f v = (v'', Done y) \<longleftrightarrow> (\<exists>v' x. m v = (v', Done x) \<and> f x v' = (v'', Done y))"
  by (auto simp: and_then_def split: prod.split outcome.split)

text \<open>The outcome is not one of running out of fuel: more fuel changes nothing.\<close>

definition settled :: "('v, 'e, 'a) action \<Rightarrow> 'v \<Rightarrow> bool" where
  "settled m v \<longleftrightarrow> snd (m v) \<noteq> OutOfFuel"

text \<open>
  How two runs of the same code with different fuel relate: where the first settles, the second
  agrees.  All combinators respect the relation.
\<close>

definition refined_by :: "('v, 'e, 'a) action \<Rightarrow> ('v, 'e, 'a) action \<Rightarrow> bool" where
  "refined_by m m' \<longleftrightarrow> (\<forall>v. settled m v \<longrightarrow> m' v = m v)"

lemma refined_by_refl [simp]: "refined_by m m"
  by (simp add: refined_by_def)

lemma refined_by_out_of_fuel [simp]: "refined_by out_of_fuel m"
  by (simp add: refined_by_def settled_def out_of_fuel_def)

lemma refined_by_trans: "refined_by a b \<Longrightarrow> refined_by b c \<Longrightarrow> refined_by a c"
  by (simp add: refined_by_def settled_def)

lemma refined_by_and_then:
  assumes "refined_by m m'" and "\<And>x. refined_by (f x) (f' x)"
  shows "refined_by (and_then m f) (and_then m' f')"
  unfolding refined_by_def
proof (intro allI impI)
  fix v
  assume settled: "settled (and_then m f) v"
  obtain v' r where mv: "m v = (v', r)" by (cases "m v")
  have "r \<noteq> OutOfFuel" using settled mv by (auto simp: settled_def and_then_def)
  then have "m' v = (v', r)" using assms(1) mv by (auto simp: refined_by_def settled_def)
  with mv settled assms(2) show "and_then m' f' v = and_then m f v"
    by (cases r) (auto simp: and_then_def settled_def refined_by_def)
qed

lemma refined_by_for_each:
  "(\<And>x. refined_by (f x) (f' x)) \<Longrightarrow> refined_by (for_each f xs) (for_each f' xs)"
  by (induction xs) (auto intro!: refined_by_and_then)

end
