(* ===== verification/Meta_File.thy ===== *)
theory Meta_File
  imports Rojo_Tree Resolution Project Outcome Lua_Values Localization
begin

text \<open>
  Meta files, \<open>src/src/snapshot_middleware/meta_file.rs\<close>: a file \<open>name.meta.json\<close> beside a file, or
  \<open>init.meta.json\<close> in a directory, adds to the snapshot made of it.  The metadata read from a file is
  dropped after it was applied, so the functions return the snapshot only.  Here also: the errors of
  the whole middleware, by the values their messages name, and the environment of what the
  repository does not define (parsers, deserializers, the reflection database).
\<close>

datatype 'o snapshot_error =
    IoFailed io_error
  | MetaMalformed "path \<times> json_error"
  | MetaProperty path "'o resolve_error"
  | ValueFailed "'o resolve_error"
  | IdTwice path
  | SchemaTwice path
  | ClassOfNonFolder
  | InitOfNonFolder path string
  | NotUtf8File path
  | ModelMalformed "path \<times> json_error"
  | ModelFailed path "'o resolve_error"
  | JsonMalformed "path \<times> json_error"
  | CsvMalformed path string
  | TomlMalformed path string
  | YamlMalformed string
  | YamlNoDocument
  | YamlManyDocuments
  | YamlFailed yaml_error
  | BinaryMalformed path string
  | NotOneRoot path
  | FileNameInvalid path
  | ProjectFailed path project_error
  | ClassTwice string string string path path
  | PathNotUnderstood path path
  | NodeIncomplete string path
  | NodeValueFailed path "'o resolve_error"

text \<open>The two kinds of metadata share the fields and most of the code; a directory may set the class.\<close>

record 'o adjacent_metadata =
  am_schema :: "string option"
  am_id :: "string option"
  am_ignore_unknown_instances :: "bool option"
  am_properties :: "(string \<times> 'o unresolved_value) list"
  am_attributes :: "(string \<times> 'o unresolved_value) list"
  am_path :: path

record 'o directory_metadata = "'o adjacent_metadata" +
  dm_class_name :: "string option"

text \<open>A node of a model file, \<open>JsonModel\<close> of \<open>json_model.rs\<close>.\<close>

datatype 'o json_model = JsonModelNode
  (jm_schema: "string option")
  (jm_name: "string option")
  (jm_class_name: string)
  (jm_id: "string option")
  (jm_children: "'o json_model list")
  (jm_properties: "(string \<times> 'o unresolved_value) list")
  (jm_attributes: "(string \<times> 'o unresolved_value) list")

record ('s, 'o) snapshot_env =
  se_ops :: "'s backend_ops"
  se_globs :: glob_env
  se_resolve :: "'o resolve_env"
  se_run_contexts :: "(string, u32) hash_map option"
  se_is_service :: "string \<Rightarrow> bool"
  se_jsonc :: jsonc
  se_adjacent :: "'o adjacent_metadata deserializer"
  se_directory :: "'o directory_metadata deserializer"
  se_model :: "'o json_model deserializer"
  se_project :: "'o project deserializer"
  se_toml :: "string \<Rightarrow> string + toml_value"
  se_yaml :: "string \<Rightarrow> string + yaml list"
  se_csv :: csv_env
  se_rbxm :: "string \<Rightarrow> string + (referent, 'o inst) hash_map \<times> referent"
  se_rbxmx :: "string \<Rightarrow> string + (referent, 'o inst) hash_map \<times> referent"


section \<open>Changing a snapshot\<close>

definition with_metadata :: "('o instance_metadata \<Rightarrow> 'o instance_metadata) \<Rightarrow> 'o instance_snapshot \<Rightarrow> 'o instance_snapshot" where
  "with_metadata f s = Snapshot (sn_id s) (f (sn_metadata s)) (sn_name s) (sn_class s) (sn_properties s) (sn_children s)"

definition with_class :: "string \<Rightarrow> 'o instance_snapshot \<Rightarrow> 'o instance_snapshot" where
  "with_class c s = Snapshot (sn_id s) (sn_metadata s) (sn_name s) c (sn_properties s) (sn_children s)"

definition with_property :: "string \<Rightarrow> 'o variant \<Rightarrow> 'o instance_snapshot \<Rightarrow> 'o instance_snapshot" where
  "with_property k v s =
     Snapshot (sn_id s) (sn_metadata s) (sn_name s) (sn_class s) (hm_insert k v (sn_properties s)) (sn_children s)"

definition with_children :: "'o instance_snapshot list \<Rightarrow> 'o instance_snapshot \<Rightarrow> 'o instance_snapshot" where
  "with_children cs s = Snapshot (sn_id s) (sn_metadata s) (sn_name s) (sn_class s) (sn_properties s) cs"

definition push_relevant_paths :: "path list \<Rightarrow> 'o instance_snapshot \<Rightarrow> 'o instance_snapshot" where
  "push_relevant_paths ps s = with_metadata (\<lambda>md. md\<lparr>md_relevant_paths := md_relevant_paths md @ ps\<rparr>) s"

lemma snapshot_fields [simp]:
  "sn_metadata (with_metadata f s) = f (sn_metadata s)" "sn_name (with_metadata f s) = sn_name s"
  "sn_class (with_metadata f s) = sn_class s" "sn_properties (with_metadata f s) = sn_properties s"
  "sn_children (with_metadata f s) = sn_children s" "sn_id (with_metadata f s) = sn_id s"
  "sn_metadata (with_class c s) = sn_metadata s" "sn_name (with_class c s) = sn_name s"
  "sn_class (with_class c s) = c" "sn_properties (with_class c s) = sn_properties s"
  "sn_children (with_class c s) = sn_children s" "sn_id (with_class c s) = sn_id s"
  "sn_metadata (with_property k v s) = sn_metadata s" "sn_name (with_property k v s) = sn_name s"
  "sn_class (with_property k v s) = sn_class s" "sn_properties (with_property k v s) = hm_insert k v (sn_properties s)"
  "sn_children (with_property k v s) = sn_children s" "sn_id (with_property k v s) = sn_id s"
  "sn_metadata (with_children cs s) = sn_metadata s" "sn_name (with_children cs s) = sn_name s"
  "sn_class (with_children cs s) = sn_class s" "sn_properties (with_children cs s) = sn_properties s"
  "sn_children (with_children cs s) = cs" "sn_id (with_children cs s) = sn_id s"
  by (simp_all add: with_metadata_def with_class_def with_property_def with_children_def)


section \<open>Applying metadata\<close>

text \<open>A loop over unresolved values; the outer option is the panic of \<open>resolve\<close>.\<close>

fun resolve_all :: "(string \<times> 'o unresolved_value \<Rightarrow> ('e + 'o variant) option) \<Rightarrow>
    (string \<times> 'o unresolved_value) list \<Rightarrow> ('e + (string \<times> 'o variant) list) option" where
  "resolve_all f [] = Some (Inr [])"
| "resolve_all f (kv # kvs) =
     (case f kv of
        None \<Rightarrow> None
      | Some (Inl e) \<Rightarrow> Some (Inl e)
      | Some (Inr v) \<Rightarrow> map_option (map_sum id (Cons (fst kv, v))) (resolve_all f kvs))"

text \<open>The attributes of a file: an \<open>Attributes\<close> map, sorted by key.\<close>

definition attribute_map :: "(string \<times> 'o unresolved_value) list \<Rightarrow> 'o resolve_error + (string \<times> 'o variant) list" where
  "attribute_map kvs =
     fold_result (\<lambda>(key, unresolved) attributes.
       map_sum id (\<lambda>v. btree_insert key v attributes) (resolve_unambiguous unresolved)) kvs []"

definition apply_ignore_unknown_instances :: "('o, 'z) adjacent_metadata_scheme \<Rightarrow> 'o instance_snapshot \<Rightarrow> 'o instance_snapshot" where
  "apply_ignore_unknown_instances m s =
     (case am_ignore_unknown_instances m of
        Some ignore \<Rightarrow> with_metadata (\<lambda>md. md\<lparr>md_ignore_unknown_instances := ignore\<rparr>) s
      | None \<Rightarrow> s)"

definition apply_properties :: "'o resolve_env \<Rightarrow> ('o, 'z) adjacent_metadata_scheme \<Rightarrow> 'o instance_snapshot \<Rightarrow>
    ('o snapshot_error + 'o instance_snapshot) option" where
  "apply_properties env m s =
     (case resolve_all (\<lambda>(key, unresolved).
          map_option (map_error (MetaProperty (am_path m))) (resolve env unresolved (sn_class s) key)) (am_properties m) of
        None \<Rightarrow> None
      | Some (Inl e) \<Rightarrow> Some (Inl e)
      | Some (Inr values) \<Rightarrow>
          (let s1 = fold (\<lambda>(key, v). with_property key v) values s
           in if am_attributes m = [] then Some (Inr s1)
              else Some (case attribute_map (am_attributes m) of
                     Inl e \<Rightarrow> Inl (ValueFailed e)
                   | Inr attributes \<Rightarrow> Inr (with_property ''Attributes'' (VAttributes attributes) s1))))"

definition apply_id :: "('o, 'z) adjacent_metadata_scheme \<Rightarrow> 'o instance_snapshot \<Rightarrow> 'o snapshot_error + 'o instance_snapshot" where
  "apply_id m s =
     (if am_id m \<noteq> None \<and> md_specified_id (sn_metadata s) \<noteq> None then Inl (IdTwice (am_path m))
      else Inr (with_metadata (\<lambda>md. md\<lparr>md_specified_id := am_id m\<rparr>) s))"

definition apply_schema :: "('o, 'z) adjacent_metadata_scheme \<Rightarrow> 'o instance_snapshot \<Rightarrow> 'o snapshot_error + 'o instance_snapshot" where
  "apply_schema m s =
     (if am_schema m \<noteq> None \<and> md_schema (sn_metadata s) \<noteq> None then Inl (SchemaTwice (am_path m))
      else Inr (with_metadata (\<lambda>md. md\<lparr>md_schema := am_schema m\<rparr>) s))"

definition apply_class_name :: "'o directory_metadata \<Rightarrow> 'o instance_snapshot \<Rightarrow> 'o snapshot_error + 'o instance_snapshot" where
  "apply_class_name m s =
     (case dm_class_name m of
        Some class_name \<Rightarrow> if sn_class s \<noteq> ''Folder'' then Inl ClassOfNonFolder else Inr (with_class class_name s)
      | None \<Rightarrow> Inr s)"

text \<open>The last three steps, which do not depend on the kind of metadata.\<close>

definition apply_values :: "'o resolve_env \<Rightarrow> ('o, 'z) adjacent_metadata_scheme \<Rightarrow> 'o instance_snapshot \<Rightarrow>
    ('o snapshot_error + 'o instance_snapshot) option" where
  "apply_values env m s =
     (case apply_properties env m s of
        None \<Rightarrow> None
      | Some (Inl e) \<Rightarrow> Some (Inl e)
      | Some (Inr s1) \<Rightarrow>
          Some (case apply_id m s1 of Inl e \<Rightarrow> Inl e | Inr s2 \<Rightarrow> apply_schema m s2))"

definition apply_adjacent :: "'o resolve_env \<Rightarrow> 'o adjacent_metadata \<Rightarrow> 'o instance_snapshot \<Rightarrow>
    ('o snapshot_error + 'o instance_snapshot) option" where
  "apply_adjacent env m s = apply_values env m (apply_ignore_unknown_instances m s)"

definition apply_directory :: "'o resolve_env \<Rightarrow> 'o directory_metadata \<Rightarrow> 'o instance_snapshot \<Rightarrow>
    ('o snapshot_error + 'o instance_snapshot) option" where
  "apply_directory env m s =
     (case apply_class_name m (apply_ignore_unknown_instances m s) of
        Inl e \<Rightarrow> Some (Inl e)
      | Inr s1 \<Rightarrow> apply_values env m s1)"

definition adjacent_from_slice :: "('s, 'o) snapshot_env \<Rightarrow> string \<Rightarrow> path \<Rightarrow> 'o snapshot_error + 'o adjacent_metadata" where
  "adjacent_from_slice env bytes p =
     map_sum MetaMalformed (\<lambda>m. m\<lparr>am_path := p\<rparr>) (from_slice_with_context (se_jsonc env) (se_adjacent env) bytes p)"

definition directory_from_slice :: "('s, 'o) snapshot_env \<Rightarrow> string \<Rightarrow> path \<Rightarrow> 'o snapshot_error + 'o directory_metadata" where
  "directory_from_slice env bytes p =
     map_sum MetaMalformed (\<lambda>m. m\<lparr>am_path := p\<rparr>) (from_slice_with_context (se_jsonc env) (se_directory env) bytes p)"

definition read_optional :: "('s, 'o) snapshot_env \<Rightarrow> path \<Rightarrow> ('s vfs, 'o snapshot_error, string option) action" where
  "read_optional env p = of_io IoFailed (\<lambda>v. case vfs_read (se_ops env) v p of (v', r) \<Rightarrow> (v', with_not_found r))"

text \<open>One meta file, if it exists: \<open>parse\<close> and \<open>apply\<close> are those of its kind.\<close>

definition apply_meta_file :: "('s, 'o) snapshot_env \<Rightarrow> path \<Rightarrow> (string \<Rightarrow> 'o snapshot_error + 'm) \<Rightarrow>
    ('m \<Rightarrow> 'o instance_snapshot \<Rightarrow> ('o snapshot_error + 'o instance_snapshot) option) \<Rightarrow> 'o instance_snapshot \<Rightarrow>
    ('s vfs, 'o snapshot_error, 'o instance_snapshot) action" where
  "apply_meta_file env p parse apply_all s =
     and_then (read_optional env p) (\<lambda>contents.
       case contents of
         None \<Rightarrow> yields s
       | Some meta_contents \<Rightarrow>
           and_then (of_result (parse meta_contents)) (\<lambda>m.
             and_then (of_panicking (apply_all m s)) of_result))"

text \<open>\<open>Path::with_file_name\<close>.\<close>

definition with_file_name :: "path \<Rightarrow> string \<Rightarrow> path" where
  "with_file_name p name = (if path_file_name p = None then p else butlast p) @ [Normal name]"

text \<open>The error of the second file names the first one, as in the source.\<close>

definition adjacent_read_and_apply_all :: "('s, 'o) snapshot_env \<Rightarrow> path \<Rightarrow> string \<Rightarrow> 'o instance_snapshot \<Rightarrow>
    ('s vfs, 'o snapshot_error, 'o instance_snapshot) action" where
  "adjacent_read_and_apply_all env p name s =
     (let meta_path_json = with_file_name p (name @ ''.meta.json'');
          meta_path_jsonc = with_file_name p (name @ ''.meta.jsonc'');
          parse = (\<lambda>bytes. adjacent_from_slice env bytes meta_path_json)
      in and_then (apply_meta_file env meta_path_json parse (apply_adjacent (se_resolve env)) s) (\<lambda>s1.
         and_then (apply_meta_file env meta_path_jsonc parse (apply_adjacent (se_resolve env)) s1) (\<lambda>s2.
         yields (push_relevant_paths [meta_path_json, meta_path_jsonc] s2))))"

definition directory_read_and_apply_all :: "('s, 'o) snapshot_env \<Rightarrow> path \<Rightarrow> 'o instance_snapshot \<Rightarrow>
    ('s vfs, 'o snapshot_error, 'o instance_snapshot) action" where
  "directory_read_and_apply_all env p s =
     (let meta_path_json = p @ [Normal ''init.meta.json''];
          meta_path_jsonc = p @ [Normal ''init.meta.jsonc'']
      in and_then (apply_meta_file env meta_path_json (\<lambda>bytes. directory_from_slice env bytes meta_path_json)
             (apply_directory (se_resolve env)) s) (\<lambda>s1.
         and_then (apply_meta_file env meta_path_jsonc (\<lambda>bytes. directory_from_slice env bytes meta_path_jsonc)
             (apply_directory (se_resolve env)) s1) (\<lambda>s2.
         yields (push_relevant_paths [meta_path_json, meta_path_jsonc] s2))))"

definition adjacent_is_empty :: "'o adjacent_metadata \<Rightarrow> bool" where
  "adjacent_is_empty m \<longleftrightarrow> am_attributes m = [] \<and> am_properties m = [] \<and> am_ignore_unknown_instances m = None"

definition directory_is_empty :: "'o directory_metadata \<Rightarrow> bool" where
  "directory_is_empty m \<longleftrightarrow>
     am_attributes m = [] \<and> am_properties m = [] \<and> am_ignore_unknown_instances m = None \<and>
     (case dm_class_name m of Some class \<Rightarrow> class = ''Folder'' | None \<Rightarrow> True)"

text \<open>\<open>dir_meta\<close> and \<open>file_meta\<close>, which read a file without applying it.\<close>

definition dir_meta :: "('s, 'o) snapshot_env \<Rightarrow> path \<Rightarrow> ('s vfs, 'o snapshot_error, 'o directory_metadata option) action" where
  "dir_meta env p =
     (let meta_path = p @ [Normal ''init.meta.json'']
      in and_then (read_optional env meta_path) (\<lambda>contents.
        case contents of
          Some meta_contents \<Rightarrow> of_result (map_sum id Some (directory_from_slice env meta_contents meta_path))
        | None \<Rightarrow> yields None))"

text \<open>\<open>set_extension\<close> replaces what \<open>extension\<close> finds, or adds.\<close>

definition set_extension :: "path \<Rightarrow> string \<Rightarrow> path" where
  "set_extension p ext =
     (case path_file_stem p of
        None \<Rightarrow> p
      | Some stem \<Rightarrow> butlast p @ [Normal (if ext = [] then stem else stem @ ''.'' @ ext)])"

definition file_meta :: "('s, 'o) snapshot_env \<Rightarrow> path \<Rightarrow> string \<Rightarrow>
    ('s vfs, 'o snapshot_error, 'o adjacent_metadata option) action" where
  "file_meta env p name =
     (let meta_path = set_extension (with_file_name p name) ''meta.json''
      in and_then (read_optional env meta_path) (\<lambda>contents.
        case contents of
          Some meta_contents \<Rightarrow> of_result (map_sum id Some (adjacent_from_slice env meta_contents meta_path))
        | None \<Rightarrow> yields None))"

end
