(* ===== verification/Snapshot_Middleware.thy ===== *)
theory Snapshot_Middleware
  imports Meta_File
begin

text \<open>
  From files to snapshots, \<open>src/src/snapshot_middleware\<close>: \<open>mod.rs\<close> with the middleware of each file
  type.  A project file may point anywhere, so \<open>snapshot_from_vfs\<close> can recurse without end; it is
  defined with fuel for its nesting, and the middleware below take the recursive call as the argument
  \<open>rec\<close>.  Warnings are left out.
\<close>

type_synonym ('s, 'o) snapshotter =
  "instance_context \<Rightarrow> path \<Rightarrow> ('s vfs, 'o snapshot_error, 'o instance_snapshot option) action"

section \<open>Leaf files\<close>

definition read_bytes :: "('s, 'o) snapshot_env \<Rightarrow> path \<Rightarrow> ('s vfs, 'o snapshot_error, string) action" where
  "read_bytes env p = of_io IoFailed (\<lambda>v. vfs_read (se_ops env) v p)"

definition read_text :: "('s, 'o) snapshot_env \<Rightarrow> path \<Rightarrow> ('s vfs, 'o snapshot_error, string) action" where
  "read_text env p = of_io IoFailed (\<lambda>v. vfs_read_to_string (se_ops env) v p)"

definition canonicalize :: "('s, 'o) snapshot_env \<Rightarrow> path \<Rightarrow> ('s vfs, 'o snapshot_error, path) action" where
  "canonicalize env p = of_io IoFailed (\<lambda>v. vfs_canonicalize (se_ops env) v p)"

text \<open>The metadata of a snapshot made of one file, and the snapshot before its meta files.\<close>

definition file_metadata :: "instance_context \<Rightarrow> path \<Rightarrow> path \<Rightarrow> 'o instance_metadata" where
  "file_metadata ctx p canonical = metadata_new\<lparr>md_instigating_source := Some (SourcePath p),
     md_relevant_paths := [canonical], md_context := ctx\<rparr>"

definition file_snapshot :: "('s, 'o) snapshot_env \<Rightarrow> instance_context \<Rightarrow> path \<Rightarrow> string \<Rightarrow> string \<Rightarrow>
    (string, 'o variant) hash_map \<Rightarrow> ('s vfs, 'o snapshot_error, 'o instance_snapshot option) action" where
  "file_snapshot env ctx p name class_name properties =
     and_then (canonicalize env p) (\<lambda>canonical.
     and_then (adjacent_read_and_apply_all env p name
       (Snapshot NoRef (file_metadata ctx p canonical) name class_name properties [])) (\<lambda>s.
     yields (Some s)))"

definition snapshot_txt :: "('s, 'o) snapshot_env \<Rightarrow> instance_context \<Rightarrow> path \<Rightarrow> string \<Rightarrow>
    ('s vfs, 'o snapshot_error, 'o instance_snapshot option) action" where
  "snapshot_txt env ctx p name =
     and_then (read_text env p) (\<lambda>contents.
     file_snapshot env ctx p name ''StringValue'' [(''Value'', VString contents)])"

datatype script_type =
    Server | Client | Module | Plugin | LegacyServer | LegacyClient | RunContextServer | RunContextClient

text \<open>The class and the name of the run context; the enumeration itself must exist.\<close>

definition script_class :: "bool \<Rightarrow> script_type \<Rightarrow> string \<times> string option" where
  "script_class emit_legacy ty =
     (case ty of
        Server \<Rightarrow> (''Script'', Some (if emit_legacy then ''Legacy'' else ''Server''))
      | Client \<Rightarrow> if emit_legacy then (''LocalScript'', None) else (''Script'', Some ''Client'')
      | Module \<Rightarrow> (''ModuleScript'', None)
      | Plugin \<Rightarrow> (''Script'', Some ''Plugin'')
      | LegacyServer \<Rightarrow> (''Script'', Some ''Legacy'')
      | LegacyClient \<Rightarrow> (''LocalScript'', None)
      | RunContextServer \<Rightarrow> (''Script'', Some ''Server'')
      | RunContextClient \<Rightarrow> (''Script'', Some ''Client''))"

definition snapshot_lua :: "('s, 'o) snapshot_env \<Rightarrow> instance_context \<Rightarrow> path \<Rightarrow> string \<Rightarrow> script_type \<Rightarrow>
    ('s vfs, 'o snapshot_error, 'o instance_snapshot option) action" where
  "snapshot_lua env ctx p name ty =
     and_then (of_panicking (se_run_contexts env)) (\<lambda>run_context_enums.
     and_then (of_io IoFailed (\<lambda>v. vfs_read_to_string_lf_normalized (se_ops env) v p)) (\<lambda>contents.
       let (class_name, run_context_name) = script_class (emit_legacy_scripts ctx) ty;
           run_context = Option.bind run_context_name (hm_get run_context_enums)
       in file_snapshot env ctx p name class_name
            ((''Source'', VString contents) #
             (case run_context of Some n \<Rightarrow> [(''RunContext'', VEnum n)] | None \<Rightarrow> []))))"

text \<open>A localization table gets no context.\<close>

definition snapshot_csv :: "('s, 'o) snapshot_env \<Rightarrow> instance_context \<Rightarrow> path \<Rightarrow> string \<Rightarrow>
    ('s vfs, 'o snapshot_error, 'o instance_snapshot option) action" where
  "snapshot_csv env ctx p name =
     and_then (read_bytes env p) (\<lambda>contents.
     and_then (of_result (map_error (CsvMalformed p) (convert_localization_csv (se_csv env) contents))) (\<lambda>table_contents.
     file_snapshot env context_new p name ''LocalizationTable'' [(''Contents'', VString table_contents)]))"

text \<open>Data files become modules; printing may panic.\<close>

definition module_snapshot :: "('s, 'o) snapshot_env \<Rightarrow> instance_context \<Rightarrow> path \<Rightarrow> string \<Rightarrow> statement \<Rightarrow>
    ('s vfs, 'o snapshot_error, 'o instance_snapshot option) action" where
  "module_snapshot env ctx p name code =
     and_then (of_panicking (statement_to_string code)) (\<lambda>as_lua.
     file_snapshot env ctx p name ''ModuleScript'' [(''Source'', VString as_lua)])"

definition snapshot_json :: "('s, 'o) snapshot_env \<Rightarrow> instance_context \<Rightarrow> path \<Rightarrow> string \<Rightarrow>
    ('s vfs, 'o snapshot_error, 'o instance_snapshot option) action" where
  "snapshot_json env ctx p name =
     and_then (read_bytes env p) (\<lambda>contents.
     and_then (of_result (map_error JsonMalformed (parse_value_from_slice_with_context (se_jsonc env) contents p))) (\<lambda>v.
     module_snapshot env ctx p name (json_to_lua v)))"

definition snapshot_toml :: "('s, 'o) snapshot_env \<Rightarrow> instance_context \<Rightarrow> path \<Rightarrow> string \<Rightarrow>
    ('s vfs, 'o snapshot_error, 'o instance_snapshot option) action" where
  "snapshot_toml env ctx p name =
     and_then (read_bytes env p) (\<lambda>contents.
     and_then (of_result (map_error (TomlMalformed p) (se_toml env contents))) (\<lambda>v.
     module_snapshot env ctx p name (toml_to_lua v)))"

definition snapshot_yaml :: "('s, 'o) snapshot_env \<Rightarrow> instance_context \<Rightarrow> path \<Rightarrow> string \<Rightarrow>
    ('s vfs, 'o snapshot_error, 'o instance_snapshot option) action" where
  "snapshot_yaml env ctx p name =
     and_then (read_text env p) (\<lambda>contents.
     and_then (of_result (map_error YamlMalformed (se_yaml env contents))) (\<lambda>documents.
       case rev documents of
         [] \<Rightarrow> fails YamlNoDocument
       | [v] \<Rightarrow>
           and_then (of_panicking (yaml_to_luau v)) (\<lambda>r.
           and_then (of_result (map_error YamlFailed r)) (\<lambda>e.
           module_snapshot env ctx p name (Return e)))
       | _ \<Rightarrow> fails YamlManyDocuments))"

text \<open>Binary and XML models: a tree with exactly one child of its root; indexing a missing root panics.\<close>

definition snapshot_model_tree :: "('s, 'o) snapshot_env \<Rightarrow> instance_context \<Rightarrow> path \<Rightarrow> string \<Rightarrow>
    (referent, 'o inst) hash_map \<times> referent \<Rightarrow> ('s vfs, 'o snapshot_error, 'o instance_snapshot option) action" where
  "snapshot_model_tree env ctx p name = (\<lambda>(tree, root).
     and_then (of_panicking (hm_get tree root)) (\<lambda>root_instance.
       case i_children root_instance of
         [child] \<Rightarrow>
           and_then (of_panicking (from_raw_tree tree child)) (\<lambda>(_, s).
           and_then (canonicalize env p) (\<lambda>canonical.
           yields (Some (Snapshot (sn_id s) (file_metadata ctx p canonical) name (sn_class s) (sn_properties s) (sn_children s)))))
       | _ \<Rightarrow> fails (NotOneRoot p)))"

definition snapshot_rbxm :: "('s, 'o) snapshot_env \<Rightarrow> instance_context \<Rightarrow> path \<Rightarrow> string \<Rightarrow>
    ('s vfs, 'o snapshot_error, 'o instance_snapshot option) action" where
  "snapshot_rbxm env ctx p name =
     and_then (read_bytes env p) (\<lambda>contents.
     and_then (of_result (map_error (BinaryMalformed p) (se_rbxm env contents))) (snapshot_model_tree env ctx p name))"

definition snapshot_rbxmx :: "('s, 'o) snapshot_env \<Rightarrow> instance_context \<Rightarrow> path \<Rightarrow> string \<Rightarrow>
    ('s vfs, 'o snapshot_error, 'o instance_snapshot option) action" where
  "snapshot_rbxmx env ctx p name =
     and_then (read_bytes env p) (\<lambda>contents.
     and_then (of_result (map_error (BinaryMalformed p) (se_rbxmx env contents))) (snapshot_model_tree env ctx p name))"

text \<open>\<open>JsonModel::into_snapshot\<close>: the children first, then the values.\<close>

fun into_snapshot :: "'o resolve_env \<Rightarrow> 'o json_model \<Rightarrow> ('o resolve_error + 'o instance_snapshot) option"
  and into_snapshots :: "'o resolve_env \<Rightarrow> 'o json_model list \<Rightarrow> ('o resolve_error + 'o instance_snapshot list) option"
where
  "into_snapshot env (JsonModelNode schema name class_name mid children properties attributes) =
     (case into_snapshots env children of
        None \<Rightarrow> None
      | Some (Inl e) \<Rightarrow> Some (Inl e)
      | Some (Inr cs) \<Rightarrow>
          (case resolve_all (\<lambda>(key, unresolved). resolve env unresolved class_name key) properties of
             None \<Rightarrow> None
           | Some (Inl e) \<Rightarrow> Some (Inl e)
           | Some (Inr values) \<Rightarrow>
               Some (case (if attributes = [] then Inr (hm_extend [] values)
                     else map_sum id (\<lambda>as. hm_insert ''Attributes'' (VAttributes as) (hm_extend [] values)) (attribute_map attributes)) of
                  Inl e \<Rightarrow> Inl e
                | Inr props \<Rightarrow>
                    Inr (Snapshot NoRef metadata_new (case name of Some n \<Rightarrow> n | None \<Rightarrow> class_name) class_name props cs))))"
| "into_snapshots env [] = Some (Inr [])"
| "into_snapshots env (m # ms) =
     (case into_snapshot env m of
        None \<Rightarrow> None
      | Some (Inl e) \<Rightarrow> Some (Inl e)
      | Some (Inr s) \<Rightarrow> map_option (map_sum id (Cons s)) (into_snapshots env ms))"

definition set_name :: "string \<Rightarrow> 'o json_model \<Rightarrow> 'o json_model" where
  "set_name name m = JsonModelNode None (Some name) (jm_class_name m) None (jm_children m) (jm_properties m) (jm_attributes m)"

definition snapshot_json_model :: "('s, 'o) snapshot_env \<Rightarrow> instance_context \<Rightarrow> path \<Rightarrow> string \<Rightarrow>
    ('s vfs, 'o snapshot_error, 'o instance_snapshot option) action" where
  "snapshot_json_model env ctx p name =
     and_then (read_bytes env p) (\<lambda>contents.
       case from_utf8 contents of
         None \<Rightarrow> fails (NotUtf8File p)
       | Some contents_str \<Rightarrow>
           (if trim contents_str = [] then yields None
            else
              and_then (of_result (map_error ModelMalformed
                (from_str_with_context (se_jsonc env) (se_model env) contents_str p))) (\<lambda>m.
              and_then (of_panicking (into_snapshot (se_resolve env) (set_name name m))) (\<lambda>r.
              and_then (of_result (map_error (ModelFailed p) r)) (\<lambda>s.
              and_then (canonicalize env p) (\<lambda>canonical.
              yields (Some (with_metadata (\<lambda>md. md\<lparr>md_instigating_source := Some (SourcePath p),
                md_relevant_paths := [canonical], md_context := ctx, md_specified_id := jm_id m,
                md_schema := jm_schema m\<rparr>) s))))))))"


section \<open>Directories\<close>

definition INIT_NAMES :: "string list" where
  "INIT_NAMES = [''init.lua'', ''init.luau'', ''init.server.lua'', ''init.server.luau'', ''init.client.lua'',
     ''init.client.luau'', ''init.plugin.lua'', ''init.plugin.luau'', ''init.csv'']"

text \<open>The entries of a directory that are not ignored become the children, in the order listed.\<close>

fun snapshot_entries :: "('s, 'o) snapshot_env \<Rightarrow> ('s, 'o) snapshotter \<Rightarrow> instance_context \<Rightarrow> path io_result list \<Rightarrow>
    ('s vfs, 'o snapshot_error, 'o instance_snapshot list) action" where
  "snapshot_entries env rec ctx [] = yields []"
| "snapshot_entries env rec ctx (entry # rest) =
     (case entry of
        Inl e \<Rightarrow> fails (IoFailed e)
      | Inr p \<Rightarrow>
          (if is_path_ignored (se_globs env) (path_ignore_rules ctx) p then snapshot_entries env rec ctx rest
           else
             and_then (rec ctx p) (\<lambda>child.
             and_then (snapshot_entries env rec ctx rest) (\<lambda>children.
             yields (case child of Some s \<Rightarrow> s # children | None \<Rightarrow> children)))))"

definition snapshot_dir_no_meta :: "('s, 'o) snapshot_env \<Rightarrow> ('s, 'o) snapshotter \<Rightarrow> instance_context \<Rightarrow> path \<Rightarrow> string \<Rightarrow>
    ('s vfs, 'o snapshot_error, 'o instance_snapshot option) action" where
  "snapshot_dir_no_meta env rec ctx p name =
     and_then (of_io IoFailed (\<lambda>v. vfs_read_dir (se_ops env) v p)) (\<lambda>listing.
     and_then (snapshot_entries env rec ctx listing) (\<lambda>snapshot_children.
     and_then (canonicalize env p) (\<lambda>normalized_path.
     yields (Some (Snapshot NoRef
       (metadata_new\<lparr>md_instigating_source := Some (SourcePath p),
          md_relevant_paths := normalized_path # map (\<lambda>n. normalized_path @ [Normal n]) INIT_NAMES,
          md_context := ctx\<rparr>)
       name ''Folder'' [] snapshot_children)))))"

definition snapshot_dir :: "('s, 'o) snapshot_env \<Rightarrow> ('s, 'o) snapshotter \<Rightarrow> instance_context \<Rightarrow> path \<Rightarrow> string \<Rightarrow>
    ('s vfs, 'o snapshot_error, 'o instance_snapshot option) action" where
  "snapshot_dir env rec ctx p name =
     and_then (snapshot_dir_no_meta env rec ctx p name) (\<lambda>found.
       case found of
         None \<Rightarrow> yields None
       | Some s \<Rightarrow> and_then (directory_read_and_apply_all env p s) (\<lambda>s'. yields (Some s')))"

text \<open>
  A directory with an init file: \<open>leaf\<close> is the middleware of that file, which takes the name of the
  directory; the children and the metadata are the directory's.
\<close>

definition snapshot_init :: "('s, 'o) snapshot_env \<Rightarrow> ('s, 'o) snapshotter \<Rightarrow> instance_context \<Rightarrow> path \<Rightarrow> string \<Rightarrow>
    (path \<Rightarrow> string \<Rightarrow> ('s vfs, 'o snapshot_error, 'o instance_snapshot option) action) \<Rightarrow>
    ('s vfs, 'o snapshot_error, 'o instance_snapshot option) action" where
  "snapshot_init env rec ctx init_path name leaf =
     and_then (of_panicking (path_parent init_path)) (\<lambda>folder_path.
     and_then (and_then (snapshot_dir_no_meta env rec ctx folder_path name) of_panicking) (\<lambda>dir_snapshot.
       if sn_class dir_snapshot \<noteq> ''Folder'' then fails (InitOfNonFolder folder_path (sn_class dir_snapshot))
       else
         and_then (and_then (leaf init_path (sn_name dir_snapshot)) of_panicking) (\<lambda>init_snapshot.
         and_then (directory_read_and_apply_all env folder_path
           (with_metadata (\<lambda>_. sn_metadata dir_snapshot) (with_children (sn_children dir_snapshot) init_snapshot))) (\<lambda>s.
         yields (Some s)))))"

definition snapshot_lua_init :: "('s, 'o) snapshot_env \<Rightarrow> ('s, 'o) snapshotter \<Rightarrow> instance_context \<Rightarrow> path \<Rightarrow> string \<Rightarrow>
    script_type \<Rightarrow> ('s vfs, 'o snapshot_error, 'o instance_snapshot option) action" where
  "snapshot_lua_init env rec ctx init_path name ty =
     snapshot_init env rec ctx init_path name (\<lambda>p n. snapshot_lua env ctx p n ty)"

definition snapshot_csv_init :: "('s, 'o) snapshot_env \<Rightarrow> ('s, 'o) snapshotter \<Rightarrow> instance_context \<Rightarrow> path \<Rightarrow> string \<Rightarrow>
    ('s vfs, 'o snapshot_error, 'o instance_snapshot option) action" where
  "snapshot_csv_init env rec ctx init_path name =
     snapshot_init env rec ctx init_path name (\<lambda>p n. snapshot_csv env ctx p n)"


section \<open>Projects\<close>

text \<open>The error text of the JSON module, which is all a project error keeps.\<close>

definition json_error_text :: "json_error \<Rightarrow> string" where
  "json_error_text e =
     (case e of
        NotUtf8 \<Rightarrow> ''File is not valid UTF-8''
      | ParseError _ \<Rightarrow> ''Failed to parse JSONC''
      | NoJsonValue \<Rightarrow> ''File contains no JSON value''
      | InvalidStructure _ \<Rightarrow> ''Failed to deserialize JSON'')"

definition project_from_slice :: "('s, 'o) snapshot_env \<Rightarrow> string \<Rightarrow> string + 'o project" where
  "project_from_slice env bytes = map_error json_error_text (from_slice (se_jsonc env) (se_project env) bytes)"

definition load_project :: "('s, 'o) snapshot_env \<Rightarrow> path \<Rightarrow> string option \<Rightarrow> ('s vfs, 'o snapshot_error, 'o project) action" where
  "load_project env p fallback = (\<lambda>v.
     case load_exact (project_from_slice env) (se_ops env) v p fallback of
       None \<Rightarrow> (v, Panics)
     | Some (v', r) \<Rightarrow> of_result (map_error (ProjectFailed p) r) v')"

definition infer_class_name :: "('s, 'o) snapshot_env \<Rightarrow> string \<Rightarrow> string option \<Rightarrow> string option" where
  "infer_class_name env name parent_class =
     (case parent_class of
        None \<Rightarrow> None
      | Some parent \<Rightarrow>
          (if parent = ''DataModel'' then
             (if hm_contains_key (db_classes (re_db (se_resolve env))) name \<and> se_is_service env name then Some name else None)
           else if parent = ''StarterPlayer'' then
             (if name = ''StarterPlayerScripts'' \<or> name = ''StarterCharacterScripts'' then Some name else None)
           else if parent = ''Workspace'' then (if name = ''Terrain'' then Some name else None)
           else None))"

text \<open>The class of a node: the arms of the match, in order; \<open>None\<close> is no instance at all.\<close>

definition choose_class :: "string \<Rightarrow> path \<Rightarrow> string option \<Rightarrow> string option \<Rightarrow> string option \<Rightarrow> path_node option \<Rightarrow>
    'o snapshot_error + string option" where
  "choose_class instance_name project_path from_project from_path from_inference node_path =
     (case (from_project, from_path, from_inference, node_path) of
        (Some project, None, None, _) \<Rightarrow> Inr (Some project)
      | (None, Some p, None, _) \<Rightarrow> Inr (Some p)
      | (None, None, Some inference, _) \<Rightarrow> Inr (Some inference)
      | (Some project, None, Some _, _) \<Rightarrow> Inr (Some project)
      | (None, Some p, Some inference, _) \<Rightarrow> Inr (Some (if p = ''Folder'' then inference else p))
      | (Some project, Some p, _, _) \<Rightarrow>
          (if p = ''Folder'' then Inr (Some project)
           else Inl (ClassTwice instance_name project p project_path (case node_path of Some n \<Rightarrow> pn_path n | None \<Rightarrow> [])))
      | (None, None, None, Some (Optional _)) \<Rightarrow> Inr None
      | (_, None, _, Some (Required p)) \<Rightarrow> Inl (PathNotUnderstood project_path p)
      | (None, None, None, None) \<Rightarrow> Inl (NodeIncomplete instance_name project_path))"

text \<open>The properties and attributes of a node over those of its path.\<close>

definition node_properties :: "'o resolve_env \<Rightarrow> path \<Rightarrow> string \<Rightarrow> (string \<times> 'o unresolved_value) list \<Rightarrow>
    (string \<times> 'o unresolved_value) list \<Rightarrow> (string, 'o variant) hash_map \<Rightarrow>
    ('o snapshot_error + (string, 'o variant) hash_map) option" where
  "node_properties env project_path class_name props attrs properties =
     (case resolve_all (\<lambda>(key, unresolved).
          map_option (map_error (NodeValueFailed project_path)) (resolve env unresolved class_name key)) props of
        None \<Rightarrow> None
      | Some (Inl e) \<Rightarrow> Some (Inl e)
      | Some (Inr values) \<Rightarrow>
          (let set_props = fold (\<lambda>(key, v) m. if key = ''Name'' \<or> key = ''Parent'' then m else hm_insert key v m) values properties
           in if attrs = [] then Some (Inr set_props)
              else Some (case attribute_map attrs of
                     Inl e \<Rightarrow> Inl (NodeValueFailed project_path e)
                   | Inr attributes \<Rightarrow> Inr (hm_insert ''Attributes'' (VAttributes attributes) set_props))))"

definition node_metadata :: "'o instance_metadata \<Rightarrow> bool option \<Rightarrow> path_node option \<Rightarrow> string option \<Rightarrow>
    'o instigating_source \<Rightarrow> 'o instance_metadata" where
  "node_metadata md ignore node_path node_id source =
     (let md1 = (case ignore of
                   Some b \<Rightarrow> md\<lparr>md_ignore_unknown_instances := b\<rparr>
                 | None \<Rightarrow> if node_path = None then md\<lparr>md_ignore_unknown_instances := True\<rparr> else md);
          md2 = (case node_id of Some i \<Rightarrow> md1\<lparr>md_specified_id := Some i\<rparr> | None \<Rightarrow> md1)
      in md2\<lparr>md_instigating_source := Some source\<rparr>)"

fun snapshot_project_node :: "('s, 'o) snapshot_env \<Rightarrow> ('s, 'o) snapshotter \<Rightarrow> instance_context \<Rightarrow> path \<Rightarrow> string \<Rightarrow>
    'o project_node \<Rightarrow> string option \<Rightarrow> ('s vfs, 'o snapshot_error, 'o instance_snapshot option) action"
  and snapshot_child_nodes :: "('s, 'o) snapshot_env \<Rightarrow> ('s, 'o) snapshotter \<Rightarrow> instance_context \<Rightarrow> path \<Rightarrow>
    (string \<times> 'o project_node) list \<Rightarrow> string option \<Rightarrow> ('s vfs, 'o snapshot_error, 'o instance_snapshot list) action"
where
  "snapshot_project_node env rec ctx project_path instance_name
       (ProjectNode class_name node_id child_nodes props attrs ignore node_path) parent_class =
     and_then (of_panicking (path_parent project_path)) (\<lambda>project_folder.
     and_then (case node_path of
         None \<Rightarrow> yields None
       | Some n \<Rightarrow> rec ctx (if is_absolute (pn_path n) then pn_path n else path_join project_folder (pn_path n))) (\<lambda>found.
     and_then (of_result (choose_class instance_name project_path class_name (map_option sn_class found)
         (infer_class_name env instance_name parent_class) node_path)) (\<lambda>chosen.
       case chosen of
         None \<Rightarrow> yields None
       | Some cl \<Rightarrow>
           and_then (snapshot_child_nodes env rec ctx project_path child_nodes (Some cl)) (\<lambda>more_children.
           and_then (of_panicking (node_properties (se_resolve env) project_path cl props attrs
               (case found of Some s \<Rightarrow> hm_extend [] (sn_properties s) | None \<Rightarrow> []))) (\<lambda>r.
           and_then (of_result r) (\<lambda>properties.
           yields (Some (Snapshot NoRef
             (node_metadata (case found of Some s \<Rightarrow> sn_metadata s | None \<Rightarrow> metadata_new\<lparr>md_context := ctx\<rparr>) ignore node_path node_id
               (SourceNode project_path instance_name
                  (ProjectNode class_name node_id child_nodes props attrs ignore node_path) parent_class))
             instance_name cl properties
             ((case found of Some s \<Rightarrow> sn_children s | None \<Rightarrow> []) @ more_children)))))))))"
| "snapshot_child_nodes env rec ctx project_path [] parent_class = yields []"
| "snapshot_child_nodes env rec ctx project_path ((child_name, child_node) # rest) parent_class =
     and_then (snapshot_project_node env rec ctx project_path child_name child_node parent_class) (\<lambda>child.
     and_then (snapshot_child_nodes env rec ctx project_path rest parent_class) (\<lambda>children.
     yields (case child of Some s \<Rightarrow> s # children | None \<Rightarrow> children)))"

definition project_context :: "instance_context \<Rightarrow> 'o project \<Rightarrow> path \<Rightarrow> instance_context" where
  "project_context ctx project folder =
     set_emit_legacy_scripts
       (add_path_ignore_rules
         (add_sync_rules (clear_sync_rules ctx)
           (map (\<lambda>rule. rule\<lparr>sr_base_path := folder\<rparr>) (p_sync_rules project)))
         (map (\<lambda>g. \<lparr>pi_base_path = folder, pi_glob = g\<rparr>) (p_glob_ignore_paths project)))
       (the (case p_emit_legacy_scripts project of Some b \<Rightarrow> Some b | None \<Rightarrow> emit_legacy_scripts_default))"

definition snapshot_project :: "('s, 'o) snapshot_env \<Rightarrow> ('s, 'o) snapshotter \<Rightarrow> instance_context \<Rightarrow> path \<Rightarrow> string \<Rightarrow>
    ('s vfs, 'o snapshot_error, 'o instance_snapshot option) action" where
  "snapshot_project env rec ctx p name =
     and_then (load_project env p (Some name)) (\<lambda>project.
     and_then (of_panicking (p_name project)) (\<lambda>project_name.
     and_then (of_panicking (folder_location project)) (\<lambda>folder.
     and_then (snapshot_project_node env rec (project_context ctx project folder) p project_name (p_tree project) None) (\<lambda>found.
     yields (map_option (with_metadata (\<lambda>md. md\<lparr>md_instigating_source := Some (SourcePath p),
       md_relevant_paths := md_relevant_paths md @ [p]\<rparr>)) found)))))"


section \<open>Choosing the middleware\<close>

text \<open>The rules Rojo uses when no user rule matches; the crate's globs are parameters.\<close>

definition default_rule :: "string \<Rightarrow> middleware \<Rightarrow> string option \<Rightarrow> string option \<Rightarrow> sync_rule" where
  "default_rule pattern mw suffix exclude =
     \<lparr>sr_include = pattern, sr_exclude = exclude, sr_middleware = mw, sr_suffix = suffix, sr_base_path = []\<rparr>"

definition default_sync_rules :: "sync_rule list" where
  "default_sync_rules =
     [default_rule ''*.server.lua'' ServerScript (Some ''.server.lua'') None,
      default_rule ''*.server.luau'' ServerScript (Some ''.server.luau'') None,
      default_rule ''*.client.lua'' ClientScript (Some ''.client.lua'') None,
      default_rule ''*.client.luau'' ClientScript (Some ''.client.luau'') None,
      default_rule ''*.plugin.lua'' PluginScript (Some ''.plugin.lua'') None,
      default_rule ''*.plugin.luau'' PluginScript (Some ''.plugin.luau'') None,
      default_rule ''*.{lua,luau}'' ModuleScript None None,
      default_rule ''*.project.json'' ProjectMw (Some ''.project.json'') None,
      default_rule ''*.project.jsonc'' ProjectMw (Some ''.project.jsonc'') None,
      default_rule ''*.model.json'' JsonModel (Some ''.model.json'') None,
      default_rule ''*.model.jsonc'' JsonModel (Some ''.model.jsonc'') None,
      default_rule ''*.json'' Json (Some ''.json'') (Some ''*.meta.json''),
      default_rule ''*.jsonc'' Json (Some ''.jsonc'') (Some ''*.meta.jsonc''),
      default_rule ''*.toml'' Toml None None,
      default_rule ''*.csv'' Csv None None,
      default_rule ''*.txt'' Text None None,
      default_rule ''*.rbxmx'' Rbxmx None None,
      default_rule ''*.rbxm'' Rbxm None None,
      default_rule ''*.{yml,yaml}'' Yaml None None]"

definition middleware_snapshot :: "('s, 'o) snapshot_env \<Rightarrow> ('s, 'o) snapshotter \<Rightarrow> middleware \<Rightarrow> instance_context \<Rightarrow>
    path \<Rightarrow> string \<Rightarrow> ('s vfs, 'o snapshot_error, 'o instance_snapshot option) action" where
  "middleware_snapshot env rec mw ctx p name =
     and_then
       (case mw of
          Csv \<Rightarrow> snapshot_csv env ctx p name
        | JsonModel \<Rightarrow> snapshot_json_model env ctx p name
        | Json \<Rightarrow> snapshot_json env ctx p name
        | ServerScript \<Rightarrow> snapshot_lua env ctx p name Server
        | ClientScript \<Rightarrow> snapshot_lua env ctx p name Client
        | ModuleScript \<Rightarrow> snapshot_lua env ctx p name Module
        | PluginScript \<Rightarrow> snapshot_lua env ctx p name Plugin
        | LegacyClientScript \<Rightarrow> snapshot_lua env ctx p name LegacyClient
        | LegacyServerScript \<Rightarrow> snapshot_lua env ctx p name LegacyServer
        | RunContextClientScript \<Rightarrow> snapshot_lua env ctx p name RunContextClient
        | RunContextServerScript \<Rightarrow> snapshot_lua env ctx p name RunContextServer
        | ProjectMw \<Rightarrow> snapshot_project env rec ctx p name
        | Rbxm \<Rightarrow> snapshot_rbxm env ctx p name
        | Rbxmx \<Rightarrow> snapshot_rbxmx env ctx p name
        | Toml \<Rightarrow> snapshot_toml env ctx p name
        | Text \<Rightarrow> snapshot_txt env ctx p name
        | Yaml \<Rightarrow> snapshot_yaml env ctx p name
        | Ignore \<Rightarrow> yields None
        | DirMw \<Rightarrow> snapshot_dir env rec ctx p name
        | ServerScriptDir \<Rightarrow> snapshot_lua_init env rec ctx p name Server
        | ClientScriptDir \<Rightarrow> snapshot_lua_init env rec ctx p name Client
        | PluginScriptDir \<Rightarrow> snapshot_lua_init env rec ctx p name Plugin
        | ModuleScriptDir \<Rightarrow> snapshot_lua_init env rec ctx p name Module
        | CsvDir \<Rightarrow> snapshot_csv_init env rec ctx p name)
       (\<lambda>output. yields (map_option (with_metadata (\<lambda>md. md\<lparr>md_middleware := Some mw\<rparr>)) output))"

definition existing_metadata :: "('s, 'o) snapshot_env \<Rightarrow> path \<Rightarrow> ('s vfs, 'o snapshot_error, metadata option) action" where
  "existing_metadata env p = of_io IoFailed (\<lambda>v. case vfs_metadata (se_ops env) v p of (v', r) \<Rightarrow> (v', with_not_found r))"

text \<open>The first of the named files that exists, with its middleware.\<close>

fun first_init :: "('s, 'o) snapshot_env \<Rightarrow> path \<Rightarrow> (middleware \<times> string) list \<Rightarrow>
    ('s vfs, 'o snapshot_error, (middleware \<times> path) option) action" where
  "first_init env dir_path [] = yields None"
| "first_init env dir_path ((mw, name) # order) =
     and_then (existing_metadata env (dir_path @ [Normal name])) (\<lambda>meta.
       if meta \<noteq> None then yields (Some (mw, dir_path @ [Normal name])) else first_init env dir_path order)"

definition INIT_PATHS :: "(middleware \<times> string) list" where
  "INIT_PATHS =
     [(ModuleScriptDir, ''init.luau''), (ModuleScriptDir, ''init.lua''),
      (ServerScriptDir, ''init.server.luau''), (ServerScriptDir, ''init.server.lua''),
      (ClientScriptDir, ''init.client.luau''), (ClientScriptDir, ''init.client.lua''),
      (PluginScriptDir, ''init.plugin.lua''), (PluginScriptDir, ''init.plugin.luau''),
      (CsvDir, ''init.csv'')]"

definition get_dir_middleware :: "('s, 'o) snapshot_env \<Rightarrow> path \<Rightarrow>
    ('s vfs, 'o snapshot_error, middleware \<times> string \<times> path) action" where
  "get_dir_middleware env dir_path =
     and_then (of_panicking (path_file_name dir_path)) (\<lambda>dir_name.
     and_then (first_init env dir_path (map (Pair ProjectMw) DEFAULT_PROJECT_NAMES @ INIT_PATHS)) (\<lambda>found.
     yields (case found of
         Some (mw, p) \<Rightarrow> (mw, dir_name, p)
       | None \<Rightarrow> (DirMw, dir_name, dir_path))))"

definition chosen_rule :: "('s, 'o) snapshot_env \<Rightarrow> instance_context \<Rightarrow> path \<Rightarrow> sync_rule option" where
  "chosen_rule env ctx p =
     (case get_user_sync_rule (se_globs env) ctx p of
        Some rule \<Rightarrow> Some rule
      | None \<Rightarrow> List.find (\<lambda>rule. sr_matches (se_globs env) rule p) default_sync_rules)"

definition snapshot_from_path :: "('s, 'o) snapshot_env \<Rightarrow> ('s, 'o) snapshotter \<Rightarrow> ('s, 'o) snapshotter" where
  "snapshot_from_path env rec ctx p =
     (case chosen_rule env ctx p of
        None \<Rightarrow> yields None
      | Some rule \<Rightarrow>
          and_then (of_result (map_error FileNameInvalid (file_name_for_path rule p))) (\<lambda>name.
          middleware_snapshot env rec (sr_middleware rule) ctx p name))"

definition is_init_file :: "string \<Rightarrow> bool" where
  "is_init_file name \<longleftrightarrow> name \<in> {''init.server.luau'', ''init.server.lua'', ''init.client.luau'', ''init.client.lua'',
     ''init.plugin.luau'', ''init.plugin.lua'', ''init.luau'', ''init.lua'', ''init.csv''}"

text \<open>One level of \<open>snapshot_from_vfs\<close>, and the function itself.\<close>

definition snapshot_level :: "('s, 'o) snapshot_env \<Rightarrow> ('s, 'o) snapshotter \<Rightarrow> ('s, 'o) snapshotter" where
  "snapshot_level env rec ctx p =
     and_then (existing_metadata env p) (\<lambda>found.
       case found of
         None \<Rightarrow> yields None
       | Some meta \<Rightarrow>
           if is_dir meta then
             and_then (get_dir_middleware env p) (\<lambda>(mw, dir_name, init_path).
               middleware_snapshot env rec mw ctx (if mw = DirMw then p else init_path) dir_name)
           else
             (case path_file_name p of
                None \<Rightarrow> fails (FileNameInvalid p)
              | Some file_name \<Rightarrow>
                  if is_init_file file_name then yields None else snapshot_from_path env rec ctx p))"

fun snapshot_from_vfs :: "('s, 'o) snapshot_env \<Rightarrow> nat \<Rightarrow> ('s, 'o) snapshotter" where
  "snapshot_from_vfs env 0 ctx p = out_of_fuel"
| "snapshot_from_vfs env (Suc n) ctx p = snapshot_level env (snapshot_from_vfs env n) ctx p"

definition middleware_for_path :: "('s, 'o) snapshot_env \<Rightarrow> sync_rule list \<Rightarrow> path \<Rightarrow>
    ('s vfs, 'o snapshot_error, middleware option) action" where
  "middleware_for_path env rules p =
     and_then (existing_metadata env p) (\<lambda>found.
       case found of
         None \<Rightarrow> yields None
       | Some meta \<Rightarrow>
           if is_dir meta then and_then (get_dir_middleware env p) (\<lambda>(mw, _, _). yields (Some mw))
           else yields (map_option sr_middleware (List.find (\<lambda>rule. sr_matches (se_globs env) rule p) (rules @ default_sync_rules))))"

end
