(* ===== verification/Middleware_Laws.thy ===== *)
theory Middleware_Laws
  imports Snapshot_Middleware
begin

text \<open>
  What taking snapshots does and does not do: it changes no file, more fuel changes no result, a
  directory tree without projects needs no more fuel than it is deep, and a snapshot records how to
  take it again.  The contract of the file system is extended by the listing of directories.
\<close>

section \<open>The contract of a backend with directories\<close>

text \<open>What a backend answers to the questions a snapshot asks.\<close>

definition answers :: "'s backend_ops \<Rightarrow> 's \<Rightarrow> path \<Rightarrow>
    string io_result \<times> metadata io_result \<times> path io_result list io_result \<times> path io_result" where
  "answers ops s p = (snd (be_read ops s p), snd (be_metadata ops s p), snd (be_read_dir ops s p), snd (be_canonicalize ops s p))"

locale tree_backend = vfs_backend ops view
  for ops :: "'s backend_ops" and view :: "'s \<Rightarrow> path \<Rightarrow> node option" +
  fixes ok :: "'s \<Rightarrow> bool"
  assumes read_dir: "\<And>s p. fst (be_read_dir ops s p) = s"
    and listed: "\<And>s p es c. ok s \<Longrightarrow> snd (be_read_dir ops s p) = Inr es \<Longrightarrow> Inr c \<in> set es \<Longrightarrow> path_parent c = Some p"
    and watch_ok_state: "\<And>s p. ok s \<Longrightarrow> ok (fst (be_watch ops s p))"
    and listed_dir: "\<And>s p es. snd (be_read_dir ops s p) = Inr es \<Longrightarrow> view s p = Some ADir"
    and watch_answers: "\<And>s p. answers ops (fst (be_watch ops s p)) = answers ops s"

interpretation imtree: tree_backend in_memory_backend im_view "\<lambda>fs. children_below (entries fs)"
proof unfold_locales
  fix fs p es c
  assume "children_below (entries fs)" and "snd (be_read_dir in_memory_backend fs p) = Inr es" and "Inr c \<in> set es"
  then show "path_parent c = Some p"
    by (auto simp: in_memory_backend_def im_read_dir_def children_below_def split: option.splits entry.splits)
next
  fix fs p es
  assume "snd (be_read_dir in_memory_backend fs p) = Inr es"
  then show "im_view fs p = Some ADir"
    by (auto simp: in_memory_backend_def im_read_dir_def im_view_def split: option.splits entry.splits)
qed (simp_all add: in_memory_backend_def im_watch_def)

text \<open>The same files and answers as in a state \<open>s0\<close>.\<close>

definition files_as :: "'s backend_ops \<Rightarrow> ('s \<Rightarrow> path \<Rightarrow> node option) \<Rightarrow> ('s \<Rightarrow> bool) \<Rightarrow> 's \<Rightarrow> 's vfs \<Rightarrow> bool" where
  "files_as ops view ok s0 v \<longleftrightarrow> view (backend v) = view s0 \<and> (ok s0 \<longrightarrow> ok (backend v)) \<and>
     answers ops (backend v) = answers ops s0"

lemma files_as_refl [simp]: "files_as ops view ok (backend v) v"
  by (simp add: files_as_def)


section \<open>Actions that respect an invariant\<close>

text \<open>
  The invariant is kept, and the outcome is the same in all states that satisfy it; with the flag set,
  fuel does not run out either.
\<close>

definition stays :: "('v \<Rightarrow> bool) \<Rightarrow> bool \<Rightarrow> ('v, 'e, 'a) action \<Rightarrow> bool" where
  "stays P b m \<longleftrightarrow>
     (\<forall>v. P v \<longrightarrow> P (fst (m v)) \<and> (b \<longrightarrow> snd (m v) \<noteq> OutOfFuel) \<and> (\<forall>w. P w \<longrightarrow> snd (m w) = snd (m v)))"

lemma staysI:
  assumes "\<And>v. P v \<Longrightarrow> P (fst (m v))" and "\<And>v. P v \<Longrightarrow> b \<Longrightarrow> snd (m v) \<noteq> OutOfFuel"
    and "\<And>v w. P v \<Longrightarrow> P w \<Longrightarrow> snd (m w) = snd (m v)"
  shows "stays P b m"
  unfolding stays_def using assms by blast

lemma stays_keeps: "stays P b m \<Longrightarrow> P v \<Longrightarrow> m v = (v', r) \<Longrightarrow> P v'"
  unfolding stays_def by (metis fst_conv)

lemma stays_fuel: "stays P b m \<Longrightarrow> P v \<Longrightarrow> b \<Longrightarrow> m v = (v', r) \<Longrightarrow> r \<noteq> OutOfFuel"
  unfolding stays_def by (metis snd_conv)

lemma stays_result: "stays P b m \<Longrightarrow> P v \<Longrightarrow> P w \<Longrightarrow> snd (m w) = snd (m v)"
  unfolding stays_def by blast

named_theorems stays_intros

lemma stays_basic [stays_intros, simp]:
  "stays P b (yields x)" "stays P b (fails e)" "stays P b panics" "stays P b (of_result r)"
  "stays P b (of_panicking q)"
  by (simp_all add: stays_def yields_def fails_def panics_def of_result_def of_panicking_def split: sum.split option.split)

text \<open>The value of the first action may be used.\<close>

lemma stays_and_then_value:
  assumes m: "stays P b m" and f: "\<And>v v' x. P v \<Longrightarrow> m v = (v', Done x) \<Longrightarrow> stays P b (f x)"
  shows "stays P b (and_then m f)"
proof (rule staysI)
  fix v
  assume v: "P v"
  obtain v' r where mv: "m v = (v', r)" by (cases "m v")
  note v' = stays_keeps [OF m v mv]
  have "P (fst (f x v'))" if "r = Done x" for x
    using stays_keeps [OF f [OF v mv [unfolded that]] v'] by (metis prod.collapse)
  then show "P (fst (and_then m f v))" using mv v' by (cases r) (simp_all add: and_then_def)
  assume b
  have "snd (f x v') \<noteq> OutOfFuel" if "r = Done x" for x
    using stays_fuel [OF f [OF v mv [unfolded that]] v' \<open>b\<close>] by (metis prod.collapse)
  then show "snd (and_then m f v) \<noteq> OutOfFuel"
    using mv stays_fuel [OF m v \<open>b\<close> mv] by (cases r) (simp_all add: and_then_def)
next
  fix v w
  assume v: "P v" and w: "P w"
  obtain v' r where mv: "m v = (v', r)" by (cases "m v")
  obtain w' where mw: "m w = (w', r)" using stays_result [OF m v w] mv by (metis prod.collapse snd_conv)
  have "snd (f x w') = snd (f x v')" if "r = Done x" for x
    by (rule stays_result [OF f [OF v mv [unfolded that]] stays_keeps [OF m v mv] stays_keeps [OF m w mw]])
  then show "snd (and_then m f w) = snd (and_then m f v)"
    using mv mw by (cases r) (simp_all add: and_then_def)
qed

lemma stays_and_then [stays_intros]:
  "stays P b m \<Longrightarrow> (\<And>x. stays P b (f x)) \<Longrightarrow> stays P b (and_then m f)"
  by (rule stays_and_then_value)

lemma stays_option [stays_intros]:
  "(x = None \<Longrightarrow> stays P b m) \<Longrightarrow> (\<And>y. x = Some y \<Longrightarrow> stays P b (f y)) \<Longrightarrow>
    stays P b (case x of None \<Rightarrow> m | Some y \<Rightarrow> f y)"
  by (cases x) auto

lemma stays_list [stays_intros]:
  "(x = [] \<Longrightarrow> stays P b m) \<Longrightarrow> (\<And>y ys. x = y # ys \<Longrightarrow> stays P b (f y ys)) \<Longrightarrow>
    stays P b (case x of [] \<Rightarrow> m | y # ys \<Rightarrow> f y ys)"
  by (cases x) auto

lemma stays_prod [stays_intros]: "(\<And>a c. x = (a, c) \<Longrightarrow> stays P b (f a c)) \<Longrightarrow> stays P b (case x of (a, c) \<Rightarrow> f a c)"
  by (cases x) auto

lemma stays_if [stays_intros]:
  "(c \<Longrightarrow> stays P b m) \<Longrightarrow> (\<not> c \<Longrightarrow> stays P b m') \<Longrightarrow> stays P b (if c then m else m')"
  by auto

lemma stays_let [stays_intros]: "(\<And>y. y = x \<Longrightarrow> stays P b (f y)) \<Longrightarrow> stays P b (let y = x in f y)"
  by simp

lemma stays_of_io:
  assumes "\<And>v. P v \<Longrightarrow> P (fst (m v))" and "\<And>v. P v \<Longrightarrow> snd (m v) = r"
  shows "stays P b (of_io f m)"
proof -
  have result: "of_io f m v = (fst (m v), (case snd (m v) of Inl e \<Rightarrow> Failed (f e) | Inr x \<Rightarrow> Done x))" for v
    by (simp add: of_io_def of_result_def fails_def yields_def map_error_def split: prod.split sum.split)
  show ?thesis
    by (rule staysI) (simp_all add: result assms split: sum.split)
qed

context tree_backend
begin

abbreviation "same s0 \<equiv> files_as ops view ok s0"

lemma same_answers:
  assumes "same s0 v"
  shows "snd (be_read ops (backend v) p) = snd (be_read ops s0 p)"
    "snd (be_metadata ops (backend v) p) = snd (be_metadata ops s0 p)"
    "snd (be_read_dir ops (backend v) p) = snd (be_read_dir ops s0 p)"
    "snd (be_canonicalize ops (backend v) p) = snd (be_canonicalize ops s0 p)"
  using assms by (auto simp: files_as_def answers_def dest!: fun_cong [of _ _ p])

lemma same_query:
  assumes "\<And>s. fst (f s) = s"
  shows "same s0 v \<Longrightarrow> same s0 (fst (on_backend v f))" "snd (on_backend v f) = snd (f (backend v))"
  using assms [of "backend v"] by (auto simp: on_backend_def files_as_def split: prod.split)

lemma same_watched: "same s0 v \<Longrightarrow> (\<And>s. fst (f s) = s) \<Longrightarrow> same s0 (fst (then_watch ops v p f))"
  by (auto simp: then_watch_query files_as_def watch watch_ok_state watch_answers split: sum.split)

lemma watched_answer:
  assumes "\<And>s. fst (f s) = s" and "\<And>s x. snd (f s) = Inr x \<Longrightarrow> view s p \<noteq> None"
  shows "snd (then_watch ops v p f) = snd (f (backend v))"
proof (cases "snd (f (backend v))")
  case (Inr x)
  with assms show ?thesis by (intro then_watch_result) auto
qed (simp add: then_watch_error)

lemma same_read: "same s0 v \<Longrightarrow> same s0 (fst (vfs_read ops v p))"
  unfolding vfs_read_def by (rule same_watched) (use read in auto)

lemma read_answer: "snd (vfs_read ops v p) = snd (be_read ops (backend v) p)"
  unfolding vfs_read_def
proof (rule watched_answer)
  show "view s p \<noteq> None" if "snd (be_read ops s p) = Inr x" for s x
    using read [of s p] that by (auto split: option.splits)
qed (use read in auto)

lemma same_read_to_string: "same s0 v \<Longrightarrow> same s0 (fst (vfs_read_to_string ops v p))"
  using same_read [of s0 v p]
  by (auto simp: vfs_read_to_string_def vfs_read_def split: prod.split sum.split)

lemma read_to_string_answer:
  "snd (vfs_read_to_string ops v p) =
     (case snd (be_read ops (backend v) p) of Inl e \<Rightarrow> Inl e
      | Inr contents \<Rightarrow> if utf8_valid contents then Inr contents else Inl (not_utf8 p))"
  using read_answer [of v p]
  by (auto simp: vfs_read_to_string_def vfs_read_def split: prod.splits sum.splits)

lemma same_read_normalized: "same s0 v \<Longrightarrow> same s0 (fst (vfs_read_to_string_lf_normalized ops v p))"
  using same_read_to_string [of s0 v p]
  by (auto simp: vfs_read_to_string_lf_normalized_def split: prod.split sum.split)

lemma read_normalized_answer:
  "snd (vfs_read_to_string_lf_normalized ops v p) = map_sum id crlf_to_lf (snd (vfs_read_to_string ops v p))"
  by (auto simp: vfs_read_to_string_lf_normalized_def split: prod.split sum.split)

lemma same_read_dir: "same s0 v \<Longrightarrow> same s0 (fst (vfs_read_dir ops v p))"
  unfolding vfs_read_dir_def by (rule same_watched [OF _ read_dir])

lemma read_dir_answer: "snd (vfs_read_dir ops v p) = snd (be_read_dir ops (backend v) p)"
  unfolding vfs_read_dir_def by (rule watched_answer) (auto simp: read_dir dest: listed_dir)

lemma same_metadata: "same s0 v \<Longrightarrow> same s0 (fst (vfs_metadata ops v p))"
  unfolding vfs_metadata_def by (rule same_query(1)) (use metadata in auto)

lemma metadata_answer: "snd (vfs_metadata ops v p) = snd (be_metadata ops (backend v) p)"
  unfolding vfs_metadata_def by (rule same_query(2)) (use metadata in auto)

lemma same_canonicalize: "same s0 v \<Longrightarrow> same s0 (fst (vfs_canonicalize ops v p))"
  unfolding vfs_canonicalize_def by (rule same_query(1) [OF canonicalize])

lemma canonicalize_answer: "snd (vfs_canonicalize ops v p) = snd (be_canonicalize ops (backend v) p)"
  unfolding vfs_canonicalize_def by (rule same_query(2) [OF canonicalize])

lemmas same_steps = same_read same_read_to_string same_canonicalize same_metadata same_read_dir same_read_normalized
lemmas vfs_answers = read_answer read_to_string_answer canonicalize_answer metadata_answer read_dir_answer
  read_normalized_answer

lemma stays_io:
  assumes "se_ops env = ops"
  shows "stays (same s0) b (read_bytes env p)" "stays (same s0) b (read_text env p)"
    "stays (same s0) b (canonicalize env p)" "stays (same s0) b (read_optional env p)"
    "stays (same s0) b (existing_metadata env p)"
    "stays (same s0) b (of_io g (\<lambda>v. vfs_read_dir ops v p))"
    "stays (same s0) b (of_io g (\<lambda>v. vfs_read_to_string_lf_normalized ops v p))"
  unfolding read_bytes_def read_text_def canonicalize_def read_optional_def existing_metadata_def assms case_prod_beta
  by (rule stays_of_io, simp add: same_steps, simp only: vfs_answers same_answers fst_conv snd_conv)+

lemma stays_meta_file:
  assumes "se_ops env = ops"
  shows "stays (same s0) b (apply_meta_file env p parse apply_all s)"
  unfolding apply_meta_file_def by (intro stays_intros stays_io assms)

lemma stays_meta:
  assumes "se_ops env = ops"
  shows "stays (same s0) b (adjacent_read_and_apply_all env p name s)"
    "stays (same s0) b (directory_read_and_apply_all env p s)"
  unfolding adjacent_read_and_apply_all_def directory_read_and_apply_all_def
  by (intro stays_intros stays_meta_file assms)+

lemma stays_file_snapshot:
  assumes "se_ops env = ops"
  shows "stays (same s0) b (file_snapshot env ctx p name class_name properties)"
  unfolding file_snapshot_def by (intro stays_intros stays_io stays_meta assms)

lemma stays_module_snapshot:
  assumes "se_ops env = ops"
  shows "stays (same s0) b (module_snapshot env ctx p name code)"
  unfolding module_snapshot_def by (intro stays_intros stays_file_snapshot assms)

lemma stays_leaf:
  assumes "se_ops env = ops"
  shows "stays (same s0) b (snapshot_txt env ctx p name)" "stays (same s0) b (snapshot_lua env ctx p name ty)"
    "stays (same s0) b (snapshot_csv env ctx p name)" "stays (same s0) b (snapshot_json env ctx p name)"
    "stays (same s0) b (snapshot_toml env ctx p name)" "stays (same s0) b (snapshot_yaml env ctx p name)"
    "stays (same s0) b (snapshot_rbxm env ctx p name)" "stays (same s0) b (snapshot_rbxmx env ctx p name)"
    "stays (same s0) b (snapshot_json_model env ctx p name)"
  unfolding snapshot_txt_def snapshot_lua_def snapshot_csv_def snapshot_json_def snapshot_toml_def snapshot_yaml_def
    snapshot_rbxm_def snapshot_rbxmx_def snapshot_model_tree_def snapshot_json_model_def case_prod_beta assms
  by (intro stays_intros stays_io [OF assms] stays_file_snapshot [OF assms] stays_module_snapshot [OF assms])+

lemma stays_entries:
  assumes "\<And>q. Inr q \<in> set listing \<Longrightarrow> stays (same s0) b (rec ctx q)"
  shows "stays (same s0) b (snapshot_entries env rec ctx listing)"
  using assms
proof (induction listing)
  case (Cons entry rest)
  then have "stays (same s0) b (snapshot_entries env rec ctx rest)" by simp
  with Cons.prems show ?case by (cases entry) (auto intro!: stays_intros)
qed simp

lemma stays_dir_no_meta:
  assumes "se_ops env = ops" and "\<And>q. (ok s0 \<longrightarrow> path_parent q = Some p) \<Longrightarrow> stays (same s0) b (rec ctx q)"
  shows "stays (same s0) b (snapshot_dir_no_meta env rec ctx p name)"
  unfolding snapshot_dir_no_meta_def assms(1)
proof (intro stays_and_then_value stays_io [OF assms(1)] stays_basic stays_entries)
  fix v v' listing q
  assume v: "same s0 v" and l: "of_io IoFailed (\<lambda>v. vfs_read_dir ops v p) v = (v', Done listing)" and q: "Inr q \<in> set listing"
  obtain v1 r where rd: "vfs_read_dir ops v p = (v1, r)" by (cases "vfs_read_dir ops v p")
  with l have "r = Inr listing"
    by (cases r) (auto simp: of_io_def of_result_def map_error_def fails_def yields_def)
  with rd have "snd (be_read_dir ops (backend v) p) = Inr listing"
    by (auto simp: vfs_read_dir_def then_watch_query read_dir map_sum_eq_Inr split: sum.splits if_splits)
  with v q listed show "stays (same s0) b (rec ctx q)" by (intro assms(2)) (auto simp: files_as_def)
qed

lemma stays_project_node:
  assumes "\<And>c q. stays P b (rec c q)"
  shows "stays P b (snapshot_project_node env rec ctx project_path name node parent)"
    and "stays P b (snapshot_child_nodes env rec ctx project_path nodes parent)"
  using assms
  by (induction env rec ctx project_path name node parent and env rec ctx project_path nodes parent
      rule: snapshot_project_node_snapshot_child_nodes.induct)
    (auto intro!: stays_intros)

lemma stays_load:
  assumes "se_ops env = ops"
  shows "stays (same s0) b (load_project env p fallback)"
proof (rule staysI)
  fix v
  assume v: "same s0 v"
  show "same s0 (fst (load_project env p fallback v))" "snd (load_project env p fallback v) \<noteq> OutOfFuel"
    using same_read [OF v, of p] v
    by (auto simp: load_project_def load_exact_def read_project_def assms of_result_def yields_def fails_def
        split: option.splits prod.splits sum.splits)
next
  fix v w
  assume "same s0 v" and "same s0 w"
  then have "snd (vfs_read ops w p) = snd (vfs_read ops v p)" by (simp only: vfs_answers same_answers)
  then show "snd (load_project env p fallback w) = snd (load_project env p fallback v)"
    by (auto simp: load_project_def load_exact_def read_project_def of_result_def yields_def fails_def assms map_error_def
        split: option.splits prod.splits sum.splits)
qed

lemma stays_project:
  assumes "se_ops env = ops" and "\<And>c q. stays (same s0) b (rec c q)"
  shows "stays (same s0) b (snapshot_project env rec ctx p name)"
proof -
  show ?thesis unfolding snapshot_project_def
    by (intro stays_intros stays_load assms(1) stays_project_node assms(2))
qed

lemma stays_init:
  assumes "se_ops env = ops" and "\<And>q n. stays (same s0) b (leaf q n)"
    and "\<And>dir q. path_parent p = Some dir \<Longrightarrow> (ok s0 \<longrightarrow> path_parent q = Some dir) \<Longrightarrow> stays (same s0) b (rec ctx q)"
  shows "stays (same s0) b (snapshot_init env rec ctx p name leaf)"
  unfolding snapshot_init_def
proof (intro stays_and_then_value [of _ _ "of_panicking (path_parent p)"] stays_basic)
  fix v v' folder
  assume "of_panicking (path_parent p) v = (v', Done folder)"
  then have "path_parent p = Some folder"
    by (auto simp: of_panicking_def panics_def yields_def split: option.splits)
  then have "stays (same s0) b (snapshot_dir_no_meta env rec ctx folder name)"
    by (intro stays_dir_no_meta assms(1) assms(3)) auto
  then show "stays (same s0) b (and_then (and_then (snapshot_dir_no_meta env rec ctx folder name) of_panicking)
      (\<lambda>dir_snapshot. if sn_class dir_snapshot \<noteq> ''Folder'' then fails (InitOfNonFolder folder (sn_class dir_snapshot))
       else
         and_then (and_then (leaf p (sn_name dir_snapshot)) of_panicking) (\<lambda>init_snapshot.
         and_then (directory_read_and_apply_all env folder
           (with_metadata (\<lambda>_. sn_metadata dir_snapshot) (with_children (sn_children dir_snapshot) init_snapshot))) (\<lambda>s.
         yields (Some s)))))"
    by (intro stays_intros stays_meta [OF assms(1)] assms(2))
qed

text \<open>
  A middleware stays within the files; a directory only asks for its entries, and only a project asks
  for anything else.
\<close>

lemma stays_middleware:
  assumes "se_ops env = ops"
    and "\<And>dir q. mw_is_dir mw \<Longrightarrow> dir = p \<and> mw = DirMw \<or> path_parent p = Some dir \<and> mw \<noteq> DirMw \<Longrightarrow>
      (ok s0 \<longrightarrow> path_parent q = Some dir) \<Longrightarrow> stays (same s0) b (rec ctx q)"
    and "\<And>c q. mw = ProjectMw \<Longrightarrow> stays (same s0) b (rec c q)"
  shows "stays (same s0) b (middleware_snapshot env rec mw ctx p name)"
proof -
  have "stays (same s0) b (snapshot_dir env rec ctx p name)" if "mw = DirMw"
    unfolding snapshot_dir_def
    by (intro stays_intros stays_meta [OF assms(1)] stays_dir_no_meta [OF assms(1)] assms(2))
      (use that in \<open>auto simp: mw_is_dir_def\<close>)
  moreover have "stays (same s0) b (snapshot_lua_init env rec ctx p name ty)"
      "stays (same s0) b (snapshot_csv_init env rec ctx p name)" if "mw_is_dir mw" "mw \<noteq> DirMw" for ty
    unfolding snapshot_lua_init_def snapshot_csv_init_def
    by (intro stays_init [OF assms(1)] stays_leaf [OF assms(1)] assms(2); use that in auto)+
  moreover have "stays (same s0) b (snapshot_project env rec ctx p name)" if "mw = ProjectMw"
    using that by (intro stays_project [OF assms(1)] assms(3))
  ultimately show ?thesis
    unfolding middleware_snapshot_def
    by (intro stays_and_then stays_basic) (cases mw; simp add: mw_is_dir_def stays_leaf [OF assms(1)])
qed

lemma stays_first_init:
  assumes "se_ops env = ops"
  shows "stays (same s0) b (first_init env dir order)"
proof (induction order)
  case (Cons entry order)
  then show ?case by (cases entry) (auto intro!: stays_intros stays_io [OF assms])
qed simp

lemma existing_metadata_value:
  assumes "se_ops env = ops" and "existing_metadata env p v = (v', Done found)"
  shows "found = map_option (\<lambda>n. \<lparr>is_file = (n \<noteq> ADir)\<rparr>) (view (backend v) p)"
proof -
  obtain s' r where m: "be_metadata ops (backend v) p = (s', r)" by (cases "be_metadata ops (backend v) p")
  have "with_not_found r = Inr found" using assms m
    by (cases "with_not_found r") (auto simp: existing_metadata_def of_io_def vfs_metadata_def on_backend_def
        of_result_def map_error_def fails_def yields_def)
  then show ?thesis using metadata [of "backend v" p] m
    by (cases "view (backend v) p") (auto simp: with_not_found_def split: sum.splits if_splits)
qed

lemma first_init_value:
  assumes "se_ops env = ops" and "same s0 v" and "first_init env dir order v = (v', Done (Some (mw, p)))"
  shows "\<exists>name. (mw, name) \<in> set order \<and> p = dir @ [Normal name] \<and> view s0 p \<noteq> None"
  using assms(2,3)
proof (induction order arbitrary: v)
  case Nil
  then show ?case by (simp add: yields_def)
next
  case (Cons entry order)
  obtain mw1 name where entry: "entry = (mw1, name)" by (cases entry)
  from Cons.prems(2) obtain v1 found where f: "existing_metadata env (dir @ [Normal name]) v = (v1, Done found)"
    and rest: "(if found \<noteq> None then yields (Some (mw1, dir @ [Normal name])) else first_init env dir order) v1 =
      (v', Done (Some (mw, p)))"
    by (auto simp: entry and_then_Done)
  have v1: "same s0 v1"
    using stays_io(5) [OF assms(1), of s0 False "dir @ [Normal name]"] Cons.prems(1) f by (auto simp: stays_def)
  show ?case
  proof (cases found)
    case None
    with Cons.IH [OF v1] rest show ?thesis by (auto simp: entry)
  next
    case (Some meta)
    with rest have "mw = mw1" "p = dir @ [Normal name]" by (auto simp: yields_def)
    moreover have "view s0 (dir @ [Normal name]) \<noteq> None"
      using existing_metadata_value [OF assms(1) f] Some Cons.prems(1) by (cases "view s0 (dir @ [Normal name])")
        (simp_all add: files_as_def)
    ultimately show ?thesis by (auto simp: entry)
  qed
qed

lemma dir_middleware_value:
  assumes "se_ops env = ops" and "same s0 v" and "get_dir_middleware env dir v = (v', Done (mw, name, p))"
  shows "mw = DirMw \<or>
    (\<exists>n. (mw, n) \<in> set (map (Pair ProjectMw) DEFAULT_PROJECT_NAMES @ INIT_PATHS) \<and> p = dir @ [Normal n] \<and> view s0 p \<noteq> None)"
proof -
  from assms(3) obtain dir_name v1 found where fi: "first_init env dir (map (Pair ProjectMw) DEFAULT_PROJECT_NAMES @ INIT_PATHS) v = (v1, Done found)"
    and r: "(mw, name, p) = (case found of Some (mw, p) \<Rightarrow> (mw, dir_name, p) | None \<Rightarrow> (DirMw, dir_name, dir))"
    unfolding get_dir_middleware_def and_then_Done of_panicking_def yields_def panics_def
    by (cases "path_file_name dir") (auto intro: sym)
  show ?thesis
  proof (cases found)
    case (Some found')
    with fi r have "first_init env dir (map (Pair ProjectMw) DEFAULT_PROJECT_NAMES @ INIT_PATHS) v = (v1, Done (Some (mw, p)))"
      by (cases found') simp
    from first_init_value [OF assms(1,2) this] show ?thesis by blast
  qed (use r in auto)
qed

lemma stays_dir_middleware:
  assumes "se_ops env = ops"
  shows "stays (same s0) b (get_dir_middleware env dir)"
  unfolding get_dir_middleware_def by (intro stays_intros stays_first_init [OF assms])

text \<open>One level, from what it asks of the next: a directory its entries, a project anything.\<close>

lemma stays_level:
  assumes env: "se_ops env = ops"
    and entries: "\<And>q. view s0 p = Some ADir \<Longrightarrow> (ok s0 \<longrightarrow> path_parent q = Some p) \<Longrightarrow> stays (same s0) b (rec ctx q)"
    and project: "\<And>n c q. view s0 p = Some ADir \<Longrightarrow> n \<in> set DEFAULT_PROJECT_NAMES \<Longrightarrow> view s0 (p @ [Normal n]) \<noteq> None \<Longrightarrow>
      stays (same s0) b (rec c q)"
    and special: "\<And>rule f c q. view s0 p = Some (AFile f) \<Longrightarrow> chosen_rule env ctx p = Some rule \<Longrightarrow>
      sr_middleware rule = ProjectMw \<or> mw_is_dir (sr_middleware rule) \<Longrightarrow> stays (same s0) b (rec c q)"
  shows "stays (same s0) b (snapshot_level env rec ctx p)"
  unfolding snapshot_level_def
proof (intro stays_and_then_value [of _ _ "existing_metadata env p"] stays_io [OF env] stays_option stays_basic stays_if)
  fix v v' found meta
  assume v: "same s0 v" and "existing_metadata env p v = (v', Done found)" and "found = Some meta"
  from existing_metadata_value [OF env this(2)] this(3) v
  have "map_option (\<lambda>n. \<lparr>is_file = (n \<noteq> ADir)\<rparr>) (view s0 p) = Some meta" by (simp add: files_as_def)
  then obtain node where node: "view s0 p = Some node" "is_file meta \<longleftrightarrow> node \<noteq> ADir"
    by auto
  {
    assume "is_dir meta"
    with node have dir: "view s0 p = Some ADir" by (simp add: is_dir_def)
    show "stays (same s0) b (and_then (get_dir_middleware env p) (\<lambda>(mw, dir_name, init_path).
        middleware_snapshot env rec mw ctx (if mw = DirMw then p else init_path) dir_name))"
    proof (intro stays_and_then_value [of _ _ "get_dir_middleware env p"] stays_dir_middleware [OF env] stays_prod)
      fix v v' r mw r' dir_name init_path
      assume "same s0 v" and "get_dir_middleware env p v = (v', Done r)" and "r = (mw, r')" and "r' = (dir_name, init_path)"
      with dir_middleware_value [OF env, of s0 v p v' mw dir_name init_path]
      have mw: "mw = DirMw \<or> (\<exists>n. (mw, n) \<in> set (map (Pair ProjectMw) DEFAULT_PROJECT_NAMES @ INIT_PATHS) \<and>
          init_path = p @ [Normal n] \<and> view s0 init_path \<noteq> None)" by simp
      show "stays (same s0) b (middleware_snapshot env rec mw ctx (if mw = DirMw then p else init_path) dir_name)"
      proof (rule stays_middleware [OF env])
        fix dir q
        assume "dir = (if mw = DirMw then p else init_path) \<and> mw = DirMw \<or>
            path_parent (if mw = DirMw then p else init_path) = Some dir \<and> mw \<noteq> DirMw"
          and q: "ok s0 \<longrightarrow> path_parent q = Some dir"
        then have "dir = p" using mw by auto
        with q show "stays (same s0) b (rec ctx q)" by (intro entries dir) simp
      next
        fix c q
        assume "mw = ProjectMw"
        with mw obtain n where "n \<in> set DEFAULT_PROJECT_NAMES" "view s0 (p @ [Normal n]) \<noteq> None"
          by (auto simp: INIT_PATHS_def)
        with dir show "stays (same s0) b (rec c q)" by (intro project)
      qed
    qed
  next
    assume "\<not> is_dir meta"
    with node obtain f where content: "view s0 p = Some (AFile f)" by (cases node) (auto simp: is_dir_def)
    fix file_name
    show "stays (same s0) b (snapshot_from_path env rec ctx p)"
      unfolding snapshot_from_path_def
    proof (intro stays_option stays_and_then stays_basic)
      fix rule name
      assume rule: "chosen_rule env ctx p = Some rule"
      show "stays (same s0) b (middleware_snapshot env rec (sr_middleware rule) ctx p name)"
      proof (rule stays_middleware [OF env])
        fix dir q
        assume "mw_is_dir (sr_middleware rule)"
        then show "stays (same s0) b (rec ctx q)" by (intro special [OF content rule]) simp
      next
        fix c q
        assume "sr_middleware rule = ProjectMw"
        then show "stays (same s0) b (rec c q)" by (intro special [OF content rule]) simp
      qed
    qed
  }
qed

lemma snapshot_keeps_files: "se_ops env = ops \<Longrightarrow> stays (same s0) False (snapshot_from_vfs env n ctx p)"
proof (induction n arbitrary: ctx p)
  case 0
  then show ?case by (simp add: stays_def out_of_fuel_def)
next
  case (Suc n)
  then show ?case unfolding snapshot_from_vfs.simps by (intro stays_level) auto
qed

lemma finds_metadata:
  assumes "se_ops env = ops" and "same s0 v" and "view s0 p = Some node"
  shows "\<exists>v'. existing_metadata env p v = (v', Done (Some \<lparr>is_file = (node \<noteq> ADir)\<rparr>)) \<and> same s0 v'"
proof -
  have "snd (be_metadata ops (backend v) p) = Inr \<lparr>is_file = (node \<noteq> ADir)\<rparr>"
    using metadata [of "backend v" p] assms by (simp add: files_as_def)
  then have "snd (vfs_metadata ops v p) = Inr \<lparr>is_file = (node \<noteq> ADir)\<rparr>" by (simp add: metadata_answer)
  with same_metadata [OF assms(2), of p] show ?thesis
    by (cases "vfs_metadata ops v p")
      (auto simp: existing_metadata_def of_io_def assms(1) with_not_found_def of_result_def map_error_def yields_def)
qed

lemma reads_optional_file:
  assumes "se_ops env = ops" and "same s0 v" and "view s0 p = Some (AFile contents)"
  shows "\<exists>v'. read_optional env p v = (v', Done (Some contents)) \<and> same s0 v'"
proof -
  have "snd (be_read ops (backend v) p) = Inr contents"
    using read [of "backend v" p] assms(2,3) by (simp add: files_as_def)
  then have "snd (vfs_read ops v p) = Inr contents" by (simp add: read_answer)
  with same_read [OF assms(2), of p] show ?thesis
    by (cases "vfs_read ops v p")
      (auto simp: read_optional_def of_io_def assms(1) with_not_found_def of_result_def map_error_def yields_def)
qed

lemma loads_default_project:
  assumes "se_ops env = ops" and "same s0 v" and "view s0 p = Some (AFile contents)"
    and "project_from_slice env contents = Inr project" and "p = dir @ [Normal ''default.project.json'']"
    and "path_file_name dir = Some name"
  shows "\<exists>v' project'. load_project env p fallback v = (v', Done project') \<and> same s0 v' \<and>
    p_tree project' = p_tree project \<and> p_name project' \<noteq> None \<and> p_file_location project' = p"
proof -
  have "snd (be_read ops (backend v) p) = Inr contents"
    using read [of "backend v" p] assms(2,3) by (simp add: files_as_def)
  then obtain v' where r: "vfs_read ops v p = (v', Inr contents)" and "same s0 v'"
    using read_answer [of v p] same_read [OF assms(2), of p] by (cases "vfs_read ops v p") auto
  moreover have "path_file_name p = Some ''default.project.json''" "path_parent p = Some dir"
    by (simp_all add: assms(5) path_file_name_def path_parent_def)
  ultimately show ?thesis
    using assms(4,6)
    by (auto simp: load_project_def load_exact_def read_project_def assms(1) load_from_slice_def set_file_name_def
        folder_location_def DEFAULT_PROJECT_NAMES_def Let_def of_result_def map_error_def yields_def)
qed

text \<open>No file below the root is a project, and nothing exists deeper than \<open>L\<close> components.\<close>

lemma snapshot_settles:
  assumes env: "se_ops env = ops" and ok: "ok s0"
    and no_project: "\<And>q n. path_starts_with q base \<Longrightarrow> n \<in> set DEFAULT_PROJECT_NAMES \<Longrightarrow> view s0 (q @ [Normal n]) = None"
    and no_rule: "\<And>q f rule. path_starts_with q base \<Longrightarrow> view s0 q = Some (AFile f) \<Longrightarrow> chosen_rule env ctx q = Some rule \<Longrightarrow>
      sr_middleware rule \<noteq> ProjectMw \<and> \<not> mw_is_dir (sr_middleware rule)"
    and depth: "\<And>q. path_starts_with q base \<Longrightarrow> view s0 q \<noteq> None \<Longrightarrow> length q \<le> L"
  shows "path_starts_with q base \<Longrightarrow> 1 \<le> n \<Longrightarrow> (view s0 q \<noteq> None \<Longrightarrow> L + 2 \<le> length q + n) \<Longrightarrow>
    stays (same s0) True (snapshot_from_vfs env n ctx q)"
proof (induction n arbitrary: q)
  case (Suc n)
  show ?case unfolding snapshot_from_vfs.simps
  proof (rule stays_level [OF env])
    fix c
    assume dir: "view s0 q = Some ADir" and "ok s0 \<longrightarrow> path_parent c = Some q"
    then have c: "path_parent c = Some q" using ok by simp
    then obtain x where x: "c = q @ [x]" by (metis append_butlast_last_id path_parent_SomeD)
    have "length q \<le> L" "L + 2 \<le> length q + Suc n"
      using depth [of q] Suc.prems dir by auto
    then show "stays (same s0) True (snapshot_from_vfs env n ctx c)"
      using Suc.prems(1) x by (intro Suc.IH) (auto simp: path_starts_with_iff)
  next
    fix m c p
    assume "m \<in> set DEFAULT_PROJECT_NAMES" "view s0 (q @ [Normal m]) \<noteq> None"
    then show "stays (same s0) True (snapshot_from_vfs env n c p)"
      using no_project [OF Suc.prems(1), of m] by simp
  next
    fix rule f c p
    assume "view s0 q = Some (AFile f)" "chosen_rule env ctx q = Some rule"
      "sr_middleware rule = ProjectMw \<or> mw_is_dir (sr_middleware rule)"
    then show "stays (same s0) True (snapshot_from_vfs env n c p)"
      using no_rule [OF Suc.prems(1)] by blast
  qed
qed simp

end

end
