(* ===== verification/Middleware_Properties.thy ===== *)
theory Middleware_Properties
  imports Middleware_Laws
begin

text \<open>
  What the laws of the middleware mean for the file system in memory: taking a snapshot ends, changes
  nothing, and records how to take it again; and where the code breaks these promises.
\<close>

section \<open>More fuel\<close>

named_theorems refined_intros

lemmas [refined_intros] = refined_by_refl refined_by_and_then

lemma refined_by_cases [refined_intros]:
  "(x = None \<Longrightarrow> refined_by m m') \<Longrightarrow> (\<And>y. x = Some y \<Longrightarrow> refined_by (f y) (f' y)) \<Longrightarrow>
    refined_by (case x of None \<Rightarrow> m | Some y \<Rightarrow> f y) (case x of None \<Rightarrow> m' | Some y \<Rightarrow> f' y)"
  "(\<And>a c. z = (a, c) \<Longrightarrow> refined_by (g a c) (g' a c)) \<Longrightarrow>
    refined_by (case z of (a, c) \<Rightarrow> g a c) (case z of (a, c) \<Rightarrow> g' a c)"
  "(b \<Longrightarrow> refined_by m m') \<Longrightarrow> (\<not> b \<Longrightarrow> refined_by n n') \<Longrightarrow> refined_by (if b then m else n) (if b then m' else n')"
  by (cases x; cases z; simp)+

definition "more_settled rec rec' \<longleftrightarrow> (\<forall>ctx p. refined_by (rec ctx p) (rec' ctx p))"

lemma refined_entries:
  assumes "more_settled rec rec'"
  shows "refined_by (snapshot_entries env rec ctx listing) (snapshot_entries env rec' ctx listing)"
proof (induction listing)
  case (Cons entry listing)
  then show ?case
    using assms by (cases entry) (auto intro!: refined_intros simp: more_settled_def)
qed simp

lemma refined_dir_no_meta:
  "more_settled rec rec' \<Longrightarrow>
    refined_by (snapshot_dir_no_meta env rec ctx p name) (snapshot_dir_no_meta env rec' ctx p name)"
  unfolding snapshot_dir_no_meta_def by (intro refined_intros refined_entries)

lemma refined_dir:
  "more_settled rec rec' \<Longrightarrow> refined_by (snapshot_dir env rec ctx p name) (snapshot_dir env rec' ctx p name)"
  unfolding snapshot_dir_def by (intro refined_intros refined_dir_no_meta)

lemma refined_init:
  "more_settled rec rec' \<Longrightarrow>
    refined_by (snapshot_init env rec ctx p name leaf) (snapshot_init env rec' ctx p name leaf)"
  unfolding snapshot_init_def by (intro refined_intros refined_dir_no_meta)

lemma refined_project_node:
  assumes "more_settled rec rec'"
  shows "refined_by (snapshot_project_node env rec ctx project_path name node parent)
      (snapshot_project_node env rec' ctx project_path name node parent)"
    and "refined_by (snapshot_child_nodes env rec ctx project_path nodes parent)
      (snapshot_child_nodes env rec' ctx project_path nodes parent)"
  using assms
  by (induction env rec ctx project_path name node parent and env rec ctx project_path nodes parent
      rule: snapshot_project_node_snapshot_child_nodes.induct)
    (auto intro!: refined_intros simp: more_settled_def)

lemma refined_middleware:
  assumes "more_settled rec rec'"
  shows "refined_by (middleware_snapshot env rec mw ctx p name) (middleware_snapshot env rec' mw ctx p name)"
  unfolding middleware_snapshot_def
  by (intro refined_by_and_then refined_by_refl; cases mw;
      simp add: snapshot_lua_init_def snapshot_csv_init_def refined_dir refined_init refined_intros refined_project_node
        snapshot_project_def assms)

lemma refined_level:
  assumes "more_settled rec rec'"
  shows "refined_by (snapshot_level env rec ctx p) (snapshot_level env rec' ctx p)"
  unfolding snapshot_level_def snapshot_from_path_def by (intro refined_intros refined_middleware assms)

lemma snapshot_refined: "more_settled (snapshot_from_vfs env n) (snapshot_from_vfs env (n + k))"
proof (induction n)
  case (Suc n)
  from refined_level [OF this] show ?case by (simp add: more_settled_def)
qed (simp add: more_settled_def)


section \<open>The origin of a snapshot\<close>

text \<open>Where a snapshot says it came from.\<close>

definition origin :: "'o instance_snapshot \<Rightarrow> 'o instigating_source option \<times> instance_context" where
  "origin s = (md_instigating_source (sn_metadata s), md_context (sn_metadata s))"

lemma origin_simps [simp]:
  "origin (with_class c s) = origin s" "origin (with_property k v s) = origin s"
  "origin (push_relevant_paths ps s) = origin s" "origin (with_children cs s) = origin s"
  "origin (with_metadata (\<lambda>_. sn_metadata d) s) = origin d"
  by (simp_all add: origin_def push_relevant_paths_def)

text \<open>What every result of an action satisfies.\<close>

definition gives :: "('a \<Rightarrow> bool) \<Rightarrow> ('v, 'e, 'a) action \<Rightarrow> bool" where
  "gives Q m \<longleftrightarrow> (\<forall>v v' x. m v = (v', Done x) \<longrightarrow> Q x)"

named_theorems gives_intros

lemma givesD: "gives Q m \<Longrightarrow> m v = (v', Done x) \<Longrightarrow> Q x"
  by (simp add: gives_def)

lemma gives_basic [gives_intros]:
  "Q x \<Longrightarrow> gives Q (yields x)" "gives Q (fails e)" "gives Q panics"
  "(\<And>x. r = Inr x \<Longrightarrow> Q x) \<Longrightarrow> gives Q (of_result r)" "(\<And>x. q = Some x \<Longrightarrow> Q x) \<Longrightarrow> gives Q (of_panicking q)"
  by (auto simp: gives_def yields_def fails_def panics_def of_result_def of_panicking_def split: sum.splits option.splits)

lemma gives_and_then_value: "gives R m \<Longrightarrow> (\<And>x. R x \<Longrightarrow> gives Q (f x)) \<Longrightarrow> gives Q (and_then m f)"
  by (fastforce simp: gives_def and_then_Done)

lemma gives_and_then: "(\<And>x. gives Q (f x)) \<Longrightarrow> gives Q (and_then m f)"
  by (fastforce simp: gives_def and_then_Done)

lemma gives_cases [gives_intros]:
  "(x = None \<Longrightarrow> gives Q m) \<Longrightarrow> (\<And>y. x = Some y \<Longrightarrow> gives Q (f y)) \<Longrightarrow> gives Q (case x of None \<Rightarrow> m | Some y \<Rightarrow> f y)"
  "(l = [] \<Longrightarrow> gives Q n) \<Longrightarrow> (\<And>y ys. l = y # ys \<Longrightarrow> gives Q (g y ys)) \<Longrightarrow>
    gives Q (case l of [] \<Rightarrow> n | y # ys \<Rightarrow> g y ys)"
  "(\<And>a c. z = (a, c) \<Longrightarrow> gives Q (h a c)) \<Longrightarrow> gives Q (case z of (a, c) \<Rightarrow> h a c)"
  "(b \<Longrightarrow> gives Q i) \<Longrightarrow> (\<not> b \<Longrightarrow> gives Q j) \<Longrightarrow> gives Q (if b then i else j)"
  "(\<And>y. y = t \<Longrightarrow> gives Q (k y)) \<Longrightarrow> gives Q (Let t k)"
  by (cases x; cases l; cases z; simp)+

definition from_source :: "path \<Rightarrow> instance_context \<Rightarrow> 'o instance_snapshot option \<Rightarrow> bool" where
  "from_source p ctx found \<longleftrightarrow> (\<forall>s. found = Some s \<longrightarrow> origin s = (Some (SourcePath p), ctx))"

lemma from_source_simps [simp]:
  "from_source p ctx None" "from_source p ctx (Some s) \<longleftrightarrow> origin s = (Some (SourcePath p), ctx)"
  "from_source p ctx (map_option (with_metadata (\<lambda>md. md\<lparr>md_middleware := mw\<rparr>)) found) \<longleftrightarrow> from_source p ctx found"
  by (auto simp: from_source_def origin_def)

lemma origin_apply_values: "apply_values env m (s :: 'b instance_snapshot) = Some (Inr s') \<Longrightarrow> origin s' = origin s"
proof -
  have fold: "origin (fold (\<lambda>(key, v). with_property key v) kvs s) = origin s" for kvs and s :: "'b instance_snapshot"
    by (induction kvs arbitrary: s) auto
  assume "apply_values env m s = Some (Inr s')"
  then obtain s1 s2 where s: "apply_properties env m s = Some (Inr s1)" "apply_id m s1 = Inr s2" "apply_schema m s2 = Inr s'"
    by (auto simp: apply_values_def split: option.splits sum.splits)
  have "origin s1 = origin s"
    using s(1) by (auto simp: apply_properties_def Let_def fold split: option.splits sum.splits if_splits)
  moreover have "origin s2 = origin s1" "origin s' = origin s2"
    using s(2,3) by (auto simp: apply_id_def apply_schema_def origin_def split: if_splits)
  ultimately show ?thesis by simp
qed

lemma origin_ignore [simp]: "origin (apply_ignore_unknown_instances m s) = origin s"
  by (simp add: apply_ignore_unknown_instances_def origin_def split: option.split)

lemma origin_apply:
  "apply_adjacent env m s = Some (Inr s') \<Longrightarrow> origin s' = origin s"
  "apply_directory env d s = Some (Inr s') \<Longrightarrow> origin s' = origin s"
  by (auto simp: apply_adjacent_def apply_directory_def apply_class_name_def dest!: origin_apply_values
      split: sum.splits option.splits if_splits)

lemma gives_meta_file:
  assumes "\<And>m s s'. apply_all m s = Some (Inr s') \<Longrightarrow> origin s' = origin s"
  shows "gives (\<lambda>s'. origin s' = origin s) (apply_meta_file env p parse apply_all s)"
  unfolding apply_meta_file_def
  by (rule gives_and_then, intro gives_intros refl, rule gives_and_then, rule gives_and_then_value [where R = "\<lambda>r. apply_all _ s = Some r"])
    (auto intro!: gives_intros intro: assms)

lemma gives_read_and_apply:
  "gives (\<lambda>s'. origin s' = origin s) (adjacent_read_and_apply_all env p name s)"
  "gives (\<lambda>s'. origin s' = origin s) (directory_read_and_apply_all env p s)"
  unfolding adjacent_read_and_apply_all_def directory_read_and_apply_all_def Let_def
  by (rule gives_and_then_value [OF gives_meta_file], erule origin_apply,
      rule gives_and_then_value [OF gives_meta_file], erule origin_apply, rule gives_intros, simp)+

lemma origin_file_metadata [simp]:
  "origin (Snapshot i (file_metadata ctx p c) n cl ps cs) = (Some (SourcePath p), ctx)"
  by (simp add: origin_def file_metadata_def)

lemma from_file_snapshot: "gives (from_source p ctx) (file_snapshot env ctx p name cl ps)"
  unfolding file_snapshot_def
  by (rule gives_and_then, rule gives_and_then_value [OF gives_read_and_apply(1)]) (auto intro: gives_intros)

lemma from_module_snapshot: "gives (from_source p ctx) (module_snapshot env ctx p name code)"
  unfolding module_snapshot_def by (intro gives_and_then from_file_snapshot)

lemma from_model_tree: "gives (from_source p ctx) (snapshot_model_tree env ctx p name t)"
  unfolding snapshot_model_tree_def by (intro gives_intros gives_and_then) simp

lemma from_leaf:
  "gives (from_source p ctx) (snapshot_txt env ctx p name)" "gives (from_source p ctx) (snapshot_lua env ctx p name ty)"
  "gives (from_source p ctx) (snapshot_json env ctx p name)" "gives (from_source p ctx) (snapshot_toml env ctx p name)"
  "gives (from_source p ctx) (snapshot_yaml env ctx p name)" "gives (from_source p ctx) (snapshot_rbxm env ctx p name)"
  "gives (from_source p ctx) (snapshot_rbxmx env ctx p name)" "gives (from_source p ctx) (snapshot_json_model env ctx p name)"
  "gives (from_source p context_new) (snapshot_csv env ctx p name)"
  unfolding snapshot_txt_def snapshot_lua_def snapshot_json_def snapshot_toml_def snapshot_yaml_def snapshot_rbxm_def
    snapshot_rbxmx_def snapshot_json_model_def snapshot_csv_def
  by (intro gives_intros gives_and_then from_file_snapshot from_module_snapshot from_model_tree; simp add: origin_def)+

lemma from_dir_no_meta: "gives (from_source p ctx) (snapshot_dir_no_meta env rec ctx p name)"
  unfolding snapshot_dir_no_meta_def by (intro gives_intros gives_and_then) (simp add: origin_def)

lemma from_dir: "gives (from_source p ctx) (snapshot_dir env rec ctx p name)"
  unfolding snapshot_dir_def
  by (rule gives_and_then_value [OF from_dir_no_meta], intro gives_intros, simp,
      rule gives_and_then_value [OF gives_read_and_apply(2)]) (auto intro: gives_intros)

lemma from_init:
  "gives (\<lambda>found. \<exists>dir. from_source dir ctx found \<and> path_parent p = Some dir) (snapshot_init env rec ctx p name leaf)"
proof -
  have "gives (from_source dir ctx) (and_then (and_then (snapshot_dir_no_meta env rec ctx dir name) of_panicking) (\<lambda>dir_snapshot.
       if sn_class dir_snapshot \<noteq> ''Folder'' then fails (InitOfNonFolder dir (sn_class dir_snapshot))
       else
         and_then (and_then (leaf p (sn_name dir_snapshot)) of_panicking) (\<lambda>init_snapshot.
         and_then (directory_read_and_apply_all env dir
           (with_metadata (\<lambda>_. sn_metadata dir_snapshot) (with_children (sn_children dir_snapshot) init_snapshot))) (\<lambda>s.
         yields (Some s)))))" for dir
    by (rule gives_and_then_value [OF gives_and_then_value [OF from_dir_no_meta],
          where R = "\<lambda>s. origin s = (Some (SourcePath dir), ctx)"], rule gives_intros, simp, intro gives_intros, rule gives_and_then,
        rule gives_and_then_value [OF gives_read_and_apply(2)])
      (auto intro!: gives_intros)
  then show ?thesis
    unfolding snapshot_init_def
    by (intro gives_and_then_value [of "\<lambda>dir. path_parent p = Some dir" "of_panicking (path_parent p)"] gives_basic)
      (auto simp: gives_def)
qed

text \<open>A middleware marks its snapshot; only those for tables and projects record another origin.\<close>

lemma middleware_marks:
  "gives (\<lambda>found. \<forall>s. found = Some s \<longrightarrow> md_middleware (sn_metadata s) = Some mw) (middleware_snapshot env rec mw ctx p name)"
  unfolding middleware_snapshot_def by (intro gives_and_then gives_intros) auto

lemma from_middleware:
  assumes "mw \<noteq> ProjectMw" and "mw \<noteq> Csv"
  shows "gives (\<lambda>found. \<exists>dir. from_source dir ctx found \<and>
      (if mw_is_dir mw \<and> mw \<noteq> DirMw then path_parent p = Some dir else dir = p)) (middleware_snapshot env rec mw ctx p name)"
    (is "gives ?Q _")
proof -
  have mark: "gives ?Q (and_then m (\<lambda>output. yields (map_option (with_metadata (\<lambda>md. md\<lparr>md_middleware := Some mw\<rparr>)) output)))"
    if "gives ?Q m" for m
    by (rule gives_and_then_value [OF that], rule gives_intros) simp
  show ?thesis
    unfolding middleware_snapshot_def
  proof (rule mark)
    show "gives ?Q (case mw of
          Csv \<Rightarrow> snapshot_csv env ctx p name
        | JsonModel \<Rightarrow> snapshot_json_model env ctx p name
        | Json \<Rightarrow> snapshot_json env ctx p name
        | ServerScript \<Rightarrow> snapshot_lua env ctx p name Server
        | ClientScript \<Rightarrow> snapshot_lua env ctx p name Client
        | ModuleScript \<Rightarrow> snapshot_lua env ctx p name Module
        | PluginScript \<Rightarrow> snapshot_lua env ctx p name Plugin
        | LegacyClientScript \<Rightarrow> snapshot_lua env ctx p name LegacyClient
        | LegacyServerScript \<Rightarrow> snapshot_lua env ctx p name LegacyServer
        | RunContextClientScript \<Rightarrow> snapshot_lua env ctx p name RunContextClient
        | RunContextServerScript \<Rightarrow> snapshot_lua env ctx p name RunContextServer
        | ProjectMw \<Rightarrow> snapshot_project env rec ctx p name
        | Rbxm \<Rightarrow> snapshot_rbxm env ctx p name
        | Rbxmx \<Rightarrow> snapshot_rbxmx env ctx p name
        | Toml \<Rightarrow> snapshot_toml env ctx p name
        | Text \<Rightarrow> snapshot_txt env ctx p name
        | Yaml \<Rightarrow> snapshot_yaml env ctx p name
        | Ignore \<Rightarrow> yields None
        | DirMw \<Rightarrow> snapshot_dir env rec ctx p name
        | ServerScriptDir \<Rightarrow> snapshot_lua_init env rec ctx p name Server
        | ClientScriptDir \<Rightarrow> snapshot_lua_init env rec ctx p name Client
        | PluginScriptDir \<Rightarrow> snapshot_lua_init env rec ctx p name Plugin
        | ModuleScriptDir \<Rightarrow> snapshot_lua_init env rec ctx p name Module
        | CsvDir \<Rightarrow> snapshot_csv_init env rec ctx p name)"
      using assms
      by (cases mw) (simp_all add: mw_is_dir_def from_leaf from_dir from_init snapshot_lua_init_def snapshot_csv_init_def
          gives_basic)
  qed
qed

lemma first_init_gives:
  "gives (\<lambda>found. \<forall>mw q. found = Some (mw, q) \<longrightarrow> (\<exists>name. (mw, name) \<in> set order \<and> q = dir @ [Normal name]))
    (first_init env dir order)"
proof (induction order)
  case (Cons entry order)
  obtain mw name where entry: "entry = (mw, name)" by (cases entry)
  show ?case
    unfolding entry first_init.simps
  proof (rule gives_and_then, rule gives_cases)
    show "gives (\<lambda>found. \<forall>mw' q. found = Some (mw', q) \<longrightarrow> (\<exists>n. (mw', n) \<in> set ((mw, name) # order) \<and> q = dir @ [Normal n]))
        (first_init env dir order)"
      using Cons.IH unfolding gives_def by fastforce
  qed (rule gives_intros, simp)
qed (auto intro: gives_intros)

lemma dir_middleware_gives:
  "gives (\<lambda>(mw, name, q). mw = ProjectMw \<or> mw_is_dir mw \<and> (mw \<noteq> DirMw \<longrightarrow> path_parent q = Some dir))
    (get_dir_middleware env dir)"
  unfolding get_dir_middleware_def
  by (rule gives_and_then, rule gives_and_then_value [OF first_init_gives], rule gives_intros)
    (auto simp: INIT_PATHS_def mw_is_dir_def path_parent_def split: option.split)

text \<open>The file system only reports directories where it looked, so a file's middleware is not one of a directory.\<close>

lemma chosen_rule_of_file:
  assumes "chosen_rule env ctx p = Some rule" and "\<forall>rule \<in> set (sync_rules ctx). \<not> mw_is_dir (sr_middleware rule)"
  shows "\<not> mw_is_dir (sr_middleware rule)"
proof -
  have "\<forall>rule \<in> set default_sync_rules. \<not> mw_is_dir (sr_middleware rule)"
    by (simp add: default_sync_rules_def default_rule_def mw_is_dir_def)
  with assms show ?thesis
    by (auto simp: chosen_rule_def get_user_sync_rule_def find_Some_iff split: option.splits dest: nth_mem)
qed

definition recorded :: "path \<Rightarrow> instance_context \<Rightarrow> 'o instance_snapshot option \<Rightarrow> bool" where
  "recorded p ctx found \<longleftrightarrow>
     (\<forall>s. found = Some s \<longrightarrow> md_middleware (sn_metadata s) \<notin> {Some ProjectMw, Some Csv} \<longrightarrow>
       origin s = (Some (SourcePath p), ctx))"

lemma recorded_middleware:
  assumes "if mw_is_dir mw \<and> mw \<noteq> DirMw then path_parent q = Some p else q = p \<or> mw = ProjectMw"
  shows "gives (recorded p ctx) (middleware_snapshot env rec mw ctx q name)"
proof (cases "mw = ProjectMw \<or> mw = Csv")
  case True
  then show ?thesis using middleware_marks [of mw env rec ctx q name] by (auto simp: gives_def recorded_def)
next
  case False
  then have "gives (\<lambda>found. \<exists>dir. from_source dir ctx found \<and>
      (if mw_is_dir mw \<and> mw \<noteq> DirMw then path_parent q = Some dir else dir = q)) (middleware_snapshot env rec mw ctx q name)"
    by (intro from_middleware) auto
  then show ?thesis using assms False unfolding gives_def recorded_def
    by (fastforce simp: from_source_def split: if_splits)
qed

lemma recorded_level:
  assumes "\<forall>rule \<in> set (sync_rules ctx). \<not> mw_is_dir (sr_middleware rule)"
  shows "gives (recorded p ctx) (snapshot_level env rec ctx p)"
proof -
  have none: "gives (recorded p ctx) (yields None)" by (rule gives_intros) (simp add: recorded_def)
  have dir: "gives (recorded p ctx) (and_then (get_dir_middleware env p) (\<lambda>(mw, dir_name, init_path).
      middleware_snapshot env rec mw ctx (if mw = DirMw then p else init_path) dir_name))"
  proof (rule gives_and_then_value [OF dir_middleware_gives], unfold split_def, rule recorded_middleware)
    fix found :: "middleware \<times> string \<times> path"
    assume "fst found = ProjectMw \<or> mw_is_dir (fst found) \<and> (fst found \<noteq> DirMw \<longrightarrow> path_parent (snd (snd found)) = Some p)"
    then show "if mw_is_dir (fst found) \<and> fst found \<noteq> DirMw
        then path_parent (if fst found = DirMw then p else snd (snd found)) = Some p
        else (if fst found = DirMw then p else snd (snd found)) = p \<or> fst found = ProjectMw"
      by (auto simp: mw_is_dir_def)
  qed
  have from_file: "gives (recorded p ctx) (snapshot_from_path env rec ctx p)"
    unfolding snapshot_from_path_def
    by (intro gives_cases none gives_and_then recorded_middleware)
      (auto dest: chosen_rule_of_file [OF _ assms])
  show ?thesis
    unfolding snapshot_level_def by (intro gives_and_then gives_cases none dir from_file gives_basic)
qed


section \<open>A small project\<close>

text \<open>Globs of the form \<open>*suffix\<close>; a parser that finds the given project in every file.\<close>

definition suffix_globs :: glob_env where
  "suffix_globs = \<lparr>glob_valid = \<lambda>_. True,
     glob_match = \<lambda>pattern p. case path_file_name p of None \<Rightarrow> False | Some n \<Rightarrow> str_ends_with n (drop 1 pattern)\<rparr>"

definition small_env :: "nat project \<Rightarrow> (in_memory_fs, nat) snapshot_env" where
  "small_env project = \<lparr>se_ops = in_memory_backend, se_globs = suffix_globs, se_resolve = one_property TFloat32,
     se_run_contexts = Some [], se_is_service = \<lambda>_. False, se_jsonc = \<lambda>_. Inr (Some JNull),
     se_adjacent = \<lambda>_. Inl ''not metadata'', se_directory = \<lambda>_. Inl ''not metadata'', se_model = \<lambda>_. Inl ''not a model'',
     se_project = \<lambda>_. Inr project, se_toml = \<lambda>_. Inl ''not TOML'', se_yaml = \<lambda>_. Inl ''not YAML'', se_csv = sample_csv,
     se_rbxm = \<lambda>_. Inl ''not a model'', se_rbxmx = \<lambda>_. Inl ''not a model''\<rparr>"

definition small_files :: "(string \<times> vfs_snapshot) list \<Rightarrow> in_memory_fs vfs" where
  "small_files files = vfs_new (fst (load_snapshot im_new [RootDir, Normal ''src''] (VDir files)))"

lemma small_files_below: "children_below (entries (backend (small_files files)))"
proof -
  have "children_below (entries im_new)" by (simp add: children_below_def im_new_def)
  then show ?thesis unfolding small_files_def vfs_new_def vfs.simps by (rule load_keeps_children_below(1))
qed


section \<open>Properties\<close>

text \<open>
  C7. Taking a snapshot of a directory without project files ends, after at most two more nested calls than
  the directory is deep.  This is for the in-memory backend with a file table whose listed children are
  below their folder, and rules that choose neither the project nor a directory middleware for a file.
\<close>

theorem tree_snapshot_terminates:
  fixes v :: "in_memory_fs vfs"
  assumes "se_ops env = in_memory_backend" and "children_below (entries (backend v))"
    and "\<And>q n. path_starts_with q base \<Longrightarrow> n \<in> {''default.project.json'', ''default.project.jsonc''} \<Longrightarrow>
      im_view (backend v) (q @ [Normal n]) = None"
    and "\<And>q f rule. path_starts_with q base \<Longrightarrow> im_view (backend v) q = Some (AFile f) \<Longrightarrow> chosen_rule env ctx q = Some rule \<Longrightarrow>
      sr_middleware rule \<noteq> ProjectMw \<and> \<not> mw_is_dir (sr_middleware rule)"
    and "\<And>q. path_starts_with q base \<Longrightarrow> im_view (backend v) q \<noteq> None \<Longrightarrow> length q \<le> deepest"
    and "deepest + 2 \<le> length base + n" and "0 < n"
  shows "snd (snapshot_from_vfs env n ctx base v) \<noteq> OutOfFuel"
proof -
  have "stays (imtree.same (backend v)) True (snapshot_from_vfs env n ctx base)"
  proof (rule imtree.snapshot_settles [where base = base])
    show "im_view (backend v) (q @ [Normal m]) = None"
      if "path_starts_with q base" "m \<in> set DEFAULT_PROJECT_NAMES" for q m
      using assms(3) [of q m] that by (simp add: DEFAULT_PROJECT_NAMES_def)
  qed (use assms in \<open>auto simp: path_starts_with_def\<close>)
  then show ?thesis by (auto simp: stays_def)
qed

lemma tree_snapshot_terminates_witness:
  "snd (snapshot_from_vfs (small_env nameless_project) 3 context_new [RootDir, Normal ''src'']
     (small_files [(''a.txt'', VFile ''hello'')])) \<noteq> OutOfFuel"
proof -
  let ?v = "small_files [(''a.txt'', VFile ''hello'')]"
  have entries: "entries (backend ?v) = [([RootDir, Normal ''src''], Dir [[RootDir, Normal ''src'', Normal ''a.txt'']]),
      ([RootDir, Normal ''src'', Normal ''a.txt''], File ''hello'')]"
    by code_simp
  have view: "im_view (backend ?v) q = (if q = [RootDir, Normal ''src''] then Some ADir
      else if q = [RootDir, Normal ''src'', Normal ''a.txt''] then Some (AFile ''hello'') else None)" for q
    by (simp add: im_view_def entries)
  have rule: "chosen_rule (small_env nameless_project) context_new [RootDir, Normal ''src'', Normal ''a.txt''] =
      Some (default_rule ''*.txt'' Text None None)"
    by code_simp
  show ?thesis
  proof (rule tree_snapshot_terminates [where deepest = 3])
    show "sr_middleware rule \<noteq> ProjectMw \<and> \<not> mw_is_dir (sr_middleware rule)"
      if "im_view (backend ?v) q = Some (AFile f)" "chosen_rule (small_env nameless_project) context_new q = Some rule" for q f rule
      using that rule by (auto simp: view default_rule_def mw_is_dir_def split: if_splits)
    show "length q \<le> 3" if "im_view (backend ?v) q \<noteq> None" for q
      using that by (auto simp: view split: if_splits)
    show "im_view (backend ?v) (q @ [Normal m]) = None"
      if "m \<in> {''default.project.json'', ''default.project.jsonc''}" for q m
      using that by (auto simp: view append_eq_Cons_conv)
  qed (simp_all add: small_env_def small_files_below)
qed

text \<open>
  Fuel is only a bound: a snapshot that does not run out of it is the same, effects included, with
  any larger amount.
\<close>

theorem fuel_is_only_a_bound:
  "snd (snapshot_from_vfs env n ctx p v) = OutOfFuel \<or>
   snapshot_from_vfs env (n + k) ctx p v = snapshot_from_vfs env n ctx p v"
  using snapshot_refined [of env n k] by (auto simp: more_settled_def refined_by_def settled_def)

text \<open>
  Taking a snapshot, whatever its outcome, leaves the files as they are and repeated at once gives the
  same outcome.
\<close>

theorem snapshots_only_read:
  "let take_snapshot = snapshot_from_vfs (env\<lparr>se_ops := in_memory_backend\<rparr>) n ctx p; (v', r) = take_snapshot v
   in im_view (backend v') = im_view (backend v) \<and> snd (take_snapshot v') = r"
proof -
  let ?m = "snapshot_from_vfs (env\<lparr>se_ops := in_memory_backend\<rparr>) n ctx p"
  have stays: "stays (imtree.same (backend v)) False ?m"
    by (rule imtree.snapshot_keeps_files) simp
  have same: "imtree.same (backend v) v" by simp
  obtain v' r where m: "?m v = (v', r)" by (cases "?m v")
  have after: "imtree.same (backend v) v'" by (rule stays_keeps [OF stays same m])
  then have "snd (?m v') = snd (?m v)" by (rule stays_result [OF stays same])
  with m after show ?thesis by (simp add: files_as_def)
qed



text \<open>
  A localization table records the default context instead of its own, so when a user's rule made the
  file a table, taking the snapshot again as recorded finds nothing: after an edit the instance is gone.
\<close>

theorem edited_table_disappears:
  "let env = small_env nameless_project;
       ctx = context_new\<lparr>sync_rules := [default_rule ''*.texts'' Csv None None]\<rparr>;
       table = [RootDir, Normal ''src'', Normal ''a.texts''];
       (v', r) = snapshot_from_vfs env 1 ctx table (small_files [(''a.texts'', VFile ''key'')])
   in case r of
        Done (Some s) \<Rightarrow>
          sn_class s = ''LocalizationTable'' \<and> md_instigating_source (sn_metadata s) = Some (SourcePath table) \<and>
          snd (snapshot_from_vfs env 1 ctx table v') = r \<and>
          snd (snapshot_from_vfs env 1 (md_context (sn_metadata s)) table v') = Done None
      | _ \<Rightarrow> False"
  by code_simp

text \<open>
  C40. A default project file whose tree points at its own folder has no snapshot: the recursion never
  ends, whatever the fuel.
\<close>

theorem project_at_its_own_folder_diverges:
  assumes "se_ops env = in_memory_backend"
    and "im_view (backend v) dir = Some ADir" and "path_file_name dir = Some name"
    and "im_view (backend v) (dir @ [Normal ''default.project.json'']) = Some (AFile contents)"
    and "project_from_slice env contents = Inr project"
    and "map_option pn_path (pj_path (p_tree project)) = Some [CurDir]"
  shows "snd (snapshot_from_vfs env n ctx dir v) = OutOfFuel"
  using assms(2,4)
proof (induction n arbitrary: ctx v)
  case 0
  then show ?case by (simp add: out_of_fuel_def)
next
  case (Suc n)
  let ?file = "dir @ [Normal ''default.project.json'']"
  have v: "imtree.same (backend v) v" by simp
  obtain v1 where v1: "existing_metadata env dir v = (v1, Done (Some \<lparr>is_file = False\<rparr>))" "imtree.same (backend v) v1"
    using imtree.finds_metadata [OF assms(1) v Suc.prems(1)] by auto
  obtain v2 where v2: "existing_metadata env ?file v1 = (v2, Done (Some \<lparr>is_file = True\<rparr>))" "imtree.same (backend v) v2"
    using imtree.finds_metadata [OF assms(1) v1(2) Suc.prems(2)] by auto
  obtain v3 project' where v3: "load_project env ?file (Some name) v2 = (v3, Done project')" "imtree.same (backend v) v3"
      "p_tree project' = p_tree project" "p_name project' \<noteq> None" "p_file_location project' = ?file"
    using imtree.loads_default_project [OF assms(1) v2(2) Suc.prems(2) assms(5) refl assms(3)] by blast
  obtain project_name where named: "p_name project' = Some project_name" using v3(4) by blast
  have parent: "path_parent ?file = Some dir" by (simp add: path_parent_def)
  have mw: "get_dir_middleware env dir v1 = (v2, Done (ProjectMw, name, ?file))"
    using v2(1) assms(3) by (simp add: get_dir_middleware_def of_panicking_def DEFAULT_PROJECT_NAMES_def and_then_at yields_def)
  have "dir \<noteq> []" using assms(3) by (auto simp: path_file_name_def)
  then have itself: "path_join dir [CurDir] = dir" "\<not> is_absolute [CurDir]"
    by (simp_all add: path_join_def is_absolute_def)
  have again: "snd (snapshot_from_vfs env n c dir v3) = OutOfFuel" for c
    using Suc.prems v3(2) by (intro Suc.IH) (simp_all add: files_as_def)
  obtain cl i cs ps as ig po where "p_tree project = ProjectNode cl i cs ps as ig po"
    by (meson project_node.exhaust)
  then obtain pn where tree: "p_tree project' = ProjectNode cl i cs ps as ig (Some pn)" "pn_path pn = [CurDir]"
    using assms(6) v3(3) by auto
  have "snd (snapshot_project_node env (snapshot_from_vfs env n) c ?file project_name (p_tree project') None v3) = OutOfFuel" for c
    unfolding tree(1) by (simp add: of_panicking_def parent tree(2) itself and_then_OutOfFuel again)
  then have "snd (snapshot_project env (snapshot_from_vfs env n) ctx ?file name v2) = OutOfFuel"
    unfolding snapshot_project_def
    by (simp add: and_then_at [where m = "load_project env ?file (Some name)", OF v3(1)] named of_panicking_def folder_location_def v3(5) parent and_then_OutOfFuel)
  then have "snd (middleware_snapshot env (snapshot_from_vfs env n) ProjectMw ctx ?file name v2) = OutOfFuel"
    unfolding middleware_snapshot_def by (simp add: and_then_OutOfFuel)
  then show ?case
    by (simp add: snapshot_level_def and_then_at [where m = "existing_metadata env dir", OF v1(1)] and_then_at [where m = "get_dir_middleware env dir", OF mw] is_dir_def)
qed

definition looping_project :: "nat project" where
  "looping_project = nameless_project\<lparr>p_tree := ProjectNode None None [] [] [] None (Some (Required [CurDir]))\<rparr>"

lemma project_at_its_own_folder_diverges_witness:
  "\<forall>n. snd (snapshot_from_vfs (small_env looping_project) n context_new [RootDir, Normal ''src'']
     (small_files [(''default.project.json'', VFile ''{}'')])) = OutOfFuel"
proof
  fix n
  let ?v = "small_files [(''default.project.json'', VFile ''{}'')]"
  have view: "im_view (backend ?v) [RootDir, Normal ''src''] = Some ADir"
    "im_view (backend ?v) ([RootDir, Normal ''src''] @ [Normal ''default.project.json'']) = Some (AFile ''{}'')"
    "project_from_slice (small_env looping_project) ''{}'' = Inr looping_project"
    by code_simp+
  show "snd (snapshot_from_vfs (small_env looping_project) n context_new [RootDir, Normal ''src''] ?v) = OutOfFuel"
    by (rule project_at_its_own_folder_diverges [OF _ view(1) _ view(2,3)])
      (simp_all add: small_env_def path_file_name_def looping_project_def pn_path_def)
qed

lemma resolve_all_value:
  "resolve_all f kvs = Some (Inr vs) \<Longrightarrow>
    map fst vs = map fst kvs \<and>
    map_of vs k = Option.bind (map_of kvs k) (\<lambda>u. case f (k, u) of Some (Inr v) \<Rightarrow> Some v | _ \<Rightarrow> None)"
proof (induction kvs arbitrary: vs)
  case (Cons kv kvs)
  then obtain v rest where "f kv = Some (Inr v)" "resolve_all f kvs = Some (Inr rest)" "vs = (fst kv, v) # rest"
    by (auto split: option.splits sum.splits simp: map_sum_eq_Inr)
  with Cons.IH [of rest] show ?case by (cases kv) auto
qed simp

lemma fold_with_property:
  fixes s :: "'o instance_snapshot"
  assumes "distinct (map fst vs)"
  shows "hm_get (sn_properties (fold (\<lambda>(key, v). with_property key v) vs s)) k =
      (case map_of vs k of Some v \<Rightarrow> Some v | None \<Rightarrow> hm_get (sn_properties s) k)"
    and "sn_class (fold (\<lambda>(key, v). with_property key v) vs s) = sn_class s"
    and "sn_name (fold (\<lambda>(key, v). with_property key v) vs s) = sn_name s"
    and "sn_children (fold (\<lambda>(key, v). with_property key v) vs s) = sn_children s"
  using assms
  by (induction vs arbitrary: s) (auto split: option.split dest: map_of_SomeD simp: map_of_eq_None_iff rev_image_eqI)

lemma apply_values_result:
  assumes "apply_values env m s = Some (Inr s')" and "distinct (map fst (am_properties m))"
  shows "sn_class s' = sn_class s \<and> sn_name s' = sn_name s \<and> sn_children s' = sn_children s \<and>
    md_specified_id (sn_metadata s') = am_id m \<and> md_schema (sn_metadata s') = am_schema m \<and>
    hm_get (sn_properties s') k =
      (if k = ''Attributes'' \<and> am_attributes m \<noteq> [] then map_option VAttributes (case attribute_map (am_attributes m) of Inr as \<Rightarrow> Some as | Inl _ \<Rightarrow> None)
       else case map_of (am_properties m) k of
          Some u \<Rightarrow> (case resolve env u (sn_class s) k of Some (Inr v) \<Rightarrow> Some v | _ \<Rightarrow> None)
        | None \<Rightarrow> hm_get (sn_properties s) k)"
proof -
  obtain s1 s2 where s: "apply_properties env m s = Some (Inr s1)" "apply_id m s1 = Inr s2" "apply_schema m s2 = Inr s'"
    using assms(1) by (auto simp: apply_values_def split: option.splits sum.splits)
  have meta: "sn_class s' = sn_class s1 \<and> sn_name s' = sn_name s1 \<and> sn_children s' = sn_children s1 \<and>
      sn_properties s' = sn_properties s1 \<and> md_specified_id (sn_metadata s') = am_id m \<and> md_schema (sn_metadata s') = am_schema m"
    using s(2,3) by (auto simp: apply_id_def apply_schema_def split: if_splits)
  let ?f = "\<lambda>(key, unresolved). map_option (map_error (MetaProperty (am_path m))) (resolve env unresolved (sn_class s) key)"
  obtain vs where vs: "resolve_all ?f (am_properties m) = Some (Inr vs)"
    using s(1) by (auto simp: apply_properties_def split: option.splits sum.splits)
  note at_key = resolve_all_value [OF vs, of k]
  have distinct: "distinct (map fst vs)" using assms(2) at_key by simp
  have "map_of vs k = None \<longleftrightarrow> map_of (am_properties m) k = None"
    using at_key [THEN conjunct1] by (metis map_of_eq_None_iff set_map)
  then have "(case map_of vs k of Some v \<Rightarrow> Some v | None \<Rightarrow> hm_get (sn_properties s) k) =
      (case map_of (am_properties m) k of
          Some u \<Rightarrow> (case resolve env u (sn_class s) k of Some (Inr v) \<Rightarrow> Some v | _ \<Rightarrow> None)
        | None \<Rightarrow> hm_get (sn_properties s) k)"
    using at_key by (auto simp: map_error_def split: option.splits sum.splits)
  with s(1) vs meta show ?thesis
    by (auto simp: apply_properties_def Let_def fold_with_property [OF distinct] split: sum.splits if_splits)
qed

text \<open>
  The metadata file of a directory: the class it names replaces only a folder's, its properties are
  resolved for that class and override those of the snapshot, its attributes replace all attributes;
  name and children stay.
\<close>

theorem directory_metadata_applies:
  assumes "apply_directory env m s = Some (Inr s')" and "distinct (map fst (am_properties m))"
  shows "(dm_class_name m \<noteq> None \<longrightarrow> sn_class s = ''Folder'') \<and>
    sn_class s' = (case dm_class_name m of Some c \<Rightarrow> c | None \<Rightarrow> sn_class s) \<and>
    sn_name s' = sn_name s \<and> sn_children s' = sn_children s \<and>
    hm_get (sn_properties s') k =
      (if k = ''Attributes'' \<and> am_attributes m \<noteq> []
       then map_option VAttributes (case attribute_map (am_attributes m) of Inr as \<Rightarrow> Some as | Inl _ \<Rightarrow> None)
       else case map_of (am_properties m) k of
          Some u \<Rightarrow> (case resolve env u (sn_class s') k of Some (Inr v) \<Rightarrow> Some v | _ \<Rightarrow> None)
        | None \<Rightarrow> hm_get (sn_properties s) k)"
proof -
  have ignore: "sn_class (apply_ignore_unknown_instances m s) = sn_class s" "sn_name (apply_ignore_unknown_instances m s) = sn_name s"
      "sn_children (apply_ignore_unknown_instances m s) = sn_children s"
      "sn_properties (apply_ignore_unknown_instances m s) = sn_properties s"
    by (simp_all add: apply_ignore_unknown_instances_def split: option.split)
  obtain s1 where s1: "apply_class_name m (apply_ignore_unknown_instances m s) = Inr s1" "apply_values env m s1 = Some (Inr s')"
    using assms(1) by (auto simp: apply_directory_def split: sum.splits)
  from apply_values_result [OF s1(2) assms(2), of k] s1(1) ignore show ?thesis
    by (auto simp: apply_class_name_def split: option.splits if_splits)
qed

lemma directory_metadata_applies_witness:
  "let m = \<lparr>am_schema = None, am_id = Some ''x'', am_ignore_unknown_instances = Some True,
         am_properties = [(''P'', Ambiguous (AString ''not a number'')), (''Q'', FullyQualified (VBool True))], am_attributes = [], am_path = [],
         dm_class_name = Some ''Model''\<rparr>;
       s = Snapshot NoRef metadata_new ''a'' ''Folder'' [] [] :: nat instance_snapshot
   in (case apply_directory (one_property TFloat32) (m\<lparr>am_properties := tl (am_properties m)\<rparr>) s of
         Some (Inr s') \<Rightarrow> sn_class s' = ''Model'' \<and> hm_get (sn_properties s') ''Q'' = Some (VBool True)
       | _ \<Rightarrow> False)"
proof -
  let ?m = "\<lparr>am_schema = None, am_id = Some ''x'', am_ignore_unknown_instances = Some True,
      am_properties = [(''Q'', FullyQualified (VBool True))], am_attributes = [], am_path = [],
      dm_class_name = Some ''Model''\<rparr> :: nat directory_metadata"
  let ?s = "Snapshot NoRef metadata_new ''a'' ''Folder'' [] [] :: nat instance_snapshot"
  have "case apply_directory (one_property TFloat32) ?m ?s of Some (Inr _) \<Rightarrow> True | _ \<Rightarrow> False" by code_simp
  then obtain s' where s': "apply_directory (one_property TFloat32) ?m ?s = Some (Inr s')"
    by (auto split: option.splits sum.splits)
  have "resolve (one_property TFloat32) (FullyQualified (VBool True)) c ''Q'' = Some (Inr (VBool True))" for c
    by (simp add: resolve_def)
  then have "sn_class s' = ''Model'' \<and> hm_get (sn_properties s') ''Q'' = Some (VBool True)"
    using directory_metadata_applies [OF s', of "''Q''"] by simp
  then show ?thesis by (simp add: Let_def s')
qed

text \<open>
  Of the two metadata files a file may have, the second decides the id and the schema alone: if it
  names none, those of the first are lost.
\<close>

theorem second_meta_file_decides_the_id:
  fixes v :: "in_memory_fs vfs"
  assumes "se_ops env = in_memory_backend"
    and "im_view (backend v) (with_file_name p (name @ ''.meta.jsonc'')) = Some (AFile contents)"
    and "adjacent_from_slice env contents (with_file_name p (name @ ''.meta.json'')) = Inr m"
    and "distinct (map fst (am_properties m))"
    and "adjacent_read_and_apply_all env p name s v = (v', Done s')"
  shows "md_specified_id (sn_metadata s') = am_id m \<and> md_schema (sn_metadata s') = am_schema m"
proof -
  let ?p1 = "with_file_name p (name @ ''.meta.json'')" and ?p2 = "with_file_name p (name @ ''.meta.jsonc'')"
  let ?parse = "\<lambda>bytes. adjacent_from_slice env bytes ?p1"
  let ?apply = "apply_adjacent (se_resolve env)"
  obtain v1 s1 s2 where first: "apply_meta_file env ?p1 ?parse ?apply s v = (v1, Done s1)"
    and second: "apply_meta_file env ?p2 ?parse ?apply s1 v1 = (v', Done s2)"
    and s': "s' = push_relevant_paths [?p1, ?p2] s2"
    using assms(5) by (auto simp: adjacent_read_and_apply_all_def Let_def and_then_Done yields_def)
  have "imtree.same (backend v) v1"
    by (rule stays_keeps [OF imtree.stays_meta_file [OF assms(1)] _ first]) simp
  then obtain v2 where "read_optional env ?p2 v1 = (v2, Done (Some contents))"
    using imtree.reads_optional_file [OF assms(1) _ assms(2)] by blast
  with second assms(3) have "?apply m s1 = Some (Inr s2)"
    by (auto simp: apply_meta_file_def and_then_Done of_result_def of_panicking_def yields_def panics_def fails_def
        split: option.splits sum.splits)
  then have "apply_values (se_resolve env) m (apply_ignore_unknown_instances m s1) = Some (Inr s2)"
    by (simp add: apply_adjacent_def)
  from apply_values_result [OF this assms(4), of k] show ?thesis
    by (simp add: s' push_relevant_paths_def)
qed

lemma second_meta_file_decides_the_id_witness:
  "let md = \<lparr>am_schema = None, am_id = None, am_ignore_unknown_instances = None, am_properties = [], am_attributes = [], am_path = []\<rparr>;
       env = (small_env nameless_project)\<lparr>
         se_jsonc := \<lambda>text. Inr (Some (JString text)),
         se_adjacent := \<lambda>v. Inr (if v = JString ''first'' then md\<lparr>am_id := Some ''x''\<rparr> else md)\<rparr>;
       s = Snapshot NoRef metadata_new ''a'' ''Folder'' [] [];
       p = [RootDir, Normal ''src'', Normal ''a.txt''];
       id_of = (\<lambda>files. case snd (adjacent_read_and_apply_all env p ''a'' s (small_files files)) of
         Done s' \<Rightarrow> Some (md_specified_id (sn_metadata s')) | _ \<Rightarrow> None)
   in id_of [(''a.meta.json'', VFile ''first'')] = Some (Some ''x'') \<and>
      id_of [(''a.meta.json'', VFile ''first''), (''a.meta.jsonc'', VFile ''second'')] = Some None"
proof -
  let ?md = "\<lparr>am_schema = None, am_id = None, am_ignore_unknown_instances = None, am_properties = [], am_attributes = [], am_path = []\<rparr> :: nat adjacent_metadata"
  let ?env = "(small_env nameless_project)\<lparr>
         se_jsonc := \<lambda>text. Inr (Some (JString text)),
         se_adjacent := \<lambda>v. Inr (if v = JString ''first'' then ?md\<lparr>am_id := Some ''x''\<rparr> else ?md)\<rparr>"
  let ?p = "[RootDir, Normal ''src'', Normal ''a.txt'']"
  let ?s = "Snapshot NoRef metadata_new ''a'' ''Folder'' [] [] :: nat instance_snapshot"
  let ?v = "small_files [(''a.meta.json'', VFile ''first''), (''a.meta.jsonc'', VFile ''second'')]"
  have alone: "(case snd (adjacent_read_and_apply_all ?env ?p ''a'' ?s (small_files [(''a.meta.json'', VFile ''first'')])) of
         Done s' \<Rightarrow> Some (md_specified_id (sn_metadata s')) | _ \<Rightarrow> None) = Some (Some ''x'')"
    by code_simp
  have "case snd (adjacent_read_and_apply_all ?env ?p ''a'' ?s ?v) of Done _ \<Rightarrow> True | _ \<Rightarrow> False" by code_simp
  then obtain v' s' where both: "adjacent_read_and_apply_all ?env ?p ''a'' ?s ?v = (v', Done s')"
    by (cases "adjacent_read_and_apply_all ?env ?p ''a'' ?s ?v") (auto split: outcome.splits)
  have found: "im_view (backend ?v) (with_file_name ?p (''a'' @ ''.meta.jsonc'')) = Some (AFile ''second'')"
    and parsed: "adjacent_from_slice ?env ''second'' (with_file_name ?p (''a'' @ ''.meta.json'')) =
      Inr (?md\<lparr>am_path := with_file_name ?p (''a'' @ ''.meta.json'')\<rparr>)"
    by code_simp+
  have "md_specified_id (sn_metadata s') = None"
    using second_meta_file_decides_the_id [OF _ found parsed _ both] by (simp add: small_env_def)
  then show ?thesis unfolding Let_def both alone by simp
qed

end
