(* ===== verification/File_Names.thy ===== *)
theory File_Names
  imports Middleware_Properties
begin

text \<open>
  File names for instances, \<open>src/src/syncback/file_names.rs\<close>: from an instance and its middleware to a
  name on disk, and the rules a name must satisfy.  The theorems relate the names written by syncback
  to the names the middleware reads.
\<close>

datatype name_error =
    EndsWithSpace
  | EndsWithDot
  | ForbiddenCharacter
  | ControlCharacter
  | ReservedName string

datatype file_name_error =
    NoSource string
  | SourceNotAFile path
  | IllegalName string name_error

definition INVALID_WINDOWS_NAMES :: "string list" where
  "INVALID_WINDOWS_NAMES =
     [''CON'', ''PRN'', ''AUX'', ''NUL'', ''COM1'', ''COM2'', ''COM3'', ''COM4'', ''COM5'', ''COM6'', ''COM7'',
      ''COM8'', ''COM9'', ''LPT1'', ''LPT2'', ''LPT3'', ''LPT4'', ''LPT5'', ''LPT6'', ''LPT7'', ''LPT8'', ''LPT9'']"

definition FORBIDDEN_CHARS :: "char list" where
  "FORBIDDEN_CHARS = [CHR ''<'', CHR ''>'', CHR '':'', CHR 0x22, CHR ''/'', CHR ''|'', CHR ''?'', CHR ''*'', CHR 0x5C]"

text \<open>
  The loop over the characters: the first offender decides the error.  The control characters are
  U+0000 to U+001F, U+007F, and U+0080 to U+009F, which are two bytes, the first of them 0xC2.
\<close>

fun check_chars :: "string \<Rightarrow> name_error option" where
  "check_chars [] = None"
| "check_chars (c # cs) =
     (if c \<in> set FORBIDDEN_CHARS then Some ForbiddenCharacter
      else if byte c < 32 \<or> byte c = 127 then Some ControlCharacter
      else if byte c = 0xC2 \<and> (case cs of d # _ \<Rightarrow> in_range 0x80 0x9F d | [] \<Rightarrow> False) then Some ControlCharacter
      else check_chars cs)"

definition validate_file_name :: "string \<Rightarrow> name_error + unit" where
  "validate_file_name str =
     (if str_ends_with str '' '' then Inl EndsWithSpace
      else if str_ends_with str ''.'' then Inl EndsWithDot
      else case check_chars str of
          Some e \<Rightarrow> Inl e
        | None \<Rightarrow> if str \<in> set INVALID_WINDOWS_NAMES then Inl (ReservedName str) else Inr ())"

text \<open>The middleware that syncback cannot write panic.\<close>

definition extension_for_middleware :: "middleware \<Rightarrow> string option" where
  "extension_for_middleware mw =
     (case mw of
        Csv \<Rightarrow> Some ''csv''
      | JsonModel \<Rightarrow> Some ''model.json''
      | Json \<Rightarrow> Some ''json''
      | ServerScript \<Rightarrow> Some ''server.luau''
      | ClientScript \<Rightarrow> Some ''client.luau''
      | ModuleScript \<Rightarrow> Some ''luau''
      | PluginScript \<Rightarrow> Some ''plugin.luau''
      | ProjectMw \<Rightarrow> Some ''project.json''
      | Rbxm \<Rightarrow> Some ''rbxm''
      | Rbxmx \<Rightarrow> Some ''rbxmx''
      | Toml \<Rightarrow> Some ''toml''
      | Text \<Rightarrow> Some ''txt''
      | Yaml \<Rightarrow> Some ''yml''
      | _ \<Rightarrow> None)"

definition name_for_inst :: "middleware \<Rightarrow> 'o inst \<Rightarrow> ('o inst \<times> 'o instance_metadata) option \<Rightarrow>
    (file_name_error + string) option" where
  "name_for_inst mw new_inst old_inst =
     (case old_inst of
        Some (inst, metadata) \<Rightarrow>
          (case md_relevant_paths metadata of
             source # _ \<Rightarrow>
               Some (case path_file_name source of Some name \<Rightarrow> Inr name | None \<Rightarrow> Inl (SourceNotAFile source))
           | [] \<Rightarrow> Some (Inl (NoSource (i_name inst))))
      | None \<Rightarrow>
          (if mw_is_dir mw then Some (Inr (i_name new_inst))
           else case extension_for_middleware mw of
               None \<Rightarrow> None
             | Some extension \<Rightarrow>
                 (case validate_file_name (i_name new_inst) of
                    Inl e \<Rightarrow> Some (Inl (IllegalName (i_name new_inst) e))
                  | Inr _ \<Rightarrow> Some (Inr (i_name new_inst @ ''.'' @ extension)))))"


section \<open>Names as globs see them\<close>

text \<open>What is relied on of the globs of the default rules: each of them matches by the end of the file name.\<close>

definition glob_suffixes :: "string \<Rightarrow> string list" where
  "glob_suffixes pattern =
     (if pattern = ''*.{lua,luau}'' then [''.lua'', ''.luau'']
      else if pattern = ''*.{yml,yaml}'' then [''.yml'', ''.yaml'']
      else [tl pattern])"

definition matches_suffix :: "string \<Rightarrow> string \<Rightarrow> bool" where
  "matches_suffix pattern name \<longleftrightarrow> (\<exists>suffix \<in> set (glob_suffixes pattern). str_ends_with name suffix)"

definition default_globs :: "glob_env \<Rightarrow> bool" where
  "default_globs g \<longleftrightarrow>
     (\<forall>rule \<in> set default_sync_rules. \<forall>pattern \<in> set (sr_include rule # (case sr_exclude rule of Some e \<Rightarrow> [e] | None \<Rightarrow> [])).
        \<forall>p name. path_file_name p = Some name \<longrightarrow> glob_match g pattern p = matches_suffix pattern name)"

definition rule_matches_name :: "sync_rule \<Rightarrow> string \<Rightarrow> bool" where
  "rule_matches_name rule name \<longleftrightarrow>
     matches_suffix (sr_include rule) name \<and> (case sr_exclude rule of Some e \<Rightarrow> \<not> matches_suffix e name | None \<Rightarrow> True)"

lemma default_base: "rule \<in> set default_sync_rules \<Longrightarrow> sr_base_path rule = []"
  by (auto simp: default_sync_rules_def default_rule_def)

lemma default_rule_by_name:
  assumes "default_globs g" and "path_file_name p = Some name"
  shows "List.find (\<lambda>rule. sr_matches g rule p) default_sync_rules =
    List.find (\<lambda>rule. rule_matches_name rule name) default_sync_rules"
proof (rule find_cong [OF refl])
  fix rule
  assume rule: "rule \<in> set default_sync_rules"
  have "path_strip_prefix p [] = Some p" by (simp add: path_strip_prefix_def path_starts_with_def)
  then show "sr_matches g rule p \<longleftrightarrow> rule_matches_name rule name"
    using assms rule
    by (auto simp: sr_matches_def default_base [OF rule] rule_matches_name_def default_globs_def split: option.splits)
qed

lemma ends_with_dotless:
  assumes "CHR ''.'' \<notin> set name"
  shows "str_ends_with (name @ CHR ''.'' # ext) (CHR ''.'' # suffix) \<longleftrightarrow> str_ends_with (CHR ''.'' # ext) (CHR ''.'' # suffix)"
proof (cases "length suffix \<le> length ext")
  case True
  then show ?thesis by (simp add: str_ends_with_def)
next
  case False
  have "\<not> str_ends_with (name @ CHR ''.'' # ext) (CHR ''.'' # suffix)"
  proof
    assume "str_ends_with (name @ CHR ''.'' # ext) (CHR ''.'' # suffix)"
    then obtain pre where pre: "name @ CHR ''.'' # ext = pre @ CHR ''.'' # suffix"
      unfolding str_ends_with_def by (metis append_take_drop_id)
    then have "length pre < length name" using False by (auto dest: arg_cong [of _ _ length])
    with pre have "CHR ''.'' \<in> set name"
      by (metis append_eq_append_conv_if in_set_conv_nth less_imp_le_nat list.sel(1) nth_append nth_append_length)
    with assms show False by simp
  qed
  with False show ?thesis by (simp add: str_ends_with_def)
qed

text \<open>The name of a file without dots before its extension selects the rule of that extension.\<close>

lemma matches_suffix_dotless:
  assumes "CHR ''.'' \<notin> set name" and "\<forall>s \<in> set (glob_suffixes pattern). \<exists>r. s = CHR ''.'' # r"
  shows "matches_suffix pattern (name @ CHR ''.'' # ext) \<longleftrightarrow> matches_suffix pattern (CHR ''.'' # ext)"
  using assms by (force simp: matches_suffix_def ends_with_dotless)

lemma default_suffixes:
  assumes "rule \<in> set default_sync_rules" and "pattern = sr_include rule \<or> sr_exclude rule = Some pattern"
    and "s \<in> set (glob_suffixes pattern)"
  shows "\<exists>r. s = CHR ''.'' # r"
proof -
  have "list_all (\<lambda>rule. \<forall>pattern \<in> set (sr_include rule # (case sr_exclude rule of Some e \<Rightarrow> [e] | None \<Rightarrow> [])).
      \<forall>s \<in> set (glob_suffixes pattern). s \<noteq> [] \<and> hd s = CHR ''.'') default_sync_rules"
    by code_simp
  then have "\<forall>pattern \<in> set (sr_include rule # (case sr_exclude rule of Some e \<Rightarrow> [e] | None \<Rightarrow> [])).
      \<forall>s \<in> set (glob_suffixes pattern). s \<noteq> [] \<and> hd s = CHR ''.''"
    using assms(1) unfolding list_all_iff by blast
  with assms(2,3) have "s \<noteq> [] \<and> hd s = CHR ''.''" by (cases "sr_exclude rule") auto
  then show ?thesis by (metis list.collapse)
qed

lemma default_rule_dotless:
  assumes "CHR ''.'' \<notin> set name"
  shows "List.find (\<lambda>rule. rule_matches_name rule (name @ CHR ''.'' # ext)) default_sync_rules =
    List.find (\<lambda>rule. rule_matches_name rule (CHR ''.'' # ext)) default_sync_rules"
proof (rule find_cong [OF refl])
  fix rule
  assume "rule \<in> set default_sync_rules"
  then show "rule_matches_name rule (name @ CHR ''.'' # ext) \<longleftrightarrow> rule_matches_name rule (CHR ''.'' # ext)"
    using matches_suffix_dotless [OF assms, of "sr_include rule" ext] default_suffixes [of rule "sr_include rule"]
      matches_suffix_dotless [OF assms, of "the (sr_exclude rule)" ext] default_suffixes [of rule "the (sr_exclude rule)"]
    unfolding rule_matches_name_def by (cases "sr_exclude rule") simp_all
qed

definition rule_of_extension :: "string \<Rightarrow> sync_rule option" where
  "rule_of_extension ext = List.find (\<lambda>rule. rule_matches_name rule (CHR ''.'' # ext)) default_sync_rules"

text \<open>The rule of each extension, and the suffix it takes off a name.\<close>

lemma rules_of_extensions:
  "rule_of_extension ''csv'' = Some (default_rule ''*.csv'' Csv None None)"
  "rule_of_extension ''model.json'' = Some (default_rule ''*.model.json'' JsonModel (Some ''.model.json'') None)"
  "rule_of_extension ''json'' = Some (default_rule ''*.json'' Json (Some ''.json'') (Some ''*.meta.json''))"
  "rule_of_extension ''server.luau'' = Some (default_rule ''*.server.luau'' ServerScript (Some ''.server.luau'') None)"
  "rule_of_extension ''client.luau'' = Some (default_rule ''*.client.luau'' ClientScript (Some ''.client.luau'') None)"
  "rule_of_extension ''plugin.luau'' = Some (default_rule ''*.plugin.luau'' PluginScript (Some ''.plugin.luau'') None)"
  "rule_of_extension ''luau'' = Some (default_rule ''*.{lua,luau}'' ModuleScript None None)"
  "rule_of_extension ''project.json'' = Some (default_rule ''*.project.json'' ProjectMw (Some ''.project.json'') None)"
  "rule_of_extension ''rbxm'' = Some (default_rule ''*.rbxm'' Rbxm None None)"
  "rule_of_extension ''rbxmx'' = Some (default_rule ''*.rbxmx'' Rbxmx None None)"
  "rule_of_extension ''toml'' = Some (default_rule ''*.toml'' Toml None None)"
  "rule_of_extension ''txt'' = Some (default_rule ''*.txt'' Text None None)"
  "rule_of_extension ''yml'' = Some (default_rule ''*.{yml,yaml}'' Yaml None None)"
  by code_simp+

lemma extension_rules:
  assumes "extension_for_middleware mw = Some ext"
  shows "\<exists>rule. rule_of_extension ext = Some rule \<and> sr_middleware rule = mw \<and>
    (sr_suffix rule = Some (CHR ''.'' # ext) \<or> sr_suffix rule = None \<and> CHR ''.'' \<notin> set ext)"
  using assms by (cases mw) (auto simp: extension_for_middleware_def rules_of_extensions default_rule_def)

lemma stem_of_dotless:
  assumes "CHR ''.'' \<notin> set name" and "name \<noteq> []" and "CHR ''.'' \<notin> set ext"
  shows "split_at_last_dot (name @ CHR ''.'' # ext) = (Some name, Some ext)"
proof -
  have "takeWhile (\<lambda>c. c \<noteq> CHR ''.'') (rev ext @ CHR ''.'' # rev name) = rev ext"
    using assms(3) by (subst takeWhile_append2) auto
  moreover have "dropWhile (\<lambda>c. c \<noteq> CHR ''.'') (rev ext @ CHR ''.'' # rev name) = CHR ''.'' # rev name"
    using assms(3) by (subst dropWhile_append2) auto
  ultimately show ?thesis using assms(2) by (simp add: split_at_last_dot_def Let_def)
qed

lemma init_files_have_dotless_stems:
  assumes "is_init_file (name @ CHR ''.'' # ext)" and "CHR ''.'' \<notin> set name"
  shows "name = ''init''"
proof -
  have "takeWhile (\<lambda>c. c \<noteq> CHR ''.'') (name @ CHR ''.'' # ext) = name"
    using assms(2) by (subst takeWhile_append2) auto
  moreover have "takeWhile (\<lambda>c. c \<noteq> CHR ''.'') (name @ CHR ''.'' # ext) = ''init''"
    using assms(1) by (auto simp: is_init_file_def)
  ultimately show ?thesis by simp
qed

lemma rule_of_dotless:
  assumes "default_globs (se_globs env)" and "sync_rules ctx = []" and "CHR ''.'' \<notin> set name"
  shows "chosen_rule env ctx (dir @ [Normal (name @ CHR ''.'' # ext)]) = rule_of_extension ext"
  using default_rule_by_name [OF assms(1), of "dir @ [Normal (name @ CHR ''.'' # ext)]" "name @ CHR ''.'' # ext"]
    default_rule_dotless [OF assms(3)]
  by (simp add: chosen_rule_def get_user_sync_rule_def assms(2) rule_of_extension_def path_file_name_def)

lemma suffix_taken_off:
  "str_ends_with (name @ suffix) suffix" "take (length (name @ suffix) - length suffix) (name @ suffix) = name"
  by (simp_all add: str_ends_with_def)


section \<open>Properties\<close>

text \<open>
  A file that syncback names for a new instance is read back, under the default rules, by the
  middleware it was written for and under the instance's name, provided that the name has no dot and
  is not \<open>init\<close>.
\<close>

theorem written_names_read_back:
  assumes "default_globs (se_globs env)" and "sync_rules ctx = []" and "\<not> mw_is_dir mw"
    and "name_for_inst mw (inst :: 'o inst) None = Some (Inr file_name)"
    and "i_name inst \<noteq> []" and "i_name inst \<noteq> ''init''" and "CHR ''.'' \<notin> set (i_name inst)"
  shows "\<not> is_init_file file_name \<and>
    (\<exists>rule. chosen_rule env ctx (dir @ [Normal file_name]) = Some rule \<and> sr_middleware rule = mw \<and>
      file_name_for_path rule (dir @ [Normal file_name]) = Inr (i_name inst))"
proof -
  obtain ext where ext: "extension_for_middleware mw = Some ext" and file_name: "file_name = i_name inst @ CHR ''.'' # ext"
    using assms(3,4) by (auto simp: name_for_inst_def split: option.splits sum.splits)
  obtain rule where rule: "rule_of_extension ext = Some rule" "sr_middleware rule = mw"
      "sr_suffix rule = Some (CHR ''.'' # ext) \<or> sr_suffix rule = None \<and> CHR ''.'' \<notin> set ext"
    using extension_rules [OF ext] by blast
  have "file_name_for_path rule (dir @ [Normal file_name]) = Inr (i_name inst)"
    using rule(3)
  proof
    assume "sr_suffix rule = Some (CHR ''.'' # ext)"
    then show ?thesis
      using suffix_taken_off [of "i_name inst" "CHR ''.'' # ext"]
      by (simp add: file_name_for_path_def path_file_name_def file_name)
  next
    assume "sr_suffix rule = None \<and> CHR ''.'' \<notin> set ext"
    then show ?thesis
      using stem_of_dotless [OF assms(7,5)]
      by (simp add: file_name_for_path_def path_file_name_def path_file_stem_def file_name)
  qed
  then show ?thesis
    using rule(1,2) rule_of_dotless [OF assms(1,2,7), of dir ext] assms(6,7) init_files_have_dotless_stems
    by (auto simp: file_name)
qed

definition named_instance :: "string \<Rightarrow> nat inst" where
  "named_instance name = \<lparr>i_referent = Ref 1, i_parent = NoRef, i_name = name, i_class = ''ModuleScript'',
     i_properties = [], i_children = []\<rparr>"

definition default_glob_env :: glob_env where
  "default_glob_env = \<lparr>glob_valid = \<lambda>_. True,
     glob_match = \<lambda>pattern p. case path_file_name p of Some name \<Rightarrow> matches_suffix pattern name | None \<Rightarrow> False\<rparr>"

lemma default_globs_exist: "default_globs default_glob_env"
  by (simp add: default_globs_def default_glob_env_def)

lemma written_names_read_back_witness:
  "\<exists>rule. chosen_rule ((small_env nameless_project)\<lparr>se_globs := default_glob_env\<rparr>) context_new [RootDir, Normal ''a.model.json''] = Some rule \<and>
     sr_middleware rule = JsonModel"
proof -
  have "name_for_inst JsonModel (named_instance ''a'') None = Some (Inr ''a.model.json'')" by code_simp
  from written_names_read_back [where dir = "[RootDir]" and env = "(small_env nameless_project)\<lparr>se_globs := default_glob_env\<rparr>"
      and ctx = context_new, OF _ _ _ this]
  show ?thesis by (auto simp: default_globs_exist context_new_def mw_is_dir_def named_instance_def)
qed

lemma check_chars_append:
  assumes "check_chars x = None" and "check_chars y = None" and "\<And>c cs. y = c # cs \<Longrightarrow> byte c < 128"
  shows "check_chars (x @ y) = None"
  using assms
  by (induction x rule: check_chars.induct) (auto simp: in_range_def split: if_splits list.splits)

text \<open>
  A dot in the name breaks this: a module script named \<open>x.server\<close> is written to a file that is read
  as a server script named \<open>x\<close>.
\<close>

theorem dotted_names_change_the_class:
  assumes "default_globs (se_globs env)" and "sync_rules ctx = []"
    and "check_chars x = None" and "CHR ''.'' \<notin> set x" and "i_name inst = x @ ''.server''"
  shows "name_for_inst ModuleScript (inst :: 'o inst) None = Some (Inr (x @ ''.server.luau'')) \<and>
    (\<exists>rule. chosen_rule env ctx (dir @ [Normal (x @ ''.server.luau'')]) = Some rule \<and> sr_middleware rule = ServerScript \<and>
      file_name_for_path rule (dir @ [Normal (x @ ''.server.luau'')]) = Inr x)"
proof -
  have dot: "CHR ''.'' \<in> set (x @ ''.server'')" by simp
  have "check_chars (x @ ''.server'') = None"
  proof (rule check_chars_append [OF assms(3)])
    show "check_chars ''.server'' = None" by code_simp
    show "byte c < 128" if "''.server'' = c # cs" for c cs using that by (auto simp: byte_def)
  qed
  moreover have "\<not> str_ends_with (x @ ''.server'') [c]" if "c \<noteq> CHR ''r''" for c
    using that by (simp add: str_ends_with_def)
  moreover have "x @ ''.server'' \<notin> set INVALID_WINDOWS_NAMES"
  proof
    assume "x @ ''.server'' \<in> set INVALID_WINDOWS_NAMES"
    with dot have "\<exists>n \<in> set INVALID_WINDOWS_NAMES. CHR ''.'' \<in> set n" by blast
    then show False by (simp add: INVALID_WINDOWS_NAMES_def)
  qed
  ultimately have "validate_file_name (x @ ''.server'') = Inr ()" by (simp add: validate_file_name_def)
  then have "name_for_inst ModuleScript inst None = Some (Inr (x @ ''.server.luau''))"
    by (simp add: name_for_inst_def extension_for_middleware_def mw_is_dir_def assms(5))
  moreover have "chosen_rule env ctx (dir @ [Normal (x @ ''.server.luau'')]) =
      Some (default_rule ''*.server.luau'' ServerScript (Some ''.server.luau'') None)"
    using rule_of_dotless [OF assms(1,2,4), of dir "''server.luau''"] by (simp add: rules_of_extensions)
  ultimately show ?thesis
    using suffix_taken_off [of x "''.server.luau''"]
    by (simp add: file_name_for_path_def path_file_name_def default_rule_def)
qed

lemma dotted_names_change_the_class_witness:
  "name_for_inst ModuleScript (named_instance ''a.server'') None = Some (Inr ''a.server.luau'') \<and>
   (\<exists>rule. chosen_rule ((small_env nameless_project)\<lparr>se_globs := default_glob_env\<rparr>) context_new
      ([RootDir] @ [Normal ''a.server.luau'']) = Some rule \<and> sr_middleware rule = ServerScript)"
  using dotted_names_change_the_class [of "(small_env nameless_project)\<lparr>se_globs := default_glob_env\<rparr>" context_new "''a''"
      "named_instance ''a.server''" "[RootDir]"]
  by (auto simp: default_globs_exist context_new_def named_instance_def FORBIDDEN_CHARS_def byte_def)

end
