(* ===== verification/Fs_Snapshot.thy ===== *)
theory Fs_Snapshot
  imports Middleware_Laws
begin

text \<open>
  A set of changes to the file system, \<open>src/src/syncback/fs_snapshot.rs\<close>, collected first and written
  to the virtual file system at the end.  The sets of paths are lists without repetition, in the
  order the hash set iterates.
\<close>

record fs_snapshot =
  fs_added_files :: "(path, string) hash_map"
  fs_added_dirs :: "path list"
  fs_removed_files :: "path list"
  fs_removed_dirs :: "path list"

definition fs_snapshot_new :: fs_snapshot where
  "fs_snapshot_new = \<lparr>fs_added_files = [], fs_added_dirs = [], fs_removed_files = [], fs_removed_dirs = []\<rparr>"

text \<open>\<open>HashSet::insert\<close> and \<open>extend\<close>.\<close>

definition set_insert :: "'a \<Rightarrow> 'a list \<Rightarrow> 'a list" where
  "set_insert x xs = (if x \<in> set xs then xs else x # xs)"

definition set_extend :: "'a list \<Rightarrow> 'a list \<Rightarrow> 'a list" where
  "set_extend xs ys = fold set_insert ys xs"

definition fs_add_file :: "path \<Rightarrow> string \<Rightarrow> fs_snapshot \<Rightarrow> fs_snapshot" where
  "fs_add_file p contents s = s\<lparr>fs_added_files := hm_insert p contents (fs_added_files s)\<rparr>"

definition fs_add_dir :: "path \<Rightarrow> fs_snapshot \<Rightarrow> fs_snapshot" where
  "fs_add_dir p s = s\<lparr>fs_added_dirs := set_insert p (fs_added_dirs s)\<rparr>"

definition fs_remove_file :: "path \<Rightarrow> fs_snapshot \<Rightarrow> fs_snapshot" where
  "fs_remove_file p s = s\<lparr>fs_removed_files := set_insert p (fs_removed_files s)\<rparr>"

definition fs_remove_dir :: "path \<Rightarrow> fs_snapshot \<Rightarrow> fs_snapshot" where
  "fs_remove_dir p s = s\<lparr>fs_removed_dirs := set_insert p (fs_removed_dirs s)\<rparr>"

definition fs_merge :: "fs_snapshot \<Rightarrow> fs_snapshot \<Rightarrow> fs_snapshot" where
  "fs_merge s s' = \<lparr>
     fs_added_files = hm_extend (fs_added_files s) (fs_added_files s'),
     fs_added_dirs = set_extend (fs_added_dirs s) (fs_added_dirs s'),
     fs_removed_files = set_extend (fs_removed_files s) (fs_removed_files s'),
     fs_removed_dirs = set_extend (fs_removed_dirs s) (fs_removed_dirs s')\<rparr>"

definition fs_merge_with_filter :: "(path \<Rightarrow> bool) \<Rightarrow> fs_snapshot \<Rightarrow> fs_snapshot \<Rightarrow> fs_snapshot" where
  "fs_merge_with_filter keep s s' = \<lparr>
     fs_added_files = hm_extend (fs_added_files s) (filter (\<lambda>(p, _). keep p) (fs_added_files s')),
     fs_added_dirs = set_extend (fs_added_dirs s) (filter keep (fs_added_dirs s')),
     fs_removed_files = set_extend (fs_removed_files s) (filter keep (fs_removed_files s')),
     fs_removed_dirs = set_extend (fs_removed_dirs s) (filter keep (fs_removed_dirs s'))\<rparr>"

definition fs_is_empty :: "fs_snapshot \<Rightarrow> bool" where
  "fs_is_empty s \<longleftrightarrow> fs_added_files s = [] \<and> fs_added_dirs s = [] \<and> fs_removed_files s = [] \<and> fs_removed_dirs s = []"

text \<open>The listings, sorted.\<close>

definition added_file_paths :: "fs_snapshot \<Rightarrow> path list" where
  "added_file_paths s = sort (hm_keys (fs_added_files s))"

definition added_dir_paths :: "fs_snapshot \<Rightarrow> path list" where
  "added_dir_paths s = sort (fs_added_dirs s)"

definition removed_file_paths :: "fs_snapshot \<Rightarrow> path list" where
  "removed_file_paths s = sort (fs_removed_files s)"

definition removed_dir_paths :: "fs_snapshot \<Rightarrow> path list" where
  "removed_dir_paths s = sort (fs_removed_dirs s)"

definition added_paths :: "fs_snapshot \<Rightarrow> path list" where
  "added_paths s = added_file_paths s @ added_dir_paths s"

definition removed_paths :: "fs_snapshot \<Rightarrow> path list" where
  "removed_paths s = removed_file_paths s @ removed_dir_paths s"


section \<open>Writing\<close>

text \<open>A loop over operations that stops at the first error.\<close>

fun run_all :: "('x \<Rightarrow> 'v \<Rightarrow> 'v \<times> unit io_result) \<Rightarrow> 'x list \<Rightarrow> 'v \<Rightarrow> 'v \<times> unit io_result" where
  "run_all f [] v = (v, Inr ())"
| "run_all f (x # xs) v =
     (case f x v of
        (v', Inl e) \<Rightarrow> (v', Inl e)
      | (v', Inr _) \<Rightarrow> run_all f xs v')"

definition or_already_exists :: "'v \<times> unit io_result \<Rightarrow> 'v \<times> unit io_result" where
  "or_already_exists vr =
     (case vr of
        (v, Inl e) \<Rightarrow> (v, if ie_kind e = AlreadyExists then Inr () else Inl e)
      | (v, Inr u) \<Rightarrow> (v, Inr u))"

definition write_to_vfs :: "'s backend_ops \<Rightarrow> fs_snapshot \<Rightarrow> path \<Rightarrow> 's vfs \<Rightarrow> 's vfs \<times> unit io_result" where
  "write_to_vfs ops s base v =
     (case run_all (\<lambda>p v. or_already_exists (vfs_create_dir_all ops v (path_join base p))) (fs_added_dirs s) v of
        (v1, Inl e) \<Rightarrow> (v1, Inl e)
      | (v1, Inr _) \<Rightarrow>
          (case run_all (\<lambda>(p, contents) v. vfs_write ops v (path_join base p) contents) (fs_added_files s) v1 of
             (v2, Inl e) \<Rightarrow> (v2, Inl e)
           | (v2, Inr _) \<Rightarrow>
               (case run_all (\<lambda>p v. vfs_remove_dir_all ops v (path_join base p)) (fs_removed_dirs s) v2 of
                  (v3, Inl e) \<Rightarrow> (v3, Inl e)
                | (v3, Inr _) \<Rightarrow> run_all (\<lambda>p v. vfs_remove_file ops v (path_join base p)) (fs_removed_files s) v3)))"


section \<open>What is written can be read\<close>

text \<open>
  The laws needed of a backend that is written to, beside those of \<open>vfs_backend\<close>: creating a directory
  touches nothing but its ancestors, removing one takes it away and touches nothing outside.
\<close>

locale write_backend = vfs_backend ops view
  for ops :: "'s backend_ops" and view :: "'s \<Rightarrow> path \<Rightarrow> node option" +
  fixes ok :: "'s \<Rightarrow> bool"
  assumes created: "\<And>s p s' r. ok s \<Longrightarrow> be_create_dir_all ops s p = (s', r) \<Longrightarrow>
      ok s' \<and> (r = Inr () \<longrightarrow> (\<forall>q. \<not> path_starts_with p q \<longrightarrow> view s' q = view s q)) \<and>
      (\<forall>e. r = Inl e \<longrightarrow> ie_kind e = AlreadyExists \<longrightarrow> view s' = view s)"
    and dir_removed: "\<And>s p s'. ok s \<Longrightarrow> be_remove_dir_all ops s p = (s', Inr ()) \<Longrightarrow>
      ok s' \<and> view s' p = None \<and> (\<forall>q. \<not> path_starts_with q p \<longrightarrow> view s' q = view s q)"
    and write_ok: "\<And>s p c. ok s \<Longrightarrow> ok (fst (be_write ops s p c))"
    and remove_ok: "\<And>s p. ok s \<Longrightarrow> ok (fst (be_remove_file ops s p))"
    and unwatch_ok: "\<And>s p. ok s \<Longrightarrow> ok (fst (be_unwatch ops s p))"
begin

lemma unwatch_state:
  "view (backend (vfs_unwatch ops v p)) = view (backend v)" "ok (backend v) \<Longrightarrow> ok (backend (vfs_unwatch ops v p))"
  using unwatch [of "backend v" p] unwatch_ok [of "backend v" p]
  by (auto simp: vfs_unwatch_def on_backend_def split: prod.split)

text \<open>The four loops, each by induction over what it works off.\<close>

lemma create_dirs:
  assumes "run_all (\<lambda>p v. or_already_exists (vfs_create_dir_all ops v (path_join base p))) ds v = (v', Inr ())"
    and "ok (backend v)"
  shows "ok (backend v') \<and> (\<forall>q. (\<forall>d \<in> set ds. \<not> path_starts_with (path_join base d) q) \<longrightarrow>
    view (backend v') q = view (backend v) q)"
  using assms
proof (induction ds arbitrary: v)
  case (Cons d ds)
  obtain s r where s: "be_create_dir_all ops (backend v) (path_join base d) = (s, r)" by fastforce
  let ?v = "v\<lparr>backend := s\<rparr>"
  have vfs: "vfs_create_dir_all ops v (path_join base d) = (?v, r)"
    by (simp add: vfs_create_dir_all_def on_backend_def s)
  have r: "r = Inr () \<or> (\<exists>e. r = Inl e \<and> ie_kind e = AlreadyExists)"
    and rest: "run_all (\<lambda>p v. or_already_exists (vfs_create_dir_all ops v (path_join base p))) ds ?v = (v', Inr ())"
    using Cons.prems(1) vfs by (auto simp: or_already_exists_def split: sum.splits if_splits)
  note law = created [OF Cons.prems(2) s]
  have "view s q = view (backend v) q" if "\<not> path_starts_with (path_join base d) q" for q
    using law r that by auto
  with law Cons.IH [OF rest] show ?case by auto
qed simp

lemma write_files:
  assumes "run_all (\<lambda>(p, contents) v. vfs_write ops v (path_join base p) contents) fs v = (v', Inr ())"
    and "ok (backend v)" and "distinct (map (\<lambda>(p, _). path_join base p) fs)"
  shows "ok (backend v') \<and> (\<forall>(p, contents) \<in> set fs. view (backend v') (path_join base p) = Some (AFile contents)) \<and>
    (\<forall>q. q \<notin> (\<lambda>(p, _). path_join base p) ` set fs \<longrightarrow> view (backend v') q = view (backend v) q)"
  using assms
proof (induction fs arbitrary: v)
  case (Cons pc fs)
  obtain p c where pc: "pc = (p, c)" by fastforce
  obtain v1 where v1: "vfs_write ops v (path_join base p) c = (v1, Inr ())"
    and rest: "run_all (\<lambda>(p, contents) v. vfs_write ops v (path_join base p) contents) fs v1 = (v', Inr ())"
    using Cons.prems(1) pc by (auto split: prod.splits sum.splits)
  have "ok (backend v1)"
    using v1 write_ok [OF Cons.prems(2), of "path_join base p" c] by (auto simp: vfs_write_def on_backend_def split: prod.splits)
  with Cons.IH [OF rest] Cons.prems(3) write_view [OF v1] show ?case by (auto simp: pc)
qed simp

lemma remove_dirs:
  assumes "run_all (\<lambda>p v. vfs_remove_dir_all ops v (path_join base p)) ds v = (v', Inr ())" and "ok (backend v)"
  shows "ok (backend v') \<and> (\<forall>q. (\<forall>d \<in> set ds. \<not> path_starts_with q (path_join base d)) \<longrightarrow>
    view (backend v') q = view (backend v) q)"
  using assms
proof (induction ds arbitrary: v)
  case (Cons d ds)
  obtain v1 where v1: "vfs_remove_dir_all ops v (path_join base d) = (v1, Inr ())"
    and rest: "run_all (\<lambda>p v. vfs_remove_dir_all ops v (path_join base p)) ds v1 = (v', Inr ())"
    using Cons.prems(1) by (auto split: prod.splits sum.splits)
  have "be_remove_dir_all ops (backend (vfs_unwatch ops v (path_join base d))) (path_join base d) = (backend v1, Inr ())"
    using v1 by (auto simp: vfs_remove_dir_all_def on_backend_def split: prod.splits)
  from dir_removed [OF unwatch_state(2) [OF Cons.prems(2)] this] Cons.IH [OF rest] show ?case
    by (auto simp: unwatch_state(1))
qed simp

lemma remove_files:
  assumes "run_all (\<lambda>p v. vfs_remove_file ops v (path_join base p)) fs v = (v', Inr ())"
  shows "(\<forall>q. view (backend v') q = (if q \<in> path_join base ` set fs then None else view (backend v) q))"
  using assms
proof (induction fs arbitrary: v)
  case (Cons p fs)
  obtain v1 where v1: "vfs_remove_file ops v (path_join base p) = (v1, Inr ())"
    and rest: "run_all (\<lambda>p v. vfs_remove_file ops v (path_join base p)) fs v1 = (v', Inr ())"
    using Cons.prems by (auto split: prod.splits sum.splits)
  from Cons.IH [OF rest] remove_view [OF v1] show ?case by auto
qed simp

lemma written_view:
  assumes "write_to_vfs ops s base v = (v', Inr ())" and "ok (backend v)"
    and "distinct (map (\<lambda>(p, _). path_join base p) (fs_added_files s))"
  shows "(p, contents) \<in> set (fs_added_files s) \<Longrightarrow> p' = path_join base p \<Longrightarrow>
      p' \<notin> path_join base ` set (fs_removed_files s) \<Longrightarrow>
      (\<And>d. d \<in> set (fs_removed_dirs s) \<Longrightarrow> \<not> path_starts_with p' (path_join base d)) \<Longrightarrow>
      view (backend v') p' = Some (AFile contents)"
    and "q \<in> path_join base ` set (fs_removed_files s) \<Longrightarrow> view (backend v') q = None"
    and "q \<notin> (\<lambda>(p, _). path_join base p) ` set (fs_added_files s) \<Longrightarrow> q \<notin> path_join base ` set (fs_removed_files s) \<Longrightarrow>
      (\<And>d. d \<in> set (fs_added_dirs s) \<Longrightarrow> \<not> path_starts_with (path_join base d) q) \<Longrightarrow>
      (\<And>d. d \<in> set (fs_removed_dirs s) \<Longrightarrow> \<not> path_starts_with q (path_join base d)) \<Longrightarrow>
      view (backend v') q = view (backend v) q"
proof -
  obtain v1 v2 v3 where
    v1: "run_all (\<lambda>p v. or_already_exists (vfs_create_dir_all ops v (path_join base p))) (fs_added_dirs s) v = (v1, Inr ())"
    and v2: "run_all (\<lambda>(p, contents) v. vfs_write ops v (path_join base p) contents) (fs_added_files s) v1 = (v2, Inr ())"
    and v3: "run_all (\<lambda>p v. vfs_remove_dir_all ops v (path_join base p)) (fs_removed_dirs s) v2 = (v3, Inr ())"
    and v': "run_all (\<lambda>p v. vfs_remove_file ops v (path_join base p)) (fs_removed_files s) v3 = (v', Inr ())"
    using assms(1) by (auto simp: write_to_vfs_def split: prod.splits sum.splits)
  note s1 = create_dirs [OF v1 assms(2)]
  note s2 = write_files [OF v2 conjunct1 [OF s1] assms(3)]
  note s3 = remove_dirs [OF v3 conjunct1 [OF s2]]
  note s4 = remove_files [OF v']
  show "(p, contents) \<in> set (fs_added_files s) \<Longrightarrow> p' = path_join base p \<Longrightarrow>
      p' \<notin> path_join base ` set (fs_removed_files s) \<Longrightarrow>
      (\<And>d. d \<in> set (fs_removed_dirs s) \<Longrightarrow> \<not> path_starts_with p' (path_join base d)) \<Longrightarrow>
      view (backend v') p' = Some (AFile contents)"
    using s2 s3 s4 by fastforce
  show "q \<in> path_join base ` set (fs_removed_files s) \<Longrightarrow> view (backend v') q = None" using s4 by simp
  show "q \<notin> (\<lambda>(p, _). path_join base p) ` set (fs_added_files s) \<Longrightarrow> q \<notin> path_join base ` set (fs_removed_files s) \<Longrightarrow>
      (\<And>d. d \<in> set (fs_added_dirs s) \<Longrightarrow> \<not> path_starts_with (path_join base d) q) \<Longrightarrow>
      (\<And>d. d \<in> set (fs_removed_dirs s) \<Longrightarrow> \<not> path_starts_with q (path_join base d)) \<Longrightarrow>
      view (backend v') q = view (backend v) q"
    using s1 s2 s3 s4 by simp
qed

end

lemma remove_keeps_children_below: "children_below es \<Longrightarrow> children_below (remove_loop es queue)"
  using remove_loop_shrinks unfolding children_below_def by (metis option.discI)

lemma create_keeps_children_below:
  "children_below (entries fs) \<Longrightarrow> children_below (entries (fst (create_ancestors fs p)))"
proof (induction fs p rule: create_ancestors.induct)
  case (1 fs p)
  show ?case
  proof (cases "path_parent p")
    case None
    with 1 show ?thesis by (simp add: create_ancestors.simps [of fs p])
  next
    case (Some parent)
    obtain fs1 r where fs1: "load_snapshot fs parent empty_dir = (fs1, r)" by fastforce
    have "children_below (entries fs1)" using load_keeps_children_below(1) [OF 1(2), of parent empty_dir] fs1 by simp
    then show ?thesis
      using 1(1) [OF Some] fs1 Some
      by (cases r) (simp_all add: create_ancestors.simps [of fs p])
  qed
qed

lemma load_never_exists:
  "load_snapshot fs p empty_dir = (fs', Inl e) \<Longrightarrow> ie_kind e = OtherError"
  by (cases rule: link_parent_cases [of p fs]) (auto simp: empty_dir_def must_be_dir_def)

lemma ancestors_never_exist:
  "create_ancestors fs p = (fs', Inl e) \<Longrightarrow> ie_kind e = OtherError"
proof (induction fs p rule: create_ancestors.induct)
  case (1 fs p)
  then show ?case
    by (auto simp: create_ancestors.simps [of fs p] dest: load_never_exists split: option.splits prod.splits sum.splits)
qed

interpretation imwrite: write_backend in_memory_backend im_view "\<lambda>fs. children_below (entries fs)"
proof (unfold_locales, goal_cases)
  case (1 s p s' r)
  then have call: "im_create_dir_all s p = (s', r)" by (simp add: in_memory_backend_def)
  obtain s1 r1 where s1: "create_ancestors s p = (s1, r1)" by fastforce
  have below: "children_below (entries s1)" using create_keeps_children_below [OF 1(1), of p] s1 by simp
  have "children_below (entries s')"
    using call s1 below load_keeps_children_below(1) [OF below, of p empty_dir]
    by (auto simp: im_create_dir_all_def split: sum.splits)
  moreover have "im_view s' q = im_view s q" if "r = Inr ()" "\<not> path_starts_with p q" for q
  proof -
    have r1: "r1 = Inr ()" and last: "load_snapshot s1 p empty_dir = (s', Inr ())"
      using call s1 that(1) by (auto simp: im_create_dir_all_def split: sum.splits)
    have "q \<noteq> p" "path_parent p \<noteq> Some q" using that(2) path_parent_starts_with by auto
    then show ?thesis
      using load_empty_dir(2) [OF last] create_ancestors_frame [of s p s1 q] s1 r1 that(2) by (simp add: im_view_def)
  qed
  moreover have "ie_kind e \<noteq> AlreadyExists" if "r = Inl e" for e
    using call s1 that load_never_exists ancestors_never_exist
    by (fastforce simp: im_create_dir_all_def split: sum.splits)
  ultimately show ?case by blast
next
  case (2 s p s')
  then have s': "s' = im_remove s p"
    by (auto simp: in_memory_backend_def im_remove_dir_all_def split: option.splits entry.splits)
  show ?case
    using 2(1) remove_keeps_children_below [OF 2(1)] remove_loop_frame [OF 2(1), of "[p]" p]
    by (simp add: s' im_remove_def im_view_def remove_loop_queued del: remove_loop.simps)
next
  case (3 s p c)
  then show ?case using load_keeps_children_below(1) [of s p "VFile c"] by (simp add: in_memory_backend_def im_write_def)
next
  case (4 s p)
  then show ?case
    by (auto simp: in_memory_backend_def im_remove_file_def im_remove_def remove_keeps_children_below
        simp del: remove_loop.simps split: option.split entry.split)
next
  case (5 s p)
  then show ?case by (simp add: in_memory_backend_def im_unwatch_def)
qed

text \<open>
  C27. After a file system snapshot was written without an error, every file it adds reads as it says,
  unless the same snapshot also removes it or a folder above it; the files it removes are gone; and every
  path it does not name, which is no ancestor of an added folder and not inside a removed one, reads as
  before.  No file is added twice.
\<close>

theorem written_files_read_back:
  assumes "write_backend ops view ok" and "write_to_vfs ops s base v = (v', Inr ())" and "ok (backend v)"
    and "distinct (map (\<lambda>(p, _). path_join base p) (fs_added_files s))"
  shows "((p, contents) \<in> set (fs_added_files s) \<longrightarrow>
      path_join base p \<notin> path_join base ` set (fs_removed_files s) \<longrightarrow>
      (\<forall>d \<in> set (fs_removed_dirs s). \<not> path_starts_with (path_join base p) (path_join base d)) \<longrightarrow>
      snd (vfs_read ops v' (path_join base p)) = Inr contents) \<and>
    (q \<in> path_join base ` set (fs_removed_files s) \<longrightarrow> snd (vfs_exists ops v' q) = Inr False) \<and>
    (q \<notin> (\<lambda>(p, _). path_join base p) ` set (fs_added_files s) \<longrightarrow> q \<notin> path_join base ` set (fs_removed_files s) \<longrightarrow>
      (\<forall>d \<in> set (fs_added_dirs s). \<not> path_starts_with (path_join base d) q) \<longrightarrow>
      (\<forall>d \<in> set (fs_removed_dirs s). \<not> path_starts_with q (path_join base d)) \<longrightarrow>
      (snd (vfs_read ops v' q) = Inr c \<longleftrightarrow> snd (vfs_read ops v q) = Inr c))"
proof -
  note backend = write_backend.axioms(1) [OF assms(1)]
  note view = write_backend.written_view [OF assms]
  note read = vfs_backend.read_iff [OF backend]
  have "snd (vfs_exists ops v' q) = Inr (view (backend v') q \<noteq> None)"
    using vfs_backend.exists [OF backend] by (simp add: vfs_exists_def on_backend_def)
  then show ?thesis using view read by auto
qed

definition sample_fs_snapshot :: fs_snapshot where
  "sample_fs_snapshot = fs_remove_file [Normal ''b''] (fs_add_file [Normal ''d'', Normal ''x''] ''new''
     (fs_add_dir [Normal ''d''] fs_snapshot_new))"

definition sample_disk :: "in_memory_fs vfs" where
  "sample_disk = vfs_new (fst (load_snapshot im_new [RootDir] sample_snapshot))"

lemma written_files_read_back_witness:
  "\<exists>v'. write_to_vfs in_memory_backend sample_fs_snapshot [RootDir] sample_disk = (v', Inr ()) \<and>
    snd (vfs_read in_memory_backend v' [RootDir, Normal ''d'', Normal ''x'']) = Inr ''new'' \<and>
    snd (vfs_exists in_memory_backend v' [RootDir, Normal ''b'']) = Inr False"
proof -
  obtain v' where v': "write_to_vfs in_memory_backend sample_fs_snapshot [RootDir] sample_disk = (v', Inr ())"
    "fs_added_files sample_fs_snapshot = [([Normal ''d'', Normal ''x''], ''new'')]"
    "fs_removed_files sample_fs_snapshot = [[Normal ''b'']]" "fs_removed_dirs sample_fs_snapshot = []"
  proof -
    have "snd (write_to_vfs in_memory_backend sample_fs_snapshot [RootDir] sample_disk) = Inr ()" by code_simp
    then show ?thesis
      using that by (cases "write_to_vfs in_memory_backend sample_fs_snapshot [RootDir] sample_disk")
        (simp add: sample_fs_snapshot_def fs_remove_file_def fs_add_file_def fs_add_dir_def fs_snapshot_new_def set_insert_def)
  qed
  have "children_below (entries im_new)" by (simp add: children_below_def im_new_def)
  then have "children_below (entries (backend sample_disk))"
    by (simp add: sample_disk_def vfs_new_def load_keeps_children_below(1))
  from written_files_read_back [OF imwrite.write_backend_axioms v'(1) this, of "[Normal ''d'', Normal ''x'']" "''new''"
      "[RootDir, Normal ''b'']"] v'(1)
  show ?thesis by (auto simp: v'(2-4) path_join_def)
qed

end
