(* ===== verification/Property_Filter.thy ===== *)
theory Property_Filter
  imports Rojo_Tree Project
begin

text \<open>
  Which properties of an instance syncback writes, \<open>src/src/syncback/property_filter.rs\<close>.  The
  classes of the reflection database are an argument.  The loop up the superclasses and along the
  aliases may not end on a cyclic database and panics on an unknown kind of property: its result is
  then \<open>None\<close>.
\<close>

datatype serialization = Serializes | DoesNotSerialize | SerializesAs string | Migrates

datatype property_kind = Canonical serialization | Alias string | UnknownKind

record property_data =
  pp_kind :: property_kind
  pp_unscriptable :: bool

record 'o class_data =
  cl_superclass :: "string option"
  cl_properties :: "(string, property_data) hash_map"
  cl_defaults :: "(string, 'o variant) hash_map"

record 'o class_env =
  ce_classes :: "(string, 'o class_data) hash_map"
  ce_variants :: "'o variant_env"

partial_function (option) should_property_serialize ::
    "(string, 'o class_data) hash_map \<Rightarrow> string \<Rightarrow> string \<Rightarrow> bool option" where
  "should_property_serialize classes class_name prop_name =
     (case hm_get classes class_name of
        None \<Rightarrow> Some True
      | Some data \<Rightarrow>
          (case hm_get (cl_properties data) prop_name of
             Some prop \<Rightarrow>
               (case pp_kind prop of
                  Alias alias_for \<Rightarrow> should_property_serialize classes class_name alias_for
                | Canonical s \<Rightarrow> Some (s \<noteq> DoesNotSerialize)
                | UnknownKind \<Rightarrow> None)
           | None \<Rightarrow>
               (case cl_superclass data of
                  Some super_class \<Rightarrow> should_property_serialize classes super_class prop_name
                | None \<Rightarrow> Some True)))"

text \<open>The closure \<open>predicate\<close>: properties left out whatever their value.\<close>

definition filtered_out :: "'o class_env \<Rightarrow> bool \<Rightarrow> string \<Rightarrow> string \<Rightarrow> 'o variant \<Rightarrow> bool option" where
  "filtered_out env all_scriptability class_name prop_name prop_value =
     (if (case prop_value of VRef _ \<Rightarrow> True | VUniqueId _ \<Rightarrow> True | _ \<Rightarrow> False) then Some True
      else case should_property_serialize (ce_classes env) class_name prop_name of
          None \<Rightarrow> None
        | Some False \<Rightarrow> Some True
        | Some True \<Rightarrow>
            Some (\<not> all_scriptability \<and>
              (case hm_get (ce_classes env) class_name of
                 Some data \<Rightarrow>
                   (case hm_get (cl_properties data) prop_name of Some p \<Rightarrow> pp_unscriptable p | None \<Rightarrow> False)
               | None \<Rightarrow> False)))"

definition keep_property :: "'o class_env \<Rightarrow> bool \<Rightarrow> string \<Rightarrow> string \<times> 'o variant \<Rightarrow> bool option" where
  "keep_property env all_scriptability class_name = (\<lambda>(prop_name, prop_value).
     (case filtered_out env all_scriptability class_name prop_name prop_value of
        None \<Rightarrow> None
      | Some True \<Rightarrow> Some False
      | Some False \<Rightarrow>
          (case hm_get (ce_classes env) class_name of
             Some data \<Rightarrow>
               (case hm_get (cl_defaults data) prop_name of
                  Some default_value \<Rightarrow> map_option Not (variant_eq (ce_variants env) prop_value default_value)
                | None \<Rightarrow> Some True)
           | None \<Rightarrow> Some True)))"

fun filter_panic :: "('a \<Rightarrow> bool option) \<Rightarrow> 'a list \<Rightarrow> 'a list option" where
  "filter_panic f [] = Some []"
| "filter_panic f (x # xs) =
     (case f x of
        None \<Rightarrow> None
      | Some b \<Rightarrow> map_option (\<lambda>ys. if b then x # ys else ys) (filter_panic f xs))"

definition syncs_unscriptable :: "'o project \<Rightarrow> bool" where
  "syncs_unscriptable project =
     (case Option.bind (p_syncback_rules project) sync_unscriptable of Some b \<Rightarrow> b | None \<Rightarrow> True)"

text \<open>
  The list filled by \<open>filter_properties_preallocated\<close>, which is empty before every call, in the order
  of the properties; \<open>filter_properties\<close> collects it into a map.
\<close>

definition filter_properties :: "'o class_env \<Rightarrow> 'o project \<Rightarrow> 'o inst \<Rightarrow> (string, 'o variant) hash_map option" where
  "filter_properties env project inst =
     filter_panic (keep_property env (syncs_unscriptable project) (i_class inst)) (i_properties inst)"

end
