(* ===== verification/Syncback_Rules.thy ===== *)
theory Syncback_Rules
  imports Property_Filter Text
begin

text \<open>
  The rules of syncback and the walks over instance trees, \<open>src/src/syncback/mod.rs\<close> and the
  function \<open>inst_path\<close> of \<open>snapshot.rs\<close>.  A walk that meets a missing instance panics; like a loop
  that does not end it is \<open>None\<close>.
\<close>

section \<open>Ignored paths\<close>

text \<open>\<open>compile_globs\<close>; the error is the pattern that is no glob.\<close>

definition directory_globs :: "glob_env \<Rightarrow> bool \<Rightarrow> string \<Rightarrow> ignorable_glob list" where
  "directory_globs g dir_ignore_paths pattern =
     (if dir_ignore_paths
      then (case str_strip_suffix pattern ''/**'' of
              Some dir_pattern \<Rightarrow>
                (case ignorable_glob_new g dir_pattern of Some glob \<Rightarrow> [glob] | None \<Rightarrow> [])
            | None \<Rightarrow> [])
      else [])"

fun compile_patterns :: "glob_env \<Rightarrow> bool \<Rightarrow> string list \<Rightarrow> string + ignorable_glob list" where
  "compile_patterns g dir_ignore_paths [] = Inr []"
| "compile_patterns g dir_ignore_paths (pattern # patterns) =
     (case ignorable_glob_new g pattern of
        None \<Rightarrow> Inl pattern
      | Some glob \<Rightarrow>
          map_sum id (\<lambda>globs. glob # directory_globs g dir_ignore_paths pattern @ globs)
            (compile_patterns g dir_ignore_paths patterns))"

definition compile_globs :: "glob_env \<Rightarrow> syncback_rules \<Rightarrow> string + ignorable_glob list" where
  "compile_globs g rules =
     compile_patterns g (case create_ignore_dir_paths rules of Some b \<Rightarrow> b | None \<Rightarrow> True) (ignore_paths rules)"

definition is_valid_path :: "glob_env \<Rightarrow> ignorable_glob list option \<Rightarrow> path \<Rightarrow> path \<Rightarrow> bool" where
  "is_valid_path g globs base_path p =
     (let test_path = (case path_strip_prefix p base_path of Some suffix \<Rightarrow> suffix | None \<Rightarrow> p)
      in if glob_match g ''.git/**'' test_path then False
         else case globs of
             None \<Rightarrow> True
           | Some ignored_globs \<Rightarrow>
               \<not> fold (\<lambda>glob ignored. if ig_is_match g glob test_path then \<not> ig_negated glob else ignored) ignored_globs False)"

text \<open>The check against the ignored trees, a prefix of the text of the instance's path.\<close>

definition in_ignored_tree :: "'o project \<Rightarrow> string \<Rightarrow> bool" where
  "in_ignored_tree project path_text =
     (case p_syncback_rules project of
        Some rules \<Rightarrow> list_ex (\<lambda>ignored. str_starts_with path_text ignored) (ignore_trees rules)
      | None \<Rightarrow> False)"


section \<open>Ignored properties\<close>

text \<open>The loop up the superclasses; a class the database does not know ends it with no set at all.\<close>

partial_function (option) collect_filter :: "(string, 'o class_data) hash_map \<Rightarrow>
    (string \<times> string list) list \<Rightarrow> string \<Rightarrow> string list \<Rightarrow> string list option option" where
  "collect_filter classes ignored current_class_name props =
     (let props = props @ (case hm_get ignored current_class_name of Some names \<Rightarrow> names | None \<Rightarrow> [])
      in case hm_get classes current_class_name of
           None \<Rightarrow> Some None
         | Some class \<Rightarrow>
             (case cl_superclass class of
                Some super_class \<Rightarrow> collect_filter classes ignored super_class props
              | None \<Rightarrow> Some (Some props)))"

definition get_property_filter :: "'o class_env \<Rightarrow> 'o project \<Rightarrow> 'o inst \<Rightarrow> string list option option" where
  "get_property_filter env project inst =
     (case p_syncback_rules project of
        None \<Rightarrow> Some None
      | Some rules \<Rightarrow> collect_filter (ce_classes env) (ignore_properties rules) (i_class inst) [])"

definition remove_properties :: "string list \<Rightarrow> 'o inst \<Rightarrow> 'o inst" where
  "remove_properties props inst = inst\<lparr>i_properties := fold hm_remove props (i_properties inst)\<rparr>"


section \<open>Walks\<close>

text \<open>The loop of \<open>descendants\<close>: what is taken from the front of the queue, in order.\<close>

partial_function (option) walk :: "'o dom_view \<Rightarrow> referent list \<Rightarrow> referent list option" where
  "walk view queue =
     (case queue of
        [] \<Rightarrow> Some []
      | r # rs \<Rightarrow>
          (case view r of
             None \<Rightarrow> None
           | Some inst \<Rightarrow> Option.bind (walk view (rs @ i_children inst)) (\<lambda>ordered. Some (r # ordered))))"

definition descendants :: "('d, 'o) dom_ops \<Rightarrow> 'd \<Rightarrow> referent \<Rightarrow> referent list option" where
  "descendants D d root_ref = walk (dom_get D d) [root_ref]"

text \<open>The loop of \<open>inst_path\<close>: the names from an instance up to the root.\<close>

partial_function (option) names_up :: "'o dom_view \<Rightarrow> referent \<Rightarrow> string list option" where
  "names_up view r =
     (case view r of
        None \<Rightarrow> Some []
      | Some inst \<Rightarrow> Option.bind (names_up view (i_parent inst)) (\<lambda>names. Some (i_name inst # names)))"

definition inst_path :: "('d, 'o) dom_ops \<Rightarrow> 'd \<Rightarrow> referent \<Rightarrow> string option" where
  "inst_path D d r = map_option (\<lambda>names. join_with ''/'' (rev (butlast names))) (names_up (dom_get D d) r)"


section \<open>Preparing the new tree\<close>

definition expect_instance :: "('d, 'o) dom_ops \<Rightarrow> ('d, 'o) rojo_tree \<Rightarrow> referent \<Rightarrow>
    ('o inst \<times> 'o instance_metadata) option" where
  "expect_instance D t r = Option.bind (get_instance D t r) (\<lambda>found. found)"

text \<open>Pruning: of several old children with a name the last one counts.\<close>

fun children_by_name :: "('d, 'o) dom_ops \<Rightarrow> ('d, 'o) rojo_tree \<Rightarrow> referent list \<Rightarrow>
    (string, 'o inst) hash_map \<Rightarrow> (string, 'o inst) hash_map option" where
  "children_by_name D old [] m = Some m"
| "children_by_name D old (r # rs) m =
     (case expect_instance D old r of
        None \<Rightarrow> None
      | Some (inst, _) \<Rightarrow> children_by_name D old rs (hm_insert (i_name inst) inst m))"

fun prune_children :: "('d, 'o) dom_ops \<Rightarrow> (string, 'o inst) hash_map \<Rightarrow> referent list \<Rightarrow> 'd \<Rightarrow> 'd option" where
  "prune_children D old_children [] new_tree = Some new_tree"
| "prune_children D old_children (child_ref # refs) new_tree =
     (case dom_get D new_tree child_ref of
        None \<Rightarrow> None
      | Some child \<Rightarrow>
          (if (case hm_get old_children (i_name child) of Some old \<Rightarrow> i_class old = i_class child | None \<Rightarrow> False)
           then prune_children D old_children refs new_tree
           else Option.bind (dom_destroy D new_tree child_ref) (prune_children D old_children refs)))"

definition strip_unknown_root_children :: "('d, 'o) dom_ops \<Rightarrow> 'd \<Rightarrow> ('d, 'o) rojo_tree \<Rightarrow> 'd option" where
  "strip_unknown_root_children D new_tree old =
     (case rt_root D old of
        None \<Rightarrow> None
      | Some (old_root, _) \<Rightarrow>
          (case children_by_name D old (i_children old_root) [] of
             None \<Rightarrow> None
           | Some old_children \<Rightarrow>
               (case dom_get D new_tree (dom_root D new_tree) of
                  None \<Rightarrow> None
                | Some root \<Rightarrow> prune_children D old_children (i_children root) new_tree)))"


section \<open>The walks end\<close>

declare walk.simps [simp del] names_up.simps [simp del] collect_filter.simps [simp del]

text \<open>Every instance below the queue is visited once, and before its children.\<close>

definition parents_first :: "'o dom_view \<Rightarrow> referent list \<Rightarrow> bool" where
  "parents_first view order \<longleftrightarrow> (\<forall>xs y ys. order = xs @ y # ys \<longrightarrow> (\<forall>c. child_of view y c \<longrightarrow> c \<in> set ys))"

definition below :: "'o dom_view \<Rightarrow> referent list \<Rightarrow> referent set" where
  "below view queue = {x. \<exists>s \<in> set queue. descends view s x}"

lemma below_step:
  assumes wf: "dom_wf view root" and r: "view r = Some inst" and disj: "disjoint_subtrees view (r # rs)"
  shows "below view (r # rs) = insert r (below view (rs @ i_children inst))"
    and "r \<notin> below view (rs @ i_children inst)"
proof -
  show "below view (r # rs) = insert r (below view (rs @ i_children inst))"
    using descends_iff_children [of view r, OF r] by (auto simp: below_def)
  have "\<not> descends view c r" if "c \<in> set (i_children inst)" for c
    using child_not_above [OF wf, of r c] r that by (auto simp: child_of_def)
  then show "r \<notin> below view (rs @ i_children inst)"
    using disj by (auto simp: below_def)
qed

lemma walk_visits:
  assumes "dom_wf view root" and "disjoint_subtrees view queue" and "finite (below view queue)"
    and "\<And>r. r \<in> set queue \<Longrightarrow> view r \<noteq> None"
  shows "\<exists>order. walk view queue = Some order \<and> distinct order \<and> set order = below view queue \<and> parents_first view order"
  using assms(2-)
proof (induction "card (below view queue)" arbitrary: queue rule: less_induct)
  case less
  show ?case
  proof (cases queue)
    case Nil
    then show ?thesis by (simp add: walk.simps below_def parents_first_def)
  next
    case (Cons r rs)
    then obtain inst where r: "view r = Some inst" using less.prems(3) by fastforce
    let ?queue = "rs @ i_children inst"
    note step = below_step [OF assms(1) r less.prems(1) [unfolded Cons]]
    have "finite (below view ?queue)" using less.prems(2) step(1) Cons by simp
    moreover from this have "card (below view ?queue) < card (below view queue)"
      using step Cons by simp
    moreover have "disjoint_subtrees view ?queue"
      using disjoint_subtrees_step [OF assms(1) r] less.prems(1) Cons by simp
    moreover have "view c \<noteq> None" if "c \<in> set ?queue" for c
      using that less.prems(3) Cons dom_wfD(5) [OF assms(1) r, of c] by auto
    ultimately obtain order where order: "walk view ?queue = Some order" "distinct order"
        "set order = below view ?queue" "parents_first view order"
      using less.hyps by blast
    have "c \<in> set order" if "child_of view r c" for c
      using that r order(3) by (auto simp: child_of_def below_def)
    then have "parents_first view (r # order)"
      using order(4) by (auto simp: parents_first_def Cons_eq_append_conv)
    with order step r Cons show ?thesis by (simp add: walk.simps)
  qed
qed

text \<open>A subtree is listed completely; for the whole tree this is every instance.\<close>

lemma descendants_visit:
  assumes "dom_wf (dom_get D d) root" and "finite (dom (dom_get D d))" and "dom_get D d r \<noteq> None"
  shows "\<exists>order. descendants D d r = Some order \<and> distinct order \<and>
    set order = {x. descends (dom_get D d) r x} \<and> parents_first (dom_get D d) order"
proof -
  have "below (dom_get D d) [r] \<subseteq> dom (dom_get D d)"
    using descends_in_view [OF assms(1)] assms(3) by (auto simp: below_def)
  with assms(2) have "finite (below (dom_get D d) [r])" by (rule finite_subset [rotated])
  from walk_visits [OF assms(1) _ this] assms(3) show ?thesis
    by (simp add: descendants_def below_def)
qed

end
