(* ===== verification/Hashing.thy ===== *)
theory Hashing
  imports Syncback_Rules Floats Resolution
begin

text \<open>
  Hashes of instances, \<open>src/src/syncback/hash/mod.rs\<close> and \<open>variant.rs\<close>.  A hasher is the text of
  bytes fed to it so far, for BLAKE3 hashes their concatenation; \<open>finalize\<close> is a field of the
  environment, and so is what the source calls of the payloads it does not look into.  A panic is
  \<open>None\<close>.
\<close>

section \<open>Rounding\<close>

text \<open>The macro \<open>round!\<close> on the magnitude of a finite float: times ten, to an integer, by ten.\<close>

definition times_ten :: "float_format \<Rightarrow> nat \<Rightarrow> nat" where
  "times_ten F mag = (case decode F mag of (m, e) \<Rightarrow> encode F (10 * m) e)"

text \<open>\<open>round\<close>: half way cases away from zero.\<close>

definition round_away :: "float_format \<Rightarrow> nat \<Rightarrow> nat" where
  "round_away F mag =
     (case decode F mag of (m, e) \<Rightarrow>
        if 0 \<le> e then mag else encode F ((m + 2 ^ (nat (- e) - 1)) div 2 ^ nat (- e)) 0)"

text \<open>The quotient to more bits than a fraction has, with a last bit that tells of a remainder.\<close>

definition by_ten :: "float_format \<Rightarrow> nat \<Rightarrow> nat" where
  "by_ten F mag =
     (case decode F mag of (m, e) \<Rightarrow>
        let scaled = m * 2 ^ 64
        in encode F (2 * (scaled div 10) + (if scaled mod 10 = 0 then 0 else 1)) (e - 65))"

text \<open>Infinity, also as the product, stays infinity; a NaN becomes the quiet one.\<close>

definition round_tenths :: "float_format \<Rightarrow> nat \<Rightarrow> nat" where
  "round_tenths F mag =
     (if infinity_bits F < mag then quiet_nan_bits F
      else if mag = infinity_bits F then mag
      else let product = times_ten F mag
           in if product = infinity_bits F then product else by_ten F (round_away F product))"

definition round32 :: "f32 \<Rightarrow> f32" where
  "round32 w =
     word_of_nat ((if 2 ^ 31 \<le> unat w then 2 ^ 31 else 0) + round_tenths single (unat w mod 2 ^ 31))"

definition round64 :: "f64 \<Rightarrow> f64" where
  "round64 w =
     word_of_nat ((if 2 ^ 63 \<le> unat w then 2 ^ 63 else 0) + round_tenths double (unat w mod 2 ^ 63))"


section \<open>Values\<close>

text \<open>\<open>to_le_bytes\<close>, the number of bytes first.\<close>

fun le_bytes :: "nat \<Rightarrow> nat \<Rightarrow> string" where
  "le_bytes 0 n = []"
| "le_bytes (Suc k) n = char_of (n mod 256) # le_bytes k (n div 256)"

definition bytes16 :: "u16 \<Rightarrow> string" where "bytes16 w = le_bytes 2 (unat w)"
definition bytes32 :: "u32 \<Rightarrow> string" where "bytes32 w = le_bytes 4 (unat w)"
definition bytes64 :: "u64 \<Rightarrow> string" where "bytes64 w = le_bytes 8 (unat w)"

text \<open>The macro \<open>n_hash!\<close> on rounded single floats, and \<open>vector_hash\<close>.\<close>

definition rounded :: "f32 list \<Rightarrow> string" where
  "rounded ns = concat (map (\<lambda>n. bytes32 (round32 n)) ns)"

definition vector_hash :: "vector3 \<Rightarrow> string" where
  "vector_hash v = rounded [v3_x v, v3_y v, v3_z v]"

definition cframe_hash :: "cframe \<Rightarrow> string" where
  "cframe_hash cf = vector_hash (cf_position cf) @ vector_hash (m3_x (cf_orientation cf)) @
     vector_hash (m3_y (cf_orientation cf)) @ vector_hash (m3_z (cf_orientation cf))"

text \<open>
  What is called of other crates.  The unstable sorts of keypoints by their rounded times leave the
  order of equal times open.
\<close>

record 'o hash_env =
  ha_finalize :: "string \<Rightarrow> string"
  ha_flag_bits :: "'o \<Rightarrow> 8 word"
  ha_brick_color :: "'o \<Rightarrow> u16"
  ha_color3uint8 :: "'o \<Rightarrow> 8 word \<times> 8 word \<times> 8 word"
  ha_content :: "'o \<Rightarrow> content_type"
  ha_content_object :: "'o \<Rightarrow> string option"
  ha_enum_item :: "'o \<Rightarrow> string \<times> u32"
  ha_font_weight :: "'o \<Rightarrow> u16"
  ha_font_style :: "'o \<Rightarrow> 8 word"
  ha_asset_hash :: "'o \<Rightarrow> string"
  ha_ref_text :: "referent \<Rightarrow> string"
  ha_region3int16 :: "'o \<Rightarrow> (u16 \<times> u16 \<times> u16) \<times> (u16 \<times> u16 \<times> u16)"
  ha_capability_bits :: "'o \<Rightarrow> u64"
  ha_vector2int16 :: "'o \<Rightarrow> u16 \<times> u16"
  ha_vector3int16 :: "'o \<Rightarrow> u16 \<times> u16 \<times> u16"
  ha_sort_colors :: "color_keypoint list \<Rightarrow> color_keypoint list"
  ha_sort_numbers :: "number_keypoint list \<Rightarrow> number_keypoint list"
  ha_classes :: "'o class_env"

text \<open>Comparing two keypoints panics when a time is not a number.\<close>

definition times_compare :: "f32 list \<Rightarrow> bool" where
  "times_compare ts \<longleftrightarrow> length ts \<le> 1 \<or> list_all (\<lambda>t. \<not> is_nan32 (round32 t)) ts"

definition byte_of :: "8 word \<Rightarrow> char" where "byte_of w = char_of (unat w)"

definition triple16 :: "u16 \<times> u16 \<times> u16 \<Rightarrow> string" where
  "triple16 = (\<lambda>(x, y, z). bytes16 x @ bytes16 y @ bytes16 z)"

definition content_hash :: "'o hash_env \<Rightarrow> 'o \<Rightarrow> string option" where
  "content_hash env c =
     (case ha_content env c of
        ContentNone \<Rightarrow> Some [CHR 0x00]
      | ContentUri uri \<Rightarrow> Some (CHR 0x01 # uri)
      | ContentOther \<Rightarrow> map_option (\<lambda>text. CHR 0x02 # text) (ha_content_object env c))"

definition color_sequence_hash :: "'o hash_env \<Rightarrow> color_keypoint list \<Rightarrow> string option" where
  "color_sequence_hash env keypoints =
     (if times_compare (map ck_time keypoints)
      then Some (concat (map (\<lambda>k. rounded [ck_time k, c3_r (ck_color k), c3_g (ck_color k), c3_b (ck_color k)])
             (ha_sort_colors env keypoints)))
      else None)"

definition number_sequence_hash :: "'o hash_env \<Rightarrow> number_keypoint list \<Rightarrow> string option" where
  "number_sequence_hash env keypoints =
     (if times_compare (map nk_time keypoints)
      then Some (concat (map (\<lambda>k. rounded [nk_time k, nk_value k, nk_envelope k]) (ha_sort_numbers env keypoints)))
      else None)"

definition physical_hash :: "physical_properties \<Rightarrow> string" where
  "physical_hash p =
     (case p of
        DefaultPhysical \<Rightarrow> [CHR 0x00]
      | CustomPhysical c \<Rightarrow> CHR 0x00 # rounded
          [density c, friction c, elasticity c, friction_weight c, elasticity_weight c, acoustic_absorption c])"

definition font_hash :: "'o hash_env \<Rightarrow> 'o font \<Rightarrow> string" where
  "font_hash env f = bytes16 (ha_font_weight env (font_weight f)) @ [byte_of (ha_font_style env (font_style f))] @
     font_family f @ (case font_cached_face_id f of Some cached \<Rightarrow> CHR 0x01 # cached | None \<Rightarrow> [CHR 0x00])"

text \<open>The attributes are hashed one by one and put in the order of their names.\<close>

fun hash_variant :: "'o hash_env \<Rightarrow> 'o variant \<Rightarrow> string option"
  and hash_attributes :: "'o hash_env \<Rightarrow> (string \<times> 'o variant) list \<Rightarrow> (string \<times> string) list option"
where
  "hash_variant env (VAttributes attrs) =
     map_option (\<lambda>hashed. concat (map (\<lambda>(name, bytes). name @ bytes) (sort_key fst hashed))) (hash_attributes env attrs)"
| "hash_variant env (VAxes a) = Some [byte_of (ha_flag_bits env a)]"
| "hash_variant env (VBinaryString bytes) = Some bytes"
| "hash_variant env (VBool b) = Some [if b then CHR 0x01 else CHR 0x00]"
| "hash_variant env (VBrickColor color) = Some (bytes16 (ha_brick_color env color))"
| "hash_variant env (VCFrame cf) = Some (cframe_hash cf)"
| "hash_variant env (VColor3 color) = Some (rounded [c3_r color, c3_g color, c3_b color])"
| "hash_variant env (VColor3uint8 color) =
     (case ha_color3uint8 env color of (r, g, b) \<Rightarrow> Some [byte_of r, byte_of b, byte_of g])"
| "hash_variant env (VColorSequence keypoints) = color_sequence_hash env keypoints"
| "hash_variant env (VContent c) = content_hash env c"
| "hash_variant env (VContentId s) = Some s"
| "hash_variant env (VEnum e) = Some (bytes32 e)"
| "hash_variant env (VEnumItem e) = (case ha_enum_item env e of (ty, n) \<Rightarrow> Some (ty @ bytes32 n))"
| "hash_variant env (VFaces f) = Some [byte_of (ha_flag_bits env f)]"
| "hash_variant env (VFloat32 n) = Some (rounded [n])"
| "hash_variant env (VFloat64 n) = Some (bytes64 (round64 n))"
| "hash_variant env (VFont f) = Some (font_hash env f)"
| "hash_variant env (VInt32 n) = Some (bytes32 n)"
| "hash_variant env (VInt64 n) = Some (bytes64 n)"
| "hash_variant env (VMaterialColors c) = Some (material_encode (ce_variants (ha_classes env)) c)"
| "hash_variant env (VNetAssetRef a) = Some (ha_asset_hash env a)"
| "hash_variant env (VNumberRange r) = Some (rounded [nr_max r, nr_min r])"
| "hash_variant env (VNumberSequence keypoints) = number_sequence_hash env keypoints"
| "hash_variant env (VOptionalCFrame cf) =
     Some (case cf of Some c \<Rightarrow> CHR 0x01 # cframe_hash c | None \<Rightarrow> [CHR 0x00])"
| "hash_variant env (VPhysicalProperties p) = Some (physical_hash p)"
| "hash_variant env (VRay r) = Some (vector_hash (ray_origin r) @ vector_hash (ray_direction r))"
| "hash_variant env (VRect r) =
     Some (rounded [v2_x (rect_max r), v2_y (rect_max r), v2_x (rect_min r), v2_y (rect_min r)])"
| "hash_variant env (VRef r) = Some (ha_ref_text env r)"
| "hash_variant env (VRegion3 r) = Some (vector_hash (r3_max r) @ vector_hash (r3_min r))"
| "hash_variant env (VRegion3int16 r) =
     (case ha_region3int16 env r of (upper, lower) \<Rightarrow> Some (triple16 upper @ triple16 lower))"
| "hash_variant env (VSecurityCapabilities c) = Some (bytes64 (ha_capability_bits env c))"
| "hash_variant env (VSharedString s) = Some (ha_asset_hash env s)"
| "hash_variant env (VTags tags) = Some (concat (sort tags))"
| "hash_variant env (VUDim u) = Some (rounded [ud_scale u] @ bytes32 (ud_offset u))"
| "hash_variant env (VUDim2 u) =
     Some (rounded [ud_scale (ud2_y u)] @ bytes32 (ud_offset (ud2_y u)) @
           rounded [ud_scale (ud2_x u)] @ bytes32 (ud_offset (ud2_x u)))"
| "hash_variant env (VUniqueId _) = Some []"
| "hash_variant env (VString s) = Some s"
| "hash_variant env (VVector2 v) = Some (rounded [v2_x v, v2_y v])"
| "hash_variant env (VVector2int16 v) = (case ha_vector2int16 env v of (x, y) \<Rightarrow> Some (bytes16 x @ bytes16 y))"
| "hash_variant env (VVector3 v) = Some (vector_hash v)"
| "hash_variant env (VVector3int16 v) = Some (triple16 (ha_vector3int16 env v))"
| "hash_variant env (VOther _ _) = Some []"
| "hash_attributes env [] = Some []"
| "hash_attributes env ((name, v) # attrs) =
     (case hash_variant env v of
        None \<Rightarrow> None
      | Some bytes \<Rightarrow> map_option (Cons (name, bytes)) (hash_attributes env attrs))"


section \<open>Instances and trees\<close>

text \<open>One property, of a class with these defaults if the database knows it.\<close>

definition hash_property :: "'o hash_env \<Rightarrow> (string, 'o variant) hash_map option \<Rightarrow> string \<times> 'o variant \<Rightarrow> string option" where
  "hash_property env defaults = (\<lambda>(name, v).
     (case Option.bind defaults (\<lambda>ds. hm_get ds name) of
        Some default_value \<Rightarrow>
          (case variant_eq (ce_variants (ha_classes env)) default_value v of
             None \<Rightarrow> None
           | Some True \<Rightarrow> Some name
           | Some False \<Rightarrow> map_option (append name) (hash_variant env v))
      | None \<Rightarrow> map_option (append name) (hash_variant env v)))"

fun concat_panic :: "('a \<Rightarrow> string option) \<Rightarrow> 'a list \<Rightarrow> string option" where
  "concat_panic f [] = Some []"
| "concat_panic f (x # xs) =
     (case f x of None \<Rightarrow> None | Some bytes \<Rightarrow> map_option (append bytes) (concat_panic f xs))"

definition hash_inst_prefilled :: "'o hash_env \<Rightarrow> 'o inst \<Rightarrow> (string \<times> 'o variant) list \<Rightarrow> string option" where
  "hash_inst_prefilled env inst prop_list =
     (let defaults = map_option cl_defaults (hm_get (ce_classes (ha_classes env)) (i_class inst))
      in map_option (\<lambda>bytes. i_name inst @ i_class inst @ bytes)
           (concat_panic (hash_property env defaults) (sort_key fst prop_list)))"

definition hash_inst_filtered :: "'o hash_env \<Rightarrow> 'o project \<Rightarrow> 'o inst \<Rightarrow> string option" where
  "hash_inst_filtered env project inst =
     Option.bind (filter_properties (ha_classes env) project inst) (hash_inst_prefilled env inst)"

text \<open>The outer option is the panic, the inner one a missing instance.\<close>

definition hash_instance :: "'o hash_env \<Rightarrow> 'o project \<Rightarrow> ('d, 'o) dom_ops \<Rightarrow> 'd \<Rightarrow> referent \<Rightarrow> string option option" where
  "hash_instance env project D d r =
     (case dom_get D d r of
        None \<Rightarrow> Some None
      | Some inst \<Rightarrow> map_option (\<lambda>bytes. Some (ha_finalize env bytes)) (hash_inst_filtered env project inst))"

fun lookup_all :: "('k, 'v) hash_map \<Rightarrow> 'k list \<Rightarrow> 'v list option" where
  "lookup_all m [] = Some []"
| "lookup_all m (k # ks) =
     (case hm_get m k of None \<Rightarrow> None | Some v \<Rightarrow> map_option (Cons v) (lookup_all m ks))"

definition add_children :: "'o inst \<Rightarrow> (referent, string) hash_map \<Rightarrow> string \<Rightarrow> string option" where
  "add_children inst m hasher =
     map_option (\<lambda>child_hashes. hasher @ concat (sort child_hashes)) (lookup_all m (i_children inst))"

definition hash_step :: "'o hash_env \<Rightarrow> 'o project \<Rightarrow> ('d, 'o) dom_ops \<Rightarrow> 'd \<Rightarrow> referent \<Rightarrow>
    (referent, string) hash_map \<Rightarrow> (referent, string) hash_map option" where
  "hash_step env project D d r m =
     (case dom_get D d r of
        None \<Rightarrow> None
      | Some inst \<Rightarrow>
          Option.bind (hash_inst_filtered env project inst) (\<lambda>hasher.
          Option.bind (add_children inst m hasher) (\<lambda>bytes.
          Some (hm_insert r (ha_finalize env bytes) m))))"

definition hash_tree :: "'o hash_env \<Rightarrow> 'o project \<Rightarrow> ('d, 'o) dom_ops \<Rightarrow> 'd \<Rightarrow> referent \<Rightarrow> (referent, string) hash_map option" where
  "hash_tree env project D d root_ref =
     Option.bind (descendants D d root_ref) (\<lambda>order. fold_panic (hash_step env project D d) (rev order) [])"

end
