(* ===== verification/Ref_Links.thy ===== *)
theory Ref_Links
  imports Syncback_Rules
begin

text \<open>
  References between instances as attributes, \<open>src/src/syncback/ref_properties.rs\<close>:
  \<open>collect_referents\<close> notes every reference property of the new tree, \<open>link_referents\<close> writes an id
  attribute to the targets that need one and a pointer attribute to the owners.  A panic is \<open>None\<close>;
  the only error is an \<open>Attributes\<close> property of another type.
\<close>

record ref_link =
  rl_name :: string
  rl_value :: referent

record ref_links =
  rk_prop_links :: "(referent, ref_link) multi_map"
  rk_need_rewrite :: "referent list"

text \<open>
  The text of a unique id, and what the calls of \<open>UniqueId::now\<close> yield, one after the other: a new id each
  time, or an error, which is unwrapped.  Every run draws ids of its own, so two runs of the program are
  runs in two environments.
\<close>

record 'o id_env =
  ie_text :: "'o \<Rightarrow> string"
  ie_now :: "nat \<Rightarrow> 'o option"

definition get_existing_id :: "'o inst \<Rightarrow> string option" where
  "get_existing_id inst =
     (case hm_get (i_properties inst) ''Attributes'' of
        Some (VAttributes attrs) \<Rightarrow>
          (case hm_get attrs REF_ID_ATTRIBUTE_NAME of
             Some (VString s) \<Rightarrow> Some s
           | Some (VBinaryString bytes) \<Rightarrow> from_utf8 bytes
           | _ \<Rightarrow> None)
      | _ \<Rightarrow> None)"


section \<open>Collecting\<close>

definition set_add :: "'a \<Rightarrow> 'a list \<Rightarrow> 'a list" where
  "set_add x xs = (if x \<in> set xs then xs else xs @ [x])"

record collector =
  co_ids :: "(string, referent) hash_map"
  co_links :: ref_links

definition collect_link :: "'o dom_view \<Rightarrow> referent \<Rightarrow> string \<times> 'o variant \<Rightarrow> collector \<Rightarrow> collector" where
  "collect_link view inst_ref = (\<lambda>(prop_name, v) c.
     (case v of
        VRef target_ref \<Rightarrow>
          (if ref_is_none target_ref then c
           else case view target_ref of
               None \<Rightarrow> c
             | Some target \<Rightarrow>
                 (let links = co_links c;
                      links = links\<lparr>rk_prop_links :=
                        mm_insert (rk_prop_links links) inst_ref \<lparr>rl_name = prop_name, rl_value = target_ref\<rparr>\<rparr>;
                      rewritten = links\<lparr>rk_need_rewrite := set_add target_ref (rk_need_rewrite links)\<rparr>
                  in case get_existing_id target of
                       Some id_text \<Rightarrow>
                         c\<lparr>co_ids := hm_insert id_text target_ref (co_ids c),
                           co_links :=
                             (case hm_get (co_ids c) id_text of
                                Some id_ref \<Rightarrow> if id_ref \<noteq> target_ref then rewritten else links
                              | None \<Rightarrow> links)\<rparr>
                     | None \<Rightarrow> c\<lparr>co_links := rewritten\<rparr>))
      | _ \<Rightarrow> c))"

text \<open>The queue of the source takes the instances in the order of \<open>descendants\<close>.\<close>

definition collect_instance :: "'o dom_view \<Rightarrow> referent \<Rightarrow> collector \<Rightarrow> collector option" where
  "collect_instance view inst_ref c =
     map_option (\<lambda>inst. fold (collect_link view inst_ref) (i_properties inst) c) (view inst_ref)"

definition no_links :: ref_links where
  "no_links = \<lparr>rk_prop_links = mm_new, rk_need_rewrite = []\<rparr>"

definition collect_referents :: "('d, 'o) dom_ops \<Rightarrow> 'd \<Rightarrow> ref_links option" where
  "collect_referents D d =
     Option.bind (descendants D d (dom_root D d)) (\<lambda>order.
       map_option co_links
         (fold_panic (collect_instance (dom_get D d)) order \<lparr>co_ids = [], co_links = no_links\<rparr>))"


section \<open>Linking\<close>

text \<open>
  The attributes of an instance, which is an error if they are something else; the map is sorted by
  name.
\<close>

definition attributes_of :: "'o inst \<Rightarrow> variant_type + (string \<times> 'o variant) list" where
  "attributes_of inst =
     (case hm_get (i_properties inst) ''Attributes'' of
        None \<Rightarrow> Inr []
      | Some (VAttributes attrs) \<Rightarrow> Inr attrs
      | Some v \<Rightarrow> Inl (variant_ty v))"

text \<open>The id of an instance, or the next new one; the number of ids drawn so far is part of the state.\<close>

definition unique_id_for :: "'o id_env \<Rightarrow> 'o inst \<Rightarrow> nat \<Rightarrow> ('o \<times> nat) option" where
  "unique_id_for env inst drawn =
     (case hm_get (i_properties inst) ''UniqueId'' of
        Some (VUniqueId u) \<Rightarrow> Some (u, drawn)
      | _ \<Rightarrow> map_option (\<lambda>u. (u, Suc drawn)) (ie_now env drawn))"

definition write_id :: "'o id_env \<Rightarrow> ('d, 'o) dom_ops \<Rightarrow> referent \<Rightarrow> 'd \<times> nat \<Rightarrow>
    (('d \<times> nat) \<times> (variant_type + unit)) option" where
  "write_id env D r = (\<lambda>(d, drawn).
     (case dom_get D d r of
        None \<Rightarrow> Some ((d, drawn), Inr ())
      | Some inst \<Rightarrow>
          (case unique_id_for env inst drawn of
             None \<Rightarrow> None
           | Some (unique_id, drawn') \<Rightarrow>
               Some (case attributes_of inst of
                  Inl ty \<Rightarrow> ((d, drawn'), Inl ty)
                | Inr attrs \<Rightarrow>
                    ((dom_set D d r (inst\<lparr>i_properties := hm_insert ''Attributes''
                       (VAttributes (btree_insert REF_ID_ATTRIBUTE_NAME (VString (ie_text env unique_id)) attrs))
                       (i_properties inst)\<rparr>), drawn'), Inr ())))))"

text \<open>A loop of steps that change a state and may fail or panic.\<close>

fun run_steps :: "('x \<Rightarrow> 's \<Rightarrow> ('s \<times> ('e + unit)) option) \<Rightarrow> 'x list \<Rightarrow> 's \<Rightarrow> ('s \<times> ('e + unit)) option" where
  "run_steps f [] s = Some (s, Inr ())"
| "run_steps f (x # xs) s =
     (case f x s of
        None \<Rightarrow> None
      | Some (s', Inl e) \<Rightarrow> Some (s', Inl e)
      | Some (s', Inr _) \<Rightarrow> run_steps f xs s')"

definition write_id_attributes :: "'o id_env \<Rightarrow> ('d, 'o) dom_ops \<Rightarrow> ref_links \<Rightarrow> 'd \<Rightarrow> ('d \<times> (variant_type + unit)) option" where
  "write_id_attributes env D links d =
     map_option (\<lambda>((d', _), r). (d', r)) (run_steps (write_id env D) (rk_need_rewrite links) (d, 0))"

text \<open>The inner loop: the ids of the targets, appended to the list of properties.\<close>

fun pointers :: "'o dom_view \<Rightarrow> ref_link list \<Rightarrow> (string \<times> 'o variant) list option" where
  "pointers view [] = Some []"
| "pointers view (link # links) =
     (case view (rl_value link) of
        None \<Rightarrow> pointers view links
      | Some target \<Rightarrow>
          (case get_existing_id target of
             None \<Rightarrow> None
           | Some id_text \<Rightarrow> map_option (Cons (rl_name link, VString id_text)) (pointers view links)))"

text \<open>
  One owner; the list of properties is part of the state, because an owner that is missing leaves
  its entries in it.
\<close>

definition link_owner :: "('d, 'o) dom_ops \<Rightarrow> referent \<times> ref_link list \<Rightarrow> 'd \<times> (string \<times> 'o variant) list \<Rightarrow>
    (('d \<times> (string \<times> 'o variant) list) \<times> (variant_type + unit)) option" where
  "link_owner D = (\<lambda>(inst_id, properties) (d, prop_list).
     (case pointers (dom_get D d) properties of
        None \<Rightarrow> None
      | Some new_props \<Rightarrow>
          (let prop_list = prop_list @ new_props
           in Some
             (case dom_get D d inst_id of
                None \<Rightarrow> ((d, prop_list), Inr ())
              | Some inst \<Rightarrow>
                  (let without = hm_remove ''Attributes'' (i_properties inst)
                   in case attributes_of inst of
                        Inl ty \<Rightarrow> ((dom_set D d inst_id (inst\<lparr>i_properties := without\<rparr>), prop_list), Inl ty)
                      | Inr attrs \<Rightarrow>
                          (let kept = filter (\<lambda>(name, _). \<not> str_starts_with name REF_POINTER_ATTRIBUTE_PREFIX) attrs;
                               linked = fold (\<lambda>(name, v). btree_insert (REF_POINTER_ATTRIBUTE_PREFIX @ name) v) prop_list kept
                           in ((dom_set D d inst_id (inst\<lparr>i_properties :=
                                  hm_insert ''Attributes'' (VAttributes linked) without\<rparr>), []), Inr ())))))))"

definition link_referents :: "'o id_env \<Rightarrow> ('d, 'o) dom_ops \<Rightarrow> ref_links \<Rightarrow> 'd \<Rightarrow> ('d \<times> (variant_type + unit)) option" where
  "link_referents env D links d =
     (case write_id_attributes env D links d of
        None \<Rightarrow> None
      | Some (d', Inl ty) \<Rightarrow> Some (d', Inl ty)
      | Some (d', Inr _) \<Rightarrow>
          map_option (\<lambda>((d'', _), r). (d'', r))
            (run_steps (link_owner D) (mm_into_iter (rk_prop_links links)) (d', [])))"

end
