(* ===== verification/Syncback_Snapshot.thy ===== *)
theory Syncback_Snapshot
  imports File_Names Fs_Snapshot Hashing Ref_Links
begin

text \<open>
  What one step of syncback works on, \<open>src/src/syncback/snapshot.rs\<close>, the choice of a middleware
  (\<open>get_best_middleware\<close> of \<open>mod.rs\<close>), and the metadata written beside files
  (\<open>from_syncback_snapshot\<close> of \<open>snapshot_middleware/meta_file.rs\<close>).  The environment holds what is
  called of other crates (serializers, the writers of model files, lower case beyond ASCII) and the
  environment of the process: a variable, and the native file system, which two places ask instead
  of the virtual one.
\<close>

datatype 'o syncback_error =
    NameFailed file_name_error
  | NameNotLegal string name_error
  | NoTextProperty string
  | NoParent path
  | NotSerialized string
  | CannotSyncback middleware
  | ScriptTypeNotSupported script_type
  | DuplicateChildren "string list"
  | TooManyDuplicates
  | CsvFailed string
  | ProjectNotLoaded "'o snapshot_error"
  | SnapshotFailed "'o snapshot_error"
  | ClassChanged string path string string
  | PathNotFound path
  | NewChildTwice string string
  | OldChildTwice string string
  | ChildRemoved string string path
  | ChildOnlyInProject string string path
  | ValueNotResolved "'o resolve_error"
  | PatternNotGlob string
  | AttributesNotMap variant_type
  | DirectoryWithoutName path

record ('s, 'd, 'o) syncback_env =
  sb_files :: "('s, 'o) snapshot_env"
  sb_dom :: "('d, 'o) dom_ops"
  sb_hash :: "'o hash_env"
  sb_ids :: "'o id_env"
  sb_model_format :: "string option"
  sb_fs_is_dir :: "path \<Rightarrow> bool"
  sb_fs_exists :: "path \<Rightarrow> bool"
  sb_lowercase :: "string \<Rightarrow> string"
  sb_write_adjacent :: "'o adjacent_metadata \<Rightarrow> string option"
  sb_write_directory :: "'o directory_metadata \<Rightarrow> string option"
  sb_write_model :: "'o json_model \<Rightarrow> string option"
  sb_write_project :: "'o project \<Rightarrow> string option"
  sb_write_rbxm :: "'d \<Rightarrow> referent \<Rightarrow> string option"
  sb_write_rbxmx :: "'d \<Rightarrow> referent \<Rightarrow> string option"

record ('d, 'o) syncback_data =
  sd_old_tree :: "('d, 'o) rojo_tree"
  sd_new_tree :: 'd
  sd_project :: "'o project"

record syncback_snapshot =
  ss_old :: "referent option"
  ss_new :: referent
  ss_path :: path
  ss_middleware :: "middleware option"

record 'o syncback_return =
  ret_fs :: fs_snapshot
  ret_children :: "syncback_snapshot list"
  ret_removed :: "('o inst \<times> 'o instance_metadata) list"

type_synonym ('s, 'o, 'a) syncback_action = "('s vfs, 'o syncback_error, 'a) action"


section \<open>Access to the trees\<close>

definition get_new_instance :: "('s, 'd, 'o) syncback_env \<Rightarrow> ('d, 'o) syncback_data \<Rightarrow> referent \<Rightarrow> 'o inst option" where
  "get_new_instance env sd r = dom_get (sb_dom env) (sd_new_tree sd) r"

definition new_inst :: "('s, 'd, 'o) syncback_env \<Rightarrow> ('d, 'o) syncback_data \<Rightarrow> syncback_snapshot \<Rightarrow> 'o inst option" where
  "new_inst env sd s = get_new_instance env sd (ss_new s)"

text \<open>The outer option is the panic for an instance without metadata.\<close>

definition get_old_instance :: "('s, 'd, 'o) syncback_env \<Rightarrow> ('d, 'o) syncback_data \<Rightarrow> referent \<Rightarrow>
    ('o inst \<times> 'o instance_metadata) option option" where
  "get_old_instance env sd r = get_instance (sb_dom env) (sd_old_tree sd) r"

definition old_inst :: "('s, 'd, 'o) syncback_env \<Rightarrow> ('d, 'o) syncback_data \<Rightarrow> syncback_snapshot \<Rightarrow>
    ('o inst \<times> 'o instance_metadata) option option" where
  "old_inst env sd s = (case ss_old s of None \<Rightarrow> Some None | Some old \<Rightarrow> get_old_instance env sd old)"

definition get_new_inst_path :: "('s, 'd, 'o) syncback_env \<Rightarrow> ('d, 'o) syncback_data \<Rightarrow> referent \<Rightarrow> string option" where
  "get_new_inst_path env sd r = inst_path (sb_dom env) (sd_new_tree sd) r"

definition get_old_inst_path :: "('s, 'd, 'o) syncback_env \<Rightarrow> ('d, 'o) syncback_data \<Rightarrow> referent \<Rightarrow> string option" where
  "get_old_inst_path env sd r = inst_path (sb_dom env) (rt_inner (sd_old_tree sd)) r"

definition filter_out_property :: "'o inst \<Rightarrow> string \<Rightarrow> bool" where
  "filter_out_property inst prop_name =
     (if i_class inst \<in> {''Script'', ''LocalScript'', ''ModuleScript''}
      then prop_name = ''Source'' \<or> prop_name = ''ScriptGuid''
      else if i_class inst = ''LocalizationTable'' then prop_name = ''Contents''
      else if i_class inst = ''StringValue'' then prop_name = ''Value''
      else False)"

definition get_path_filtered_properties :: "('s, 'd, 'o) syncback_env \<Rightarrow> ('d, 'o) syncback_data \<Rightarrow> referent \<Rightarrow>
    (string, 'o variant) hash_map option" where
  "get_path_filtered_properties env sd new_ref =
     Option.bind (get_new_instance env sd new_ref) (\<lambda>inst.
       map_option (filter (\<lambda>(name, _). \<not> filter_out_property inst name))
         (filter_properties (ha_classes (sb_hash env)) (sd_project sd) inst))"


section \<open>Middleware and paths\<close>

definition JSON_MODEL_CLASSES :: "string list" where
  "JSON_MODEL_CLASSES =
     [''Actor'', ''Sound'', ''SoundGroup'', ''Sky'', ''Atmosphere'', ''BloomEffect'', ''BlurEffect'',
      ''ColorCorrectionEffect'', ''DepthOfFieldEffect'', ''SunRaysEffect'', ''ParticleEmitter'', ''TextChannel'',
      ''TextChatCommand'', ''ChatWindowConfiguration'', ''ChatInputBarConfiguration'', ''BubbleChatConfiguration'',
      ''ChannelTabsConfiguration'', ''RemoteEvent'', ''UnreliableRemoteEvent'', ''RemoteFunction'', ''BindableEvent'',
      ''BindableFunction'']"

definition model_middleware :: "string option \<Rightarrow> middleware" where
  "model_middleware debug_format =
     (if debug_format = Some ''1'' then Rbxmx else if debug_format = Some ''2'' then JsonModel else Rbxm)"

definition middleware_of_class :: "string \<Rightarrow> middleware" where
  "middleware_of_class c =
     (if c \<in> set JSON_MODEL_CLASSES then JsonModel
      else if c \<in> {''Folder'', ''Configuration'', ''Tool''} then DirMw
      else if c = ''StringValue'' then Text
      else if c = ''Script'' then ServerScript
      else if c = ''LocalScript'' then ClientScript
      else if c = ''ModuleScript'' then ModuleScript
      else if c = ''LocalizationTable'' then Csv
      else if str_ends_with c ''Value'' then JsonModel
      else Rbxm)"

definition middleware_with_children :: "middleware \<Rightarrow> middleware" where
  "middleware_with_children mw =
     (case mw of
        ServerScript \<Rightarrow> ServerScriptDir
      | ClientScript \<Rightarrow> ClientScriptDir
      | PluginScript \<Rightarrow> PluginScriptDir
      | ModuleScript \<Rightarrow> ModuleScriptDir
      | Csv \<Rightarrow> CsvDir
      | JsonModel \<Rightarrow> DirMw
      | Text \<Rightarrow> DirMw
      | _ \<Rightarrow> mw)"

definition get_best_middleware :: "('s, 'd, 'o) syncback_env \<Rightarrow> ('d, 'o) syncback_data \<Rightarrow> syncback_snapshot \<Rightarrow> middleware option" where
  "get_best_middleware env sd s =
     Option.bind (old_inst env sd s) (\<lambda>old.
     Option.bind (new_inst env sd s) (\<lambda>inst.
       Some (case ss_middleware s of
          Some override \<Rightarrow> override
        | None \<Rightarrow>
            (case Option.bind old (\<lambda>(_, metadata). md_middleware metadata) of
               Some old_middleware \<Rightarrow> old_middleware
             | None \<Rightarrow>
                 (let mw = middleware_of_class (i_class inst);
                      mw = (if i_children inst \<noteq> [] then middleware_with_children mw else mw)
                  in if mw = Rbxm then model_middleware (sb_model_format env) else mw)))))"

text \<open>
  \<open>Path::new\<close> on a text, as the library splits it into components: empty pieces and later dots fall
  away.
\<close>

definition piece_components :: "string \<Rightarrow> component list" where
  "piece_components piece =
     (if piece = [] \<or> piece = ''.'' then [] else if piece = ''..'' then [ParentDir] else [Normal piece])"

definition path_of_string :: "string \<Rightarrow> path" where
  "path_of_string s =
     (let pieces = split_on CHR ''/'' s;
          comps = concat (map piece_components pieces)
      in if str_starts_with s ''/'' then RootDir # comps
         else if hd pieces = ''.'' then CurDir # comps
         else comps)"

definition join_name :: "path \<Rightarrow> string \<Rightarrow> path" where
  "join_name p name = path_join p (path_of_string name)"

text \<open>\<open>with_base_path\<close>; \<open>with_joined_path\<close> is the same on the snapshot's own path.\<close>

definition with_base_path :: "('s, 'd, 'o) syncback_env \<Rightarrow> ('d, 'o) syncback_data \<Rightarrow> path \<Rightarrow> referent \<Rightarrow> referent option \<Rightarrow>
    ('s, 'o, syncback_snapshot) syncback_action" where
  "with_base_path env sd base_path new_ref old_ref =
     (let s = \<lparr>ss_old = old_ref, ss_new = new_ref, ss_path = [], ss_middleware = None\<rparr>
      in and_then (of_panicking (get_best_middleware env sd s)) (\<lambda>mw.
         and_then (of_panicking (new_inst env sd s)) (\<lambda>inst.
         and_then (of_panicking (old_inst env sd s)) (\<lambda>old.
         and_then (of_panicking (name_for_inst mw inst old)) (\<lambda>r.
         and_then (of_result (map_error NameFailed r)) (\<lambda>name.
         yields (s\<lparr>ss_path := join_name base_path name\<rparr>)))))))"

definition with_joined_path :: "('s, 'd, 'o) syncback_env \<Rightarrow> ('d, 'o) syncback_data \<Rightarrow> syncback_snapshot \<Rightarrow> referent \<Rightarrow>
    referent option \<Rightarrow> ('s, 'o, syncback_snapshot) syncback_action" where
  "with_joined_path env sd s new_ref old_ref = with_base_path env sd (ss_path s) new_ref old_ref"

definition with_new_path :: "path \<Rightarrow> referent \<Rightarrow> referent option \<Rightarrow> syncback_snapshot" where
  "with_new_path p new_ref old_ref = \<lparr>ss_old = old_ref, ss_new = new_ref, ss_path = p, ss_middleware = None\<rparr>"


section \<open>Metadata\<close>

text \<open>The values of properties and of attributes, those of Roblox left out.\<close>

definition written_attributes :: "(string \<times> 'o variant) list \<Rightarrow> (string \<times> 'o unresolved_value) list \<Rightarrow>
    (string \<times> 'o unresolved_value) list" where
  "written_attributes attrs attributes =
     fold (\<lambda>(name, v) m. if str_starts_with name ''RBX'' then m else hm_insert name (from_variant_unambiguous v) m)
       attrs attributes"

definition written_values :: "'o resolve_env \<Rightarrow> string \<Rightarrow> (string \<times> 'o variant) list \<Rightarrow>
    (string \<times> 'o unresolved_value) list \<times> (string \<times> 'o unresolved_value) list" where
  "written_values env class_name props =
     fold (\<lambda>(name, v) (properties, attributes).
       (case v of
          VAttributes attrs \<Rightarrow> (properties, written_attributes attrs attributes)
        | _ \<Rightarrow> (hm_insert name (from_variant env v class_name name) properties, attributes)))
       props ([], [])"

text \<open>
  The fields both kinds of metadata share; nothing for an instance that comes from another source
  than the path.  The id is never kept.
\<close>

definition metadata_from_syncback :: "('s, 'd, 'o) syncback_env \<Rightarrow> ('d, 'o) syncback_data \<Rightarrow> syncback_snapshot \<Rightarrow> path \<Rightarrow>
    'o adjacent_metadata option option" where
  "metadata_from_syncback env sd s p =
     Option.bind (old_inst env sd s) (\<lambda>old.
       if (case Option.bind old (\<lambda>(_, md). md_instigating_source md) of
             Some source \<Rightarrow> source_path source \<noteq> p | None \<Rightarrow> False)
       then Some None
       else
         Option.bind (new_inst env sd s) (\<lambda>inst.
         Option.bind (get_path_filtered_properties env sd (ss_new s)) (\<lambda>props.
           case written_values (se_resolve (sb_files env)) (i_class inst) props of
             (properties, attributes) \<Rightarrow>
               Some (Some \<lparr>am_schema = Option.bind old (\<lambda>(_, md). md_schema md),
                 am_id = None,
                 am_ignore_unknown_instances =
                   (if case old of Some (_, md) \<Rightarrow> md_ignore_unknown_instances md | None \<Rightarrow> False then Some True else None),
                 am_properties = properties,
                 am_attributes = attributes,
                 am_path = p\<rparr>))))"

definition adjacent_from_syncback :: "('s, 'd, 'o) syncback_env \<Rightarrow> ('d, 'o) syncback_data \<Rightarrow> syncback_snapshot \<Rightarrow> path \<Rightarrow>
    'o adjacent_metadata option option" where
  "adjacent_from_syncback env sd s p = metadata_from_syncback env sd s p"

definition directory_from_syncback :: "('s, 'd, 'o) syncback_env \<Rightarrow> ('d, 'o) syncback_data \<Rightarrow> syncback_snapshot \<Rightarrow> path \<Rightarrow>
    'o directory_metadata option option" where
  "directory_from_syncback env sd s p =
     map_option (map_option (\<lambda>m. adjacent_metadata.extend m \<lparr>dm_class_name = None\<rparr>)) (metadata_from_syncback env sd s p)"

end
