(* ===== verification/Syncback_Middleware.thy ===== *)
theory Syncback_Middleware
  imports Syncback_Snapshot
begin

text \<open>
  From instances back to files: the functions \<open>syncback_*\<close> of \<open>src/src/snapshot_middleware\<close> and
  \<open>Middleware::syncback\<close> of its \<open>mod.rs\<close>, except for projects.
\<close>

definition fs_with_added_file :: "path \<Rightarrow> string \<Rightarrow> fs_snapshot" where
  "fs_with_added_file p contents = fs_add_file p contents fs_snapshot_new"

definition only_files :: "fs_snapshot \<Rightarrow> 'o syncback_return" where
  "only_files fs = \<lparr>ret_fs = fs, ret_children = [], ret_removed = []\<rparr>"

definition add_to_return :: "path \<Rightarrow> string \<Rightarrow> 'o syncback_return \<Rightarrow> 'o syncback_return" where
  "add_to_return p contents r = r\<lparr>ret_fs := fs_add_file p contents (ret_fs r)\<rparr>"

definition serialized :: "string \<Rightarrow> string option \<Rightarrow> ('s, 'o, string) syncback_action" where
  "serialized what r = of_result (case r of None \<Rightarrow> Inl (NotSerialized what) | Some text \<Rightarrow> Inr text)"

text \<open>The contents of a file that holds one text property.\<close>

definition text_property :: "'o inst \<Rightarrow> string \<Rightarrow> ('s, 'o, string) syncback_action" where
  "text_property inst name =
     (case hm_get (i_properties inst) name of
        Some (VString source) \<Rightarrow> yields source
      | _ \<Rightarrow> fails (NoTextProperty name))"


section \<open>Single files\<close>

text \<open>
  The meta file beside a file, named after the instance; \<open>special\<close> is the property the file itself
  holds.
\<close>

definition add_adjacent_metadata :: "('s, 'd, 'o) syncback_env \<Rightarrow> ('d, 'o) syncback_data \<Rightarrow> syncback_snapshot \<Rightarrow> 'o inst \<Rightarrow>
    string \<Rightarrow> fs_snapshot \<Rightarrow> ('s, 'o, fs_snapshot) syncback_action" where
  "add_adjacent_metadata env sd s inst special fs =
     and_then (of_panicking (adjacent_from_syncback env sd s (ss_path s))) (\<lambda>found.
       case found of
         None \<Rightarrow> yields fs
       | Some found_meta \<Rightarrow>
           (let meta = found_meta\<lparr>am_properties := hm_remove special (am_properties found_meta)\<rparr>
            in if adjacent_is_empty meta then yields fs
               else
                 and_then (of_result (case path_parent (ss_path s) of
                     None \<Rightarrow> Inl (NoParent (ss_path s)) | Some parent \<Rightarrow> Inr parent)) (\<lambda>parent.
                 and_then (serialized ''metadata'' (sb_write_adjacent env meta)) (\<lambda>text.
                 yields (fs_add_file (join_name parent (i_name inst @ ''.meta.json'')) text fs)))))"

definition syncback_lua :: "('s, 'd, 'o) syncback_env \<Rightarrow> ('d, 'o) syncback_data \<Rightarrow> syncback_snapshot \<Rightarrow>
    ('s, 'o, 'o syncback_return) syncback_action" where
  "syncback_lua env sd s =
     and_then (of_panicking (new_inst env sd s)) (\<lambda>inst.
     and_then (text_property inst ''Source'') (\<lambda>contents.
     and_then (add_adjacent_metadata env sd s inst ''Source'' (fs_with_added_file (ss_path s) contents)) (\<lambda>fs.
     yields (only_files fs))))"

definition syncback_txt :: "('s, 'd, 'o) syncback_env \<Rightarrow> ('d, 'o) syncback_data \<Rightarrow> syncback_snapshot \<Rightarrow>
    ('s, 'o, 'o syncback_return) syncback_action" where
  "syncback_txt env sd s =
     and_then (of_panicking (new_inst env sd s)) (\<lambda>inst.
     and_then (text_property inst ''Value'') (\<lambda>contents.
     and_then (add_adjacent_metadata env sd s inst ''Value'' (fs_with_added_file (ss_path s) contents)) (\<lambda>fs.
     yields (only_files fs))))"

definition syncback_csv :: "('s, 'd, 'o) syncback_env \<Rightarrow> ('d, 'o) syncback_data \<Rightarrow> syncback_snapshot \<Rightarrow>
    ('s, 'o, 'o syncback_return) syncback_action" where
  "syncback_csv env sd s =
     and_then (of_panicking (new_inst env sd s)) (\<lambda>inst.
     and_then (text_property inst ''Contents'') (\<lambda>contents.
     and_then (of_result (map_error CsvFailed (localization_to_csv (se_csv (sb_files env)) contents))) (\<lambda>csv.
     and_then (add_adjacent_metadata env sd s inst ''Contents'' (fs_with_added_file (ss_path s) csv)) (\<lambda>fs.
     yields (only_files fs)))))"

definition syncback_rbxm :: "('s, 'd, 'o) syncback_env \<Rightarrow> ('d, 'o) syncback_data \<Rightarrow> syncback_snapshot \<Rightarrow>
    ('s, 'o, 'o syncback_return) syncback_action" where
  "syncback_rbxm env sd s =
     and_then (of_panicking (new_inst env sd s)) (\<lambda>inst.
     and_then (serialized ''rbxm'' (sb_write_rbxm env (sd_new_tree sd) (i_referent inst))) (\<lambda>bytes.
     yields (only_files (fs_with_added_file (ss_path s) bytes))))"

definition syncback_rbxmx :: "('s, 'd, 'o) syncback_env \<Rightarrow> ('d, 'o) syncback_data \<Rightarrow> syncback_snapshot \<Rightarrow>
    ('s, 'o, 'o syncback_return) syncback_action" where
  "syncback_rbxmx env sd s =
     and_then (of_panicking (new_inst env sd s)) (\<lambda>inst.
     and_then (serialized ''rbxmx'' (sb_write_rbxmx env (sd_new_tree sd) (i_referent inst))) (\<lambda>bytes.
     yields (only_files (fs_with_added_file (ss_path s) bytes))))"


section \<open>Model files\<close>

text \<open>
  \<open>json_model_from_pair\<close> on a list of instances, the children of one: a missing instance and
  recursion without end are \<open>None\<close>.
\<close>

partial_function (option) json_models :: "'o resolve_env \<Rightarrow> 'o class_env \<Rightarrow> 'o project \<Rightarrow> 'o dom_view \<Rightarrow> referent list \<Rightarrow>
    'o json_model list option" where
  "json_models env classes project view refs =
     (case refs of
        [] \<Rightarrow> Some []
      | new # rest \<Rightarrow>
          (case view new of
             None \<Rightarrow> None
           | Some inst \<Rightarrow>
               (case filter_properties classes project inst of
                  None \<Rightarrow> None
                | Some props \<Rightarrow>
                    Option.bind (json_models env classes project view (i_children inst)) (\<lambda>children.
                    Option.bind (json_models env classes project view rest) (\<lambda>models.
                      case written_values env (i_class inst) props of
                        (properties, attributes) \<Rightarrow>
                          Some (JsonModelNode None (Some (i_name inst)) (i_class inst) None children
                            properties attributes # models))))))"

definition json_model_from_pair :: "('s, 'd, 'o) syncback_env \<Rightarrow> ('d, 'o) syncback_data \<Rightarrow> referent \<Rightarrow> 'o json_model option" where
  "json_model_from_pair env sd new =
     map_option hd (json_models (se_resolve (sb_files env)) (ha_classes (sb_hash env)) (sd_project sd)
       (dom_get (sb_dom env) (sd_new_tree sd)) [new])"

definition syncback_json_model :: "('s, 'd, 'o) syncback_env \<Rightarrow> ('d, 'o) syncback_data \<Rightarrow> syncback_snapshot \<Rightarrow>
    ('s, 'o, 'o syncback_return) syncback_action" where
  "syncback_json_model env sd s =
     and_then (of_panicking (json_model_from_pair env sd (ss_new s))) (\<lambda>model.
     and_then (of_panicking (old_inst env sd s)) (\<lambda>old.
       let model = JsonModelNode
             (case old of Some (_, md) \<Rightarrow> md_schema md | None \<Rightarrow> jm_schema model) None (jm_class_name model) (jm_id model)
             (jm_children model) (jm_properties model) (jm_attributes model)
       in and_then (serialized ''model'' (sb_write_model env model)) (\<lambda>text.
          yields (only_files (fs_with_added_file (ss_path s) text)))))"


section \<open>Directories\<close>

text \<open>The names met so far in lower case, and the names met again.\<close>

fun duplicate_names :: "(string \<Rightarrow> string) \<Rightarrow> string list \<Rightarrow> string list \<Rightarrow> string list \<Rightarrow> string list" where
  "duplicate_names lower [] seen dups = dups"
| "duplicate_names lower (name # names) seen dups =
     (if lower name \<in> set seen then duplicate_names lower names seen (set_insert name dups)
      else duplicate_names lower names (lower name # seen) dups)"

fun lookup_instances :: "('r \<Rightarrow> 'i option) \<Rightarrow> 'r list \<Rightarrow> 'i list option" where
  "lookup_instances f [] = Some []"
| "lookup_instances f (r # rs) =
     (case f r of None \<Rightarrow> None | Some i \<Rightarrow> map_option (Cons i) (lookup_instances f rs))"

text \<open>A child that also exists in the old tree, unless it is not on disk or belongs to a project file.\<close>

definition skipped_child :: "'o instance_metadata \<Rightarrow> bool" where
  "skipped_child md \<longleftrightarrow>
     md_relevant_paths md = [] \<or>
     (case md_instigating_source md of Some (SourceNode _ _ _ _) \<Rightarrow> True | _ \<Rightarrow> False)"

text \<open>The loop over the new children; it leaves the old children that were not met.\<close>

fun match_children :: "('s, 'd, 'o) syncback_env \<Rightarrow> ('d, 'o) syncback_data \<Rightarrow> syncback_snapshot \<Rightarrow>
    (referent \<times> 'o inst) list \<Rightarrow> (string, 'o inst \<times> 'o instance_metadata) hash_map \<Rightarrow>
    ('s, 'o, syncback_snapshot list \<times> (string, 'o inst \<times> 'o instance_metadata) hash_map) syncback_action" where
  "match_children env sd s [] old_child_map = yields ([], old_child_map)"
| "match_children env sd s ((new_ref, new_child) # news) old_child_map =
     (case hm_get old_child_map (i_name new_child) of
        Some (old_child, md) \<Rightarrow>
          (let remaining = hm_remove (i_name new_child) old_child_map
           in if skipped_child md then match_children env sd s news remaining
              else
                and_then (with_joined_path env sd s new_ref (Some (i_referent old_child))) (\<lambda>child.
                and_then (match_children env sd s news remaining) (\<lambda>(children, left).
                yields (child # children, left))))
      | None \<Rightarrow>
          and_then (with_joined_path env sd s new_ref None) (\<lambda>child.
          and_then (match_children env sd s news old_child_map) (\<lambda>(children, left).
          yields (child # children, left))))"

definition old_children_by_name :: "('s, 'd, 'o) syncback_env \<Rightarrow> ('d, 'o) syncback_data \<Rightarrow> 'o inst \<Rightarrow>
    (string, 'o inst \<times> 'o instance_metadata) hash_map option" where
  "old_children_by_name env sd old =
     map_option (\<lambda>children. fold (\<lambda>(inst, md). hm_insert (i_name inst) (inst, md)) children [])
       (lookup_instances (expect_instance (sb_dom env) (sd_old_tree sd)) (i_children old))"

text \<open>Whether the directory itself has to be created.\<close>

definition directory_changed :: "('s, 'd, 'o) syncback_env \<Rightarrow> ('d, 'o) syncback_data \<Rightarrow> syncback_snapshot \<Rightarrow> bool option" where
  "directory_changed env sd s =
     (case ss_old s of
        None \<Rightarrow> Some True
      | Some old_ref \<Rightarrow>
          (case hash_instance (sb_hash env) (sd_project sd) (sb_dom env) (sd_new_tree sd) (ss_new s) of
             Some (Some new_hash) \<Rightarrow>
               (case hash_instance (sb_hash env) (sd_project sd) (sb_dom env) (rt_inner (sd_old_tree sd)) old_ref of
                  Some (Some old_hash) \<Rightarrow> Some (old_hash \<noteq> new_hash)
                | _ \<Rightarrow> None)
           | _ \<Rightarrow> None))"

definition syncback_dir_no_meta :: "('s, 'd, 'o) syncback_env \<Rightarrow> ('d, 'o) syncback_data \<Rightarrow> syncback_snapshot \<Rightarrow>
    ('s, 'o, 'o syncback_return) syncback_action" where
  "syncback_dir_no_meta env sd s =
     and_then (of_panicking (new_inst env sd s)) (\<lambda>inst.
     and_then (of_panicking (lookup_instances (get_new_instance env sd) (i_children inst))) (\<lambda>children.
       let dups = duplicate_names (sb_lowercase env) (map i_name children) [] []
       in if dups \<noteq> [] then fails (if length dups \<le> 25 then DuplicateChildren dups else TooManyDuplicates)
          else
            and_then (of_panicking (old_inst env sd s)) (\<lambda>old.
            and_then
              (case old of
                 Some (old_instance, _) \<Rightarrow>
                   and_then (of_panicking (old_children_by_name env sd old_instance)) (\<lambda>old_child_map.
                   and_then (match_children env sd s (zip (i_children inst) children) old_child_map) (\<lambda>(matched, left).
                   yields (matched, hm_values left)))
               | None \<Rightarrow>
                   and_then (for_each (\<lambda>r. with_joined_path env sd s r None) (i_children inst)) (\<lambda>matched.
                   yields (matched, []))) (\<lambda>(matched, removed).
            and_then (of_panicking (directory_changed env sd s)) (\<lambda>changed.
            yields \<lparr>ret_fs = (if changed then fs_add_dir (ss_path s) fs_snapshot_new else fs_snapshot_new),
              ret_children = matched, ret_removed = removed\<rparr>)))))"

text \<open>The meta file in a directory.\<close>

definition add_directory_metadata :: "('s, 'd, 'o) syncback_env \<Rightarrow> syncback_snapshot \<Rightarrow> 'o directory_metadata option \<Rightarrow>
    'o syncback_return \<Rightarrow> ('s, 'o, 'o syncback_return) syncback_action" where
  "add_directory_metadata env s found r =
     (case found of
        None \<Rightarrow> yields r
      | Some meta \<Rightarrow>
          (if directory_is_empty meta then yields r
           else
             and_then (serialized ''init.meta.json'' (sb_write_directory env meta)) (\<lambda>text.
             yields (add_to_return (ss_path s @ [Normal ''init.meta.json'']) text r))))"

definition EMPTY_DIR_KEEP_NAME :: string where "EMPTY_DIR_KEEP_NAME = ''.gitkeep''"

definition syncback_dir :: "('s, 'd, 'o) syncback_env \<Rightarrow> ('d, 'o) syncback_data \<Rightarrow> syncback_snapshot \<Rightarrow>
    ('s, 'o, 'o syncback_return) syncback_action" where
  "syncback_dir env sd s =
     and_then (of_panicking (new_inst env sd s)) (\<lambda>inst.
     and_then (syncback_dir_no_meta env sd s) (\<lambda>r.
     and_then (of_panicking (directory_from_syncback env sd s (ss_path s))) (\<lambda>found.
       let meta = map_option (\<lambda>m. if i_class inst \<noteq> ''Folder'' then m\<lparr>dm_class_name := Some (i_class inst)\<rparr> else m) found
       in and_then (add_directory_metadata env s meta r) (\<lambda>r.
          let metadata_empty = (case meta of Some m \<Rightarrow> directory_is_empty m | None \<Rightarrow> False)
          in yields (if i_children inst = [] \<and> metadata_empty
                     then add_to_return (ss_path s @ [Normal EMPTY_DIR_KEEP_NAME]) [] r else r)))))"

text \<open>A script with children: the metadata is asked for with the path of the init file.\<close>

definition init_script_name :: "script_type \<Rightarrow> string option" where
  "init_script_name ty =
     (case ty of
        Server \<Rightarrow> Some ''init.server.luau''
      | Client \<Rightarrow> Some ''init.client.luau''
      | Module \<Rightarrow> Some ''init.luau''
      | Plugin \<Rightarrow> Some ''init.plugin.luau''
      | _ \<Rightarrow> None)"

definition without_property :: "string \<Rightarrow> 'o directory_metadata \<Rightarrow> 'o directory_metadata" where
  "without_property name m = m\<lparr>am_properties := hm_remove name (am_properties m)\<rparr>"

definition syncback_lua_init :: "('s, 'd, 'o) syncback_env \<Rightarrow> ('d, 'o) syncback_data \<Rightarrow> script_type \<Rightarrow> syncback_snapshot \<Rightarrow>
    ('s, 'o, 'o syncback_return) syncback_action" where
  "syncback_lua_init env sd ty s =
     and_then (of_panicking (new_inst env sd s)) (\<lambda>inst.
       case init_script_name ty of
         None \<Rightarrow> fails (ScriptTypeNotSupported ty)
       | Some init_name \<Rightarrow>
           (let p = ss_path s @ [Normal init_name]
            in and_then (text_property inst ''Source'') (\<lambda>contents.
               and_then (syncback_dir_no_meta env sd s) (\<lambda>r.
               and_then (of_panicking (directory_from_syncback env sd s p)) (\<lambda>found.
               add_directory_metadata env s (map_option (without_property ''Source'') found)
                 (add_to_return p contents r))))))"

definition syncback_csv_init :: "('s, 'd, 'o) syncback_env \<Rightarrow> ('d, 'o) syncback_data \<Rightarrow> syncback_snapshot \<Rightarrow>
    ('s, 'o, 'o syncback_return) syncback_action" where
  "syncback_csv_init env sd s =
     and_then (of_panicking (new_inst env sd s)) (\<lambda>inst.
     and_then (text_property inst ''Contents'') (\<lambda>contents.
     and_then (syncback_dir_no_meta env sd s) (\<lambda>r.
     and_then (of_result (map_error CsvFailed (localization_to_csv (se_csv (sb_files env)) contents))) (\<lambda>csv.
     and_then (of_panicking (directory_from_syncback env sd s (ss_path s))) (\<lambda>found.
     add_directory_metadata env s (map_option (without_property ''Contents'') found)
       (add_to_return (ss_path s @ [Normal ''init.csv'']) csv r))))))"

end
