(* ===== verification/Syncback_Project.thy ===== *)
theory Syncback_Project
  imports Syncback_Middleware
begin

text \<open>
  Syncback of project files, \<open>syncback_project\<close> of \<open>src/src/snapshot_middleware/project.rs\<close>, and the
  choice between the functions, \<open>Middleware::syncback\<close> of \<open>mod.rs\<close>.  The nodes that wait in the
  queue are named by their addresses, the names of the children from the root of the project tree, so
  that a node can be changed in place.
\<close>

section \<open>Nodes of a project tree\<close>

fun node_at :: "string list \<Rightarrow> 'o project_node \<Rightarrow> 'o project_node option" where
  "node_at [] node = Some node"
| "node_at (name # names) node = Option.bind (map_of (pj_children node) name) (node_at names)"

definition set_values :: "(string \<times> 'o unresolved_value) list \<Rightarrow> (string \<times> 'o unresolved_value) list \<Rightarrow>
    'o project_node \<Rightarrow> 'o project_node" where
  "set_values properties attributes node =
     ProjectNode (pj_class_name node) (pj_id node) (pj_children node) properties attributes
       (pj_ignore_unknown_instances node) (pj_path node)"

fun set_values_at :: "string list \<Rightarrow> (string \<times> 'o unresolved_value) list \<Rightarrow> (string \<times> 'o unresolved_value) list \<Rightarrow>
    'o project_node \<Rightarrow> 'o project_node" where
  "set_values_at [] properties attributes node = set_values properties attributes node"
| "set_values_at (name # names) properties attributes node =
     ProjectNode (pj_class_name node) (pj_id node)
       (map (\<lambda>(k, child). (k, if k = name then set_values_at names properties attributes child else child)) (pj_children node))
       (pj_properties node) (pj_attributes node) (pj_ignore_unknown_instances node) (pj_path node)"

fun node_count :: "'o project_node \<Rightarrow> nat" where
  "node_count (ProjectNode cl i children ps as ign p) = Suc (sum_list (map (\<lambda>(_, child). node_count child) children))"


section \<open>The values of a node\<close>

text \<open>
  \<open>project_node_property_syncback\<close>: the new values, and whether properties now at the default of
  their class were taken out.
\<close>

definition node_attributes :: "(string \<times> 'o variant) list \<Rightarrow> (string \<times> 'o unresolved_value) list \<Rightarrow>
    (string \<times> 'o unresolved_value) list" where
  "node_attributes attrs attributes =
     fold (\<lambda>(name, v) m. if str_starts_with name ''RBX'' then m else btree_insert name (from_variant_unambiguous v) m)
       attrs attributes"

definition project_node_property_syncback :: "'o resolve_env \<Rightarrow> 'o class_env \<Rightarrow> (string, 'o variant) hash_map \<Rightarrow> 'o inst \<Rightarrow>
    'o project_node \<Rightarrow> (string \<times> 'o unresolved_value) list \<times> (string \<times> 'o unresolved_value) list \<times> bool" where
  "project_node_property_syncback env classes filtered inst node =
     (let (properties, attributes) =
            fold (\<lambda>(name, v) (properties, attributes).
              (case v of
                 VAttributes attrs \<Rightarrow> (properties, node_attributes attrs attributes)
               | _ \<Rightarrow> (btree_insert name (from_variant env v (i_class inst) name) properties, attributes)))
              filtered (pj_properties node, []);
          stale = (\<lambda>name. \<not> hm_contains_key filtered name \<and>
            (case hm_get (ce_classes classes) (i_class inst) of
               Some data \<Rightarrow> hm_contains_key (cl_defaults data) name | None \<Rightarrow> False));
          kept = filter (\<lambda>(name, _). \<not> stale name) properties
      in (kept, attributes, length kept < length properties))"

text \<open>Whether a value of the node differs from the old instance; the outer option is a panic.\<close>

fun properties_differ :: "'o resolve_env \<Rightarrow> 'o variant_env \<Rightarrow> 'o inst \<Rightarrow> (string \<times> 'o unresolved_value) list \<Rightarrow>
    ('o resolve_error + bool) option" where
  "properties_differ env venv inst [] = Some (Inr False)"
| "properties_differ env venv inst ((name, unresolved) # props) =
     (case hm_get (i_properties inst) name of
        None \<Rightarrow> Some (Inr True)
      | Some inst_value \<Rightarrow>
          (case resolve env unresolved (i_class inst) name of
             None \<Rightarrow> None
           | Some (Inl e) \<Rightarrow> Some (Inl e)
           | Some (Inr node_value) \<Rightarrow>
               (case variant_eq venv inst_value node_value of
                  None \<Rightarrow> None
                | Some False \<Rightarrow> Some (Inr True)
                | Some True \<Rightarrow> properties_differ env venv inst props)))"

fun attributes_differ :: "'o variant_env \<Rightarrow> (string \<times> 'o variant) list \<Rightarrow> (string \<times> 'o unresolved_value) list \<Rightarrow>
    ('o resolve_error + bool) option" where
  "attributes_differ venv inst_attributes [] = Some (Inr False)"
| "attributes_differ venv inst_attributes ((name, unresolved) # attrs) =
     (case hm_get inst_attributes name of
        None \<Rightarrow> Some (Inr True)
      | Some inst_value \<Rightarrow>
          (case resolve_unambiguous unresolved of
             Inl e \<Rightarrow> Some (Inl e)
           | Inr node_value \<Rightarrow>
               (case variant_eq venv inst_value node_value of
                  None \<Rightarrow> None
                | Some False \<Rightarrow> Some (Inr True)
                | Some True \<Rightarrow> attributes_differ venv inst_attributes attrs)))"

definition project_node_should_reserialize :: "'o resolve_env \<Rightarrow> 'o variant_env \<Rightarrow> (string \<times> 'o unresolved_value) list \<Rightarrow>
    (string \<times> 'o unresolved_value) list \<Rightarrow> 'o inst \<Rightarrow> ('o resolve_error + bool) option" where
  "project_node_should_reserialize env venv node_props node_attrs inst =
     (case properties_differ env venv inst node_props of
        None \<Rightarrow> None
      | Some (Inl e) \<Rightarrow> Some (Inl e)
      | Some (Inr True) \<Rightarrow> Some (Inr True)
      | Some (Inr False) \<Rightarrow>
          (case hm_get (i_properties inst) ''Attributes'' of
             Some (VAttributes inst_attributes) \<Rightarrow>
               (if length node_attrs \<noteq> length inst_attributes then Some (Inr True)
                else attributes_differ venv inst_attributes node_attrs)
           | Some _ \<Rightarrow> Some (Inr True)
           | None \<Rightarrow> Some (Inr (node_attrs \<noteq> []))))"


section \<open>One node\<close>

record 'o queued_node =
  qn_address :: "string list"
  qn_old :: "'o inst \<times> 'o instance_metadata"
  qn_new :: "'o inst"

record 'o project_run =
  pr_tree :: "'o project_node"
  pr_snapshots :: "syncback_snapshot list"
  pr_removed :: "('o inst \<times> 'o instance_metadata) list"
  pr_paths :: "(referent, path) hash_map"
  pr_changed :: "((string \<times> 'o unresolved_value) list \<times> (string \<times> 'o unresolved_value) list \<times> 'o inst) list"
  pr_stale :: bool

definition mapping_error :: "('e \<Rightarrow> 'f) \<Rightarrow> ('v, 'e, 'a) action \<Rightarrow> ('v, 'f, 'a) action" where
  "mapping_error f m = (\<lambda>v.
     case m v of
       (v', Done x) \<Rightarrow> (v', Done x)
     | (v', Failed e) \<Rightarrow> (v', Failed (f e))
     | (v', Panics) \<Rightarrow> (v', Panics)
     | (v', OutOfFuel) \<Rightarrow> (v', OutOfFuel))"

definition middleware_of_path :: "('s, 'd, 'o) syncback_env \<Rightarrow> sync_rule list \<Rightarrow> path \<Rightarrow>
    ('s, 'o, middleware option) syncback_action" where
  "middleware_of_path env rules p = mapping_error SnapshotFailed (middleware_for_path (sb_files env) rules p)"

definition node_full_path :: "path \<Rightarrow> path \<Rightarrow> path" where
  "node_full_path base p = (if is_absolute p then p else path_join base p)"

text \<open>Children by name; a missing one is a panic, a name that comes twice is an error.\<close>

fun by_unique_name :: "('r \<Rightarrow> 'i option) \<Rightarrow> ('i \<Rightarrow> string) \<Rightarrow> (string \<Rightarrow> 'e) \<Rightarrow> 'r list \<Rightarrow> (string, 'i) hash_map \<Rightarrow>
    ('e + (string, 'i) hash_map) option" where
  "by_unique_name get name err [] m = Some (Inr m)"
| "by_unique_name get name err (r # rs) m =
     (case get r of
        None \<Rightarrow> None
      | Some i \<Rightarrow>
          (if hm_contains_key m (name i) then Some (Inl (err (name i)))
           else by_unique_name get name err rs (hm_insert (name i) i m)))"

text \<open>The basic matching of the node's children with both trees.\<close>

fun match_nodes :: "('s, 'd, 'o) syncback_env \<Rightarrow> path \<Rightarrow> path \<Rightarrow> string list \<Rightarrow> string \<Rightarrow> (string \<times> 'o project_node) list \<Rightarrow>
    (string, 'o inst) hash_map \<Rightarrow> (string, 'o inst \<times> 'o instance_metadata) hash_map \<Rightarrow>
    'o syncback_error + 'o queued_node list \<times> (string, 'o inst) hash_map \<times> (string, 'o inst \<times> 'o instance_metadata) hash_map" where
  "match_nodes env base project_path address old_name [] news olds = Inr ([], news, olds)"
| "match_nodes env base project_path address old_name ((child_name, child_node) # nodes) news olds =
     (if (case pj_path child_node of
            Some p \<Rightarrow> pn_is_optional p \<and> \<not> sb_fs_exists env (node_full_path base (pn_path p))
          | None \<Rightarrow> False)
      then match_nodes env base project_path address old_name nodes news olds
      else
        (case (hm_get news child_name, hm_get olds child_name) of
           (_, None) \<Rightarrow> Inl (ChildRemoved child_name old_name project_path)
         | (None, _) \<Rightarrow> Inl (ChildOnlyInProject child_name old_name project_path)
         | (Some new, Some old) \<Rightarrow>
             map_sum id (\<lambda>(queued, rest). (\<lparr>qn_address = address @ [child_name], qn_old = old, qn_new = new\<rparr> # queued, rest))
               (match_nodes env base project_path address old_name nodes
                 (hm_remove child_name news) (hm_remove child_name olds))))"

text \<open>New children outside the project: those below a node with a path are written there.\<close>

fun new_children :: "('s, 'd, 'o) syncback_env \<Rightarrow> ('d, 'o) syncback_data \<Rightarrow> sync_rule list \<Rightarrow> (referent, path) hash_map \<Rightarrow>
    (string \<times> 'o inst) list \<Rightarrow> (string, 'o inst \<times> 'o instance_metadata) hash_map \<Rightarrow>
    ('s, 'o, syncback_snapshot list \<times> (string, 'o inst \<times> 'o instance_metadata) hash_map) syncback_action" where
  "new_children env sd rules paths [] olds = yields ([], olds)"
| "new_children env sd rules paths ((name, new_child) # news) olds =
     (case hm_get paths (i_parent new_child) of
        None \<Rightarrow> new_children env sd rules paths news olds
      | Some parent_path \<Rightarrow>
          (if hm_contains_key olds name then new_children env sd rules paths news (hm_remove name olds)
           else
             and_then (middleware_of_path env rules parent_path) (\<lambda>found.
             and_then (of_panicking found) (\<lambda>parent_middleware.
             and_then
               (if parent_middleware = ProjectMw then yields []
                else and_then (with_base_path env sd parent_path (i_referent new_child) None) (\<lambda>s. yields [s])) (\<lambda>added.
             and_then (new_children env sd rules paths news olds) (\<lambda>(more, left).
             yields (added @ more, left)))))))"

definition note_snapshot :: "syncback_snapshot \<Rightarrow> referent \<Rightarrow> path \<Rightarrow> 'o project_run \<Rightarrow> 'o project_run" where
  "note_snapshot s r p run = run\<lparr>pr_snapshots := pr_snapshots run @ [s], pr_paths := hm_insert r p (pr_paths run)\<rparr>"

definition set_node_values :: "('s, 'd, 'o) syncback_env \<Rightarrow> (string, 'o variant) hash_map \<Rightarrow> 'o inst \<Rightarrow> string list \<Rightarrow>
    'o project_node \<Rightarrow> 'o project_run \<Rightarrow> 'o project_run" where
  "set_node_values env filtered inst address node run =
     (case project_node_property_syncback (se_resolve (sb_files env)) (ha_classes (sb_hash env)) filtered inst node of
        (properties, attributes, stale) \<Rightarrow>
          run\<lparr>pr_tree := set_values_at address properties attributes (pr_tree run), pr_stale := pr_stale run \<or> stale\<rparr>)"

text \<open>The path of a node, if it has one, and its values.\<close>

definition sync_node_values :: "('s, 'd, 'o) syncback_env \<Rightarrow> ('d, 'o) syncback_data \<Rightarrow> sync_rule list \<Rightarrow> path \<Rightarrow> 'o queued_node \<Rightarrow>
    'o project_node \<Rightarrow> 'o project_run \<Rightarrow> ('s, 'o, 'o project_run) syncback_action" where
  "sync_node_values env sd rules base q node run =
     (let inst = qn_new q
      in case pj_path node of
           Some node_path \<Rightarrow>
             (let full_path = node_full_path base (pn_path node_path)
              in and_then (middleware_of_path env rules full_path) (\<lambda>found.
                   case found of
                     None \<Rightarrow> fails (PathNotFound full_path)
                   | Some mw \<Rightarrow>
                       (let s = (with_new_path full_path (i_referent inst) (Some (i_referent (fst (qn_old q)))))\<lparr>ss_middleware := Some mw\<rparr>;
                            run = note_snapshot s (i_referent inst) full_path run
                        in if handles_own_properties mw then yields run
                           else and_then (of_panicking (get_path_filtered_properties env sd (i_referent inst))) (\<lambda>filtered.
                             yields (set_node_values env filtered inst (qn_address q) node run)))))
         | None \<Rightarrow>
             and_then (of_panicking (filter_properties (ha_classes (sb_hash env)) (sd_project sd) inst)) (\<lambda>filtered.
             yields (set_node_values env filtered inst (qn_address q) node run)))"

definition children_by_unique_name :: "('r \<Rightarrow> 'i option) \<Rightarrow> ('i \<Rightarrow> string) \<Rightarrow> (string \<Rightarrow> 'o syncback_error) \<Rightarrow> 'r list \<Rightarrow>
    ('s, 'o, (string, 'i) hash_map) syncback_action" where
  "children_by_unique_name get name err refs = and_then (of_panicking (by_unique_name get name err refs [])) of_result"

definition sync_node :: "('s, 'd, 'o) syncback_env \<Rightarrow> ('d, 'o) syncback_data \<Rightarrow> sync_rule list \<Rightarrow> path \<Rightarrow> path \<Rightarrow> 'o queued_node \<Rightarrow>
    'o project_run \<Rightarrow> ('s, 'o, 'o queued_node list \<times> 'o project_run) syncback_action" where
  "sync_node env sd rules base project_path q run =
     (let old = fst (qn_old q); inst = qn_new q
      in if i_class old \<noteq> i_class inst
         then fails (ClassChanged (i_name old) project_path (i_class old) (i_class inst))
         else
           and_then (of_panicking (node_at (qn_address q) (pr_tree run))) (\<lambda>node.
           and_then (sync_node_values env sd rules base q node run) (\<lambda>run1.
           and_then (children_by_unique_name (get_new_instance env sd) i_name (\<lambda>name. NewChildTwice name (i_name old))
             (i_children inst)) (\<lambda>news.
           and_then (children_by_unique_name (expect_instance (sb_dom env) (sd_old_tree sd)) (\<lambda>(i, _). i_name i)
             (\<lambda>name. OldChildTwice name (i_name old)) (i_children old)) (\<lambda>olds.
           and_then (of_result (match_nodes env base project_path (qn_address q) (i_name old) (pj_children node) news olds))
             (\<lambda>(queued, news_left, olds_left).
           and_then (new_children env sd rules (pr_paths run1) news_left olds_left) (\<lambda>(added, olds_unmet).
           and_then (of_panicking (node_at (qn_address q) (pr_tree run1))) (\<lambda>changed.
           yields (queued, run1\<lparr>
             pr_snapshots := pr_snapshots run1 @ added,
             pr_removed := pr_removed run1 @ hm_values olds_unmet,
             pr_changed := pr_changed run1 @ [(pj_properties changed, pj_attributes changed, old)]\<rparr>)))))))))"

text \<open>The loop over the queue; no node enters it twice, so the number of nodes bounds the steps.\<close>

fun sync_nodes :: "('s, 'd, 'o) syncback_env \<Rightarrow> ('d, 'o) syncback_data \<Rightarrow> sync_rule list \<Rightarrow> path \<Rightarrow> path \<Rightarrow> nat \<Rightarrow>
    'o queued_node list \<Rightarrow> 'o project_run \<Rightarrow> ('s, 'o, 'o project_run) syncback_action" where
  "sync_nodes env sd rules base project_path n [] run = yields run"
| "sync_nodes env sd rules base project_path 0 (q # queue) run = out_of_fuel"
| "sync_nodes env sd rules base project_path (Suc n) (q # queue) run =
     and_then (sync_node env sd rules base project_path q run) (\<lambda>(queued, run').
     sync_nodes env sd rules base project_path n (queue @ queued) run')"


section \<open>The whole file\<close>

fun any_node_changed :: "'o resolve_env \<Rightarrow> 'o variant_env \<Rightarrow>
    ((string \<times> 'o unresolved_value) list \<times> (string \<times> 'o unresolved_value) list \<times> 'o inst) list \<Rightarrow>
    ('o resolve_error + bool) option" where
  "any_node_changed env venv [] = Some (Inr False)"
| "any_node_changed env venv ((properties, attributes, old) # nodes) =
     (case project_node_should_reserialize env venv properties attributes old of
        Some (Inr False) \<Rightarrow> any_node_changed env venv nodes
      | r \<Rightarrow> r)"

definition syncback_project :: "('s, 'd, 'o) syncback_env \<Rightarrow> ('d, 'o) syncback_data \<Rightarrow> syncback_snapshot \<Rightarrow>
    ('s, 'o, 'o syncback_return) syncback_action" where
  "syncback_project env sd s =
     and_then (of_panicking (Option.bind (old_inst env sd s) (\<lambda>found. found))) (\<lambda>(old, metadata).
     and_then (of_panicking (if md_relevant_paths metadata = [] then None else Some (last (md_relevant_paths metadata)))) (\<lambda>project_path.
     and_then (mapping_error ProjectNotLoaded (load_project (sb_files env) project_path None)) (\<lambda>project.
     and_then (of_panicking (folder_location project)) (\<lambda>base.
     and_then (of_panicking (new_inst env sd s)) (\<lambda>inst.
       let rules = map (\<lambda>rule. rule\<lparr>sr_base_path := base\<rparr>) (p_sync_rules project)
       in and_then (sync_nodes env sd rules base project_path (node_count (p_tree project))
             [\<lparr>qn_address = [], qn_old = (old, metadata), qn_new = inst\<rparr>]
             \<lparr>pr_tree = p_tree project, pr_snapshots = [], pr_removed = [], pr_paths = [], pr_changed = [], pr_stale = False\<rparr>) (\<lambda>run.
          and_then
            (if pr_stale run then yields True
             else and_then (of_panicking (any_node_changed (se_resolve (sb_files env)) (ce_variants (ha_classes (sb_hash env)))
                 (pr_changed run))) (\<lambda>r. of_result (map_error ValueNotResolved r))) (\<lambda>needs_reserialize.
          and_then
            (if needs_reserialize
             then and_then (serialized ''project'' (sb_write_project env
                 (project\<lparr>p_sync_rules := rules, p_tree := pr_tree run\<rparr>))) (\<lambda>text.
               yields (fs_with_added_file project_path text))
             else yields fs_snapshot_new) (\<lambda>fs.
          yields \<lparr>ret_fs = fs, ret_children = pr_snapshots run, ret_removed = pr_removed run\<rparr>))))))))"

definition middleware_syncback :: "('s, 'd, 'o) syncback_env \<Rightarrow> ('d, 'o) syncback_data \<Rightarrow> middleware \<Rightarrow> syncback_snapshot \<Rightarrow>
    ('s, 'o, 'o syncback_return) syncback_action" where
  "middleware_syncback env sd mw s =
     and_then (of_result (case path_file_name (ss_path s) of
         Some file_name \<Rightarrow> map_error (NameNotLegal file_name) (validate_file_name file_name)
       | None \<Rightarrow> Inr ())) (\<lambda>_.
     (case mw of
        Csv \<Rightarrow> syncback_csv env sd s
      | JsonModel \<Rightarrow> syncback_json_model env sd s
      | ProjectMw \<Rightarrow> syncback_project env sd s
      | ServerScript \<Rightarrow> syncback_lua env sd s
      | ClientScript \<Rightarrow> syncback_lua env sd s
      | ModuleScript \<Rightarrow> syncback_lua env sd s
      | Rbxm \<Rightarrow> syncback_rbxm env sd s
      | Rbxmx \<Rightarrow> syncback_rbxmx env sd s
      | Text \<Rightarrow> syncback_txt env sd s
      | DirMw \<Rightarrow> syncback_dir env sd s
      | ServerScriptDir \<Rightarrow> syncback_lua_init env sd Server s
      | ClientScriptDir \<Rightarrow> syncback_lua_init env sd Client s
      | PluginScriptDir \<Rightarrow> syncback_lua_init env sd Plugin s
      | ModuleScriptDir \<Rightarrow> syncback_lua_init env sd Module s
      | CsvDir \<Rightarrow> syncback_csv_init env sd s
      | _ \<Rightarrow> fails (CannotSyncback mw)))"

end
