(* ===== verification/Syncback_Loop.thy ===== *)
theory Syncback_Loop
  imports Syncback_Project
begin

text \<open>
  The whole of syncback, \<open>syncback_loop\<close> of \<open>src/src/syncback/mod.rs\<close>: both trees are prepared, their
  instances hashed, and a stack of snapshots worked off until it is empty.  The stack need not become
  empty, so the loop has fuel.
\<close>

section \<open>Preparing the trees\<close>

text \<open>Whether the root of the project is a directory; an error panics.\<close>

definition skips_pruning :: "('s, 'd, 'o) syncback_env \<Rightarrow> 'o project \<Rightarrow> ('s, 'o, bool) syncback_action" where
  "skips_pruning env project =
     (case pj_path (p_tree project) of
        None \<Rightarrow> yields False
      | Some p \<Rightarrow>
          (\<lambda>v. case middleware_of_path env (p_sync_rules project) (pn_path p) v of
             (v', Failed _) \<Rightarrow> (v', Panics)
           | (v', Done (Some mw)) \<Rightarrow> (v', Done (mw_is_dir mw))
           | (v', Done None) \<Rightarrow> (v', Done False)
           | (v', Panics) \<Rightarrow> (v', Panics)
           | (v', OutOfFuel) \<Rightarrow> (v', OutOfFuel)))"

definition filter_new_instance :: "'o class_env \<Rightarrow> 'o project \<Rightarrow> ('d, 'o) dom_ops \<Rightarrow> referent \<Rightarrow> 'd \<Rightarrow> 'd option" where
  "filter_new_instance classes project D r d =
     Option.bind (dom_get D d r) (\<lambda>inst.
     Option.bind (get_property_filter classes project inst) (\<lambda>found.
     Some (case found of None \<Rightarrow> d | Some props \<Rightarrow> dom_set D d r (remove_properties props inst))))"

definition filter_old_instance :: "'o class_env \<Rightarrow> 'o project \<Rightarrow> ('d, 'o) dom_ops \<Rightarrow> referent \<Rightarrow> ('d, 'o) rojo_tree \<Rightarrow>
    ('d, 'o) rojo_tree option" where
  "filter_old_instance classes project D r t =
     Option.bind (expect_instance D t r) (\<lambda>(inst, _).
     Option.bind (get_property_filter classes project inst) (\<lambda>found.
     Some (case found of None \<Rightarrow> t | Some props \<Rightarrow> modify_instance D t r (remove_properties props))))"

definition filter_new_tree :: "'o class_env \<Rightarrow> 'o project \<Rightarrow> ('d, 'o) dom_ops \<Rightarrow> 'd \<Rightarrow> 'd option" where
  "filter_new_tree classes project D d =
     Option.bind (descendants D d (dom_root D d)) (\<lambda>order. fold_panic (filter_new_instance classes project D) order d)"

definition filter_old_tree :: "'o class_env \<Rightarrow> 'o project \<Rightarrow> ('d, 'o) dom_ops \<Rightarrow> ('d, 'o) rojo_tree \<Rightarrow> ('d, 'o) rojo_tree option" where
  "filter_old_tree classes project D t =
     Option.bind (descendants D (rt_inner t) (get_root_id D t)) (\<lambda>order. fold_panic (filter_old_instance classes project D) order t)"

text \<open>The camera of the first \<open>Workspace\<close> among the children of the root.\<close>

fun camera_of :: "'o dom_view \<Rightarrow> referent list \<Rightarrow> 'o variant option option" where
  "camera_of view [] = Some None"
| "camera_of view (r # rs) =
     (case view r of
        None \<Rightarrow> None
      | Some inst \<Rightarrow>
          (if i_class inst = ''Workspace'' then Some (hm_get (i_properties inst) ''CurrentCamera'')
           else camera_of view rs))"

definition remove_camera :: "'o project \<Rightarrow> ('d, 'o) dom_ops \<Rightarrow> 'd \<Rightarrow> 'd option" where
  "remove_camera project D d =
     (case p_syncback_rules project of
        None \<Rightarrow> Some d
      | Some rules \<Rightarrow>
          (if sync_current_camera rules = Some True then Some d
           else
             Option.bind (dom_get D d (dom_root D d)) (\<lambda>root.
             Option.bind (camera_of (dom_get D d) (i_children root)) (\<lambda>found.
               case found of
                 Some (VRef camera_ref) \<Rightarrow> if dom_get D d camera_ref \<noteq> None then dom_destroy D d camera_ref else Some d
               | _ \<Rightarrow> Some d))))"

definition ignores_referents :: "'o project \<Rightarrow> bool" where
  "ignores_referents project = (Option.bind (p_syncback_rules project) ignore_referents = Some True)"

definition link_new_tree :: "('s, 'd, 'o) syncback_env \<Rightarrow> 'o project \<Rightarrow> ref_links \<Rightarrow> 'd \<Rightarrow> ('s, 'o, 'd) syncback_action" where
  "link_new_tree env project links d =
     (if ignores_referents project then yields d
      else
        and_then (of_panicking (link_referents (sb_ids env) (sb_dom env) links d)) (\<lambda>(d', r).
        and_then (of_result (map_error AttributesNotMap r)) (\<lambda>_. yields d')))"

text \<open>Both roots get the name of the old one.\<close>

definition rename_root :: "('d, 'o) dom_ops \<Rightarrow> string \<Rightarrow> 'd \<Rightarrow> 'd option" where
  "rename_root D name d =
     map_option (\<lambda>root. dom_set D d (dom_root D d) (root\<lparr>i_name := name\<rparr>)) (dom_get D d (dom_root D d))"

text \<open>Everything before the hashing, in order; the result is the pair of trees.\<close>

definition prepare_trees :: "('s, 'd, 'o) syncback_env \<Rightarrow> 'o project \<Rightarrow> ('d, 'o) rojo_tree \<Rightarrow> 'd \<Rightarrow>
    ('s, 'o, ('d, 'o) rojo_tree \<times> 'd) syncback_action" where
  "prepare_trees env project old_tree new_tree =
     (let D = sb_dom env; classes = ha_classes (sb_hash env)
      in and_then (skips_pruning env project) (\<lambda>skip_pruning.
         and_then (of_panicking (if skip_pruning then Some new_tree else strip_unknown_root_children D new_tree old_tree)) (\<lambda>pruned.
         and_then (of_panicking (collect_referents D pruned)) (\<lambda>deferred_referents.
         and_then (of_panicking (filter_new_tree classes project D pruned)) (\<lambda>filtered.
         and_then (of_panicking (filter_old_tree classes project D old_tree)) (\<lambda>old_filtered.
         and_then (of_panicking (remove_camera project D filtered)) (\<lambda>without_camera.
         and_then (link_new_tree env project deferred_referents without_camera) (\<lambda>linked.
         and_then (of_panicking (rt_root D old_filtered)) (\<lambda>(old_root, _).
         and_then (of_panicking (rename_root D (i_name old_root) linked)) (\<lambda>renamed.
         yields (old_filtered, renamed)))))))))))"


section \<open>One snapshot\<close>

record sync_context =
  sc_globs :: "ignorable_glob list option"
  sc_base :: path
  sc_old_hashes :: "(referent, string) hash_map"
  sc_new_hashes :: "(referent, string) hash_map"

definition valid_path :: "('s, 'd, 'o) syncback_env \<Rightarrow> sync_context \<Rightarrow> path \<Rightarrow> bool" where
  "valid_path env c p = is_valid_path (se_globs (sb_files env)) (sc_globs c) (sc_base c) p"

text \<open>Equal hashes of the two subtrees; a subtree without a hash is a panic.\<close>

definition unchanged :: "sync_context \<Rightarrow> syncback_snapshot \<Rightarrow> bool option" where
  "unchanged c s =
     (case ss_old s of
        None \<Rightarrow> Some False
      | Some old_ref \<Rightarrow>
          (case (hm_get (sc_old_hashes c) old_ref, hm_get (sc_new_hashes c) (ss_new s)) of
             (Some old, Some new) \<Rightarrow> Some (old = new)
           | _ \<Rightarrow> None))"

text \<open>A failed directory is written as a model file instead.\<close>

definition syncback_or_model :: "('s, 'd, 'o) syncback_env \<Rightarrow> ('d, 'o) syncback_data \<Rightarrow> middleware \<Rightarrow> syncback_snapshot \<Rightarrow>
    fs_snapshot \<Rightarrow> ('s, 'o, fs_snapshot \<times> 'o syncback_return) syncback_action" where
  "syncback_or_model env sd mw s fs = (\<lambda>v.
     case middleware_syncback env sd mw s v of
       (v', Done r) \<Rightarrow> (v', Done (fs, r))
     | (v', Failed e) \<Rightarrow>
         (if mw = DirMw
          then
            (case path_file_name (ss_path s) of
               None \<Rightarrow> (v', Failed (DirectoryWithoutName (ss_path s)))
             | Some file_name \<Rightarrow>
                 (let new_middleware = model_middleware (sb_model_format env)
                  in and_then (of_panicking (extension_for_middleware new_middleware)) (\<lambda>extension.
                     and_then (middleware_syncback env sd new_middleware
                       (with_new_path (with_file_name (ss_path s) (file_name @ ''.'' @ extension)) (ss_new s) (ss_old s))) (\<lambda>r.
                     and_then (of_panicking (old_inst env sd s)) (\<lambda>old.
                     yields (if old \<noteq> None then fs_remove_dir (ss_path s) fs else fs, r)))) v'))
          else (v', Failed e))
     | (v', Panics) \<Rightarrow> (v', Panics)
     | (v', OutOfFuel) \<Rightarrow> (v', OutOfFuel))"

text \<open>A removed child leaves the disk, unless its path or its tree is ignored.\<close>

definition remove_child :: "('s, 'd, 'o) syncback_env \<Rightarrow> ('d, 'o) syncback_data \<Rightarrow> sync_context \<Rightarrow>
    'o inst \<times> 'o instance_metadata \<Rightarrow> fs_snapshot \<Rightarrow> fs_snapshot option" where
  "remove_child env sd c = (\<lambda>(inst, metadata) fs.
     (case md_instigating_source metadata of
        None \<Rightarrow> None
      | Some source \<Rightarrow>
          (case get_old_inst_path env sd (i_referent inst) of
             None \<Rightarrow> None
           | Some path_text \<Rightarrow>
               (let p = source_path source
                in Some (if \<not> valid_path env c p \<or> in_ignored_tree (sd_project sd) path_text then fs
                         else if sb_fs_is_dir env p then fs_remove_dir p fs
                         else fs_remove_file p fs)))))"

text \<open>
  One turn of the loop, with the snapshot taken from the stack: the changes so far and the snapshots
  to put on the stack.
\<close>

definition sync_step :: "('s, 'd, 'o) syncback_env \<Rightarrow> ('d, 'o) syncback_data \<Rightarrow> sync_context \<Rightarrow> syncback_snapshot \<Rightarrow>
    fs_snapshot \<Rightarrow> ('s, 'o, fs_snapshot \<times> syncback_snapshot list) syncback_action" where
  "sync_step env sd c s fs =
     and_then (of_panicking (get_new_inst_path env sd (ss_new s))) (\<lambda>path_text.
     and_then (of_panicking (unchanged c s)) (\<lambda>same.
       if same then yields (fs, [])
       else if \<not> valid_path env c (ss_path s) then yields (fs, [])
       else if in_ignored_tree (sd_project sd) path_text then yields (fs, [])
       else
         and_then (of_panicking (get_best_middleware env sd s)) (\<lambda>mw.
           if mw \<in> {Json, Toml} then yields (fs, [])
           else
             and_then (syncback_or_model env sd mw s fs) (\<lambda>(fs1, r).
             and_then (of_panicking (fold_panic (remove_child env sd c) (ret_removed r) fs1)) (\<lambda>fs2.
             yields (fs_merge_with_filter (valid_path env c) fs2 (ret_fs r), ret_children r))))))"

text \<open>The stack is a list with its top at the end; \<open>extend\<close> appends.\<close>

fun sync_loop :: "('s, 'd, 'o) syncback_env \<Rightarrow> ('d, 'o) syncback_data \<Rightarrow> sync_context \<Rightarrow> nat \<Rightarrow> syncback_snapshot list \<Rightarrow>
    fs_snapshot \<Rightarrow> ('s, 'o, fs_snapshot) syncback_action" where
  "sync_loop env sd c 0 snapshots fs = (if snapshots = [] then yields fs else out_of_fuel)"
| "sync_loop env sd c (Suc n) snapshots fs =
     (if snapshots = [] then yields fs
      else and_then (sync_step env sd c (last snapshots) fs) (\<lambda>(fs', children).
        sync_loop env sd c n (butlast snapshots @ children) fs'))"


section \<open>The whole\<close>

definition first_snapshot :: "('d, 'o) dom_ops \<Rightarrow> 'o project \<Rightarrow> ('d, 'o) rojo_tree \<Rightarrow> 'd \<Rightarrow> syncback_snapshot" where
  "first_snapshot D project old_tree new_tree =
     \<lparr>ss_old = Some (get_root_id D old_tree), ss_new = dom_root D new_tree, ss_path = p_file_location project,
      ss_middleware = Some ProjectMw\<rparr>"

text \<open>The result with the old tree, whose properties were filtered.\<close>

definition syncback_loop :: "('s, 'd, 'o) syncback_env \<Rightarrow> nat \<Rightarrow> ('d, 'o) rojo_tree \<Rightarrow> 'd \<Rightarrow> 'o project \<Rightarrow>
    ('s, 'o, ('d, 'o) rojo_tree \<times> fs_snapshot) syncback_action" where
  "syncback_loop env n old_tree new_tree project =
     and_then (of_result (case p_syncback_rules project of
         None \<Rightarrow> Inr None
       | Some rules \<Rightarrow> map_sum PatternNotGlob Some (compile_globs (se_globs (sb_files env)) rules))) (\<lambda>globs.
     and_then (prepare_trees env project old_tree new_tree) (\<lambda>(old_prepared, new_prepared).
     and_then (of_panicking (hash_tree (sb_hash env) project (sb_dom env) (rt_inner old_prepared)
         (get_root_id (sb_dom env) old_prepared))) (\<lambda>old_hashes.
     and_then (of_panicking (hash_tree (sb_hash env) project (sb_dom env) new_prepared (dom_root (sb_dom env) new_prepared))) (\<lambda>new_hashes.
     and_then (of_panicking (folder_location project)) (\<lambda>project_path.
     and_then (sync_loop env \<lparr>sd_old_tree = old_prepared, sd_new_tree = new_prepared, sd_project = project\<rparr>
         \<lparr>sc_globs = globs, sc_base = project_path, sc_old_hashes = old_hashes, sc_new_hashes = new_hashes\<rparr> n
         [first_snapshot (sb_dom env) project old_prepared new_prepared] fs_snapshot_new) (\<lambda>fs.
     yields (old_prepared, fs)))))))"

end
