(* ===== verification/Hash_Properties.thy ===== *)
theory Hash_Properties
  imports Hashing
begin

text \<open>
  What the hashes of a tree say of it: every instance below the root has one, they do not depend on
  the order of children, and different values can share one.
\<close>

section \<open>Every instance is hashed, and after its children\<close>

text \<open>What the map of hashes says of an instance whose children are in it.\<close>

definition hash_entry :: "'o hash_env \<Rightarrow> 'o project \<Rightarrow> 'o dom_view \<Rightarrow> (referent, string) hash_map \<Rightarrow> referent \<Rightarrow> bool" where
  "hash_entry env project view m r \<longleftrightarrow>
     (\<exists>inst bytes child_hashes. view r = Some inst \<and> hash_inst_filtered env project inst = Some bytes \<and>
        lookup_all m (i_children inst) = Some child_hashes \<and>
        hm_get m r = Some (ha_finalize env (bytes @ concat (sort child_hashes))))"

lemma lookup_all_total: "(\<forall>k \<in> set ks. hm_get m k \<noteq> None) \<Longrightarrow> \<exists>vs. lookup_all m ks = Some vs"
  by (induction ks) auto

lemma lookup_all_insert: "k \<notin> set ks \<Longrightarrow> lookup_all (hm_insert k v m) ks = lookup_all m ks"
  by (induction ks) (auto split: option.split)

lemma parents_first_tail: "parents_first view (r # order) \<Longrightarrow> parents_first view order"
  unfolding parents_first_def by (metis append_Cons)

lemma hash_all:
  assumes "parents_first (dom_get D d) order" and "distinct order"
    and "\<forall>r \<in> set order. \<exists>inst. dom_get D d r = Some inst \<and> hash_inst_filtered env project inst \<noteq> None"
  shows "\<exists>m. fold_panic (hash_step env project D d) (rev order) [] = Some m \<and>
    (\<forall>r. hm_get m r \<noteq> None \<longleftrightarrow> r \<in> set order) \<and> (\<forall>r \<in> set order. hash_entry env project (dom_get D d) m r)"
  using assms
proof (induction order)
  case Nil
  show ?case by simp
next
  case (Cons r order)
  have dist: "distinct order" and r: "r \<notin> set order" using Cons.prems(2) by simp_all
  have known: "\<forall>x \<in> set order. \<exists>inst. dom_get D d x = Some inst \<and> hash_inst_filtered env project inst \<noteq> None"
    using Cons.prems(3) by simp
  obtain m where m: "fold_panic (hash_step env project D d) (rev order) [] = Some m"
      "\<forall>x. hm_get m x \<noteq> None \<longleftrightarrow> x \<in> set order" "\<forall>x \<in> set order. hash_entry env project (dom_get D d) m x"
    using Cons.IH [OF parents_first_tail [OF Cons.prems(1)] dist known] by (elim exE conjE) (rule that)
  obtain inst bytes where inst: "dom_get D d r = Some inst" "hash_inst_filtered env project inst = Some bytes"
    using bspec [OF Cons.prems(3) list.set_intros(1)] by (elim exE conjE) (auto simp: not_None_eq)
  have children: "c \<in> set order" if "x \<in> insert r (set order)" "dom_get D d x = Some i" "c \<in> set (i_children i)" for x i c
  proof -
    have "x \<in> set (r # order)" using that(1) by simp
    then obtain xs ys where split: "r # order = xs @ x # ys" by (meson split_list)
    have "child_of (dom_get D d) x c" unfolding child_of_def using that(2,3) by blast
    then have c: "c \<in> set ys" using Cons.prems(1) split unfolding parents_first_def by blast
    show ?thesis
    proof (cases xs)
      case Nil
      then have "ys = order" using split by simp
      with c show ?thesis by simp
    next
      case (Cons a zs)
      then have "order = zs @ x # ys" using split by simp
      with c show ?thesis by simp
    qed
  qed
  obtain hs where hs: "lookup_all m (i_children inst) = Some hs"
    using lookup_all_total [of "i_children inst" m] children [of r inst] inst(1) m(2) by auto
  let ?m = "hm_insert r (ha_finalize env (bytes @ concat (sort hs))) m"
  have step: "hash_step env project D d r m = Some ?m"
    by (simp add: hash_step_def inst hs add_children_def)
  have fresh: "lookup_all ?m (i_children i) = lookup_all m (i_children i)"
    if "x \<in> insert r (set order)" "dom_get D d x = Some i" for x i
    using children [OF that] Cons.prems(2) by (intro lookup_all_insert) auto
  have "hash_entry env project (dom_get D d) ?m x" if x: "x \<in> set order" for x
  proof -
    obtain i b hs' where i: "dom_get D d x = Some i" "hash_inst_filtered env project i = Some b"
        "lookup_all m (i_children i) = Some hs'" "hm_get m x = Some (ha_finalize env (b @ concat (sort hs')))"
      using bspec [OF m(3) x] unfolding hash_entry_def by blast
    have "x \<noteq> r" using x Cons.prems(2) by auto
    moreover have "lookup_all ?m (i_children i) = Some hs'" using fresh [OF insertI2 [OF x] i(1)] i(3) by simp
    ultimately show ?thesis using i by (simp add: hash_entry_def)
  qed
  moreover have "hash_entry env project (dom_get D d) ?m r"
    using inst hs fresh [OF insertI1 inst(1)] by (simp add: hash_entry_def)
  ultimately have entries: "\<forall>x \<in> set (r # order). hash_entry env project (dom_get D d) ?m x" by simp
  have "fold_panic (hash_step env project D d) (rev (r # order)) [] = Some ?m"
    by (simp only: rev.simps fold_panic_append m(1) bind.bind_lunit) (simp add: step)
  moreover have "\<forall>x. hm_get ?m x \<noteq> None \<longleftrightarrow> x \<in> set (r # order)" using m(2) by simp
  ultimately show ?case using entries by blast
qed

text \<open>The map of hashes, for the instances below the root.\<close>

lemma hash_tree_entries:
  assumes "dom_wf (dom_get D d) top_ref" and "finite (dom (dom_get D d))" and "dom_get D d r \<noteq> None"
    and "\<forall>x inst. dom_get D d x = Some inst \<longrightarrow> hash_inst_filtered env project inst \<noteq> None"
  shows "\<exists>m order. hash_tree env project D d r = Some m \<and> set order = {x. descends (dom_get D d) r x} \<and>
    parents_first (dom_get D d) order \<and> (\<forall>x. hm_get m x \<noteq> None \<longleftrightarrow> x \<in> set order) \<and>
    (\<forall>x \<in> set order. hash_entry env project (dom_get D d) m x)"
proof -
  obtain order where order: "descendants D d r = Some order" "distinct order"
      "set order = {x. descends (dom_get D d) r x}" "parents_first (dom_get D d) order"
    using descendants_visit [OF assms(1-3)] by blast
  have known: "\<forall>x \<in> set order. \<exists>inst. dom_get D d x = Some inst \<and> hash_inst_filtered env project inst \<noteq> None"
  proof
    fix x
    assume "x \<in> set order"
    then show "\<exists>inst. dom_get D d x = Some inst \<and> hash_inst_filtered env project inst \<noteq> None"
      using order(3) descends_in_view [OF assms(1) _ assms(3)] assms(4) by fastforce
  qed
  obtain m where
    m: "fold_panic (hash_step env project D d) (rev order) [] = Some m"
      "\<forall>x. hm_get m x \<noteq> None \<longleftrightarrow> x \<in> set order" "\<forall>x \<in> set order. hash_entry env project (dom_get D d) m x"
    using hash_all [OF order(4,2) known] by (elim exE conjE) (rule that)
  have "hash_tree env project D d r = Some m" by (simp add: hash_tree_def order(1) m(1))
  with m(2,3) order(3,4) show ?thesis by blast
qed

text \<open>A tree to hash: a root with two children.\<close>

definition sample_hash_env :: "nat hash_env" where
  "sample_hash_env = \<lparr>ha_finalize = \<lambda>bytes. bytes, ha_flag_bits = word_of_nat, ha_brick_color = word_of_nat,
     ha_color3uint8 = \<lambda>_. (0, 0, 0), ha_content = \<lambda>_. ContentNone, ha_content_object = \<lambda>_. None,
     ha_enum_item = \<lambda>n. ([], word_of_nat n), ha_font_weight = word_of_nat, ha_font_style = word_of_nat,
     ha_asset_hash = \<lambda>_. [], ha_ref_text = \<lambda>_. [], ha_region3int16 = \<lambda>_. ((0, 0, 0), (0, 0, 0)),
     ha_capability_bits = word_of_nat, ha_vector2int16 = \<lambda>_. (0, 0), ha_vector3int16 = \<lambda>_. (0, 0, 0),
     ha_sort_colors = \<lambda>ks. ks, ha_sort_numbers = \<lambda>ks. ks,
     ha_classes = \<lparr>ce_classes = [], ce_variants = exact_env\<rparr>\<rparr>"

definition two_children :: "nat ref_dom" where
  "two_children =
     (let d = rd_new \<lparr>b_class = ''Folder'', b_name = ''r'', b_properties = []\<rparr>;
          d = fst (the (rd_insert d (Ref 0) \<lparr>b_class = ''Folder'', b_name = ''b'', b_properties = []\<rparr>))
      in fst (the (rd_insert d (Ref 0) \<lparr>b_class = ''Folder'', b_name = ''a'',
        b_properties = [(''Tags'', VTags [''a'', ''bc''])]\<rparr>)))"

text \<open>
  Hashing a tree does not meet a child without a hash: every instance below the root gets one, of its
  own bytes and the sorted hashes of its children.
\<close>

theorem hash_tree_covers_the_tree:
  assumes "dom_wf (dom_get D d) top_ref" and "finite (dom (dom_get D d))" and "dom_get D d r \<noteq> None"
    and "\<And>x inst. dom_get D d x = Some inst \<Longrightarrow> hash_inst_filtered env project inst \<noteq> None"
  shows "\<exists>m. hash_tree env project D d r = Some m \<and>
    (\<forall>x. hm_get m x \<noteq> None \<longleftrightarrow> descends (dom_get D d) r x) \<and>
    (\<forall>x inst. descends (dom_get D d) r x \<longrightarrow> dom_get D d x = Some inst \<longrightarrow>
      (\<exists>bytes child_hashes. hash_inst_filtered env project inst = Some bytes \<and>
        lookup_all m (i_children inst) = Some child_hashes \<and>
        hm_get m x = Some (ha_finalize env (bytes @ concat (sort child_hashes)))))"
proof -
  obtain m order where "hash_tree env project D d r = Some m" "set order = {x. descends (dom_get D d) r x}"
      "\<forall>x. hm_get m x \<noteq> None \<longleftrightarrow> x \<in> set order" "\<forall>x \<in> set order. hash_entry env project (dom_get D d) m x"
    using hash_tree_entries [OF assms(1-3), of env project] assms(4) by blast
  then show ?thesis unfolding hash_entry_def by fastforce
qed

text \<open>The sample with other referents and its children the other way round.\<close>

definition two_children_swapped :: "nat ref_dom" where
  "two_children_swapped =
     (let d = rd_new \<lparr>b_class = ''Folder'', b_name = ''r'', b_properties = []\<rparr>;
          d = fst (the (rd_insert d (Ref 0) \<lparr>b_class = ''Folder'', b_name = ''a'',
            b_properties = [(''Tags'', VTags [''a'', ''bc''])]\<rparr>))
      in fst (the (rd_insert d (Ref 0) \<lparr>b_class = ''Folder'', b_name = ''b'', b_properties = []\<rparr>)))"

definition swapped :: "referent \<Rightarrow> referent" where
  "swapped r = (if r = Ref 1 then Ref 2 else if r = Ref 2 then Ref 1 else r)"

lemma sorted_samples:
  "sort [''a'', ''bc''] = [''a'', ''bc'']" "sort [''ab'', ''c''] = [''ab'', ''c'']"
  "\<not> ''bFolder'' \<le> ''aFolderTagsabc''"
  by code_simp+

lemma sample_keeps: "keep_property (ha_classes sample_hash_env) all c (n, VTags ts) = Some True"
  by (simp add: keep_property_def filtered_out_def should_property_serialize.simps sample_hash_env_def)

lemma sample_bytes:
  "i_properties inst = [] \<Longrightarrow> hash_inst_filtered sample_hash_env nameless_project inst = Some (i_name inst @ i_class inst)"
  "i_properties inst = [(''Tags'', VTags ts)] \<Longrightarrow>
     hash_inst_filtered sample_hash_env nameless_project inst = Some (i_name inst @ i_class inst @ ''Tags'' @ concat (sort ts))"
  by (simp_all add: hash_inst_filtered_def filter_properties_def hash_inst_prefilled_def sample_keeps hash_property_def,
      simp_all add: sample_hash_env_def)

definition two_nodes :: "nat inst \<Rightarrow> nat inst \<Rightarrow> nat dom_view" where
  "two_nodes one two =
     [Ref 0 \<mapsto> \<lparr>i_referent = Ref 0, i_parent = NoRef, i_name = ''r'', i_class = ''Folder'', i_properties = [],
        i_children = [Ref 1, Ref 2]\<rparr>, Ref 1 \<mapsto> one, Ref 2 \<mapsto> two]"

definition plain_node :: "nat \<Rightarrow> nat inst" where
  "plain_node n = \<lparr>i_referent = Ref n, i_parent = Ref 0, i_name = ''b'', i_class = ''Folder'', i_properties = [], i_children = []\<rparr>"

definition tagged_node :: "nat \<Rightarrow> nat inst" where
  "tagged_node n = \<lparr>i_referent = Ref n, i_parent = Ref 0, i_name = ''a'', i_class = ''Folder'',
     i_properties = [(''Tags'', VTags [''a'', ''bc''])], i_children = []\<rparr>"

lemma two_nodes_at [simp]:
  "two_nodes one two (Ref 0) = Some \<lparr>i_referent = Ref 0, i_parent = NoRef, i_name = ''r'', i_class = ''Folder'',
     i_properties = [], i_children = [Ref 1, Ref 2]\<rparr>"
  "two_nodes one two (Ref (Suc 0)) = Some one" "two_nodes one two (Ref 2) = Some two"
  "(two_nodes one two r = None) = (r \<notin> {Ref 0, Ref 1, Ref 2})"
  by (simp_all add: two_nodes_def)

lemma node_fields [simp]:
  "i_children (plain_node n) = []" "i_children (tagged_node n) = []"
  "i_properties (plain_node n) = []" "i_properties (tagged_node n) = [(''Tags'', VTags [''a'', ''bc''])]"
  by (simp_all add: plain_node_def tagged_node_def)

lemma two_children_view: "dom_get ref_dom_ops two_children = two_nodes (plain_node 1) (tagged_node 2)"
  by (rule ext) (simp add: two_children_def ref_dom_ops_def rd_new_def rd_insert_def rd_get_def built_def Let_def
      two_nodes_def plain_node_def tagged_node_def)

lemma two_children_swapped_view: "dom_get ref_dom_ops two_children_swapped = two_nodes (tagged_node 1) (plain_node 2)"
  by (rule ext) (simp add: two_children_swapped_def ref_dom_ops_def rd_new_def rd_insert_def rd_get_def built_def Let_def
      two_nodes_def plain_node_def tagged_node_def)

lemma two_nodes_descend: "two_nodes one two r \<noteq> None \<Longrightarrow> descends (two_nodes one two) (Ref 0) r"
proof -
  have "child_of (two_nodes one two) (Ref 0) c" if "c \<in> {Ref 1, Ref 2}" for c
    using that by (auto simp: child_of_def two_nodes_def)
  then show "two_nodes one two r \<noteq> None \<Longrightarrow> descends (two_nodes one two) (Ref 0) r"
    by (auto simp: two_nodes_def split: if_splits intro: r_into_rtranclp)
qed

lemma two_nodes_wf:
  assumes "i_referent one = Ref 1" "i_parent one = Ref 0" "i_children one = []"
    "i_referent two = Ref 2" "i_parent two = Ref 0" "i_children two = []"
  shows "dom_wf (two_nodes one two) (Ref 0)" "finite (dom (two_nodes one two))"
  using assms two_nodes_descend [of one two] unfolding dom_wf_def
  by (simp_all add: two_nodes_def)

lemma sample_hashable:
  assumes "i_properties inst = [] \<or> (\<exists>ts. i_properties inst = [(''Tags'', VTags ts)])"
  shows "hash_inst_filtered sample_hash_env nameless_project inst \<noteq> None"
  using assms sample_bytes [of inst] by auto

lemma two_children_hashable:
  "dom_wf (dom_get ref_dom_ops two_children) (Ref 0)" "finite (dom (dom_get ref_dom_ops two_children))"
  "dom_get ref_dom_ops two_children x = Some inst \<Longrightarrow> hash_inst_filtered sample_hash_env nameless_project inst \<noteq> None"
  "dom_wf (dom_get ref_dom_ops two_children_swapped) (Ref 0)" "finite (dom (dom_get ref_dom_ops two_children_swapped))"
  "dom_get ref_dom_ops two_children_swapped x = Some inst \<Longrightarrow> hash_inst_filtered sample_hash_env nameless_project inst \<noteq> None"
proof -
  have nodes: "i_properties inst = [] \<or> (\<exists>ts. i_properties inst = [(''Tags'', VTags ts)])"
    if "two_nodes (plain_node k) (tagged_node l) x = Some inst \<or> two_nodes (tagged_node k) (plain_node l) x = Some inst" for x inst k l
    using that by (auto simp: two_nodes_def split: if_splits)
  note first = two_nodes_wf [of "plain_node 1" "tagged_node 2", folded two_children_view]
    and second = two_nodes_wf [of "tagged_node 1" "plain_node 2", folded two_children_swapped_view]
  show "dom_wf (dom_get ref_dom_ops two_children) (Ref 0)" "finite (dom (dom_get ref_dom_ops two_children))"
    by (rule first; simp add: plain_node_def tagged_node_def)+
  show "dom_wf (dom_get ref_dom_ops two_children_swapped) (Ref 0)" "finite (dom (dom_get ref_dom_ops two_children_swapped))"
    by (rule second; simp add: plain_node_def tagged_node_def)+
  show "dom_get ref_dom_ops two_children x = Some inst \<Longrightarrow> hash_inst_filtered sample_hash_env nameless_project inst \<noteq> None"
    "dom_get ref_dom_ops two_children_swapped x = Some inst \<Longrightarrow> hash_inst_filtered sample_hash_env nameless_project inst \<noteq> None"
    unfolding two_children_view two_children_swapped_view
    by (rule sample_hashable, rule nodes, rule disjI1, assumption) (rule sample_hashable, rule nodes, rule disjI2, assumption)
qed

lemma walk_steps:
  "walk view [] = Some []"
  "view r = Some inst \<Longrightarrow> walk view (r # rs) = Option.bind (walk view (rs @ i_children inst)) (\<lambda>order. Some (r # order))"
  by (simp_all add: walk.simps [of view "[]"] walk.simps [of view "r # rs"])

lemma two_children_order: "descendants ref_dom_ops two_children (Ref 0) = Some [Ref 0, Ref 1, Ref 2]"
  by (simp add: descendants_def two_children_view walk_steps)

lemma hash_tree_covers_the_tree_witness:
  "(\<exists>m. hash_tree sample_hash_env nameless_project ref_dom_ops two_children (Ref 0) = Some m \<and>
      (\<forall>x. hm_get m x \<noteq> None \<longleftrightarrow> descends (dom_get ref_dom_ops two_children) (Ref 0) x)) \<and>
   map_option (\<lambda>m. hm_get m (Ref 0)) (hash_tree sample_hash_env nameless_project ref_dom_ops two_children (Ref 0)) =
     Some (Some ''rFolderaFolderTagsabcbFolder'')"
proof (intro conjI)
  show "\<exists>m. hash_tree sample_hash_env nameless_project ref_dom_ops two_children (Ref 0) = Some m \<and>
      (\<forall>x. hm_get m x \<noteq> None \<longleftrightarrow> descends (dom_get ref_dom_ops two_children) (Ref 0) x)"
    using hash_tree_covers_the_tree [OF two_children_hashable(1,2), of "Ref 0" sample_hash_env nameless_project]
      two_children_hashable(3) by (simp only: two_children_view two_nodes_at) blast
  show "map_option (\<lambda>m. hm_get m (Ref 0)) (hash_tree sample_hash_env nameless_project ref_dom_ops two_children (Ref 0)) =
     Some (Some ''rFolderaFolderTagsabcbFolder'')"
    using sorted_samples
    by (simp add: hash_tree_def two_children_order hash_step_def add_children_def two_children_view sample_bytes,
        simp add: sample_hash_env_def plain_node_def tagged_node_def)
qed




text \<open>
  Instances that agree up to the names of their children and the order of children and properties.
\<close>

definition same_but_order :: "(referent \<Rightarrow> referent) \<Rightarrow> 'o inst \<Rightarrow> 'o inst \<Rightarrow> bool" where
  "same_but_order f inst inst' \<longleftrightarrow> i_name inst = i_name inst' \<and> i_class inst = i_class inst' \<and>
     mset (i_properties inst) = mset (i_properties inst') \<and> hm_ok (i_properties inst) \<and>
     mset (map f (i_children inst)) = mset (i_children inst')"

lemma filter_panic_iff:
  "filter_panic f xs = (if \<forall>x \<in> set xs. f x \<noteq> None then Some (filter (\<lambda>x. f x = Some True) xs) else None)"
  by (induction xs) (auto split: option.split)

lemma same_bytes:
  assumes "same_but_order f inst inst'"
  shows "hash_inst_filtered env project inst = hash_inst_filtered env project inst'"
proof -
  have props: "mset (i_properties inst) = mset (i_properties inst')" "set (i_properties inst) = set (i_properties inst')"
    using assms mset_eq_setD [of "i_properties inst" "i_properties inst'"] by (simp_all add: same_but_order_def)
  have inj: "inj_on fst (set (i_properties inst'))"
    using assms props(2) by (metis distinct_map same_but_order_def)
  have "sort_key fst (filter P (i_properties inst)) = sort_key fst (filter P (i_properties inst'))" for P
  proof (rule sort_key_inj_key_eq)
    show "mset (filter P (i_properties inst)) = mset (sort_key fst (filter P (i_properties inst')))"
      using props(1) by simp
    show "inj_on fst (set (filter P (i_properties inst)))"
      using inj props(2) by (auto intro: inj_on_subset)
  qed simp
  with assms props(2) show ?thesis
    by (auto simp: same_but_order_def hash_inst_filtered_def hash_inst_prefilled_def filter_properties_def filter_panic_iff)
qed

lemma lookup_all_map: "lookup_all m ks = Some hs \<Longrightarrow> hs = map (\<lambda>k. the (hm_get m k)) ks"
  by (induction ks arbitrary: hs) (auto split: option.splits)

lemma entries_agree:
  assumes "parents_first view order"
    and "\<forall>x \<in> set order. \<exists>inst inst'. view x = Some inst \<and> view' (f x) = Some inst' \<and> same_but_order f inst inst'"
    and "\<forall>x \<in> set order. hash_entry env project view m x" and "\<forall>x \<in> set order. hash_entry env project view' m' (f x)"
  shows "\<forall>x \<in> set order. hm_get m x = hm_get m' (f x)"
  using assms
proof (induction order)
  case (Cons r order)
  have rest: "\<forall>x \<in> set order. hm_get m x = hm_get m' (f x)"
    using Cons.IH [OF parents_first_tail [OF Cons.prems(1)]] Cons.prems(2-4) by simp
  obtain inst bytes hs where inst: "view r = Some inst" "hash_inst_filtered env project inst = Some bytes"
      "lookup_all m (i_children inst) = Some hs" "hm_get m r = Some (ha_finalize env (bytes @ concat (sort hs)))"
    using Cons.prems(3) by (auto simp: hash_entry_def)
  obtain inst' bytes' hs' where inst': "view' (f r) = Some inst'" "hash_inst_filtered env project inst' = Some bytes'"
      "lookup_all m' (i_children inst') = Some hs'" "hm_get m' (f r) = Some (ha_finalize env (bytes' @ concat (sort hs')))"
    using Cons.prems(4) by (auto simp: hash_entry_def)
  have same: "same_but_order f inst inst'" using Cons.prems(2) inst(1) inst'(1) by simp
  have "c \<in> set order" if "c \<in> set (i_children inst)" for c
  proof -
    have "child_of view r c" using inst(1) that by (auto simp: child_of_def)
    with Cons.prems(1) show ?thesis unfolding parents_first_def by (metis append_Nil)
  qed
  with rest have here: "map (\<lambda>k. the (hm_get m k)) (i_children inst) =
      map (\<lambda>k. the (hm_get m' k)) (map f (i_children inst))" by simp
  have there: "mset (map (\<lambda>k. the (hm_get m' k)) (map f (i_children inst))) = mset (map (\<lambda>k. the (hm_get m' k)) (i_children inst'))"
    using same unfolding same_but_order_def by (simp only: mset_map)
  have "mset hs = mset hs'"
    unfolding lookup_all_map [OF inst(3)] lookup_all_map [OF inst'(3)] here by (rule there)
  then have "sort hs = sort hs'" by (metis properties_for_sort mset_sort sorted_sort)
  with inst inst' same_bytes [OF same, of env project] rest show ?case by simp
qed simp

lemma descends_mapped:
  assumes "descends view r x"
    and "\<forall>x. descends view r x \<longrightarrow> (\<exists>inst inst'. view x = Some inst \<and> view' (f x) = Some inst' \<and> same_but_order f inst inst')"
  shows "descends view' (f r) (f x)"
  using assms(1)
proof (induction rule: rtranclp_induct)
  case (step y z)
  obtain inst inst' where i: "view y = Some inst" "view' (f y) = Some inst'" "same_but_order f inst inst'"
    using assms(2) step.hyps(1) by blast
  then have "f z \<in> set (i_children inst')"
    using step.hyps(2) mset_eq_setD [of "map f (i_children inst)" "i_children inst'"]
    by (auto simp: child_of_def same_but_order_def)
  with i(2) have "child_of view' (f y) (f z)" by (auto simp: child_of_def)
  with step.IH show ?case by (rule rtranclp.rtrancl_into_rtrancl)
qed simp

lemma hashes_agree:
  assumes "dom_wf (dom_get D d) top_ref" and "dom_wf (dom_get D' d') top_ref'"
    and "finite (dom (dom_get D d))" and "finite (dom (dom_get D' d'))"
    and known: "\<forall>x inst. dom_get D d x = Some inst \<longrightarrow> hash_inst_filtered env project inst \<noteq> None"
    and known': "\<forall>x inst. dom_get D' d' x = Some inst \<longrightarrow> hash_inst_filtered env project inst \<noteq> None"
    and related: "\<forall>x. descends (dom_get D d) r x \<longrightarrow> (\<exists>inst inst'. dom_get D d x = Some inst \<and>
      dom_get D' d' (f x) = Some inst' \<and> same_but_order f inst inst')"
  shows "\<exists>m m'. hash_tree env project D d r = Some m \<and> hash_tree env project D' d' (f r) = Some m' \<and>
    (\<forall>x. descends (dom_get D d) r x \<longrightarrow> hm_get m x \<noteq> None \<and> hm_get m x = hm_get m' (f x))"
proof -
  have r: "dom_get D d r \<noteq> None" "dom_get D' d' (f r) \<noteq> None" using related by blast+
  obtain m order where m: "hash_tree env project D d r = Some m" "set order = {x. descends (dom_get D d) r x}"
      "parents_first (dom_get D d) order" "\<forall>x. hm_get m x \<noteq> None \<longleftrightarrow> x \<in> set order"
      "\<forall>x \<in> set order. hash_entry env project (dom_get D d) m x"
    using hash_tree_entries [OF assms(1,3) r(1) known] by (elim exE conjE) (rule that)
  obtain m' order' where m': "hash_tree env project D' d' (f r) = Some m'" "set order' = {x. descends (dom_get D' d') (f r) x}"
      "\<forall>x \<in> set order'. hash_entry env project (dom_get D' d') m' x"
    using hash_tree_entries [OF assms(2,4) r(2) known'] by (elim exE conjE) (rule that)
  have entries: "\<forall>x \<in> set order. hash_entry env project (dom_get D' d') m' (f x)"
    using m(2) m'(2,3) descends_mapped [OF _ related] by simp
  have "\<forall>x \<in> set order. \<exists>inst inst'. dom_get D d x = Some inst \<and>
      dom_get D' d' (f x) = Some inst' \<and> same_but_order f inst inst'"
    using related m(2) by simp
  from entries_agree [OF m(3) this m(5) entries] have "\<forall>x \<in> set order. hm_get m x = hm_get m' (f x)" .
  with m(2,4) have "\<forall>x. descends (dom_get D d) r x \<longrightarrow> hm_get m x \<noteq> None \<and> hm_get m x = hm_get m' (f x)"
    by (metis mem_Collect_eq)
  with m(1) m'(1) show ?thesis by (intro exI conjI)
qed

text \<open>
  C12. The hashes of a tree do not depend on referents, on the order of children or on the order of
  properties: a tree that maps onto another, instance by instance, has its hashes.  Property values are
  equal on both sides, those of references and of \<open>Content\<close> objects included; both trees are well formed
  and finite, and hashing none of their instances panics.
\<close>

theorem isomorphic_trees_hash_alike:
  assumes "dom_wf (dom_get D d) top_ref" and "dom_wf (dom_get D' d') top_ref'"
    and "finite (dom (dom_get D d))" and "finite (dom (dom_get D' d'))"
    and "\<And>x inst. dom_get D d x = Some inst \<Longrightarrow> hash_inst_filtered env project inst \<noteq> None"
    and "\<And>x inst. dom_get D' d' x = Some inst \<Longrightarrow> hash_inst_filtered env project inst \<noteq> None"
    and "\<And>x. descends (dom_get D d) r x \<Longrightarrow> \<exists>inst inst'. dom_get D d x = Some inst \<and>
      dom_get D' d' (f x) = Some inst' \<and> same_but_order f inst inst'"
  shows "\<exists>m m'. hash_tree env project D d r = Some m \<and> hash_tree env project D' d' (f r) = Some m' \<and>
    (\<forall>x. descends (dom_get D d) r x \<longrightarrow> hm_get m x \<noteq> None \<and> hm_get m x = hm_get m' (f x))"
proof (rule hashes_agree [OF assms(1-4)])
  show "\<forall>x. descends (dom_get D d) r x \<longrightarrow> (\<exists>inst inst'. dom_get D d x = Some inst \<and>
      dom_get D' d' (f x) = Some inst' \<and> same_but_order f inst inst')"
    using assms(7) by blast
qed (use assms(5,6) in blast)+

lemma sample_isomorphic:
  assumes "descends (dom_get ref_dom_ops two_children) (Ref 0) x"
  shows "\<exists>inst inst'. dom_get ref_dom_ops two_children x = Some inst \<and>
    dom_get ref_dom_ops two_children_swapped (swapped x) = Some inst' \<and> same_but_order swapped inst inst'"
proof -
  have "dom_get ref_dom_ops two_children x \<noteq> None"
    using descends_in_view [OF two_children_hashable(1) assms] by (simp add: two_children_view two_nodes_def)
  then consider "x = Ref 0" | "x = Ref 1" | "x = Ref 2" by (auto simp: two_children_view)
  then show ?thesis
    by cases (simp_all add: two_children_view two_children_swapped_view swapped_def same_but_order_def,
      simp_all add: plain_node_def tagged_node_def)
qed

lemma isomorphic_trees_hash_alike_witness:
  "\<exists>m m'. hash_tree sample_hash_env nameless_project ref_dom_ops two_children (Ref 0) = Some m \<and>
    hash_tree sample_hash_env nameless_project ref_dom_ops two_children_swapped (Ref 0) = Some m' \<and>
    hm_get m (Ref 1) = hm_get m' (Ref 2) \<and> hm_get m (Ref 0) = hm_get m' (Ref 0)"
proof -
  obtain m m' where m: "hash_tree sample_hash_env nameless_project ref_dom_ops two_children (Ref 0) = Some m"
      "hash_tree sample_hash_env nameless_project ref_dom_ops two_children_swapped (swapped (Ref 0)) = Some m'"
      "\<And>x. descends (dom_get ref_dom_ops two_children) (Ref 0) x \<Longrightarrow> hm_get m x = hm_get m' (swapped x)"
    using isomorphic_trees_hash_alike [OF two_children_hashable(1,4,2,5), of sample_hash_env nameless_project "Ref 0" swapped]
      two_children_hashable(3,6) sample_isomorphic by blast
  have "descends (dom_get ref_dom_ops two_children) (Ref 0) r" if "r \<in> {Ref 0, Ref 1}" for r
    using that unfolding two_children_view by (intro two_nodes_descend) auto
  with m show ?thesis by (intro exI [of _ m] exI [of _ m']) (simp_all add: swapped_def)
qed


section \<open>Different values with one hash\<close>

text \<open>Changes of a tree that neither its shape nor the bytes of its instances show.\<close>

definition same_shape :: "'o dom_view \<Rightarrow> 'o dom_view \<Rightarrow> bool" where
  "same_shape view view' \<longleftrightarrow> (\<forall>x. map_option i_children (view x) = map_option i_children (view' x))"

lemma walk_same_shape:
  assumes "walk view queue = Some order" and "same_shape view view'"
  shows "walk view' queue = Some order"
proof -
  have "same_shape view view' \<longrightarrow> walk view' queue = Some order"
  proof (rule walk.raw_induct [where P = "\<lambda>view queue order. same_shape view view' \<longrightarrow> walk view' queue = Some order", OF _ assms(1)],
      intro impI)
    fix rec view queue order
    assume IH: "\<And>view queue order. rec view queue = Some order \<Longrightarrow> same_shape view view' \<longrightarrow> walk view' queue = Some order"
      and body: "(case queue of [] \<Rightarrow> Some [] | r # rs \<Rightarrow> case view r of None \<Rightarrow> None
        | Some inst \<Rightarrow> rec view (rs @ i_children inst) \<bind> (\<lambda>ordered. Some (r # ordered))) = Some order"
      and shape: "same_shape view view'"
    show "walk view' queue = Some order"
    proof (cases queue)
      case Nil
      with body show ?thesis by (simp add: walk.simps [of view' "[]"])
    next
      case (Cons r rs)
      obtain inst where inst: "view r = Some inst" using body Cons by (auto split: option.splits)
      with body Cons obtain rest where rest: "rec view (rs @ i_children inst) = Some rest" "order = r # rest"
        by (auto split: Option.bind_splits)
      from shape have "map_option i_children (view' r) = map_option i_children (view r)" by (simp add: same_shape_def)
      with inst obtain inst' where inst': "view' r = Some inst'" "i_children inst' = i_children inst" by auto
      with IH [OF rest(1)] shape rest(2) Cons show ?thesis by (simp add: walk.simps [of view' "r # rs"])
    qed
  qed
  with assms(2) show ?thesis by blast
qed

lemma walk_cong:
  assumes "same_shape view view'"
  shows "walk view queue = walk view' queue"
proof -
  have "same_shape view' view" using assms by (simp add: same_shape_def)
  with walk_same_shape [OF _ assms] walk_same_shape [of view'] show ?thesis
    by (metis option.exhaust)
qed

lemma hash_tree_cong:
  assumes "same_shape (dom_get D d) (dom_get D d')"
    and "\<And>x inst inst'. dom_get D d x = Some inst \<Longrightarrow> dom_get D d' x = Some inst' \<Longrightarrow>
      hash_inst_filtered env project inst' = hash_inst_filtered env project inst"
  shows "hash_tree env project D d' r = hash_tree env project D d r"
proof -
  have "hash_step env project D d' x m = hash_step env project D d x m" for x m
  proof (cases "dom_get D d x")
    case None
    then have "dom_get D d' x = None" using assms(1) by (metis map_option_is_None same_shape_def)
    with None show ?thesis by (simp add: hash_step_def)
  next
    case (Some inst)
    with assms(1) obtain inst' where "dom_get D d' x = Some inst'" "i_children inst' = i_children inst"
      unfolding same_shape_def by (metis map_option_eq_Some)
    with Some assms(2) [OF Some] show ?thesis by (simp add: hash_step_def add_children_def)
  qed
  then have "hash_step env project D d' = hash_step env project D d" by (intro ext)
  with walk_cong [OF assms(1)] show ?thesis by (simp add: hash_tree_def descendants_def)
qed

lemma insort_key_map: "(\<And>x. fst (g x) = fst x) \<Longrightarrow> insort_key fst (g a) (map g xs) = map g (insort_key fst a xs)"
  by (induction xs) auto

lemma sort_key_map: "(\<And>x. fst (g x) = fst x) \<Longrightarrow> sort_key fst (map g xs) = map g (sort_key fst xs)"
  by (induction xs) (simp_all add: insort_key_map)

lemma filter_panic_map:
  "(\<And>x. x \<in> set xs \<Longrightarrow> f (g x) = f x) \<Longrightarrow> filter_panic f (map g xs) = map_option (map g) (filter_panic f xs)"
proof (induction xs)
  case (Cons x xs)
  then show ?case by (cases "filter_panic f xs") (auto split: option.split)
qed simp

lemma filter_panic_subset: "filter_panic f xs = Some ys \<Longrightarrow> set ys \<subseteq> {x \<in> set xs. f x = Some True}"
  by (induction xs arbitrary: ys) (fastforce split: option.splits if_splits)+

lemma concat_panic_map: "(\<And>x. x \<in> set xs \<Longrightarrow> f (g x) = f x) \<Longrightarrow> concat_panic f (map g xs) = concat_panic f xs"
  by (induction xs) (auto split: option.split)

text \<open>Values exchanged one by one, all of them kept and hashed alike.\<close>

lemma hash_inst_exchange:
  assumes "\<And>x. fst (g x) = fst x"
    and "\<And>x. x \<in> set (i_properties inst) \<Longrightarrow>
      keep_property (ha_classes env) (syncs_unscriptable project) (i_class inst) (g x) =
      keep_property (ha_classes env) (syncs_unscriptable project) (i_class inst) x"
    and "\<And>x. x \<in> set (i_properties inst) \<Longrightarrow>
      keep_property (ha_classes env) (syncs_unscriptable project) (i_class inst) x = Some True \<Longrightarrow>
      hash_property env (map_option cl_defaults (hm_get (ce_classes (ha_classes env)) (i_class inst))) (g x) =
      hash_property env (map_option cl_defaults (hm_get (ce_classes (ha_classes env)) (i_class inst))) x"
  shows "hash_inst_filtered env project (inst\<lparr>i_properties := map g (i_properties inst)\<rparr>) = hash_inst_filtered env project inst"
proof -
  have kept: "filter_panic (keep_property (ha_classes env) (syncs_unscriptable project) (i_class inst)) (map g (i_properties inst)) =
      map_option (map g) (filter_panic (keep_property (ha_classes env) (syncs_unscriptable project) (i_class inst)) (i_properties inst))"
    by (rule filter_panic_map) (rule assms(2))
  show ?thesis
proof (cases "filter_properties (ha_classes env) project inst")
  case None
  then show ?thesis
    by (simp add: hash_inst_filtered_def filter_properties_def kept)
next
  case (Some props)
  then have "set (sort_key fst props) \<subseteq> {x \<in> set (i_properties inst).
      keep_property (ha_classes env) (syncs_unscriptable project) (i_class inst) x = Some True}"
    using filter_panic_subset by (simp add: filter_properties_def)
  then have "concat_panic (hash_property env (map_option cl_defaults (hm_get (ce_classes (ha_classes env)) (i_class inst))))
      (map g (sort_key fst props)) =
    concat_panic (hash_property env (map_option cl_defaults (hm_get (ce_classes (ha_classes env)) (i_class inst))))
      (sort_key fst props)"
    using assms(3) by (intro concat_panic_map) auto
  with Some show ?thesis
    by (simp add: hash_inst_filtered_def hash_inst_prefilled_def filter_properties_def kept
        sort_key_map [where g = g, OF assms(1)])
qed
qed

lemma tags_eq_default: "variant_eq venv (VTags ts) v = Some False \<Longrightarrow> variant_eq venv v (VTags ts) = Some False"
  by (cases v) (auto simp: tags_eq_iff split: if_splits)

lemma update_is_map:
  assumes "hm_get m k = Some u" and "hm_ok m"
  shows "hm_insert k v m = map (\<lambda>(j, w). (j, if j = k then v else w)) m"
  using assms
proof (induction m)
  case (Cons jw m)
  obtain j w where jw: "jw = (j, w)" by fastforce
  show ?case
  proof (cases "j = k")
    case True
    have "map (\<lambda>(j, w). (j, if j = k then v else w)) m = m"
      by (rule map_idI) (use Cons.prems(2) jw True in force)
    with True jw show ?thesis by simp
  next
    case False
    with Cons jw show ?thesis by simp
  qed
qed simp

lemma kept_tags_hash:
  assumes "keep_property (ha_classes env) all (c :: string) (name, VTags ts) = Some True"
  shows "hash_property env (map_option cl_defaults (hm_get (ce_classes (ha_classes env)) c)) (name, VTags ts) =
    Some (name @ concat (sort ts))"
  using assms
  by (auto simp: keep_property_def hash_property_def dest!: tags_eq_default simp del: variant_eq.simps split: option.splits bool.splits)

text \<open>
  The tags of an instance are hashed one after the other with nothing between them, so tags that
  concatenate alike have the same hash: with every hash function the whole tree has the same hashes
  after such a change, and syncback skips it.
\<close>

theorem tags_that_concatenate_alike_hash_alike:
  fixes env :: "'o hash_env" and inst :: "'o inst"
  assumes "weak_dom D ok" and "ok d" and "dom_get D d x = Some inst"
    and "concat (sort ts) = concat (sort ts')"
    and "hm_get (i_properties inst) ''Tags'' = Some (VTags ts)" and "hm_ok (i_properties inst)"
    and "keep_property (ha_classes env) (syncs_unscriptable project) (i_class inst) (''Tags'', VTags ts) = Some True"
    and "keep_property (ha_classes env) (syncs_unscriptable project) (i_class inst) (''Tags'', VTags ts') = Some True"
  shows "hash_tree env project D (dom_set D d x (inst\<lparr>i_properties := hm_insert ''Tags'' (VTags ts') (i_properties inst)\<rparr>)) r =
    hash_tree env project D d r"
proof -
  define g where "g = (\<lambda>(name :: string, v :: 'o variant). (name, if name = ''Tags'' then VTags ts' else v))"
  have props: "hm_insert ''Tags'' (VTags ts') (i_properties inst) = map g (i_properties inst)"
    using assms(5,6) by (simp add: update_is_map g_def)
  have tags: "v = VTags ts" if "(''Tags'', v) \<in> set (i_properties inst)" for v
    using that assms(5,6) by (simp add: hm_get_eq_iff)
  let ?inst = "inst\<lparr>i_properties := hm_insert ''Tags'' (VTags ts') (i_properties inst)\<rparr>"
  have "hash_inst_filtered env project (inst\<lparr>i_properties := map g (i_properties inst)\<rparr>) = hash_inst_filtered env project inst"
  proof (rule hash_inst_exchange)
    fix x
    show "fst (g x) = fst x" by (simp add: g_def split: prod.split)
    assume x: "x \<in> set (i_properties inst)"
    have "g x = x \<or> x = (''Tags'', VTags ts) \<and> g x = (''Tags'', VTags ts')"
      using tags x by (cases x) (auto simp: g_def)
    then show "keep_property (ha_classes env) (syncs_unscriptable project) (i_class inst) (g x) =
        keep_property (ha_classes env) (syncs_unscriptable project) (i_class inst) x"
      and "hash_property env (map_option cl_defaults (hm_get (ce_classes (ha_classes env)) (i_class inst))) (g x) =
        hash_property env (map_option cl_defaults (hm_get (ce_classes (ha_classes env)) (i_class inst))) x"
      using assms(7,8) kept_tags_hash [OF assms(7)] kept_tags_hash [OF assms(8)] assms(4) by auto
  qed
  then have "hash_inst_filtered env project ?inst = hash_inst_filtered env project inst" by (simp only: props)
  moreover have "dom_get D (dom_set D d x ?inst) = (dom_get D d)(x \<mapsto> ?inst)"
    using weak_dom.set_law [OF assms(1-3), of ?inst] by simp
  ultimately show ?thesis
    using assms(3) by (intro hash_tree_cong) (auto simp: same_shape_def split: if_splits)
qed


lemma tags_that_concatenate_alike_hash_alike_witness:
  "(let inst = the (dom_get ref_dom_ops two_children (Ref 2));
        retagged = inst\<lparr>i_properties := hm_insert ''Tags'' (VTags [''ab'', ''c'']) (i_properties inst)\<rparr>
    in hash_tree sample_hash_env nameless_project ref_dom_ops (dom_set ref_dom_ops two_children (Ref 2) retagged) (Ref 0) =
       hash_tree sample_hash_env nameless_project ref_dom_ops two_children (Ref 0))"
proof -
  have "rd_get two_children = dom_get ref_dom_ops two_children" by (simp add: ref_dom_ops_def)
  moreover have "rd_next two_children = 3" by (simp add: two_children_def rd_new_def rd_insert_def rd_get_def Let_def)
  ultimately have ok: "rd_ok two_children"
    by (auto simp: rd_ok_def two_children_view two_nodes_def split: if_splits)
  have here: "dom_get ref_dom_ops two_children (Ref 2) = Some (the (dom_get ref_dom_ops two_children (Ref 2)))"
    by (simp add: two_children_view)
  have "concat (sort [''a'', ''bc'']) = concat (sort [''ab'', ''c''])"
    "hm_get (i_properties (the (dom_get ref_dom_ops two_children (Ref 2)))) ''Tags'' = Some (VTags [''a'', ''bc''])"
    "hm_ok (i_properties (the (dom_get ref_dom_ops two_children (Ref 2))))"
    by (simp_all only: sorted_samples) (simp_all add: two_children_view)
  from tags_that_concatenate_alike_hash_alike [OF ref_dom_is_weak_dom ok here this sample_keeps sample_keeps,
      of nameless_project "Ref 0"]
  show ?thesis by (simp only: Let_def)
qed

end
