(* ===== verification/Syncback_Laws.thy ===== *)
theory Syncback_Laws
  imports Syncback_Loop Hash_Properties Middleware_Properties "HOL-Library.Sublist"
begin

text \<open>
  What syncback does to the file system while it runs, and when it ends: the changes are collected
  and nothing is written before the end.
\<close>

section \<open>Which pattern decides\<close>

lemma last_match:
  "fold (\<lambda>x ignored. if m x then \<not> negated x else ignored) xs b =
    (case List.find m (rev xs) of None \<Rightarrow> b | Some x \<Rightarrow> \<not> negated x)"
proof (induction xs arbitrary: b)
  case (Cons x xs)
  have "List.find m (rev (x # xs)) = (case List.find m (rev xs) of None \<Rightarrow> if m x then Some x else None | Some y \<Rightarrow> Some y)"
    by (induction xs rule: rev_induct) auto
  with Cons show ?case by (auto split: option.split)
qed simp

text \<open>
  Whether a path may be written: never into the \<open>.git\<close> folder of the project, otherwise the last of
  the ignore patterns that matches decides, and one with an exclamation mark lets the path through.
\<close>

theorem last_matching_pattern_decides:
  "is_valid_path g globs base p =
    (let inner = (case path_strip_prefix p base of Some inside \<Rightarrow> inside | None \<Rightarrow> p)
     in \<not> glob_match g ''.git/**'' inner \<and>
        (case List.find (\<lambda>glob. ig_is_match g glob inner) (rev (case globs of None \<Rightarrow> [] | Some gs \<Rightarrow> gs)) of
           None \<Rightarrow> True
         | Some glob \<Rightarrow> ig_negated glob))"
  by (simp add: is_valid_path_def Let_def last_match split: option.split)


section \<open>Syncback only reads\<close>

text \<open>What follows when a middleware failed.\<close>

definition syncback_failed :: "('s, 'd, 'o) syncback_env \<Rightarrow> ('d, 'o) syncback_data \<Rightarrow> middleware \<Rightarrow> syncback_snapshot \<Rightarrow>
    fs_snapshot \<Rightarrow> 'o syncback_error \<Rightarrow> ('s, 'o, fs_snapshot \<times> 'o syncback_return) syncback_action" where
  "syncback_failed env sd mw s fs e =
     (if mw = DirMw
      then
        (case path_file_name (ss_path s) of
           None \<Rightarrow> fails (DirectoryWithoutName (ss_path s))
         | Some file_name \<Rightarrow>
             (let new_middleware = model_middleware (sb_model_format env)
              in and_then (of_panicking (extension_for_middleware new_middleware)) (\<lambda>extension.
                 and_then (middleware_syncback env sd new_middleware
                   (with_new_path (with_file_name (ss_path s) (file_name @ ''.'' @ extension)) (ss_new s) (ss_old s))) (\<lambda>r.
                 and_then (of_panicking (old_inst env sd s)) (\<lambda>old.
                 yields (if old \<noteq> None then fs_remove_dir (ss_path s) fs else fs, r))))))
      else fails e)"

lemma syncback_or_model_cases:
  "syncback_or_model env sd mw s fs v = (case middleware_syncback env sd mw s v of
     (v', Done x) \<Rightarrow> yields (fs, x) v' | (v', Failed e) \<Rightarrow> syncback_failed env sd mw s fs e v'
   | (v', Panics) \<Rightarrow> (v', Panics) | (v', OutOfFuel) \<Rightarrow> (v', OutOfFuel))"
  by (auto simp: syncback_or_model_def syncback_failed_def yields_def fails_def Let_def split: prod.split outcome.split option.split)

context tree_backend
begin

lemma stays_serialized [stays_intros]: "stays P b (serialized what r)"
  unfolding serialized_def by (intro stays_intros)

lemma stays_text_property [stays_intros]: "stays P b (text_property inst name)"
  unfolding text_property_def by (auto intro!: stays_intros split: option.split variant.split)

lemma stays_adjacent [stays_intros]: "stays P b (add_adjacent_metadata env sd s inst special fs)"
  unfolding add_adjacent_metadata_def by (intro stays_intros)

lemma stays_base_path [stays_intros]: "stays P b (with_base_path env sd base new_ref old_ref)"
  unfolding with_base_path_def by (intro stays_intros)

lemma stays_joined_path [stays_intros]: "stays P b (with_joined_path env sd s new_ref old_ref)"
  unfolding with_joined_path_def by (intro stays_intros)

lemma stays_match_children [stays_intros]: "stays P b (match_children env sd s news olds)"
  by (induction env sd s news olds rule: match_children.induct) (auto intro!: stays_intros)

lemma stays_for_each [stays_intros]: "(\<And>x. stays P b (f x)) \<Longrightarrow> stays P b (for_each f xs)"
  by (induction xs) (auto intro!: stays_intros)

lemma stays_sync_dir_no_meta [stays_intros]: "stays P b (syncback_dir_no_meta env sd s)"
  unfolding syncback_dir_no_meta_def by (intro stays_intros)

lemma stays_directory_metadata [stays_intros]: "stays P b (add_directory_metadata env s found r)"
  unfolding add_directory_metadata_def by (intro stays_intros)

lemma stays_single:
  "stays P b (syncback_lua env sd s)" "stays P b (syncback_txt env sd s)" "stays P b (syncback_csv env sd s)"
  "stays P b (syncback_rbxm env sd s)" "stays P b (syncback_rbxmx env sd s)" "stays P b (syncback_json_model env sd s)"
  "stays P b (syncback_dir env sd s)" "stays P b (syncback_lua_init env sd ty s)" "stays P b (syncback_csv_init env sd s)"
  unfolding syncback_lua_def syncback_txt_def syncback_csv_def syncback_rbxm_def syncback_rbxmx_def
    syncback_json_model_def syncback_dir_def syncback_lua_init_def syncback_csv_init_def
  by (intro stays_intros)+

lemma mapping_error_result: "mapping_error f m v = (fst (m v), map_outcome f id (snd (m v)))"
  by (simp add: mapping_error_def split: prod.split outcome.split)

lemma stays_mapping_error [stays_intros]: "stays P b m \<Longrightarrow> stays P b (mapping_error f m)"
proof -
  assume m: "stays P b m"
  show ?thesis
proof (rule staysI)
  fix v
  assume v: "P v"
  show "P (fst (mapping_error f m v))"
    using stays_keeps [OF m v] by (cases "m v") (simp add: mapping_error_result)
  show "snd (mapping_error f m v) \<noteq> OutOfFuel" if b
    using stays_fuel [OF m v that] by (cases "m v"; cases "snd (m v)") (auto simp: mapping_error_result)
  show "snd (mapping_error f m w) = snd (mapping_error f m v)" if "P w" for w
    using stays_result [OF m v that] by (simp add: mapping_error_result)
qed
qed

text \<open>A result or an error is acted on.\<close>

lemma stays_handled:
  assumes m: "stays P b m" and g: "\<And>x. stays P b (g x)" and h: "\<And>e. stays P b (h e)"
    and run: "\<And>v. run v = (case m v of
      (v', Done x) \<Rightarrow> g x v' | (v', Failed e) \<Rightarrow> h e v' | (v', Panics) \<Rightarrow> (v', Panics) | (v', OutOfFuel) \<Rightarrow> (v', OutOfFuel))"
  shows "stays P b run"
proof -
  have both: "P (fst (run v)) \<and> (b \<longrightarrow> snd (run v) \<noteq> OutOfFuel) \<and> snd (run w) = snd (run v)" if v: "P v" and w: "P w" for v w
  proof -
    obtain v' r where mv: "m v = (v', r)" by (cases "m v")
    obtain w' where mw: "m w = (w', r)" using stays_result [OF m v w] mv by (metis prod.collapse snd_conv)
    note v' = stays_keeps [OF m v mv] and w' = stays_keeps [OF m w mw]
    show ?thesis
    proof (cases r)
      case (Done x)
      then show ?thesis using mv mw g [of x] v' w' stays_result [OF g v' w', of x]
        by (simp add: run) (metis stays_def)
    next
      case (Failed e)
      then show ?thesis using mv mw h [of e] v' w' stays_result [OF h v' w', of e]
        by (simp add: run) (metis stays_def)
    next
      case Panics
      then show ?thesis using mv mw v' by (simp add: run)
    next
      case OutOfFuel
      then show ?thesis using mv mw v' stays_fuel [OF m v _ mv] by (cases b) (simp_all add: run)
    qed
  qed
  then show ?thesis by (intro staysI) blast+
qed

lemma stays_panicking: "(\<And>x. q = Some x \<Longrightarrow> stays P b (f x)) \<Longrightarrow> stays P b (and_then (of_panicking q) f)"
  by (cases q) (simp_all add: of_panicking_def)

lemma stays_middleware_of_path:
  assumes "se_ops (sb_files env) = ops"
  shows "stays (same s0) b (middleware_of_path env rules p)"
  unfolding middleware_of_path_def middleware_for_path_def
  by (intro stays_intros stays_io [OF assms] stays_dir_middleware [OF assms])

lemma stays_new_children:
  assumes "se_ops (sb_files env) = ops"
  shows "stays (same s0) b (new_children env sd rules paths news olds)"
proof (induction news arbitrary: olds)
  case (Cons entry news)
  obtain name new_child where entry: "entry = (name, new_child)" by fastforce
  show ?case unfolding entry new_children.simps
    by (intro stays_intros stays_middleware_of_path [OF assms] Cons.IH)
qed simp

lemma stays_children_by_unique_name [stays_intros]: "stays P b (children_by_unique_name get name err refs)"
  unfolding children_by_unique_name_def by (intro stays_intros)

lemma stays_node_values:
  assumes "se_ops (sb_files env) = ops"
  shows "stays (same s0) b (sync_node_values env sd rules base q node run)"
  unfolding sync_node_values_def by (intro stays_intros stays_middleware_of_path [OF assms])

lemma stays_sync_node:
  assumes "se_ops (sb_files env) = ops"
  shows "stays (same s0) b (sync_node env sd rules base project_path q run)"
  unfolding sync_node_def
  by (intro stays_intros stays_node_values [OF assms] stays_new_children [OF assms])

lemma stays_out_of_fuel [stays_intros]: "stays P False out_of_fuel"
  by (simp add: stays_def out_of_fuel_def)

lemma stays_sync_nodes:
  assumes "se_ops (sb_files env) = ops"
  shows "stays (same s0) False (sync_nodes env sd rules base project_path n queue run)"
proof (induction n arbitrary: queue run)
  case 0
  show ?case by (cases queue) (simp_all add: stays_out_of_fuel)
next
  case (Suc n)
  show ?case by (cases queue) (auto intro!: stays_and_then stays_prod stays_sync_node [OF assms] Suc.IH)
qed

lemma stays_sync_project:
  assumes "se_ops (sb_files env) = ops"
  shows "stays (same s0) False (syncback_project env sd s)"
  unfolding syncback_project_def
  by (intro stays_intros stays_sync_nodes [OF assms] stays_load [OF assms])

lemma stays_sync_middleware:
  assumes "se_ops (sb_files env) = ops" and "b \<longrightarrow> mw \<noteq> ProjectMw"
  shows "stays (same s0) b (middleware_syncback env sd mw s)"
  unfolding middleware_syncback_def
  using stays_sync_project [OF assms(1), of s0 sd s] assms(2)
  by (intro stays_and_then stays_basic) (cases mw; cases b; simp add: stays_single)

lemma stays_or_model:
  assumes "se_ops (sb_files env) = ops" and "b \<longrightarrow> mw \<noteq> ProjectMw"
  shows "stays (same s0) b (syncback_or_model env sd mw s fs)"
proof (rule stays_handled [where h = "syncback_failed env sd mw s fs" and g = "\<lambda>r. yields (fs, r)", OF stays_sync_middleware [OF assms]])
  fix e
  have "model_middleware (sb_model_format env) \<noteq> ProjectMw" by (simp add: model_middleware_def)
  then show "stays (same s0) b (syncback_failed env sd mw s fs e)"
    unfolding syncback_failed_def by (intro stays_intros stays_sync_middleware [OF assms(1)]) simp_all
next
  fix v
  show "syncback_or_model env sd mw s fs v = (case middleware_syncback env sd mw s v of
      (v', Done x) \<Rightarrow> yields (fs, x) v' | (v', Failed e) \<Rightarrow> syncback_failed env sd mw s fs e v'
    | (v', Panics) \<Rightarrow> (v', Panics) | (v', OutOfFuel) \<Rightarrow> (v', OutOfFuel))"
    by (rule syncback_or_model_cases)
qed (rule stays_basic)

lemma stays_sync_step:
  assumes "se_ops (sb_files env) = ops" and "b \<longrightarrow> get_best_middleware env sd s \<noteq> Some ProjectMw"
  shows "stays (same s0) b (sync_step env sd c s fs)"
  unfolding sync_step_def
  using assms(2) by (intro stays_panicking stays_if stays_prod stays_and_then stays_basic stays_or_model [OF assms(1)]) auto

lemma stays_sync_loop:
  assumes "se_ops (sb_files env) = ops"
  shows "stays (same s0) False (sync_loop env sd c n snapshots fs)"
  by (induction n arbitrary: snapshots fs) (auto intro!: stays_intros stays_sync_step assms)

lemma stays_prepare:
  assumes "se_ops (sb_files env) = ops"
  shows "stays (same s0) b (prepare_trees env project old_tree new_tree)"
proof -
  have "stays (same s0) b (skips_pruning env project)"
    unfolding skips_pruning_def
  proof (intro stays_option stays_basic)
    fix p
    show "stays (same s0) b (\<lambda>v. case middleware_of_path env (p_sync_rules project) (pn_path p) v of
             (v', Failed _) \<Rightarrow> (v', Panics)
           | (v', Done (Some mw)) \<Rightarrow> (v', Done (mw_is_dir mw))
           | (v', Done None) \<Rightarrow> (v', Done False)
           | (v', Panics) \<Rightarrow> (v', Panics)
           | (v', OutOfFuel) \<Rightarrow> (v', OutOfFuel))"
    proof (rule stays_handled [where h = "\<lambda>_. panics" and g = "\<lambda>found. yields (case found of Some mw \<Rightarrow> mw_is_dir mw | None \<Rightarrow> False)",
          OF stays_middleware_of_path [OF assms, of s0 b "p_sync_rules project" "pn_path p"]])
    qed (rule stays_basic stays_basic(3) | simp add: panics_def yields_def split: prod.split outcome.split option.split)+
  qed
  then show ?thesis
    unfolding prepare_trees_def link_new_tree_def by (intro stays_intros) auto
qed

lemma stays_syncback:
  assumes "se_ops (sb_files env) = ops"
  shows "stays (same s0) False (syncback_loop env n old_tree new_tree project)"
  unfolding syncback_loop_def
  by (intro stays_intros stays_prepare [OF assms] stays_sync_loop [OF assms])

end

text \<open>
  C16. Syncback collects its changes and leaves the disk alone: whatever the outcome of a run, for any
  backend whose reads and watches leave its files as they are, every file reads as before and every
  question to the backend is answered as before.
\<close>

theorem syncback_only_reads:
  assumes "tree_backend (se_ops (sb_files env)) view ok"
    and "syncback_loop env n old_tree new_tree project v = (v', r)"
  shows "view (backend v') = view (backend v) \<and>
    answers (se_ops (sb_files env)) (backend v') = answers (se_ops (sb_files env)) (backend v)"
proof -
  have "stays (files_as (se_ops (sb_files env)) view ok (backend v)) False (syncback_loop env n old_tree new_tree project)"
    by (rule tree_backend.stays_syncback [OF assms(1) refl])
  then have "files_as (se_ops (sb_files env)) view ok (backend v) v'"
    by (rule stays_keeps) (use assms(2) in simp_all)
  then show ?thesis by (simp add: files_as_def)
qed


section \<open>Syncback ends\<close>

text \<open>
  The snapshots a middleware asks for: children of the instance, each once, in order, paired with old
  instances that satisfy a condition.
\<close>

definition child_snapshots :: "(referent \<Rightarrow> bool) \<Rightarrow> referent list \<Rightarrow> syncback_snapshot list \<Rightarrow> bool" where
  "child_snapshots P refs ss \<longleftrightarrow> subseq (map ss_new ss) refs \<and>
     (\<forall>s \<in> set ss. ss_middleware s = None \<and> (\<forall>old. ss_old s = Some old \<longrightarrow> P old))"

lemma child_snapshots_basic [simp]:
  "child_snapshots P refs []"
  "child_snapshots P refs ss \<Longrightarrow> child_snapshots P (r # refs) ss"
  "ss_new s = r \<Longrightarrow> ss_middleware s = None \<Longrightarrow> (\<And>old. ss_old s = Some old \<Longrightarrow> P old) \<Longrightarrow> child_snapshots P refs ss \<Longrightarrow>
    child_snapshots P (r # refs) (s # ss)"
  by (auto simp: child_snapshots_def)

lemma joined_path_gives:
  "gives (\<lambda>s'. ss_new s' = new_ref \<and> ss_old s' = old_ref \<and> ss_middleware s' = None) (with_joined_path env sd s new_ref old_ref)"
  unfolding with_joined_path_def with_base_path_def Let_def by (intro gives_and_then gives_intros) simp

definition old_values :: "(referent \<Rightarrow> bool) \<Rightarrow> (string, 'o inst \<times> 'o instance_metadata) hash_map \<Rightarrow> bool" where
  "old_values P m \<longleftrightarrow> (\<forall>(inst, md) \<in> snd ` set m. P (i_referent inst))"

lemma old_values_basic:
  "old_values P []" "old_values P m \<Longrightarrow> old_values P (hm_remove name m)"
  "old_values P m \<Longrightarrow> hm_get m name = Some (inst, md) \<Longrightarrow> P (i_referent inst)"
  "old_values P m \<Longrightarrow> P (i_referent inst) \<Longrightarrow> old_values P (hm_insert name (inst, md) m)"
proof -
  show "old_values P []" by (simp add: old_values_def)
  show "old_values P m \<Longrightarrow> old_values P (hm_remove name m)"
    by (auto simp: old_values_def AList.delete_eq)
  show "old_values P m \<Longrightarrow> hm_get m name = Some (inst, md) \<Longrightarrow> P (i_referent inst)"
    using map_of_SomeD [of m name "(inst, md)"] by (force simp: old_values_def)
  show "old_values P m \<Longrightarrow> P (i_referent inst) \<Longrightarrow> old_values P (hm_insert name (inst, md) m)"
    by (induction m) (auto simp: old_values_def)
qed

lemma match_children_gives:
  assumes "old_values P olds"
  shows "gives (\<lambda>(cs, left). child_snapshots P (map fst news) cs) (match_children env sd s news olds)"
  using assms
proof (induction news arbitrary: olds)
  case Nil
  show ?case by (simp add: gives_def yields_def)
next
  case (Cons new news)
  obtain new_ref new_child where new: "new = (new_ref, new_child)" by fastforce
  have one: "gives (\<lambda>(cs, left). child_snapshots P (map fst (new # news)) cs)
      (and_then (with_joined_path env sd s new_ref old_ref) (\<lambda>child.
       and_then (match_children env sd s news olds') (\<lambda>(children, left). yields (child # children, left))))"
    if "old_values P olds'" "\<And>old. old_ref = Some old \<Longrightarrow> P old" for old_ref olds'
    by (rule gives_and_then_value [OF joined_path_gives], rule gives_and_then_value [OF Cons.IH [OF that(1)]])
      (auto simp: new that(2) gives_def yields_def)
  have skipped: "gives (\<lambda>(cs, left). child_snapshots P (map fst (new # news)) cs) (match_children env sd s news olds')"
    if "old_values P olds'" for olds'
    using Cons.IH [OF that] by (auto simp: gives_def new)
  show ?case
  proof (cases "hm_get olds (i_name new_child)")
    case None
    then show ?thesis using one [of olds None] Cons.prems by (simp add: new)
  next
    case (Some found)
    obtain old_child md where found: "found = (old_child, md)" by fastforce
    note removed = old_values_basic(2) [OF Cons.prems, of "i_name new_child"]
    have "P (i_referent old_child)" using old_values_basic(3) [OF Cons.prems] Some found by blast
    then show ?thesis using one [OF removed, of "Some (i_referent old_child)"] skipped [OF removed] Some
      by (simp add: new found Let_def)
  qed
qed

lemma lookup_all_instances: "lookup_instances f rs = Some is \<Longrightarrow> i \<in> set is \<Longrightarrow> \<exists>r \<in> set rs. f r = Some i"
  by (induction rs arbitrary: "is") (auto split: option.splits)

lemma lookup_instances_length: "lookup_instances f rs = Some is \<Longrightarrow> length is = length rs"
  by (induction rs arbitrary: "is") (auto split: option.splits)

lemma old_children_values:
  assumes "old_children_by_name env sd old = Some m"
    and "\<And>c inst md. c \<in> set (i_children old) \<Longrightarrow> get_old_instance env sd c = Some (Some (inst, md)) \<Longrightarrow> P (i_referent inst)"
  shows "old_values P m"
proof -
  obtain found where found: "lookup_instances (expect_instance (sb_dom env) (sd_old_tree sd)) (i_children old) = Some found"
    and m: "m = fold (\<lambda>(inst, md). hm_insert (i_name inst) (inst, md)) found []"
    using assms(1) by (auto simp: old_children_by_name_def)
  have "P (i_referent inst)" if "(inst, md) \<in> set found" for inst md
    using lookup_all_instances [OF found that] assms(2)
    by (simp add: expect_instance_def get_old_instance_def Option.bind_eq_Some_conv) blast
  then have "old_values P (fold (\<lambda>(inst, md). hm_insert (i_name inst) (inst, md)) found [])"
    by (intro fold_invariant [where P = "old_values P"] old_values_basic(1)) (auto intro: old_values_basic(4))
  then show ?thesis unfolding m .
qed

lemma for_each_gives:
  assumes "\<And>x. gives (Q x) (f x)"
  shows "gives (list_all2 Q xs) (for_each f xs)"
proof (induction xs)
  case Nil
  show ?case by (simp add: gives_def yields_def)
next
  case (Cons x xs)
  show ?case unfolding for_each.simps
    by (rule gives_and_then_value [OF assms], rule gives_and_then_value [OF Cons]) (simp add: gives_def yields_def)
qed

lemma matched_gives:
  assumes "length children = length refs"
    and "\<And>old_instance md c inst md'. old = Some (old_instance, md) \<Longrightarrow> c \<in> set (i_children old_instance) \<Longrightarrow>
      get_old_instance env sd c = Some (Some (inst, md')) \<Longrightarrow> P (i_referent inst)"
  shows "gives (\<lambda>(cs, removed). child_snapshots P refs cs)
    (case old of
       Some (old_instance, _) \<Rightarrow>
         and_then (of_panicking (old_children_by_name env sd old_instance)) (\<lambda>old_child_map.
         and_then (match_children env sd s (zip refs children) old_child_map) (\<lambda>(matched, left).
         yields (matched, hm_values left)))
     | None \<Rightarrow>
         and_then (for_each (\<lambda>r. with_joined_path env sd s r None) refs) (\<lambda>matched. yields (matched, [])))"
proof (cases old)
  case None
  have "child_snapshots P refs cs" if "list_all2 (\<lambda>r c. ss_new c = r \<and> ss_old c = None \<and> ss_middleware c = None) refs cs" for cs
    using that by (induction rule: list_all2_induct) (auto simp: child_snapshots_def)
  then show ?thesis unfolding None option.case
    by (intro gives_and_then_value [OF for_each_gives [OF joined_path_gives]]) (simp add: gives_def yields_def)
next
  case (Some found)
  obtain old_instance md where found: "found = (old_instance, md)" by fastforce
  have zip: "map fst (zip refs children) = refs" using assms(1) by simp
  have "gives (\<lambda>(cs, removed). child_snapshots P refs cs)
      (and_then (match_children env sd s (zip refs children) m) (\<lambda>(matched, left). yields (matched, hm_values left)))"
    if m: "old_children_by_name env sd old_instance = Some m" for m
  proof -
    have "old_values P m" by (rule old_children_values [OF m]) (use assms(2) Some found in blast)
    from match_children_gives [OF this, where news = "zip refs children"] show ?thesis
      unfolding zip by (rule gives_and_then_value) (auto simp: gives_def yields_def)
  qed
  then show ?thesis unfolding Some found option.case prod.case
    by (intro gives_and_then_value [OF gives_basic(5), where R = "\<lambda>m. old_children_by_name env sd old_instance = Some m"]) simp_all
qed

lemma dir_gives:
  assumes "\<And>old md c inst md'. old_inst env sd s = Some (Some (old, md)) \<Longrightarrow> c \<in> set (i_children old) \<Longrightarrow>
    get_old_instance env sd c = Some (Some (inst, md')) \<Longrightarrow> P (i_referent inst)"
    and inst: "new_inst env sd s = Some inst"
  shows "gives (\<lambda>r. child_snapshots P (i_children inst) (ret_children r)) (syncback_dir_no_meta env sd s)"
  unfolding syncback_dir_no_meta_def Let_def inst
proof (rule gives_and_then_value [OF gives_basic(5), where R = "\<lambda>x. x = inst"], simp,
    rule gives_and_then_value [OF gives_basic(5), where R = "\<lambda>cs. length cs = length (i_children inst)"],
    use lookup_instances_length in force, rule gives_cases(4), rule gives_basic(2),
    rule gives_and_then_value [OF gives_basic(5), where R = "\<lambda>old. old_inst env sd s = Some old"], assumption,
    rule gives_and_then_value [OF matched_gives [where P = P]])
qed (use assms(1) in \<open>auto simp: gives_def yields_def and_then_Done\<close>)

lemma directory_metadata_children:
  "gives (\<lambda>r'. ret_children r' = ret_children r) (add_directory_metadata env s found r)"
  unfolding add_directory_metadata_def by (intro gives_intros gives_and_then) (simp_all add: add_to_return_def)

lemma gives_panicking: "(\<And>x. q = Some x \<Longrightarrow> gives Q (f x)) \<Longrightarrow> gives Q (and_then (of_panicking q) f)"
  by (cases q) (simp_all add: of_panicking_def gives_basic(3))

lemma gives_mono: "gives R m \<Longrightarrow> (\<And>x. R x \<Longrightarrow> Q x) \<Longrightarrow> gives Q m"
  by (simp add: gives_def)

text \<open>A middleware other than that of projects asks for children of the instance only.\<close>

lemma middleware_gives:
  fixes env :: "('s, 'd, 'o) syncback_env"
  assumes "\<And>old md c inst md'. old_inst env sd s = Some (Some (old, md)) \<Longrightarrow> c \<in> set (i_children old) \<Longrightarrow>
    get_old_instance env sd c = Some (Some (inst, md')) \<Longrightarrow> P (i_referent inst)"
    and inst: "new_inst env sd s = Some inst" and mw: "mw \<noteq> ProjectMw"
  shows "gives (\<lambda>r. child_snapshots P (i_children inst) (ret_children r)) (middleware_syncback env sd mw s)"
proof -
  let ?Q = "\<lambda>r :: 'o syncback_return. child_snapshots P (i_children inst) (ret_children r)"
  have dir: "gives ?Q (syncback_dir_no_meta env sd s)" by (rule dir_gives [where P = P]) (use assms in blast)+
  have added: "gives ?Q (add_directory_metadata env s found r)" if "?Q r" for found r
    using that by (intro gives_mono [OF directory_metadata_children]) simp
  have dirs: "gives ?Q (syncback_dir env sd s)" "gives ?Q (syncback_lua_init env sd ty s)" "gives ?Q (syncback_csv_init env sd s)" for ty
    unfolding syncback_dir_def syncback_lua_init_def syncback_csv_init_def Let_def
    by (rule gives_and_then, rule gives_and_then_value [OF dir], rule gives_and_then, rule gives_and_then_value [OF added],
        assumption, simp add: gives_def yields_def add_to_return_def,
      rule gives_and_then, rule gives_cases(1), rule gives_basic(2), rule gives_and_then, rule gives_and_then_value [OF dir],
        rule gives_and_then, rule added, simp add: add_to_return_def,
      rule gives_and_then, rule gives_and_then, rule gives_and_then_value [OF dir], rule gives_and_then, rule gives_and_then,
        rule added, simp add: add_to_return_def)
  have leaves: "gives ?Q (syncback_lua env sd s)" "gives ?Q (syncback_txt env sd s)" "gives ?Q (syncback_csv env sd s)"
    "gives ?Q (syncback_rbxm env sd s)" "gives ?Q (syncback_rbxmx env sd s)" "gives ?Q (syncback_json_model env sd s)"
    unfolding syncback_lua_def syncback_txt_def syncback_csv_def syncback_rbxm_def syncback_rbxmx_def syncback_json_model_def Let_def
    by (intro gives_intros gives_and_then; simp add: only_files_def)+
  show ?thesis
    unfolding middleware_syncback_def
    by (intro gives_and_then) (cases mw; simp add: dirs leaves gives_basic(2) mw)
qed

lemma or_model_gives:
  assumes "\<And>old md c inst md'. old_inst env sd s = Some (Some (old, md)) \<Longrightarrow> c \<in> set (i_children old) \<Longrightarrow>
    get_old_instance env sd c = Some (Some (inst, md')) \<Longrightarrow> P (i_referent inst)"
    and "new_inst env sd s = Some inst" and "mw \<noteq> ProjectMw"
  shows "gives (\<lambda>(fs', r). child_snapshots P (i_children inst) (ret_children r)) (syncback_or_model env sd mw s fs)"
proof -
  define m where "m = model_middleware (sb_model_format env)"
  have ok: "gives (\<lambda>r. child_snapshots P (i_children inst) (ret_children r)) (middleware_syncback env sd mw s)"
    by (rule middleware_gives [where P = P]) (use assms in blast)+
  have "gives (\<lambda>r. child_snapshots P (i_children inst) (ret_children r)) (middleware_syncback env sd m (with_new_path p (ss_new s) (ss_old s)))" for p
  proof (rule middleware_gives [where P = P])
    show "m \<noteq> ProjectMw" by (simp add: m_def model_middleware_def)
  qed (use assms(1,2) in \<open>auto simp: old_inst_def new_inst_def with_new_path_def\<close>)
  then have "gives (\<lambda>(fs', r). child_snapshots P (i_children inst) (ret_children r)) (syncback_failed env sd mw s fs e)" for e
    unfolding syncback_failed_def Let_def m_def [symmetric]
    by (intro gives_intros gives_and_then [of _ _ "of_panicking _"], rule gives_and_then_value)
      (auto simp: gives_def yields_def and_then_Done)
  note failed = this
  show ?thesis unfolding gives_def
  proof (intro allI impI)
    fix v v' x
    assume "syncback_or_model env sd mw s fs v = (v', Done x)"
    then show "(\<lambda>(fs', r). child_snapshots P (i_children inst) (ret_children r)) x"
      using ok failed [unfolded gives_def] unfolding syncback_or_model_cases gives_def
      by (auto simp: yields_def split: prod.splits outcome.splits)
  qed
qed

lemma step_gives:
  assumes "\<And>old md c inst md'. old_inst env sd s = Some (Some (old, md)) \<Longrightarrow> c \<in> set (i_children old) \<Longrightarrow>
    get_old_instance env sd c = Some (Some (inst, md')) \<Longrightarrow> P (i_referent inst)"
    and "get_best_middleware env sd s \<noteq> Some ProjectMw"
  shows "gives (\<lambda>(fs', cs). cs = [] \<or> (\<exists>inst. new_inst env sd s = Some inst \<and> child_snapshots P (i_children inst) cs))
    (sync_step env sd c s fs)"
  unfolding sync_step_def
proof (intro gives_panicking gives_cases(4) gives_basic(1))
  fix mw
  assume mw: "get_best_middleware env sd s = Some mw"
  obtain inst where inst: "new_inst env sd s = Some inst"
    using mw by (auto simp: get_best_middleware_def Option.bind_eq_Some_conv)
  have "gives (\<lambda>(fs', r). child_snapshots P (i_children inst) (ret_children r)) (syncback_or_model env sd mw s fs)"
    by (rule or_model_gives [where P = P]) (use assms inst mw in auto)
  note model = this
  show "gives (\<lambda>(fs', cs). cs = [] \<or> (\<exists>inst. new_inst env sd s = Some inst \<and> child_snapshots P (i_children inst) cs))
      (and_then (syncback_or_model env sd mw s fs) (\<lambda>(fs1, r).
         and_then (of_panicking (fold_panic (remove_child env sd c) (ret_removed r) fs1)) (\<lambda>fs2.
         yields (fs_merge_with_filter (valid_path env c) fs2 (ret_fs r), ret_children r))))"
    by (rule gives_and_then_value [OF model]) (use inst in \<open>auto simp: gives_def yields_def and_then_Done\<close>)
qed simp_all


section \<open>Sizes of subtrees\<close>

definition subtree_size :: "'o dom_view \<Rightarrow> referent \<Rightarrow> nat" where
  "subtree_size view r = card {x. descends view r x}"

lemma subtree_finite:
  assumes "dom_wf view top_ref" and "finite (dom view)"
  shows "finite {x. descends view r x}"
proof (cases "view r")
  case None
  then have "{x. descends view r x} \<subseteq> {r}" using descends_from_missing [where view = view and s = r] None by blast
  then show ?thesis by (rule finite_subset) simp
next
  case (Some i)
  then have "{x. descends view r x} \<subseteq> dom view" using descends_in_view [OF assms(1), of r] by blast
  then show ?thesis using assms(2) by (rule finite_subset)
qed

lemma children_smaller:
  assumes "dom_wf view top_ref" and "finite (dom view)" and r: "view r = Some inst" and "subseq cs (i_children inst)"
  shows "sum_list (map (subtree_size view) cs) < subtree_size view r"
proof -
  have child: "child_of view r c" if "c \<in> set (i_children inst)" for c
    using r that by (auto simp: child_of_def)
  have "subseq (map (subtree_size view) cs) (map (subtree_size view) (i_children inst))"
    using assms(4) by (rule subseq_map)
  then have "sum_list (map (subtree_size view) cs) \<le> sum_list (map (subtree_size view) (i_children inst))"
    by (induction rule: list_emb.induct) auto
  also have "\<dots> = (\<Sum>c \<in> set (i_children inst). subtree_size view c)"
    using dom_wfD(4) [OF assms(1) r] by (simp add: sum_list_distinct_conv_sum_set)
  also have "\<dots> = card (\<Union>c \<in> set (i_children inst). {x. descends view c x})"
    unfolding subtree_size_def using siblings_disjoint [OF assms(1)] child subtree_finite [OF assms(1,2)]
    by (intro card_UN_disjoint [symmetric]) blast+
  also have "\<dots> < card (insert r (\<Union>c \<in> set (i_children inst). {x. descends view c x}))"
  proof -
    have "r \<notin> (\<Union>c \<in> set (i_children inst). {x. descends view c x})"
      using child_not_above [OF assms(1)] child by blast
    then show ?thesis using subtree_finite [OF assms(1,2)] by (simp add: card_insert_disjoint)
  qed
  also have "insert r (\<Union>c \<in> set (i_children inst). {x. descends view c x}) = {x. descends view r x}"
    using descends_iff_children [of view r, OF r] by blast
  finally show ?thesis unfolding subtree_size_def .
qed


section \<open>The stack becomes empty\<close>

lemma old_found: "old_inst env sd s = Some (Some found) \<Longrightarrow> \<exists>p. get_old_instance env sd p = Some (Some found)"
  by (auto simp: old_inst_def split: option.splits)

lemma child_not_project:
  assumes "ss_middleware s = None"
    and "\<And>old inst md. ss_old s = Some old \<Longrightarrow> get_old_instance env sd old = Some (Some (inst, md)) \<Longrightarrow>
      md_middleware md \<noteq> Some ProjectMw"
  shows "get_best_middleware env sd s \<noteq> Some ProjectMw"
proof -
  have "middleware_of_class cl \<noteq> ProjectMw" "middleware_with_children (middleware_of_class cl) \<noteq> ProjectMw"
      "model_middleware format \<noteq> ProjectMw" for cl format
    by (simp_all add: middleware_of_class_def middleware_with_children_def model_middleware_def)
  moreover have "md_middleware md \<noteq> Some ProjectMw" if "old_inst env sd s = Some (Some (inst, md))" for inst md
    using that assms(2) by (auto simp: old_inst_def split: option.splits)
  ultimately show ?thesis
    using assms(1) by (auto simp: get_best_middleware_def Option.bind_eq_Some_conv Let_def split: option.splits if_splits)
qed

text \<open>
  C17. Syncback ends: the loop over a stack that asks for no project file, while no child in the old tree
  comes from one, ends in at most as many turns as there are instances below the stack: with the
  changes, with an error or in a panic.
\<close>

theorem syncback_ends:
  assumes "tree_backend (se_ops (sb_files env)) view ok"
    and "dom_wf (dom_get (sb_dom env) (sd_new_tree sd)) top_ref" and "finite (dom (dom_get (sb_dom env) (sd_new_tree sd)))"
    and "\<And>r p inst inst' md md'. get_old_instance env sd p = Some (Some (inst, md)) \<Longrightarrow> r \<in> set (i_children inst) \<Longrightarrow>
      get_old_instance env sd r = Some (Some (inst', md')) \<Longrightarrow> i_referent inst' = r \<and> md_middleware md' \<noteq> Some ProjectMw"
    and "\<And>s. s \<in> set stack \<Longrightarrow> get_best_middleware env sd s \<noteq> Some ProjectMw"
    and "sum_list (map (\<lambda>s. subtree_size (dom_get (sb_dom env) (sd_new_tree sd)) (ss_new s)) stack) \<le> n"
  shows "snd (sync_loop env sd c n stack fs v) \<noteq> OutOfFuel"
  using assms(5,6)
proof (induction n arbitrary: stack fs v)
  case 0
  have "subtree_size (dom_get (sb_dom env) (sd_new_tree sd)) r \<noteq> 0" for r
    unfolding subtree_size_def using subtree_finite [OF assms(2,3), of r] by (auto simp: card_eq_0_iff)
  with 0(2) have "stack = []" by (cases stack) auto
  then show ?case by (simp add: yields_def)
next
  case (Suc n)
  show ?case
  proof (cases stack rule: rev_cases)
    case Nil
    then show ?thesis by (simp add: yields_def)
  next
    case (snoc rest s)
    let ?view = "dom_get (sb_dom env) (sd_new_tree sd)"
    let ?P = "\<lambda>old. \<forall>inst md. get_old_instance env sd old = Some (Some (inst, md)) \<longrightarrow> md_middleware md \<noteq> Some ProjectMw"
    have mw: "get_best_middleware env sd s \<noteq> Some ProjectMw" using Suc.prems(1) snoc by simp
    obtain v' r where step: "sync_step env sd c s fs v = (v', r)" by (cases "sync_step env sd c s fs v")
    have "stays (files_as (se_ops (sb_files env)) view ok (backend v)) True (sync_step env sd c s fs)"
      by (rule tree_backend.stays_sync_step [OF assms(1) refl]) (simp add: mw)
    from stays_fuel [OF this files_as_refl _ step] have fuel: "r \<noteq> OutOfFuel" by simp
    show ?thesis
    proof (cases r)
      case (Done found)
      obtain fs' cs where found: "found = (fs', cs)" by fastforce
      have "gives (\<lambda>(fs', cs). cs = [] \<or> (\<exists>inst. new_inst env sd s = Some inst \<and> child_snapshots ?P (i_children inst) cs))
          (sync_step env sd c s fs)"
        by (rule step_gives [OF _ mw]) (metis assms(4) old_found)
      then have children: "cs = [] \<or> (\<exists>inst. new_inst env sd s = Some inst \<and> child_snapshots ?P (i_children inst) cs)"
        using step Done found by (auto simp: gives_def)
      have "subtree_size ?view (ss_new s) \<noteq> 0"
        unfolding subtree_size_def using subtree_finite [OF assms(2,3), of "ss_new s"] by (auto simp: card_eq_0_iff)
      then have "sum_list (map (\<lambda>s. subtree_size ?view (ss_new s)) cs) < subtree_size ?view (ss_new s)"
        using children children_smaller [OF assms(2,3), of "ss_new s" _ "map ss_new cs"]
        by (auto simp: child_snapshots_def new_inst_def get_new_instance_def comp_def)
      then have "sum_list (map (\<lambda>s. subtree_size ?view (ss_new s)) (rest @ cs)) \<le> n"
        using Suc.prems(2) snoc by simp
      moreover have "get_best_middleware env sd s' \<noteq> Some ProjectMw" if "s' \<in> set (rest @ cs)" for s'
      proof (cases "s' \<in> set cs")
        case True
        then show ?thesis using children child_not_project [of s' env sd] by (auto simp: child_snapshots_def)
      next
        case False
        then show ?thesis using that Suc.prems(1) snoc by simp
      qed
      ultimately have "snd (sync_loop env sd c n (rest @ cs) fs' v') \<noteq> OutOfFuel" by (rule Suc.IH [rotated])
      then show ?thesis using step Done found snoc by (simp add: and_then_def)
    qed (use step fuel snoc in \<open>simp_all add: and_then_def\<close>)
  qed
qed

text \<open>Two small trees with all that syncback asks for.\<close>

definition sample_syncback_env :: "(in_memory_fs, nat ref_dom, nat) syncback_env" where
  "sample_syncback_env = \<lparr>sb_files = small_env nameless_project, sb_dom = ref_dom_ops, sb_hash = sample_hash_env,
     sb_ids = \<lparr>ie_text = \<lambda>_. ''id'', ie_now = \<lambda>n. Some n\<rparr>, sb_model_format = None, sb_fs_is_dir = \<lambda>_. False,
     sb_fs_exists = \<lambda>_. True, sb_lowercase = \<lambda>s. s, sb_write_adjacent = \<lambda>_. Some ''{}'', sb_write_directory = \<lambda>_. Some ''{}'',
     sb_write_model = \<lambda>_. Some ''{}'', sb_write_project = \<lambda>_. Some ''{}'', sb_write_rbxm = \<lambda>_ _. Some [],
     sb_write_rbxmx = \<lambda>_ _. Some []\<rparr>"

definition sample_old_tree :: "(nat ref_dom, nat) rojo_tree" where
  "sample_old_tree = \<lparr>rt_inner = two_children,
     rt_metadata_map = [(Ref 0, metadata_new\<lparr>md_middleware := Some ProjectMw\<rparr>), (Ref 1, metadata_new), (Ref 2, metadata_new)],
     rt_path_to_ids = mm_new, rt_specified_id_to_refs = mm_new\<rparr>"

text \<open>
  A tree in which the tags of one child have changed, the old tree with the files its children come
  from, and the hashes of both.
\<close>

definition two_children_changed :: "nat ref_dom" where
  "two_children_changed =
     (let d = rd_new \<lparr>b_class = ''Folder'', b_name = ''r'', b_properties = []\<rparr>;
          d = fst (the (rd_insert d (Ref 0) \<lparr>b_class = ''Folder'', b_name = ''b'', b_properties = []\<rparr>))
      in fst (the (rd_insert d (Ref 0) \<lparr>b_class = ''Folder'', b_name = ''a'',
        b_properties = [(''Tags'', VTags [''z''])]\<rparr>)))"

definition changed_node :: "nat inst" where
  "changed_node = \<lparr>i_referent = Ref 2, i_parent = Ref 0, i_name = ''a'', i_class = ''Folder'',
     i_properties = [(''Tags'', VTags [''z''])], i_children = []\<rparr>"

definition metadata_at :: "path \<Rightarrow> nat instance_metadata" where
  "metadata_at p = metadata_new\<lparr>md_instigating_source := Some (SourcePath p), md_relevant_paths := [p]\<rparr>"

definition changed_old_tree :: "(nat ref_dom, nat) rojo_tree" where
  "changed_old_tree = sample_old_tree\<lparr>rt_metadata_map := [(Ref 0, metadata_new\<lparr>md_middleware := Some ProjectMw\<rparr>),
     (Ref 1, metadata_at [RootDir, Normal ''src'', Normal ''b'']), (Ref 2, metadata_at [RootDir, Normal ''src'', Normal ''a''])]\<rparr>"

definition changed_data :: "(nat ref_dom, nat) syncback_data" where
  "changed_data = \<lparr>sd_old_tree = changed_old_tree, sd_new_tree = two_children_changed, sd_project = nameless_project\<rparr>"

definition changed_context :: sync_context where
  "changed_context = \<lparr>sc_globs = None, sc_base = [RootDir],
     sc_old_hashes = the (hash_tree sample_hash_env nameless_project ref_dom_ops two_children (Ref 0)),
     sc_new_hashes = the (hash_tree sample_hash_env nameless_project ref_dom_ops two_children_changed (Ref 0))\<rparr>"

definition changed_env :: "(in_memory_fs, nat ref_dom, nat) syncback_env" where
  "changed_env = sample_syncback_env\<lparr>sb_files := (small_env nameless_project)\<lparr>se_globs := default_glob_env\<rparr>\<rparr>"

lemma two_children_changed_view: "dom_get ref_dom_ops two_children_changed = two_nodes (plain_node 1) changed_node"
  by (rule ext) (simp add: two_children_changed_def ref_dom_ops_def rd_new_def rd_insert_def rd_get_def built_def Let_def
      two_nodes_def plain_node_def changed_node_def)

lemma two_children_changed_wf:
  "dom_wf (dom_get ref_dom_ops two_children_changed) (Ref 0)" "finite (dom (dom_get ref_dom_ops two_children_changed))"
  unfolding two_children_changed_view by (rule two_nodes_wf; simp add: plain_node_def changed_node_def)+

declare should_property_serialize.simps [code] names_up.simps [code] json_models.simps [code]

lemma changed_hashes:
  "sc_old_hashes changed_context = [(Ref 2, ''aFolderTagsabc''), (Ref 1, ''bFolder''), (Ref 0, ''rFolderaFolderTagsabcbFolder'')]"
  "sc_new_hashes changed_context = [(Ref 2, ''aFolderTagsz''), (Ref 1, ''bFolder''), (Ref 0, ''rFolderaFolderTagszbFolder'')]"
proof -
  have "descendants ref_dom_ops two_children_changed (Ref 0) = Some [Ref 0, Ref 1, Ref 2]"
    by (simp add: descendants_def two_children_changed_view walk_steps changed_node_def)
  note orders = this two_children_order
  have "fold_panic (hash_step sample_hash_env nameless_project ref_dom_ops two_children) (rev [Ref 0, Ref 1, Ref 2]) [] =
      Some [(Ref 2, ''aFolderTagsabc''), (Ref 1, ''bFolder''), (Ref 0, ''rFolderaFolderTagsabcbFolder'')]"
    "fold_panic (hash_step sample_hash_env nameless_project ref_dom_ops two_children_changed) (rev [Ref 0, Ref 1, Ref 2]) [] =
      Some [(Ref 2, ''aFolderTagsz''), (Ref 1, ''bFolder''), (Ref 0, ''rFolderaFolderTagszbFolder'')]"
    by code_simp+
  then show
    "sc_old_hashes changed_context = [(Ref 2, ''aFolderTagsabc''), (Ref 1, ''bFolder''), (Ref 0, ''rFolderaFolderTagsabcbFolder'')]"
    "sc_new_hashes changed_context = [(Ref 2, ''aFolderTagsz''), (Ref 1, ''bFolder''), (Ref 0, ''rFolderaFolderTagszbFolder'')]"
    by (simp_all only: changed_context_def hash_tree_def orders bind.bind_lunit option.sel sync_context.simps)
qed

lemma changed_context_known:
  "changed_context = \<lparr>sc_globs = None, sc_base = [RootDir],
     sc_old_hashes = [(Ref 2, ''aFolderTagsabc''), (Ref 1, ''bFolder''), (Ref 0, ''rFolderaFolderTagsabcbFolder'')],
     sc_new_hashes = [(Ref 2, ''aFolderTagsz''), (Ref 1, ''bFolder''), (Ref 0, ''rFolderaFolderTagszbFolder'')]\<rparr>"
  using changed_hashes by (simp add: changed_context_def)

text \<open>The stack with the changed root, which is a directory, and what it amounts to.\<close>

definition changed_stack :: "syncback_snapshot list" where
  "changed_stack = [\<lparr>ss_old = Some (Ref 0), ss_new = Ref 0, ss_path = [RootDir, Normal ''src''], ss_middleware = Some DirMw\<rparr>]"

lemma changed_old_instance:
  "get_old_instance changed_env changed_data r =
    Some (map_option (\<lambda>inst. (inst, if r = Ref 0 then metadata_new\<lparr>md_middleware := Some ProjectMw\<rparr>
        else metadata_at [RootDir, Normal ''src'', Normal (if r = Ref 1 then ''b'' else ''a'')]))
      (two_nodes (plain_node 1) (tagged_node 2) r))"
  using two_children_view
  by (auto simp: get_old_instance_def get_instance_def changed_env_def sample_syncback_env_def changed_data_def changed_old_tree_def
      sample_old_tree_def two_nodes_def split: option.split)

lemma syncback_ends_witness:
  "snd (sync_loop changed_env changed_data changed_context 3 changed_stack fs_snapshot_new (small_files [])) \<noteq> OutOfFuel \<and>
   snd (sync_loop changed_env changed_data changed_context 3 changed_stack fs_snapshot_new (small_files [])) =
     Done (fs_snapshot_new\<lparr>fs_added_dirs := [[RootDir, Normal ''src'', Normal ''a'']],
       fs_added_files := [([RootDir, Normal ''src'', Normal ''a'', Normal ''init.meta.json''], ''{}'')]\<rparr>)"
proof
  let ?view = "dom_get (sb_dom changed_env) (sd_new_tree changed_data)"
  have new: "?view = two_nodes (plain_node 1) changed_node"
    by (simp add: changed_env_def sample_syncback_env_def changed_data_def two_children_changed_view)
  have wf: "dom_wf ?view (Ref 0)" "finite (dom ?view)"
    unfolding new by (rule two_nodes_wf; simp add: plain_node_def changed_node_def)+
  show "snd (sync_loop changed_env changed_data changed_context 3 changed_stack fs_snapshot_new (small_files [])) \<noteq> OutOfFuel"
  proof (rule syncback_ends [OF _ wf])
    have "se_ops (sb_files changed_env) = in_memory_backend" by (simp add: changed_env_def small_env_def)
    then show "tree_backend (se_ops (sb_files changed_env)) im_view (\<lambda>fs. children_below (entries fs))"
      by (simp add: imtree.tree_backend_axioms)
    show "i_referent inst' = r \<and> md_middleware md' \<noteq> Some ProjectMw"
      if "get_old_instance changed_env changed_data p = Some (Some (inst, md))" "r \<in> set (i_children inst)"
        "get_old_instance changed_env changed_data r = Some (Some (inst', md'))" for r p inst inst' md md'
      using that by (auto simp: changed_old_instance two_nodes_def metadata_at_def metadata_new_def plain_node_def tagged_node_def
          split: if_splits)
    show "get_best_middleware changed_env changed_data s \<noteq> Some ProjectMw" if "s \<in> set changed_stack" for s
      using that by (auto simp: changed_stack_def get_best_middleware_def Option.bind_eq_Some_conv)
    have "subtree_size ?view (Ref 0) \<le> card {Ref 0, Ref 1, Ref 2}"
      unfolding subtree_size_def using descends_in_view [OF wf(1), of "Ref 0"]
      by (intro card_mono) (auto simp: new)
    also have "\<dots> \<le> 3" by (simp add: card_insert_if)
    finally show "sum_list (map (\<lambda>s. subtree_size ?view (ss_new s)) changed_stack) \<le> 3" by (simp add: changed_stack_def)
  qed
  show "snd (sync_loop changed_env changed_data changed_context 3 changed_stack fs_snapshot_new (small_files [])) =
     Done (fs_snapshot_new\<lparr>fs_added_dirs := [[RootDir, Normal ''src'', Normal ''a'']],
       fs_added_files := [([RootDir, Normal ''src'', Normal ''a'', Normal ''init.meta.json''], ''{}'')]\<rparr>)"
    unfolding changed_context_known by code_simp
qed

text \<open>A whole run: a project whose root is the folder \<open>game\<close>, and the changed tree for it.\<close>

declare walk.simps [code] collect_filter.simps [code]

definition game_project :: "nat project" where
  "game_project = nameless_project\<lparr>p_name := Some ''r'',
     p_tree := ProjectNode None None [] [] [] None (Some (Required [Normal ''game''])),
     p_file_location := [RootDir, Normal ''src'', Normal ''a.project.json'']\<rparr>"

definition game_env :: "(in_memory_fs, nat ref_dom, nat) syncback_env" where
  "game_env = sample_syncback_env\<lparr>sb_files := (small_env game_project)\<lparr>se_globs := default_glob_env\<rparr>\<rparr>"

definition game_files :: "in_memory_fs vfs" where
  "game_files = small_files [(''a.project.json'', VFile ''{}''), (''game'', VDir [])]"

definition game_tree :: "(nat ref_dom, nat) rojo_tree" where
  "game_tree = changed_old_tree\<lparr>rt_metadata_map := hm_insert (Ref 0) (metadata_new\<lparr>md_middleware := Some ProjectMw,
     md_relevant_paths := [[RootDir, Normal ''src'', Normal ''a.project.json'']]\<rparr>) (rt_metadata_map changed_old_tree)\<rparr>"

lemma syncback_only_reads_witness:
  "\<exists>v' old. syncback_loop game_env 5 game_tree two_children_changed game_project game_files =
      (v', Done (old, fs_snapshot_new\<lparr>fs_added_dirs := [[RootDir, Normal ''src'', Normal ''game'', Normal ''a'']]\<rparr>)) \<and>
    im_view (backend v') = im_view (backend game_files)"
proof -
  obtain v' r where run: "syncback_loop game_env 5 game_tree two_children_changed game_project game_files = (v', r)" by fastforce
  have "map_outcome id snd (snd (syncback_loop game_env 5 game_tree two_children_changed game_project game_files)) =
      Done (fs_snapshot_new\<lparr>fs_added_dirs := [[RootDir, Normal ''src'', Normal ''game'', Normal ''a'']]\<rparr>)"
    by code_simp
  then obtain old where "r = Done (old, fs_snapshot_new\<lparr>fs_added_dirs := [[RootDir, Normal ''src'', Normal ''game'', Normal ''a'']]\<rparr>)"
    unfolding run by (cases r) auto
  moreover have "se_ops (sb_files game_env) = in_memory_backend" by (simp add: game_env_def small_env_def)
  then have "tree_backend (se_ops (sb_files game_env)) im_view (\<lambda>fs. children_below (entries fs))"
    by (simp add: imtree.tree_backend_axioms)
  from syncback_only_reads [OF this run] have "im_view (backend v') = im_view (backend game_files)" by blast
  ultimately show ?thesis using run by blast
qed

end
