(* ===== verification/Syncback_Properties.thy ===== *)
theory Syncback_Properties
  imports Syncback_Laws File_Names
begin

text \<open>
  What a run of syncback amounts to: nothing for equal trees, no end for a project whose root is
  another project, and the places its result differs from what the source means.
\<close>

section \<open>Equal trees\<close>

lemma root_path:
  assumes "dom_wf (dom_get D d) (dom_root D d)"
  shows "inst_path D d (dom_root D d) = Some []"
proof -
  let ?view = "dom_get D d"
  obtain i where i: "?view (dom_root D d) = Some i" "i_parent i = NoRef" "?view NoRef = None"
    using dom_wfD(1,2) [OF assms] by blast
  then have "names_up ?view (dom_root D d) = Some [i_name i]"
    by (simp add: names_up.simps [of ?view "dom_root D d"] names_up.simps [of ?view NoRef])
  then show ?thesis by (simp add: inst_path_def)
qed

text \<open>
  C10. When the two trees, as they are after preparation (pruning, filtering, linking and renaming), map
  onto each other instance by instance, syncback writes nothing, in one turn: with ignore patterns that
  compile, a project file in a folder, and values that can be hashed.  Referents, the order of children
  and the order of properties may differ.  Trees that only become different by the preparation, for
  instance by an id for the target of a reference, are written.
\<close>

theorem equal_trees_write_nothing:
  fixes env :: "('s, 'd, 'o) syncback_env"
  assumes "(case p_syncback_rules project of None \<Rightarrow> True
      | Some rules \<Rightarrow> (\<exists>globs. compile_globs (se_globs (sb_files env)) rules = Inr globs))"
    and "prepare_trees env project old_tree new_tree v = (v', Done (old, new))"
    and "dom_wf (dom_get (sb_dom env) (rt_inner old)) (get_root_id (sb_dom env) old)"
    and "dom_wf (dom_get (sb_dom env) new) (dom_root (sb_dom env) new)"
    and "finite (dom (dom_get (sb_dom env) (rt_inner old)))" and "finite (dom (dom_get (sb_dom env) new))"
    and "\<And>x inst. dom_get (sb_dom env) (rt_inner old) x = Some inst \<Longrightarrow> hash_inst_filtered (sb_hash env) project inst \<noteq> None"
    and "\<And>x inst. dom_get (sb_dom env) new x = Some inst \<Longrightarrow> hash_inst_filtered (sb_hash env) project inst \<noteq> None"
    and "\<And>x. descends (dom_get (sb_dom env) (rt_inner old)) (get_root_id (sb_dom env) old) x \<Longrightarrow>
      \<exists>inst inst'. dom_get (sb_dom env) (rt_inner old) x = Some inst \<and> dom_get (sb_dom env) new (f x) = Some inst' \<and>
        same_but_order f inst inst'"
    and "f (get_root_id (sb_dom env) old) = dom_root (sb_dom env) new"
    and "path_parent (p_file_location project) \<noteq> None"
  shows "syncback_loop env (Suc n) old_tree new_tree project v = (v', Done (old, fs_snapshot_new))"
proof -
  let ?D = "sb_dom env" and ?old_root = "get_root_id (sb_dom env) old" and ?new_root = "dom_root (sb_dom env) new"
  obtain globs where globs: "(case p_syncback_rules project of None \<Rightarrow> Inr None
      | Some rules \<Rightarrow> map_sum PatternNotGlob Some (compile_globs (se_globs (sb_files env)) rules)) =
      (Inr globs :: 'o syncback_error + ignorable_glob list option)"
    using assms(1) by (auto split: option.splits)
  have known: "\<forall>x inst. dom_get ?D (rt_inner old) x = Some inst \<longrightarrow> hash_inst_filtered (sb_hash env) project inst \<noteq> None"
    "\<forall>x inst. dom_get ?D new x = Some inst \<longrightarrow> hash_inst_filtered (sb_hash env) project inst \<noteq> None"
    using assms(7,8) by blast+
  have related: "\<forall>x. descends (dom_get ?D (rt_inner old)) ?old_root x \<longrightarrow> (\<exists>inst inst'. dom_get ?D (rt_inner old) x = Some inst \<and>
      dom_get ?D new (f x) = Some inst' \<and> same_but_order f inst inst')"
    using assms(9) by blast
  obtain m m' where m: "hash_tree (sb_hash env) project ?D (rt_inner old) ?old_root = Some m"
      "hash_tree (sb_hash env) project ?D new (f ?old_root) = Some m'"
    and all: "\<forall>x. descends (dom_get ?D (rt_inner old)) ?old_root x \<longrightarrow> hm_get m x \<noteq> None \<and> hm_get m x = hm_get m' (f x)"
    using hashes_agree [OF assms(3-6) known related] by (elim exE conjE) (rule that)
  note m = m [unfolded assms(10)]
  have same: "hm_get m ?old_root \<noteq> None" "hm_get m ?old_root = hm_get m' ?new_root"
    using all assms(10) by (metis rtranclp.rtrancl_refl)+
  obtain base where base: "folder_location project = Some base"
    using assms(11) by (auto simp: folder_location_def)
  let ?sd = "\<lparr>sd_old_tree = old, sd_new_tree = new, sd_project = project\<rparr>"
  let ?c = "\<lparr>sc_globs = globs, sc_base = base, sc_old_hashes = m, sc_new_hashes = m'\<rparr>"
  let ?s = "first_snapshot ?D project old new"
  have "get_new_inst_path env ?sd (ss_new ?s) = Some []"
    using root_path [OF assms(4)] by (simp add: get_new_inst_path_def first_snapshot_def)
  moreover have "unchanged ?c ?s = Some True"
    using same by (auto simp: unchanged_def first_snapshot_def)
  ultimately have "sync_step env ?sd ?c ?s fs = yields (fs, [])" for fs
    by (simp add: sync_step_def of_panicking_def)
  then have "sync_loop env ?sd ?c (Suc n) [?s] fs = yields fs" for fs
    by (cases n) simp_all
  then show ?thesis
    using assms(2) m(1,2) base globs
    by (simp add: syncback_loop_def and_then_def of_result_def of_panicking_def yields_def del: sync_loop.simps)
qed

definition located_project :: "nat project" where
  "located_project = nameless_project\<lparr>p_file_location := [RootDir, Normal ''a.project.json'']\<rparr>"

lemma sample_orders:
  "descendants ref_dom_ops two_children (Ref 0) = Some [Ref 0, Ref 1, Ref 2]"
  "descendants ref_dom_ops two_children_swapped (Ref 0) = Some [Ref 0, Ref 1, Ref 2]"
  by (simp_all add: descendants_def two_children_view two_children_swapped_view walk_steps)

lemma sample_prepared:
  "prepare_trees sample_syncback_env located_project sample_old_tree two_children_swapped =
     yields (sample_old_tree, two_children_swapped)"
proof -
  have roots: "dom_root ref_dom_ops two_children_swapped = Ref 0" "get_root_id ref_dom_ops sample_old_tree = Ref 0"
    "rt_inner sample_old_tree = two_children" by code_simp+
  have no_filter: "get_property_filter classes located_project inst = Some None" for classes and inst :: "nat inst"
    by (simp add: get_property_filter_def located_project_def nameless_project_def)
  have "skips_pruning sample_syncback_env located_project = yields False"
    by (simp add: skips_pruning_def located_project_def nameless_project_def)
  moreover have "strip_unknown_root_children ref_dom_ops two_children_swapped sample_old_tree = Some two_children_swapped"
    by code_simp
  moreover have "collect_referents ref_dom_ops two_children_swapped = Some no_links"
    unfolding collect_referents_def roots sample_orders by code_simp
  moreover have "filter_new_tree classes located_project ref_dom_ops two_children_swapped = Some two_children_swapped" for classes
    unfolding filter_new_tree_def roots sample_orders
    by (simp add: filter_new_instance_def no_filter two_children_swapped_view)
  moreover have "filter_old_tree classes located_project ref_dom_ops sample_old_tree = Some sample_old_tree" for classes
    unfolding filter_old_tree_def roots sample_orders
    by (simp add: filter_old_instance_def no_filter expect_instance_def get_instance_def two_children_view sample_old_tree_def)
  moreover have "remove_camera located_project ref_dom_ops two_children_swapped = Some two_children_swapped"
    by (simp add: remove_camera_def located_project_def nameless_project_def)
  moreover have "link_new_tree sample_syncback_env located_project no_links two_children_swapped = yields two_children_swapped"
    by (simp add: link_new_tree_def ignores_referents_def link_referents_def write_id_attributes_def no_links_def mm_new_def
        mm_into_iter_def located_project_def nameless_project_def of_panicking_def of_result_def map_error_def)
  moreover have "\<exists>md. rt_root ref_dom_ops sample_old_tree = Some (the (dom_get ref_dom_ops two_children (Ref 0)), md)"
    by (simp add: rt_root_def roots get_instance_def two_children_view, simp add: sample_old_tree_def)
  moreover have "rename_root ref_dom_ops (i_name (the (dom_get ref_dom_ops two_children (Ref 0)))) two_children_swapped = Some two_children_swapped"
    by code_simp
  ultimately show ?thesis
    by (auto simp: prepare_trees_def sample_syncback_env_def of_panicking_def)
qed

lemma equal_trees_write_nothing_witness:
  "syncback_loop sample_syncback_env 1 sample_old_tree two_children_swapped located_project (small_files []) =
     (small_files [], Done (sample_old_tree, fs_snapshot_new))"
proof -
  have samples: "sb_dom sample_syncback_env = ref_dom_ops" "sb_hash sample_syncback_env = sample_hash_env"
    "rt_inner sample_old_tree = two_children" "get_root_id ref_dom_ops sample_old_tree = Ref 0"
    "dom_root ref_dom_ops two_children_swapped = Ref 0"
    by (simp_all add: sample_syncback_env_def sample_old_tree_def get_root_id_def ref_dom_ops_def two_children_def
        two_children_swapped_def rd_new_def rd_insert_def rd_get_def Let_def)
  have bytes: "hash_inst_filtered sample_hash_env located_project inst = hash_inst_filtered sample_hash_env nameless_project inst" for inst
    by (simp add: hash_inst_filtered_def filter_properties_def syncs_unscriptable_def located_project_def nameless_project_def)
  have prepared: "prepare_trees sample_syncback_env located_project sample_old_tree two_children_swapped (small_files []) =
      (small_files [], Done (sample_old_tree, two_children_swapped))"
    by (simp add: sample_prepared yields_def)
  have "syncback_loop sample_syncback_env (Suc 0) sample_old_tree two_children_swapped located_project (small_files []) =
      (small_files [], Done (sample_old_tree, fs_snapshot_new))"
    by (rule equal_trees_write_nothing [where f = swapped, OF _ prepared, unfolded samples bytes];
        (rule two_children_hashable sample_isomorphic)?)
      (simp_all add: two_children_hashable(3,6) located_project_def nameless_project_def swapped_def path_parent_def)
  then show ?thesis by simp
qed


section \<open>A project whose root is a project\<close>

text \<open>New children that all exist in the old tree ask for nothing.\<close>

lemma new_children_met:
  assumes "set (map fst news) = set (map fst olds)" and "hm_ok news" and "\<forall>(name, child) \<in> set news. hm_get paths (i_parent child) \<noteq> None"
  shows "new_children env sd rules paths news olds = yields ([], [])"
  using assms
proof (induction news arbitrary: olds)
  case (Cons new news)
  obtain name child where new: "new = (name, child)" by fastforce
  have "hm_contains_key olds name" using Cons.prems(1) new by (auto simp: map_of_eq_None_iff)
  moreover have "set (map fst news) = set (map fst (hm_remove name olds))"
    using Cons.prems(1,2) new by (simp add: delete_keys) blast
  then have "new_children env sd rules paths news (hm_remove name olds) = yields ([], [])"
    using Cons.prems(2,3) by (intro Cons.IH) auto
  ultimately show ?case using Cons.prems(3) new by (auto simp: not_None_eq)
qed simp

text \<open>One run of \<open>syncback_project\<close> on such a project, in any state with the same files.\<close>

lemma nested_project_step:
  fixes env :: "('s, 'd, 'o) syncback_env"
  assumes files: "tree_backend (se_ops (sb_files env)) view ok"
    and old: "get_old_instance env sd r = Some (Some (old, md))" "md_relevant_paths md \<noteq> []"
    and load: "snd (load_project (sb_files env) (last (md_relevant_paths md)) None v) = Done project"
    and root: "p_tree project = ProjectNode cl id_text [] [] [] ign (Some node_path)" "folder_location project = Some base"
    and mw: "snd (middleware_of_path env (map (\<lambda>rule. rule\<lparr>sr_base_path := base\<rparr>) (p_sync_rules project)) 
        (node_full_path base (pn_path node_path)) v) = Done (Some ProjectMw)"
    and new: "get_new_instance env sd r' = Some new" "i_referent new = r'" "i_class new = i_class old"
    and news: "by_unique_name (get_new_instance env sd) i_name (\<lambda>name. NewChildTwice name (i_name old)) (i_children new) [] =
        Some (Inr news :: 'o syncback_error + (string, 'o inst) hash_map)"
      "\<forall>(name, child) \<in> set news. i_parent child = r'" "hm_ok news"
    and olds: "by_unique_name (expect_instance (sb_dom env) (sd_old_tree sd)) (\<lambda>(i, _). i_name i)
      (\<lambda>name. OldChildTwice name (i_name old)) (i_children old) [] =
        Some (Inr olds :: 'o syncback_error + (string, 'o inst \<times> 'o instance_metadata) hash_map)" "set (map fst news) = set (map fst olds)"
    and refs: "i_referent old = r"
    and attrs: "hm_get (i_properties old) ''Attributes'' = None"
    and s: "ss_old s = Some r" "ss_new s = r'"
    and v0: "files_as (se_ops (sb_files env)) view ok (backend v) v0"
  shows "\<exists>v'. files_as (se_ops (sb_files env)) view ok (backend v) v' \<and>
    syncback_project env sd s v0 = (v', Done \<lparr>ret_fs = fs_snapshot_new, ret_children =
      [\<lparr>ss_old = Some r, ss_new = r', ss_path = node_full_path base (pn_path node_path), ss_middleware = Some ProjectMw\<rparr>],
      ret_removed = []\<rparr>)"
proof -
  let ?ops = "se_ops (sb_files env)" and ?p = "last (md_relevant_paths md)"
  let ?same = "files_as ?ops view ok (backend v)"
  let ?rules = "map (\<lambda>rule. rule\<lparr>sr_base_path := base\<rparr>) (p_sync_rules project)"
  let ?full = "node_full_path base (pn_path node_path)"
  have v: "?same v" by simp
  obtain v1 where v1: "load_project (sb_files env) ?p None v0 = (v1, Done project)" "?same v1"
  proof -
    note stays = tree_backend.stays_load [OF files refl, of "backend v" False ?p None]
    have "snd (load_project (sb_files env) ?p None v0) = Done project" using stays_result [OF stays v v0] load by simp
    then show ?thesis using that stays_keeps [OF stays v0] by (cases "load_project (sb_files env) ?p None v0") auto
  qed
  obtain v2 where v2: "middleware_of_path env ?rules ?full v1 = (v2, Done (Some ProjectMw))" "?same v2"
  proof -
    note stays = tree_backend.stays_middleware_of_path [OF files refl, of "backend v" False ?rules ?full]
    have "snd (middleware_of_path env ?rules ?full v1) = Done (Some ProjectMw)" using stays_result [OF stays v v1(2)] mw by simp
    then show ?thesis using that stays_keeps [OF stays v1(2)] by (cases "middleware_of_path env ?rules ?full v1") auto
  qed
  let ?s = "\<lparr>ss_old = Some r, ss_new = r', ss_path = ?full, ss_middleware = Some ProjectMw\<rparr>"
  let ?run = "\<lparr>pr_tree = p_tree project, pr_snapshots = [], pr_removed = [], pr_paths = [], pr_changed = [], pr_stale = False\<rparr>"
  have node: "node_at [] (p_tree project) = Some (p_tree project)" "pj_path (p_tree project) = Some node_path"
    "pj_children (p_tree project) = []" "pj_properties (p_tree project) = []" "pj_attributes (p_tree project) = []"
    "node_count (p_tree project) = 1"
    by (simp_all add: root)
  have settled_values: "sync_node_values env sd ?rules base \<lparr>qn_address = [], qn_old = (old, md), qn_new = new\<rparr> (p_tree project) ?run v1 =
      (v2, Done (note_snapshot ?s r' ?full ?run))"
    by (simp add: Let_def and_then_def v2(1) sync_node_values_def node new refs with_new_path_def handles_own_properties_def yields_def)
  have "new_children env sd ?rules (pr_paths (note_snapshot ?s r' ?full ?run)) news olds = yields ([], [])"
    using news(2) by (intro new_children_met olds(2) news(3)) (auto simp: note_snapshot_def)
  then have step: "sync_node env sd ?rules base ?p \<lparr>qn_address = [], qn_old = (old, md), qn_new = new\<rparr> ?run v1 =
      (v2, Done ([], (note_snapshot ?s r' ?full ?run)\<lparr>pr_changed := [([], [], old)]\<rparr>))"
    using news(1) olds(1)
    by (simp add: Let_def and_then_def settled_values sync_node_def new node of_panicking_def children_by_unique_name_def of_result_def note_snapshot_def yields_def)
  have "sync_nodes env sd ?rules base ?p 1 [\<lparr>qn_address = [], qn_old = (old, md), qn_new = new\<rparr>] ?run v1 =
      (v2, Done ((note_snapshot ?s r' ?full ?run)\<lparr>pr_changed := [([], [], old)]\<rparr>))"
    by (simp add: Let_def and_then_def step yields_def)
  then have "syncback_project env sd s v0 = (v2, Done \<lparr>ret_fs = fs_snapshot_new, ret_children = [?s], ret_removed = []\<rparr>)"
    using old s new(1) root(2) attrs
    by (simp add: Let_def and_then_def v1(1) mapping_error_def syncback_project_def old_inst_def new_inst_def of_panicking_def node note_snapshot_def
        project_node_should_reserialize_def of_result_def map_error_def yields_def del: sync_nodes.simps)
  with v2(2) show ?thesis by auto
qed

text \<open>
  C33. \<open>syncback_project\<close> reads the project file named last among the relevant paths of the instance, which
  for the root of a session is the outermost file.  If the root of that project has nothing but the
  path of another project, the snapshot for that path reads the outermost file again.  So the stack
  never becomes empty, for any number of turns, as long as the hashes of the two roots differ, their
  classes agree, their children have the same distinct names, the old root has no attributes, and
  neither path is ignored.  (Trees that hash alike end in one turn.)
\<close>

theorem nested_root_project_never_ends:
  fixes env :: "('s, 'd, 'o) syncback_env"
  assumes "tree_backend (se_ops (sb_files env)) view ok"
    and "get_old_instance env sd r = Some (Some (old, md))" "md_relevant_paths md \<noteq> []"
    and "snd (load_project (sb_files env) (last (md_relevant_paths md)) None v) = Done project"
    and "p_tree project = ProjectNode cl id_text [] [] [] ign (Some node_path)" "folder_location project = Some base"
    and "full_path = node_full_path base (pn_path node_path)"
    and "snd (middleware_of_path env (map (\<lambda>rule. rule\<lparr>sr_base_path := base\<rparr>) (p_sync_rules project)) full_path v) =
      Done (Some ProjectMw)"
    and "get_new_instance env sd r' = Some new" "i_referent new = r'" "i_class new = i_class old"
    and "by_unique_name (get_new_instance env sd) i_name (\<lambda>name. NewChildTwice name (i_name old)) (i_children new) [] =
        Some (Inr news :: 'o syncback_error + (string, 'o inst) hash_map)"
      "\<forall>(name, child) \<in> set news. i_parent child = r'" "hm_ok news"
    and "by_unique_name (expect_instance (sb_dom env) (sd_old_tree sd)) (\<lambda>(i, _). i_name i)
      (\<lambda>name. OldChildTwice name (i_name old)) (i_children old) [] =
        Some (Inr olds :: 'o syncback_error + (string, 'o inst \<times> 'o instance_metadata) hash_map)" "set (map fst news) = set (map fst olds)"
    and "i_referent old = r" "hm_get (i_properties old) ''Attributes'' = None"
    and "get_new_inst_path env sd r' = Some path_text" "\<not> in_ignored_tree (sd_project sd) path_text"
    and "hm_get (sc_old_hashes c) r = Some old_hash" "hm_get (sc_new_hashes c) r' = Some new_hash" "old_hash \<noteq> new_hash"
    and "\<forall>p \<in> {ss_path s, full_path}. valid_path env c p \<and> (\<forall>name. path_file_name p = Some name \<longrightarrow> validate_file_name name = Inr ())"
    and "ss_old s = Some r" "ss_new s = r'" "ss_middleware s = Some ProjectMw"
  shows "snd (sync_loop env sd c n [s] fs v) = OutOfFuel"
proof -
  let ?same = "files_as (se_ops (sb_files env)) view ok (backend v)"
  have step: "\<exists>v' s' fs'. sync_step env sd c s fs v0 = (v', Done (fs', [s'])) \<and> ?same v' \<and> ss_old s' = Some r \<and> ss_new s' = r' \<and>
      ss_middleware s' = Some ProjectMw \<and> ss_path s' = full_path"
    if v0: "?same v0" and s: "ss_old s = Some r" "ss_new s = r'" "ss_middleware s = Some ProjectMw"
      "valid_path env c (ss_path s)" "\<forall>name. path_file_name (ss_path s) = Some name \<longrightarrow> validate_file_name name = Inr ()" for s fs v0
  proof -
    let ?s' = "\<lparr>ss_old = Some r, ss_new = r', ss_path = full_path, ss_middleware = Some ProjectMw\<rparr>"
    obtain v' where v': "?same v'" "syncback_project env sd s v0 =
        (v', Done \<lparr>ret_fs = fs_snapshot_new, ret_children = [?s'], ret_removed = []\<rparr>)"
      using nested_project_step [OF assms(1-6) assms(8) [unfolded assms(7)] assms(9-18) s(1,2) v0] assms(7) by blast
    have "middleware_syncback env sd ProjectMw s v0 = (v', Done \<lparr>ret_fs = fs_snapshot_new, ret_children = [?s'], ret_removed = []\<rparr>)"
      using v'(2) s(5) by (simp add: middleware_syncback_def of_result_def map_error_def split: option.split)
    moreover have "get_best_middleware env sd s = Some ProjectMw"
      using s assms(2,9) by (simp add: get_best_middleware_def old_inst_def new_inst_def)
    moreover have "unchanged c s = Some False" using s assms(21-23) by (simp add: unchanged_def)
    ultimately have "sync_step env sd c s fs v0 = (v', Done (fs_merge_with_filter (valid_path env c) fs fs_snapshot_new, [?s']))"
      using assms(19,20) s
      by (simp add: sync_step_def of_panicking_def and_then_def syncback_or_model_cases yields_def)
    with v'(1) show ?thesis by auto
  qed
  have "snd (sync_loop env sd c n [s] fs v0) = OutOfFuel"
    if "?same v0" "ss_old s = Some r" "ss_new s = r'" "ss_middleware s = Some ProjectMw"
      "valid_path env c (ss_path s)" "\<forall>name. path_file_name (ss_path s) = Some name \<longrightarrow> validate_file_name name = Inr ()" for s fs v0
    using that
  proof (induction n arbitrary: s fs v0)
    case 0
    then show ?case by (simp add: out_of_fuel_def)
  next
    case (Suc n)
    from step [OF Suc.prems] obtain v' s' fs' where s': "sync_step env sd c s fs v0 = (v', Done (fs', [s']))" "?same v'"
        "ss_old s' = Some r" "ss_new s' = r'" "ss_middleware s' = Some ProjectMw" "ss_path s' = full_path" by blast
    have "snd (sync_loop env sd c n [s'] fs' v') = OutOfFuel"
      using s' assms(24) by (intro Suc.IH) auto
    with s'(1) show ?case by (simp add: and_then_def)
  qed
  with assms(24-27) show ?thesis by auto
qed

text \<open>The file \<open>outer.project.json\<close>, whose root is \<open>inner.project.json\<close> beside it.\<close>

definition nested_project :: "nat project" where
  "nested_project = nameless_project\<lparr>p_name := Some ''r'',
     p_tree := ProjectNode None None [] [] [] None (Some (Required [Normal ''inner.project.json'']))\<rparr>"

definition nested_env :: "(in_memory_fs, nat ref_dom, nat) syncback_env" where
  "nested_env = sample_syncback_env\<lparr>sb_files := (small_env nested_project)\<lparr>se_globs := default_glob_env\<rparr>\<rparr>"

definition nested_files :: "in_memory_fs vfs" where
  "nested_files = small_files [(''outer.project.json'', VFile ''{}''), (''inner.project.json'', VFile ''{}'')]"

definition nested_data :: "(nat ref_dom, nat) syncback_data" where
  "nested_data = changed_data\<lparr>sd_old_tree := sample_old_tree\<lparr>rt_metadata_map :=
     hm_insert (Ref 0) (metadata_new\<lparr>md_relevant_paths := [[RootDir, Normal ''src'', Normal ''inner.project.json''],
       [RootDir, Normal ''src'', Normal ''outer.project.json'']]\<rparr>) (rt_metadata_map sample_old_tree)\<rparr>\<rparr>"

definition outer_path :: path where "outer_path = [RootDir, Normal ''src'', Normal ''outer.project.json'']"
definition inner_path :: path where "inner_path = [RootDir, Normal ''src'', Normal ''inner.project.json'']"

lemma nested_files_known:
  "snd (load_project (sb_files nested_env) outer_path None nested_files) = Done (nested_project\<lparr>p_file_location := outer_path\<rparr>)"
  "snd (middleware_of_path nested_env [] inner_path nested_files) = Done (Some ProjectMw)"
  by code_simp+

lemma nested_children_known:
  "by_unique_name (get_new_instance nested_env nested_data) i_name (\<lambda>name. NewChildTwice name ''r'') [Ref 1, Ref 2] [] =
     Some (Inr [(''b'', plain_node 1), (''a'', changed_node)] :: nat syncback_error + (string, nat inst) hash_map)"
  "by_unique_name (expect_instance (sb_dom nested_env) (sd_old_tree nested_data)) (\<lambda>(i, _). i_name i)
     (\<lambda>name. OldChildTwice name ''r'') [Ref 1, Ref 2] [] =
     Some (Inr [(''b'', plain_node 1, metadata_new), (''a'', tagged_node 2, metadata_new)]
       :: nat syncback_error + (string, nat inst \<times> nat instance_metadata) hash_map)"
  by code_simp+

definition nested_snapshot :: syncback_snapshot where
  "nested_snapshot = \<lparr>ss_old = Some (Ref 0), ss_new = Ref 0, ss_path = outer_path, ss_middleware = Some ProjectMw\<rparr>"

lemma nested_root_project_never_ends_witness:
  "snd (sync_loop nested_env nested_data changed_context 5 [nested_snapshot] fs_snapshot_new nested_files) = OutOfFuel"
proof -
  let ?md = "metadata_new\<lparr>md_relevant_paths := [inner_path, outer_path]\<rparr>"
  let ?root = "\<lparr>i_referent = Ref 0, i_parent = NoRef, i_name = ''r'', i_class = ''Folder'', i_properties = [],
    i_children = [Ref 1, Ref 2]\<rparr> :: nat inst"
  have files: "se_ops (sb_files nested_env) = in_memory_backend"
    by (simp add: nested_env_def small_env_def)
  have backend: "tree_backend (se_ops (sb_files nested_env)) im_view (\<lambda>fs. children_below (entries fs))"
    unfolding files by (rule imtree.tree_backend_axioms)
  have old: "get_old_instance nested_env nested_data (Ref 0) = Some (Some (?root, ?md))" by code_simp
  have new: "get_new_instance nested_env nested_data (Ref 0) = Some ?root" by code_simp
  have full: "inner_path = node_full_path [RootDir, Normal ''src''] (pn_path (Required [Normal ''inner.project.json'']))"
    by code_simp
  have same_root: "dom_root ref_dom_ops two_children_changed = Ref 0" by code_simp
  have path_text: "get_new_inst_path nested_env nested_data (Ref 0) = Some []"
    using root_path [of ref_dom_ops two_children_changed] two_children_changed_wf(1)
    by (simp add: same_root get_new_inst_path_def nested_env_def nested_data_def sample_syncback_env_def changed_data_def)
  have md: "md_relevant_paths ?md \<noteq> []" "last (md_relevant_paths ?md) = outer_path" by simp_all
  let ?project = "nested_project\<lparr>p_file_location := outer_path\<rparr>"
  have project: "p_tree ?project = ProjectNode None None [] [] [] None (Some (Required [Normal ''inner.project.json'']))"
    "folder_location ?project = Some [RootDir, Normal ''src'']" "p_sync_rules ?project = []"
    by (simp_all add: nested_project_def nameless_project_def folder_location_def path_parent_def outer_path_def)
  have paths: "\<forall>p \<in> {ss_path nested_snapshot, inner_path}. valid_path nested_env changed_context p \<and>
      (\<forall>name. path_file_name p = Some name \<longrightarrow> validate_file_name name = Inr ())"
  proof -
    have "valid_path nested_env changed_context p" if "p \<in> {outer_path, inner_path}" for p
      using that unfolding changed_context_known by (elim insertE emptyE; hypsubst) code_simp+
    moreover have "validate_file_name ''outer.project.json'' = Inr ()" "validate_file_name ''inner.project.json'' = Inr ()"
      by code_simp+
    ultimately show ?thesis by (auto simp: nested_snapshot_def outer_path_def inner_path_def path_file_name_def)
  qed
  have fields: "i_name ?root = ''r''" "i_children ?root = [Ref 1, Ref 2]" by simp_all
  have children:
    "by_unique_name (get_new_instance nested_env nested_data) i_name (\<lambda>name. NewChildTwice name (i_name ?root)) (i_children ?root) [] =
       Some (Inr [(''b'', plain_node 1), (''a'', changed_node)] :: nat syncback_error + (string, nat inst) hash_map)"
    "by_unique_name (expect_instance (sb_dom nested_env) (sd_old_tree nested_data)) (\<lambda>(i, _). i_name i)
       (\<lambda>name. OldChildTwice name (i_name ?root)) (i_children ?root) [] =
       Some (Inr [(''b'', plain_node 1, metadata_new), (''a'', tagged_node 2, metadata_new)]
         :: nat syncback_error + (string, nat inst \<times> nat instance_metadata) hash_map)"
    unfolding fields by (rule nested_children_known)+
  have load: "snd (load_project (sb_files nested_env) (last (md_relevant_paths ?md)) None nested_files) = Done ?project"
    unfolding md(2) by (rule nested_files_known)
  have mw: "snd (middleware_of_path nested_env (map (\<lambda>rule. rule\<lparr>sr_base_path := [RootDir, Normal ''src'']\<rparr>) (p_sync_rules ?project))
      inner_path nested_files) = Done (Some ProjectMw)"
    unfolding project(3) list.map by (rule nested_files_known)
  have trees: "\<not> in_ignored_tree (sd_project nested_data) []"
    by (simp add: in_ignored_tree_def nested_data_def changed_data_def nameless_project_def)
  show ?thesis
    by (rule nested_root_project_never_ends [OF backend old md(1) load project(1,2) full mw new _ _ children(1) _ _ children(2) _ _ _
          path_text trees _ _ _ paths])
      (auto simp: changed_hashes nested_snapshot_def plain_node_def changed_node_def)
qed

end
