(* ===== verification/Serve_Session.thy ===== *)
theory Serve_Session
  imports Snapshot_Middleware Client_Registry Change_Processor
begin

text \<open>
  A serve session, \<open>src/src/serve_session.rs\<close>: everything one running server knows.  The mutex of
  the tree is its value and whether it is poisoned: a panic while the lock is held poisons it, and
  every later \<open>lock().unwrap()\<close> panics (in a build that unwinds; the profiles of \<open>Cargo.toml\<close> abort the
  process at the first panic).  The channel to the job thread is the list of what was sent
  and not yet received; it closes when the job thread ends.  The random session id and the clock are arguments.
\<close>

record ('s, 'd, 'o, 'q) serve_session =
  ss_start_time :: u64
  ss_root_project :: "'o project"
  ss_session_id :: "128 word"
  ss_tree :: "('d, 'o) rojo_tree"
  ss_tree_poisoned :: bool
  ss_vfs :: "'s vfs"
  ss_message_queue :: "('o applied_patch_set, 'q) message_queue"
  ss_tree_mutations :: "'o patch_set list"
  ss_job_running :: bool
  ss_project_id :: string
  ss_auto_connect_override :: "auto_connect_policy option"
  ss_clients :: client_registry

record ('s, 'd, 'o) session_env =
  sv_snapshot :: "('s, 'o) snapshot_env"
  sv_fuel :: nat
  sv_variants :: "'o variant_env"
  sv_dom :: "('d, 'o) dom_ops"
  sv_fs_canonicalize :: "path \<Rightarrow> path io_result"
  sv_to_string_lossy :: "path \<Rightarrow> string"
  sv_blake3_hex :: "string \<Rightarrow> string"

datatype 'o serve_session_error =
    SessionIo io_error
  | SessionProject project_error
  | SessionOther "'o snapshot_error"

text \<open>The tree of a new session, from its first snapshot.\<close>

definition initial_tree :: "('s, 'd, 'o) session_env \<Rightarrow> ('d, 'o) rojo_tree option" where
  "initial_tree env = rt_new (sv_dom env) snapshot_new"

definition session_tree :: "('s, 'd, 'o) session_env \<Rightarrow> 'o instance_snapshot option \<Rightarrow> ('d, 'o) rojo_tree option" where
  "session_tree env snapshot =
     do { t \<leftarrow> initial_tree env;
          patch_set \<leftarrow> compute_patch_set (sv_variants env) (sv_dom env) snapshot t (get_root_id (sv_dom env) t);
          (_, t') \<leftarrow> apply_patch_set (sv_dom env) patch_set t;
          Some t' }"

definition session_project_id :: "('s, 'd, 'o) session_env \<Rightarrow> 'o project \<Rightarrow> string option" where
  "session_project_id env project =
     (case p_project_id project of
        Some project_id \<Rightarrow> Some project_id
      | None \<Rightarrow> derive_project_id (sv_fs_canonicalize env) (sv_to_string_lossy env) (sv_blake3_hex env)
          (p_file_location project))"

definition session_load_project :: "('s, 'd, 'o) session_env \<Rightarrow> path \<Rightarrow>
    ('s vfs, 'o serve_session_error, 'o project) action" where
  "session_load_project env start_path = (\<lambda>v.
     case load_initial_project (project_from_slice (sv_snapshot env)) (se_ops (sv_snapshot env)) v start_path of
       None \<Rightarrow> (v, Panics)
     | Some (v', Inl e) \<Rightarrow> (v', Failed (SessionProject e))
     | Some (v', Inr project) \<Rightarrow> (v', Done project))"

definition session_take_snapshot :: "('s, 'd, 'o) session_env \<Rightarrow> 'o project \<Rightarrow> path \<Rightarrow>
    ('s vfs, 'o serve_session_error, 'o instance_snapshot option) action" where
  "session_take_snapshot env project start_path = (\<lambda>v.
     case snapshot_from_vfs (sv_snapshot env) (sv_fuel env)
            (with_emit_legacy_scripts (p_emit_legacy_scripts project)) start_path v of
       (v', Done snapshot) \<Rightarrow> (v', Done snapshot)
     | (v', Failed e) \<Rightarrow> (v', Failed (SessionOther e))
     | (v', Panics) \<Rightarrow> (v', Panics)
     | (v', OutOfFuel) \<Rightarrow> (v', OutOfFuel))"

text \<open>
  \<open>ServeSession::new\<close>.  The file system goes into the session, so what the action returns besides
  is of no use to the caller.
\<close>

definition session_new :: "('s, 'd, 'o) session_env \<Rightarrow> u64 \<Rightarrow> 128 word \<Rightarrow> path \<Rightarrow>
    ('s vfs, 'o serve_session_error, ('s, 'd, 'o, 'q) serve_session) action" where
  "session_new env start_time sid start_path =
     and_then (of_io SessionIo (\<lambda>v. vfs_canonicalize (se_ops (sv_snapshot env)) v start_path)) (\<lambda>start_path.
     and_then (session_load_project env start_path) (\<lambda>root_project.
     and_then (session_take_snapshot env root_project start_path) (\<lambda>snapshot.
     and_then (of_panicking (session_tree env snapshot)) (\<lambda>t.
     and_then (of_panicking (session_project_id env root_project)) (\<lambda>project_id v.
       (v, Done \<lparr>ss_start_time = start_time, ss_root_project = root_project, ss_session_id = sid,
          ss_tree = t, ss_tree_poisoned = False, ss_vfs = v, ss_message_queue = mq_new,
          ss_tree_mutations = [], ss_job_running = True, ss_project_id = project_id,
          ss_auto_connect_override = None, ss_clients = registry_new\<rparr>))))))"

text \<open>\<open>tree()\<close>: the value behind the lock, or a panic.\<close>

definition lock_tree :: "('s, 'd, 'o, 'q) serve_session \<Rightarrow> ('d, 'o) rojo_tree option" where
  "lock_tree s = (if ss_tree_poisoned s then None else Some (ss_tree s))"

definition project_name :: "('s, 'd, 'o, 'q) serve_session \<Rightarrow> string option" where
  "project_name s = p_name (ss_root_project s)"

definition root_dir :: "('s, 'd, 'o, 'q) serve_session \<Rightarrow> path option" where
  "root_dir s = folder_location (ss_root_project s)"

definition session_auto_connect :: "('s, 'd, 'o, 'q) serve_session \<Rightarrow> auto_connect_policy" where
  "session_auto_connect s =
     (case ss_auto_connect_override s of
        Some policy \<Rightarrow> policy
      | None \<Rightarrow> (case p_auto_connect (ss_root_project s) of Some policy \<Rightarrow> policy | None \<Rightarrow> policy_default))"

definition set_auto_connect_override :: "auto_connect_policy option \<Rightarrow> ('s, 'd, 'o, 'q) serve_session \<Rightarrow>
    ('s, 'd, 'o, 'q) serve_session" where
  "set_auto_connect_override policy s = s\<lparr>ss_auto_connect_override := policy\<rparr>"

text \<open>The job thread shares the tree, the file system and the queue.\<close>

definition session_job :: "('s, 'd, 'o, 'q) serve_session \<Rightarrow> ('s, 'd, 'o, 'q) job_context" where
  "session_job s = \<lparr>jc_tree = ss_tree s, jc_vfs = ss_vfs s, jc_message_queue = ss_message_queue s\<rparr>"

definition job_session :: "('s, 'd, 'o, 'q) serve_session \<Rightarrow> ('s, 'd, 'o, 'q) job_context \<Rightarrow>
    ('s, 'd, 'o, 'q) serve_session" where
  "job_session s c = s\<lparr>ss_tree := jc_tree c, ss_vfs := jc_vfs c, ss_message_queue := jc_message_queue c\<rparr>"

text \<open>
  Whether an event gets as far as the lock of the tree, and the file system by then.  A panic before
  the lock is taken, on a poisoned mutex, ends the thread; one under the lock also poisons it.
\<close>

definition event_locks_tree :: "'s backend_ops \<Rightarrow> 's vfs \<Rightarrow> vfs_event \<Rightarrow> 's vfs \<times> bool" where
  "event_locks_tree ops v ev =
     (case commit_event ops v ev of
        (v1, Inl _) \<Rightarrow> (v1, False)
      | (v1, Inr _) \<Rightarrow>
          (case canonicalize_event_path ops v1 (event_path ev) of (v2, r) \<Rightarrow> (v2, case r of Inl _ \<Rightarrow> False | Inr _ \<Rightarrow> True)))"

definition job_file_event :: "('s, 'd, 'o) session_env \<Rightarrow> ('s, 'o) snapshotters \<Rightarrow> u64 \<Rightarrow> vfs_event \<Rightarrow>
    ('s, 'd, 'o, 'q) serve_session \<Rightarrow> ('s, 'd, 'o, 'q) serve_session" where
  "job_file_event env S now ev s =
     (let ops = se_ops (sv_snapshot env)
      in case event_locks_tree ops (ss_vfs s) ev of
           (v, locks) \<Rightarrow>
             if locks \<and> ss_tree_poisoned s then s\<lparr>ss_vfs := v, ss_job_running := False\<rparr>
             else case handle_vfs_event (sv_variants env) (sv_dom env) ops S now ev (session_job s) of
                 None \<Rightarrow> s\<lparr>ss_tree_poisoned := True, ss_job_running := False\<rparr>
               | Some (c, _) \<Rightarrow> job_session s c)"

text \<open>The thread takes a patch of a client from the channel.\<close>

definition job_client_patch :: "('s, 'd, 'o) session_env \<Rightarrow> u64 \<Rightarrow> ('s, 'd, 'o, 'q) serve_session \<Rightarrow>
    ('s, 'd, 'o, 'q) serve_session" where
  "job_client_patch env now s =
     (case ss_tree_mutations s of
        [] \<Rightarrow> s
      | ps # rest \<Rightarrow>
          (let s = s\<lparr>ss_tree_mutations := rest\<rparr>
           in if ss_tree_poisoned s then s\<lparr>ss_job_running := False\<rparr>
              else case handle_tree_event (sv_dom env) now ps (session_job s) of
                  None \<Rightarrow> s\<lparr>ss_tree_poisoned := True, ss_job_running := False\<rparr>
                | Some (c, _, _) \<Rightarrow> job_session s c))"

datatype job_turn = FileEvent u64 vfs_event | ClientPatch u64

definition take_job_turn :: "('s, 'd, 'o) session_env \<Rightarrow> ('s, 'o) snapshotters \<Rightarrow> job_turn \<Rightarrow>
    ('s, 'd, 'o, 'q) serve_session \<Rightarrow> ('s, 'd, 'o, 'q) serve_session" where
  "take_job_turn env S turn s =
     (if \<not> ss_job_running s then s
      else case turn of
        FileEvent now ev \<Rightarrow> job_file_event env S now ev s
      | ClientPatch now \<Rightarrow> job_client_patch env now s)"


section \<open>A session that has started\<close>

text \<open>What holds of a session from its start on.\<close>

definition session_inv :: "('d, 'o) dom_ops \<Rightarrow> ('d \<Rightarrow> bool) \<Rightarrow> ('s, 'd, 'o, 'q) serve_session \<Rightarrow> bool" where
  "session_inv D ok s \<longleftrightarrow> tree_inv D ok (ss_tree s) \<and> project_name s \<noteq> None \<and> clients_ok (ss_clients s)"

lemma set_file_name_names: "set_file_name project fallback = Some (Inr project') \<Longrightarrow> p_name project' \<noteq> None"
  by (auto simp: set_file_name_def split: if_splits option.splits)

lemma load_from_slice_names:
  "load_from_slice parse contents loc fallback = Some (Inr project) \<Longrightarrow> p_name project \<noteq> None"
  by (auto simp: load_from_slice_def Let_def split: sum.splits if_splits dest: set_file_name_names)

lemma load_exact_names:
  "load_exact parse ops v p fallback = Some (v', Inr project) \<Longrightarrow> p_name project \<noteq> None"
  by (auto simp: load_exact_def split: prod.splits sum.splits dest: load_from_slice_names)

lemma load_initial_project_names:
  "load_initial_project parse ops v p = Some (v', Inr project) \<Longrightarrow> p_name project \<noteq> None"
  by (auto simp: load_initial_project_def split: if_splits prod.splits option.splits dest: load_exact_names)

lemma initial_tree_bare:
  assumes "weak_dom D ok" and "rt_new D snapshot_new = Some t"
  shows "tree_inv D ok t" and "tree_comparable D t" and "dom_get D (rt_inner t) (get_root_id D t) \<noteq> None"
proof -
  show inv: "tree_inv D ok t" using weak_dom.rt_new_inv [OF assms(1), of snapshot_new] assms(2) by auto
  show "dom_get D (rt_inner t) (get_root_id D t) \<noteq> None"
    using dom_wfD(2) [OF tree_invD(2) [OF inv]] by (auto simp: get_root_id_def)
  have "rt_inner t = dom_new D \<lparr>b_class = ''DEFAULT'', b_name = ''DEFAULT'', b_properties = []\<rparr>"
    using assms(2) by (auto simp: rt_new_def snapshot_new_def insert_metadata_def metadata_new_def Let_def)
  then show "tree_comparable D t"
    using weak_dom.new_law [OF assms(1)] by (auto simp: tree_comparable_def built_def split: if_splits)
qed

lemma session_tree_total:
  assumes "weak_dom (sv_dom env) ok" and "\<And>s. snapshot = Some s \<Longrightarrow> snapshot_comparable s"
  shows "\<exists>t. session_tree env snapshot = Some t \<and> tree_inv (sv_dom env) ok t"
proof -
  obtain t0 where t0: "rt_new (sv_dom env) snapshot_new = Some t0"
    using weak_dom.rt_new_inv [OF assms(1), of snapshot_new] by blast
  note bare = initial_tree_bare [OF assms(1) t0]
  show ?thesis
    using weak_dom.resnapshot_total [OF assms(1) bare assms(2), of snapshot "sv_variants env"] t0
    by (auto simp: session_tree_def initial_tree_def)
qed

end
