(* ===== verification/Web_Query.thy ===== *)
theory Web_Query
  imports Client_Registry Ip_Address Text
begin

text \<open>
  The query strings of requests: \<open>parse_handshake\<close>, \<open>parse_client_id\<close> and \<open>percent_decode\<close> of
  \<open>src/src/web/api.rs\<close>, with the conversions of the standard library they use.  A string is its
  UTF-8 bytes, so a slice that splits a character is found by looking at the byte it starts with.
\<close>

section \<open>Conversions\<close>

text \<open>\<open>String::from_utf8_lossy\<close>: each maximal piece that starts no character becomes U+FFFD.\<close>

definition replacement :: string where
  "replacement = map char_of [0xEF, 0xBF, 0xBD :: nat]"

fun from_utf8_lossy :: "string \<Rightarrow> string" where
  "from_utf8_lossy [] = []"
| "from_utf8_lossy (c # cs) =
     (if byte c < 128 then c # from_utf8_lossy cs
      else if in_range 194 223 c then
        (case cs of
           c1 # r \<Rightarrow> if is_continuation c1 then c # c1 # from_utf8_lossy r else replacement @ from_utf8_lossy cs
         | [] \<Rightarrow> replacement)
      else if in_range 224 239 c then
        (case cs of
           c1 # r \<Rightarrow>
             if in_range (if byte c = 224 then 160 else 128) (if byte c = 237 then 159 else 191) c1
             then (case r of
                 c2 # r2 \<Rightarrow> if is_continuation c2 then c # c1 # c2 # from_utf8_lossy r2 else replacement @ from_utf8_lossy r
               | [] \<Rightarrow> replacement)
             else replacement @ from_utf8_lossy cs
         | [] \<Rightarrow> replacement)
      else if in_range 240 244 c then
        (case cs of
           c1 # r \<Rightarrow>
             if in_range (if byte c = 240 then 144 else 128) (if byte c = 244 then 143 else 191) c1
             then (case r of
                 c2 # r2 \<Rightarrow>
                   if is_continuation c2
                   then (case r2 of
                       c3 # r3 \<Rightarrow>
                         if is_continuation c3 then c # c1 # c2 # c3 # from_utf8_lossy r3
                         else replacement @ from_utf8_lossy r2
                     | [] \<Rightarrow> replacement)
                   else replacement @ from_utf8_lossy r
               | [] \<Rightarrow> replacement)
             else replacement @ from_utf8_lossy cs
         | [] \<Rightarrow> replacement)
      else replacement @ from_utf8_lossy cs)"

text \<open>\<open>u8::from_str_radix(s, 16)\<close> for a text of two bytes: a plus sign is accepted.\<close>

fun radix_digits :: "nat \<Rightarrow> nat \<Rightarrow> nat \<Rightarrow> string \<Rightarrow> nat option" where
  "radix_digits radix bound acc [] = Some acc"
| "radix_digits radix bound acc (c # cs) =
     (case to_digit radix c of
        None \<Rightarrow> None
      | Some d \<Rightarrow> if acc * radix + d < bound then radix_digits radix bound (acc * radix + d) cs else None)"

definition u8_from_hex :: "string \<Rightarrow> char option" where
  "u8_from_hex s =
     (let digits = (case s of c # cs \<Rightarrow> if c = CHR ''+'' then cs else s | [] \<Rightarrow> s)
      in if digits = [] then None else map_option char_of (radix_digits 16 256 0 digits))"

text \<open>\<open>str::split_once\<close> on a byte.\<close>

fun split_once :: "char \<Rightarrow> string \<Rightarrow> (string \<times> string) option" where
  "split_once d [] = None"
| "split_once d (c # cs) =
     (if c = d then Some ([], cs) else map_option (\<lambda>(a, b). (c # a, b)) (split_once d cs))"

text \<open>The text of the error of \<open>str::parse::<u32>\<close>; the digit that overflows is reported first.\<close>

fun digits_error :: "nat \<Rightarrow> nat \<Rightarrow> string \<Rightarrow> string" where
  "digits_error bound acc [] = []"
| "digits_error bound acc (c # cs) =
     (case digit_value c of
        None \<Rightarrow> ''invalid digit found in string''
      | Some d \<Rightarrow>
          if acc * 10 + d < bound then digits_error bound (acc * 10 + d) cs
          else ''number too large to fit in target type'')"

definition parse_error_text :: "nat \<Rightarrow> string \<Rightarrow> string" where
  "parse_error_text bound s =
     (if s = [] then ''cannot parse integer from empty string''
      else if s = ''+'' \<or> s = ''-'' then ''invalid digit found in string''
      else digits_error bound 0 (case s of c # cs \<Rightarrow> if c = CHR ''+'' then cs else s | [] \<Rightarrow> s))"


declare from_utf8_lossy.simps(2) [simp del]


section \<open>Percent-decoding\<close>

text \<open>The slice \<open>value[index + 1 .. index + 3]\<close> must start and end between characters.\<close>

definition char_boundary :: "string \<Rightarrow> bool" where
  "char_boundary rest \<longleftrightarrow> (case rest of [] \<Rightarrow> True | c # _ \<Rightarrow> \<not> is_continuation c)"

function percent_bytes :: "string \<Rightarrow> string option" where
  "percent_bytes [] = Some []"
| "percent_bytes (c # cs) =
     (if c = CHR ''%'' \<and> 2 \<le> length cs
      then (if \<not> char_boundary cs \<or> \<not> char_boundary (drop 2 cs) then None
            else case u8_from_hex (take 2 cs) of
                Some b \<Rightarrow> map_option (\<lambda>out. b # out) (percent_bytes (drop 2 cs))
              | None \<Rightarrow> map_option (\<lambda>out. CHR ''%'' # out) (percent_bytes cs))
      else map_option (\<lambda>out. (if c = CHR ''+'' then CHR '' '' else c) # out) (percent_bytes cs))"
  by pat_completeness auto
termination by (relation "measure length") auto

declare percent_bytes.simps(2) [simp del]

definition percent_decode :: "string \<Rightarrow> string option" where
  "percent_decode value = map_option from_utf8_lossy (percent_bytes value)"


section \<open>Parameters\<close>

definition handshake_default :: client_handshake where
  "handshake_default = \<lparr>ch_place_id = None, ch_game_id = None, ch_client_name = None,
     ch_client_version = None, ch_auto_connected = False, ch_match_reason = None\<rparr>"

definition set_parameter :: "string \<Rightarrow> string \<Rightarrow> client_handshake \<Rightarrow> client_handshake" where
  "set_parameter key v h =
     (if key = ''placeId'' then h\<lparr>ch_place_id := parse_u64 v\<rparr>
      else if key = ''gameId'' then h\<lparr>ch_game_id := parse_u64 v\<rparr>
      else if key = ''client'' then h\<lparr>ch_client_name := Some v\<rparr>
      else if key = ''clientVersion'' then h\<lparr>ch_client_version := Some v\<rparr>
      else if key = ''autoConnected'' then h\<lparr>ch_auto_connected := (v = ''true'' \<or> v = ''1'')\<rparr>
      else if key = ''matchReason'' then h\<lparr>ch_match_reason := Some v\<rparr>
      else h)"

text \<open>The value is decoded whatever the key is, also one that is ignored.\<close>

definition handshake_pair :: "string \<Rightarrow> client_handshake \<Rightarrow> client_handshake option" where
  "handshake_pair pair h =
     (case split_once (CHR ''='') pair of
        None \<Rightarrow> Some h
      | Some (key, raw) \<Rightarrow> map_option (\<lambda>v. set_parameter key v h) (percent_decode raw))"

definition parse_handshake :: "string option \<Rightarrow> client_handshake option" where
  "parse_handshake query =
     (case query of
        None \<Rightarrow> Some handshake_default
      | Some q \<Rightarrow> fold_panic handshake_pair (split_on (CHR ''&'') q) handshake_default)"

fun first_client_id :: "string list \<Rightarrow> client_id option" where
  "first_client_id [] = None"
| "first_client_id (pair # pairs) =
     (case split_once (CHR ''='') pair of
        Some (key, v) \<Rightarrow>
          (case (if key = ''clientId'' then parse_u64 v else None) of
             Some cid \<Rightarrow> Some cid
           | None \<Rightarrow> first_client_id pairs)
      | None \<Rightarrow> first_client_id pairs)"

definition parse_client_id :: "string option \<Rightarrow> client_id option" where
  "parse_client_id query = Option.bind query (\<lambda>q. first_client_id (split_on (CHR ''&'') q))"


section \<open>Queries of the plugin\<close>

text \<open>
  What a client sends: \<open>HttpService:UrlEncode\<close> keeps unreserved characters and escapes every other
  byte, and the parameters are joined by ampersands.
\<close>

definition unreserved :: "char \<Rightarrow> bool" where
  "unreserved c \<longleftrightarrow> in_range 48 57 c \<or> in_range 65 90 c \<or> in_range 97 122 c \<or> c \<in> set ''-_.~''"

definition hex_digit :: "nat \<Rightarrow> char" where
  "hex_digit n = char_of (if n < 10 then 48 + n else 55 + n)"

definition url_escape :: "char \<Rightarrow> string" where
  "url_escape c = (if unreserved c then [c] else [CHR ''%'', hex_digit (byte c div 16), hex_digit (byte c mod 16)])"

definition url_encode :: "string \<Rightarrow> string" where
  "url_encode s = concat (map url_escape s)"

definition optional_parameter :: "string \<Rightarrow> string option \<Rightarrow> (string \<times> string) list" where
  "optional_parameter key found = (case found of None \<Rightarrow> [] | Some v \<Rightarrow> [(key, v)])"

definition handshake_parameters :: "client_handshake \<Rightarrow> (string \<times> string) list" where
  "handshake_parameters h =
     optional_parameter ''client'' (ch_client_name h) @
     optional_parameter ''clientVersion'' (ch_client_version h) @
     optional_parameter ''placeId'' (map_option (\<lambda>n. decimal (unat n)) (ch_place_id h)) @
     optional_parameter ''gameId'' (map_option (\<lambda>n. decimal (unat n)) (ch_game_id h)) @
     optional_parameter ''matchReason'' (ch_match_reason h) @
     [(''autoConnected'', if ch_auto_connected h then ''true'' else ''false'')]"

definition parameter_text :: "string \<times> string \<Rightarrow> string" where
  "parameter_text p = fst p @ ''='' @ url_encode (snd p)"

definition handshake_query :: "client_handshake \<Rightarrow> string" where
  "handshake_query h = join_with ''&'' (map parameter_text (handshake_parameters h))"

lemma utf8_lossy: "utf8_valid s \<Longrightarrow> from_utf8_lossy s = s"
proof (induction s rule: utf8_valid.induct)
  case (2 c cs)
  consider "byte c < 128" | "\<not> byte c < 128" "in_range 194 223 c"
    | "\<not> byte c < 128" "\<not> in_range 194 223 c" "in_range 224 239 c"
    | "\<not> byte c < 128" "\<not> in_range 194 223 c" "\<not> in_range 224 239 c"
    by blast
  then show ?case
  proof cases
    case 1
    with 2 show ?thesis by (simp add: from_utf8_lossy.simps(2) [of c])
  next
    case c: 2
    with 2 show ?thesis by (auto simp: from_utf8_lossy.simps(2) [of c] split: list.splits)
  next
    case c: 3
    with 2(5) obtain c1 c2 r where cs: "cs = c1 # c2 # r"
      by (auto split: list.splits)
    with c 2 show ?thesis by (simp add: from_utf8_lossy.simps(2) [of c] del: if_split)
  next
    case c: 4
    with 2 show ?thesis by (auto simp: from_utf8_lossy.simps(2) [of c] split: if_splits list.splits)
  qed
qed simp

lemma split_on_join:
  assumes "ps \<noteq> []" and "\<forall>p \<in> set ps. d \<notin> set p"
  shows "split_on d (join_with [d] ps) = ps"
proof -
  have one: "split_on d p = [p]" if "d \<notin> set p" for p
    using that by (induction p) auto
  have more: "split_on d (p @ d # rest) = p # split_on d rest" if "d \<notin> set p" for p rest
    using that by (induction p) (auto split: list.splits)
  show ?thesis
    using assms by (induction "[d]" ps rule: join_with.induct) (auto simp: one more)
qed

lemma split_once_at: "d \<notin> set a \<Longrightarrow> split_once d (a @ d # b) = Some (a, b)"
  by (induction a) auto

lemma byte_div_16: "byte c div 16 < 16" "byte c mod 16 < 16"
  using nat_of_char_less_256 [of c] unfolding byte_def by (simp_all add: less_mult_imp_div_less)

lemma byte_hex_digit: "n < 16 \<Longrightarrow> byte (hex_digit n) = (if n < 10 then 48 + n else 55 + n)"
  by (simp add: hex_digit_def byte_def)

lemma hex_digits:
  assumes "n < 16"
  shows "to_digit 16 (hex_digit n) = Some n" and "\<not> is_continuation (hex_digit n)"
    and "hex_digit n \<noteq> CHR ''+''" and "hex_digit n \<noteq> CHR ''&''" and "hex_digit n \<noteq> CHR ''=''"
proof -
  note b = byte_hex_digit [OF assms]
  show "to_digit 16 (hex_digit n) = Some n" using assms by (simp add: to_digit_def in_range_def b)
  show "\<not> is_continuation (hex_digit n)" using assms by (simp add: is_continuation_def b)
  have "byte (CHR ''+'') = 43" "byte (CHR ''&'') = 38" "byte (CHR ''='') = 61" by (simp_all add: byte_def)
  then show "hex_digit n \<noteq> CHR ''+''" "hex_digit n \<noteq> CHR ''&''" "hex_digit n \<noteq> CHR ''=''"
    using b by (auto split: if_splits)
qed

lemma escapes_decode: "u8_from_hex [hex_digit (byte c div 16), hex_digit (byte c mod 16)] = Some c"
proof -
  let ?hi = "byte c div 16" and ?lo = "byte c mod 16"
  have hi: "to_digit 16 (hex_digit ?hi) = Some ?hi" "hex_digit ?hi \<noteq> CHR ''+''"
    and lo: "to_digit 16 (hex_digit ?lo) = Some ?lo"
    using hex_digits byte_div_16 by simp_all
  have "?hi * 16 + ?lo = byte c" by simp
  moreover have "byte c < 256" by (simp add: byte_def)
  ultimately have "radix_digits 16 256 0 [hex_digit ?hi, hex_digit ?lo] = Some (byte c)"
    using hi(1) lo byte_div_16(1) [of c] by simp
  with hi(2) show ?thesis by (simp add: u8_from_hex_def byte_def)
qed

lemma unreserved_plain:
  "unreserved c \<Longrightarrow> \<not> is_continuation c \<and> c \<noteq> CHR ''%'' \<and> c \<noteq> CHR ''+'' \<and> c \<noteq> CHR ''&'' \<and> c \<noteq> CHR ''=''"
  by (auto simp: unreserved_def is_continuation_def in_range_def byte_def)

lemma url_encode_boundary: "char_boundary (url_encode s)"
proof (cases s)
  case (Cons c cs)
  then show ?thesis using unreserved_plain [of c]
    by (auto simp: char_boundary_def url_encode_def url_escape_def is_continuation_def byte_def)
qed (simp add: char_boundary_def url_encode_def)

lemma url_encode_plain: "CHR ''&'' \<notin> set (url_encode s) \<and> CHR ''='' \<notin> set (url_encode s)"
proof (induction s)
  case (Cons c s)
  have "CHR ''&'' \<notin> set (url_escape c) \<and> CHR ''='' \<notin> set (url_escape c)"
    using hex_digits(4,5) [OF byte_div_16(1), of c] hex_digits(4,5) [OF byte_div_16(2), of c] unreserved_plain [of c]
    by (auto simp: url_escape_def)
  with Cons show ?case by (simp add: url_encode_def)
qed (simp add: url_encode_def)

lemma percent_bytes_encoded: "percent_bytes (url_encode s) = Some s"
proof (induction s)
  case (Cons c s)
  show ?case
  proof (cases "unreserved c")
    case True
    with Cons unreserved_plain [OF True] show ?thesis
      by (simp add: url_encode_def url_escape_def percent_bytes.simps(2))
  next
    case False
    moreover have "\<not> is_continuation (hex_digit (byte c div 16))" by (rule hex_digits(2) [OF byte_div_16(1)])
    ultimately show ?thesis using escapes_decode [of c] Cons url_encode_boundary [of s]
      by (simp add: url_encode_def url_escape_def percent_bytes.simps(2) char_boundary_def)
  qed
qed (simp add: url_encode_def)

lemma percent_decode_encoded: "utf8_valid s \<Longrightarrow> percent_decode (url_encode s) = Some s"
  by (simp add: percent_decode_def percent_bytes_encoded utf8_lossy)

lemma ascii_valid: "\<forall>c \<in> set s. byte c < 128 \<Longrightarrow> utf8_valid s"
  by (induction s) auto

lemma decimal_ascii: "\<forall>c \<in> set (decimal n). byte c < 128"
proof (induction n rule: decimal.induct)
  case (1 n)
  then show ?case by (cases "n < 10") (simp_all add: decimal.simps [of n] byte_def)
qed

lemma parse_u64_decimal: "parse_u64 (decimal (unat n)) = Some n"
proof -
  have digits: "parse_digits (2 ^ 64) 0 (decimal (unat n)) = Some (unat n)"
    using unsigned_less [of n] by (intro parse_decimal) simp
  have "decimal (unat n) \<noteq> []" by (subst decimal.simps) simp
  then obtain c cs where d: "decimal (unat n) = c # cs" by (cases "decimal (unat n)") auto
  have "c \<noteq> CHR ''+''"
    using digits unfolding d by (auto simp: digit_value_def in_range_def byte_def)
  with digits d show ?thesis by (simp add: parse_u64_def parse_unsigned_def)
qed

lemma handshake_pair_text:
  assumes "CHR ''='' \<notin> set k" and "utf8_valid v"
  shows "handshake_pair (parameter_text (k, v)) h = Some (set_parameter k v h)"
  using assms by (simp add: handshake_pair_def parameter_text_def split_once_at percent_decode_encoded)

lemma fold_handshake_pairs:
  assumes "\<forall>p \<in> set ps. CHR ''='' \<notin> set (fst p) \<and> utf8_valid (snd p)"
  shows "fold_panic handshake_pair (map parameter_text ps) h = Some (fold (\<lambda>(k, v). set_parameter k v) ps h)"
  using assms by (induction ps arbitrary: h) (auto simp: handshake_pair_text)

lemma parse_parameters:
  assumes "ps \<noteq> []"
    and "\<forall>p \<in> set ps. CHR ''&'' \<notin> set (fst p) \<and> CHR ''='' \<notin> set (fst p) \<and> utf8_valid (snd p)"
  shows "parse_handshake (Some (join_with ''&'' (map parameter_text ps))) =
    Some (fold (\<lambda>(k, v). set_parameter k v) ps handshake_default)"
proof -
  have "split_on (CHR ''&'') (join_with ''&'' (map parameter_text ps)) = map parameter_text ps"
    using assms url_encode_plain by (intro split_on_join) (auto simp: parameter_text_def)
  with fold_handshake_pairs [of ps] assms(2) show ?thesis by (simp add: parse_handshake_def)
qed

lemma fold_optional:
  "fold (\<lambda>(k, v). set_parameter k v) (optional_parameter key found) h =
    (case found of None \<Rightarrow> h | Some v \<Rightarrow> set_parameter key v h)"
  by (simp add: optional_parameter_def split: option.split)

lemma set_parameter_simps:
  "set_parameter ''placeId'' v h = h\<lparr>ch_place_id := parse_u64 v\<rparr>"
  "set_parameter ''gameId'' v h = h\<lparr>ch_game_id := parse_u64 v\<rparr>"
  "set_parameter ''client'' v h = h\<lparr>ch_client_name := Some v\<rparr>"
  "set_parameter ''clientVersion'' v h = h\<lparr>ch_client_version := Some v\<rparr>"
  "set_parameter ''autoConnected'' v h = h\<lparr>ch_auto_connected := (v = ''true'' \<or> v = ''1'')\<rparr>"
  "set_parameter ''matchReason'' v h = h\<lparr>ch_match_reason := Some v\<rparr>"
  by (simp_all add: set_parameter_def)

lemma fold_handshake_parameters:
  "fold (\<lambda>(k, v). set_parameter k v) (handshake_parameters h) handshake_default = h"
proof -
  have truth: "(if b then ''true'' else ''false'') = ''true'' \<or> (if b then ''true'' else ''false'') = ''1'' \<longleftrightarrow> b" for b
    by simp
  show ?thesis
    unfolding handshake_parameters_def fold_append o_apply fold_optional
    by (cases h) (simp add: set_parameter_simps parse_u64_decimal truth handshake_default_def split: option.split)
qed

lemma optional_valid:
  "p \<in> set (optional_parameter key found) \<Longrightarrow> fst p = key \<and> found = Some (snd p)"
  by (auto simp: optional_parameter_def split: option.splits)

definition parameter_keys :: "string list" where
  "parameter_keys = [''client'', ''clientVersion'', ''placeId'', ''gameId'', ''matchReason'', ''autoConnected'']"

lemma parameter_keys_plain: "\<forall>k \<in> set parameter_keys. CHR ''&'' \<notin> set k \<and> CHR ''='' \<notin> set k"
  by code_simp

lemma handshake_parameter:
  assumes "p \<in> set (handshake_parameters h)"
    and texts: "\<forall>v \<in> set_option (ch_client_name h) \<union> set_option (ch_client_version h) \<union> set_option (ch_match_reason h).
      utf8_valid v"
  shows "fst p \<in> set parameter_keys \<and> utf8_valid (snd p)"
proof -
  have valid: "\<forall>n. decimal n = v \<longrightarrow> utf8_valid v" for v
    using ascii_valid [OF decimal_ascii] by blast
  have flags: "utf8_valid (if b then ''true'' else ''false'')" for b by (cases b) (simp_all add: byte_def)
  have given: "utf8_valid v" if "ch_client_name h = Some v \<or> ch_client_version h = Some v \<or> ch_match_reason h = Some v" for v
    using texts that by auto
  have "(fst p = ''autoConnected'' \<and> snd p = (if ch_auto_connected h then ''true'' else ''false'')) \<or>
    (fst p \<in> {''placeId'', ''gameId''} \<and> (\<exists>n. decimal n = snd p)) \<or>
    (fst p \<in> {''client'', ''clientVersion'', ''matchReason''} \<and>
       (ch_client_name h = Some (snd p) \<or> ch_client_version h = Some (snd p) \<or> ch_match_reason h = Some (snd p)))"
    using assms(1) unfolding handshake_parameters_def set_append Un_iff list.set insert_iff empty_iff
    by (elim disjE) (auto dest!: optional_valid)
  then show ?thesis
    using valid flags given unfolding parameter_keys_def by (elim disjE conjE exE) auto
qed

text \<open>
  C30. A handshake that a client writes into the query of its request, with numbers in decimal and
  text percent-encoded, is read back as it was, for all place ids, game ids and UTF-8 texts.
\<close>

theorem handshakes_read_back:
  assumes "\<forall>v \<in> set_option (ch_client_name h) \<union> set_option (ch_client_version h) \<union> set_option (ch_match_reason h).
    utf8_valid v"
  shows "parse_handshake (Some (handshake_query h)) = Some h"
proof -
  have "parse_handshake (Some (handshake_query h)) =
    Some (fold (\<lambda>(k, v). set_parameter k v) (handshake_parameters h) handshake_default)"
    unfolding handshake_query_def
    using handshake_parameter [OF _ assms] parameter_keys_plain
    by (intro parse_parameters) (auto simp: handshake_parameters_def)
  also note fold_handshake_parameters
  finally show ?thesis .
qed

definition sample_query_handshake :: client_handshake where
  "sample_query_handshake = handshake_default\<lparr>ch_place_id := Some 42, ch_client_name := Some ''A b'', ch_auto_connected := True\<rparr>"

lemma handshakes_read_back_witness:
  "parse_handshake (Some (handshake_query sample_query_handshake)) = Some sample_query_handshake"
  by (rule handshakes_read_back) (simp add: sample_query_handshake_def handshake_default_def byte_def)

text \<open>
  Malformed escapes are not always left as written: a sign counts as a digit, and an escape whose
  second byte begins a character of several bytes is sliced inside it.
\<close>

lemma mangled_escapes:
  "percent_decode ''%+5'' = Some [char_of (5 :: nat)]"
  "is_continuation c3 \<Longrightarrow> percent_decode (CHR ''%'' # c1 # c2 # c3 # rest) = None"
proof -
  have "u8_from_hex ''+5'' = Some (char_of (5 :: nat))" by code_simp
  then show "percent_decode ''%+5'' = Some [char_of (5 :: nat)]"
    by (simp add: percent_decode_def percent_bytes.simps(2) char_boundary_def is_continuation_def byte_def from_utf8_lossy.simps(2))
qed (simp add: percent_decode_def percent_bytes.simps(2) char_boundary_def)

end
