(* ===== verification/Web_Interface.thy ===== *)
theory Web_Interface
  imports Client_Registry Patch_Laws Syncback_Rules
begin

text \<open>
  The data the server sends and receives, \<open>src/src/web/interface.rs\<close>: the views of instances and
  patches that clients get, and the bodies of the requests and responses.  A record stands for the
  struct before serde writes it; the encoders are parameters of the handlers.
\<close>

definition SERVER_VERSION :: string where "SERVER_VERSION = ''7.7.0+roxo.1''"
definition SERVER_NAME :: string where "SERVER_NAME = ''roxo''"

definition capabilities :: "string list" where
  "capabilities = [''auto-connect'', ''status'', ''client-registry'', ''sessions'', ''probe-report'']"

definition PROTOCOL_VERSION :: u64 where "PROTOCOL_VERSION = 5"

type_synonym session_id = "128 word"


section \<open>Views of instances and patches\<close>

record api_metadata =
  am_ignore_unknown_instances :: bool

record 'o api_instance =
  ai_id :: referent
  ai_parent :: referent
  ai_name :: string
  ai_class_name :: string
  ai_properties :: "(string, 'o variant) hash_map"
  ai_children :: "referent list"
  ai_metadata :: "api_metadata option"

record 'o instance_update =
  iu_id :: referent
  iu_changed_name :: "string option"
  iu_changed_class_name :: "string option"
  iu_changed_properties :: "(string, 'o variant option) hash_map"
  iu_changed_metadata :: "api_metadata option"

record 'o subscribe_message =
  sm_removed :: "referent list"
  sm_added :: "(referent, 'o api_instance) hash_map"
  sm_updated :: "'o instance_update list"

definition from_rojo_metadata :: "'o instance_metadata \<Rightarrow> api_metadata" where
  "from_rojo_metadata m = \<lparr>am_ignore_unknown_instances = md_ignore_unknown_instances m\<rparr>"

definition property_filter :: "'o variant option \<Rightarrow> bool" where
  "property_filter value \<longleftrightarrow> map_option variant_ty value \<noteq> Some TSharedString"

definition from_rojo_instance :: "'o inst \<times> 'o instance_metadata \<Rightarrow> 'o api_instance" where
  "from_rojo_instance = (\<lambda>(source, metadata).
     \<lparr>ai_id = i_referent source, ai_parent = i_parent source, ai_name = i_name source,
      ai_class_name = i_class source,
      ai_properties = filter (\<lambda>(_, v). property_filter (Some v)) (i_properties source),
      ai_children = i_children source, ai_metadata = Some (from_rojo_metadata metadata)\<rparr>)"

text \<open>What the iterator \<open>tree.descendants(id)\<close> yields until its end.\<close>

partial_function (option) collect_descendants :: "('d, 'o) dom_ops \<Rightarrow> ('d, 'o) rojo_tree \<Rightarrow> referent list \<Rightarrow>
    ('o inst \<times> 'o instance_metadata) list option" where
  "collect_descendants D t queue =
     (case descendants_next D t queue of
        None \<Rightarrow> None
      | Some (queue', found) \<Rightarrow>
          (case found of
             None \<Rightarrow> Some []
           | Some p \<Rightarrow> Option.bind (collect_descendants D t queue') (\<lambda>rest. Some (p # rest))))"

declare collect_descendants.simps [simp del]

definition rt_descendants :: "('d, 'o) dom_ops \<Rightarrow> ('d, 'o) rojo_tree \<Rightarrow> referent \<Rightarrow>
    ('o inst \<times> 'o instance_metadata) list option" where
  "rt_descendants D t r = collect_descendants D t [r]"

text \<open>An instance and everything below it, entered into the map of a response.\<close>

definition insert_view :: "'o inst \<times> 'o instance_metadata \<Rightarrow> (referent, 'o api_instance) hash_map \<Rightarrow>
    (referent, 'o api_instance) hash_map" where
  "insert_view p m = hm_insert (i_referent (fst p)) (from_rojo_instance p) m"

definition insert_subtree :: "('d, 'o) dom_ops \<Rightarrow> ('d, 'o) rojo_tree \<Rightarrow> referent \<Rightarrow>
    'o inst \<times> 'o instance_metadata \<Rightarrow> (referent, 'o api_instance) hash_map \<Rightarrow>
    (referent, 'o api_instance) hash_map option" where
  "insert_subtree D t r p m =
     map_option (\<lambda>found. fold insert_view found (hm_insert r (from_rojo_instance p) m)) (rt_descendants D t r)"

definition update_view :: "'o patch_update \<Rightarrow> 'o instance_update" where
  "update_view u =
     \<lparr>iu_id = pu_id u, iu_changed_name = pu_changed_name u, iu_changed_class_name = pu_changed_class_name u,
      iu_changed_properties = filter (\<lambda>(_, v). property_filter v) (pu_changed_properties u),
      iu_changed_metadata = map_option from_rojo_metadata (pu_changed_metadata u)\<rparr>"

text \<open>\<open>SubscribeMessage::from_patch_update\<close>: an added instance that is not in the tree panics.\<close>

definition from_patch_update :: "('d, 'o) dom_ops \<Rightarrow> ('d, 'o) rojo_tree \<Rightarrow> 'o applied_patch_set \<Rightarrow>
    'o subscribe_message option" where
  "from_patch_update D t patch =
     map_option (\<lambda>added. \<lparr>sm_removed = ap_removed patch, sm_added = added,
         sm_updated = map update_view (ap_updated patch)\<rparr>)
       (fold_panic (\<lambda>r added.
          case get_instance D t r of
            Some (Some p) \<Rightarrow> insert_subtree D t r p added
          | _ \<Rightarrow> None) (ap_added patch) [])"


section \<open>Bodies\<close>

record server_info_response =
  si_session_id :: session_id
  si_server_version :: string
  si_protocol_version :: u64
  si_project_name :: string
  si_expected_place_ids :: "u64 list option"
  si_unexpected_place_ids :: "u64 list option"
  si_game_id :: "u64 option"
  si_place_id :: "u64 option"
  si_root_instance_id :: referent
  si_server_name :: string
  si_project_id :: string
  si_auto_connect :: string
  si_project_path :: string
  si_capabilities :: "string list"
  si_client_id :: "client_id option"
  si_peer_ports :: "u16 list"

record session_status_response =
  st_session_id :: session_id
  st_server_name :: string
  st_server_version :: string
  st_protocol_version :: u64
  st_project_name :: string
  st_project_id :: string
  st_project_path :: string
  st_place_id :: "u64 option"
  st_game_id :: "u64 option"
  st_serve_place_ids :: "u64 list option"
  st_auto_connect :: string
  st_uptime_seconds :: u64
  st_studio_connected :: bool
  st_client_count :: nat
  st_clients :: "client_info list"
  st_recent_probes :: "probe_info list"
  st_last_patch_at :: "u64 option"
  st_patches_sent :: u32

record 'o read_response =
  rr_session_id :: session_id
  rr_message_cursor :: u32
  rr_instances :: "(referent, 'o api_instance) hash_map"

record 'o write_request =
  wr_session_id :: session_id
  wr_removed :: "referent list"
  wr_added :: "(referent, unit) hash_map"
  wr_updated :: "'o instance_update list"

record 'o messages_packet =
  mp_message_cursor :: u32
  mp_messages :: "'o subscribe_message list"

record 'o socket_packet =
  sp_session_id :: session_id
  sp_body :: "'o messages_packet"

record serialize_request =
  sr_session_id :: session_id
  sr_ids :: "referent list"

record serialize_response =
  se_session_id :: session_id
  se_model_contents :: string

text \<open>The set of ids is a list: only membership is asked.\<close>

record ref_patch_request =
  rq_session_id :: session_id
  rq_ids :: "referent list"

record 'o ref_patch_response =
  rpr_session_id :: session_id
  rpr_patch :: "'o subscribe_message"

datatype error_response_kind = NotFoundKind | BadRequestKind | ForbiddenKind | InternalErrorKind

record error_response =
  er_kind :: error_response_kind
  er_details :: string

definition not_found :: "string \<Rightarrow> error_response" where
  "not_found details = \<lparr>er_kind = NotFoundKind, er_details = details\<rparr>"

definition bad_request :: "string \<Rightarrow> error_response" where
  "bad_request details = \<lparr>er_kind = BadRequestKind, er_details = details\<rparr>"

definition forbidden :: "string \<Rightarrow> error_response" where
  "forbidden details = \<lparr>er_kind = ForbiddenKind, er_details = details\<rparr>"

definition internal_error :: "string \<Rightarrow> error_response" where
  "internal_error details = \<lparr>er_kind = InternalErrorKind, er_details = details\<rparr>"


section \<open>Descendants in a well-formed tree\<close>

text \<open>The instance and its metadata, as \<open>get_instance\<close> finds them.\<close>

definition shown :: "('d, 'o) dom_ops \<Rightarrow> ('d, 'o) rojo_tree \<Rightarrow> referent \<Rightarrow> 'o inst \<times> 'o instance_metadata" where
  "shown D t r = (the (dom_get D (rt_inner t) r), the (get_metadata t r))"

lemma collect_descendants_walk:
  assumes "walk view queue = Some order" and "view = dom_get D (rt_inner t)"
    and "\<forall>x \<in> set order. \<exists>i. view x = Some i \<and> i_referent i = x \<and> get_metadata t x \<noteq> None"
  shows "collect_descendants D t queue = Some (map (shown D t) order)"
proof -
  let ?P = "\<lambda>view queue order. view = dom_get D (rt_inner t) \<longrightarrow>
    (\<forall>x \<in> set order. \<exists>i. view x = Some i \<and> i_referent i = x \<and> get_metadata t x \<noteq> None) \<longrightarrow>
    collect_descendants D t queue = Some (map (shown D t) order)"
  have "?P view queue order"
  proof (rule walk.raw_induct [where P = ?P, OF _ assms(1)], intro impI)
    fix rec view queue order
    assume IH: "\<And>view queue order. rec view queue = Some order \<Longrightarrow> ?P view queue order"
      and body: "(case queue of [] \<Rightarrow> Some [] | r # rs \<Rightarrow> case view r of None \<Rightarrow> None
        | Some inst \<Rightarrow> rec view (rs @ i_children inst) \<bind> (\<lambda>ordered. Some (r # ordered))) = Some order"
      and view: "view = dom_get D (rt_inner t)"
      and known: "\<forall>x \<in> set order. \<exists>i. view x = Some i \<and> i_referent i = x \<and> get_metadata t x \<noteq> None"
    show "collect_descendants D t queue = Some (map (shown D t) order)"
    proof (cases queue)
      case Nil
      then have "order = []" using body by simp
      moreover have "collect_descendants D t [] = Some []"
        by (subst collect_descendants.simps) (simp add: descendants_next_def)
      ultimately show ?thesis using Nil by simp
    next
      case (Cons r rs)
      obtain inst where inst: "view r = Some inst" using body Cons by (auto split: option.splits)
      with body Cons obtain rest where rest: "rec view (rs @ i_children inst) = Some rest" "order = r # rest"
        by (auto split: Option.bind_splits)
      from known rest(2) inst obtain md where md: "i_referent inst = r" "get_metadata t r = Some md" by auto
      have "\<forall>x \<in> set rest. \<exists>i. view x = Some i \<and> i_referent i = x \<and> get_metadata t x \<noteq> None"
        using known unfolding rest(2) list.set ball_simps by (rule conjunct2)
      with IH [OF rest(1)] view
      have below: "collect_descendants D t (rs @ i_children inst) = Some (map (shown D t) rest)" by blast
      have "descendants_next D t (r # rs) = Some (rs @ i_children inst, Some (shown D t r))"
        using inst md view by (simp add: descendants_next_def shown_def)
      with below show ?thesis unfolding Cons rest(2)
        by (simp add: collect_descendants.simps [of D t "r # rs"])
    qed
  qed
  with assms(2,3) show ?thesis by blast
qed

lemma finite_instances: "tree_inv D ok t \<Longrightarrow> finite (dom (dom_get D (rt_inner t)))"
proof -
  assume inv: "tree_inv D ok t"
  have "dom_get D (rt_inner t) x \<noteq> None \<longleftrightarrow> x \<in> fst ` set (rt_metadata_map t)" for x
    using tree_invD(3) [OF inv, of x] by (auto simp: map_of_eq_None_iff)
  then have "dom (dom_get D (rt_inner t)) = fst ` set (rt_metadata_map t)" by (simp add: dom_def)
  then show ?thesis by simp
qed

lemma shown_known:
  assumes "tree_inv D ok t" and "dom_get D (rt_inner t) x \<noteq> None"
  shows "\<exists>i. dom_get D (rt_inner t) x = Some i \<and> i_referent i = x \<and> get_metadata t x \<noteq> None"
  using assms(2) tree_invD(3) [OF assms(1), of x] dom_wfD(3) [OF tree_invD(2) [OF assms(1)], of x]
  by (auto simp: get_metadata_def)

lemma rt_descendants_visit:
  assumes inv: "tree_inv D ok t" and r: "dom_get D (rt_inner t) r \<noteq> None"
  shows "\<exists>order. rt_descendants D t r = Some (map (shown D t) order) \<and> distinct order \<and>
    set order = {x. descends (dom_get D (rt_inner t)) r x}"
proof -
  obtain order where order: "descendants D (rt_inner t) r = Some order" "distinct order"
      "set order = {x. descends (dom_get D (rt_inner t)) r x}"
    using descendants_visit [OF tree_invD(2) [OF inv] finite_instances [OF inv] r] by blast
  have "\<forall>x \<in> set order. \<exists>i. dom_get D (rt_inner t) x = Some i \<and> i_referent i = x \<and> get_metadata t x \<noteq> None"
    using shown_known [OF inv] descends_in_view [OF tree_invD(2) [OF inv] _ r] order(3) by blast
  then have "rt_descendants D t r = Some (map (shown D t) order)"
    unfolding rt_descendants_def using order(1)
    by (intro collect_descendants_walk [where view = "dom_get D (rt_inner t)"]) (simp_all add: descendants_def)
  with order(2,3) show ?thesis by blast
qed

lemma get_instance_shown:
  assumes "tree_inv D ok t"
  shows "get_instance D t r = Some (if dom_get D (rt_inner t) r = None then None else Some (shown D t r))"
  using tree_invD(3) [OF assms, of r]
  by (auto simp: get_instance_def shown_def get_metadata_def split: option.splits)


section \<open>What a map of views holds\<close>

definition view_of :: "('d, 'o) dom_ops \<Rightarrow> ('d, 'o) rojo_tree \<Rightarrow> referent \<Rightarrow> 'o api_instance" where
  "view_of D t r = from_rojo_instance (shown D t r)"

text \<open>Exactly the subtrees of some instances.\<close>

definition holds_subtrees :: "('d, 'o) dom_ops \<Rightarrow> ('d, 'o) rojo_tree \<Rightarrow> referent set \<Rightarrow>
    (referent, 'o api_instance) hash_map \<Rightarrow> bool" where
  "holds_subtrees D t rs m \<longleftrightarrow>
     (\<forall>x. hm_get m x = (if \<exists>r \<in> rs. descends (dom_get D (rt_inner t)) r x then Some (view_of D t x) else None))"

lemma holds_subtrees_empty: "holds_subtrees D t {} []"
  by (simp add: holds_subtrees_def)

lemma get_insert_view:
  "hm_get (insert_view p m) x = (if x = i_referent (fst p) then Some (from_rojo_instance p) else hm_get m x)"
  by (simp add: insert_view_def)

lemma get_insert_views:
  assumes "\<forall>p \<in> set found. \<exists>x. p = shown D t x \<and> i_referent (fst p) = x"
  shows "hm_get (fold insert_view found m) x =
    (if shown D t x \<in> set found \<and> i_referent (fst (shown D t x)) = x then Some (view_of D t x) else hm_get m x)"
  using assms
proof (induction found arbitrary: m)
  case (Cons p found)
  obtain y where p: "p = shown D t y" "i_referent (fst p) = y" using Cons.prems by auto
  have IH: "hm_get (fold insert_view found (insert_view p m)) x =
    (if shown D t x \<in> set found \<and> i_referent (fst (shown D t x)) = x then Some (view_of D t x) else hm_get (insert_view p m) x)"
    by (rule Cons.IH) (use Cons.prems in simp)
  have "fold insert_view (p # found) m = fold insert_view found (insert_view p m)" by simp
  moreover have "p = shown D t x \<longleftrightarrow> x = y" if "i_referent (fst (shown D t x)) = x"
    using p that by metis
  moreover have "hm_get (insert_view p m) x = (if x = y then Some (view_of D t y) else hm_get m x)"
    using p unfolding get_insert_view view_of_def by metis
  ultimately show ?case
    using IH unfolding list.set insert_iff by (metis p)
qed simp

lemma insert_subtree_holds:
  assumes inv: "tree_inv D ok t" and r: "dom_get D (rt_inner t) r \<noteq> None" and m: "holds_subtrees D t rs m"
  shows "\<exists>m'. insert_subtree D t r (shown D t r) m = Some m' \<and> holds_subtrees D t (insert r rs) m'"
proof -
  let ?view = "dom_get D (rt_inner t)"
  obtain order where order: "rt_descendants D t r = Some (map (shown D t) order)" "set order = {x. descends ?view r x}"
    using rt_descendants_visit [OF inv r] by blast
  have self: "i_referent (fst (shown D t x)) = x" if "descends ?view r x" for x
    using shown_known [OF inv descends_in_view [OF tree_invD(2) [OF inv] that r]] by (auto simp: shown_def)
  have shape: "\<forall>p \<in> set (map (shown D t) order). \<exists>x. p = shown D t x \<and> i_referent (fst p) = x"
    using order(2) self by auto
  have listed: "shown D t x \<in> set (map (shown D t) order) \<and> i_referent (fst (shown D t x)) = x \<longleftrightarrow> descends ?view r x" for x
  proof
    assume x: "shown D t x \<in> set (map (shown D t) order) \<and> i_referent (fst (shown D t x)) = x"
    then obtain y where y: "shown D t x = shown D t y" "descends ?view r y" using order(2) by auto
    have "x = y" using x y(1) self [OF y(2)] by metis
    with y(2) show "descends ?view r x" by blast
  qed (use order(2) self in auto)
  let ?m = "fold insert_view (map (shown D t) order) (hm_insert r (from_rojo_instance (shown D t r)) m)"
  have "hm_get ?m x = (if \<exists>q \<in> insert r rs. descends ?view q x then Some (view_of D t x) else None)" for x
    unfolding get_insert_views [OF shape] listed using m unfolding holds_subtrees_def view_of_def by auto
  with order(1) show ?thesis by (simp add: insert_subtree_def holds_subtrees_def)
qed

text \<open>The message of a patch, as long as its added instances are still there.\<close>

lemma from_patch_update_total:
  assumes inv: "tree_inv D ok t" and there: "\<forall>r \<in> set (ap_added patch). dom_get D (rt_inner t) r \<noteq> None"
  shows "\<exists>m. from_patch_update D t patch = Some m \<and> sm_removed m = ap_removed patch \<and>
    sm_updated m = map update_view (ap_updated patch) \<and> holds_subtrees D t (set (ap_added patch)) (sm_added m)"
proof -
  let ?step = "\<lambda>r added. case get_instance D t r of Some (Some p) \<Rightarrow> insert_subtree D t r p added | _ \<Rightarrow> None"
  have "\<exists>m'. fold_panic ?step rs m = Some m' \<and> holds_subtrees D t (seen \<union> set rs) m'"
    if "holds_subtrees D t seen m" "\<forall>r \<in> set rs. dom_get D (rt_inner t) r \<noteq> None" for rs m seen
    using that
  proof (induction rs arbitrary: m seen)
    case (Cons r rs)
    from Cons.prems(2) have r: "dom_get D (rt_inner t) r \<noteq> None" by simp
    obtain m1 where m1: "insert_subtree D t r (shown D t r) m = Some m1" "holds_subtrees D t (insert r seen) m1"
      using insert_subtree_holds [OF inv r Cons.prems(1)] by blast
    obtain m' where "fold_panic ?step rs m1 = Some m'" "holds_subtrees D t (insert r seen \<union> set rs) m'"
      using Cons.IH [OF m1(2)] Cons.prems(2) by auto
    with m1(1) r show ?case by (simp add: get_instance_shown [OF inv])
  qed simp
  from this [OF holds_subtrees_empty there] show ?thesis
    by (auto simp: from_patch_update_def)
qed

lemma from_patch_update_panics:
  assumes inv: "tree_inv D ok t" and gone: "r \<in> set (ap_added patch)" "dom_get D (rt_inner t) r = None"
  shows "from_patch_update D t patch = None"
proof -
  let ?step = "\<lambda>r added. case get_instance D t r of Some (Some p) \<Rightarrow> insert_subtree D t r p added | _ \<Rightarrow> None"
  have "fold_panic ?step rs m = None" if "r \<in> set rs" for rs m
    using that
  proof (induction rs arbitrary: m)
    case (Cons s rs)
    show ?case
    proof (cases "s = r")
      case True
      then show ?thesis using gone(2) by (simp add: get_instance_shown [OF inv])
    next
      case False
      with Cons have "\<And>m. fold_panic ?step rs m = None" by simp
      then show ?thesis by (simp add: bind_eq_None_conv)
    qed
  qed simp
  from this [OF gone(1)] show ?thesis by (simp add: from_patch_update_def)
qed

end
