(* ===== verification/Web_Api.thy ===== *)
theory Web_Api
  imports Serve_Session Session_Registry Web_Origin Web_Query Web_Interface
begin

text \<open>
  The HTTP API, \<open>src/src/web/api.rs\<close>, with the service around it in \<open>src/src/web/mod.rs\<close> and the
  responses of \<open>util.rs\<close>.  A handler takes the state of the server and returns the new state, the
  response, and what it starts besides (a program that opens a file, a subscription task).  No
  response means that the code panicked.  The profiles of \<open>Cargo.toml\<close> abort on a panic, which ends the
  process; in a build that unwinds, as the tests are, the task ends and the mutex of the tree is
  poisoned when the task held it, which the returned state shows.  The encoders and decoders of bodies, hyper's upgrade, the
  parser of ids, \<open>opener\<close> and the binary model format are fields of an environment.
\<close>

datatype http_method = Get | Post | OtherMethod string

record api_request =
  rq_method :: http_method
  rq_path :: string
  rq_query :: "string option"
  rq_headers :: request_headers
  rq_body :: "string + string"
  rq_is_upgrade :: bool
  rq_upgrade :: "string + http_response"

record socket_addr =
  sa_ip :: ip_addr
  sa_text :: string

datatype 'o api_body =
    ServerInfoBody server_info_response
  | StatusBody session_status_response
  | RecordedBody
  | ReadBody "'o read_response"
  | WriteBody session_id
  | SerializeBody serialize_response
  | RefPatchBody "'o ref_patch_response"
  | OpenBody session_id
  | ErrorBody error_response

datatype open_error =
    OpenIo string
  | OpenExitStatus string string string

text \<open>The model that \<open>/api/serialize\<close> builds: \<open>WeakDom\<close> with instances outside the tree.\<close>

record ('m, 'o) model_ops =
  mo_new :: "'o builder \<Rightarrow> 'm"
  mo_root :: "'m \<Rightarrow> referent"
  mo_insert :: "'m \<Rightarrow> referent \<Rightarrow> 'o builder \<Rightarrow> 'm \<times> referent"
  mo_transfer_within :: "'m \<Rightarrow> referent \<Rightarrow> referent \<Rightarrow> 'm"
  mo_to_binary :: "'m \<Rightarrow> referent list \<Rightarrow> string option"

record ('d, 'o, 'r, 'm) web_env =
  we_dom :: "('d, 'o) dom_ops"
  we_registry :: "'r registry_env"
  we_model :: "('m, 'o) model_ops"
  we_http :: http_env
  we_msgpack :: "'o api_body \<Rightarrow> string + string"
  we_json :: "'o api_body \<Rightarrow> string + string"
  we_msgpack_packet :: "'o socket_packet \<Rightarrow> string + string"
  we_decode_write :: "string \<Rightarrow> string + 'o write_request"
  we_decode_serialize :: "string \<Rightarrow> string + serialize_request"
  we_decode_ref_patch :: "string \<Rightarrow> string + ref_patch_request"
  we_decode_probe :: "string \<Rightarrow> string + probe_report"
  we_ref_from_str :: "string \<Rightarrow> referent option"
  we_ref_to_string :: "referent \<Rightarrow> string"
  we_display :: "path \<Rightarrow> string"
  we_is_file :: "path \<Rightarrow> bool"
  we_open :: "path \<Rightarrow> open_error + unit"

text \<open>What the clock shows during a request: two readings in seconds, and the time since the start.\<close>

record api_clock =
  ck_first :: u64
  ck_second :: u64
  ck_elapsed :: u64

record ('s, 'd, 'o, 'q, 'r) server =
  sv_session :: "('s, 'd, 'o, 'q) serve_session"
  sv_beacons :: 'r

datatype api_effect =
    OpenFile path
  | SpawnSubscription u32 client_id

type_synonym ('s, 'd, 'o, 'q, 'r) handled =
  "('s, 'd, 'o, 'q, 'r) server \<times> http_response option \<times> api_effect list"


section \<open>Responses\<close>

definition OK :: nat where "OK = 200"
definition BAD_REQUEST :: nat where "BAD_REQUEST = 400"
definition FORBIDDEN :: nat where "FORBIDDEN = 403"
definition NOT_FOUND :: nat where "NOT_FOUND = 404"
definition PAYLOAD_TOO_LARGE :: nat where "PAYLOAD_TOO_LARGE = 413"
definition INTERNAL_SERVER_ERROR :: nat where "INTERNAL_SERVER_ERROR = 500"

definition response :: "nat \<Rightarrow> string \<Rightarrow> string \<Rightarrow> http_response" where
  "response code media text = \<lparr>status = code, content_type = media, body = text\<rparr>"

definition msgpack :: "('d, 'o, 'r, 'm) web_env \<Rightarrow> 'o api_body \<Rightarrow> nat \<Rightarrow> http_response" where
  "msgpack e b code =
     (case we_msgpack e b of
        Inl err \<Rightarrow> response INTERNAL_SERVER_ERROR ''text/plain'' err
      | Inr serialized \<Rightarrow> response code ''application/msgpack'' serialized)"

definition msgpack_ok :: "('d, 'o, 'r, 'm) web_env \<Rightarrow> 'o api_body \<Rightarrow> http_response" where
  "msgpack_ok e b = msgpack e b OK"

definition json :: "('d, 'o, 'r, 'm) web_env \<Rightarrow> 'o api_body \<Rightarrow> nat \<Rightarrow> http_response" where
  "json e b code =
     (case we_json e b of
        Inl err \<Rightarrow> response INTERNAL_SERVER_ERROR ''text/plain'' err
      | Inr serialized \<Rightarrow> response code ''application/json'' serialized)"

definition answer :: "('s, 'd, 'o, 'q, 'r) server \<Rightarrow> http_response \<Rightarrow> ('s, 'd, 'o, 'q, 'r) handled" where
  "answer st r = (st, Some r, [])"

definition fail_with :: "('d, 'o, 'r, 'm) web_env \<Rightarrow> ('s, 'd, 'o, 'q, 'r) server \<Rightarrow> error_response \<Rightarrow> nat \<Rightarrow>
    ('s, 'd, 'o, 'q, 'r) handled" where
  "fail_with e st err code = answer st (msgpack e (ErrorBody err) code)"

text \<open>A panic without the lock of the tree, and one with it.\<close>

definition panicked :: "('s, 'd, 'o, 'q, 'r) server \<Rightarrow> ('s, 'd, 'o, 'q, 'r) handled" where
  "panicked st = (st, None, [])"

definition poison :: "('s, 'd, 'o, 'q, 'r) server \<Rightarrow> ('s, 'd, 'o, 'q, 'r) server" where
  "poison st = st\<lparr>sv_session := (sv_session st)\<lparr>ss_tree_poisoned := True\<rparr>\<rparr>"

definition update_clients :: "(client_registry \<Rightarrow> client_registry) \<Rightarrow> ('s, 'd, 'o, 'q, 'r) server \<Rightarrow>
    ('s, 'd, 'o, 'q, 'r) server" where
  "update_clients f st = st\<lparr>sv_session := (sv_session st)\<lparr>ss_clients := f (ss_clients (sv_session st))\<rparr>\<rparr>"


section \<open>Discovery and status\<close>

definition DISCOVERY_PROBE_CLIENT :: string where "DISCOVERY_PROBE_CLIENT = ''roxo-plugin-probe''"
definition MAX_PROBE_REPORT_BYTES :: nat where "MAX_PROBE_REPORT_BYTES = 8 * 1024"

definition register_client :: "api_clock \<Rightarrow> socket_addr \<Rightarrow> client_handshake \<Rightarrow> ('s, 'd, 'o, 'q, 'r) server \<Rightarrow>
    ('s, 'd, 'o, 'q, 'r) server \<times> client_id option" where
  "register_client ck addr h st =
     (if ch_client_name h = Some DISCOVERY_PROBE_CLIENT
      then (update_clients (record_probe (ck_first ck) h (sa_text addr)) st, None)
      else (update_clients (\<lambda>r. fst (handshake (ck_first ck) (ck_second ck) h (sa_text addr) r)) st,
            Some (snd (handshake (ck_first ck) (ck_second ck) h (sa_text addr) (ss_clients (sv_session st))))))"

definition server_info :: "('d, 'o, 'r, 'm) web_env \<Rightarrow> ('s, 'd, 'o, 'q) serve_session \<Rightarrow> referent \<Rightarrow> string \<Rightarrow>
    client_id option \<Rightarrow> u16 list \<Rightarrow> server_info_response" where
  "server_info e s root_id name cid ports =
     \<lparr>si_session_id = ss_session_id s, si_server_version = SERVER_VERSION,
      si_protocol_version = PROTOCOL_VERSION, si_project_name = name,
      si_expected_place_ids = p_serve_place_ids (ss_root_project s),
      si_unexpected_place_ids = p_blocked_place_ids (ss_root_project s),
      si_game_id = p_game_id (ss_root_project s), si_place_id = p_place_id (ss_root_project s),
      si_root_instance_id = root_id, si_server_name = SERVER_NAME, si_project_id = ss_project_id s,
      si_auto_connect = policy_as_str (session_auto_connect s),
      si_project_path = we_display e (p_file_location (ss_root_project s)),
      si_capabilities = capabilities, si_client_id = cid, si_peer_ports = ports\<rparr>"

definition handle_api_rojo :: "('d, 'o, 'r, 'm) web_env \<Rightarrow> api_clock \<Rightarrow> socket_addr \<Rightarrow> api_request \<Rightarrow>
    ('s, 'd, 'o, 'q, 'r) server \<Rightarrow> ('s, 'd, 'o, 'q, 'r) handled" where
  "handle_api_rojo e ck addr rq st =
     (case lock_tree (sv_session st) of
        None \<Rightarrow> panicked st
      | Some t \<Rightarrow>
          (case parse_handshake (rq_query rq) of
             None \<Rightarrow> panicked (poison st)
           | Some h \<Rightarrow>
               (case register_client ck addr h st of
                  (st1, cid) \<Rightarrow>
                    (case project_name (sv_session st1) of
                       None \<Rightarrow> panicked (poison st1)
                     | Some name \<Rightarrow>
                         (case peer_ports (we_registry e) (sv_beacons st1) (ss_session_id (sv_session st1)) of
                            (beacons, ports) \<Rightarrow>
                              answer (st1\<lparr>sv_beacons := beacons\<rparr>)
                                (msgpack_ok e (ServerInfoBody
                                  (server_info e (sv_session st1) (get_root_id (we_dom e) t) name cid ports))))))))"

definition session_status :: "('d, 'o, 'r, 'm) web_env \<Rightarrow> api_clock \<Rightarrow> ('s, 'd, 'o, 'q) serve_session \<Rightarrow> string \<Rightarrow>
    nat \<Rightarrow> client_info list \<Rightarrow> probe_info list \<Rightarrow> session_status_response" where
  "session_status e ck s name subscribed listed probes =
     \<lparr>st_session_id = ss_session_id s, st_server_name = SERVER_NAME, st_server_version = SERVER_VERSION,
      st_protocol_version = PROTOCOL_VERSION, st_project_name = name, st_project_id = ss_project_id s,
      st_project_path = we_display e (p_file_location (ss_root_project s)),
      st_place_id = p_place_id (ss_root_project s), st_game_id = p_game_id (ss_root_project s),
      st_serve_place_ids = p_serve_place_ids (ss_root_project s),
      st_auto_connect = policy_as_str (session_auto_connect s), st_uptime_seconds = ck_elapsed ck,
      st_studio_connected = (subscribed > 0), st_client_count = subscribed, st_clients = listed,
      st_recent_probes = probes, st_last_patch_at = last_push_at (ss_message_queue s),
      st_patches_sent = mq_cursor (ss_message_queue s)\<rparr>"

definition handle_api_status :: "('d, 'o, 'r, 'm) web_env \<Rightarrow> api_clock \<Rightarrow> ('s, 'd, 'o, 'q, 'r) server \<Rightarrow>
    ('s, 'd, 'o, 'q, 'r) handled" where
  "handle_api_status e ck st =
     (case project_name (sv_session st) of
        None \<Rightarrow> panicked st
      | Some name \<Rightarrow>
          (let r = ss_clients (sv_session st);
               (r1, listed) = list_clients (ck_first ck) r;
               (r2, probes) = recent_probes (ck_second ck) r1
           in answer (update_clients (\<lambda>_. r2) st)
                (json e (StatusBody (session_status e ck (sv_session st) name (subscribed_count r) listed probes)) OK)))"

definition handle_api_probe_report :: "('d, 'o, 'r, 'm) web_env \<Rightarrow> api_clock \<Rightarrow> socket_addr \<Rightarrow> api_request \<Rightarrow>
    ('s, 'd, 'o, 'q, 'r) server \<Rightarrow> ('s, 'd, 'o, 'q, 'r) handled" where
  "handle_api_probe_report e ck addr rq st =
     (case rq_body rq of
        Inl err \<Rightarrow> answer st (json e (ErrorBody (bad_request (''Could not read body: '' @ err))) BAD_REQUEST)
      | Inr bytes \<Rightarrow>
          (if \<not> length bytes \<le> MAX_PROBE_REPORT_BYTES
           then answer st (json e (ErrorBody (bad_request ''Probe report is too large'')) PAYLOAD_TOO_LARGE)
           else case we_decode_probe e bytes of
             Inl err \<Rightarrow> answer st (json e (ErrorBody (bad_request (''Invalid probe report: '' @ err))) BAD_REQUEST)
           | Inr report \<Rightarrow>
               answer (update_clients (record_probe_verdict (ck_first ck) report (sa_text addr)) st)
                 (json e RecordedBody OK)))"


section \<open>Subscriptions\<close>

definition anonymous_handshake :: client_handshake where
  "anonymous_handshake = handshake_default\<lparr>ch_client_name := Some ''unknown''\<rparr>"

definition handle_api_socket :: "('d, 'o, 'r, 'm) web_env \<Rightarrow> api_clock \<Rightarrow> socket_addr \<Rightarrow> api_request \<Rightarrow>
    ('s, 'd, 'o, 'q, 'r) server \<Rightarrow> ('s, 'd, 'o, 'q, 'r) handled" where
  "handle_api_socket e ck addr rq st =
     (let argument = drop (length ''/api/socket/'') (rq_path rq)
      in case parse_u32 argument of
           None \<Rightarrow> fail_with e st (bad_request (''Malformed message cursor: '' @ parse_error_text (2 ^ 32) argument)) BAD_REQUEST
         | Some input_cursor \<Rightarrow>
             (case rq_upgrade rq of
                Inl err \<Rightarrow> fail_with e st (internal_error (''WebSocket upgrade failed: '' @ err)) INTERNAL_SERVER_ERROR
              | Inr upgraded \<Rightarrow>
                  (case parse_client_id (rq_query rq) of
                     Some cid \<Rightarrow> (st, Some upgraded, [SpawnSubscription input_cursor cid])
                   | None \<Rightarrow>
                       (let h = handshake (ck_first ck) (ck_second ck) anonymous_handshake (sa_text addr)
                              (ss_clients (sv_session st))
                        in (update_clients (\<lambda>_. fst h) st, Some upgraded, [SpawnSubscription input_cursor (snd h)])))))"

text \<open>
  The task behind a subscription, \<open>handle_websocket_subscription\<close>, from one turn of its loop to the
  next.  Each turn subscribes anew with a fresh sender; what \<open>select!\<close> yields is the input, with
  whether the packet could be sent.  Leaving the loop, by whatever way, drops the guard.
\<close>

datatype 'o socket_input =
    QueueDelivers u32 "'o applied_patch_set list" bool
  | QueueDisconnects
  | SocketCloses
  | SocketControl
  | SocketData
  | SocketFrame
  | SocketFails
  | SocketEnds

datatype ('s, 'd, 'o, 'q, 'r) socket_turn =
    Continues (turn_server: "('s, 'd, 'o, 'q, 'r) server") (turn_cursor: u32) (turn_sent: "'o socket_packet option")
  | Leaves (turn_server: "('s, 'd, 'o, 'q, 'r) server") (turn_sent: "'o socket_packet option")

definition start_subscription :: "u64 \<Rightarrow> client_id \<Rightarrow> ('s, 'd, 'o, 'q, 'r) server \<Rightarrow> ('s, 'd, 'o, 'q, 'r) server" where
  "start_subscription now cid st = update_clients (set_subscribed now cid True) st"

definition drop_subscription :: "client_id \<Rightarrow> ('s, 'd, 'o, 'q, 'r) server \<Rightarrow> ('s, 'd, 'o, 'q, 'r) server" where
  "drop_subscription cid st = update_clients (remove_client cid) st"

definition resubscribe :: "u32 \<Rightarrow> 'q \<Rightarrow> ('s, 'd, 'o, 'q, 'r) server \<Rightarrow> ('s, 'd, 'o, 'q, 'r) server" where
  "resubscribe cursor sender st =
     st\<lparr>sv_session := (sv_session st)\<lparr>ss_message_queue := fst (mq_subscribe cursor sender (ss_message_queue (sv_session st)))\<rparr>\<rparr>"

fun patch_messages :: "('d, 'o) dom_ops \<Rightarrow> ('d, 'o) rojo_tree \<Rightarrow> 'o applied_patch_set list \<Rightarrow>
    'o subscribe_message list option" where
  "patch_messages D t [] = Some []"
| "patch_messages D t (p # ps) =
     Option.bind (from_patch_update D t p) (\<lambda>m. map_option (\<lambda>ms. m # ms) (patch_messages D t ps))"

definition socket_turn :: "('d, 'o, 'r, 'm) web_env \<Rightarrow> client_id \<Rightarrow> 'q \<Rightarrow> 'o socket_input \<Rightarrow>
    ('s, 'd, 'o, 'q, 'r) server \<Rightarrow> u32 \<Rightarrow> ('s, 'd, 'o, 'q, 'r) socket_turn" where
  "socket_turn e cid sender input st cursor =
     (let st = resubscribe cursor sender st;
          leave = Leaves (drop_subscription cid st) None
      in case input of
           QueueDelivers new_cursor delivered reached \<Rightarrow>
             if delivered = [] then Continues st cursor None
             else (case lock_tree (sv_session st) of
                 None \<Rightarrow> leave
               | Some t \<Rightarrow>
                   (case patch_messages (we_dom e) t delivered of
                      None \<Rightarrow> Leaves (drop_subscription cid (poison st)) None
                    | Some api_messages \<Rightarrow>
                        (let packet = \<lparr>sp_session_id = ss_session_id (sv_session st),
                               sp_body = \<lparr>mp_message_cursor = new_cursor, mp_messages = api_messages\<rparr>\<rparr>
                         in case we_msgpack_packet e packet of
                              Inl _ \<Rightarrow> leave
                            | Inr _ \<Rightarrow> if reached then Continues st new_cursor (Some packet) else leave)))
         | QueueDisconnects \<Rightarrow> leave
         | SocketCloses \<Rightarrow> leave
         | SocketControl \<Rightarrow> Continues st cursor None
         | SocketData \<Rightarrow> Continues st cursor None
         | SocketFrame \<Rightarrow> leave
         | SocketFails \<Rightarrow> leave
         | SocketEnds \<Rightarrow> leave)"


section \<open>Reading and writing\<close>

text \<open>\<open>to_bytes(...).await.unwrap()\<close>, the decoder, and the check of the session id.\<close>

definition with_request :: "('d, 'o, 'r, 'm) web_env \<Rightarrow> (string \<Rightarrow> string + 'req) \<Rightarrow> ('req \<Rightarrow> session_id) \<Rightarrow> api_request \<Rightarrow>
    ('s, 'd, 'o, 'q, 'r) server \<Rightarrow> ('req \<Rightarrow> ('s, 'd, 'o, 'q, 'r) handled) \<Rightarrow> ('s, 'd, 'o, 'q, 'r) handled" where
  "with_request e decoder request_session rq st handler =
     (case rq_body rq of
        Inl _ \<Rightarrow> panicked st
      | Inr bytes \<Rightarrow>
          (case decoder bytes of
             Inl err \<Rightarrow> fail_with e st (bad_request (''Invalid body: '' @ err)) BAD_REQUEST
           | Inr request \<Rightarrow>
               (if request_session request \<noteq> ss_session_id (sv_session st)
                then fail_with e st (bad_request ''Wrong session ID'') BAD_REQUEST
                else handler request)))"

definition write_update :: "'o instance_update \<Rightarrow> 'o patch_update" where
  "write_update u =
     \<lparr>pu_id = iu_id u, pu_changed_name = iu_changed_name u, pu_changed_class_name = iu_changed_class_name u,
      pu_changed_properties = iu_changed_properties u, pu_changed_metadata = None\<rparr>"

text \<open>Sending panics once the job thread is gone.\<close>

definition handle_api_write :: "('d, 'o, 'r, 'm) web_env \<Rightarrow> api_request \<Rightarrow> ('s, 'd, 'o, 'q, 'r) server \<Rightarrow>
    ('s, 'd, 'o, 'q, 'r) handled" where
  "handle_api_write e rq st =
     with_request e (we_decode_write e) wr_session_id rq st (\<lambda>request.
       let s = sv_session st;
           patch = \<lparr>removed_instances = [], added_instances = [],
             updated_instances = map write_update (wr_updated request)\<rparr>
       in if \<not> ss_job_running s then panicked st
          else answer (st\<lparr>sv_session := s\<lparr>ss_tree_mutations := ss_tree_mutations s @ [patch]\<rparr>\<rparr>)
            (msgpack_ok e (WriteBody (ss_session_id s))))"

fun parse_ids :: "(string \<Rightarrow> referent option) \<Rightarrow> string list \<Rightarrow> referent list option" where
  "parse_ids parse_id [] = Some []"
| "parse_ids parse_id (piece # pieces) =
     Option.bind (parse_id piece) (\<lambda>r. map_option (\<lambda>rs. r # rs) (parse_ids parse_id pieces))"

text \<open>The loop over the requested ids: one that is not in the tree is passed over.\<close>

definition read_instances :: "('d, 'o) dom_ops \<Rightarrow> ('d, 'o) rojo_tree \<Rightarrow> referent list \<Rightarrow>
    (referent, 'o api_instance) hash_map option" where
  "read_instances D t requested =
     fold_panic (\<lambda>r instances.
       case get_instance D t r of
         None \<Rightarrow> None
       | Some None \<Rightarrow> Some instances
       | Some (Some p) \<Rightarrow> insert_subtree D t r p instances) requested []"

definition handle_api_read :: "('d, 'o, 'r, 'm) web_env \<Rightarrow> api_request \<Rightarrow> ('s, 'd, 'o, 'q, 'r) server \<Rightarrow>
    ('s, 'd, 'o, 'q, 'r) handled" where
  "handle_api_read e rq st =
     (case parse_ids (we_ref_from_str e) (split_on (CHR '','') (drop (length ''/api/read/'') (rq_path rq))) of
        None \<Rightarrow> fail_with e st (bad_request ''Malformed ID list'') BAD_REQUEST
      | Some requested \<Rightarrow>
          (let s = sv_session st; message_cursor = mq_cursor (ss_message_queue s)
           in case lock_tree s of
                None \<Rightarrow> panicked st
              | Some t \<Rightarrow>
                  (case read_instances (we_dom e) t requested of
                     None \<Rightarrow> panicked (poison st)
                   | Some instances \<Rightarrow>
                       answer st (msgpack_ok e (ReadBody
                         \<lparr>rr_session_id = ss_session_id s, rr_message_cursor = message_cursor,
                          rr_instances = instances\<rparr>)))))"

text \<open>The properties of one instance that point at an id of the request.\<close>

definition pointing_properties :: "referent list \<Rightarrow> (string, 'o variant) hash_map \<Rightarrow> (string, 'o variant option) hash_map" where
  "pointing_properties ids properties =
     fold (\<lambda>(name, v) changed.
       case v of
         VRef target \<Rightarrow> if target \<in> set ids then hm_insert name (Some (VRef target)) changed else changed
       | _ \<Rightarrow> changed) properties []"

definition ref_update :: "referent \<Rightarrow> (string, 'o variant option) hash_map \<Rightarrow> 'o instance_update" where
  "ref_update r changed = \<lparr>iu_id = r, iu_changed_name = None, iu_changed_class_name = None,
     iu_changed_properties = changed, iu_changed_metadata = None\<rparr>"

text \<open>An instance gets an entry with its first such property.\<close>

definition note_refs :: "referent list \<Rightarrow> 'o inst \<times> 'o instance_metadata \<Rightarrow>
    (referent, 'o instance_update) hash_map \<Rightarrow> (referent, 'o instance_update) hash_map" where
  "note_refs ids p updates =
     (let changed = pointing_properties ids (i_properties (fst p))
      in if changed = [] then updates
         else hm_insert (i_referent (fst p)) (ref_update (i_referent (fst p)) changed) updates)"

definition handle_api_ref_patch :: "('d, 'o, 'r, 'm) web_env \<Rightarrow> api_request \<Rightarrow> ('s, 'd, 'o, 'q, 'r) server \<Rightarrow>
    ('s, 'd, 'o, 'q, 'r) handled" where
  "handle_api_ref_patch e rq st =
     with_request e (we_decode_ref_patch e) rq_session_id rq st (\<lambda>request.
       case lock_tree (sv_session st) of
         None \<Rightarrow> panicked st
       | Some t \<Rightarrow>
           (case rt_descendants (we_dom e) t (get_root_id (we_dom e) t) of
              None \<Rightarrow> panicked (poison st)
            | Some found \<Rightarrow>
                answer st (msgpack_ok e (RefPatchBody
                  \<lparr>rpr_session_id = ss_session_id (sv_session st),
                   rpr_patch = \<lparr>sm_removed = [], sm_added = [],
                     sm_updated = hm_values (fold (note_refs (rq_ids request)) found [])\<rparr>\<rparr>))))"


section \<open>Models\<close>

definition parent_requirements :: "string \<Rightarrow> string option" where
  "parent_requirements class_name =
     (if class_name \<in> {''Attachment'', ''Bone''} then Some ''Part''
      else if class_name = ''Animator'' then Some ''Humanoid''
      else if class_name \<in> {''BaseWrap'', ''WrapLayer'', ''WrapTarget'', ''WrapDeformer''} then Some ''MeshPart''
      else None)"

text \<open>\<open>InstanceBuilder::new\<close>: the name is the class until it is set.\<close>

definition builder_new :: "string \<Rightarrow> 'o builder" where
  "builder_new class_name = \<lparr>b_class = class_name, b_name = class_name, b_properties = []\<rparr>"

definition add_to_model :: "('m, 'o) model_ops \<Rightarrow> string \<Rightarrow> 'o inst \<Rightarrow> 'm \<Rightarrow> 'm" where
  "add_to_model M id_text i m =
     (let (m1, clone) = mo_insert M m NoRef \<lparr>b_class = i_class i, b_name = i_name i, b_properties = i_properties i\<rparr>;
          (m2, object_value) = mo_insert M m1 (mo_root M m1)
            ((builder_new ''ObjectValue'')\<lparr>b_name := id_text, b_properties := [(''Value'', VRef clone)]\<rparr>);
          (m4, child_ref) =
            (case parent_requirements (i_class i) of
               None \<Rightarrow> (m2, clone)
             | Some parent_class \<Rightarrow>
                 (let (m3, wrapper) = mo_insert M m2 object_value (builder_new parent_class)
                  in (mo_transfer_within M m3 clone wrapper, wrapper)))
      in mo_transfer_within M m4 child_ref object_value)"

text \<open>The loop over the ids: the model, or the first id that is not in the tree.\<close>

fun build_model :: "('d, 'o, 'r, 'm) web_env \<Rightarrow> ('d, 'o) rojo_tree \<Rightarrow> referent list \<Rightarrow> 'm \<Rightarrow> (referent + 'm) option" where
  "build_model e t [] m = Some (Inr m)"
| "build_model e t (r # rs) m =
     (case get_instance (we_dom e) t r of
        None \<Rightarrow> None
      | Some None \<Rightarrow> Some (Inl r)
      | Some (Some (i, _)) \<Rightarrow> build_model e t rs (add_to_model (we_model e) (we_ref_to_string e r) i m))"

definition handle_api_serialize :: "('d, 'o, 'r, 'm) web_env \<Rightarrow> api_request \<Rightarrow> ('s, 'd, 'o, 'q, 'r) server \<Rightarrow>
    ('s, 'd, 'o, 'q, 'r) handled" where
  "handle_api_serialize e rq st =
     with_request e (we_decode_serialize e) sr_session_id rq st (\<lambda>request.
       let M = we_model e; s = sv_session st
       in case lock_tree s of
            None \<Rightarrow> panicked st
          | Some t \<Rightarrow>
              (case build_model e t (sr_ids request) (mo_new M (builder_new ''Folder'')) of
                 None \<Rightarrow> panicked (poison st)
               | Some (Inl r) \<Rightarrow>
                   fail_with e st (bad_request (''provided id '' @ we_ref_to_string e r @ '' is not in the tree'')) BAD_REQUEST
               | Some (Inr m) \<Rightarrow>
                   (case mo_to_binary M m [mo_root M m] of
                      None \<Rightarrow> panicked st
                    | Some source \<Rightarrow>
                        answer st (msgpack_ok e (SerializeBody
                          \<lparr>se_session_id = ss_session_id s, se_model_contents = source\<rparr>)))))"


section \<open>Opening scripts\<close>

definition opens_as_script :: "('d, 'o, 'r, 'm) web_env \<Rightarrow> path \<Rightarrow> bool" where
  "opens_as_script e p \<longleftrightarrow> path_extension p \<in> {Some ''lua'', Some ''luau''} \<and> we_is_file e p"

definition pick_script_path :: "('d, 'o, 'r, 'm) web_env \<Rightarrow> 'o inst \<times> 'o instance_metadata \<Rightarrow> path option" where
  "pick_script_path e p =
     (if i_class (fst p) \<in> {''Script'', ''LocalScript'', ''ModuleScript''}
      then find (opens_as_script e) (md_relevant_paths (snd p))
      else None)"

definition open_failure :: "('d, 'o, 'r, 'm) web_env \<Rightarrow> path \<Rightarrow> open_error \<Rightarrow> string" where
  "open_failure e p err =
     (case err of
        OpenIo io_error \<Rightarrow>
          ''Attempting to open '' @ we_display e p @ '' failed because of the following io error: '' @ io_error
      | OpenExitStatus cmd code stderr \<Rightarrow>
          ''The command '' @ [CHR 0x27] @ cmd @ [CHR 0x27] @ '' to open '' @ [CHR 0x27] @ we_display e p @ [CHR 0x27] @
          '' failed with the error code '' @ [CHR 0x27] @ code @ [CHR 0x27] @ ''.'' @
          [CHR 0x0A] @ replicate 28 (CHR '' '') @ ''Error logs:'' @ [CHR 0x0A] @ replicate 28 (CHR '' '') @ stderr)"

definition handle_api_open :: "('d, 'o, 'r, 'm) web_env \<Rightarrow> socket_addr \<Rightarrow> api_request \<Rightarrow> ('s, 'd, 'o, 'q, 'r) server \<Rightarrow>
    ('s, 'd, 'o, 'q, 'r) handled" where
  "handle_api_open e addr rq st =
     (if \<not> is_loopback (canonical (sa_ip addr))
      then fail_with e st (forbidden ''/api/open is only available to local clients'') FORBIDDEN
      else case we_ref_from_str e (drop (length ''/api/open/'') (rq_path rq)) of
        None \<Rightarrow> fail_with e st (bad_request ''Invalid instance ID'') BAD_REQUEST
      | Some r \<Rightarrow>
          (case lock_tree (sv_session st) of
             None \<Rightarrow> panicked st
           | Some t \<Rightarrow>
               (case get_instance (we_dom e) t r of
                  None \<Rightarrow> panicked (poison st)
                | Some None \<Rightarrow> fail_with e st (bad_request ''Instance not found'') NOT_FOUND
                | Some (Some p) \<Rightarrow>
                    (case pick_script_path e p of
                       None \<Rightarrow> fail_with e st (bad_request ''No appropriate file could be found to open this script'') NOT_FOUND
                     | Some script_path \<Rightarrow>
                         (st, Some (case we_open e script_path of
                              Inr () \<Rightarrow> msgpack_ok e (OpenBody (ss_session_id (sv_session st)))
                            | Inl err \<Rightarrow> msgpack e (ErrorBody (internal_error (open_failure e script_path err))) INTERNAL_SERVER_ERROR),
                          [OpenFile script_path])))))"


section \<open>Routes\<close>

definition api_call :: "('d, 'o, 'r, 'm) web_env \<Rightarrow> api_clock \<Rightarrow> socket_addr \<Rightarrow> api_request \<Rightarrow>
    ('s, 'd, 'o, 'q, 'r) server \<Rightarrow> ('s, 'd, 'o, 'q, 'r) handled" where
  "api_call e ck addr rq st =
     (let m = rq_method rq; p = rq_path rq
      in if m = Get \<and> p \<in> {''/api/rojo'', ''/api/roxo''} then handle_api_rojo e ck addr rq st
         else if m = Get \<and> p = ''/api/roxo/status'' then handle_api_status e ck st
         else if m = Post \<and> p = ''/api/roxo/probe-report'' then handle_api_probe_report e ck addr rq st
         else if m = Get \<and> str_starts_with p ''/api/read/'' then handle_api_read e rq st
         else if m = Get \<and> str_starts_with p ''/api/socket/''
         then (if rq_is_upgrade rq then handle_api_socket e ck addr rq st
               else fail_with e st (bad_request ''/api/socket must be called as a websocket upgrade request'') BAD_REQUEST)
         else if m = Post \<and> p = ''/api/serialize'' then handle_api_serialize e rq st
         else if m = Post \<and> p = ''/api/ref-patch'' then handle_api_ref_patch e rq st
         else if m = Post \<and> str_starts_with p ''/api/open/'' then handle_api_open e addr rq st
         else if m = Post \<and> p = ''/api/write'' then handle_api_write e rq st
         else fail_with e st (not_found (''Route not found: '' @ p)) NOT_FOUND)"

text \<open>The service of \<open>LiveServer::start\<close>; the pages of \<open>ui.rs\<close> are an argument.\<close>

definition service :: "('d, 'o, 'r, 'm) web_env \<Rightarrow> allowed_hosts_rec option \<Rightarrow>
    (api_request \<Rightarrow> ('s, 'd, 'o, 'q, 'r) server \<Rightarrow> ('s, 'd, 'o, 'q, 'r) handled) \<Rightarrow>
    api_clock \<Rightarrow> socket_addr \<Rightarrow> api_request \<Rightarrow> ('s, 'd, 'o, 'q, 'r) server \<Rightarrow> ('s, 'd, 'o, 'q, 'r) handled" where
  "service e allowed ui ck addr rq st =
     (case check_request_origin (we_http e) (rq_headers rq) allowed of
        Some r \<Rightarrow> answer st r
      | None \<Rightarrow>
          (if str_starts_with (rq_path rq) ''/api'' then api_call e ck addr rq st else ui rq st))"

end
