(* ===== verification/Web_Properties.thy ===== *)
theory Web_Properties
  imports Web_Api Middleware_Properties
begin

text \<open>
  Theorems on the HTTP API: what reading and subscriptions show of the tree, what requests can
  change and when they panic, who may open files, and how a subscription can end the server.
\<close>

section \<open>A small server\<close>

text \<open>Encoders that show the kind of a body, and ids as decimal text.\<close>

definition sample_msgpack :: "nat api_body \<Rightarrow> string + string" where
  "sample_msgpack b = Inr (case b of ErrorBody err \<Rightarrow> er_details err | ReadBody r \<Rightarrow> decimal (length (rr_instances r)) | _ \<Rightarrow> [])"

definition sample_web_env :: "(nat ref_dom, nat, in_memory_fs, unit) web_env" where
  "sample_web_env =
     \<lparr>we_dom = ref_dom_ops, we_registry = sample_env,
      we_model = \<lparr>mo_new = \<lambda>_. (), mo_root = \<lambda>_. Ref 0, mo_insert = \<lambda>_ _ _. ((), Ref 0),
        mo_transfer_within = \<lambda>_ _ _. (), mo_to_binary = \<lambda>_ _. Some []\<rparr>,
      we_http = sample_http_env, we_msgpack = sample_msgpack, we_json = sample_msgpack,
      we_msgpack_packet = \<lambda>_. Inr [],
      we_decode_write = \<lambda>text. if text = ''w'' then Inr \<lparr>wr_session_id = 7, wr_removed = [], wr_added = [], wr_updated = []\<rparr> else Inl text,
      we_decode_serialize = Inl, we_decode_ref_patch = \<lambda>_. Inr \<lparr>rq_session_id = 7, rq_ids = [Ref 0]\<rparr>,
      we_decode_probe = Inl,
      we_ref_from_str = \<lambda>text. map_option Ref (parse_unsigned 100 text),
      we_ref_to_string = \<lambda>r. case r of NoRef \<Rightarrow> [] | Ref n \<Rightarrow> decimal n,
      we_display = \<lambda>_. [], we_is_file = \<lambda>_. True, we_open = \<lambda>_. Inr ()\<rparr>"

definition sample_session :: "(nat ref_dom, nat) rojo_tree \<Rightarrow> nat applied_patch_set list \<Rightarrow>
    (in_memory_fs, nat ref_dom, nat, nat) serve_session" where
  "sample_session t history =
     \<lparr>ss_start_time = 0, ss_root_project = nameless_project\<lparr>p_name := Some ''game''\<rparr>, ss_session_id = 7,
      ss_tree = t, ss_tree_poisoned = False, ss_vfs = vfs_new im_new,
      ss_message_queue = mq_new\<lparr>messages := history\<rparr>, ss_tree_mutations = [], ss_job_running = True,
      ss_project_id = ''game'', ss_auto_connect_override = None, ss_clients = registry_new\<rparr>"

definition sample_server :: "(nat ref_dom, nat) rojo_tree \<Rightarrow> nat applied_patch_set list \<Rightarrow>
    (in_memory_fs, nat ref_dom, nat, nat, in_memory_fs) server" where
  "sample_server t history = \<lparr>sv_session = sample_session t history, sv_beacons = im_new\<rparr>"

text \<open>The tree of a new session, then with an instance that a patch adds, then without it again.\<close>

definition bare_tree :: "(nat ref_dom, nat) rojo_tree" where
  "bare_tree = the (rt_new ref_dom_ops snapshot_new)"

definition child_addition :: "nat patch_set" where
  "child_addition = patch_set_new\<lparr>added_instances := [\<lparr>pa_parent_id = Ref 0, pa_instance = snapshot_new\<rparr>]\<rparr>"

definition child_removal :: "nat patch_set" where
  "child_removal = patch_set_new\<lparr>removed_instances := [Ref 1]\<rparr>"

definition added_patch :: "nat applied_patch_set" where
  "added_patch = applied_new\<lparr>ap_added := [Ref 1]\<rparr>"

definition removed_patch :: "nat applied_patch_set" where
  "removed_patch = applied_new\<lparr>ap_removed := [Ref 1]\<rparr>"

definition grown_tree :: "(nat ref_dom, nat) rojo_tree" where
  "grown_tree = snd (the (apply_patch_set ref_dom_ops child_addition bare_tree))"

definition cut_tree :: "(nat ref_dom, nat) rojo_tree" where
  "cut_tree = snd (the (apply_patch_set ref_dom_ops child_removal grown_tree))"

lemma sample_patches:
  "apply_patch_set ref_dom_ops child_addition bare_tree = Some (added_patch, grown_tree)"
  "apply_patch_set ref_dom_ops child_removal grown_tree = Some (removed_patch, cut_tree)"
  by code_simp+

lemma sample_lookups:
  "dom_get ref_dom_ops (rt_inner bare_tree) (Ref 0) \<noteq> None"
  "dom_get ref_dom_ops (rt_inner grown_tree) (Ref 1) \<noteq> None" "dom_root ref_dom_ops (rt_inner grown_tree) = Ref 0"
  "dom_get ref_dom_ops (rt_inner cut_tree) (Ref 1) = None"
  by code_simp+

lemma bare_tree_inv: "tree_inv ref_dom_ops rd_ok bare_tree"
  using rd.rt_new_inv [of "snapshot_new :: nat instance_snapshot"] by (auto simp: bare_tree_def)

lemma grown_tree_inv: "tree_inv ref_dom_ops rd_ok grown_tree"
  using rd.apply_patch_set_total [OF bare_tree_inv, of child_addition] sample_patches(1) sample_lookups(1)
  by (auto simp: child_addition_def patch_set_new_def named_def)

lemma cut_tree_inv: "tree_inv ref_dom_ops rd_ok cut_tree"
  using rd.apply_patch_set_total [OF grown_tree_inv, of child_removal] sample_patches(2) sample_lookups(2,3)
  by (auto simp: child_removal_def patch_set_new_def named_def)

lemmas sample_server_simps = sample_server_def sample_session_def sample_web_env_def


section \<open>The start of a session\<close>

text \<open>
  C14. A session whose project loads, whose first snapshot is taken and whose project has an id starts:
  nothing on the way panics (as long as the snapshot's values can be compared: of a type the comparison
  knows, without keypoint times that are not numbers), its tree is well
  formed, its project has a name, and its history, its channel and its registry are empty.
\<close>

theorem sessions_start_well_formed:
  assumes "weak_dom (sv_dom env) ok"
    and "vfs_canonicalize (se_ops (sv_snapshot env)) v start_path = (v1, Inr q)"
    and "load_initial_project (project_from_slice (sv_snapshot env)) (se_ops (sv_snapshot env)) v1 q = Some (v2, Inr project)"
    and "snapshot_from_vfs (sv_snapshot env) (sv_fuel env) (with_emit_legacy_scripts (p_emit_legacy_scripts project)) q v2 =
      (v3, Done snapshot)"
    and "\<And>s. snapshot = Some s \<Longrightarrow> snapshot_comparable s"
    and "session_project_id env project = Some project_id"
  shows "\<exists>s. session_new env t0 sid start_path v = (v3, Done s) \<and> session_inv (sv_dom env) ok s \<and>
    ss_session_id s = sid \<and> ss_root_project s = project \<and> \<not> ss_tree_poisoned s \<and> ss_job_running s \<and>
    messages (ss_message_queue s) = [] \<and> ss_tree_mutations s = [] \<and> ss_clients s = registry_new"
proof -
  obtain t where t: "session_tree env snapshot = Some t" "tree_inv (sv_dom env) ok t"
    using session_tree_total [OF assms(1,5)] by blast
  have "p_name project \<noteq> None" using assms(3) by (rule load_initial_project_names)
  moreover have "session_load_project env q v1 = (v2, Done project)"
    using assms(3) by (simp add: session_load_project_def)
  moreover have "session_take_snapshot env project q v2 = (v3, Done snapshot)"
    using assms(4) by (simp add: session_take_snapshot_def)
  ultimately show ?thesis
    using assms(2,6) t
    by (simp add: session_new_def and_then_def of_io_def of_result_def of_panicking_def yields_def map_error_def
        session_inv_def project_name_def mq_new_def clients_ok_def registry_new_def)
qed

definition named_project :: "nat project" where
  "named_project = nameless_project\<lparr>p_name := Some ''game'',
     p_tree := ProjectNode (Some ''Folder'') None [] [] [] None None\<rparr>"

definition sample_session_env :: "(in_memory_fs, nat ref_dom, nat) session_env" where
  "sample_session_env =
     \<lparr>sv_snapshot = small_env named_project, sv_fuel = 3, sv_variants = exact_env, sv_dom = ref_dom_ops,
      sv_fs_canonicalize = Inr, sv_to_string_lossy = \<lambda>_. [], sv_blake3_hex = \<lambda>_. ''0123456789abcdef''\<rparr>"

definition sample_project_files :: "in_memory_fs vfs" where
  "sample_project_files = small_files [(''default.project.json'', VFile ''{}'')]"

lemma sessions_start_well_formed_witness:
  "\<exists>v' s. session_new sample_session_env 0 7 [RootDir, Normal ''src''] sample_project_files =
      (v', Done (s :: (in_memory_fs, nat ref_dom, nat, nat) serve_session)) \<and> \<not> ss_tree_poisoned s"
proof -
  let ?env = "sample_session_env" and ?p = "[RootDir, Normal ''src'']"
  let ?project = "named_project\<lparr>p_file_location := [RootDir, Normal ''src'', Normal ''default.project.json'']\<rparr>"
  have dom: "weak_dom (sv_dom ?env) rd_ok" using ref_dom_is_weak_dom by (simp add: sample_session_env_def)
  have start: "vfs_canonicalize (se_ops (sv_snapshot ?env)) sample_project_files ?p = (sample_project_files, Inr ?p)" by code_simp
  have load: "load_initial_project (project_from_slice (sv_snapshot ?env)) (se_ops (sv_snapshot ?env)) sample_project_files ?p =
    Some (sample_project_files, Inr ?project)" by code_simp
  let ?taken = "snapshot_from_vfs (sv_snapshot ?env) (sv_fuel ?env) (with_emit_legacy_scripts (p_emit_legacy_scripts ?project))
    ?p sample_project_files"
  have "case ?taken of (_, Done (Some snap)) \<Rightarrow> snapshot_comparable snap | _ \<Rightarrow> False" by code_simp
  then obtain v' snap where taken: "?taken = (v', Done (Some snap))" "snapshot_comparable snap"
    by (auto split: prod.splits outcome.splits option.splits)
  have pid: "session_project_id ?env ?project = Some ''roxo-0123456789abcdef''" by code_simp
  have cmp: "snapshot_comparable s" if "Some snap = Some s" for s using that taken(2) by simp
  from sessions_start_well_formed [OF dom start load taken(1) cmp pid, of 0 7] show ?thesis by blast
qed


section \<open>Reading\<close>

lemma read_instances_hold:
  assumes inv: "tree_inv D ok t"
  shows "\<exists>m. read_instances D t requested = Some m \<and>
    holds_subtrees D t {r \<in> set requested. dom_get D (rt_inner t) r \<noteq> None} m"
proof -
  let ?there = "\<lambda>rs. {r \<in> set rs. dom_get D (rt_inner t) r \<noteq> None}"
  let ?step = "\<lambda>r instances. case get_instance D t r of None \<Rightarrow> None | Some None \<Rightarrow> Some instances
    | Some (Some p) \<Rightarrow> insert_subtree D t r p instances"
  have "\<exists>m'. fold_panic ?step rs m = Some m' \<and> holds_subtrees D t (seen \<union> ?there rs) m'"
    if "holds_subtrees D t seen m" for rs m seen
    using that
  proof (induction rs arbitrary: m seen)
    case (Cons r rs)
    show ?case
    proof (cases "dom_get D (rt_inner t) r = None")
      case True
      then have "?there (r # rs) = ?there rs" by auto
      with Cons.IH [OF Cons.prems] True show ?thesis by (simp add: get_instance_shown [OF inv])
    next
      case False
      then have eq: "seen \<union> ?there (r # rs) = insert r seen \<union> ?there rs" by auto
      obtain m1 where m1: "insert_subtree D t r (shown D t r) m = Some m1" "holds_subtrees D t (insert r seen) m1"
        using insert_subtree_holds [OF inv False Cons.prems] by blast
      obtain m' where m': "fold_panic ?step rs m1 = Some m'" "holds_subtrees D t (insert r seen \<union> ?there rs) m'"
        using Cons.IH [OF m1(2)] by blast
      have "get_instance D t r = Some (Some (shown D t r))" using False by (simp add: get_instance_shown [OF inv])
      then have "fold_panic ?step (r # rs) m = Some m'" using m1(1) m'(1) by simp
      with m'(2) show ?thesis unfolding eq by blast
    qed
  qed simp
  from this [OF holds_subtrees_empty, of requested] show ?thesis by (simp add: read_instances_def)
qed

lemma holds_subtrees_among:
  "holds_subtrees D t {r \<in> A. P r} m \<longleftrightarrow>
    (\<forall>x. hm_get m x = (if \<exists>r \<in> A. P r \<and> descends (dom_get D (rt_inner t)) r x then Some (view_of D t x) else None))"
proof -
  have "(\<exists>r \<in> {r \<in> A. P r}. Q r) \<longleftrightarrow> (\<exists>r \<in> A. P r \<and> Q r)" for Q by blast
  then show ?thesis by (simp only: holds_subtrees_def)
qed

lemma read_route:
  assumes "rq_method rq = Get" and "rq_path rq = ''/api/read/'' @ argument"
  shows "api_call e ck addr rq st = handle_api_read e rq st"
  using assms by (simp add: api_call_def str_starts_with_def)

text \<open>
  C5. A read request answers with exactly the subtrees of the requested ids that are in the tree,
  each instance once under its id with its parent, name, class, children and the properties that are
  no shared strings, beside the length of the patch history; it changes nothing.  The tree is well
  formed, its lock not poisoned, and the ids of the request parse.
\<close>

theorem reads_show_the_requested_subtrees:
  assumes "tree_inv (we_dom e) ok (ss_tree (sv_session st))" and "\<not> ss_tree_poisoned (sv_session st)"
    and "rq_method rq = Get" and "rq_path rq = ''/api/read/'' @ argument"
    and "parse_ids (we_ref_from_str e) (split_on (CHR '','') argument) = Some requested"
  shows "\<exists>m. api_call e ck addr rq st = (st, Some (msgpack_ok e (ReadBody
      \<lparr>rr_session_id = ss_session_id (sv_session st), rr_message_cursor = mq_cursor (ss_message_queue (sv_session st)),
       rr_instances = m\<rparr>)), []) \<and>
    (\<forall>x. hm_get m x =
       (if \<exists>r \<in> set requested. dom_get (we_dom e) (rt_inner (ss_tree (sv_session st))) r \<noteq> None \<and>
            descends (dom_get (we_dom e) (rt_inner (ss_tree (sv_session st)))) r x
        then Some (view_of (we_dom e) (ss_tree (sv_session st)) x) else None))"
proof -
  obtain m where m: "read_instances (we_dom e) (ss_tree (sv_session st)) requested = Some m"
      "holds_subtrees (we_dom e) (ss_tree (sv_session st))
        {r \<in> set requested. dom_get (we_dom e) (rt_inner (ss_tree (sv_session st))) r \<noteq> None} m"
    using read_instances_hold [OF assms(1)] by blast
  have "drop (length ''/api/read/'') (rq_path rq) = argument" unfolding assms(4) by simp
  then have "handle_api_read e rq st = (st, Some (msgpack_ok e (ReadBody
      \<lparr>rr_session_id = ss_session_id (sv_session st), rr_message_cursor = mq_cursor (ss_message_queue (sv_session st)),
       rr_instances = m\<rparr>)), [])"
    using assms(2,5) m(1) unfolding handle_api_read_def lock_tree_def answer_def Let_def by simp
  then have "api_call e ck addr rq st = (st, Some (msgpack_ok e (ReadBody
      \<lparr>rr_session_id = ss_session_id (sv_session st), rr_message_cursor = mq_cursor (ss_message_queue (sv_session st)),
       rr_instances = m\<rparr>)), [])"
    unfolding read_route [OF assms(3,4), of e ck addr st] .
  then show ?thesis using m(2) unfolding holds_subtrees_among by (intro exI [of _ m] conjI)
qed


section \<open>Subscriptions\<close>

lemma patch_messages_total:
  assumes inv: "tree_inv D ok t"
    and there: "\<forall>p \<in> set ps. \<forall>r \<in> set (ap_added p). dom_get D (rt_inner t) r \<noteq> None"
  shows "\<exists>ms. patch_messages D t ps = Some ms \<and> list_all2 (\<lambda>p m. sm_removed m = ap_removed p \<and>
    sm_updated m = map update_view (ap_updated p) \<and> holds_subtrees D t (set (ap_added p)) (sm_added m)) ps ms"
  using there
proof (induction ps)
  case (Cons p ps)
  obtain m where m: "from_patch_update D t p = Some m" "sm_removed m = ap_removed p"
      "sm_updated m = map update_view (ap_updated p)" "holds_subtrees D t (set (ap_added p)) (sm_added m)"
    using from_patch_update_total [OF inv, of p] Cons.prems by auto
  with Cons show ?case by auto
qed simp

lemma patch_messages_panic:
  assumes "tree_inv D ok t" and "p \<in> set ps" and "r \<in> set (ap_added p)" and "dom_get D (rt_inner t) r = None"
  shows "patch_messages D t ps = None"
  using assms(2)
proof (induction ps)
  case (Cons q ps)
  then show ?case using from_patch_update_panics [OF assms(1,3,4)] by (auto simp: bind_eq_None_conv)
qed simp

lemma resubscribe_session:
  "ss_tree (sv_session (resubscribe cursor sender st)) = ss_tree (sv_session st)"
  "ss_tree_poisoned (sv_session (resubscribe cursor sender st)) = ss_tree_poisoned (sv_session st)"
  "ss_session_id (sv_session (resubscribe cursor sender st)) = ss_session_id (sv_session st)"
  "ss_clients (sv_session (resubscribe cursor sender st)) = ss_clients (sv_session st)"
  by (simp_all add: resubscribe_def)

text \<open>
  C28. A subscription turns delivered patches into one packet: for each patch, in order, its removed
  ids, its updates without shared strings, and the subtrees of its added ids as the tree has them
  now.  It then continues from the new cursor.  This is so while every added instance is still in the
  tree, which is well formed and not poisoned, and the packet is encoded and sent.
\<close>

theorem subscriptions_show_the_patches:
  assumes "tree_inv (we_dom e) ok (ss_tree (sv_session st))" and "\<not> ss_tree_poisoned (sv_session st)"
    and "delivered \<noteq> []" and "\<And>b. \<exists>bytes. we_msgpack_packet e b = Inr bytes"
    and "\<forall>p \<in> set delivered. \<forall>r \<in> set (ap_added p). dom_get (we_dom e) (rt_inner (ss_tree (sv_session st))) r \<noteq> None"
  shows "\<exists>ms. socket_turn e cid sender (QueueDelivers new_cursor delivered True) st cursor =
      Continues (resubscribe cursor sender st) new_cursor (Some \<lparr>sp_session_id = ss_session_id (sv_session st),
        sp_body = \<lparr>mp_message_cursor = new_cursor, mp_messages = ms\<rparr>\<rparr>) \<and>
    list_all2 (\<lambda>p m. sm_removed m = ap_removed p \<and> sm_updated m = map update_view (ap_updated p) \<and>
      (\<forall>x. hm_get (sm_added m) x =
         (if \<exists>r \<in> set (ap_added p). descends (dom_get (we_dom e) (rt_inner (ss_tree (sv_session st)))) r x
          then Some (view_of (we_dom e) (ss_tree (sv_session st)) x) else None))) delivered ms"
proof -
  obtain ms where ms: "patch_messages (we_dom e) (ss_tree (sv_session st)) delivered = Some ms"
      "list_all2 (\<lambda>p m. sm_removed m = ap_removed p \<and> sm_updated m = map update_view (ap_updated p) \<and>
        holds_subtrees (we_dom e) (ss_tree (sv_session st)) (set (ap_added p)) (sm_added m)) delivered ms"
    using patch_messages_total [OF assms(1,5)] by blast
  let ?packet = "\<lparr>sp_session_id = ss_session_id (sv_session st), sp_body = \<lparr>mp_message_cursor = new_cursor, mp_messages = ms\<rparr>\<rparr>"
  obtain bytes where "we_msgpack_packet e ?packet = Inr bytes" using assms(4) by blast
  then have "socket_turn e cid sender (QueueDelivers new_cursor delivered True) st cursor =
      Continues (resubscribe cursor sender st) new_cursor (Some ?packet)"
    using assms(2,3) ms(1) by (simp add: socket_turn_def lock_tree_def resubscribe_session Let_def)
  with ms(2) show ?thesis unfolding holds_subtrees_def by blast
qed

lemma subscribe_delivers:
  assumes "unat cursor < length (messages q)" and "length (messages q) < 2 ^ 32"
  shows "mq_subscribe cursor sender q = (q, [(sender, cursor_of (messages q), drop (unat cursor) (messages q))])"
  using assms by (simp add: mq_subscribe_def fire_cases word_less_nat_alt unat_cursor_of)

lemma poison_session:
  "ss_tree_poisoned (sv_session (drop_subscription cid (poison st)))"
  "hm_get (clients_map (ss_clients (sv_session (drop_subscription cid st)))) cid = None"
  by (simp_all add: drop_subscription_def poison_def update_clients_def remove_client_def)

lemma poisoned_handshake: "ss_tree_poisoned (sv_session st) \<Longrightarrow> handle_api_rojo e ck addr rq st = panicked st"
  by (simp add: handle_api_rojo_def lock_tree_def)

lemma poisoned_job:
  assumes "ss_tree_poisoned s" and "ss_tree_mutations s \<noteq> []"
  shows "\<not> ss_job_running (take_job_turn env S (ClientPatch now) s)"
  using assms by (cases "ss_tree_mutations s") (simp_all add: take_job_turn_def job_client_patch_def Let_def)

text \<open>
  C11. A subscription that starts before a patch whose added instance has been removed since ends the
  server: the queue delivers that patch, the task panics on the instance it does not find, while it
  holds the lock of the tree.  With the abort of the release profile that is the end of the process; in
  a build that unwinds, from then on every handshake panics, and so does the job thread at the next
  patch of a client.
\<close>

theorem replayed_additions_end_the_server:
  assumes "tree_inv (we_dom e) ok (ss_tree (sv_session st))" and "\<not> ss_tree_poisoned (sv_session st)"
    and "messages (ss_message_queue (sv_session st)) = before @ patch # after"
    and "length (before @ patch # after) < 2 ^ 32" and "unat cursor \<le> length before"
    and "r \<in> set (ap_added patch)" and "dom_get (we_dom e) (rt_inner (ss_tree (sv_session st))) r = None"
  shows "\<exists>new_cursor delivered st'.
    snd (mq_subscribe cursor sender (ss_message_queue (sv_session st))) = [(sender, new_cursor, delivered)] \<and>
    socket_turn e cid sender (QueueDelivers new_cursor delivered reached) st cursor = Leaves st' None \<and>
    ss_tree_poisoned (sv_session st') \<and>
    (\<forall>ck addr rq. fst (snd (handle_api_rojo e ck addr rq st')) = None) \<and>
    (\<forall>env S now. ss_tree_mutations (sv_session st') \<noteq> [] \<longrightarrow>
       \<not> ss_job_running (take_job_turn env S (ClientPatch now) (sv_session st')))"
proof -
  let ?q = "ss_message_queue (sv_session st)"
  let ?delivered = "drop (unat cursor) (messages ?q)"
  let ?st = "drop_subscription cid (poison (resubscribe cursor sender st))"
  have cursor: "unat cursor < length (messages ?q)" using assms(3,5) by simp
  have delivered: "?delivered \<noteq> []" "patch \<in> set ?delivered" using assms(3,5) by simp_all
  have "patch_messages (we_dom e) (ss_tree (sv_session st)) ?delivered = None"
    by (rule patch_messages_panic [OF assms(1) delivered(2) assms(6,7)])
  then have "socket_turn e cid sender (QueueDelivers (cursor_of (messages ?q)) ?delivered reached) st cursor = Leaves ?st None"
    using assms(2) delivered(1) by (simp add: socket_turn_def lock_tree_def resubscribe_session Let_def)
  moreover have "snd (mq_subscribe cursor sender ?q) = [(sender, cursor_of (messages ?q), ?delivered)]"
    using subscribe_delivers [OF cursor] assms(3,4) by simp
  moreover note poisoned = poison_session(1) [of cid "resubscribe cursor sender st"]
  moreover have "fst (snd (handle_api_rojo e ck addr rq ?st)) = None" for ck addr rq
    by (simp add: poisoned_handshake [OF poisoned] panicked_def)
  moreover have "ss_tree_mutations (sv_session ?st) \<noteq> [] \<longrightarrow>
      \<not> ss_job_running (take_job_turn env S (ClientPatch now) (sv_session ?st))" for env S now
    using poisoned_job [OF poisoned, of env S now] by blast
  ultimately show ?thesis by blast
qed

lemma replayed_additions_end_the_server_witness:
  "\<exists>new_cursor delivered st'.
    snd (mq_subscribe 0 9 (ss_message_queue (sample_session cut_tree [added_patch, removed_patch]))) =
      [(9, new_cursor, delivered)] \<and>
    socket_turn sample_web_env 0 9 (QueueDelivers new_cursor delivered True)
      (sample_server cut_tree [added_patch, removed_patch]) 0 = Leaves st' None \<and>
    ss_tree_poisoned (sv_session st')"
  using replayed_additions_end_the_server [of sample_web_env rd_ok "sample_server cut_tree [added_patch, removed_patch]"
      "[]" added_patch "[removed_patch]" 0 "Ref 1" 9 0 True] cut_tree_inv sample_lookups(4)
  by (auto simp: sample_server_simps added_patch_def applied_new_def)


section \<open>What a request can change\<close>

text \<open>
  The registry of clients, the directory of sessions, the channel to the job thread (a patch of
  updates), and the poison of the mutex by a panic.
\<close>

definition only_bookkeeping :: "('s, 'd, 'o, 'q, 'r) server \<Rightarrow> ('s, 'd, 'o, 'q, 'r) handled \<Rightarrow> bool" where
  "only_bookkeeping st h \<longleftrightarrow>
     (\<exists>clients patches poisoned beacons r effects.
        h = (st\<lparr>sv_session := (sv_session st)\<lparr>ss_clients := clients, ss_tree_poisoned := poisoned,
             ss_tree_mutations := ss_tree_mutations (sv_session st) @ patches\<rparr>, sv_beacons := beacons\<rparr>, r, effects) \<and>
        clients_ok clients \<and> length patches \<le> 1 \<and>
        (\<forall>ps \<in> set patches. removed_instances ps = [] \<and> added_instances ps = []) \<and>
        (poisoned \<longrightarrow> ss_tree_poisoned (sv_session st) \<or> r = None))"

lemma only_bookkeepingI:
  assumes "st' = st\<lparr>sv_session := (sv_session st)\<lparr>ss_clients := clients, ss_tree_poisoned := poisoned,
      ss_tree_mutations := ss_tree_mutations (sv_session st) @ patches\<rparr>, sv_beacons := beacons\<rparr>"
    and "clients_ok clients" and "length patches \<le> 1"
    and "\<And>ps. ps \<in> set patches \<Longrightarrow> removed_instances ps = [] \<and> added_instances ps = []"
    and "poisoned \<Longrightarrow> ss_tree_poisoned (sv_session st) \<or> r = None"
  shows "only_bookkeeping st (st', r, effects)"
  using assms unfolding only_bookkeeping_def by blast

lemma bookkeeping_same:
  assumes "clients_ok (ss_clients (sv_session st))"
  shows "only_bookkeeping st (st, r, effects)"
  by (rule only_bookkeepingI [where patches = "[]" and clients = "ss_clients (sv_session st)" and
        poisoned = "ss_tree_poisoned (sv_session st)" and beacons = "sv_beacons st"]) (use assms in auto)

lemma bookkeeping_clients:
  assumes "clients_ok (f (ss_clients (sv_session st)))"
  shows "only_bookkeeping st ((update_clients f st)\<lparr>sv_beacons := beacons\<rparr>, r, effects)"
    and "only_bookkeeping st (update_clients f st, r, effects)"
    and "only_bookkeeping st (poison (update_clients f st), None, effects)"
proof -
  let ?clients = "f (ss_clients (sv_session st))" and ?poisoned = "ss_tree_poisoned (sv_session st)"
  show "only_bookkeeping st ((update_clients f st)\<lparr>sv_beacons := beacons\<rparr>, r, effects)"
    by (rule only_bookkeepingI [where patches = "[]" and clients = ?clients and poisoned = ?poisoned and beacons = beacons])
      (use assms in \<open>auto simp: update_clients_def\<close>)
  show "only_bookkeeping st (update_clients f st, r, effects)"
    by (rule only_bookkeepingI [where patches = "[]" and clients = ?clients and poisoned = ?poisoned and beacons = "sv_beacons st"])
      (use assms in \<open>auto simp: update_clients_def\<close>)
  show "only_bookkeeping st (poison (update_clients f st), None, effects)"
    by (rule only_bookkeepingI [where patches = "[]" and clients = ?clients and poisoned = True and beacons = "sv_beacons st"])
      (use assms in \<open>auto simp: update_clients_def poison_def\<close>)
qed

lemma update_clients_id: "update_clients (\<lambda>r. r) st = st"
  by (simp add: update_clients_def)

lemmas bookkeeping_intros = bookkeeping_same bookkeeping_clients
  bookkeeping_clients(3) [where f = "\<lambda>r. r", unfolded update_clients_id]

lemmas handled_simps = answer_def fail_with_def panicked_def

lemma bookkeeping_rojo:
  assumes "clients_ok (ss_clients (sv_session st))" and "next_id (ss_clients (sv_session st)) \<noteq> - 1"
  shows "only_bookkeeping st (handle_api_rojo e ck addr rq st)"
proof (cases "lock_tree (sv_session st)")
  case None
  then show ?thesis using assms(1) by (simp add: handle_api_rojo_def panicked_def bookkeeping_same)
next
  case (Some t)
  show ?thesis
  proof (cases "parse_handshake (rq_query rq)")
    case None
    with Some assms(1) show ?thesis by (simp add: handle_api_rojo_def panicked_def bookkeeping_intros)
  next
    case h: (Some h)
    obtain f cid where f: "register_client ck addr h st = (update_clients f st, cid)" "clients_ok (f (ss_clients (sv_session st)))"
      using assms clients_ok_step [OF assms(1), of "RecordProbe (ck_first ck) h (sa_text addr)"]
        clients_ok_handshake [OF assms]
      by (cases "ch_client_name h = Some DISCOVERY_PROBE_CLIENT") (auto simp: register_client_def)
    with Some h show ?thesis
      by (auto simp: handle_api_rojo_def handled_simps bookkeeping_clients split: option.split prod.split)
  qed
qed

lemma bookkeeping_status:
  assumes "clients_ok (ss_clients (sv_session st))"
  shows "only_bookkeeping st (handle_api_status e ck st)"
proof -
  let ?r = "ss_clients (sv_session st)"
  let ?r1 = "fst (list_clients (ck_first ck) ?r)"
  have "clients_ok (fst (recent_probes (ck_second ck) ?r1))"
    using clients_ok_step [OF clients_ok_step [OF assms, of "ListClients (ck_first ck)"], of "RecentProbes (ck_second ck)"] by simp
  then show ?thesis using assms
    by (auto simp: handle_api_status_def handled_simps Let_def bookkeeping_intros split: option.split prod.split)
qed

lemma bookkeeping_probe_report:
  assumes "clients_ok (ss_clients (sv_session st))"
  shows "only_bookkeeping st (handle_api_probe_report e ck addr rq st)"
proof -
  have "clients_ok (record_probe_verdict (ck_first ck) report (sa_text addr) (ss_clients (sv_session st)))" for report
    using clients_ok_step [OF assms, of "RecordVerdict (ck_first ck) report (sa_text addr)"] by simp
  then show ?thesis using assms
    by (auto simp: handle_api_probe_report_def handled_simps bookkeeping_intros split: sum.split)
qed

lemma bookkeeping_socket:
  assumes "clients_ok (ss_clients (sv_session st))" and "next_id (ss_clients (sv_session st)) \<noteq> - 1"
  shows "only_bookkeeping st (handle_api_socket e ck addr rq st)"
  using assms(1) clients_ok_handshake [OF assms]
  by (auto simp: handle_api_socket_def handled_simps Let_def bookkeeping_intros split: option.split sum.split)

lemma bookkeeping_request:
  assumes "clients_ok (ss_clients (sv_session st))" and "\<And>request. only_bookkeeping st (handler request)"
  shows "only_bookkeeping st (with_request e decoder request_session rq st handler)"
  using assms by (auto simp: with_request_def handled_simps bookkeeping_intros split: sum.split)

lemma bookkeeping_write:
  assumes "clients_ok (ss_clients (sv_session st))"
  shows "only_bookkeeping st (handle_api_write e rq st)"
  unfolding handle_api_write_def
  by (rule bookkeeping_request [OF assms])
    (use assms in \<open>auto simp: Let_def handled_simps bookkeeping_intros intro!: only_bookkeepingI
       [where beacons = "sv_beacons st" and clients = "ss_clients (sv_session st)" and poisoned = "ss_tree_poisoned (sv_session st)"]\<close>)

lemma bookkeeping_others:
  assumes "clients_ok (ss_clients (sv_session st))"
  shows "only_bookkeeping st (handle_api_read e rq st)" and "only_bookkeeping st (handle_api_ref_patch e rq st)"
    and "only_bookkeeping st (handle_api_serialize e rq st)" and "only_bookkeeping st (handle_api_open e addr rq st)"
  using assms
  by (auto simp: handle_api_read_def handle_api_ref_patch_def handle_api_serialize_def handle_api_open_def handled_simps Let_def
      split: option.split sum.split intro!: bookkeeping_intros bookkeeping_request)

lemma bookkeeping_call:
  assumes "clients_ok (ss_clients (sv_session st))" and "next_id (ss_clients (sv_session st)) \<noteq> - 1"
  shows "only_bookkeeping st (api_call e ck addr rq st)"
  using assms
  by (simp add: api_call_def Let_def bookkeeping_rojo bookkeeping_status bookkeeping_probe_report bookkeeping_socket
      bookkeeping_write bookkeeping_others fail_with_def answer_def bookkeeping_same)

text \<open>
  C6. Whatever a request is, a well-formed session stays well formed, and its tree, its file system,
  its history of patches, its project and its identity are untouched.  A request appends at most one
  patch to the channel of the job thread, and that patch removes and adds nothing, although a write
  request has lists of removed and added instances.  Only a request that panics poisons the mutex.
\<close>

theorem requests_change_only_the_bookkeeping:
  assumes "session_inv D ok (sv_session st)" and "next_id (ss_clients (sv_session st)) \<noteq> - 1"
    and "api_call e ck addr rq st = (st', r, effects)"
  shows "session_inv D ok (sv_session st') \<and>
    ss_tree (sv_session st') = ss_tree (sv_session st) \<and> ss_vfs (sv_session st') = ss_vfs (sv_session st) \<and>
    ss_message_queue (sv_session st') = ss_message_queue (sv_session st) \<and>
    ss_root_project (sv_session st') = ss_root_project (sv_session st) \<and>
    ss_session_id (sv_session st') = ss_session_id (sv_session st) \<and>
    ss_job_running (sv_session st') = ss_job_running (sv_session st) \<and>
    (\<exists>patches. ss_tree_mutations (sv_session st') = ss_tree_mutations (sv_session st) @ patches \<and> length patches \<le> 1 \<and>
      (\<forall>ps \<in> set patches. removed_instances ps = [] \<and> added_instances ps = [])) \<and>
    (ss_tree_poisoned (sv_session st') \<longrightarrow> ss_tree_poisoned (sv_session st) \<or> r = None)"
proof -
  have "clients_ok (ss_clients (sv_session st))" using assms(1) by (simp add: session_inv_def)
  from bookkeeping_call [OF this assms(2), of e ck addr rq, unfolded assms(3) only_bookkeeping_def]
  obtain clients patches poisoned beacons where
    st': "st' = st\<lparr>sv_session := (sv_session st)\<lparr>ss_clients := clients, ss_tree_poisoned := poisoned,
      ss_tree_mutations := ss_tree_mutations (sv_session st) @ patches\<rparr>, sv_beacons := beacons\<rparr>"
    and parts: "clients_ok clients" "length patches \<le> 1"
      "\<forall>ps \<in> set patches. removed_instances ps = [] \<and> added_instances ps = []"
      "poisoned \<longrightarrow> ss_tree_poisoned (sv_session st) \<or> r = None" by blast
  from parts assms(1) show ?thesis
    unfolding st' by (simp add: session_inv_def project_name_def)
qed


section \<open>When a request panics\<close>

lemma build_model_total:
  assumes "tree_inv (we_dom e) ok t"
  shows "build_model e t rs m \<noteq> None"
  by (induction rs arbitrary: m) (auto simp: get_instance_shown [OF assms] split: prod.split)

lemma root_descendants_total:
  assumes "tree_inv D ok t"
  shows "rt_descendants D t (get_root_id D t) \<noteq> None"
  using rt_descendants_visit [OF assms, of "get_root_id D t"] dom_wfD(2) [OF tree_invD(2) [OF assms]]
  by (auto simp: get_root_id_def)

text \<open>
  C29. A running, well-formed session, before its 2^64th handshake, answers every request whose body can
  be read and whose query decodes; then the mutex is not poisoned either.  The exception are requests to
  \<open>/api/serialize\<close>: they are answered as long as \<open>rbx_binary\<close> can write the model, whose result the
  handler unwraps.
\<close>

theorem well_formed_sessions_answer:
  assumes "session_inv (we_dom e) ok (sv_session st)" and "next_id (ss_clients (sv_session st)) \<noteq> - 1"
    and "\<not> ss_tree_poisoned (sv_session st)" and "ss_job_running (sv_session st)"
    and "rq_body rq = Inr bytes" and "parse_handshake (rq_query rq) = Some h"
    and "\<And>m rs. rq_method rq = Post \<Longrightarrow> rq_path rq = ''/api/serialize'' \<Longrightarrow> mo_to_binary (we_model e) m rs \<noteq> None"
  shows "\<exists>answered. fst (snd (api_call e ck addr rq st)) = Some answered \<and>
    \<not> ss_tree_poisoned (sv_session (fst (api_call e ck addr rq st)))"
proof -
  have inv: "tree_inv (we_dom e) ok (ss_tree (sv_session st))" and name: "project_name (sv_session st) \<noteq> None"
    and ok: "clients_ok (ss_clients (sv_session st))"
    using assms(1) by (simp_all add: session_inv_def)
  have lock: "lock_tree (sv_session st) = Some (ss_tree (sv_session st))" using assms(3) by (simp add: lock_tree_def)
  have "project_name (sv_session (fst (register_client ck addr h st))) = project_name (sv_session st)"
    by (simp add: register_client_def update_clients_def project_name_def)
  then have rojo: "fst (snd (handle_api_rojo e ck addr rq st)) \<noteq> None"
    using lock name assms(6) by (auto simp: handle_api_rojo_def answer_def split: prod.split option.split)
  have status: "fst (snd (handle_api_status e ck st)) \<noteq> None"
    using name by (auto simp: handle_api_status_def answer_def Let_def split: prod.split)
  have report: "fst (snd (handle_api_probe_report e ck addr rq st)) \<noteq> None"
    by (auto simp: handle_api_probe_report_def answer_def split: sum.split)
  have socket: "fst (snd (handle_api_socket e ck addr rq st)) \<noteq> None"
    by (auto simp: handle_api_socket_def fail_with_def answer_def Let_def split: sum.split option.split)
  have posts: "fst (snd (handle_api_write e rq st)) \<noteq> None" "fst (snd (handle_api_ref_patch e rq st)) \<noteq> None"
    using lock assms(4,5) root_descendants_total [OF inv]
    by (auto simp: handle_api_write_def handle_api_ref_patch_def with_request_def fail_with_def
        answer_def Let_def split: sum.split option.split)
  have serialize: "fst (snd (handle_api_serialize e rq st)) \<noteq> None"
    if "rq_method rq = Post" "rq_path rq = ''/api/serialize''"
    using lock assms(5)
    by (auto simp: handle_api_serialize_def with_request_def fail_with_def answer_def Let_def split: sum.split option.split
        elim!: notE [OF build_model_total [OF inv]] notE [OF assms(7) [OF that]])
  have reads: "read_instances (we_dom e) (ss_tree (sv_session st)) requested \<noteq> None" for requested
    using read_instances_hold [OF inv, of requested] by auto
  have gets: "fst (snd (handle_api_read e rq st)) \<noteq> None" "fst (snd (handle_api_open e addr rq st)) \<noteq> None"
    using lock
    by (auto simp: handle_api_read_def handle_api_open_def fail_with_def answer_def Let_def get_instance_shown [OF inv]
        split: option.split elim!: notE [OF reads])
  have "fst (snd (api_call e ck addr rq st)) \<noteq> None"
    using rojo status report socket posts serialize gets by (simp add: api_call_def Let_def fail_with_def answer_def)
  moreover have "ss_tree_poisoned (sv_session (fst (api_call e ck addr rq st))) \<longrightarrow>
      ss_tree_poisoned (sv_session st) \<or> fst (snd (api_call e ck addr rq st)) = None"
    using bookkeeping_call [OF ok assms(2), of e ck addr rq] by (auto simp: only_bookkeeping_def)
  ultimately show ?thesis using assms(3) by auto
qed


section \<open>Who may ask for what\<close>

lemma opens_nothing:
  "OpenFile p \<notin> set (snd (snd (handle_api_rojo e ck addr rq st)))"
  "OpenFile p \<notin> set (snd (snd (handle_api_status e ck st)))"
  "OpenFile p \<notin> set (snd (snd (handle_api_probe_report e ck addr rq st)))"
  "OpenFile p \<notin> set (snd (snd (handle_api_read e rq st)))"
  "OpenFile p \<notin> set (snd (snd (handle_api_socket e ck addr rq st)))"
  "OpenFile p \<notin> set (snd (snd (handle_api_serialize e rq st)))"
  "OpenFile p \<notin> set (snd (snd (handle_api_ref_patch e rq st)))"
  "OpenFile p \<notin> set (snd (snd (handle_api_write e rq st)))"
  "OpenFile p \<notin> set (snd (snd (fail_with e st err code)))"
  by (simp_all add: handle_api_rojo_def handle_api_status_def handle_api_probe_report_def handle_api_read_def
      handle_api_socket_def handle_api_serialize_def handle_api_ref_patch_def handle_api_write_def with_request_def
      handled_simps Let_def split: option.split prod.split sum.split)

lemma open_route:
  assumes "OpenFile p \<in> set (snd (snd (api_call e ck addr rq st)))"
  shows "rq_method rq = Post \<and> str_starts_with (rq_path rq) ''/api/open/'' \<and>
    api_call e ck addr rq st = handle_api_open e addr rq st"
proof (rule ccontr)
  assume "\<not> ?thesis"
  then have "snd (snd (api_call e ck addr rq st)) \<in>
    {snd (snd (handle_api_rojo e ck addr rq st)), snd (snd (handle_api_status e ck st)),
     snd (snd (handle_api_probe_report e ck addr rq st)), snd (snd (handle_api_read e rq st)),
     snd (snd (handle_api_socket e ck addr rq st)), snd (snd (handle_api_serialize e rq st)),
     snd (snd (handle_api_ref_patch e rq st)), snd (snd (handle_api_write e rq st)),
     snd (snd (fail_with e st (not_found (''Route not found: '' @ rq_path rq)) NOT_FOUND)),
     snd (snd (fail_with e st (bad_request ''/api/socket must be called as a websocket upgrade request'') BAD_REQUEST))}"
    unfolding api_call_def Let_def by (simp split: if_split_asm) (auto simp: str_starts_with_def)
  then show False using assms opens_nothing by fastforce
qed

text \<open>
  C13. Only a request of a peer on this machine opens a file, whatever address the server is bound to
  and whatever form the peer's address has; the file is one that the instance's script came from, and
  a file in Lua.
\<close>

theorem only_local_peers_open_scripts:
  assumes "api_call e ck addr rq st = (st', r, effects)" and "OpenFile p \<in> set effects"
  shows "is_loopback (canonical (sa_ip addr)) \<and> rq_method rq = Post \<and> st' = st \<and>
    path_extension p \<in> {Some ''lua'', Some ''luau''} \<and> we_is_file e p \<and>
    (\<exists>id_text i md. rq_path rq = ''/api/open/'' @ id_text \<and>
       Option.bind (we_ref_from_str e id_text) (\<lambda>q. get_instance (we_dom e) (ss_tree (sv_session st)) q) = Some (Some (i, md)) \<and>
       i_class i \<in> {''Script'', ''LocalScript'', ''ModuleScript''} \<and> p \<in> set (md_relevant_paths md))"
proof -
  have "OpenFile p \<in> set (snd (snd (api_call e ck addr rq st)))" using assms by simp
  then have route: "rq_method rq = Post" "str_starts_with (rq_path rq) ''/api/open/''"
      "handle_api_open e addr rq st = (st', r, effects)"
    using open_route [of p e ck addr rq st] assms(1) by simp_all
  obtain id_text where path: "rq_path rq = ''/api/open/'' @ id_text"
    using route(2) str_strip_prefix_Some_iff [of "rq_path rq" "''/api/open/''"] by (auto simp: str_strip_prefix_def)
  then have id_text: "drop (length ''/api/open/'') (rq_path rq) = id_text" by simp
  have local: "is_loopback (canonical (sa_ip addr))"
    using route(3) assms(2) by (auto simp: handle_api_open_def handled_simps split: if_splits)
  from route(3) assms(2) local obtain q t x where
    q: "we_ref_from_str e id_text = Some q" "lock_tree (sv_session st) = Some t" "get_instance (we_dom e) t q = Some (Some x)"
    and picked: "pick_script_path e x = Some p" and st': "st' = st"
    unfolding handle_api_open_def id_text by (auto simp: handled_simps split: option.splits)
  obtain i md where x: "x = (i, md)" by (cases x)
  have tree: "t = ss_tree (sv_session st)" using q(2) by (simp add: lock_tree_def split: if_splits)
  have "i_class i \<in> {''Script'', ''LocalScript'', ''ModuleScript''}" "find (opens_as_script e) (md_relevant_paths md) = Some p"
    using picked x by (auto simp: pick_script_path_def split: if_splits)
  moreover from this(2) have "opens_as_script e p" "p \<in> set (md_relevant_paths md)"
    by (auto simp: find_Some_iff)
  ultimately show ?thesis
    using local route(1) path st' q(1,3) x tree by (simp add: opens_as_script_def)
qed

text \<open>
  C32. While validation is on, with or without extra hosts, a request is answered before any handler runs
  when its first \<open>Host\<close> header is missing, unreadable, names another port, or names neither the server
  (localhost, a loopback literal, the bind address) nor a listed host; and so is one whose first \<open>Origin\<close>
  header is there and does any of this.  It changes nothing and starts nothing, on every route.
\<close>

theorem rebound_requests_reach_no_handler:
  assumes "allowed_hosts ip port extra = Some a"
    and "(\<forall>v s host p. first (rh_host (rq_headers rq)) = Some v \<longrightarrow> header_to_str (we_http e) v = Some s \<longrightarrow>
        parse_authority (we_http e) s = Some (host, p) \<longrightarrow>
        \<not> (names_server ip host \<or> listed_host extra host) \<or> p \<notin> {None, Some port}) \<or>
      (\<exists>v. first (rh_origin (rq_headers rq)) = Some v \<and>
        (\<forall>s host p. header_to_str (we_http e) v = Some s \<longrightarrow> parse_origin (we_http e) s = Some (host, p) \<longrightarrow>
          \<not> (names_server ip host \<or> listed_host extra host) \<or> p \<notin> {None, Some port}))"
  shows "service e (Some a) ui ck addr rq st = (st, Some reject, [])"
proof -
  have no: "\<not> allows a host p" if "\<not> (names_server ip host \<or> listed_host extra host) \<or> p \<notin> {None, Some port}" for host p
    using that allows_trusted [OF assms(1), of host p] by blast
  have "check_request_origin (we_http e) (rq_headers rq) (Some a) = Some reject"
    using assms(2) no by (auto simp: check_request_origin_def Let_def panic_simps split: option.splits)
  then show ?thesis by (simp add: service_def answer_def)
qed


section \<open>The registry and the sockets\<close>

text \<open>
  A socket that names a client the registry does not know, because its handshake was pruned or
  never happened, is subscribed but counted nowhere: it gets no record of its own, and marking it as
  live does nothing, so the status reports no connection.
\<close>

theorem late_subscriptions_are_invisible:
  assumes "parse_u32 (drop (length ''/api/socket/'') (rq_path rq)) = Some cursor" and "rq_upgrade rq = Inr upgraded"
    and "parse_client_id (rq_query rq) = Some cid" and "hm_get (clients_map (ss_clients (sv_session st))) cid = None"
  shows "handle_api_socket e ck addr rq st = (st, Some upgraded, [SpawnSubscription cursor cid]) \<and>
    start_subscription now cid st = st"
  using assms by (simp add: handle_api_socket_def start_subscription_def update_clients_def set_subscribed_def)

text \<open>
  Every control or data frame of a subscribed client leaves one more listener in the queue, as long
  as no patch arrives: the loop subscribes again on each turn, and nothing takes the old listener out.
\<close>

theorem client_frames_pile_up_listeners:
  assumes "\<not> cursor < mq_cursor (ss_message_queue (sv_session st))"
  shows "message_listeners (ss_message_queue (sv_session
      (fold (\<lambda>sender st. turn_server (socket_turn e cid sender SocketControl st cursor)) senders st))) =
    message_listeners (ss_message_queue (sv_session st)) @ map (\<lambda>sender. \<lparr>l_sender = sender, l_cursor = cursor\<rparr>) senders"
  using assms
proof (induction senders arbitrary: st)
  case (Cons sender senders)
  let ?st = "turn_server (socket_turn e cid sender SocketControl st cursor)"
  have q: "ss_message_queue (sv_session ?st) = (ss_message_queue (sv_session st))
      \<lparr>message_listeners := message_listeners (ss_message_queue (sv_session st)) @ [\<lparr>l_sender = sender, l_cursor = cursor\<rparr>]\<rparr>"
    using Cons.prems by (simp add: socket_turn_def resubscribe_def mq_subscribe_def fire_cases mq_cursor_def)
  then have "\<not> cursor < mq_cursor (ss_message_queue (sv_session ?st))"
    using Cons.prems by (simp add: mq_cursor_def)
  from Cons.IH [OF this] q show ?case by simp
qed simp


section \<open>References\<close>

definition points :: "referent list \<Rightarrow> 'o variant \<Rightarrow> bool" where
  "points ids v \<longleftrightarrow> (\<exists>target \<in> set ids. v = VRef target)"

lemma pointing_step:
  "(case v of VRef target \<Rightarrow> if target \<in> set ids then hm_insert name (Some (VRef target)) changed else changed | _ \<Rightarrow> changed) =
    (if points ids v then hm_insert name (Some v) changed else changed)"
  by (cases v) (auto simp: points_def)

lemma get_pointing_properties:
  assumes "hm_ok properties"
  shows "hm_get (pointing_properties ids properties) name =
    (case hm_get properties name of Some v \<Rightarrow> if points ids v then Some (Some v) else None | None \<Rightarrow> None)"
proof -
  let ?step = "\<lambda>(name, v) changed. if points ids v then hm_insert name (Some v) changed else changed"
  have "hm_get (fold ?step properties m) name =
    (case hm_get properties name of Some v \<Rightarrow> if points ids v then Some (Some v) else hm_get m name | None \<Rightarrow> hm_get m name)" for m
    using assms
  proof (induction properties arbitrary: m)
    case (Cons kv properties)
    obtain k v where kv: "kv = (k, v)" by (cases kv)
    have fresh: "k = name \<Longrightarrow> hm_get properties name = None" using Cons.prems kv by (auto simp: map_of_eq_None_iff)
    from Cons.IH [of "?step kv m"] Cons.prems fresh show ?case
      by (auto simp: kv split: option.split)
  qed simp
  from this [of "[]"] show ?thesis unfolding pointing_properties_def pointing_step by (simp split: option.splits)
qed

lemma pointing_none: "pointing_properties ids properties = [] \<Longrightarrow> hm_ok properties \<Longrightarrow>
    hm_get properties name = Some v \<Longrightarrow> \<not> points ids v"
  using get_pointing_properties [of properties ids name] by (auto split: if_splits)

text \<open>The updates noted for a list of instances without repetitions.\<close>

lemma noted_refs:
  assumes "distinct xs" and "\<forall>x \<in> set xs. i_referent (fst (f x)) = x"
  shows "hm_get (fold (note_refs ids) (map f xs) m) r =
    (if r \<in> set xs \<and> pointing_properties ids (i_properties (fst (f r))) \<noteq> []
     then Some (ref_update r (pointing_properties ids (i_properties (fst (f r))))) else hm_get m r)"
    and "hm_ok m \<Longrightarrow> hm_ok (fold (note_refs ids) (map f xs) m)"
proof -
  show "hm_get (fold (note_refs ids) (map f xs) m) r =
    (if r \<in> set xs \<and> pointing_properties ids (i_properties (fst (f r))) \<noteq> []
     then Some (ref_update r (pointing_properties ids (i_properties (fst (f r))))) else hm_get m r)"
    using assms
  proof (induction xs arbitrary: m)
    case (Cons x xs)
    have "hm_get (note_refs ids (f x) m) r = (if r = x \<and> pointing_properties ids (i_properties (fst (f r))) \<noteq> []
      then Some (ref_update r (pointing_properties ids (i_properties (fst (f r))))) else hm_get m r)"
      using Cons.prems(2) by (cases "r = x") (auto simp: note_refs_def Let_def)
    with Cons.IH [of "note_refs ids (f x) m"] Cons.prems show ?case by auto
  qed simp
  show "hm_ok m \<Longrightarrow> hm_ok (fold (note_refs ids) (map f xs) m)"
    by (rule fold_invariant) (auto simp: note_refs_def Let_def)
qed

lemma post_route:
  assumes "rq_method rq = Post" and "rq_path rq = ''/api/ref-patch''"
  shows "api_call e ck addr rq st = handle_api_ref_patch e rq st"
  using assms by (simp add: api_call_def str_starts_with_def)

text \<open>
  C31. A reference patch lists exactly the referent properties in the tree that point at a requested
  id: one update per instance that has any, with nothing but those properties, each with its target.
  The tree is well formed, its lock not poisoned, and the request decodes and names the session.
\<close>

theorem ref_patches_list_the_pointers:
  assumes "tree_inv (we_dom e) ok (ss_tree (sv_session st))" and "\<not> ss_tree_poisoned (sv_session st)"
    and "rq_method rq = Post" and "rq_path rq = ''/api/ref-patch''"
    and "rq_body rq = Inr bytes" and "we_decode_ref_patch e bytes = Inr request"
    and "rq_session_id request = ss_session_id (sv_session st)"
    and "\<forall>r i. dom_get (we_dom e) (rt_inner (ss_tree (sv_session st))) r = Some i \<longrightarrow> hm_ok (i_properties i)"
  shows "\<exists>updates. api_call e ck addr rq st = (st, Some (msgpack_ok e (RefPatchBody
      \<lparr>rpr_session_id = ss_session_id (sv_session st),
       rpr_patch = \<lparr>sm_removed = [], sm_added = [], sm_updated = updates\<rparr>\<rparr>)), []) \<and>
    distinct (map iu_id updates) \<and>
    (\<forall>u \<in> set updates. u = ref_update (iu_id u) (iu_changed_properties u) \<and> iu_changed_properties u \<noteq> []) \<and>
    (\<forall>r name changed. (\<exists>u \<in> set updates. iu_id u = r \<and> hm_get (iu_changed_properties u) name = Some changed) \<longleftrightarrow>
       (\<exists>i target. dom_get (we_dom e) (rt_inner (ss_tree (sv_session st))) r = Some i \<and> target \<in> set (rq_ids request) \<and>
          hm_get (i_properties i) name = Some (VRef target) \<and> changed = Some (VRef target)))"
proof -
  let ?D = "we_dom e" and ?t = "ss_tree (sv_session st)"
  let ?view = "dom_get ?D (rt_inner ?t)" and ?ids = "rq_ids request"
  let ?props = "\<lambda>r. pointing_properties ?ids (i_properties (fst (shown ?D ?t r)))"
  note wf = tree_invD(2) [OF assms(1)]
  have root: "?view (get_root_id ?D ?t) \<noteq> None" using dom_wfD(2) [OF wf] by (auto simp: get_root_id_def)
  obtain order where order: "rt_descendants ?D ?t (get_root_id ?D ?t) = Some (map (shown ?D ?t) order)" "distinct order"
      "set order = {x. descends ?view (get_root_id ?D ?t) x}"
    using rt_descendants_visit [OF assms(1) root] by blast
  have all: "r \<in> set order \<longleftrightarrow> ?view r \<noteq> None" for r
    using order(3) descends_in_view [OF wf _ root] dom_wfD(6) [OF wf, of r] by (auto simp: get_root_id_def)
  have self: "\<forall>x \<in> set order. i_referent (fst (shown ?D ?t x)) = x"
    using all dom_wfD(3) [OF wf] by (auto simp: shown_def)
  let ?m = "fold (note_refs ?ids) (map (shown ?D ?t) order) []"
  have get: "hm_get ?m r = (if r \<in> set order \<and> ?props r \<noteq> [] then Some (ref_update r (?props r)) else None)" for r
    using noted_refs(1) [OF order(2) self, of ?ids "[]" r] by simp
  have "hm_ok ?m" by (rule noted_refs(2) [OF order(2) self]) simp
  then have entry: "(r, u) \<in> set ?m \<longleftrightarrow> r \<in> set order \<and> ?props r \<noteq> [] \<and> u = ref_update r (?props r)" for r u
    using hm_get_eq_iff [OF \<open>hm_ok ?m\<close>, of r u] get [of r] by (auto split: if_splits)
  have "map iu_id (hm_values ?m) = hm_keys ?m"
    using entry by (auto simp: ref_update_def)
  with \<open>hm_ok ?m\<close> have 1: "distinct (map iu_id (hm_values ?m))" by (simp only:)
  have value_of: "u \<in> set (hm_values ?m) \<longleftrightarrow> (\<exists>r. r \<in> set order \<and> ?props r \<noteq> [] \<and> u = ref_update r (?props r))" for u
    using entry by (force simp: image_iff)
  have 2: "\<forall>u \<in> set (hm_values ?m). u = ref_update (iu_id u) (iu_changed_properties u) \<and> iu_changed_properties u \<noteq> []"
  proof
    fix u
    assume "u \<in> set (hm_values ?m)"
    then obtain r where "?props r \<noteq> []" "u = ref_update r (?props r)" unfolding value_of by blast
    then show "u = ref_update (iu_id u) (iu_changed_properties u) \<and> iu_changed_properties u \<noteq> []"
      by (simp add: ref_update_def)
  qed
  have 3: "(\<exists>u \<in> set (hm_values ?m). iu_id u = r \<and> hm_get (iu_changed_properties u) name = Some changed) \<longleftrightarrow>
      (\<exists>i target. ?view r = Some i \<and> target \<in> set ?ids \<and> hm_get (i_properties i) name = Some (VRef target) \<and>
        changed = Some (VRef target))" for r name changed
  proof -
    have "(\<exists>u \<in> set (hm_values ?m). iu_id u = r \<and> hm_get (iu_changed_properties u) name = Some changed) \<longleftrightarrow>
        r \<in> set order \<and> hm_get (?props r) name = Some changed"
    proof
      assume "r \<in> set order \<and> hm_get (?props r) name = Some changed"
      then have "ref_update r (?props r) \<in> set (hm_values ?m)" "hm_get (?props r) name = Some changed"
        unfolding value_of by auto
      then show "\<exists>u \<in> set (hm_values ?m). iu_id u = r \<and> hm_get (iu_changed_properties u) name = Some changed"
        by (intro bexI [of _ "ref_update r (?props r)"]) (simp_all add: ref_update_def)
    next
      assume "\<exists>u \<in> set (hm_values ?m). iu_id u = r \<and> hm_get (iu_changed_properties u) name = Some changed"
      then show "r \<in> set order \<and> hm_get (?props r) name = Some changed"
        unfolding Bex_def value_of by (auto simp: ref_update_def)
    qed
    also have "\<dots> \<longleftrightarrow> (\<exists>i. ?view r = Some i \<and> hm_get (pointing_properties ?ids (i_properties i)) name = Some changed)"
      using all by (auto simp: shown_def)
    also have "\<dots> \<longleftrightarrow> (\<exists>i v. ?view r = Some i \<and> hm_get (i_properties i) name = Some v \<and> points ?ids v \<and> changed = Some v)"
      using get_pointing_properties [OF assms(8) [rule_format], of r _ ?ids name] by (auto split: option.splits if_splits)
    finally show ?thesis by (auto simp: points_def)
  qed
  have "api_call e ck addr rq st = (st, Some (msgpack_ok e (RefPatchBody
      \<lparr>rpr_session_id = ss_session_id (sv_session st),
       rpr_patch = \<lparr>sm_removed = [], sm_added = [], sm_updated = hm_values ?m\<rparr>\<rparr>)), [])"
    unfolding post_route [OF assms(3,4)] using assms(2,5-7) order(1)
    by (simp add: handle_api_ref_patch_def with_request_def lock_tree_def answer_def)
  with 1 2 3 show ?thesis by blast
qed


section \<open>Witnesses\<close>

definition sample_request :: "http_method \<Rightarrow> string \<Rightarrow> string option \<Rightarrow> string \<Rightarrow> api_request" where
  "sample_request m p query bytes =
     \<lparr>rq_method = m, rq_path = p, rq_query = query, rq_headers = \<lparr>rh_host = [''x.com''], rh_origin = []\<rparr>,
      rq_body = Inr bytes, rq_is_upgrade = True,
      rq_upgrade = Inr \<lparr>status = 101, content_type = [], body = []\<rparr>\<rparr>"

definition sample_clock :: api_clock where
  "sample_clock = \<lparr>ck_first = 5, ck_second = 5, ck_elapsed = 1\<rparr>"

definition sample_peer :: "ip_addr \<Rightarrow> socket_addr" where
  "sample_peer ip = \<lparr>sa_ip = ip, sa_text = ''peer''\<rparr>"

lemma sample_session_inv: "tree_inv ref_dom_ops rd_ok t \<Longrightarrow> session_inv ref_dom_ops rd_ok (sample_session t history)"
  by (simp add: session_inv_def sample_session_def project_name_def registry_new_def clients_ok_def)

lemma sample_fields:
  "we_dom sample_web_env = ref_dom_ops" "ss_tree (sv_session (sample_server t history)) = t"
  "sv_session (sample_server t history) = sample_session t history"
  "ss_tree_poisoned (sample_session t history) = False" "ss_session_id (sample_session t history) = 7"
  "ss_job_running (sample_session t history) = True" "ss_clients (sample_session t history) = registry_new"
  "messages (ss_message_queue (sample_session t history)) = history" "ss_tree (sample_session t history) = t"
  "message_listeners (ss_message_queue (sample_session t history)) = []"
  "rq_method (sample_request m p query bytes) = m" "rq_path (sample_request m p query bytes) = p"
  "rq_query (sample_request m p query bytes) = query" "rq_body (sample_request m p query bytes) = Inr bytes"
  "rq_upgrade (sample_request m p query bytes) = Inr \<lparr>status = 101, content_type = [], body = []\<rparr>"
  "next_id registry_new = 0" "clients_map registry_new = []"
  by (simp_all add: sample_web_env_def sample_server_def sample_session_def sample_request_def registry_new_def mq_new_def)

lemma reads_show_the_requested_subtrees_witness:
  "\<exists>m. api_call sample_web_env sample_clock (sample_peer (V4 [127, 0, 0, 1]))
      (sample_request Get ''/api/read/0,7'' None []) (sample_server grown_tree [added_patch]) =
      (sample_server grown_tree [added_patch], Some (msgpack_ok sample_web_env (ReadBody
        \<lparr>rr_session_id = 7, rr_message_cursor = 1, rr_instances = m\<rparr>)), []) \<and>
    hm_get m (Ref 7) = None"
proof -
  have ids: "parse_ids (we_ref_from_str sample_web_env) (split_on (CHR '','') ''0,7'') = Some [Ref 0, Ref 7]" by code_simp
  have cursor: "mq_cursor (ss_message_queue (sample_session grown_tree [added_patch])) = 1"
    by (simp add: mq_cursor_def cursor_of_def sample_fields)
  have gone: "dom_get ref_dom_ops (rt_inner grown_tree) (Ref 7) = None" by code_simp
  have below: "\<not> (dom_get ref_dom_ops (rt_inner grown_tree) r \<noteq> None \<and> descends (dom_get ref_dom_ops (rt_inner grown_tree)) r (Ref 7))" for r
    using descends_in_view [OF tree_invD(2) [OF grown_tree_inv], of r "Ref 7"] gone by blast
  let ?rq = "sample_request Get ''/api/read/0,7'' None []" and ?st = "sample_server grown_tree [added_patch]"
  have inv: "tree_inv (we_dom sample_web_env) rd_ok (ss_tree (sv_session ?st))" "\<not> ss_tree_poisoned (sv_session ?st)"
    by (simp_all add: sample_fields grown_tree_inv)
  have route: "rq_method ?rq = Get" "rq_path ?rq = ''/api/read/'' @ ''0,7''" by (simp_all add: sample_fields)
  from reads_show_the_requested_subtrees [OF inv route ids, of sample_clock "sample_peer (V4 [127, 0, 0, 1])"]
  show ?thesis unfolding sample_fields cursor using below by metis
qed

lemma subscriptions_show_the_patches_witness:
  "\<exists>ms. socket_turn sample_web_env 0 9 (QueueDelivers 1 [added_patch] True) (sample_server grown_tree [added_patch]) 0 =
      Continues (resubscribe 0 9 (sample_server grown_tree [added_patch])) 1 (Some \<lparr>sp_session_id = 7,
        sp_body = \<lparr>mp_message_cursor = 1, mp_messages = ms\<rparr>\<rparr>) \<and> length ms = 1"
  using subscriptions_show_the_patches [of sample_web_env rd_ok "sample_server grown_tree [added_patch]" "[added_patch]" 0 9 1 0]
    grown_tree_inv sample_lookups(2)
  by (auto simp: sample_server_def sample_session_def sample_web_env_def added_patch_def applied_new_def dest: list_all2_lengthD)

lemma requests_change_only_the_bookkeeping_witness:
  "ss_tree (sv_session (fst (api_call sample_web_env sample_clock (sample_peer (V4 [127, 0, 0, 1]))
     (sample_request Post ''/api/write'' None ''w'') (sample_server cut_tree [])))) = cut_tree"
proof -
  let ?h = "api_call sample_web_env sample_clock (sample_peer (V4 [127, 0, 0, 1]))
    (sample_request Post ''/api/write'' None ''w'') (sample_server cut_tree [])"
  obtain st' r effects where h: "?h = (st', r, effects)" by (cases ?h)
  from requests_change_only_the_bookkeeping [OF _ _ h, of ref_dom_ops rd_ok] sample_session_inv [OF cut_tree_inv, of "[]"]
  have "ss_tree (sv_session st') = cut_tree" by (simp add: sample_server_def sample_session_def registry_new_def)
  with h show ?thesis by simp
qed

lemma well_formed_sessions_answer_witness:
  "\<exists>answered. fst (snd (api_call sample_web_env sample_clock (sample_peer (V4 [127, 0, 0, 1]))
     (sample_request Get ''/api/roxo'' None []) (sample_server cut_tree []))) = Some answered"
  using well_formed_sessions_answer [of sample_web_env rd_ok "sample_server cut_tree []"
      "sample_request Get ''/api/roxo'' None []" "[]" handshake_default sample_clock "sample_peer (V4 [127, 0, 0, 1])"]
    sample_session_inv [OF cut_tree_inv, of "[]"]
  by (auto simp: sample_server_def sample_session_def sample_web_env_def sample_request_def registry_new_def parse_handshake_def)

lemma rebound_requests_reach_no_handler_witness:
  "\<exists>a. allowed_hosts (V4 [127, 0, 0, 1]) 34872 [''y.lan''] = Some a \<and>
     service sample_web_env (Some a) (\<lambda>_ st. (st, None, [])) sample_clock (sample_peer (V4 [127, 0, 0, 1]))
       (sample_request Post ''/api/write'' None ''w'') (sample_server cut_tree []) =
     (sample_server cut_tree [], Some reject, [])"
proof -
  obtain a where a: "allowed_hosts (V4 [127, 0, 0, 1]) 34872 [''y.lan''] = Some a"
    by (simp add: allowed_hosts_def is_loopback_def)
  have "\<forall>w \<in> set whitespace_encodings. byte (hd w) \<noteq> byte c \<and> byte (hd (rev w)) \<noteq> byte c" if "c \<in> set ''yn''" for c
    using that whitespace_bytes by (fastforce simp: byte_def)
  then have entry: "trim ''y.lan'' = ''y.lan''" by (auto simp: trim_def strip_nothing)
  have "normalize_host ''y.lan'' = ''y.lan''"
    by (simp add: normalize_host_def str_strip_prefix_def str_starts_with_def)
  then have "\<not> listed_host [''y.lan''] ''x.com''"
    by (simp add: listed_host_def entry x_com eq_ignore_ascii_case_def to_ascii_lowercase_def ascii_lower_def in_range_def byte_def)
  moreover have "\<not> names_server (V4 [127, 0, 0, 1]) ''x.com''"
    by (simp add: names_server_def x_com eq_ignore_ascii_case_def to_ascii_lowercase_def)
  moreover have "parse_authority sample_http_env ''x.com'' = Some (''x.com'', None)" by code_simp
  ultimately have "\<forall>v s host p. first (rh_host (rq_headers (sample_request Post ''/api/write'' None ''w''))) = Some v \<longrightarrow>
      header_to_str (we_http sample_web_env) v = Some s \<longrightarrow> parse_authority (we_http sample_web_env) s = Some (host, p) \<longrightarrow>
      \<not> (names_server (V4 [127, 0, 0, 1]) host \<or> listed_host [''y.lan''] host) \<or> p \<notin> {None, Some 34872}"
    by (simp add: sample_request_def first_def sample_web_env_def) (simp add: sample_http_env_def)
  then have "service sample_web_env (Some a) (\<lambda>_ st. (st, None, [])) sample_clock (sample_peer (V4 [127, 0, 0, 1]))
       (sample_request Post ''/api/write'' None ''w'') (sample_server cut_tree []) =
     (sample_server cut_tree [], Some reject, [])"
    by (intro rebound_requests_reach_no_handler [OF a] disjI1)
  with a show ?thesis by blast
qed

lemma late_subscriptions_are_invisible_witness:
  "start_subscription 9 5 (sample_server cut_tree []) = sample_server cut_tree []"
proof -
  let ?rq = "sample_request Get ''/api/socket/0'' (Some ''clientId=5'') []"
  have "parse_u32 (drop (length ''/api/socket/'') (rq_path ?rq)) = Some 0"
    by (simp add: sample_fields parse_u32_def parse_unsigned_def digit_value_def in_range_def byte_def)
  moreover have "parse_client_id (rq_query ?rq) = Some 5"
    by (simp add: sample_fields parse_client_id_def parse_u64_def parse_unsigned_def digit_value_def in_range_def byte_def)
  moreover have "hm_get (clients_map (ss_clients (sv_session (sample_server cut_tree [])))) 5 = None" by (simp add: sample_fields)
  ultimately show ?thesis
    using late_subscriptions_are_invisible [of ?rq 0 "\<lparr>status = 101, content_type = [], body = []\<rparr>" 5 "sample_server cut_tree []"
        sample_web_env sample_clock "sample_peer (V4 [127, 0, 0, 1])" 9] sample_fields(15) by blast
qed

lemma client_frames_pile_up_listeners_witness:
  "length (message_listeners (ss_message_queue (sv_session
     (fold (\<lambda>sender st. turn_server (socket_turn sample_web_env 0 sender SocketControl st 0)) [1, 2, 3]
       (sample_server cut_tree []))))) = 3"
proof -
  have "\<not> 0 < mq_cursor (ss_message_queue (sv_session (sample_server cut_tree [])))"
    by (simp add: sample_fields mq_cursor_def cursor_of_def)
  from client_frames_pile_up_listeners [OF this, of sample_web_env 0 "[1, 2, 3]"]
  have "message_listeners (ss_message_queue (sv_session
     (fold (\<lambda>sender st. turn_server (socket_turn sample_web_env 0 sender SocketControl st 0)) [1, 2, 3]
       (sample_server cut_tree [])))) = [\<lparr>l_sender = 1, l_cursor = 0\<rparr>, \<lparr>l_sender = 2, l_cursor = 0\<rparr>, \<lparr>l_sender = 3, l_cursor = 0\<rparr>]"
    unfolding sample_fields by simp
  then show ?thesis by (simp only: list.size)
qed

lemma ref_patches_list_the_pointers_witness:
  "\<exists>updates. api_call sample_web_env sample_clock (sample_peer (V4 [127, 0, 0, 1]))
      (sample_request Post ''/api/ref-patch'' None []) (sample_server cut_tree []) =
    (sample_server cut_tree [], Some (msgpack_ok sample_web_env (RefPatchBody \<lparr>rpr_session_id = 7,
       rpr_patch = \<lparr>sm_removed = [], sm_added = [], sm_updated = updates\<rparr>\<rparr>)), [])"
proof -
  have "hm_ok (i_properties i)" if "dom_get ref_dom_ops (rt_inner cut_tree) r = Some i" for r i
  proof -
    have "list_all (\<lambda>(_, i). hm_ok (i_properties i)) (rd_map (rt_inner cut_tree))" by code_simp
    with that show ?thesis by (auto simp: ref_dom_ops_def rd_get_def list_all_iff dest!: hm_value_in)
  qed
  then have props: "\<forall>r i. dom_get (we_dom sample_web_env) (rt_inner (ss_tree (sv_session (sample_server cut_tree [])))) r = Some i \<longrightarrow>
      hm_ok (i_properties i)"
    unfolding sample_fields by blast
  let ?rq = "sample_request Post ''/api/ref-patch'' None []" and ?st = "sample_server cut_tree []"
  have inv: "tree_inv (we_dom sample_web_env) rd_ok (ss_tree (sv_session ?st))" "\<not> ss_tree_poisoned (sv_session ?st)"
    by (simp_all add: sample_fields cut_tree_inv)
  have route: "rq_method ?rq = Post" "rq_path ?rq = ''/api/ref-patch''" "rq_body ?rq = Inr []" by (simp_all add: sample_fields)
  have request: "we_decode_ref_patch sample_web_env [] = Inr \<lparr>rq_session_id = 7, rq_ids = [Ref 0]\<rparr>"
    "rq_session_id \<lparr>rq_session_id = 7, rq_ids = [Ref 0]\<rparr> = ss_session_id (sv_session ?st)"
    by (simp_all add: sample_web_env_def sample_fields)
  from ref_patches_list_the_pointers [where ck = sample_clock and addr = "sample_peer (V4 [127, 0, 0, 1])", OF inv route request props]
  show ?thesis unfolding sample_fields by blast
qed

definition script_tree :: "(nat ref_dom, nat) rojo_tree" where
  "script_tree = the (rt_new ref_dom_ops
     (Snapshot NoRef (metadata_new\<lparr>md_relevant_paths := [[RootDir, Normal ''a.lua'']]\<rparr>) ''a'' ''Script'' [] []))"

lemma only_local_peers_open_scripts_witness:
  "\<exists>st' r effects. api_call sample_web_env sample_clock (sample_peer (V4 [127, 0, 0, 1]))
      (sample_request Post ''/api/open/0'' None []) (sample_server script_tree []) = (st', r, effects) \<and>
    OpenFile [RootDir, Normal ''a.lua''] \<in> set effects \<and>
    path_extension [RootDir, Normal ''a.lua''] \<in> {Some ''lua'', Some ''luau''}"
proof -
  let ?h = "api_call sample_web_env sample_clock (sample_peer (V4 [127, 0, 0, 1]))
      (sample_request Post ''/api/open/0'' None []) (sample_server script_tree [])"
  let ?p = "[RootDir, Normal ''a.lua'']"
  have id_text: "we_ref_from_str sample_web_env ''0'' = Some (Ref 0)" by code_simp
  have script: "get_instance ref_dom_ops script_tree (Ref 0) =
      Some (Some (built \<lparr>b_class = ''Script'', b_name = ''a'', b_properties = []\<rparr> (Ref 0) NoRef,
        metadata_new\<lparr>md_relevant_paths := [?p]\<rparr>))" by code_simp
  have lua: "path_extension ?p = Some ''lua''" by code_simp
  have picked: "pick_script_path sample_web_env (built \<lparr>b_class = ''Script'', b_name = ''a'', b_properties = []\<rparr> (Ref 0) NoRef,
      metadata_new\<lparr>md_relevant_paths := [?p]\<rparr>) = Some ?p"
    by (simp add: pick_script_path_def built_def opens_as_script_def lua sample_web_env_def)
  have "is_loopback (canonical (V4 [127, 0, 0, 1]))" by (simp add: is_loopback_def canonical_def)
  then have "OpenFile ?p \<in> set (snd (snd ?h))"
    by (simp add: api_call_def handle_api_open_def str_starts_with_def sample_fields lock_tree_def sample_peer_def id_text script picked)
  moreover obtain st' r effects where h: "?h = (st', r, effects)" by (cases ?h)
  ultimately have opened: "OpenFile ?p \<in> set effects" by simp
  from only_local_peers_open_scripts [OF h this] have "path_extension ?p \<in> {Some ''lua'', Some ''luau''}" by blast
  with h opened show ?thesis by blast
qed

end
