(* ===== verification/Diagnosis.thy ===== *)
theory Diagnosis
  imports Web_Interface Json Session_Registry
begin

text \<open>
  Why Studio is not connected: \<open>src/src/cli/diagnose.rs\<close>, with the words of \<open>src/src/cli/status.rs\<close> it
  uses.  A status goes in, a diagnosis with a suggested edit of the project file comes out.  The time of
  a verdict wraps as in a build without overflow checks.
\<close>

text \<open>The ranges are listed low, high.\<close>

definition PLUGIN_DEFAULT_PORT_RANGES :: "(u16 \<times> u16) list" where
  "PLUGIN_DEFAULT_PORT_RANGES = [(34370, 34379), (34872, 34881)]"

definition STALE_VERDICT_SECS :: u64 where "STALE_VERDICT_SECS = 60"

datatype diagnosis_state = Connected | Declined | Ambiguous | Probed | NotProbed

record project_file_change =
  pf_file :: string
  pf_set :: json_value
  pf_requires_restart :: bool

record diagnosis =
  dg_state :: diagnosis_state
  dg_summary :: string
  dg_fix :: "string option"
  dg_project_file_change :: "project_file_change option"
  dg_caution :: "string option"
  dg_place_id :: "u64 option"
  dg_reason_code :: "string option"
  dg_last_probe_seconds_ago :: "u64 option"

definition SERVE_PLACE_IDS_CAUTION :: string where
  "SERVE_PLACE_IDS_CAUTION =
     ''Only list this place if it really belongs to this project. A listed place connects without '' @
     ''confirmation, and the project's source then overwrites what is in it.''"

definition diagnosis_new :: "diagnosis_state \<Rightarrow> string \<Rightarrow> diagnosis" where
  "diagnosis_new st summary =
     \<lparr>dg_state = st, dg_summary = summary, dg_fix = None, dg_project_file_change = None, dg_caution = None,
      dg_place_id = None, dg_reason_code = None, dg_last_probe_seconds_ago = None\<rparr>"

definition u64_text :: "u64 \<Rightarrow> string" where "u64_text n = decimal (unat n)"
definition u16_text :: "u16 \<Rightarrow> string" where "u16_text n = decimal (unat n)"

definition describe_place :: "u64 option \<Rightarrow> string" where
  "describe_place place =
     (case place of
        None \<Rightarrow> ''unknown place''
      | Some n \<Rightarrow> if n = 0 then ''unpublished place'' else ''place '' @ u64_text n)"

definition fresh_verdict :: "probe_info \<Rightarrow> probe_verdict option" where
  "fresh_verdict probe =
     (case pi_verdict probe of
        Some verdict \<Rightarrow>
          if pv_reported_at verdict + STALE_VERDICT_SECS \<ge> pi_last_probe_at probe then Some verdict else None
      | None \<Rightarrow> None)"


section \<open>One case each\<close>

definition connected_how :: "client_info \<Rightarrow> string" where
  "connected_how client =
     (case (ci_match_reason client, ci_auto_connected client) of
        (Some reason, True) \<Rightarrow> ''auto-connected via '' @ reason
      | (None, True) \<Rightarrow> ''auto-connected''
      | _ \<Rightarrow> ''connected manually'')"

definition connected :: "session_status_response \<Rightarrow> diagnosis" where
  "connected st =
     (let client = find ci_subscribed (st_clients st);
          summary =
            (case client of
               Some client \<Rightarrow> ''Studio is connected: '' @ describe_place (ci_place_id client) @ '', '' @ connected_how client @ ''.''
             | None \<Rightarrow> ''Studio is connected.'')
      in (diagnosis_new Connected summary)\<lparr>dg_place_id := Option.bind client ci_place_id\<rparr>)"

definition in_scan_range :: "u16 \<Rightarrow> bool" where
  "in_scan_range port \<longleftrightarrow> list_ex (\<lambda>(low, high). low \<le> port \<and> port \<le> high) PLUGIN_DEFAULT_PORT_RANGES"

definition scan_ranges :: string where
  "scan_ranges = join_with '', '' (map (\<lambda>(low, high). u16_text low @ ''-'' @ u16_text high) PLUGIN_DEFAULT_PORT_RANGES)"

definition not_probed_fix :: "u16 option \<Rightarrow> string" where
  "not_probed_fix outside =
     (case outside of
        Some port \<Rightarrow>
          ''Port '' @ u16_text port @ '' is outside the plugin's default scan ranges ('' @ scan_ranges @
          ''). Serve on a port inside them, add '' @ u16_text port @
          '' to the plugin's auto-connect ports setting, or keep another '' @
          ''Roxo session running inside the ranges: a current plugin probes every session that '' @
          ''one lists as a peer.''
      | None \<Rightarrow>
          ''Check that Studio is open with the place loaded, that the Roxo plugin is installed '' @
          ''(`roxo plugin install`) with auto-connect on, and that its auto-connect ports '' @
          ''setting covers this port (default: '' @ scan_ranges @ '').'')"

definition not_probed :: "u16 option \<Rightarrow> diagnosis" where
  "not_probed port =
     (let outside = (case port of Some p \<Rightarrow> if in_scan_range p then None else Some p | None \<Rightarrow> None)
      in (diagnosis_new NotProbed
           (''No Roxo plugin has probed this server in the last few minutes, so no Studio place has '' @
            ''even looked at it.''))\<lparr>dg_fix := Some (not_probed_fix outside)\<rparr>)"

text \<open>\<open>set["servePlaceIds"] = ids\<close> on the object \<open>set\<close>.\<close>

definition listed_places :: "session_status_response \<Rightarrow> u64 \<Rightarrow> u64 list" where
  "listed_places st place =
     remdups_adj (sort ((case st_serve_place_ids st of Some ids \<Rightarrow> ids | None \<Rightarrow> []) @ [place]))"

definition list_place :: "session_status_response \<Rightarrow> u64 option \<Rightarrow> (string \<times> json_value) list \<Rightarrow> diagnosis \<Rightarrow> diagnosis" where
  "list_place st published_place edits d =
     (let edits = (case published_place of
            Some place \<Rightarrow> btree_insert ''servePlaceIds'' (JArray (map (JNumber \<circ> PosInt) (listed_places st place))) edits
          | None \<Rightarrow> edits)
      in d\<lparr>dg_project_file_change := Some \<lparr>pf_file = st_project_path st, pf_set = JObject edits, pf_requires_restart = True\<rparr>,
           dg_caution := Some SERVE_PLACE_IDS_CAUTION\<rparr>)"

definition quoted :: "string \<Rightarrow> string" where "quoted s = [CHR 0x22] @ s @ [CHR 0x22]"

definition unlisted_fix :: "string \<Rightarrow> string" where
  "unlisted_fix project =
     ''Add this place to servePlaceIds in '' @ project @ '' and restart the serve session, or '' @
     ''connect once by hand in Studio to pair them.''"

definition auto_connect_off_fix :: "string \<Rightarrow> string" where
  "auto_connect_off_fix project =
     ''The project turns auto-connect off. Set '' @ quoted ''autoConnect'' @ '': '' @ quoted ''matching'' @
     '' in '' @ project @ '' (or drop --auto-connect off), make sure servePlaceIds lists this place, '' @
     ''and restart the serve session.''"

definition unpublished_fix :: "string \<Rightarrow> string" where
  "unpublished_fix project =
     ''An unpublished place has no ID to match. If this is a scratch project, set '' @
     quoted ''autoConnect'' @ '': '' @ quoted ''always'' @ '' in '' @ project @
     '' and restart the serve session; it only '' @
     ''ever applies to unpublished places. Otherwise publish the place, or connect '' @
     ''once by hand.''"

definition apply_fix :: "session_status_response \<Rightarrow> u64 option \<Rightarrow> string option \<Rightarrow> diagnosis \<Rightarrow> diagnosis" where
  "apply_fix st place code d =
     (let project = st_project_path st;
          published_place = (case place of Some n \<Rightarrow> if n \<noteq> 0 then Some n else None | None \<Rightarrow> None);
          fix_with = (\<lambda>text d. d\<lparr>dg_fix := Some text\<rparr>)
      in if code \<in> {Some ''not-in-serve-place-ids'', Some ''no-identity-match'', Some ''always-on-published-place''}
         then list_place st published_place [] (fix_with (unlisted_fix project) d)
         else if code = Some ''auto-connect-off''
         then list_place st published_place [(''autoConnect'', JString ''matching'')]
           (fix_with (auto_connect_off_fix project) d)
         else if code = Some ''unpublished-place''
         then (fix_with (unpublished_fix project) d)\<lparr>dg_project_file_change :=
           Some \<lparr>pf_file = project, pf_set = JObject [(''autoConnect'', JString ''always'')], pf_requires_restart = True\<rparr>\<rparr>
         else if code = Some ''blocked-place''
         then fix_with (''The project lists this place in blockedPlaceIds. That is deliberate in '' @ project @ ''; '' @
              ''remove it from that list only if you do mean to sync into it.'') d
         else if code = Some ''protocol-mismatch''
         then fix_with (''The plugin and server speak different protocol versions. Update the plugin with '' @
              ''`roxo plugin install` and restart Studio, or update the server.'') d
         else fix_with (''See the reason above. Update the plugin with `roxo plugin install` for more '' @
              ''specific diagnoses.'') d)"

definition ambiguous :: "u64 option \<Rightarrow> probe_verdict \<Rightarrow> diagnosis" where
  "ambiguous place verdict =
     (diagnosis_new Ambiguous
        (describe_place place @ '' found more than one server claiming it, so it connected to none: '' @
         pv_reason verdict))\<lparr>dg_fix := Some
        (''Stop the other serve sessions for this place'' @
         (if pv_conflicting_ports verdict = [] then []
          else '' (ports '' @ join_with '', '' (map u16_text (pv_conflicting_ports verdict)) @ '')'') @
         '', or remove the place from their '' @
         ''servePlaceIds. Roxo never picks between two claims.'')\<rparr>"

definition declined :: "session_status_response \<Rightarrow> u64 option \<Rightarrow> probe_verdict \<Rightarrow> diagnosis" where
  "declined st place verdict =
     apply_fix st place (pv_code verdict)
       (diagnosis_new Declined (describe_place place @ '' probed this server and declined it: '' @ pv_reason verdict))"

definition probed :: "u64 option \<Rightarrow> diagnosis" where
  "probed place =
     (diagnosis_new Probed (describe_place place @ '' probed this server but did not say it declined.''))\<lparr>dg_fix := Some
        (''If it keeps probing without connecting, its plugin may predate verdict reports: '' @
         ''update it with `roxo plugin install` and restart Studio. If it just started '' @
         ''connecting, wait a few seconds and check again.'')\<rparr>"


section \<open>The diagnosis\<close>

text \<open>The probe it is about: the first with a fresh verdict, or the first.\<close>

definition telling_probe :: "probe_info list \<Rightarrow> probe_info option" where
  "telling_probe probes =
     (case find (\<lambda>probe. fresh_verdict probe \<noteq> None) probes of
        Some probe \<Rightarrow> Some probe
      | None \<Rightarrow> (case probes of probe # _ \<Rightarrow> Some probe | [] \<Rightarrow> None))"

definition diagnose_at :: "session_status_response \<Rightarrow> u16 option \<Rightarrow> u64 \<Rightarrow> diagnosis" where
  "diagnose_at st port now =
     (if st_studio_connected st then connected st
      else case telling_probe (st_recent_probes st) of
        None \<Rightarrow> not_probed port
      | Some probe \<Rightarrow>
          (let d =
             (case fresh_verdict probe of
                Some verdict \<Rightarrow>
                  if pv_outcome verdict = ''ambiguous'' then ambiguous (pi_place_id probe) verdict
                  else declined st (pi_place_id probe) verdict
              | None \<Rightarrow> probed (pi_place_id probe))
           in d\<lparr>dg_place_id := pi_place_id probe,
                dg_reason_code := Option.bind (fresh_verdict probe) pv_code,
                dg_last_probe_seconds_ago := Some (saturating_sub now (pi_last_probe_at probe))\<rparr>))"


section \<open>As JSON\<close>

definition state_text :: "diagnosis_state \<Rightarrow> string" where
  "state_text s =
     (case s of
        Connected \<Rightarrow> ''connected'' | Declined \<Rightarrow> ''declined'' | Ambiguous \<Rightarrow> ''ambiguous''
      | Probed \<Rightarrow> ''probed'' | NotProbed \<Rightarrow> ''not-probed'')"

text \<open>Fields that are \<open>None\<close> are skipped; the keys of an object are sorted.\<close>

definition json_object :: "(string \<times> json_value option) list \<Rightarrow> json_value" where
  "json_object members =
     JObject (fold (\<lambda>(k, v) m. case v of Some v \<Rightarrow> btree_insert k v m | None \<Rightarrow> m) members [])"

definition change_to_json :: "project_file_change \<Rightarrow> json_value" where
  "change_to_json c = json_object [(''file'', Some (JString (pf_file c))), (''set'', Some (pf_set c)),
     (''requiresRestart'', Some (JBool (pf_requires_restart c)))]"

definition diagnosis_to_json :: "diagnosis \<Rightarrow> json_value" where
  "diagnosis_to_json d = json_object
     [(''state'', Some (JString (state_text (dg_state d)))),
      (''summary'', Some (JString (dg_summary d))),
      (''fix'', map_option JString (dg_fix d)),
      (''projectFileChange'', map_option change_to_json (dg_project_file_change d)),
      (''caution'', map_option JString (dg_caution d)),
      (''placeId'', map_option (JNumber \<circ> PosInt) (dg_place_id d)),
      (''reasonCode'', map_option JString (dg_reason_code d)),
      (''lastProbeSecondsAgo'', map_option (JNumber \<circ> PosInt) (dg_last_probe_seconds_ago d))]"

text \<open>\<open>value["diagnosis"] = ...\<close> panics unless the value is an object or null.\<close>

definition index_set :: "json_value \<Rightarrow> string \<Rightarrow> json_value \<Rightarrow> json_value option" where
  "index_set v k x =
     (case v of
        JObject m \<Rightarrow> Some (JObject (btree_insert k x m))
      | JNull \<Rightarrow> Some (JObject [(k, x)])
      | _ \<Rightarrow> None)"


section \<open>Properties\<close>

lemma diagnosis_fields [simp]:
  "dg_state (diagnosis_new st summary) = st" "dg_project_file_change (diagnosis_new st summary) = None"
  "dg_caution (diagnosis_new st summary) = None"
  by (simp_all add: diagnosis_new_def)

lemma case_states [simp]:
  "dg_state (connected st) = Connected" "dg_state (not_probed port) = NotProbed"
  "dg_state (ambiguous place verdict) = Ambiguous" "dg_state (probed place) = Probed"
  "dg_state (declined st place verdict) = Declined"
  by (simp_all add: connected_def not_probed_def ambiguous_def probed_def declined_def apply_fix_def list_place_def Let_def)

lemma no_edit [simp]:
  "dg_project_file_change (connected st) = None" "dg_project_file_change (not_probed port) = None"
  "dg_project_file_change (ambiguous place verdict) = None" "dg_project_file_change (probed place) = None"
  by (simp_all add: connected_def not_probed_def ambiguous_def probed_def Let_def)

text \<open>The probe decides.\<close>

lemma telling_probe_cases:
  "telling_probe probes = None \<longleftrightarrow> probes = []"
  "telling_probe probes = Some probe \<Longrightarrow> probe \<in> set probes"
  "telling_probe probes = Some probe \<Longrightarrow> fresh_verdict probe = None \<longleftrightarrow> (\<forall>p \<in> set probes. fresh_verdict p = None)"
  by (auto simp: telling_probe_def find_None_iff dest!: find_Some_iff [THEN iffD1] split: option.splits list.splits)

text \<open>
  The state of a diagnosis says what the status shows: connected exactly when a client is
  subscribed, not probed exactly when there is no probe, declined or ambiguous when some probe has a
  verdict that is still fresh, and probed otherwise.
\<close>

theorem diagnosis_states_follow_the_status:
  "dg_state (diagnose_at st port now) =
     (if st_studio_connected st then Connected
      else if st_recent_probes st = [] then NotProbed
      else case List.map_filter fresh_verdict (st_recent_probes st) of
        [] \<Rightarrow> Probed
      | verdict # _ \<Rightarrow> if pv_outcome verdict = ''ambiguous'' then Ambiguous else Declined)"
proof (cases "find (\<lambda>p. fresh_verdict p \<noteq> None) (st_recent_probes st)")
  case None
  then have "\<forall>p \<in> set (st_recent_probes st). fresh_verdict p = None" by (auto simp: find_None_iff)
  then have "List.map_filter fresh_verdict (st_recent_probes st) = []" by (induction "st_recent_probes st") (auto simp: map_filter_def)
  then show ?thesis
    using None \<open>\<forall>p \<in> _. _\<close> by (auto simp: diagnose_at_def telling_probe_def Let_def split: list.split)
next
  case (Some probe)
  have "find (\<lambda>p. fresh_verdict p \<noteq> None) probes = Some probe \<Longrightarrow>
      \<exists>verdict rest. fresh_verdict probe = Some verdict \<and> List.map_filter fresh_verdict probes = verdict # rest" for probes
    by (induction probes) (auto simp: map_filter_simps split: if_splits)
  from this [OF Some] obtain verdict rest where "fresh_verdict probe = Some verdict"
    "List.map_filter fresh_verdict (st_recent_probes st) = verdict # rest" by blast
  then show ?thesis using Some by (auto simp: diagnose_at_def telling_probe_def Let_def)
qed

lemma sorted_listed_places:
  "sorted_wrt (<) (listed_places st place)"
  "set (listed_places st place) = insert place (set (case st_serve_place_ids st of Some ids \<Rightarrow> ids | None \<Rightarrow> []))"
  by (auto simp: listed_places_def strict_sorted_iff sorted_remdups_adj distinct_remdups_adj_sorted)

text \<open>What an edit of the project file may set.\<close>

definition opts_in :: "session_status_response \<Rightarrow> diagnosis \<Rightarrow> (string \<times> json_value) list \<Rightarrow> bool" where
  "opts_in st d edits \<longleftrightarrow>
     fst ` set edits \<subseteq> {''autoConnect'', ''servePlaceIds''} \<and>
     (\<forall>v. map_of edits ''autoConnect'' = Some v \<longrightarrow>
        v = JString ''matching'' \<and> dg_reason_code d = Some ''auto-connect-off'' \<or>
        v = JString ''always'' \<and> dg_reason_code d = Some ''unpublished-place'') \<and>
     (\<forall>v. map_of edits ''servePlaceIds'' = Some v \<longrightarrow> dg_caution d \<noteq> None \<and>
        (\<exists>place ids. dg_place_id d = Some place \<and> place \<noteq> 0 \<and> v = JArray (map (JNumber \<circ> PosInt) ids) \<and>
           sorted_wrt (<) ids \<and>
           set ids = insert place (set (case st_serve_place_ids st of Some ids \<Rightarrow> ids | None \<Rightarrow> []))))"

lemma places_after_policy: "''autoConnect'' < ''servePlaceIds''" by code_simp

lemma list_place_opts:
  assumes "edits = [] \<or> edits = [(''autoConnect'', JString ''matching'')] \<and> code = Some ''auto-connect-off''"
    and "\<forall>n. published = Some n \<longrightarrow> place = Some n \<and> n \<noteq> 0"
    and "d = (list_place st published edits d0)\<lparr>dg_place_id := place, dg_reason_code := code, dg_last_probe_seconds_ago := ago\<rparr>"
  shows "\<exists>edits'. dg_project_file_change d =
      Some \<lparr>pf_file = st_project_path st, pf_set = JObject edits', pf_requires_restart = True\<rparr> \<and> opts_in st d edits'"
proof (cases published)
  case None
  then show ?thesis using assms(1) by (auto simp: assms(3) list_place_def opts_in_def)
next
  case (Some n)
  let ?ids = "listed_places st n"
  let ?edits = "edits @ [(''servePlaceIds'', JArray (map (JNumber \<circ> PosInt) ?ids))]"
  have "btree_insert ''servePlaceIds'' (JArray (map (JNumber \<circ> PosInt) ?ids)) edits = ?edits"
    using assms(1) places_after_policy by (intro btree_insert_last) auto
  then have d: "dg_project_file_change d = Some \<lparr>pf_file = st_project_path st, pf_set = JObject ?edits, pf_requires_restart = True\<rparr>"
    "dg_caution d = Some SERVE_PLACE_IDS_CAUTION" "dg_place_id d = place" "dg_reason_code d = code"
    by (simp_all add: assms(3) list_place_def Some)
  have "opts_in st d ?edits"
    unfolding opts_in_def
  proof (intro conjI allI impI)
    fix v
    assume "map_of ?edits ''servePlaceIds'' = Some v"
    then have "v = JArray (map (JNumber \<circ> PosInt) ?ids)" using assms(1) by auto
    then show "\<exists>place ids. dg_place_id d = Some place \<and> place \<noteq> 0 \<and> v = JArray (map (JNumber \<circ> PosInt) ids) \<and>
        sorted_wrt (<) ids \<and> set ids = insert place (set (case st_serve_place_ids st of Some ids \<Rightarrow> ids | None \<Rightarrow> []))"
      using assms(2) Some sorted_listed_places [of st n] d(3) by blast
  qed (use assms(1) d in auto)
  then show ?thesis using d(1) by blast
qed

lemma apply_fix_opts:
  assumes "dg_project_file_change d0 = None"
    and "d = (apply_fix st place code d0)\<lparr>dg_place_id := place, dg_reason_code := code, dg_last_probe_seconds_ago := ago\<rparr>"
    and "dg_project_file_change d \<noteq> None"
  shows "\<exists>edits. dg_project_file_change d =
      Some \<lparr>pf_file = st_project_path st, pf_set = JObject edits, pf_requires_restart = True\<rparr> \<and> opts_in st d edits"
proof -
  let ?published = "case place of Some n \<Rightarrow> if n \<noteq> 0 then Some n else None | None \<Rightarrow> None"
  have published: "\<forall>n. ?published = Some n \<longrightarrow> place = Some n \<and> n \<noteq> 0" by (auto split: option.splits)
  let ?unlisted = "{Some ''not-in-serve-place-ids'', Some ''no-identity-match'', Some ''always-on-published-place''}"
  have "code \<in> S \<or> code = b \<or> code = c \<or> (code \<notin> S \<and> code \<noteq> b \<and> code \<noteq> c)" for S b c by blast
  then consider "code \<in> ?unlisted" | "code = Some ''auto-connect-off''" | "code = Some ''unpublished-place''"
    | "code \<notin> ?unlisted \<and> code \<noteq> Some ''auto-connect-off'' \<and> code \<noteq> Some ''unpublished-place''" by meson
  then show ?thesis
  proof cases
    case 1
    then have "apply_fix st place code d0 =
        list_place st ?published [] (d0\<lparr>dg_fix := Some (unlisted_fix (st_project_path st))\<rparr>)"
      by (simp only: apply_fix_def Let_def simp_thms if_True insert_iff empty_iff)
    from list_place_opts [OF _ published, of "[]" code, OF _ assms(2) [unfolded this]] show ?thesis by simp
  next
    case 2
    then have "apply_fix st place code d0 =
        list_place st ?published [(''autoConnect'', JString ''matching'')]
          (d0\<lparr>dg_fix := Some (auto_connect_off_fix (st_project_path st))\<rparr>)"
      by (simp add: apply_fix_def Let_def)
    from list_place_opts [OF _ published, of "[(''autoConnect'', JString ''matching'')]" code, OF _ assms(2) [unfolded this]] 2
    show ?thesis by simp
  next
    case 3
    then show ?thesis using assms(2) by (simp add: apply_fix_def opts_in_def Let_def)
  next
    case 4
    then show ?thesis using assms by (simp add: apply_fix_def Let_def split: if_splits)
  qed
qed

text \<open>
  C34. Every edit that a diagnosis suggests is for the project file of the session and needs a restart;
  it only sets the auto-connect policy, to what answers the reason of the refusal, or the places to
  serve, to the old ones and the published place that was refused, sorted and without duplicates, and
  then with a caution.  A connected session gets no suggestion.
\<close>

theorem suggested_edits_only_add_the_place:
  assumes "dg_project_file_change (diagnose_at st port now) = Some change"
  shows "\<not> st_studio_connected st \<and> pf_file change = st_project_path st \<and> pf_requires_restart change \<and>
    (\<exists>edits. pf_set change = JObject edits \<and> opts_in st (diagnose_at st port now) edits)"
proof -
  have open_session: "\<not> st_studio_connected st" using assms by (auto simp: diagnose_at_def)
  obtain probe verdict where probe: "telling_probe (st_recent_probes st) = Some probe"
    "fresh_verdict probe = Some verdict" "pv_outcome verdict \<noteq> ''ambiguous''"
    using assms open_session by (auto simp: diagnose_at_def Let_def split: option.splits if_splits)
  let ?refused = "diagnosis_new Declined (describe_place (pi_place_id probe) @ '' probed this server and declined it: '' @ pv_reason verdict)"
  have "diagnose_at st port now = (apply_fix st (pi_place_id probe) (pv_code verdict) ?refused)
      \<lparr>dg_place_id := pi_place_id probe, dg_reason_code := pv_code verdict,
       dg_last_probe_seconds_ago := Some (saturating_sub now (pi_last_probe_at probe))\<rparr>"
    using open_session probe by (simp add: diagnose_at_def declined_def)
  from apply_fix_opts [OF diagnosis_fields(2) this] assms open_session show ?thesis by auto
qed

definition sample_status :: session_status_response where
  "sample_status =
     \<lparr>st_session_id = 0, st_server_name = SERVER_NAME, st_server_version = SERVER_VERSION,
      st_protocol_version = PROTOCOL_VERSION, st_project_name = ''Game'', st_project_id = ''roxo-1'',
      st_project_path = ''default.project.json'', st_place_id = None, st_game_id = None,
      st_serve_place_ids = Some [8], st_auto_connect = ''matching'', st_uptime_seconds = 10,
      st_studio_connected = False, st_client_count = 0, st_clients = [],
      st_recent_probes =
        [\<lparr>pi_place_id = Some 5, pi_game_id = None, pi_client_version = None, pi_remote_addr = [],
          pi_first_probe_at = 997, pi_last_probe_at = 997, pi_probe_count = 1,
          pi_verdict = Some \<lparr>pv_outcome = ''rejected'', pv_code = Some ''not-in-serve-place-ids'', pv_reason = ''because'',
            pv_conflicting_ports = [], pv_reported_at = 997\<rparr>\<rparr>],
      st_last_patch_at = None, st_patches_sent = 0\<rparr>"

lemma suggested_edits_only_add_the_place_witness:
  "\<exists>edits. dg_project_file_change (diagnose_at sample_status None 1000) =
      Some \<lparr>pf_file = ''default.project.json'', pf_set = JObject edits, pf_requires_restart = True\<rparr> \<and>
    opts_in sample_status (diagnose_at sample_status None 1000) edits"
proof -
  let ?change = "\<lparr>pf_file = ''default.project.json'', pf_set = JObject [(''servePlaceIds'', JArray [JNumber (PosInt 5), JNumber (PosInt 8)])],
     pf_requires_restart = True\<rparr>"
  have change: "dg_project_file_change (diagnose_at sample_status None 1000) = Some ?change"
    by (simp add: sample_status_def diagnose_at_def telling_probe_def fresh_verdict_def STALE_VERDICT_SECS_def declined_def
        apply_fix_def list_place_def listed_places_def Let_def)
  from suggested_edits_only_add_the_place [OF change] change show ?thesis by auto
qed

end
