(* ===== verification/Session_Status.thy ===== *)
theory Session_Status
  imports Diagnosis Session_Registry Outcome
begin

text \<open>
  The status of a session as the command line sees it, \<open>src/src/cli/status.rs\<close>: finding the session,
  asking its server, and the report.  What is outside the program is the record \<open>cli_ops\<close> over a
  state \<open>'w\<close> of the world: the registry's directory, the clock, HTTP and the JSON encoders.  Colors are
  left out of the report.
\<close>

record http_reply =
  hr_success :: bool
  hr_status :: string
  hr_body :: string

record 'w cli_ops =
  co_registry :: "'w \<Rightarrow> 'w registry_env"
  co_io_text :: "io_error \<Rightarrow> string"
  co_client :: "nat \<Rightarrow> 'w \<Rightarrow> 'w \<times> (string + unit)"
  co_get :: "string \<Rightarrow> 'w \<Rightarrow> 'w \<times> (string + http_reply)"
  co_decode_status :: "string \<Rightarrow> string + session_status_response"
  co_status_to_value :: "session_status_response \<Rightarrow> string + json_value"
  co_to_string :: "json_value \<Rightarrow> string"
  co_to_string_pretty :: "json_value \<Rightarrow> string"
  co_session_id_text :: "session_id \<Rightarrow> string"
  co_now_secs :: "'w \<Rightarrow> u64"
  co_instant :: "'w \<Rightarrow> nat"
  co_sleep :: "nat \<Rightarrow> 'w \<Rightarrow> 'w"

text \<open>The errors of the registry, as anyhow prints them.\<close>

definition registry_error_text :: "('w, 'x) cli_ops_scheme \<Rightarrow> registry_error \<Rightarrow> string" where
  "registry_error_text ops err =
     (case err of
        NoHomeDirectory \<Rightarrow>
          ''Could not determine a home directory to store Roxo session state in. '' @
          ''Set the ROXO_HOME environment variable to choose one explicitly.''
      | RegistryIo e \<Rightarrow> co_io_text ops e
      | RegistryJson e \<Rightarrow> e
      | NoSession \<Rightarrow>
          ''No running Roxo serve session was found. Start one with `roxo serve`, '' @
          ''or pass --port to name a session on a specific port.''
      | MultipleSessions listing \<Rightarrow>
          ''Multiple Roxo serve sessions are running. '' @ ''Use --port to pick one:'' @ [CHR 0x0A] @ listing)"

text \<open>Five seconds.\<close>

definition REQUEST_TIMEOUT :: nat where "REQUEST_TIMEOUT = 5000"

definition ask_server :: "('w, 'x) cli_ops_scheme \<Rightarrow> beacon \<Rightarrow> 'w \<Rightarrow> 'w \<times> (string + session_status_response)" where
  "ask_server ops b w =
     (case co_client ops REQUEST_TIMEOUT w of
        (w1, Inl err) \<Rightarrow> (w1, Inl err)
      | (w1, Inr ()) \<Rightarrow>
          (case co_get ops (base_url b @ ''/api/roxo/status'') w1 of
             (w2, Inl err) \<Rightarrow>
               (w2, Inl (''Could not reach the Roxo server for '' @ [CHR 0x27] @ sb_project_name b @ [CHR 0x27] @ '' at '' @
                  base_url b @ ''. '' @ ''It may have stopped since it was last seen.'' @ '': '' @ err))
           | (w2, Inr reply) \<Rightarrow>
               (if \<not> hr_success reply
                then (w2, Inl (''The server at '' @ base_url b @ '' responded with '' @ hr_status reply @ ''. '' @
                       ''It may be an upstream Rojo server, which does not implement /api/roxo/status.''))
                else (w2, co_decode_status ops (hr_body reply)))))"

definition fetch_session_status :: "('w, 'x) cli_ops_scheme \<Rightarrow> u16 option \<Rightarrow> path option \<Rightarrow> 'w \<Rightarrow>
    'w \<times> (string + beacon \<times> session_status_response)" where
  "fetch_session_status ops port project w =
     (case resolve_session (co_registry ops w) w port project of
        (w1, Inl err) \<Rightarrow> (w1, Inl (registry_error_text ops err))
      | (w1, Inr b) \<Rightarrow>
          (case ask_server ops b w1 of
             (w2, Inl err) \<Rightarrow> (w2, Inl err)
           | (w2, Inr st) \<Rightarrow> (w2, Inr (b, st))))"

definition diagnose :: "('w, 'x) cli_ops_scheme \<Rightarrow> 'w \<Rightarrow> session_status_response \<Rightarrow> u16 option \<Rightarrow> diagnosis" where
  "diagnose ops w st port = diagnose_at st port (co_now_secs ops w)"

definition with_diagnosis :: "('w, 'x) cli_ops_scheme \<Rightarrow> session_status_response \<Rightarrow> diagnosis \<Rightarrow> (string, json_value) outcome" where
  "with_diagnosis ops st d =
     (case co_status_to_value ops st of
        Inl err \<Rightarrow> Failed err
      | Inr v \<Rightarrow> (case index_set v ''diagnosis'' (diagnosis_to_json d) of None \<Rightarrow> Panics | Some v' \<Rightarrow> Done v'))"


section \<open>The report\<close>

definition format_duration :: "u64 \<Rightarrow> string" where
  "format_duration seconds =
     (let hours = seconds div 3600; minutes = seconds mod 3600 div 60; secs = seconds mod 60
      in if hours > 0 then u64_text hours @ ''h '' @ u64_text minutes @ ''m''
         else if minutes > 0 then u64_text minutes @ ''m '' @ u64_text secs @ ''s''
         else u64_text secs @ ''s'')"

definition plural :: "bool \<Rightarrow> string" where "plural one = (if one then [] else ''s'')"

definition client_line :: "client_info \<Rightarrow> string" where
  "client_line client =
     ''  '' @ (if ci_subscribed client then ''*'' else ''-'') @ '' '' @ ci_client_name client @ '' - '' @
     describe_place (ci_place_id client) @ '', '' @
     (if ci_auto_connected client
      then (case ci_match_reason client of Some reason \<Rightarrow> ''auto-connected via '' @ reason | None \<Rightarrow> ''auto-connected'')
      else ''connected manually'')"

definition probe_lines :: "u64 \<Rightarrow> probe_info \<Rightarrow> string list" where
  "probe_lines now probe =
     (''  '' @ describe_place (pi_place_id probe) @ '' - last probed '' @
        format_duration (saturating_sub now (pi_last_probe_at probe)) @ '' ago ('' @ u64_text (pi_probe_count probe) @
        '' probe'' @ plural (pi_probe_count probe = 1) @ '')'') #
     (case pi_verdict probe of
        Some verdict \<Rightarrow> [''    '' @ pv_outcome verdict @ '': '' @ pv_reason verdict]
      | None \<Rightarrow> [])"

definition diagnosis_lines :: "(json_value \<Rightarrow> string) \<Rightarrow> diagnosis \<Rightarrow> string list" where
  "diagnosis_lines to_text d =
     (if dg_state d = Connected then []
      else [[], ''Why not connected'', ''  '' @ dg_summary d] @
        (case dg_fix d of Some fix_text \<Rightarrow> [''  Fix: '' @ fix_text] | None \<Rightarrow> []) @
        (case dg_project_file_change d of
           Some change \<Rightarrow> [''  Change: in '' @ pf_file change @ '', set '' @ to_text (pf_set change) @
             (if pf_requires_restart change then '', then restart the serve session'' else [])]
         | None \<Rightarrow> []) @
        (case dg_caution d of Some caution \<Rightarrow> [''  Caution: '' @ caution] | None \<Rightarrow> []))"

definition show_status :: "('w, 'x) cli_ops_scheme \<Rightarrow> 'w \<Rightarrow> session_status_response \<Rightarrow> diagnosis \<Rightarrow> string list" where
  "show_status ops w st d =
     [st_project_name st,
      ''  Project:  '' @ st_project_path st,
      ''  Identity: '' @ st_project_id st,
      ''  Session:  '' @ co_session_id_text ops (st_session_id st),
      ''  Uptime:   '' @ format_duration (st_uptime_seconds st),
      ''  Connect:  '' @ st_auto_connect st,
      ''  Studio:   '' @
        (if st_studio_connected st
         then ''connected ('' @ decimal (st_client_count st) @ '' client'' @ plural (st_client_count st = 1) @ '')''
         else ''not connected''),
      ''  Patches:  '' @ decimal (unat (st_patches_sent st))] @
     (if st_clients st = [] then [] else [[], ''Clients''] @ map client_line (st_clients st)) @
     (if st_recent_probes st = [] then []
      else [[], ''Studio places that looked here''] @ concat (map (probe_lines (co_now_secs ops w)) (st_recent_probes st))) @
     diagnosis_lines (co_to_string ops) d"

record status_command =
  sc_port :: "u16 option"
  sc_project :: "path option"
  sc_json :: bool
  sc_require_studio :: bool

text \<open>What is printed, and whether the command fails.\<close>

definition status_run :: "('w, 'x) cli_ops_scheme \<Rightarrow> status_command \<Rightarrow> 'w \<Rightarrow> 'w \<times> string list \<times> (string, unit) outcome" where
  "status_run ops c w =
     (case fetch_session_status ops (sc_port c) (sc_project c) w of
        (w1, Inl err) \<Rightarrow> (w1, [], Failed err)
      | (w1, Inr (b, st)) \<Rightarrow>
          (let d = diagnose ops w1 st (Some (sb_port b));
               ends = (if sc_require_studio c \<and> \<not> st_studio_connected st
                 then Failed (''No Studio client is connected to '' @ [CHR 0x27] @ st_project_name st @ [CHR 0x27] @ ''. '' @
                   ''Open the place in Studio, or run `roxo wait --for studio` to block until it '' @ ''connects.'')
                 else Done ())
           in if sc_json c
              then (case with_diagnosis ops st d of
                  Done v \<Rightarrow> (w1, [co_to_string_pretty ops v], ends)
                | Failed err \<Rightarrow> (w1, [], Failed err)
                | Panics \<Rightarrow> (w1, [], Panics)
                | OutOfFuel \<Rightarrow> (w1, [], OutOfFuel))
              else (w1, show_status ops w1 st d, ends)))"

end
