(* ===== verification/Mcp_Server.thy ===== *)
theory Mcp_Server
  imports Session_Status Web_Query
begin

text \<open>
  The server for agents, \<open>src/src/cli/mcp.rs\<close>: JSON-RPC over lines of standard input, with tools that
  list, start and stop serve sessions, wait for Studio, and run builds.  Processes, the parser and the
  output stream are the record \<open>mcp_ops\<close>.  A child process is its process id.  \<open>mc_asked\<close> records what
  was asked of the operating system, and \<open>mc_sent\<close> what was written, oldest first.  A panic ends the
  process (the profiles of \<open>Cargo.toml\<close> abort), so nothing is dropped after it.
\<close>

section \<open>JSON\<close>

definition json_get :: "json_value \<Rightarrow> string \<Rightarrow> json_value option" where
  "json_get v k = (case v of JObject m \<Rightarrow> map_of m k | _ \<Rightarrow> None)"

definition as_str :: "json_value \<Rightarrow> string option" where
  "as_str v = (case v of JString s \<Rightarrow> Some s | _ \<Rightarrow> None)"

definition as_u64 :: "json_value \<Rightarrow> u64 option" where
  "as_u64 v = (case v of JNumber (PosInt n) \<Rightarrow> Some n | _ \<Rightarrow> None)"

definition as_bool :: "json_value \<Rightarrow> bool option" where
  "as_bool v = (case v of JBool b \<Rightarrow> Some b | _ \<Rightarrow> None)"

definition is_object :: "json_value \<Rightarrow> bool" where
  "is_object v = (case v of JObject _ \<Rightarrow> True | _ \<Rightarrow> False)"

definition get_str :: "json_value \<Rightarrow> string \<Rightarrow> string option" where
  "get_str v k = Option.bind (json_get v k) as_str"

definition get_u64 :: "json_value \<Rightarrow> string \<Rightarrow> u64 option" where
  "get_u64 v k = Option.bind (json_get v k) as_u64"

definition get_bool :: "json_value \<Rightarrow> string \<Rightarrow> bool option" where
  "get_bool v k = Option.bind (json_get v k) as_bool"

definition unwrap_or :: "'a \<Rightarrow> 'a option \<Rightarrow> 'a" where
  "unwrap_or d found = (case found of Some x \<Rightarrow> x | None \<Rightarrow> d)"

text \<open>The macro \<open>json!\<close> on an object.\<close>

definition jobj :: "(string \<times> json_value) list \<Rightarrow> json_value" where
  "jobj members = json_object (map (\<lambda>(k, v). (k, Some v)) members)"


section \<open>State\<close>

definition LATEST_PROTOCOL_VERSION :: string where "LATEST_PROTOCOL_VERSION = ''2025-06-18''"

definition SUPPORTED_PROTOCOL_VERSIONS :: "string list" where
  "SUPPORTED_PROTOCOL_VERSIONS = [''2025-06-18'', ''2025-03-26'', ''2024-11-05'']"

definition STRUCTURED_CONTENT_VERSION :: string where "STRUCTURED_CONTENT_VERSION = ''2025-06-18''"

text \<open>In seconds.\<close>

definition SERVE_START_TIMEOUT :: nat where "SERVE_START_TIMEOUT = 20"

record command_output =
  out_success :: bool
  out_stdout :: string
  out_stderr :: string

record 'w mcp_ops = "'w cli_ops" +
  mo_path :: "string \<Rightarrow> path"
  mo_parse :: "string \<Rightarrow> string + json_value"
  mo_beacon_to_value :: "beacon \<Rightarrow> json_value option"
  mo_current_exe :: "string + string"
  mo_spawn :: "string list \<Rightarrow> 'w \<Rightarrow> 'w \<times> (string + u32)"
  mo_kill :: "u32 \<Rightarrow> 'w \<Rightarrow> 'w \<times> (string + unit)"
  mo_wait :: "u32 \<Rightarrow> 'w \<Rightarrow> 'w \<times> (string + unit)"
  mo_output :: "string list \<Rightarrow> 'w \<Rightarrow> 'w \<times> (string + command_output)"
  mo_write :: "json_value \<Rightarrow> 'w \<Rightarrow> 'w \<times> (string + unit)"

datatype os_request = Spawned u32 | Killed u32 | Ran "string list"

record 'w mcp_server =
  mc_read_only :: bool
  mc_spawned :: "(u16, u32) hash_map"
  mc_protocol_version :: string
  mc_world :: 'w
  mc_asked :: "os_request list"
  mc_sent :: "json_value list"

definition mcp_new :: "bool \<Rightarrow> 'w \<Rightarrow> 'w mcp_server" where
  "mcp_new read_only w = \<lparr>mc_read_only = read_only, mc_spawned = [],
     mc_protocol_version = LATEST_PROTOCOL_VERSION, mc_world = w, mc_asked = [], mc_sent = []\<rparr>"

record rpc_error =
  rpc_code :: int
  rpc_message :: string

definition method_not_found :: "string \<Rightarrow> rpc_error" where
  "method_not_found method = \<lparr>rpc_code = -32601, rpc_message = ''Method not found: '' @ method\<rparr>"

definition invalid_params :: "string \<Rightarrow> rpc_error" where
  "invalid_params message = \<lparr>rpc_code = -32602, rpc_message = message\<rparr>"

type_synonym ('w, 'a) tool = "('w mcp_server, string, 'a) action"

text \<open>Operations on the world, in the server that makes them.\<close>

definition in_world :: "('w \<Rightarrow> 'w \<times> (string + 'a)) \<Rightarrow> ('w, 'a) tool" where
  "in_world f = (\<lambda>s. case f (mc_world s) of (w, r) \<Rightarrow> of_result r (s\<lparr>mc_world := w\<rparr>))"

definition asks :: "os_request \<Rightarrow> ('w, unit) tool" where
  "asks q = (\<lambda>s. (s\<lparr>mc_asked := mc_asked s @ [q]\<rparr>, Done ()))"

definition spawn_child :: "'w mcp_ops \<Rightarrow> string list \<Rightarrow> ('w, u32) tool" where
  "spawn_child ops arguments = and_then (in_world (mo_spawn ops arguments)) (\<lambda>pid. and_then (asks (Spawned pid)) (\<lambda>_. yields pid))"

definition kill_child :: "'w mcp_ops \<Rightarrow> u32 \<Rightarrow> ('w, unit) tool" where
  "kill_child ops pid = and_then (asks (Killed pid)) (\<lambda>_. in_world (mo_kill ops pid))"

definition wait_child :: "'w mcp_ops \<Rightarrow> u32 \<Rightarrow> ('w, unit) tool" where
  "wait_child ops pid = in_world (mo_wait ops pid)"

text \<open>\<open>let _ = ...\<close>: an error is dropped.\<close>

definition ignoring :: "('w, unit) tool \<Rightarrow> ('w, unit) tool" where
  "ignoring m = (\<lambda>s. case m s of (s', Failed _) \<Rightarrow> (s', Done ()) | r \<Rightarrow> r)"

definition run_command :: "'w mcp_ops \<Rightarrow> string list \<Rightarrow> ('w, command_output) tool" where
  "run_command ops arguments = and_then (asks (Ran arguments)) (\<lambda>_. in_world (mo_output ops arguments))"


section \<open>Arguments and results\<close>

definition port_of :: "json_value \<Rightarrow> u16 option" where
  "port_of arguments = map_option ucast (get_u64 arguments ''port'')"

definition project_of :: "json_value \<Rightarrow> string option" where
  "project_of arguments = get_str arguments ''project''"

definition wait_failure :: "string \<Rightarrow> u64 \<Rightarrow> json_value \<Rightarrow> json_value" where
  "wait_failure result_name timeout report =
     (let (d, rest) = (case report of
            JObject m \<Rightarrow> (unwrap_or JNull (map_of m ''diagnosis''), JObject (AList.delete ''diagnosis'' m))
          | v \<Rightarrow> (JNull, v))
      in jobj [(''connected'', JBool False), (''outcome'', JString result_name),
           (''timeoutSeconds'', JNumber (PosInt timeout)), (''diagnosis'', d), (''status'', rest)])"

definition text_content :: "string \<Rightarrow> json_value" where
  "text_content text = JArray [jobj [(''type'', JString ''text''), (''text'', JString text)]]"

definition tool_error :: "string \<Rightarrow> json_value" where
  "tool_error message = jobj [(''content'', text_content message), (''isError'', JBool True)]"

definition tool_result :: "'w mcp_ops \<Rightarrow> string \<Rightarrow> json_value \<Rightarrow> bool \<Rightarrow> json_value" where
  "tool_result ops version v is_error =
     json_object
       [(''content'', Some (text_content (co_to_string_pretty ops v))),
        (''structuredContent'', if version \<ge> STRUCTURED_CONTENT_VERSION \<and> is_object v then Some v else None),
        (''isError'', if is_error then Some (JBool True) else None)]"


section \<open>Tools\<close>

definition tool_sessions :: "'w mcp_ops \<Rightarrow> ('w, json_value) tool" where
  "tool_sessions ops =
     and_then (in_world (\<lambda>w. apsnd (map_sum (registry_error_text ops) id) (list_sessions (co_registry ops w) w))) (\<lambda>sessions.
       if sessions = []
       then yields (jobj [(''sessions'', JArray []),
         (''hint'', JString ''No serve sessions are running. Start one with roxo_serve_start.'')])
       else and_then (of_panicking (those (map (mo_beacon_to_value ops) sessions))) (\<lambda>vs.
         yields (jobj [(''sessions'', JArray vs)])))"

definition tool_status :: "'w mcp_ops \<Rightarrow> json_value \<Rightarrow> ('w, json_value) tool" where
  "tool_status ops arguments =
     and_then (in_world (fetch_session_status ops (port_of arguments) (map_option (mo_path ops) (project_of arguments))))
       (\<lambda>(b, st) s. (s, with_diagnosis ops st (diagnose ops (mc_world s) st (Some (sb_port b)))))"

text \<open>Instants are milliseconds; adding a duration panics once the seconds leave 63 bits.\<close>

definition add_secs :: "nat \<Rightarrow> nat \<Rightarrow> nat option" where
  "add_secs instant secs = (if instant div 1000 + secs < 2 ^ 63 then Some (instant + 1000 * secs) else None)"

definition fresh_decline :: "u64 \<Rightarrow> session_status_response \<Rightarrow> diagnosis \<Rightarrow> bool" where
  "fresh_decline started_at st d \<longleftrightarrow>
     (dg_state d = Declined \<or> dg_state d = Ambiguous) \<and>
     list_ex (\<lambda>probe. case pi_verdict probe of
       Some verdict \<Rightarrow> pv_reported_at verdict > started_at | None \<Rightarrow> False) (st_recent_probes st)"

definition wait_timeout :: "u64 \<Rightarrow> string option \<Rightarrow> json_value option \<Rightarrow> (string, json_value \<times> bool) outcome" where
  "wait_timeout timeout last_error last_report =
     (case last_report of
        Some report \<Rightarrow> Done (wait_failure ''timeout'' timeout report, False)
      | None \<Rightarrow> Failed (''No serve session answered within '' @ u64_text timeout @ ''s.'' @
          (case last_error of Some err \<Rightarrow> '' Last attempt: '' @ err | None \<Rightarrow> [])))"

text \<open>The loop of \<open>tool_wait_for_studio\<close>, with fuel for its turns.\<close>

fun wait_polls :: "'w mcp_ops \<Rightarrow> nat \<Rightarrow> u16 option \<Rightarrow> path option \<Rightarrow> u64 \<Rightarrow> bool \<Rightarrow> u64 \<Rightarrow> nat \<Rightarrow>
    string option \<Rightarrow> json_value option \<Rightarrow> ('w, json_value \<times> bool) tool" where
  "wait_polls ops 0 port project timeout fail_fast started_at deadline last_error last_report = out_of_fuel"
| "wait_polls ops (Suc fuel) port project timeout fail_fast started_at deadline last_error last_report = (\<lambda>s.
     let again = (\<lambda>last_error last_report s.
           if co_instant ops (mc_world s) \<ge> deadline then (s, wait_timeout timeout last_error last_report)
           else wait_polls ops fuel port project timeout fail_fast started_at deadline last_error last_report
             (s\<lparr>mc_world := co_sleep ops 500 (mc_world s)\<rparr>))
     in case fetch_session_status ops port project (mc_world s) of
          (w, Inl err) \<Rightarrow> again (Some err) last_report (s\<lparr>mc_world := w\<rparr>)
        | (w, Inr (b, st)) \<Rightarrow>
            (let s = s\<lparr>mc_world := w\<rparr>; d = diagnose ops w st (Some (sb_port b))
             in case with_diagnosis ops st d of
                  Done report \<Rightarrow>
                    (if st_studio_connected st then (s, Done (report, True))
                     else if fail_fast \<and> fresh_decline started_at st d
                     then (s, Done (wait_failure ''declined'' timeout report, False))
                     else again last_error (Some report) s)
                | Failed err \<Rightarrow> (s, Failed err)
                | Panics \<Rightarrow> (s, Panics)
                | OutOfFuel \<Rightarrow> (s, OutOfFuel)))"

definition tool_wait_for_studio :: "'w mcp_ops \<Rightarrow> nat \<Rightarrow> json_value \<Rightarrow> ('w, json_value \<times> bool) tool" where
  "tool_wait_for_studio ops fuel arguments =
     (let timeout = unwrap_or 60 (get_u64 arguments ''timeoutSeconds'');
          fail_fast = unwrap_or True (get_bool arguments ''failFast'')
      in (\<lambda>s. case add_secs (co_instant ops (mc_world s)) (unat timeout) of
           None \<Rightarrow> (s, Panics)
         | Some deadline \<Rightarrow>
             wait_polls ops fuel (port_of arguments) (map_option (mo_path ops) (project_of arguments)) timeout fail_fast
               (co_now_secs ops (mc_world s)) deadline None None s))"

definition required :: "json_value option \<Rightarrow> string \<Rightarrow> (json_value \<Rightarrow> 'a option) \<Rightarrow> ('w, 'a) tool" where
  "required found name conv =
     (case Option.bind found conv of
        Some x \<Rightarrow> yields x
      | None \<Rightarrow> fails (''The '' @ [CHR 0x27] @ name @ [CHR 0x27] @ '' argument is required''))"

text \<open>The loop that waits for the beacon of the new process.\<close>

fun await_beacon :: "'w mcp_ops \<Rightarrow> nat \<Rightarrow> u32 \<Rightarrow> nat \<Rightarrow> ('w, beacon option) tool" where
  "await_beacon ops 0 pid deadline = out_of_fuel"
| "await_beacon ops (Suc fuel) pid deadline =
     and_then (in_world (\<lambda>w. apsnd (map_sum (registry_error_text ops) id) (list_sessions (co_registry ops w) w))) (\<lambda>sessions.
       case find (\<lambda>b. sb_pid b = pid) sessions of
         Some b \<Rightarrow> yields (Some b)
       | None \<Rightarrow> (\<lambda>s.
           if co_instant ops (mc_world s) \<ge> deadline then (s, Done None)
           else await_beacon ops fuel pid deadline (s\<lparr>mc_world := co_sleep ops 200 (mc_world s)\<rparr>)))"

definition serve_arguments :: "string \<Rightarrow> json_value \<Rightarrow> string list" where
  "serve_arguments project arguments =
     [''serve'', project] @
     (case get_u64 arguments ''port'' of Some port \<Rightarrow> [''--port'', u64_text port] | None \<Rightarrow> []) @
     (case get_str arguments ''autoConnect'' of Some policy \<Rightarrow> [''--auto-connect'', policy] | None \<Rightarrow> [])"

definition started_hint :: "bool \<Rightarrow> string" where
  "started_hint scanned =
     (if scanned
      then ''The server is listening, but Studio is not necessarily connected. Call '' @
           ''roxo_wait_for_studio to confirm before relying on the sync.''
      else ''The server is listening on a port outside the Studio plugin's default scan '' @
           ''ranges. A current plugin still finds it through any other Roxo session '' @
           ''inside them; otherwise restart it on a port inside them. Call '' @
           ''roxo_wait_for_studio to confirm.'')"

definition remember_child :: "u16 \<Rightarrow> u32 \<Rightarrow> ('w, unit) tool" where
  "remember_child port pid = (\<lambda>s. (s\<lparr>mc_spawned := hm_insert port pid (mc_spawned s)\<rparr>, Done ()))"

definition start_result :: "'w mcp_ops \<Rightarrow> string \<Rightarrow> u32 \<Rightarrow> beacon option \<Rightarrow> ('w, json_value) tool" where
  "start_result ops project pid found =
     (case found of
        Some b \<Rightarrow>
          and_then (remember_child (sb_port b) pid) (\<lambda>_.
          and_then (of_panicking (mo_beacon_to_value ops b)) (\<lambda>session.
            let scanned = in_scan_range (sb_port b)
            in yields (jobj [(''started'', JBool True), (''session'', session),
                 (''inPluginScanRange'', JBool scanned), (''hint'', JString (started_hint scanned))])))
      | None \<Rightarrow>
          and_then (ignoring (kill_child ops pid)) (\<lambda>_.
          and_then (ignoring (wait_child ops pid)) (\<lambda>_.
            fails (''The server for '' @ [CHR 0x27] @ project @ [CHR 0x27] @ '' did not start within '' @
              decimal SERVE_START_TIMEOUT @ ''s. The project may have failed to '' @
              ''load, or the port may already be in use. Run `roxo serve` on it directly to '' @
              ''see the error.''))))"

definition start_deadline :: "'w mcp_ops \<Rightarrow> ('w, nat) tool" where
  "start_deadline ops = (\<lambda>s. of_panicking (add_secs (co_instant ops (mc_world s)) SERVE_START_TIMEOUT) s)"

definition tool_serve_start :: "'w mcp_ops \<Rightarrow> nat \<Rightarrow> json_value \<Rightarrow> ('w, json_value) tool" where
  "tool_serve_start ops fuel arguments =
     and_then (required (json_get arguments ''project'') ''project'' as_str) (\<lambda>project.
     and_then (of_result (mo_current_exe ops)) (\<lambda>exe.
     and_then (spawn_child ops (exe # serve_arguments project arguments)) (\<lambda>pid.
     and_then (start_deadline ops) (\<lambda>deadline.
     and_then (await_beacon ops fuel pid deadline) (start_result ops project pid)))))"

definition take_child :: "u16 \<Rightarrow> ('w, u32 option) tool" where
  "take_child port = (\<lambda>s. (s\<lparr>mc_spawned := hm_remove port (mc_spawned s)\<rparr>, Done (hm_get (mc_spawned s) port)))"

definition stop_taken :: "'w mcp_ops \<Rightarrow> u16 \<Rightarrow> u32 option \<Rightarrow> ('w, json_value) tool" where
  "stop_taken ops port child =
     (case child of
        Some pid \<Rightarrow>
          and_then (kill_child ops pid) (\<lambda>_.
          and_then (wait_child ops pid) (\<lambda>_.
            yields (jobj [(''stopped'', JBool True), (''port'', JNumber (PosInt (ucast port)))])))
      | None \<Rightarrow>
          fails (''No serve session on port '' @ u16_text port @ '' was started by this MCP server. Only sessions '' @
            ''started with roxo_serve_start can be stopped here.''))"

definition tool_serve_stop :: "'w mcp_ops \<Rightarrow> json_value \<Rightarrow> ('w, json_value) tool" where
  "tool_serve_stop ops arguments =
     and_then (required (json_get arguments ''port'') ''port'' as_u64) (\<lambda>number.
       and_then (take_child (ucast number)) (stop_taken ops (ucast number)))"

definition failure_text :: "string \<Rightarrow> command_output \<Rightarrow> string" where
  "failure_text headline r = headline @ [CHR 0x0A] @ trim (from_utf8_lossy (out_stderr r))"

definition tool_build :: "'w mcp_ops \<Rightarrow> json_value \<Rightarrow> ('w, json_value) tool" where
  "tool_build ops arguments =
     and_then (required (json_get arguments ''project'') ''project'' as_str) (\<lambda>project.
     and_then (required (json_get arguments ''output'') ''output'' as_str) (\<lambda>output_path.
     and_then (of_result (mo_current_exe ops)) (\<lambda>exe.
     and_then (run_command ops [exe, ''build'', project, ''--output'', output_path]) (\<lambda>r.
       if \<not> out_success r then fails (failure_text ''Build failed:'' r)
       else yields (jobj [(''built'', JBool True), (''output'', JString output_path)])))))"

definition tool_sourcemap :: "'w mcp_ops \<Rightarrow> json_value \<Rightarrow> ('w, json_value) tool" where
  "tool_sourcemap ops arguments =
     and_then (required (json_get arguments ''project'') ''project'' as_str) (\<lambda>project.
     and_then (of_result (mo_current_exe ops)) (\<lambda>exe.
     and_then (run_command ops ([exe, ''sourcemap'', project] @
         (if unwrap_or True (get_bool arguments ''includeScriptPaths'') then [''--include-non-scripts''] else []))) (\<lambda>r.
       if \<not> out_success r then fails (failure_text ''Sourcemap generation failed:'' r)
       else of_result (mo_parse ops (out_stdout r)))))"


section \<open>The list of tools\<close>

definition described :: "string \<Rightarrow> string \<Rightarrow> json_value" where
  "described ty description = jobj [(''type'', JString ty), (''description'', JString description)]"

definition port_property :: json_value where
  "port_property = described ''integer'' ''Port of the serve session. Only required when more than one session is running.''"

definition project_property :: json_value where
  "project_property = described ''string'' ''Path to the project, as an alternative to port.''"

definition tool_definition :: "string \<Rightarrow> string \<Rightarrow> (string \<times> json_value) list \<Rightarrow> string list \<Rightarrow> json_value" where
  "tool_definition name description properties needed =
     jobj [(''name'', JString name), (''description'', JString description),
       (''inputSchema'', jobj ([(''type'', JString ''object''), (''properties'', jobj properties)] @
          (if needed = [] then [] else [(''required'', JArray (map JString needed))])))]"

definition reading_tools :: "json_value list" where
  "reading_tools =
     [tool_definition ''roxo_sessions''
        (''List the Roxo serve sessions running on this machine, with the project each '' @
         ''one serves and where it lives on disk.'') [] [],
      tool_definition ''roxo_status''
        (''Report a serve session's state: whether Studio is actually connected, which '' @
         ''Studio places probed it recently, and a `diagnosis` with `state` '' @
         ''(connected, declined, ambiguous, probed, not-probed), a `fix`, and when '' @
         ''useful a `projectFileChange`. Check this before assuming file changes '' @
         ''reached Studio.'')
        [(''port'', port_property), (''project'', project_property)] [],
      tool_definition ''roxo_wait_for_studio''
        (''Block until a Studio client attaches to a serve session. Returns the status '' @
         ''once connected. Fails early when a Studio place reports that it declined '' @
         ''the session, and on timeout, in both cases with a `diagnosis` saying why '' @
         ''and how to fix it. Use after roxo_serve_start.'')
        [(''port'', port_property), (''project'', project_property),
         (''failFast'', described ''boolean''
            (''Return as soon as a place declines the session instead of '' @
             ''waiting out the timeout. Defaults to true.'')),
         (''timeoutSeconds'', described ''integer'' ''How long to wait before giving up. Defaults to 60.'')] []]"

definition steering_tools :: "json_value list" where
  "steering_tools =
     [tool_definition ''roxo_serve_start''
        (''Start a serve session for a project so Studio can sync with it. Returns once the '' @
         ''server is listening. The session stops when this MCP server exits.'')
        [(''project'', described ''string'' ''Path to the project directory or .project.json file to serve.''),
         (''port'', described ''integer'' ''Port to listen on. Defaults to the project's preference.''),
         (''autoConnect'', jobj [(''type'', JString ''string''),
            (''enum'', JArray [JString ''off'', JString ''matching'', JString ''always'']),
            (''description'', JString
              (''Auto-connect policy. 'matching' only lets places this project proves '' @
               ''it belongs to connect unattended. Use 'always' only for unpublished '' @
               ''places, which have no place ID to match against.''))])] [''project''],
      tool_definition ''roxo_serve_stop'' ''Stop a serve session that this MCP server started.''
        [(''port'', port_property)] [''port''],
      tool_definition ''roxo_build'' ''Build a project into a place or model file without needing Studio open.''
        [(''project'', described ''string'' ''Path to the project.''),
         (''output'', described ''string'' ''Path of the file to write.'')] [''project'', ''output''],
      tool_definition ''roxo_sourcemap''
        (''Generate a sourcemap describing how files map onto Roblox instances. Use it to '' @
         ''translate an instance path into the file that defines it.'')
        [(''project'', described ''string'' ''Path to the project.''),
         (''includeScriptPaths'', described ''boolean'' ''Include file paths for scripts. Defaults to true.'')] [''project'']]"

definition tool_definitions :: "bool \<Rightarrow> json_value list" where
  "tool_definitions read_only = (if read_only then reading_tools else reading_tools @ steering_tools)"


section \<open>Requests\<close>

text \<open>A tool that fails is reported through the result.\<close>

definition as_result :: "('w, 'a) tool \<Rightarrow> (string \<Rightarrow> 'a \<Rightarrow> json_value) \<Rightarrow>
    ('w mcp_server, rpc_error, json_value) action" where
  "as_result m f = (\<lambda>s.
     case m s of
       (s', Done v) \<Rightarrow> (s', Done (f (mc_protocol_version s') v))
     | (s', Failed err) \<Rightarrow> (s', Done (tool_error err))
     | (s', Panics) \<Rightarrow> (s', Panics)
     | (s', OutOfFuel) \<Rightarrow> (s', OutOfFuel))"

definition READ_ONLY_TOOLS :: "string list" where
  "READ_ONLY_TOOLS = [''roxo_sessions'', ''roxo_status'', ''roxo_wait_for_studio'']"

definition tool_named :: "'w mcp_ops \<Rightarrow> nat \<Rightarrow> string \<Rightarrow> json_value \<Rightarrow> ('w, json_value) tool option" where
  "tool_named ops fuel name arguments =
     (if name = ''roxo_sessions'' then Some (tool_sessions ops)
      else if name = ''roxo_status'' then Some (tool_status ops arguments)
      else if name = ''roxo_serve_start'' then Some (tool_serve_start ops fuel arguments)
      else if name = ''roxo_serve_stop'' then Some (tool_serve_stop ops arguments)
      else if name = ''roxo_build'' then Some (tool_build ops arguments)
      else if name = ''roxo_sourcemap'' then Some (tool_sourcemap ops arguments)
      else None)"

definition call_tool :: "'w mcp_ops \<Rightarrow> nat \<Rightarrow> json_value \<Rightarrow> ('w mcp_server, rpc_error, json_value) action" where
  "call_tool ops fuel params =
     (case get_str params ''name'' of
        None \<Rightarrow> fails (invalid_params ''Missing tool name'')
      | Some name \<Rightarrow>
          (let arguments = unwrap_or (jobj []) (json_get params ''arguments'')
           in (\<lambda>s.
             if mc_read_only s \<and> name \<notin> set READ_ONLY_TOOLS
             then (s, Done (tool_error ([CHR 0x27] @ name @ [CHR 0x27] @
               '' is unavailable because this Roxo MCP server was started with --read-only.'')))
             else if name = ''roxo_wait_for_studio''
             then as_result (tool_wait_for_studio ops fuel arguments)
               (\<lambda>version (v, is_connected). tool_result ops version v (\<not> is_connected)) s
             else case tool_named ops fuel name arguments of
               Some tool \<Rightarrow> as_result tool (\<lambda>version v. tool_result ops version v False) s
             | None \<Rightarrow> (s, Failed (invalid_params (''Unknown tool '' @ [CHR 0x27] @ name @ [CHR 0x27]))))))"

definition INSTRUCTIONS :: string where
  "INSTRUCTIONS =
     ''Roxo syncs a filesystem project into Roblox Studio. The usual loop is: '' @
     ''roxo_sessions to see what is running, roxo_serve_start if nothing serves the '' @
     ''project, then roxo_wait_for_studio. A running server does not imply a connected '' @
     ''editor, so check roxo_status before assuming a file change reached Studio. '' @
     ''When Studio is not connected, the `diagnosis` in those results says why '' @
     ''(nothing probed the port, or a place probed and declined) and gives the fix, '' @
     ''including the exact project-file change when one would help. Roxo never '' @
     ''connects a place the project does not identify, so do not apply a suggested '' @
     ''servePlaceIds change unless the place really belongs to the project.''"

definition agreed_version :: "json_value \<Rightarrow> string" where
  "agreed_version params =
     (let requested = unwrap_or LATEST_PROTOCOL_VERSION (get_str params ''protocolVersion'')
      in if requested \<in> set SUPPORTED_PROTOCOL_VERSIONS then requested else LATEST_PROTOCOL_VERSION)"

definition initialize :: "json_value \<Rightarrow> 'w mcp_server \<Rightarrow> 'w mcp_server \<times> json_value" where
  "initialize params s =
     (s\<lparr>mc_protocol_version := agreed_version params\<rparr>,
      jobj [(''protocolVersion'', JString (agreed_version params)),
        (''capabilities'', jobj [(''tools'', jobj [(''listChanged'', JBool False)])]),
        (''serverInfo'', jobj [(''name'', JString ''roxo''), (''version'', JString SERVER_VERSION)]),
        (''instructions'', JString INSTRUCTIONS)])"

definition dispatch :: "'w mcp_ops \<Rightarrow> nat \<Rightarrow> string \<Rightarrow> json_value \<Rightarrow>
    ('w mcp_server, rpc_error, json_value option) action" where
  "dispatch ops fuel method params =
     (if method = ''initialize'' then (\<lambda>s. apsnd (Done \<circ> Some) (initialize params s))
      else if method = ''ping'' then yields (Some (jobj []))
      else if method = ''tools/list''
      then (\<lambda>s. (s, Done (Some (jobj [(''tools'', JArray (tool_definitions (mc_read_only s)))]))))
      else if method = ''tools/call'' then and_then (call_tool ops fuel params) (yields \<circ> Some)
      else if method \<in> {''notifications/initialized'', ''notifications/cancelled''} then yields None
      else if method = ''resources/list'' then yields (Some (jobj [(''resources'', JArray [])]))
      else if method = ''prompts/list'' then yields (Some (jobj [(''prompts'', JArray [])]))
      else fails (method_not_found method))"

definition rpc_reply :: "json_value \<Rightarrow> (string \<times> json_value) \<Rightarrow> json_value" where
  "rpc_reply request_id content = jobj [(''jsonrpc'', JString ''2.0''), (''id'', request_id), content]"

definition rpc_failure :: "int \<Rightarrow> string \<Rightarrow> string \<times> json_value" where
  "rpc_failure code message =
     (''error'', jobj [(''code'', JNumber (NegInt (word_of_int code))), (''message'', JString message)])"

definition respond :: "'w mcp_ops \<Rightarrow> json_value \<Rightarrow> ('w, unit) tool" where
  "respond ops v = and_then (in_world (mo_write ops v)) (\<lambda>_ s. (s\<lparr>mc_sent := mc_sent s @ [v]\<rparr>, Done ()))"

definition serve_request :: "'w mcp_ops \<Rightarrow> nat \<Rightarrow> json_value \<Rightarrow> ('w, unit) tool" where
  "serve_request ops fuel request = (\<lambda>s.
     let request_id = json_get request ''id'';
         answered = (\<lambda>content s. case request_id of None \<Rightarrow> (s, Done ()) | Some i \<Rightarrow> respond ops (rpc_reply i content) s)
     in case dispatch ops fuel (unwrap_or [] (get_str request ''method'')) (unwrap_or JNull (json_get request ''params'')) s of
          (s', Done (Some v)) \<Rightarrow> answered (''result'', v) s'
        | (s', Done None) \<Rightarrow> answered (''result'', jobj []) s'
        | (s', Failed err) \<Rightarrow> answered (rpc_failure (rpc_code err) (rpc_message err)) s'
        | (s', Panics) \<Rightarrow> (s', Panics)
        | (s', OutOfFuel) \<Rightarrow> (s', OutOfFuel))"

definition serve_line :: "'w mcp_ops \<Rightarrow> nat \<Rightarrow> string \<Rightarrow> ('w, unit) tool" where
  "serve_line ops fuel line =
     (if trim line = [] then yields ()
      else case mo_parse ops line of
        Inl err \<Rightarrow> respond ops (rpc_reply JNull (rpc_failure (-32700) (''Parse error: '' @ err)))
      | Inr request \<Rightarrow> serve_request ops fuel request)"

text \<open>A line of input that cannot be read is an error.\<close>

fun serve_lines :: "'w mcp_ops \<Rightarrow> nat \<Rightarrow> (string + string) list \<Rightarrow> ('w, unit) tool" where
  "serve_lines ops fuel [] = yields ()"
| "serve_lines ops fuel (line # lines) =
     and_then (of_result line) (\<lambda>text. and_then (serve_line ops fuel text) (\<lambda>_. serve_lines ops fuel lines))"

definition stop_child :: "'w mcp_ops \<Rightarrow> u32 \<Rightarrow> ('w, unit) tool" where
  "stop_child ops pid = and_then (ignoring (kill_child ops pid)) (\<lambda>_. ignoring (wait_child ops pid))"

definition stop_all :: "'w mcp_ops \<Rightarrow> ('w, unit) tool" where
  "stop_all ops =
     and_then (\<lambda>s. for_each (\<lambda>(port, pid). stop_child ops pid) (mc_spawned s) s)
       (\<lambda>_ s. (s\<lparr>mc_spawned := []\<rparr>, Done ()))"

definition serve :: "'w mcp_ops \<Rightarrow> nat \<Rightarrow> (string + string) list \<Rightarrow> ('w, unit) tool" where
  "serve ops fuel lines = and_then (serve_lines ops fuel lines) (\<lambda>_. stop_all ops)"

text \<open>The command: whether \<open>serve\<close> returns or fails, the server is dropped, which stops what is left.\<close>

definition mcp_run :: "'w mcp_ops \<Rightarrow> nat \<Rightarrow> bool \<Rightarrow> (string + string) list \<Rightarrow> 'w \<Rightarrow>
    'w mcp_server \<times> (string, unit) outcome" where
  "mcp_run ops fuel read_only lines w =
     (case serve ops fuel lines (mcp_new read_only w) of
        (s, Done _) \<Rightarrow> (fst (stop_all ops s), Done ())
      | (s, Failed err) \<Rightarrow> (fst (stop_all ops s), Failed err)
      | (s, r) \<Rightarrow> (s, r))"

end
