(* ===== verification/Mcp_Properties.thy ===== *)
theory Mcp_Properties
  imports Mcp_Server
begin

text \<open>
  What holds of the server for agents: what a read-only server asks of the operating system, which
  processes are killed, which requests are answered, and when a wait ends.  An invariant of the server
  is an interpretation of one of the locales below, which carry it through the tools and the loop.
\<close>

section \<open>Invariants of actions\<close>

text \<open>The action keeps the invariant, and its result satisfies \<open>Q\<close>.\<close>

definition keeps :: "('s \<Rightarrow> bool) \<Rightarrow> ('s, 'e, 'a) action \<Rightarrow> ('a \<Rightarrow> 's \<Rightarrow> bool) \<Rightarrow> bool" where
  "keeps I m Q \<longleftrightarrow> (\<forall>s. I s \<longrightarrow> I (fst (m s)) \<and> (\<forall>x. snd (m s) = Done x \<longrightarrow> Q x (fst (m s))))"

abbreviation keeps_only :: "('s \<Rightarrow> bool) \<Rightarrow> ('s, 'e, 'a) action \<Rightarrow> bool" where
  "keeps_only I m \<equiv> keeps I m (\<lambda>_ _. True)"

lemma keepsI: "(\<And>s. I s \<Longrightarrow> I (fst (m s)) \<and> (\<forall>x. snd (m s) = Done x \<longrightarrow> Q x (fst (m s)))) \<Longrightarrow> keeps I m Q"
  by (simp add: keeps_def)

lemma keepsD: "keeps I m Q \<Longrightarrow> I s \<Longrightarrow> I (fst (m s))"
  by (simp add: keeps_def)

lemma keeps_result: "keeps I m Q \<Longrightarrow> I s \<Longrightarrow> m s = (s', r) \<Longrightarrow> I s'"
  by (metis fst_conv keepsD)

lemma keeps_and_then:
  assumes "keeps I m Q" and "\<And>x. keeps (\<lambda>s. I s \<and> Q x s) (f x) (\<lambda>y s. R y s)"
  shows "keeps I (and_then m f) R"
proof (rule keepsI)
  fix s
  assume s: "I s"
  obtain s1 r where m: "m s = (s1, r)" by fastforce
  have "I s1" "\<And>x. r = Done x \<Longrightarrow> Q x s1" using assms(1) s m by (auto simp: keeps_def dest!: spec [of _ s])
  then show "I (fst (and_then m f s)) \<and> (\<forall>y. snd (and_then m f s) = Done y \<longrightarrow> R y (fst (and_then m f s)))"
    using assms(2) m by (cases r) (auto simp: and_then_def keeps_def)
qed

lemma keeps_then:
  "keeps_only I m \<Longrightarrow> (\<And>x. keeps_only I (f x)) \<Longrightarrow> keeps_only I (and_then m f)"
  by (rule keeps_and_then [where Q = "\<lambda>_ _. True"]) simp_all

lemma keeps_basic [intro]:
  "keeps_only I (yields x)" "keeps_only I (fails e)" "keeps_only I panics" "keeps_only I out_of_fuel"
  "keeps_only I (of_result r)" "keeps_only I (of_panicking p)" "keeps_only I (\<lambda>s. (s, g s))"
  by (auto simp: keeps_def yields_def fails_def panics_def out_of_fuel_def of_result_def of_panicking_def
      split: sum.splits option.splits)

lemma keeps_weaken: "keeps I m Q \<Longrightarrow> keeps_only I m"
  by (simp add: keeps_def)

lemma keeps_conj: "keeps_only I m \<Longrightarrow> keeps_only J m \<Longrightarrow> keeps_only (\<lambda>s. I s \<and> J s) m"
  by (simp add: keeps_def)

lemma keeps_ignoring: "keeps_only I m \<Longrightarrow> keeps_only I (ignoring m)"
  by (auto simp: keeps_def ignoring_def split: prod.splits outcome.splits)

lemma keeps_required [intro]: "keeps_only I (required found name conv)"
  by (auto simp: required_def split: option.split)

lemma keeps_as_result: "keeps_only I m \<Longrightarrow> keeps_only I (as_result m f)"
  by (auto simp: keeps_def as_result_def split: prod.splits outcome.splits)

lemma keeps_deadline: "keeps_only I (start_deadline ops)"
  by (auto simp: keeps_def start_deadline_def of_panicking_def yields_def panics_def split: option.split)

lemma keeps_for_each: "(\<And>x. x \<in> set xs \<Longrightarrow> keeps_only I (m x)) \<Longrightarrow> keeps_only I (for_each m xs)"
  by (induction xs) (auto intro!: keeps_then)


section \<open>What the tools keep\<close>

text \<open>Reading: the world moves on and a version is agreed.\<close>

locale reading_invariant =
  fixes I :: "'w mcp_server \<Rightarrow> bool"
  assumes world_step: "I s \<Longrightarrow> I (s\<lparr>mc_world := w\<rparr>)"
    and version_step: "I s \<Longrightarrow> I (s\<lparr>mc_protocol_version := v\<rparr>)"
begin

lemma in_world_keeps [intro]: "keeps_only I (in_world f)"
  by (auto simp: keeps_def in_world_def of_result_def yields_def fails_def world_step split: prod.split sum.split)

lemma wait_polls_keeps:
  "keeps_only I (wait_polls ops fuel port project timeout fail_fast started_at deadline last_error last_report)"
proof (induction fuel arbitrary: last_error last_report)
  case (Suc fuel)
  then show ?case
    by (auto simp: keeps_def Let_def world_step split: prod.split sum.split outcome.split)
qed auto

lemma wait_keeps: "keeps_only I (tool_wait_for_studio ops fuel arguments)"
  using wait_polls_keeps by (auto simp: tool_wait_for_studio_def Let_def keeps_def split: option.split)

lemma sessions_keeps: "keeps_only I (tool_sessions ops)"
  unfolding tool_sessions_def by (intro keeps_then) (auto intro: keeps_then)

lemma status_keeps: "keeps_only I (tool_status ops arguments)"
  unfolding tool_status_def by (intro keeps_then) auto

lemmas reading_keeps = wait_keeps sessions_keeps status_keeps

lemma initialize_keeps: "I s \<Longrightarrow> I (fst (initialize params s))"
  by (simp add: initialize_def version_step)

lemma read_only_call_keeps:
  assumes "\<And>s. I s \<Longrightarrow> mc_read_only s"
  shows "keeps_only I (call_tool ops fuel params)"
proof (rule keepsI)
  fix s
  assume s: "I s"
  show "I (fst (call_tool ops fuel params s)) \<and>
      (\<forall>x. snd (call_tool ops fuel params s) = Done x \<longrightarrow> True)"
    using s assms [OF s] keepsD [OF keeps_as_result [OF wait_keeps] s] keepsD [OF keeps_as_result [OF sessions_keeps] s]
      keepsD [OF keeps_as_result [OF status_keeps] s]
    by (auto simp: call_tool_def READ_ONLY_TOOLS_def tool_named_def Let_def fails_def split: option.split)
qed

lemma dispatch_keeps:
  assumes "keeps_only I (call_tool ops fuel params)"
  shows "keeps_only I (dispatch ops fuel method params)"
  using assms keeps_then [OF assms, of "\<lambda>v. yields (Some v)"] initialize_keeps
  by (auto simp: dispatch_def keeps_def yields_def fails_def comp_def)

end

text \<open>With what is written besides, the loop over the lines.\<close>

locale answering_invariant = reading_invariant +
  assumes sent_step: "I s \<Longrightarrow> I (s\<lparr>mc_sent := mc_sent s @ [v]\<rparr>)"
    and call_step: "keeps_only I (call_tool ops fuel params)"
begin

lemma respond_keeps: "keeps_only I (respond ops v)"
  unfolding respond_def by (intro keeps_then in_world_keeps) (auto simp: keeps_def sent_step)

lemma request_keeps: "keeps_only I (serve_request ops fuel request)"
proof (rule keepsI)
  fix s
  assume s: "I s"
  let ?m = "dispatch ops fuel (unwrap_or [] (get_str request ''method'')) (unwrap_or JNull (json_get request ''params''))"
  obtain s' r where m: "?m s = (s', r)" by fastforce
  have "I s'" using keepsD [OF dispatch_keeps [OF call_step] s] m by (metis fst_conv)
  then show "I (fst (serve_request ops fuel request s)) \<and>
      (\<forall>x. snd (serve_request ops fuel request s) = Done x \<longrightarrow> True)"
    using m respond_keeps
    by (auto simp: serve_request_def Let_def keeps_def split: outcome.split option.split)
qed

lemma line_keeps: "keeps_only I (serve_line ops fuel line)"
  using respond_keeps request_keeps by (auto simp: serve_line_def split: sum.split)

lemma lines_keep: "keeps_only I (serve_lines ops fuel lines)"
  by (induction lines) (auto intro!: keeps_then line_keeps)

end

text \<open>Steering: processes start, and those that were started are remembered and killed.  What is known to
  have been started stays known.\<close>

definition started :: "('w mcp_server \<Rightarrow> bool) \<Rightarrow> u32 \<Rightarrow> 'w mcp_server \<Rightarrow> bool" where
  "started I pid s \<longleftrightarrow> I s \<and> Spawned pid \<in> set (mc_asked s)"

locale steering_invariant = reading_invariant +
  assumes spawned_step: "I s \<Longrightarrow> I (s\<lparr>mc_asked := mc_asked s @ [Spawned pid]\<rparr>)"
    and ran_step: "I s \<Longrightarrow> I (s\<lparr>mc_asked := mc_asked s @ [Ran arguments]\<rparr>)"
    and killed_step: "I s \<Longrightarrow> Spawned pid \<in> set (mc_asked s) \<Longrightarrow> I (s\<lparr>mc_asked := mc_asked s @ [Killed pid]\<rparr>)"
    and remember_step: "I s \<Longrightarrow> Spawned pid \<in> set (mc_asked s) \<Longrightarrow> I (s\<lparr>mc_spawned := hm_insert port pid (mc_spawned s)\<rparr>)"
    and take_step: "I s \<Longrightarrow> I (s\<lparr>mc_spawned := hm_remove port (mc_spawned s)\<rparr>)"
    and children_known: "I s \<Longrightarrow> (port, pid) \<in> set (mc_spawned s) \<Longrightarrow> Spawned pid \<in> set (mc_asked s)"
begin

lemma started_reading: "reading_invariant (started I pid)"
  by unfold_locales (auto simp: started_def world_step version_step)

lemma spawn_keeps: "keeps I (spawn_child ops arguments) (\<lambda>pid s. Spawned pid \<in> set (mc_asked s))"
  unfolding spawn_child_def
  by (rule keeps_and_then [where Q = "\<lambda>_ _. True"])
    (auto simp: keeps_def and_then_def asks_def yields_def spawned_step in_world_def of_result_def fails_def world_step
      split: prod.split sum.split)

lemma kill_keeps: "keeps_only (started I pid) (kill_child ops pid)"
  unfolding kill_child_def
  by (intro keeps_then reading_invariant.in_world_keeps [OF started_reading])
    (auto simp: keeps_def asks_def started_def killed_step)

lemma wait_child_keeps: "keeps_only I (wait_child ops pid)"
  by (auto simp: wait_child_def)

lemma stop_keeps: "keeps_only (started I pid) (stop_child ops pid)"
  unfolding stop_child_def wait_child_def
  by (intro keeps_then keeps_ignoring kill_keeps reading_invariant.in_world_keeps [OF started_reading])

lemma run_command_keeps: "keeps_only I (run_command ops arguments)"
  unfolding run_command_def by (intro keeps_then in_world_keeps) (auto simp: keeps_def asks_def ran_step)

lemma await_keeps: "keeps_only (started I pid) (await_beacon ops fuel pid deadline)"
proof (induction fuel)
  case (Suc fuel)
  then show ?case
    using reading_invariant.world_step [OF started_reading]
    by (simp, intro keeps_then reading_invariant.in_world_keeps [OF started_reading])
      (auto simp: keeps_def yields_def split: option.split)
qed auto

lemma started_keeps: "keeps_only (started I pid) m \<Longrightarrow> keeps (\<lambda>s. I s \<and> Spawned pid \<in> set (mc_asked s)) m (\<lambda>_ _. True)"
  by (simp add: started_def [abs_def])

lemma remember_keeps: "keeps_only (started I pid) (remember_child port pid)"
  by (auto simp: keeps_def remember_child_def started_def remember_step)

lemma start_result_keeps: "keeps_only (started I pid) (start_result ops project pid found)"
  unfolding start_result_def wait_child_def
  by (auto intro!: keeps_then remember_keeps keeps_ignoring kill_keeps reading_invariant.in_world_keeps [OF started_reading]
      simp: Let_def split: option.split)

lemma start_keeps: "keeps_only I (tool_serve_start ops fuel arguments)"
  unfolding tool_serve_start_def
  by (rule keeps_then [OF keeps_required], rule keeps_then [OF keeps_basic(5)],
      rule keeps_and_then [OF spawn_keeps], rule started_keeps,
      intro keeps_then keeps_deadline await_keeps start_result_keeps)

lemma take_keeps: "keeps I (take_child port) (\<lambda>child s. \<forall>pid. child = Some pid \<longrightarrow> Spawned pid \<in> set (mc_asked s))"
  by (auto simp: keeps_def take_child_def take_step dest: children_known [OF _ map_of_SomeD])

lemma stop_taken_keeps: "keeps_only (\<lambda>s. I s \<and> (\<forall>pid. child = Some pid \<longrightarrow> Spawned pid \<in> set (mc_asked s))) (stop_taken ops port child)"
proof (cases child)
  case (Some pid)
  have "keeps_only (started I pid) (stop_taken ops port (Some pid))"
    unfolding stop_taken_def wait_child_def
    by (auto intro!: keeps_then kill_keeps reading_invariant.in_world_keeps [OF started_reading])
  then show ?thesis using Some by (simp add: started_def [abs_def])
qed (auto simp: stop_taken_def)

lemma stop_tool_keeps: "keeps_only I (tool_serve_stop ops arguments)"
  unfolding tool_serve_stop_def
  by (rule keeps_then [OF keeps_required], rule keeps_and_then [OF take_keeps], rule stop_taken_keeps)

lemma build_keeps: "keeps_only I (tool_build ops arguments)"
  unfolding tool_build_def by (intro keeps_then keeps_required run_command_keeps) (auto simp: Let_def)

lemma sourcemap_keeps: "keeps_only I (tool_sourcemap ops arguments)"
  unfolding tool_sourcemap_def by (intro keeps_then keeps_required run_command_keeps) (auto simp: Let_def)

lemma call_keeps: "keeps_only I (call_tool ops fuel params)"
proof -
  have "keeps_only I tool" if "tool_named ops fuel name arguments = Some tool" for name arguments tool
    using that sessions_keeps status_keeps start_keeps stop_tool_keeps build_keeps sourcemap_keeps
    by (auto simp: tool_named_def split: if_splits)
  note named = keeps_as_result [OF this]
  show ?thesis
  proof (rule keepsI)
    fix s
    assume s: "I s"
    show "I (fst (call_tool ops fuel params s)) \<and> (\<forall>x. snd (call_tool ops fuel params s) = Done x \<longrightarrow> True)"
      using s keepsD [OF keeps_as_result [OF wait_keeps] s] keepsD [OF named s]
      by (auto simp: call_tool_def Let_def fails_def split: option.split)
  qed
qed

end

text \<open>A whole run, which ends with stopping the children.\<close>

locale serving_invariant = steering_invariant +
  assumes write_step: "I s \<Longrightarrow> I (s\<lparr>mc_sent := mc_sent s @ [v]\<rparr>)"
    and forget_step: "I s \<Longrightarrow> I (s\<lparr>mc_spawned := []\<rparr>)"

sublocale serving_invariant \<subseteq> answering_invariant
  by unfold_locales (auto intro: write_step call_keeps)

context serving_invariant begin

lemma stop_children_keeps:
  assumes "I s" and "\<forall>(port, pid) \<in> set children. Spawned pid \<in> set (mc_asked s)"
  shows "I (fst (for_each (\<lambda>(port, pid). stop_child ops pid) children s))"
proof -
  let ?J = "\<lambda>s. I s \<and> (\<forall>(port, pid) \<in> set children. Spawned pid \<in> set (mc_asked s))"
  have "reading_invariant ?J" by unfold_locales (auto simp: world_step version_step)
  note reads = reading_invariant.in_world_keeps [OF this]
  have "keeps_only ?J (kill_child ops pid)" if "(port, pid) \<in> set children" for port pid
    unfolding kill_child_def
    by (intro keeps_then reads) (use that in \<open>auto simp: keeps_def asks_def killed_step\<close>)
  then have "keeps_only ?J (for_each (\<lambda>(port, pid). stop_child ops pid) children)"
    by (intro keeps_for_each) (auto simp: stop_child_def wait_child_def intro!: keeps_then keeps_ignoring reads)
  from keepsD [OF this, of s] assms show ?thesis by simp
qed

lemma stop_all_keeps: "keeps_only I (stop_all ops)"
proof (rule keepsI)
  fix s
  assume s: "I s"
  have "I (fst (for_each (\<lambda>(port, pid). stop_child ops pid) (mc_spawned s) s))"
    using stop_children_keeps [OF s] children_known [OF s] by auto
  then show "I (fst (stop_all ops s)) \<and> (\<forall>x. snd (stop_all ops s) = Done x \<longrightarrow> True)"
    by (auto simp: stop_all_def and_then_def forget_step split: prod.split outcome.split)
qed

lemma serve_keeps: "keeps_only I (serve ops fuel lines)"
  unfolding serve_def by (intro keeps_then lines_keep stop_all_keeps)

lemma run_keeps:
  assumes "I (mcp_new read_only w)"
  shows "I (fst (mcp_run ops fuel read_only lines w))"
proof -
  obtain s r where m: "serve ops fuel lines (mcp_new read_only w) = (s, r)" by fastforce
  have s: "I s" by (rule keeps_result [OF serve_keeps assms m])
  show ?thesis
    using s keepsD [OF stop_all_keeps s, of ops] by (cases r) (simp_all add: mcp_run_def m)
qed

end


section \<open>Properties\<close>

text \<open>Every kill follows the start of that process.\<close>

definition kills_follow_starts :: "os_request list \<Rightarrow> bool" where
  "kills_follow_starts asked \<longleftrightarrow>
     (\<forall>before pid after. asked = before @ Killed pid # after \<longrightarrow> Spawned pid \<in> set before)"

lemma kills_follow_snoc:
  "kills_follow_starts (asked @ [q]) \<longleftrightarrow>
     kills_follow_starts asked \<and> (\<forall>pid. q = Killed pid \<longrightarrow> Spawned pid \<in> set asked)"
proof
  assume *: "kills_follow_starts (asked @ [q])"
  then show "kills_follow_starts asked \<and> (\<forall>pid. q = Killed pid \<longrightarrow> Spawned pid \<in> set asked)"
    by (auto simp: kills_follow_starts_def)
next
  assume *: "kills_follow_starts asked \<and> (\<forall>pid. q = Killed pid \<longrightarrow> Spawned pid \<in> set asked)"
  show "kills_follow_starts (asked @ [q])"
    unfolding kills_follow_starts_def
  proof (intro allI impI)
    fix before pid after
    assume eq: "asked @ [q] = before @ Killed pid # after"
    show "Spawned pid \<in> set before"
    proof (cases after rule: rev_cases)
      case Nil
      then show ?thesis using eq * by simp
    next
      case (snoc rest y)
      then have "asked = before @ Killed pid # rest" using eq by (simp flip: append_Cons append_assoc)
      then show ?thesis using * by (auto simp: kills_follow_starts_def)
    qed
  qed
qed

definition children_started :: "'w mcp_server \<Rightarrow> bool" where
  "children_started s \<longleftrightarrow> kills_follow_starts (mc_asked s) \<and>
     (\<forall>(port, pid) \<in> set (mc_spawned s). Spawned pid \<in> set (mc_asked s))"

lemma set_hm_insert: "set (hm_insert k v m) \<subseteq> insert (k, v) (set m)"
  by (induction m) auto

interpretation children: serving_invariant children_started
proof unfold_locales
  show "children_started (s\<lparr>mc_spawned := hm_insert port pid (mc_spawned s)\<rparr>)"
    if "children_started s" "Spawned pid \<in> set (mc_asked s)" for s :: "'a mcp_server" and port pid
    using that set_hm_insert [of port pid "mc_spawned s"] by (auto simp: children_started_def)
  show "children_started (s\<lparr>mc_spawned := hm_remove port (mc_spawned s)\<rparr>)" if "children_started s" for s :: "'a mcp_server" and port
    using that by (auto simp: children_started_def AList.delete_eq)
qed (auto simp: children_started_def kills_follow_snoc)

text \<open>
  C8. The server kills no process but those it has started: in every run, whatever the requests are,
  each process that it asks the system to kill is one it started before.
\<close>

theorem only_started_processes_are_killed:
  "kills_follow_starts (mc_asked (fst (mcp_run ops fuel read_only lines w)))"
  using children.run_keeps [of read_only w ops fuel lines]
  by (simp add: children_started_def mcp_new_def kills_follow_starts_def)

definition observes :: "'w mcp_server \<Rightarrow> bool" where
  "observes s \<longleftrightarrow> mc_read_only s \<and> mc_spawned s = [] \<and> mc_asked s = []"

lemma observes_reading: "reading_invariant observes"
  by unfold_locales (simp_all add: observes_def)

lemma observes_calls: "keeps_only observes (call_tool ops fuel params)"
  by (rule reading_invariant.read_only_call_keeps [OF observes_reading]) (simp add: observes_def)

interpretation observer: answering_invariant observes
  by unfold_locales (use observes_calls in \<open>simp_all add: observes_def\<close>)

text \<open>
  C19. A server for reading starts, stops and runs nothing: whatever an agent sends, no process is
  started, killed or run to its end.
\<close>

theorem read_only_servers_ask_for_nothing:
  "mc_asked (fst (mcp_run ops fuel True lines w)) = []"
proof -
  have stops: "observes (fst (stop_all ops s))" if "observes s" for s
    using that by (simp add: observes_def stop_all_def and_then_def yields_def)
  have "keeps_only observes (serve ops fuel lines)"
    unfolding serve_def by (intro keeps_then observer.lines_keep) (simp add: keeps_def stops)
  moreover have "observes (mcp_new True w)" by (simp add: observes_def mcp_new_def)
  ultimately have served: "observes (fst (serve ops fuel lines (mcp_new True w)))" by (rule keepsD)
  obtain s r where m: "serve ops fuel lines (mcp_new True w) = (s, r)" by fastforce
  have "observes s" using served m by simp
  then show ?thesis using stops by (cases r) (auto simp: mcp_run_def m observes_def)
qed


section \<open>Replies\<close>

text \<open>The id that the reply to a line names, if the line is answered: a line that is no JSON gets null.\<close>

definition reply_id :: "'w mcp_ops \<Rightarrow> string \<Rightarrow> json_value option" where
  "reply_id ops line =
     (if trim line = [] then None
      else case mo_parse ops line of Inl _ \<Rightarrow> Some JNull | Inr request \<Rightarrow> json_get request ''id'')"

definition is_reply :: "json_value \<Rightarrow> json_value \<Rightarrow> bool" where
  "is_reply v i \<longleftrightarrow> json_get v ''id'' = Some i \<and> (json_get v ''result'' = None) \<noteq> (json_get v ''error'' = None)"

lemma json_get_object:
  "json_get (json_object members) k =
     fold (\<lambda>(k', v) found. if k = k' \<and> v \<noteq> None then v else found) members None"
proof -
  have "map_of (fold (\<lambda>(k, v) m. case v of Some v \<Rightarrow> btree_insert k v m | None \<Rightarrow> m) members m) k =
      fold (\<lambda>(k', v) found. if k = k' \<and> v \<noteq> None then v else found) members (map_of m k)" for m
    by (induction members arbitrary: m) (auto simp: map_of_btree_insert split: option.split)
  then show ?thesis by (simp add: json_get_def json_object_def)
qed

lemma is_reply_rpc: "k \<in> {''result'', ''error''} \<Longrightarrow> is_reply (rpc_reply i (k, v)) i"
  by (auto simp: is_reply_def rpc_reply_def jobj_def json_get_object)

lemma silent_calls:
  "steering_invariant (\<lambda>s. children_started s \<and> mc_sent s = sent)"
proof unfold_locales
qed (simp_all add: children.world_step children.version_step children.spawned_step children.ran_step children.killed_step
    children.remember_step children.take_step children.children_known)

lemma dispatch_silent:
  assumes "children_started s" and "dispatch ops fuel method params s = (s', r)"
  shows "children_started s' \<and> mc_sent s' = mc_sent s"
proof -
  note inv = silent_calls [of "mc_sent s"]
  have "keeps_only (\<lambda>t. children_started t \<and> mc_sent t = mc_sent s) (dispatch ops fuel method params)"
    by (rule reading_invariant.dispatch_keeps [OF steering_invariant.axioms(1) [OF inv]],
        rule steering_invariant.call_keeps [OF inv])
  from keeps_result [OF this _ assms(2)] assms(1) show ?thesis by simp
qed

lemma respond_sends: "respond ops v s = (s', Done ()) \<Longrightarrow> mc_sent s' = mc_sent s @ [v]"
  by (auto simp: respond_def and_then_def in_world_def of_result_def yields_def fails_def split: prod.splits sum.splits)

lemma line_replies:
  assumes "children_started s" and "serve_line ops fuel line s = (s', Done ())"
  shows "children_started s' \<and> (\<exists>replies. mc_sent s' = mc_sent s @ replies \<and>
    list_all2 is_reply replies (case reply_id ops line of None \<Rightarrow> [] | Some i \<Rightarrow> [i]))"
proof
  show "children_started s'" by (rule keeps_result [OF children.line_keeps assms])
  show "\<exists>replies. mc_sent s' = mc_sent s @ replies \<and>
    list_all2 is_reply replies (case reply_id ops line of None \<Rightarrow> [] | Some i \<Rightarrow> [i])"
  proof (cases "trim line = []")
    case True
    then show ?thesis using assms(2) by (simp add: reply_id_def serve_line_def yields_def)
  next
    case False
    show ?thesis
    proof (cases "mo_parse ops line")
      case (Inl err)
      then show ?thesis
        using assms(2) False is_reply_rpc [of "''error''" JNull]
        by (auto simp: reply_id_def serve_line_def rpc_failure_def dest!: respond_sends)
    next
      case (Inr request)
      obtain t r where d: "dispatch ops fuel (unwrap_or [] (get_str request ''method''))
          (unwrap_or JNull (json_get request ''params'')) s = (t, r)" by fastforce
      have sent: "mc_sent t = mc_sent s" using dispatch_silent [OF assms(1) d] by simp
      show ?thesis
        using assms(2) False Inr d sent is_reply_rpc
        by (auto simp: reply_id_def serve_line_def serve_request_def Let_def rpc_failure_def
            split: outcome.splits option.splits dest!: respond_sends)
    qed
  qed
qed

lemma respond_fails: "respond ops v s = (s', r) \<Longrightarrow> r \<noteq> Done () \<Longrightarrow> mc_sent s' = mc_sent s"
  by (auto simp: respond_def and_then_def in_world_def of_result_def yields_def fails_def split: prod.splits sum.splits)

lemma failed_line_is_silent:
  assumes "children_started s" and "serve_line ops fuel line s = (s', r)" and "r \<noteq> Done ()"
  shows "mc_sent s' = mc_sent s"
proof (cases "mo_parse ops line")
  case (Inl err)
  then show ?thesis
    using assms(2,3) respond_fails by (auto simp: serve_line_def yields_def split: if_splits)
next
  case (Inr request)
  obtain t q where d: "dispatch ops fuel (unwrap_or [] (get_str request ''method''))
      (unwrap_or JNull (json_get request ''params'')) s = (t, q)" by fastforce
  have sent: "mc_sent t = mc_sent s" using dispatch_silent [OF assms(1) d] by simp
  show ?thesis
    using assms(2,3) Inr d sent
    by (auto simp: serve_line_def yields_def serve_request_def Let_def split: if_splits outcome.splits option.splits
        dest!: respond_fails)
qed

text \<open>
  C15. Requests are answered in the order they come.  Whatever the outcome of the loop, what has been sent
  is the replies to the first lines: each of them that is a request with an id, or no JSON at all, got
  exactly one reply, with its id (null where there is none to read) and either a result or an error; a
  notification and a blank line got none.  When the loop returns, these are all the lines; a line that
  panics, a write that fails or fuel that is not enough can end it before that.
\<close>

theorem requests_are_answered_in_order:
  assumes "serve_lines ops fuel (map Inr lines) (mcp_new read_only w) = (s, r)"
  shows "\<exists>served rest. lines = served @ rest \<and> list_all2 is_reply (mc_sent s) (List.map_filter (reply_id ops) served) \<and>
    (r = Done () \<longrightarrow> rest = [])"
proof -
  have "serve_lines ops fuel (map Inr lines) t = (s, r) \<Longrightarrow> children_started t \<Longrightarrow>
      \<exists>served rest replies. lines = served @ rest \<and> mc_sent s = mc_sent t @ replies \<and>
        list_all2 is_reply replies (List.map_filter (reply_id ops) served) \<and> (r = Done () \<longrightarrow> rest = [])" for t
  proof (induction lines arbitrary: t)
    case Nil
    then show ?case by (auto simp: yields_def map_filter_simps)
  next
    case (Cons line lines)
    obtain t1 q where t1: "serve_line ops fuel line t = (t1, q)" by fastforce
    show ?case
    proof (cases "q = Done ()")
      case True
      then have rest: "serve_lines ops fuel (map Inr lines) t1 = (s, r)"
        using Cons.prems(1) t1 by (simp add: of_result_def and_then_def yields_def)
      from line_replies [OF Cons.prems(2) t1 [unfolded True]] obtain first where
        first: "mc_sent t1 = mc_sent t @ first" "children_started t1"
          "list_all2 is_reply first (case reply_id ops line of None \<Rightarrow> [] | Some i \<Rightarrow> [i])" by blast
      from Cons.IH [OF rest first(2)] obtain served rest replies where
        later: "lines = served @ rest" "mc_sent s = mc_sent t1 @ replies"
          "list_all2 is_reply replies (List.map_filter (reply_id ops) served)" "r = Done () \<longrightarrow> rest = []" by blast
      have "list_all2 is_reply (first @ replies) (List.map_filter (reply_id ops) (line # served))"
        using list_all2_appendI [OF first(3) later(3)] by (auto simp: map_filter_simps split: option.splits)
      then show ?thesis
        using first(1) later by (intro exI [of _ "line # served"] exI [of _ rest] exI [of _ "first @ replies"]) simp
    next
      case False
      then have "mc_sent s = mc_sent t" "r \<noteq> Done ()"
        using Cons.prems failed_line_is_silent [OF Cons.prems(2) t1 False] t1
        by (cases q; simp add: of_result_def and_then_def yields_def)+
      then show ?thesis by (intro exI [of _ "[]"] exI [of _ "line # lines"]) (simp add: map_filter_simps)
    qed
  qed
  from this [OF assms] show ?thesis
    by (auto simp: mcp_new_def children_started_def kills_follow_starts_def)
qed

text \<open>A batch of requests, which one of the supported revisions has, is dropped without an answer.\<close>

lemma batches_get_no_answer:
  assumes "mo_parse ops line = Inr (JArray requests)"
  shows "serve_line ops fuel line s = (s, Done ())"
  using assms by (simp add: serve_line_def yields_def serve_request_def json_get_def get_str_def unwrap_or_def
      dispatch_def fails_def Let_def)


section \<open>Waiting\<close>

text \<open>
  The wait for the beacon of a new server, with a fifth of a second between two looks: for a deadline
  twenty seconds ahead 101 turns are enough.
\<close>

lemma await_beacon_ends:
  assumes "\<forall>w. co_instant ops w \<le> co_instant ops (fst (list_sessions (co_registry ops w) w))"
    and "\<forall>w n. co_instant ops w + n \<le> co_instant ops (co_sleep ops n w)"
    and "deadline \<le> co_instant ops (mc_world s) + 200 * n"
  shows "snd (await_beacon ops (Suc n) pid deadline s) \<noteq> OutOfFuel"
  using assms(3)
proof (induction n arbitrary: s)
  case 0
  then show ?case
    using assms(1) [rule_format, of "mc_world s"]
    by (auto simp: and_then_def in_world_def of_result_def yields_def fails_def apsnd_def map_prod_def
        split: prod.splits sum.splits option.splits)
next
  case (Suc n)
  obtain w r where listed: "list_sessions (co_registry ops (mc_world s)) (mc_world s) = (w, r)" by fastforce
  have "co_instant ops (mc_world s) \<le> co_instant ops w" using assms(1) [rule_format, of "mc_world s"] listed by simp
  moreover have "co_instant ops w + 200 \<le> co_instant ops (co_sleep ops 200 w)" using assms(2) by blast
  ultimately have "deadline \<le> co_instant ops (mc_world (s\<lparr>mc_world := co_sleep ops 200 w\<rparr>)) + 200 * n"
    using Suc.prems by simp
  from Suc.IH [OF this] show ?case
    using listed
    by (auto simp: and_then_def in_world_def of_result_def yields_def fails_def simp del: await_beacon.simps(2) [of ops n]
        split: prod.splits sum.splits option.splits)
qed

lemma with_diagnosis_ends: "with_diagnosis ops st d \<noteq> OutOfFuel"
  by (simp add: with_diagnosis_def split: sum.split option.split)

definition clock_runs :: "'w mcp_ops \<Rightarrow> bool" where
  "clock_runs ops \<longleftrightarrow>
     (\<forall>w port project. co_instant ops w \<le> co_instant ops (fst (fetch_session_status ops port project w))) \<and>
     (\<forall>w n. co_instant ops w + n \<le> co_instant ops (co_sleep ops n w))"

lemma wait_polls_end:
  assumes "clock_runs ops" and "deadline \<le> co_instant ops (mc_world s) + 500 * turns" and "turns < fuel"
  shows "snd (wait_polls ops fuel port project timeout fail_fast started_at deadline last_error last_report s) \<noteq> OutOfFuel"
  using assms(2,3)
proof (induction fuel arbitrary: s turns last_error last_report)
  case (Suc fuel)
  let ?polls = "wait_polls ops fuel port project timeout fail_fast started_at deadline"
  obtain w r where fetched: "fetch_session_status ops port project (mc_world s) = (w, r)" by fastforce
  have later: "co_instant ops (mc_world s) \<le> co_instant ops w"
    using assms(1) fetched by (metis clock_runs_def fst_conv)
  have again: "snd (?polls e p (s\<lparr>mc_world := co_sleep ops 500 w\<rparr>)) \<noteq> OutOfFuel" if "\<not> deadline \<le> co_instant ops w" for e p
  proof (rule Suc.IH)
    have "turns \<noteq> 0" using that later Suc.prems(1) by auto
    then show "turns - 1 < fuel" using Suc.prems(2) by simp
    have "co_instant ops w + 500 \<le> co_instant ops (co_sleep ops 500 w)" using assms(1) by (simp add: clock_runs_def)
    then show "deadline \<le> co_instant ops (mc_world (s\<lparr>mc_world := co_sleep ops 500 w\<rparr>)) + 500 * (turns - 1)"
      using later Suc.prems(1) \<open>turns \<noteq> 0\<close> by (simp add: diff_mult_distrib2)
  qed
  show ?case
    using fetched again
    by (cases r) (auto simp: Let_def wait_timeout_def with_diagnosis_ends split: outcome.splits option.splits if_splits)
qed simp

definition saw_studio :: "'w mcp_ops \<Rightarrow> u16 option \<Rightarrow> path option \<Rightarrow> json_value \<Rightarrow> bool" where
  "saw_studio ops port project report \<longleftrightarrow>
     (\<exists>w w' b st. fetch_session_status ops port project w = (w', Inr (b, st)) \<and> st_studio_connected st \<and>
        with_diagnosis ops st (diagnose ops w' st (Some (sb_port b))) = Done report)"

lemma wait_polls_saw:
  "snd (wait_polls ops fuel port project timeout fail_fast started_at deadline last_error last_report s) =
     Done (report, True) \<Longrightarrow> saw_studio ops port project report"
proof (induction fuel arbitrary: s last_error last_report)
  case (Suc fuel)
  obtain w r where fetched: "fetch_session_status ops port project (mc_world s) = (w, r)" by fastforce
  show ?case
    using Suc.prems fetched Suc.IH
    by (cases r)
      (auto simp: Let_def wait_timeout_def saw_studio_def split: outcome.splits option.splits if_splits prod.splits)
qed (simp add: out_of_fuel_def)

text \<open>
  C18. Waiting for Studio ends: with a clock that never goes back and that a sleep moves on by its
  length, one turn per half second of the timeout and one more are enough, whatever the sessions
  answer.  A wait that reports success has seen a status with Studio connected, and reports that.
\<close>

theorem waits_for_studio_end:
  assumes "clock_runs ops" and "unwrap_or 60 (get_u64 arguments ''timeoutSeconds'') = timeout"
    and "2 * unat timeout < fuel"
  shows "snd (tool_wait_for_studio ops fuel arguments s) \<noteq> OutOfFuel \<and>
    (\<forall>report. snd (tool_wait_for_studio ops fuel arguments s) = Done (report, True) \<longrightarrow>
       saw_studio ops (port_of arguments) (map_option (mo_path ops) (project_of arguments)) report)"
proof (cases "add_secs (co_instant ops (mc_world s)) (unat timeout)")
  case None
  then show ?thesis using assms(2) by (simp add: tool_wait_for_studio_def)
next
  case (Some deadline)
  then have "deadline \<le> co_instant ops (mc_world s) + 500 * (2 * unat timeout)"
    by (auto simp: add_secs_def split: if_splits)
  note ends = wait_polls_end [OF assms(1) this assms(3)]
  show ?thesis
    using ends wait_polls_saw by (auto simp: tool_wait_for_studio_def Let_def assms(2) Some)
qed

text \<open>
  C35. A timeout that leaves the range of instants is not refused: the addition panics, which ends the
  process, and the servers it has started are not stopped.
\<close>

theorem huge_timeouts_end_the_server:
  assumes "trim line \<noteq> []" and "mo_parse ops line = Inr request"
    and "get_str request ''method'' = Some ''tools/call''" and "json_get request ''params'' = Some params"
    and "get_str params ''name'' = Some ''roxo_wait_for_studio''" and "json_get params ''arguments'' = Some arguments"
    and "get_u64 arguments ''timeoutSeconds'' = Some timeout"
    and "2 ^ 63 \<le> co_instant ops (mc_world s) div 1000 + unat timeout"
  shows "serve ops fuel (Inr line # lines) s = (s, Panics)"
  using assms
  by (simp add: serve_def serve_line_def serve_request_def dispatch_def call_tool_def tool_wait_for_studio_def add_secs_def
      unwrap_or_def READ_ONLY_TOOLS_def as_result_def and_then_def of_result_def yields_def Let_def)


text \<open>
  When the registry cannot be listed after the start of a server, the tool fails and forgets the
  process: it is neither killed nor remembered, so it outlives the server for agents, which stops only
  what it remembers.
\<close>

theorem unlisted_servers_are_left_running:
  assumes "get_str arguments ''project'' = Some project" and "mo_current_exe ops = Inr exe"
    and "mo_spawn ops (exe # serve_arguments project arguments) (mc_world s) = (w, Inr pid)"
    and "co_instant ops w div 1000 + SERVE_START_TIMEOUT < 2 ^ 63"
    and "list_sessions (co_registry ops w) w = (w', Inl err)" and "mc_spawned s = []"
  shows "\<exists>s'. tool_serve_start ops (Suc fuel) arguments s = (s', Failed (registry_error_text ops err)) \<and>
    mc_asked (fst (stop_all ops s')) = mc_asked s @ [Spawned pid]"
proof -
  have "required (json_get arguments ''project'') ''project'' as_str s = (s, Done project)"
    using assms(1) by (simp add: required_def get_str_def yields_def)
  moreover have "spawn_child ops (exe # serve_arguments project arguments) s =
      (s\<lparr>mc_world := w, mc_asked := mc_asked s @ [Spawned pid]\<rparr>, Done pid)"
    using assms(3) by (simp add: spawn_child_def in_world_def asks_def and_then_def of_result_def yields_def)
  ultimately show ?thesis
    using assms(2,4,5,6)
    by (simp add: tool_serve_start_def and_then_def of_result_def yields_def fails_def start_deadline_def add_secs_def
        of_panicking_def in_world_def stop_all_def)
qed


section \<open>A sample world\<close>

text \<open>The world is a clock in milliseconds; the directory of sessions cannot be read.\<close>

definition unreadable_registry :: "bool \<Rightarrow> nat registry_env" where
  "unreadable_registry has_home =
     \<lparr>rg_fs =
        \<lparr>be_read = \<lambda>s _. (s, Inl noop_error), be_write = \<lambda>s _ _. (s, Inl noop_error),
         be_exists = \<lambda>s _. (s, Inl noop_error), be_read_dir = \<lambda>s _. (s, Inl noop_error),
         be_create_dir = \<lambda>s _. (s, Inr ()), be_create_dir_all = \<lambda>s _. (s, Inr ()),
         be_metadata = \<lambda>s _. (s, Inl noop_error), be_remove_file = \<lambda>s _. (s, Inl noop_error),
         be_remove_dir_all = \<lambda>s _. (s, Inl noop_error), be_canonicalize = \<lambda>s _. (s, Inl noop_error),
         be_watch = \<lambda>s _. (s, Inl noop_error), be_unwatch = \<lambda>s _. (s, Inl noop_error)\<rparr>,
      rg_var_os = (\<lambda>v. if has_home \<and> v = ''HOME'' then Some [RootDir] else None), rg_process_id = 1,
      rg_kill = (\<lambda>_ _. 0), rg_to_json = (\<lambda>_. Inl []), rg_from_json = (\<lambda>_. None), rg_canonicalize = Inr\<rparr>"

definition sample_arguments :: json_value where
  "sample_arguments = JObject [(''timeoutSeconds'', JNumber (PosInt 9223372036854775808))]"

definition sample_params :: json_value where
  "sample_params = JObject [(''name'', JString ''roxo_wait_for_studio''), (''arguments'', sample_arguments)]"

definition sample_wait :: json_value where
  "sample_wait = JObject [(''method'', JString ''tools/call''), (''params'', sample_params)]"

definition sample_parse :: "string \<Rightarrow> string + json_value" where
  "sample_parse line =
     (if line = ''ping'' then Inr (JObject [(''id'', JString ''7''), (''method'', JString ''ping'')])
      else if line = ''note'' then Inr (JObject [(''method'', JString ''notifications/initialized'')])
      else if line = ''wait'' then Inr sample_wait
      else Inl ''bad'')"

definition sample_mcp :: "bool \<Rightarrow> nat mcp_ops" where
  "sample_mcp has_home =
     \<lparr>co_registry = \<lambda>_. unreadable_registry has_home, co_io_text = ie_message, co_client = \<lambda>_ w. (w, Inr ()),
      co_get = \<lambda>_ w. (w, Inl ''refused''), co_decode_status = \<lambda>_. Inl [], co_status_to_value = \<lambda>_. Inl [],
      co_to_string = \<lambda>_. [], co_to_string_pretty = \<lambda>_. [], co_session_id_text = \<lambda>_. [],
      co_now_secs = of_nat, co_instant = (\<lambda>w. w), co_sleep = (\<lambda>n w. w + n), mo_path = \<lambda>_. [],
      mo_parse = sample_parse, mo_beacon_to_value = \<lambda>_. None, mo_current_exe = Inr ''roxo'',
      mo_spawn = \<lambda>_ w. (w, Inr 9), mo_kill = \<lambda>_ w. (w, Inr ()), mo_wait = \<lambda>_ w. (w, Inr ()),
      mo_output = \<lambda>_ w. (w, Inl []), mo_write = \<lambda>_ w. (w, Inr ())\<rparr>"

lemma sample_trims: "trim ''ping'' = ''ping''" "trim ''note'' = ''note''" "trim ''?'' = ''?''" "trim ''wait'' = ''wait''"
proof -
  have "\<forall>w \<in> set whitespace_encodings. byte (hd w) \<noteq> byte c \<and> byte (hd (rev w)) \<noteq> byte c" if "c \<in> set ''pgnewt?''" for c
    using that whitespace_bytes by (fastforce simp: byte_def)
  then show "trim ''ping'' = ''ping''" "trim ''note'' = ''note''" "trim ''?'' = ''?''" "trim ''wait'' = ''wait''"
    by (auto simp: trim_def strip_nothing)
qed

lemma requests_are_answered_in_order_witness:
  "list_all2 is_reply (mc_sent (fst (serve_lines (sample_mcp False) 1 (map Inr [''ping'', ''note'', ''?'']) (mcp_new True 0))))
     [JString ''7'', JNull]"
proof -
  have "snd (serve_lines (sample_mcp False) 1 (map Inr [''ping'', ''note'', ''?'']) (mcp_new True 0)) = Done ()"
    by (simp add: sample_trims serve_line_def serve_request_def dispatch_def sample_mcp_def sample_parse_def json_get_def get_str_def
        as_str_def unwrap_or_def respond_def in_world_def and_then_def of_result_def yields_def Let_def)
  then have "serve_lines (sample_mcp False) 1 (map Inr [''ping'', ''note'', ''?'']) (mcp_new True 0) =
      (fst (serve_lines (sample_mcp False) 1 (map Inr [''ping'', ''note'', ''?'']) (mcp_new True 0)), Done ())"
    by (metis prod.collapse)
  note answered = requests_are_answered_in_order [OF this]
  have "List.map_filter (reply_id (sample_mcp False)) [''ping'', ''note'', ''?''] = [JString ''7'', JNull]"
    by (simp add: sample_trims map_filter_simps reply_id_def sample_mcp_def sample_parse_def json_get_def)
  with answered show ?thesis by auto
qed

lemma waits_for_studio_end_witness:
  "snd (tool_wait_for_studio (sample_mcp False) 6 (JObject [(''timeoutSeconds'', JNumber (PosInt 2))]) (mcp_new True 0)) \<noteq> OutOfFuel"
proof -
  have "clock_runs (sample_mcp False)"
    by (simp add: clock_runs_def sample_mcp_def fetch_session_status_def resolve_session_def list_sessions_def
        sessions_dir_def unreadable_registry_def or_else_def Let_def split: option.split)
  from waits_for_studio_end [OF this, of "JObject [(''timeoutSeconds'', JNumber (PosInt 2))]" 2 6 "mcp_new True 0"]
  show ?thesis by (simp add: get_u64_def json_get_def as_u64_def unwrap_or_def)
qed

lemma huge_timeouts_end_the_server_witness:
  "serve (sample_mcp False) 1 [Inr ''wait''] (mcp_new False 0) = (mcp_new False 0, Panics)"
proof -
  have "trim ''wait'' \<noteq> []" by (simp add: sample_trims)
  moreover have "mo_parse (sample_mcp False) ''wait'' = Inr sample_wait" by (simp add: sample_mcp_def sample_parse_def)
  ultimately show ?thesis
    by (rule huge_timeouts_end_the_server [where params = sample_params and arguments = sample_arguments
          and timeout = 9223372036854775808])
      (simp_all add: sample_wait_def sample_params_def sample_arguments_def get_str_def json_get_def as_str_def get_u64_def as_u64_def)
qed

lemma unlisted_servers_are_left_running_witness:
  "\<exists>s'. tool_serve_start (sample_mcp True) 1 (JObject [(''project'', JString ''game'')]) (mcp_new False 0) =
     (s', Failed (ie_message noop_error)) \<and> mc_asked (fst (stop_all (sample_mcp True) s')) = [Spawned 9]"
  using unlisted_servers_are_left_running [of "JObject [(''project'', JString ''game'')]" "''game''" "sample_mcp True" "''roxo''"
      "mcp_new False 0" 0 9 0 "RegistryIo noop_error" 0]
  by (simp add: get_str_def json_get_def as_str_def sample_mcp_def mcp_new_def SERVE_START_TIMEOUT_def list_sessions_def
      sessions_dir_def unreadable_registry_def or_else_def registry_error_text_def Let_def)

end
