(* ===== verification/Sourcemap.thy ===== *)
theory Sourcemap
  imports Web_Properties Syncback_Laws
begin

text \<open>
  The sourcemap command, \<open>src/cli/sourcemap.rs\<close>: the tree of nodes for editors, when a patch makes
  it stale, and the loop that watches.  The questions to the file system, \<open>pathdiff\<close> and the encoder are
  arguments.  The children of an instance, and the patches of a batch, are visited in parallel; the model
  takes them in order, which gives the same nodes, and the same answer whenever no visit panics.
\<close>

datatype sourcemap_node =
  SourcemapNode (node_name: string) (node_class: string) (node_paths: "path list") (node_children: "sourcemap_node list")

record sourcemap_env =
  sm_is_file :: "path \<Rightarrow> bool"
  sm_absolute :: "path \<Rightarrow> path option"
  sm_diff_paths :: "path \<Rightarrow> path \<Rightarrow> path option"

type_synonym 'o instance_filter = "'o inst \<times> 'o instance_metadata \<Rightarrow> bool"

definition filter_nothing :: "'o instance_filter" where
  "filter_nothing p = True"

definition filter_non_scripts :: "'o instance_filter" where
  "filter_non_scripts p \<longleftrightarrow> i_class (fst p) \<in> {''Script'', ''LocalScript'', ''ModuleScript''}"

text \<open>Failing to make a path absolute or relative is a panic.\<close>

definition output_file_paths :: "sourcemap_env \<Rightarrow> path \<Rightarrow> bool \<Rightarrow> path list \<Rightarrow> path list option" where
  "output_file_paths e project_dir use_absolute_paths paths =
     those (map (\<lambda>p. if use_absolute_paths then sm_absolute e p else sm_diff_paths e p project_dir)
       (filter (sm_is_file e) paths))"

definition make_node :: "sourcemap_env \<Rightarrow> path \<Rightarrow> 'o instance_filter \<Rightarrow> bool \<Rightarrow>
    'o inst \<times> 'o instance_metadata \<Rightarrow> sourcemap_node list \<Rightarrow> sourcemap_node option option" where
  "make_node e project_dir keep use_absolute_paths p children =
     (if children = [] \<and> \<not> keep p then Some None
      else map_option (\<lambda>paths. Some (SourcemapNode (i_name (fst p)) (i_class (fst p)) paths children))
        (output_file_paths e project_dir use_absolute_paths (md_relevant_paths (snd p))))"

text \<open>The nodes of some instances, each with what is below it.\<close>

partial_function (option) create_nodes :: "('d, 'o) dom_ops \<Rightarrow> sourcemap_env \<Rightarrow> ('d, 'o) rojo_tree \<Rightarrow> path \<Rightarrow>
    'o instance_filter \<Rightarrow> bool \<Rightarrow> referent list \<Rightarrow> sourcemap_node list option" where
  "create_nodes D e t project_dir keep use_absolute_paths rs =
     (case rs of
        [] \<Rightarrow> Some []
      | r # others \<Rightarrow>
          Option.bind (Option.bind (get_instance D t r) (\<lambda>found. found)) (\<lambda>p.
          Option.bind (create_nodes D e t project_dir keep use_absolute_paths (i_children (fst p))) (\<lambda>children.
          Option.bind (make_node e project_dir keep use_absolute_paths p children) (\<lambda>node.
          Option.bind (create_nodes D e t project_dir keep use_absolute_paths others) (\<lambda>nodes.
            Some (case node of None \<Rightarrow> nodes | Some n \<Rightarrow> n # nodes))))))"

declare create_nodes.simps [simp del]

definition recurse_create_node :: "('d, 'o) dom_ops \<Rightarrow> sourcemap_env \<Rightarrow> ('d, 'o) rojo_tree \<Rightarrow> path \<Rightarrow>
    'o instance_filter \<Rightarrow> bool \<Rightarrow> referent \<Rightarrow> sourcemap_node option option" where
  "recurse_create_node D e t project_dir keep use_absolute_paths r =
     map_option (\<lambda>nodes. case nodes of [] \<Rightarrow> None | n # _ \<Rightarrow> Some n)
       (create_nodes D e t project_dir keep use_absolute_paths [r])"

text \<open>\<open>Iterator::any\<close> with a test that may panic; it stops at the first that holds.\<close>

fun any_panic :: "('a \<Rightarrow> bool option) \<Rightarrow> 'a list \<Rightarrow> bool option" where
  "any_panic f [] = Some False"
| "any_panic f (x # xs) = (case f x of None \<Rightarrow> None | Some True \<Rightarrow> Some True | Some False \<Rightarrow> any_panic f xs)"

definition passes :: "('d, 'o) dom_ops \<Rightarrow> ('d, 'o) rojo_tree \<Rightarrow> 'o instance_filter \<Rightarrow> referent \<Rightarrow> bool option" where
  "passes D t keep r = (case get_instance D t r of Some (Some p) \<Rightarrow> Some (keep p) | _ \<Rightarrow> None)"

definition update_affects :: "('d, 'o) dom_ops \<Rightarrow> ('d, 'o) rojo_tree \<Rightarrow> 'o instance_filter \<Rightarrow> 'o patch_update \<Rightarrow> bool option" where
  "update_affects D t keep u =
     (if pu_changed_class_name u \<noteq> None \<or> pu_changed_name u \<noteq> None \<or> pu_changed_metadata u \<noteq> None
      then passes D t keep (pu_id u) else Some False)"

definition set_affects :: "('d, 'o) dom_ops \<Rightarrow> ('d, 'o) rojo_tree \<Rightarrow> 'o instance_filter \<Rightarrow> 'o applied_patch_set \<Rightarrow> bool option" where
  "set_affects D t keep s =
     (if ap_removed s \<noteq> [] then Some True
      else case any_panic (passes D t keep) (ap_added s) of
        None \<Rightarrow> None
      | Some True \<Rightarrow> Some True
      | Some False \<Rightarrow> any_panic (update_affects D t keep) (ap_updated s))"

definition patch_set_affects_sourcemap :: "('d, 'o) dom_ops \<Rightarrow> ('s, 'd, 'o, 'q) serve_session \<Rightarrow>
    'o applied_patch_set list \<Rightarrow> 'o instance_filter \<Rightarrow> bool option" where
  "patch_set_affects_sourcemap D s patches keep =
     Option.bind (lock_tree s) (\<lambda>t. any_panic (set_affects D t keep) patches)"

text \<open>The node that \<open>write_sourcemap\<close> encodes, of the root of the tree.\<close>

definition write_sourcemap :: "('d, 'o) dom_ops \<Rightarrow> sourcemap_env \<Rightarrow> ('s, 'd, 'o, 'q) serve_session \<Rightarrow>
    'o instance_filter \<Rightarrow> bool \<Rightarrow> sourcemap_node option option" where
  "write_sourcemap D e s keep use_absolute_paths =
     Option.bind (lock_tree s) (\<lambda>t. Option.bind (root_dir s) (\<lambda>dir.
       recurse_create_node D e t dir keep use_absolute_paths (get_root_id D t)))"

text \<open>
  The loop that watches: each round has the session as it is when the patches are looked at.  The result
  is what is written, in order; the loop ends when the queue is gone.
\<close>

fun watch_rounds :: "('d, 'o) dom_ops \<Rightarrow> sourcemap_env \<Rightarrow> 'o instance_filter \<Rightarrow> bool \<Rightarrow>
    (('s, 'd, 'o, 'q) serve_session \<times> 'o applied_patch_set list) list \<Rightarrow> sourcemap_node option list option" where
  "watch_rounds D e keep use_absolute_paths [] = Some []"
| "watch_rounds D e keep use_absolute_paths ((s, patches) # rounds) =
     Option.bind (patch_set_affects_sourcemap D s patches keep) (\<lambda>affects.
     Option.bind (if affects then map_option (\<lambda>node. [node]) (write_sourcemap D e s keep use_absolute_paths) else Some []) (\<lambda>written.
     map_option (\<lambda>later. written @ later) (watch_rounds D e keep use_absolute_paths rounds)))"


section \<open>What the sourcemap shows\<close>

text \<open>An instance leads to a match when it, or something below it, passes the filter.\<close>

definition leads :: "('d, 'o) dom_ops \<Rightarrow> ('d, 'o) rojo_tree \<Rightarrow> 'o instance_filter \<Rightarrow> referent \<Rightarrow> bool" where
  "leads D t keep r \<longleftrightarrow> (\<exists>y. descends (dom_get D (rt_inner t)) r y \<and> keep (shown D t y))"

text \<open>
  A node depicts an instance: it has its name, its class and the files among its relevant paths, and its
  children depict, one for one and in their order, those children of the instance that lead to a match.
\<close>

fun depicts :: "('d, 'o) dom_ops \<Rightarrow> sourcemap_env \<Rightarrow> ('d, 'o) rojo_tree \<Rightarrow> path \<Rightarrow> 'o instance_filter \<Rightarrow> bool \<Rightarrow>
    referent \<Rightarrow> sourcemap_node \<Rightarrow> bool" where
  "depicts D e t project_dir keep absolutely r (SourcemapNode name class_name paths children) \<longleftrightarrow>
     dom_get D (rt_inner t) r \<noteq> None \<and>
     name = i_name (fst (shown D t r)) \<and> class_name = i_class (fst (shown D t r)) \<and>
     output_file_paths e project_dir absolutely (md_relevant_paths (snd (shown D t r))) = Some paths \<and>
     list_all2 (\<lambda>c node. depicts D e t project_dir keep absolutely c node)
       (filter (leads D t keep) (i_children (fst (shown D t r)))) children"

lemma leads_instance:
  assumes "dom_get D (rt_inner t) r = Some i"
  shows "leads D t keep r \<longleftrightarrow> keep (shown D t r) \<or> (\<exists>c \<in> set (i_children i). leads D t keep c)"
proof -
  have below: "descends (dom_get D (rt_inner t)) r x \<longleftrightarrow>
      x = r \<or> (\<exists>c \<in> set (i_children i). descends (dom_get D (rt_inner t)) c x)" for x
    using descends_iff_children [of "dom_get D (rt_inner t)" r, OF assms] by auto
  show ?thesis by (simp only: leads_def below) blast
qed

lemma those_total: "\<forall>x. P x \<longrightarrow> g x \<noteq> None \<Longrightarrow> those (map g (filter P xs)) \<noteq> None"
  by (induction xs) (auto split: option.split)

lemma create_nodes_depict:
  assumes inv: "tree_inv D ok t"
    and paths: "\<forall>p. sm_is_file e p \<longrightarrow> sm_absolute e p \<noteq> None \<and> sm_diff_paths e p project_dir \<noteq> None"
    and "\<forall>r \<in> set rs. dom_get D (rt_inner t) r \<noteq> None"
  shows "\<exists>nodes. create_nodes D e t project_dir keep absolutely rs = Some nodes \<and>
    list_all2 (depicts D e t project_dir keep absolutely) (filter (leads D t keep) rs) nodes"
  using assms(3)
proof (induction "sum_list (map (subtree_size (dom_get D (rt_inner t))) rs)" arbitrary: rs rule: less_induct)
  case less
  let ?view = "dom_get D (rt_inner t)" and ?depicts = "depicts D e t project_dir keep absolutely"
  note wf = tree_invD(2) [OF inv] and finite = finite_instances [OF inv]
  show ?case
  proof (cases rs)
    case Nil
    then show ?thesis by (simp add: create_nodes.simps)
  next
    case (Cons r others)
    then obtain i where i: "?view r = Some i" using less.prems by auto
    have found: "get_instance D t r = Some (Some (shown D t r))" "fst (shown D t r) = i"
      using get_instance_shown [OF inv, of r] i by (simp_all add: shown_def)
    have size: "sum_list (map (subtree_size ?view) (i_children i)) < subtree_size ?view r"
      by (rule children_smaller [OF wf finite i subseq_order.order_refl])
    have "\<forall>c \<in> set (i_children i). ?view c \<noteq> None" using dom_wfD(5) [OF wf i] by auto
    with less.hyps [of "i_children i"] size Cons obtain children where
      children: "create_nodes D e t project_dir keep absolutely (i_children i) = Some children"
        "list_all2 ?depicts (filter (leads D t keep) (i_children i)) children" by auto
    from less.hyps [of others] size Cons less.prems obtain nodes where
      nodes: "create_nodes D e t project_dir keep absolutely others = Some nodes"
        "list_all2 ?depicts (filter (leads D t keep) others) nodes" by auto
    have "output_file_paths e project_dir absolutely (md_relevant_paths (snd (shown D t r))) \<noteq> None"
      unfolding output_file_paths_def by (rule those_total) (use paths in auto)
    then obtain file_paths where file_paths: "output_file_paths e project_dir absolutely (md_relevant_paths (snd (shown D t r))) = Some file_paths"
      by blast
    have "filter (leads D t keep) (i_children i) = [] \<longleftrightarrow> children = []"
      using list_all2_lengthD [OF children(2)] by (metis length_0_conv)
    then have "children = [] \<longleftrightarrow> (\<forall>c \<in> set (i_children i). \<not> leads D t keep c)"
      by (auto simp: filter_empty_conv)
    then have "make_node e project_dir keep absolutely (shown D t r) children =
        Some (if leads D t keep r then Some (SourcemapNode (i_name i) (i_class i) file_paths children) else None)"
      using file_paths found(2) leads_instance [OF i, of keep] by (auto simp: make_node_def)
    moreover have "?depicts r (SourcemapNode (i_name i) (i_class i) file_paths children)"
      using i found(2) file_paths children(2) by simp
    ultimately show ?thesis
      unfolding Cons using found children(1) nodes by (subst create_nodes.simps) simp
  qed
qed

text \<open>
  C21. The sourcemap of an instance of a well-formed tree is there exactly when the instance, or something
  below it, passes the filter; then its node depicts the instance: name, class and files are right, and
  there is one node, in order, for each child that leads to a match, at every depth.  Taking it does not
  panic, as long as the paths of files can be made absolute and relative to the folder of the project.
\<close>

theorem sourcemap_shows_what_leads_to_a_match:
  assumes "tree_inv D ok t" and "dom_get D (rt_inner t) r \<noteq> None"
    and "\<forall>p. sm_is_file e p \<longrightarrow> sm_absolute e p \<noteq> None \<and> sm_diff_paths e p project_dir \<noteq> None"
  shows "\<exists>node. recurse_create_node D e t project_dir keep absolutely r = Some node \<and>
    (case node of
       None \<Rightarrow> \<not> leads D t keep r
     | Some n \<Rightarrow> leads D t keep r \<and> depicts D e t project_dir keep absolutely r n)"
proof -
  obtain nodes where "create_nodes D e t project_dir keep absolutely [r] = Some nodes"
    "list_all2 (depicts D e t project_dir keep absolutely) (filter (leads D t keep) [r]) nodes"
    using create_nodes_depict [OF assms(1,3), where rs = "[r]" and keep = keep and absolutely = absolutely] assms(2) by auto
  then show ?thesis
    by (auto simp: recurse_create_node_def list_all2_Cons1 split: if_splits)
qed

text \<open>The names and classes in a sourcemap.\<close>

fun node_entries :: "sourcemap_node \<Rightarrow> (string \<times> string) set" where
  "node_entries (SourcemapNode name class_name paths children) = insert (name, class_name) (\<Union>n \<in> set children. node_entries n)"

lemma list_all2_partner: "list_all2 P xs ys \<Longrightarrow> x \<in> set xs \<Longrightarrow> \<exists>y \<in> set ys. P x y"
  by (induction rule: list_all2_induct) auto

lemma depicts_entries:
  assumes "descends (dom_get D (rt_inner t)) r x" and "leads D t keep x"
    and "depicts D e t project_dir keep absolutely r node"
  shows "(i_name (fst (shown D t x)), i_class (fst (shown D t x))) \<in> node_entries node"
  using assms(1,3)
proof (induction arbitrary: node rule: converse_rtranclp_induct)
  case base
  then show ?case by (cases node) simp
next
  case (step r c)
  obtain name class_name paths children where node: "node = SourcemapNode name class_name paths children" by (cases node)
  from step.hyps(1) obtain i where i: "dom_get D (rt_inner t) r = Some i" "c \<in> set (i_children i)"
    by (auto simp: child_of_def split: option.splits)
  have "leads D t keep c" using step.hyps(2) assms(2) unfolding leads_def by (meson rtranclp_trans)
  with i step.prems node obtain n where "n \<in> set children" "depicts D e t project_dir keep absolutely c n"
    using list_all2_partner [of _ "filter (leads D t keep) (i_children i)" children c] by (auto simp: shown_def)
  with step.IH [of n] node show ?case by auto
qed


text \<open>
  When an instance that leads to a match without being one is renamed, gets another class or other
  paths, the sourcemap, which has an entry for it, is not written again: the patch is said not to affect
  it.  A folder above scripts is such an instance.
\<close>

theorem folder_renames_leave_the_sourcemap_stale:
  assumes "lock_tree s = Some t" and "root_dir s = Some dir" and inv: "tree_inv D ok t"
    and "\<forall>p. sm_is_file e p \<longrightarrow> sm_absolute e p \<noteq> None \<and> sm_diff_paths e p dir \<noteq> None"
    and r: "dom_get D (rt_inner t) r = Some i"
    and "\<not> keep (shown D t r)" and "descends (dom_get D (rt_inner t)) r y" and "keep (shown D t y)"
    and "ap_removed patch = []" and "ap_added patch = []" and "ap_updated patch = [u]" and "pu_id u = r"
  shows "patch_set_affects_sourcemap D s [patch] keep = Some False \<and>
    (\<exists>node. write_sourcemap D e s keep absolutely = Some (Some node) \<and> (i_name i, i_class i) \<in> node_entries node)"
proof -
  let ?view = "dom_get D (rt_inner t)" and ?root = "dom_root D (rt_inner t)"
  have "passes D t keep r = Some False"
    using assms(6) get_instance_shown [OF inv, of r] r by (simp add: passes_def)
  then have stale: "patch_set_affects_sourcemap D s [patch] keep = Some False"
    using assms by (simp add: patch_set_affects_sourcemap_def set_affects_def update_affects_def)
  have root: "?view ?root \<noteq> None" using dom_wfD(2) [OF tree_invD(2) [OF inv]] by auto
  have leads: "leads D t keep r" using assms(7,8) by (auto simp: leads_def)
  have down: "descends ?view ?root r" using dom_wfD(6) [OF tree_invD(2) [OF inv] r] .
  then have root_leads: "leads D t keep ?root" using assms(7,8) unfolding leads_def by (meson rtranclp_trans)
  obtain nodes where nodes: "create_nodes D e t dir keep absolutely [?root] = Some nodes"
    "list_all2 (depicts D e t dir keep absolutely) (filter (leads D t keep) [?root]) nodes"
    using create_nodes_depict [OF inv assms(4), of "[?root]" keep absolutely] root by auto
  with root_leads obtain node where node: "nodes = [node]" "depicts D e t dir keep absolutely ?root node"
    by (auto simp: list_all2_Cons1)
  have "(i_name i, i_class i) \<in> node_entries node"
    using depicts_entries [OF down leads node(2)] r by (simp add: shown_def)
  have "write_sourcemap D e s keep absolutely = Some (Some node)"
    using nodes(1) node(1) assms(1,2) by (simp add: write_sourcemap_def recurse_create_node_def get_root_id_def)
  with stale \<open>(i_name i, i_class i) \<in> node_entries node\<close> show ?thesis by blast
qed

text \<open>An instance that a later patch removed ends the watch: the lookup of the addition panics.\<close>

lemma replayed_additions_end_the_watch:
  assumes "lock_tree s = Some t" and "tree_inv D ok t" and "dom_get D (rt_inner t) r = None"
    and "ap_removed patch = []" and "ap_added patch = r # others"
  shows "watch_rounds D e keep absolutely ((s, patch # later) # rounds) = None"
  using assms get_instance_shown [OF assms(2), of r]
  by (simp add: patch_set_affects_sourcemap_def set_affects_def passes_def)


section \<open>A folder above a script\<close>

definition script_addition :: "nat patch_set" where
  "script_addition = patch_set_new\<lparr>added_instances :=
     [\<lparr>pa_parent_id = Ref 0, pa_instance = Snapshot NoRef metadata_new ''main'' ''ModuleScript'' [] []\<rparr>]\<rparr>"

definition script_tree :: "(nat ref_dom, nat) rojo_tree" where
  "script_tree = snd (the (apply_patch_set ref_dom_ops script_addition bare_tree))"

definition script_session :: "(in_memory_fs, nat ref_dom, nat, nat) serve_session" where
  "script_session = (sample_session script_tree [])\<lparr>ss_root_project :=
     nameless_project\<lparr>p_file_location := [RootDir, Normal ''src'', Normal ''default.project.json'']\<rparr>\<rparr>"

definition no_files :: sourcemap_env where
  "no_files = \<lparr>sm_is_file = \<lambda>_. False, sm_absolute = Some, sm_diff_paths = \<lambda>p _. Some p\<rparr>"

lemma script_tree_applied:
  "apply_patch_set ref_dom_ops script_addition bare_tree = Some (added_patch, script_tree)"
  "dom_root ref_dom_ops (rt_inner script_tree) = Ref 0"
  "map_option (\<lambda>i. (i_name i, i_class i, i_children i)) (dom_get ref_dom_ops (rt_inner script_tree) (Ref 0)) =
     Some (''DEFAULT'', ''DEFAULT'', [Ref 1])"
  "map_option (\<lambda>i. (i_name i, i_class i, i_children i)) (dom_get ref_dom_ops (rt_inner script_tree) (Ref 1)) =
     Some (''main'', ''ModuleScript'', [])"
  by code_simp+

lemma script_tree_inv: "tree_inv ref_dom_ops rd_ok script_tree"
  using rd.apply_patch_set_total [OF bare_tree_inv, of script_addition] script_tree_applied(1) sample_lookups(1)
  by (auto simp: script_addition_def patch_set_new_def named_def)

lemma script_tree_instances:
  obtains i c where "dom_get ref_dom_ops (rt_inner script_tree) (Ref 0) = Some i"
    "i_name i = ''DEFAULT''" "i_class i = ''DEFAULT''" "i_children i = [Ref 1]"
    "dom_get ref_dom_ops (rt_inner script_tree) (Ref 1) = Some c" "i_name c = ''main''" "i_class c = ''ModuleScript''"
    "i_children c = []"
  using script_tree_applied(3,4) by auto

lemma sourcemap_shows_what_leads_to_a_match_witness:
  "recurse_create_node ref_dom_ops no_files script_tree [RootDir] filter_non_scripts False (Ref 0) =
     Some (Some (SourcemapNode ''DEFAULT'' ''DEFAULT'' [] [SourcemapNode ''main'' ''ModuleScript'' [] []])) \<and>
   recurse_create_node ref_dom_ops no_files script_tree [RootDir] (\<lambda>p. i_class (fst p) = ''Part'') False (Ref 0) = Some None"
proof -
  obtain i c where tree: "dom_get ref_dom_ops (rt_inner script_tree) (Ref 0) = Some i"
    "i_name i = ''DEFAULT''" "i_class i = ''DEFAULT''" "i_children i = [Ref 1]"
    "dom_get ref_dom_ops (rt_inner script_tree) (Ref 1) = Some c" "i_name c = ''main''" "i_class c = ''ModuleScript''" "i_children c = []"
    by (rule script_tree_instances)
  have no_paths: "output_file_paths no_files [RootDir] False paths = Some []" for paths
    by (simp add: output_file_paths_def no_files_def)
  have scripts: "leads ref_dom_ops script_tree filter_non_scripts (Ref 1)" "leads ref_dom_ops script_tree filter_non_scripts (Ref 0)"
    using leads_instance [OF tree(1), of filter_non_scripts] leads_instance [OF tree(5), of filter_non_scripts] tree
    by (simp_all add: shown_def filter_non_scripts_def)
  have parts: "\<not> leads ref_dom_ops script_tree (\<lambda>p. i_class (fst p) = ''Part'') (Ref 0)"
    using leads_instance [OF tree(1), of "\<lambda>p. i_class (fst p) = ''Part''"]
      leads_instance [OF tree(5), of "\<lambda>p. i_class (fst p) = ''Part''"] tree by (simp add: shown_def)
  have shape: "node = SourcemapNode ''DEFAULT'' ''DEFAULT'' [] [SourcemapNode ''main'' ''ModuleScript'' [] []]"
    if "depicts ref_dom_ops no_files script_tree [RootDir] filter_non_scripts False (Ref 0) node" for node
  proof (cases node)
    case (SourcemapNode name class_name paths children)
    with that tree scripts no_paths obtain child where
      node: "node = SourcemapNode ''DEFAULT'' ''DEFAULT'' [] [child]"
        "depicts ref_dom_ops no_files script_tree [RootDir] filter_non_scripts False (Ref 1) child"
      by (auto simp: shown_def list_all2_Cons1)
    then show ?thesis using tree no_paths by (cases child) (auto simp: shown_def)
  qed
  have made: "\<exists>node. recurse_create_node ref_dom_ops no_files script_tree [RootDir] keep False (Ref 0) = Some node \<and>
    (case node of
       None \<Rightarrow> \<not> leads ref_dom_ops script_tree keep (Ref 0)
     | Some n \<Rightarrow> leads ref_dom_ops script_tree keep (Ref 0) \<and>
         depicts ref_dom_ops no_files script_tree [RootDir] keep False (Ref 0) n)" for keep
    by (rule sourcemap_shows_what_leads_to_a_match [OF script_tree_inv]) (use tree in \<open>simp_all add: no_files_def\<close>)
  show ?thesis
    using made [of filter_non_scripts] made [of "\<lambda>p. i_class (fst p) = ''Part''"] scripts parts shape
    by (auto split: option.splits)
qed

lemma folder_renames_leave_the_sourcemap_stale_witness:
  "patch_set_affects_sourcemap ref_dom_ops script_session
      [applied_new\<lparr>ap_updated := [\<lparr>pu_id = Ref 0, pu_changed_name = Some ''DEFAULT'', pu_changed_class_name = None,
        pu_changed_properties = [], pu_changed_metadata = None\<rparr>]\<rparr>] filter_non_scripts = Some False \<and>
   (\<exists>node. write_sourcemap ref_dom_ops no_files script_session filter_non_scripts False = Some (Some node) \<and>
     (''DEFAULT'', ''DEFAULT'') \<in> node_entries node)"
proof -
  obtain i c where tree: "dom_get ref_dom_ops (rt_inner script_tree) (Ref 0) = Some i"
    "i_name i = ''DEFAULT''" "i_class i = ''DEFAULT''" "i_children i = [Ref 1]"
    "dom_get ref_dom_ops (rt_inner script_tree) (Ref 1) = Some c" "i_name c = ''main''" "i_class c = ''ModuleScript''" "i_children c = []"
    by (rule script_tree_instances)
  have below: "descends (dom_get ref_dom_ops (rt_inner script_tree)) (Ref 0) (Ref 1)"
    using tree(1,4) by (auto simp: child_of_def)
  have session: "lock_tree script_session = Some script_tree" "root_dir script_session = Some [RootDir, Normal ''src'']"
    by (simp_all add: script_session_def sample_session_def lock_tree_def root_dir_def folder_location_def path_parent_def)
  show ?thesis
    using folder_renames_leave_the_sourcemap_stale [OF session script_tree_inv, where e = no_files and r = "Ref 0" and i = i
        and keep = filter_non_scripts and y = "Ref 1" and absolutely = False
        and patch = "applied_new\<lparr>ap_updated := [\<lparr>pu_id = Ref 0, pu_changed_name = Some ''DEFAULT'', pu_changed_class_name = None,
          pu_changed_properties = [], pu_changed_metadata = None\<rparr>]\<rparr>"] below tree
    by (simp add: no_files_def applied_new_def shown_def filter_non_scripts_def)
qed

end
