(* ===== verification/Wait_Command.thy ===== *)
theory Wait_Command
  imports Session_Status
begin

text \<open>
  The commands that wait for a session and that list the sessions, \<open>src/cli/wait.rs\<close> and
  \<open>src/cli/sessions.rs\<close>, over the world of \<open>Session_Status\<close>.  Colors are left out of what is printed;
  the encoders of a status and of beacons, and the text of a path, are added to the arguments.
\<close>

record 'w command_ops = "'w cli_ops" +
  cm_status_pretty :: "session_status_response \<Rightarrow> string + string"
  cm_beacons_pretty :: "beacon list \<Rightarrow> string + string"
  cm_display :: "path \<Rightarrow> string"

section \<open>Waiting\<close>

text \<open>Half a second.\<close>

definition POLL_INTERVAL :: nat where "POLL_INTERVAL = 500"

datatype wait_condition = WaitServer | WaitStudio

definition wait_condition_from_str :: "string \<Rightarrow> string + wait_condition" where
  "wait_condition_from_str source =
     (let other = to_ascii_lowercase source
      in if other = ''server'' then Inr WaitServer
         else if other \<in> {''studio'', ''client''} then Inr WaitStudio
         else Inl (''Invalid wait condition '' @ [CHR 0x27] @ other @ [CHR 0x27] @ ''. Valid values are: server, studio''))"

record wait_command =
  wc_condition :: wait_condition
  wc_port :: "u16 option"
  wc_project :: "path option"
  wc_timeout :: u64
  wc_json :: bool

definition satisfied :: "wait_condition \<Rightarrow> session_status_response \<Rightarrow> bool" where
  "satisfied condition st \<longleftrightarrow> (case condition of WaitServer \<Rightarrow> True | WaitStudio \<Rightarrow> st_studio_connected st)"

text \<open>What is printed once the condition holds.\<close>

definition ready_lines :: "('w, 'x) command_ops_scheme \<Rightarrow> wait_command \<Rightarrow> session_status_response \<Rightarrow> string + string list" where
  "ready_lines ops c st =
     (if wc_json c then map_sum id (\<lambda>text. [text]) (cm_status_pretty ops st)
      else Inr [case wc_condition c of
          WaitServer \<Rightarrow> ''Server ready: '' @ [CHR 0x27] @ st_project_name st @ [CHR 0x27] @ '' on '' @ st_project_path st
        | WaitStudio \<Rightarrow> ''Studio connected to '' @ [CHR 0x27] @ st_project_name st @ [CHR 0x27] @ '' ('' @
            decimal (st_client_count st) @ '' client'' @ plural (st_client_count st = 1) @ '')''])"

definition describe :: "('w, 'x) command_ops_scheme \<Rightarrow> diagnosis \<Rightarrow> string" where
  "describe ops d =
     dg_summary d @
     (case dg_fix d of Some fix_text \<Rightarrow> [CHR 0x0A] @ ''Fix: '' @ fix_text | None \<Rightarrow> []) @
     (case dg_project_file_change d of
        Some change \<Rightarrow> [CHR 0x0A] @ ''Change: in '' @ pf_file change @ '', set '' @ co_to_string ops (pf_set change)
      | None \<Rightarrow> []) @
     (case dg_caution d of Some caution \<Rightarrow> [CHR 0x0A] @ ''Caution: '' @ caution | None \<Rightarrow> [])"

definition last_attempt :: "string option \<Rightarrow> string" where
  "last_attempt last_error = (case last_error of Some err \<Rightarrow> [CHR 0x0A] @ ''Last attempt: '' @ err | None \<Rightarrow> [])"

definition timed_out :: "('w, 'x) command_ops_scheme \<Rightarrow> wait_command \<Rightarrow> string option \<Rightarrow> diagnosis option \<Rightarrow> string" where
  "timed_out ops c last_error last_diagnosis =
     ''Timed out after '' @ u64_text (wc_timeout c) @
     (case wc_condition c of
        WaitServer \<Rightarrow> ''s waiting for a Roxo serve session.'' @ last_attempt last_error
      | WaitStudio \<Rightarrow> ''s waiting for Studio to connect.'' @ [CHR 0x0A] @
          (case last_diagnosis of
             Some d \<Rightarrow> describe ops d
           | None \<Rightarrow> ''Check that the place is open in Studio, that the Roxo plugin is installed, '' @
               ''and that auto-connect is not set to 'off' for this project.'' @ last_attempt last_error))"

text \<open>The loop; the number of turns is bounded by the fuel.\<close>

fun wait_rounds :: "('w, 'x) command_ops_scheme \<Rightarrow> nat \<Rightarrow> wait_command \<Rightarrow> nat \<Rightarrow> string option \<Rightarrow> diagnosis option \<Rightarrow>
    'w \<Rightarrow> 'w \<times> string list \<times> (string, unit) outcome" where
  "wait_rounds ops 0 c deadline last_error last_diagnosis w = (w, [], OutOfFuel)"
| "wait_rounds ops (Suc fuel) c deadline last_error last_diagnosis w =
     (let again = (\<lambda>last_error last_diagnosis w.
           if co_instant ops w \<ge> deadline then (w, [], Failed (timed_out ops c last_error last_diagnosis))
           else wait_rounds ops fuel c deadline last_error last_diagnosis (co_sleep ops POLL_INTERVAL w))
      in case fetch_session_status ops (wc_port c) (wc_project c) w of
           (w1, Inl err) \<Rightarrow> again (Some err) last_diagnosis w1
         | (w1, Inr (b, st)) \<Rightarrow>
             (if satisfied (wc_condition c) st
              then (case ready_lines ops c st of
                  Inl err \<Rightarrow> (w1, [], Failed err)
                | Inr lines \<Rightarrow> (w1, lines, Done ()))
              else again last_error (Some (diagnose ops w1 st (Some (sb_port b)))) w1))"

text \<open>Instants are milliseconds; adding a duration panics once the seconds leave 63 bits.\<close>

definition wait_run :: "('w, 'x) command_ops_scheme \<Rightarrow> nat \<Rightarrow> wait_command \<Rightarrow> 'w \<Rightarrow>
    'w \<times> string list \<times> (string, unit) outcome" where
  "wait_run ops fuel c w =
     (if co_instant ops w div 1000 + unat (wc_timeout c) < 2 ^ 63
      then wait_rounds ops fuel c (co_instant ops w + 1000 * unat (wc_timeout c)) None None w
      else (w, [], Panics))"


section \<open>The list of sessions\<close>

definition pad :: "nat \<Rightarrow> string \<Rightarrow> string" where
  "pad width text = text @ replicate (width - char_count text) CHR 0x20"

text \<open>The ellipsis is one character of three bytes.\<close>

definition truncate :: "string \<Rightarrow> nat \<Rightarrow> string" where
  "truncate v width =
     (if char_count v \<le> width then v else take_chars (width - 1) v @ [CHR 0xE2, CHR 0x80, CHR 0xA6])"

definition session_line :: "('w, 'x) command_ops_scheme \<Rightarrow> beacon \<Rightarrow> string" where
  "session_line ops b =
     pad 7 (u16_text (sb_port b)) @ '' '' @ pad 24 (truncate (sb_project_name b) 24) @ '' '' @
     pad 12 (sb_auto_connect b) @ '' '' @ cm_display ops (sb_project_path b)"

definition show_sessions :: "('w, 'x) command_ops_scheme \<Rightarrow> beacon list \<Rightarrow> string list" where
  "show_sessions ops sessions =
     (if sessions = [] then [''No Roxo serve sessions are running.'', [], ''Start one with `roxo serve`.'']
      else (pad 7 ''PORT'' @ '' '' @ pad 24 ''PROJECT'' @ '' '' @ pad 12 ''CONNECT'' @ '' PATH'') #
        map (session_line ops) sessions)"

definition sessions_run :: "('w, 'x) command_ops_scheme \<Rightarrow> bool \<Rightarrow> 'w \<Rightarrow> 'w \<times> string list \<times> (string, unit) outcome" where
  "sessions_run ops json w =
     (case list_sessions (co_registry ops w) w of
        (w1, Inl err) \<Rightarrow> (w1, [], Failed (registry_error_text ops err))
      | (w1, Inr sessions) \<Rightarrow>
          (if json
           then (case cm_beacons_pretty ops sessions of
               Inl err \<Rightarrow> (w1, [], Failed err)
             | Inr text \<Rightarrow> (w1, [text], Done ()))
           else (w1, show_sessions ops sessions, Done ())))"


section \<open>Properties\<close>

definition clock_moves :: "('w, 'x) cli_ops_scheme \<Rightarrow> bool" where
  "clock_moves ops \<longleftrightarrow>
     (\<forall>w port project. co_instant ops w \<le> co_instant ops (fst (fetch_session_status ops port project w))) \<and>
     (\<forall>w n. co_instant ops w + n \<le> co_instant ops (co_sleep ops n w))"

lemma wait_rounds_end:
  assumes "clock_moves ops" and "deadline \<le> co_instant ops w + 500 * turns" and "turns < fuel"
  shows "snd (snd (wait_rounds ops fuel c deadline last_error last_diagnosis w)) \<noteq> OutOfFuel"
  using assms(2,3)
proof (induction fuel arbitrary: w turns last_error last_diagnosis)
  case (Suc fuel)
  obtain w1 r where fetched: "fetch_session_status ops (wc_port c) (wc_project c) w = (w1, r)" by fastforce
  have later: "co_instant ops w \<le> co_instant ops w1" using assms(1) fetched by (metis clock_moves_def fst_conv)
  have again: "snd (snd (wait_rounds ops fuel c deadline e d (co_sleep ops POLL_INTERVAL w1))) \<noteq> OutOfFuel"
    if "\<not> deadline \<le> co_instant ops w1" for e d
  proof (rule Suc.IH)
    have "turns \<noteq> 0" using that later Suc.prems(1) by auto
    then show "turns - 1 < fuel" using Suc.prems(2) by simp
    have "co_instant ops w1 + POLL_INTERVAL \<le> co_instant ops (co_sleep ops POLL_INTERVAL w1)"
      using assms(1) by (simp add: clock_moves_def)
    then show "deadline \<le> co_instant ops (co_sleep ops POLL_INTERVAL w1) + 500 * (turns - 1)"
      using later Suc.prems(1) \<open>turns \<noteq> 0\<close> by (simp add: diff_mult_distrib2 POLL_INTERVAL_def)
  qed
  show ?case
    using fetched again by (cases r) (auto simp: Let_def split: sum.splits if_splits)
qed simp

lemma wait_rounds_saw:
  "wait_rounds ops fuel c deadline last_error last_diagnosis w = (w', printed, Done ()) \<Longrightarrow>
   \<exists>w1 w2 b st. fetch_session_status ops (wc_port c) (wc_project c) w1 = (w2, Inr (b, st)) \<and>
     satisfied (wc_condition c) st \<and> ready_lines ops c st = Inr printed"
proof (induction fuel arbitrary: w last_error last_diagnosis)
  case (Suc fuel)
  obtain w1 r where fetched: "fetch_session_status ops (wc_port c) (wc_project c) w = (w1, r)" by fastforce
  show ?case
    using Suc.prems fetched Suc.IH by (cases r) (auto simp: Let_def split: sum.splits if_splits, blast)
qed simp

text \<open>
  The wait command ends, with a clock that never goes back and that a sleep moves on by its length:
  two turns for each second of the timeout and one more are enough.  It succeeds only after a status
  that satisfies the condition, and prints that status.
\<close>

theorem waits_end_with_the_condition:
  assumes "clock_moves ops" and "2 * unat (wc_timeout c) < fuel"
  shows "snd (snd (wait_run ops fuel c w)) \<noteq> OutOfFuel \<and>
    (\<forall>w' printed. wait_run ops fuel c w = (w', printed, Done ()) \<longrightarrow>
      (\<exists>w1 w2 b st. fetch_session_status ops (wc_port c) (wc_project c) w1 = (w2, Inr (b, st)) \<and>
         satisfied (wc_condition c) st \<and> ready_lines ops c st = Inr printed))"
proof -
  have "1000 * unat (wc_timeout c) = 500 * (2 * unat (wc_timeout c))" by simp
  then have "snd (snd (wait_run ops fuel c w)) \<noteq> OutOfFuel"
    using wait_rounds_end [OF assms(1) _ assms(2), of "co_instant ops w + 1000 * unat (wc_timeout c)" w]
    by (simp add: wait_run_def)
  then show ?thesis
    using wait_rounds_saw by (auto simp: wait_run_def split: if_splits)
qed

text \<open>The columns of the list of sessions line up, and a name that is cut fills its column.\<close>

lemma count_take_chars: "char_count (take_chars n s) = min n (char_count s)"
  by (induction n s rule: take_chars.induct) (auto simp: char_count_def split: nat.split)

lemma cut_names_fill_their_column:
  assumes "width \<noteq> 0"
  shows "char_count (pad width (truncate v width)) = width"
    and "width < char_count v \<Longrightarrow> char_count (truncate v width) = width"
proof -
  have ellipsis: "char_count [CHR 0xE2, CHR 0x80, CHR 0xA6] = 1" by code_simp
  have spaces: "char_count (replicate n CHR 0x20) = n" for n
    by (simp add: char_count_def filter_replicate is_continuation_def in_range_def byte_def)
  have app: "char_count (a @ b) = char_count a + char_count b" for a b by (simp add: char_count_def)
  show "width < char_count v \<Longrightarrow> char_count (truncate v width) = width"
    using assms by (simp add: truncate_def app ellipsis count_take_chars)
  then have "char_count (truncate v width) \<le> width" by (cases "width < char_count v") (simp_all add: truncate_def)
  then show "char_count (pad width (truncate v width)) = width" by (simp add: pad_def app spaces)
qed


section \<open>A world without sessions\<close>

definition homeless_registry :: "nat registry_env" where
  "homeless_registry =
     \<lparr>rg_fs =
        \<lparr>be_read = \<lambda>s _. (s, Inl noop_error), be_write = \<lambda>s _ _. (s, Inl noop_error),
         be_exists = \<lambda>s _. (s, Inl noop_error), be_read_dir = \<lambda>s _. (s, Inl noop_error),
         be_create_dir = \<lambda>s _. (s, Inr ()), be_create_dir_all = \<lambda>s _. (s, Inr ()),
         be_metadata = \<lambda>s _. (s, Inl noop_error), be_remove_file = \<lambda>s _. (s, Inl noop_error),
         be_remove_dir_all = \<lambda>s _. (s, Inl noop_error), be_canonicalize = \<lambda>s _. (s, Inl noop_error),
         be_watch = \<lambda>s _. (s, Inl noop_error), be_unwatch = \<lambda>s _. (s, Inl noop_error)\<rparr>,
      rg_var_os = (\<lambda>_. None), rg_process_id = 1, rg_kill = (\<lambda>_ _. 0), rg_to_json = (\<lambda>_. Inl []),
      rg_from_json = (\<lambda>_. None), rg_canonicalize = Inr\<rparr>"

definition idle_ops :: "nat command_ops" where
  "idle_ops =
     \<lparr>co_registry = \<lambda>_. homeless_registry, co_io_text = ie_message, co_client = \<lambda>_ w. (w, Inr ()),
      co_get = \<lambda>_ w. (w, Inl ''refused''), co_decode_status = \<lambda>_. Inl [], co_status_to_value = \<lambda>_. Inl [],
      co_to_string = \<lambda>_. [], co_to_string_pretty = \<lambda>_. [], co_session_id_text = \<lambda>_. [],
      co_now_secs = of_nat, co_instant = (\<lambda>w. w), co_sleep = (\<lambda>n w. w + n),
      cm_status_pretty = \<lambda>_. Inr [], cm_beacons_pretty = \<lambda>_. Inr [], cm_display = \<lambda>_. []\<rparr>"

lemma waits_end_with_the_condition_witness:
  "snd (snd (wait_run idle_ops 6 \<lparr>wc_condition = WaitStudio, wc_port = None, wc_project = None, wc_timeout = 2, wc_json = False\<rparr> 0))
     \<noteq> OutOfFuel"
proof -
  have "clock_moves idle_ops"
    by (simp add: clock_moves_def idle_ops_def fetch_session_status_def resolve_session_def list_sessions_def
        sessions_dir_def homeless_registry_def or_else_def Let_def split: option.split)
  from waits_end_with_the_condition [OF this,
      of "\<lparr>wc_condition = WaitStudio, wc_port = None, wc_project = None, wc_timeout = 2, wc_json = False\<rparr>" 6 0]
  show ?thesis by simp
qed

end
