(* ===== verification/Serve_Command.thy ===== *)
theory Serve_Command
  imports Session_Status Web_Properties
begin

text \<open>
  The command that serves a project, \<open>src/cli/serve.rs\<close>, with the binding of the listener of
  \<open>LiveServer::start\<close> (\<open>src/web/mod.rs\<close>): which address, port and hosts are used, the beacon that is
  published for as long as the command runs, and what is printed.  The runtime, the binding and the
  serving of requests until the end are arguments, over a state \<open>'b\<close> in which the registry has its
  files.
\<close>

record ('s, 'd, 'o, 'q, 'b) serve_ops =
  so_session :: "('s, 'd, 'o) session_env"
  so_registry :: "'b registry_env"
  so_current_dir :: "string + path"
  so_session_error :: "'o serve_session_error \<Rightarrow> string"
  so_ip_text :: "ip_addr \<Rightarrow> string"
  so_socket_text :: "ip_addr \<Rightarrow> u16 \<Rightarrow> string"
  so_version :: string
  so_runtime :: "'b \<Rightarrow> 'b \<times> (string + unit)"
  so_bind :: "ip_addr \<Rightarrow> u16 \<Rightarrow> 'b \<Rightarrow> 'b \<times> (string + unit)"
  so_serving :: "allowed_hosts_rec option \<Rightarrow> ('s, 'd, 'o, 'q) serve_session \<Rightarrow> 'b \<Rightarrow> 'b \<times> (string, unit) outcome"

definition DEFAULT_BIND_ADDRESS :: ip_addr where "DEFAULT_BIND_ADDRESS = V4 [127, 0, 0, 1]"
definition DEFAULT_PORT :: u16 where "DEFAULT_PORT = 34872"

record serve_command =
  vc_project :: path
  vc_address :: "ip_addr option"
  vc_port :: "u16 option"
  vc_allowed_hosts :: "string list"
  vc_auto_connect :: "auto_connect_policy option"
  vc_no_registry :: bool

definition resolve_path :: "string + path \<Rightarrow> path \<Rightarrow> string + path" where
  "resolve_path current_dir p =
     (if is_absolute p then Inr p
      else case current_dir of
        Inl err \<Rightarrow> Inl (''Could not determine the current working directory. '' @
          ''It may have been deleted, or Rojo may not have permission to access it.'' @ '': '' @ err)
      | Inr dir \<Rightarrow> Inr (path_join dir p))"

section \<open>What is served where\<close>

definition chosen_address :: "serve_command \<Rightarrow> ('s, 'd, 'o, 'q) serve_session \<Rightarrow> ip_addr" where
  "chosen_address c s =
     (case or_else (vc_address c) (p_serve_address (ss_root_project s)) of Some ip \<Rightarrow> ip | None \<Rightarrow> DEFAULT_BIND_ADDRESS)"

definition chosen_port :: "serve_command \<Rightarrow> ('s, 'd, 'o, 'q) serve_session \<Rightarrow> u16" where
  "chosen_port c s =
     (case or_else (vc_port c) (p_serve_port (ss_root_project s)) of Some port \<Rightarrow> port | None \<Rightarrow> DEFAULT_PORT)"

definition chosen_hosts :: "serve_command \<Rightarrow> ('s, 'd, 'o, 'q) serve_session \<Rightarrow> string list" where
  "chosen_hosts c s =
     (if vc_allowed_hosts c = [] then p_serve_allowed_hosts (ss_root_project s) else vc_allowed_hosts c)"

section \<open>The beacon\<close>

text \<open>The name of the project is missing only by a panic.\<close>

definition session_beacon :: "('s, 'd, 'o, 'q, 'b) serve_ops \<Rightarrow> ('s, 'd, 'o, 'q) serve_session \<Rightarrow> ip_addr \<Rightarrow> u16 \<Rightarrow> u64 \<Rightarrow>
    beacon option" where
  "session_beacon ops s address port now =
     map_option (\<lambda>name.
       \<lparr>sb_session_id = ss_session_id s, sb_pid = rg_process_id (so_registry ops), sb_address = so_ip_text ops address,
        sb_port = port, sb_project_name = name, sb_project_id = ss_project_id s,
        sb_project_path = p_file_location (ss_root_project s), sb_place_id = p_place_id (ss_root_project s),
        sb_game_id = p_game_id (ss_root_project s), sb_serve_place_ids = p_serve_place_ids (ss_root_project s),
        sb_auto_connect = policy_as_str (session_auto_connect s), sb_server_version = so_version ops, sb_started_at = now\<rparr>)
       (project_name s)"

section \<open>What is printed\<close>

definition auto_connect_description :: "auto_connect_policy \<Rightarrow> string" where
  "auto_connect_description policy =
     (case policy of
        Off \<Rightarrow> ''manual (press Connect in Studio)''
      | Matching \<Rightarrow> ''automatic for places this project matches''
      | Always \<Rightarrow> ''automatic from any place'')"

definition address_string :: "(ip_addr \<Rightarrow> string) \<Rightarrow> ip_addr \<Rightarrow> string" where
  "address_string ip_text ip = (if is_loopback ip then ''localhost'' else ip_text ip)"

definition bind_warning :: "string \<Rightarrow> u16 \<Rightarrow> string list" where
  "bind_warning address port =
     [''WARNING: This server is bound to '' @ address @ '', which is reachable from the network.'',
      ''The serve API is unauthenticated, so anyone who can reach '' @ address @ '':'' @ decimal (unat port) @ '' can read'',
      ''and modify your project's source. Prefer binding to localhost and tunneling (e.g. SSH,'',
      ''Tailscale, or WireGuard) when you need remote access.'',
      []]"

definition start_message :: "(ip_addr \<Rightarrow> string) \<Rightarrow> ip_addr \<Rightarrow> u16 \<Rightarrow> auto_connect_policy \<Rightarrow> string list" where
  "start_message ip_text ip port policy =
     (let address = address_string ip_text ip
      in [''Roxo server listening:'',
          ''  Address: '' @ address,
          ''  Port:    '' @ decimal (unat port),
          ''  Connect: '' @ auto_connect_description policy,
          []] @
         (if is_loopback ip then [] else bind_warning address port) @
         [''Visit http://'' @ address @ '':'' @ decimal (unat port) @ ''/ in your browser for more information.''])"


section \<open>The command\<close>

text \<open>
  \<open>LiveServer::start\<close>: the message is printed once the listener is bound; requests are then served until
  the end.
\<close>

definition live_start :: "('s, 'd, 'o, 'q, 'b) serve_ops \<Rightarrow> ip_addr \<Rightarrow> u16 \<Rightarrow> string list \<Rightarrow> string list \<Rightarrow>
    ('s, 'd, 'o, 'q) serve_session \<Rightarrow> 'b \<Rightarrow> 'b \<times> string list \<times> (string, unit) outcome" where
  "live_start ops ip port hosts message s b =
     (case so_runtime ops b of
        (b1, Inl err) \<Rightarrow> (b1, [], Failed (''Failed to start the async runtime for the web server: '' @ err))
      | (b1, Inr _) \<Rightarrow>
          (case so_bind ops ip port b1 of
             (b2, Inl err) \<Rightarrow>
               (b2, [], Failed (''Could not start the Rojo server on '' @ so_socket_text ops ip port @ ''.'' @ [CHR 0x0A] @
                  ''The address may already be in use or reserved. Another Rojo server might already '' @
                  ''be running, or another program may be using that port.'' @ [CHR 0x0A] @
                  ''You can pick a different port with the --port option.'' @ '': '' @ err))
           | (b2, Inr _) \<Rightarrow>
               (case so_serving ops (allowed_hosts ip port hosts) s b2 of
                  (b3, Failed err) \<Rightarrow> (b3, message, Failed (''The Rojo web server encountered a fatal error: '' @ err))
                | (b3, r) \<Rightarrow> (b3, message, r))))"

text \<open>The guard of the beacon is dropped when the server returns; a panic ends the process with the beacon in place.\<close>

definition with_beacon :: "('s, 'd, 'o, 'q, 'b) serve_ops \<Rightarrow> beacon \<Rightarrow>
    ('b \<Rightarrow> 'b \<times> string list \<times> (string, unit) outcome) \<Rightarrow> 'b \<Rightarrow> 'b \<times> string list \<times> (string, unit) outcome" where
  "with_beacon ops bc run b =
     (case publish (so_registry ops) b bc of
        (b1, Inl _) \<Rightarrow> run b1
      | (b1, Inr guard) \<Rightarrow>
          (case run b1 of
             (b2, printed, Panics) \<Rightarrow> (b2, printed, Panics)
           | (b2, printed, r) \<Rightarrow> (drop_guard (so_registry ops) b2 guard, printed, r)))"

definition serve_session_at :: "('s, 'd, 'o, 'q, 'b) serve_ops \<Rightarrow> serve_command \<Rightarrow> u64 \<Rightarrow> ('s, 'd, 'o, 'q) serve_session \<Rightarrow>
    'b \<Rightarrow> 'b \<times> string list \<times> (string, unit) outcome" where
  "serve_session_at ops c now s b =
     (let ip = chosen_address c s; port = chosen_port c s;
          run = live_start ops ip port (chosen_hosts c s) (start_message (so_ip_text ops) ip port (session_auto_connect s)) s
      in if vc_no_registry c then run b
         else case session_beacon ops s ip port now of
           None \<Rightarrow> (b, [], Panics)
         | Some bc \<Rightarrow> with_beacon ops bc run b)"

definition serve_run :: "('s, 'd, 'o, 'q, 'b) serve_ops \<Rightarrow> serve_command \<Rightarrow> u64 \<Rightarrow> u64 \<Rightarrow> 128 word \<Rightarrow> 's vfs \<Rightarrow> 'b \<Rightarrow>
    'b \<times> string list \<times> (string, unit) outcome" where
  "serve_run ops c start_time now sid v b =
     (case resolve_path (so_current_dir ops) (vc_project c) of
        Inl err \<Rightarrow> (b, [], Failed err)
      | Inr project_path \<Rightarrow>
          (case snd (session_new (so_session ops) start_time sid project_path v) of
             Done s \<Rightarrow> serve_session_at ops c now (set_auto_connect_override (vc_auto_connect c) s) b
           | Failed err \<Rightarrow> (b, [], Failed (so_session_error ops err))
           | Panics \<Rightarrow> (b, [], Panics)
           | OutOfFuel \<Rightarrow> (b, [], OutOfFuel)))"


section \<open>Properties\<close>

definition beacon_path :: "path \<Rightarrow> u16 \<Rightarrow> path" where
  "beacon_path dir port = path_join dir [Normal (decimal (unat port) @ ''.json'')]"

lemma publish_writes:
  assumes "vfs_backend (rg_fs e) view" and "sessions_dir e b = (b, Inr dir)" and "view b dir = Some ADir"
    and "rg_to_json e bc = Inr bytes"
  shows "\<exists>b1. publish e b bc = (b1, Inr (beacon_path dir (sb_port bc))) \<and>
    view b1 = (view b)(beacon_path dir (sb_port bc) \<mapsto> AFile bytes)"
proof -
  let ?p = "beacon_path dir (sb_port bc)"
  obtain b1 r where w: "be_write (rg_fs e) b ?p bytes = (b1, r)" by fastforce
  have "path_parent ?p = Some dir" by (simp add: beacon_path_def)
  then have "r = Inr ()" using vfs_backend.write_in_dir [OF assms(1), of ?p dir b bytes] assms(3) w by simp
  then show ?thesis
    using assms(2,4) w vfs_backend.written [OF assms(1) w] by (simp add: publish_def beacon_path_def Let_def)
qed

lemma dropped_guard:
  assumes "vfs_backend (rg_fs e) view" and "view b p = Some (AFile bytes)"
  shows "view (drop_guard e b p) = (view b)(p := None)"
proof -
  obtain b1 r where rm: "be_remove_file (rg_fs e) b p = (b1, r)" by fastforce
  show ?thesis using vfs_backend.remove_file [OF assms(1) rm] assms(2) rm by (auto simp: drop_guard_def)
qed

lemma bind_fails:
  assumes "so_runtime ops b = (b, Inr ())" and "so_bind ops ip port b = (b, Inl err)"
  shows "\<exists>failure. live_start ops ip port hosts message s b = (b, [], Failed failure)"
  by (simp add: live_start_def assms)

text \<open>
  C22. A second server on a port that is in use unregisters the first: it publishes its beacon before it
  binds the listener, over the file of the running server, and when the binding fails it removes that
  file.  The command fails, the first server still runs, and its beacon is gone; no other file is
  touched.
\<close>

theorem failed_starts_unregister_the_running_server:
  fixes ops :: "('s, 'd, 'o, 'q, 'b) serve_ops" and s :: "('s, 'd, 'o, 'q) serve_session"
  assumes "vfs_backend (rg_fs (so_registry ops)) view"
    and "sessions_dir (so_registry ops) b = (b, Inr dir)" and "view b dir = Some ADir"
    and "\<forall>bc. \<exists>bytes. rg_to_json (so_registry ops) bc = Inr bytes"
    and "resolve_path (so_current_dir ops) (vc_project c) = Inr project_path"
    and "session_new (so_session ops) start_time sid project_path v = (v', Done s)" and "project_name s \<noteq> None"
    and "\<not> vc_no_registry c" and "chosen_port c s = port"
    and "\<forall>b. so_runtime ops b = (b, Inr ()) \<and> so_bind ops (chosen_address c s) port b = (b, Inl err)"
    and "live_beacon (so_registry ops) view b (beacon_path dir port) = Some running"
  shows "\<exists>b' failure. serve_run ops c start_time now sid v b = (b', [], Failed failure) \<and>
    live_beacon (so_registry ops) view b' (beacon_path dir port) = None \<and>
    view b' = (view b)(beacon_path dir port := None)"
proof -
  let ?s = "set_auto_connect_override (vc_auto_connect c) s" and ?e = "so_registry ops"
  have same: "ss_root_project ?s = ss_root_project s" by (simp add: set_auto_connect_override_def)
  then have chosen: "chosen_address c ?s = chosen_address c s" "chosen_port c ?s = port" "project_name ?s = project_name s"
    using assms(9) by (simp_all add: chosen_address_def chosen_port_def project_name_def)
  obtain bc where bc: "session_beacon ops ?s (chosen_address c s) port now = Some bc" "sb_port bc = port"
    using assms(7) chosen(3) by (auto simp: session_beacon_def)
  obtain bytes where "rg_to_json ?e bc = Inr bytes" using assms(4) by blast
  from publish_writes [OF assms(1-3) this] obtain b1 where
    b1: "publish ?e b bc = (b1, Inr (beacon_path dir port))" "view b1 = (view b)(beacon_path dir port \<mapsto> AFile bytes)"
    unfolding bc(2) by blast
  have "view (drop_guard ?e b1 (beacon_path dir port)) = (view b)(beacon_path dir port := None)"
    using dropped_guard [OF assms(1), of b1 "beacon_path dir port" bytes] b1(2) by simp
  moreover obtain failure where
    "live_start ops (chosen_address c s) port (chosen_hosts c ?s)
       (start_message (so_ip_text ops) (chosen_address c s) port (session_auto_connect ?s)) ?s b1 = (b1, [], Failed failure)"
    using bind_fails [of ops b1 "chosen_address c s" port err] assms(10) by blast
  then have "serve_run ops c start_time now sid v b = (drop_guard ?e b1 (beacon_path dir port), [], Failed failure)"
    using assms(5,6,8) chosen bc(1) b1(1) by (simp add: serve_run_def serve_session_at_def with_beacon_def Let_def)
  ultimately show ?thesis by (auto simp: live_beacon_def beacon_at_def)
qed

text \<open>
  The start message warns exactly when the server is bound to an address that is not a loopback
  address as it is written: an IPv6 address that maps a loopback address is reported as reachable.
\<close>

lemma warns_of_open_binds:
  "list_ex (\<lambda>line. str_starts_with line ''WARNING'') (start_message ip_text ip port policy) \<longleftrightarrow> \<not> is_loopback ip"
  by (simp add: start_message_def bind_warning_def str_starts_with_def Let_def)


section \<open>Two servers on one port\<close>

definition taken_dir :: in_memory_fs where
  "taken_dir = fst (load_snapshot im_new [RootDir] (VDir [(''.roxo'', VDir [(''sessions'',
     VDir [(''34872.json'', VFile [CHR 0x02])])])]))"

definition taken_ops :: "(in_memory_fs, nat ref_dom, nat, nat, in_memory_fs) serve_ops" where
  "taken_ops =
     \<lparr>so_session = sample_session_env, so_registry = sample_env, so_current_dir = Inr [RootDir], so_session_error = \<lambda>_. [],
      so_ip_text = \<lambda>_. ''127.0.0.1'', so_socket_text = \<lambda>_ _. ''127.0.0.1:34872'', so_version = ''7'',
      so_runtime = \<lambda>b. (b, Inr ()), so_bind = \<lambda>_ _ b. (b, Inl ''in use''), so_serving = \<lambda>_ _ b. (b, Done ())\<rparr>"

definition plain_command :: serve_command where
  "plain_command = \<lparr>vc_project = [Normal ''src''], vc_address = None, vc_port = None, vc_allowed_hosts = [],
     vc_auto_connect = None, vc_no_registry = False\<rparr>"

lemma taken_path: "beacon_path sample_sessions 34872 = sample_sessions @ [Normal ''34872.json'']"
proof -
  have "unat (34872 :: u16) = 34872" by simp
  moreover have "decimal 34872 = ''34872''" 
    by (simp add: decimal.simps [of 34872] decimal.simps [of 3487] decimal.simps [of 348] decimal.simps [of 34]
        decimal.simps [of 3], code_simp)
  ultimately show ?thesis by (simp add: beacon_path_def)
qed

lemma sample_session_served:
  obtains v' s where "session_new sample_session_env 0 7 [RootDir, Normal ''src''] sample_project_files =
      (v', Done (s :: (in_memory_fs, nat ref_dom, nat, nat) serve_session))"
    "project_name s = Some ''game''" "chosen_port plain_command s = 34872"
proof -
  have "case session_new sample_session_env 0 7 [RootDir, Normal ''src''] sample_project_files of
      (v', Done (s :: (in_memory_fs, nat ref_dom, nat, nat) serve_session)) \<Rightarrow>
        project_name s = Some ''game'' \<and> chosen_port plain_command s = 34872 | _ \<Rightarrow> False"
    by code_simp
  with that show ?thesis by (auto split: prod.splits outcome.splits)
qed

lemma failed_starts_unregister_the_running_server_witness:
  "\<exists>b' failure. serve_run taken_ops plain_command 0 5 7 sample_project_files taken_dir = (b', [], Failed failure) \<and>
     live_beacon sample_env im_view taken_dir (beacon_path sample_sessions 34872) = Some (sample_beacon 2 34872) \<and>
     live_beacon sample_env im_view b' (beacon_path sample_sessions 34872) = None"
proof -
  obtain v' s where new: "session_new sample_session_env 0 7 [RootDir, Normal ''src''] sample_project_files =
      (v', Done (s :: (in_memory_fs, nat ref_dom, nat, nat) serve_session))"
    "project_name s = Some ''game''" "chosen_port plain_command s = 34872" by (rule sample_session_served)
  have ops: "so_registry taken_ops = sample_env" "so_session taken_ops = sample_session_env" "so_current_dir taken_ops = Inr [RootDir]"
    by (simp_all add: taken_ops_def)
  have facts: "vfs_backend (rg_fs (so_registry taken_ops)) im_view"
    "sessions_dir (so_registry taken_ops) taken_dir = (taken_dir, Inr sample_sessions)"
    "im_view taken_dir sample_sessions = Some ADir"
    "\<forall>bc. \<exists>bytes. rg_to_json (so_registry taken_ops) bc = Inr bytes"
    "resolve_path (so_current_dir taken_ops) (vc_project plain_command) = Inr [RootDir, Normal ''src'']"
    using sample_backend by (simp add: ops sample_env_def, unfold ops, code_simp, code_simp, simp add: sample_env_def, code_simp)
  have more_facts: "project_name s \<noteq> None" "\<not> vc_no_registry plain_command"
    "\<forall>b. so_runtime taken_ops b = (b, Inr ()) \<and> so_bind taken_ops (chosen_address plain_command s) 34872 b = (b, Inl ''in use'')"
    using new(2) by (simp_all add: taken_ops_def plain_command_def)
  have running: "live_beacon (so_registry taken_ops) im_view taken_dir (beacon_path sample_sessions 34872) =
      Some (sample_beacon 2 34872)" unfolding ops taken_path by code_simp
  have "session_new (so_session taken_ops) 0 7 [RootDir, Normal ''src''] sample_project_files = (v', Done s)"
    using new(1) by (simp add: ops)
  note failed_starts_unregister_the_running_server [OF facts this more_facts(1,2) new(3) more_facts(3) running, of 5]
  with running show ?thesis unfolding ops by blast
qed

end
