(* ===== verification/Output_Commands.thy ===== *)
theory Output_Commands
  imports Serve_Command
begin

text \<open>
  The commands that write models: \<open>src/cli/build.rs\<close>, \<open>src/cli/plugin.rs\<close> and \<open>src/cli/upload.rs\<close>.
  The native file system is the record \<open>file_ops\<close> over a state \<open>'f\<close>; the encoders of models, the
  place of Studio's plugins folder and the requests to Roblox are arguments.  An encoder gives the bytes
  it wrote until it ended or failed; what was written before a failure may be in the file or not.
\<close>

record 'f file_ops =
  fo_exists :: "path \<Rightarrow> 'f \<Rightarrow> bool"
  fo_create_dir_all :: "path \<Rightarrow> 'f \<Rightarrow> 'f \<times> unit io_result"
  fo_create :: "path \<Rightarrow> 'f \<Rightarrow> 'f \<times> unit io_result"
  fo_write :: "path \<Rightarrow> string \<Rightarrow> 'f \<Rightarrow> 'f \<times> unit io_result"
  fo_rename :: "path \<Rightarrow> path \<Rightarrow> 'f \<Rightarrow> 'f \<times> unit io_result"
  fo_remove_file :: "path \<Rightarrow> 'f \<Rightarrow> 'f \<times> unit io_result"

record ('d, 'f) output_ops =
  oo_files :: "'f file_ops"
  oo_io_text :: "io_error \<Rightarrow> string"
  oo_binary :: "'d \<Rightarrow> referent list \<Rightarrow> string \<times> (string + unit)"
  oo_xml :: "'d \<Rightarrow> referent list \<Rightarrow> string \<times> (string + unit)"
  oo_plugins_path :: "string + path"

text \<open>
  \<open>File::create\<close>, an encoder over a buffered writer, and \<open>flush\<close>: the error of the encoder comes
  before that of the flush.
\<close>

definition write_encoded :: "('d, 'f) output_ops \<Rightarrow> path \<Rightarrow> string \<times> (string + unit) \<Rightarrow> 'f \<Rightarrow> 'f \<times> (string + unit)" where
  "write_encoded ops p encoded f =
     (case fo_create (oo_files ops) p f of
        (f1, Inl e) \<Rightarrow> (f1, Inl (oo_io_text ops e))
      | (f1, Inr _) \<Rightarrow>
          (case fo_write (oo_files ops) p (fst encoded) f1 of
             (f2, written) \<Rightarrow>
               (f2, case snd encoded of
                  Inl err \<Rightarrow> Inl err
                | Inr _ \<Rightarrow> map_sum (oo_io_text ops) (\<lambda>_. ()) written)))"


section \<open>Build\<close>

datatype output_kind = Rbxmx | Rbxlx | Rbxm | Rbxl

definition from_output_path :: "path \<Rightarrow> output_kind option" where
  "from_output_path output =
     (case path_extension output of
        None \<Rightarrow> None
      | Some extension \<Rightarrow>
          (if extension = ''rbxlx'' then Some Rbxlx
           else if extension = ''rbxmx'' then Some Rbxmx
           else if extension = ''rbxl'' then Some Rbxl
           else if extension = ''rbxm'' then Some Rbxm
           else None))"

definition from_plugin_path :: "path \<Rightarrow> output_kind option" where
  "from_plugin_path output =
     (case path_extension output of
        None \<Rightarrow> None
      | Some extension \<Rightarrow>
          (if extension = ''rbxmx'' then Some Rbxmx else if extension = ''rbxm'' then Some Rbxm else None))"

text \<open>A model has the root and everything below it; a place leaves the root out.\<close>

definition written_roots :: "('d, 'o) dom_ops \<Rightarrow> ('d, 'o) rojo_tree \<Rightarrow> output_kind \<Rightarrow> referent list option" where
  "written_roots D t kind =
     (let root_id = get_root_id D t
      in if kind \<in> {Rbxm, Rbxmx} then Some [root_id]
         else case get_instance D t root_id of
           Some (Some p) \<Rightarrow> Some (i_children (fst p))
         | _ \<Rightarrow> None)"

definition encode_model :: "('d, 'f) output_ops \<Rightarrow> output_kind \<Rightarrow> 'd \<Rightarrow> referent list \<Rightarrow> string \<times> (string + unit)" where
  "encode_model ops kind = (if kind \<in> {Rbxm, Rbxl} then oo_binary ops else oo_xml ops)"

definition write_model :: "('d, 'f) output_ops \<Rightarrow> ('d, 'o) dom_ops \<Rightarrow> ('s, 'd, 'o, 'q) serve_session \<Rightarrow> path \<Rightarrow> output_kind \<Rightarrow>
    'f \<Rightarrow> 'f \<times> string list \<times> (string, unit) outcome" where
  "write_model ops D s output kind f =
     (case project_name s of
        None \<Rightarrow> (f, [], Panics)
      | Some name \<Rightarrow>
          (let building = ''Building project '' @ [CHR 0x27] @ name @ [CHR 0x27];
               built = ''Built project to '' @ (case path_file_name output of Some n \<Rightarrow> n | None \<Rightarrow> ''<invalid utf-8>'')
           in case lock_tree s of
                None \<Rightarrow> (f, [building], Panics)
              | Some t \<Rightarrow>
                  (case written_roots D t kind of
                     None \<Rightarrow> (fst (fo_create (oo_files ops) output f), [building],
                       case snd (fo_create (oo_files ops) output f) of Inl e \<Rightarrow> Failed (oo_io_text ops e) | Inr _ \<Rightarrow> Panics)
                   | Some roots \<Rightarrow>
                       (case write_encoded ops output (encode_model ops kind (rt_inner t) roots) f of
                          (f', Inl err) \<Rightarrow> (f', [building], Failed err)
                        | (f', Inr _) \<Rightarrow> (f', [building, built], Done ())))))"

definition output_target :: "('d, 'f) output_ops \<Rightarrow> path option \<Rightarrow> path option \<Rightarrow> (string, path \<times> output_kind) outcome" where
  "output_target ops output plugin =
     (case (output, plugin) of
        (None, None) \<Rightarrow> Failed (''one of the following arguments must be provided: '' @ [CHR 0x0A] @ ''    --output <OUTPUT>'' @
          [CHR 0x0A] @ ''    --plugin <PLUGIN>'')
      | (Some p, None) \<Rightarrow>
          (case from_output_path p of
             None \<Rightarrow> Failed (''Could not detect what kind of file to build. '' @
               ''Expected output file to end in .rbxl, .rbxlx, .rbxm, or .rbxmx.'')
           | Some kind \<Rightarrow> Done (p, kind))
      | (None, Some p) \<Rightarrow>
          (if is_absolute p then Failed ''plugin flag path cannot be absolute.''
           else case from_plugin_path p of
             None \<Rightarrow> Failed (''Could not detect what kind of file to build. '' @
               ''Expected plugin file to end in .rbxm or .rbxmx.'')
           | Some kind \<Rightarrow>
               (case oo_plugins_path ops of Inl err \<Rightarrow> Failed err | Inr dir \<Rightarrow> Done (path_join dir p, kind)))
      | (Some _, Some _) \<Rightarrow> Panics)"

text \<open>
  The first build and, when watching, one build for each message of the queue; the list has the session
  as each build finds it.
\<close>

fun build_rounds :: "('d, 'f) output_ops \<Rightarrow> ('d, 'o) dom_ops \<Rightarrow> path \<Rightarrow> output_kind \<Rightarrow> ('s, 'd, 'o, 'q) serve_session list \<Rightarrow>
    'f \<Rightarrow> 'f \<times> string list \<times> (string, unit) outcome" where
  "build_rounds ops D output kind [] f = (f, [], Done ())"
| "build_rounds ops D output kind (s # sessions) f =
     (case write_model ops D s output kind f of
        (f', printed, Done _) \<Rightarrow>
          (case build_rounds ops D output kind sessions f' of (f'', later, r) \<Rightarrow> (f'', printed @ later, r))
      | (f', printed, r) \<Rightarrow> (f', printed, r))"

text \<open>The whole command, with the sessions that later messages show to the watch.\<close>

definition build_run :: "('d, 'f) output_ops \<Rightarrow> ('s, 'd, 'o) session_env \<Rightarrow> (string + path) \<Rightarrow> ('o serve_session_error \<Rightarrow> string) \<Rightarrow>
    path \<Rightarrow> path option \<Rightarrow> path option \<Rightarrow> bool \<Rightarrow> u64 \<Rightarrow> 128 word \<Rightarrow> 's vfs \<Rightarrow> ('s, 'd, 'o, 'q) serve_session list \<Rightarrow>
    'f \<Rightarrow> 'f \<times> string list \<times> (string, unit) outcome" where
  "build_run ops env current_dir error_text project output plugin watch start_time sid v sessions f =
     (case output_target ops output plugin of
        Failed err \<Rightarrow> (f, [], Failed err)
      | Panics \<Rightarrow> (f, [], Panics)
      | OutOfFuel \<Rightarrow> (f, [], OutOfFuel)
      | Done (output_path, kind) \<Rightarrow>
          (case resolve_path current_dir project of
             Inl err \<Rightarrow> (f, [], Failed err)
           | Inr project_path \<Rightarrow>
               (case snd (session_new env start_time sid project_path (set_watch_enabled v watch)) of
                  Done s \<Rightarrow> build_rounds ops (sv_dom env) output_path kind (s # (if watch then sessions else [])) f
                | Failed err \<Rightarrow> (f, [], Failed (error_text err))
                | Panics \<Rightarrow> (f, [], Panics)
                | OutOfFuel \<Rightarrow> (f, [], OutOfFuel))))"


section \<open>The plugin\<close>

definition PLUGIN_FILE_NAME :: string where "PLUGIN_FILE_NAME = ''RojoManagedPlugin.rbxm''"

text \<open>\<open>with_extension("rbxm.new")\<close> of that name.\<close>

definition staging_path :: "path \<Rightarrow> path" where
  "staging_path folder = folder @ [Normal ''RojoManagedPlugin.rbxm.new'']"

definition plugin_path :: "path \<Rightarrow> path" where
  "plugin_path folder = folder @ [Normal PLUGIN_FILE_NAME]"

text \<open>The packed plugin is a snapshot of a folder, loaded into memory and served from there.\<close>

definition initialize_plugin :: "(in_memory_fs, 'd, 'o) session_env \<Rightarrow> (io_error \<Rightarrow> string) \<Rightarrow> ('o serve_session_error \<Rightarrow> string) \<Rightarrow>
    vfs_snapshot option \<Rightarrow> u64 \<Rightarrow> 128 word \<Rightarrow> (string, (in_memory_fs, 'd, 'o, 'q) serve_session) outcome" where
  "initialize_plugin env io_text error_text packed start_time sid =
     (case packed of
        None \<Rightarrow> Panics
      | Some snapshot \<Rightarrow>
          (case load_snapshot im_new [RootDir, Normal ''plugin''] snapshot of
             (fs, Inl e) \<Rightarrow> Failed (io_text e)
           | (fs, Inr _) \<Rightarrow>
               (case snd (session_new env start_time sid [RootDir, Normal ''plugin''] (vfs_new fs)) of
                  Done s \<Rightarrow> Done s
                | Failed err \<Rightarrow> Failed (error_text err)
                | Panics \<Rightarrow> Panics
                | OutOfFuel \<Rightarrow> OutOfFuel)))"

text \<open>The plugin is written beside its destination and renamed at the end.\<close>

definition stage_plugin :: "('d, 'f) output_ops \<Rightarrow> path \<Rightarrow> string \<times> (string + unit) \<Rightarrow> 'f \<Rightarrow> 'f \<times> (string, unit) outcome" where
  "stage_plugin ops folder encoded f =
     (case write_encoded ops (staging_path folder) encoded f of
        (f1, Inl err) \<Rightarrow> (f1, Failed err)
      | (f1, Inr _) \<Rightarrow>
          (case fo_rename (oo_files ops) (staging_path folder) (plugin_path folder) f1 of
             (f2, Inr _) \<Rightarrow> (f2, Done ())
           | (f2, Inl e) \<Rightarrow> (fst (fo_remove_file (oo_files ops) (staging_path folder) f2), Failed (oo_io_text ops e))))"

definition write_plugin :: "('d, 'f) output_ops \<Rightarrow> ('d, 'o) dom_ops \<Rightarrow> (string, (in_memory_fs, 'd, 'o, 'q) serve_session) outcome \<Rightarrow>
    path \<Rightarrow> 'f \<Rightarrow> 'f \<times> (string, unit) outcome" where
  "write_plugin ops D plugin_session folder f =
     (case plugin_session of
        Failed err \<Rightarrow> (f, Failed err)
      | Panics \<Rightarrow> (f, Panics)
      | OutOfFuel \<Rightarrow> (f, OutOfFuel)
      | Done s \<Rightarrow>
          (case lock_tree s of
             None \<Rightarrow> (f, Panics)
           | Some t \<Rightarrow> stage_plugin ops folder (oo_binary ops (rt_inner t) [get_root_id D t]) f))"

definition install_plugin :: "('d, 'f) output_ops \<Rightarrow> ('d, 'o) dom_ops \<Rightarrow> (string, (in_memory_fs, 'd, 'o, 'q) serve_session) outcome \<Rightarrow>
    'f \<Rightarrow> 'f \<times> (string, unit) outcome" where
  "install_plugin ops D plugin_session f =
     (case oo_plugins_path ops of
        Inl err \<Rightarrow> (f, Failed err)
      | Inr folder \<Rightarrow>
          (if fo_exists (oo_files ops) folder f then write_plugin ops D plugin_session folder f
           else case fo_create_dir_all (oo_files ops) folder f of
             (f1, Inl e) \<Rightarrow> (f1, Failed (oo_io_text ops e))
           | (f1, Inr _) \<Rightarrow> write_plugin ops D plugin_session folder f1))"

definition uninstall_plugin :: "('d, 'f) output_ops \<Rightarrow> 'f \<Rightarrow> 'f \<times> (string, unit) outcome" where
  "uninstall_plugin ops f =
     (case oo_plugins_path ops of
        Inl err \<Rightarrow> (f, Failed err)
      | Inr folder \<Rightarrow>
          (if fo_exists (oo_files ops) (plugin_path folder) f
           then (case fo_remove_file (oo_files ops) (plugin_path folder) f of
               (f1, Inl e) \<Rightarrow> (f1, Failed (oo_io_text ops e))
             | (f1, Inr _) \<Rightarrow> (f1, Done ()))
           else (f, Done ())))"


section \<open>Upload\<close>

record upload_reply =
  ur_status :: nat
  ur_csrf_token :: "string option"
  ur_text :: "string + string"

record upload_request =
  uq_url :: string
  uq_headers :: "(string \<times> string) list"
  uq_body :: string

definition upload_roots :: "('d, 'o) dom_ops \<Rightarrow> ('d, 'o) rojo_tree \<Rightarrow> referent list option" where
  "upload_roots D t =
     map_option (\<lambda>root. if i_class root = ''DataModel'' then i_children root else [i_referent root])
       (dom_get D (rt_inner t) (dom_root D (rt_inner t)))"

definition check_reply :: "upload_reply \<Rightarrow> string + unit" where
  "check_reply reply =
     (if ur_status reply div 100 = 2 then Inr ()
      else case ur_text reply of
        Inl err \<Rightarrow> Inl err
      | Inr text \<Rightarrow> Inl (''The Roblox API returned an unexpected error: '' @ text))"

definition legacy_request :: "u64 \<Rightarrow> string \<Rightarrow> string \<Rightarrow> upload_request" where
  "legacy_request asset_id cookie buffer =
     \<lparr>uq_url = ''https://data.roblox.com/Data/Upload.ashx?assetid='' @ u64_text asset_id,
      uq_headers = [(''Cookie'', ''.ROBLOSECURITY='' @ cookie), (''User-Agent'', ''Roblox/WinInet''),
        (''Content-Type'', ''application/xml''), (''Accept'', ''application/json'')],
      uq_body = buffer\<rparr>"

text \<open>A challenge is answered once, with its token.\<close>

definition do_upload :: "(upload_request \<Rightarrow> 'w \<Rightarrow> 'w \<times> (string + upload_reply)) \<Rightarrow> string \<Rightarrow> u64 \<Rightarrow> string \<Rightarrow> 'w \<Rightarrow> 'w \<times> (string + unit)" where
  "do_upload post buffer asset_id cookie w =
     (let request = legacy_request asset_id cookie buffer
      in case post request w of
           (w1, Inl err) \<Rightarrow> (w1, Inl err)
         | (w1, Inr reply) \<Rightarrow>
             (case (ur_status reply = 403, ur_csrf_token reply) of
                (True, Some token) \<Rightarrow>
                  (case post (request\<lparr>uq_headers := uq_headers request @ [(''X-CSRF-Token'', token)]\<rparr>) w1 of
                     (w2, Inl err) \<Rightarrow> (w2, Inl err)
                   | (w2, Inr second) \<Rightarrow> (w2, check_reply second))
              | _ \<Rightarrow> (w1, check_reply reply)))"

definition do_upload_open_cloud :: "(upload_request \<Rightarrow> 'w \<Rightarrow> 'w \<times> (string + upload_reply)) \<Rightarrow> string \<Rightarrow> u64 \<Rightarrow> u64 \<Rightarrow> string \<Rightarrow>
    'w \<Rightarrow> 'w \<times> (string + unit)" where
  "do_upload_open_cloud post buffer universe_id asset_id api_key w =
     (case post \<lparr>uq_url = ''https://apis.roblox.com/universes/v1/'' @ u64_text universe_id @ ''/places/'' @ u64_text asset_id @
            ''/versions?versionType=Published'',
          uq_headers = [(''x-api-key'', api_key), (''Content-Type'', ''application/xml''), (''Accept'', ''application/json'')],
          uq_body = buffer\<rparr> w of
        (w1, Inl err) \<Rightarrow> (w1, Inl err)
      | (w1, Inr reply) \<Rightarrow> (w1, check_reply reply))"

record upload_command =
  uc_cookie :: "string option"
  uc_api_key :: "string option"
  uc_universe_id :: "u64 option"
  uc_asset_id :: u64

definition upload_encoded :: "(upload_request \<Rightarrow> 'w \<Rightarrow> 'w \<times> (string + upload_reply)) \<Rightarrow> string option \<Rightarrow> upload_command \<Rightarrow> string \<Rightarrow>
    'w \<Rightarrow> 'w \<times> (string + unit)" where
  "upload_encoded post auth_cookie c buffer w =
     (case (uc_api_key c, uc_universe_id c) of
        (None, _) \<Rightarrow>
          (case or_else (uc_cookie c) auth_cookie of
             None \<Rightarrow> (w, Inl ''Rojo could not find your Roblox auth cookie. Please pass one via --cookie.'')
           | Some cookie \<Rightarrow> do_upload post buffer (uc_asset_id c) cookie w)
      | (Some api_key, Some universe_id) \<Rightarrow> do_upload_open_cloud post buffer universe_id (uc_asset_id c) api_key w
      | (Some _, None) \<Rightarrow> (w, Inl ''--universe_id must be provided to use the Open Cloud API''))"

definition upload_session :: "('d, 'f) output_ops \<Rightarrow> ('d, 'o) dom_ops \<Rightarrow> (upload_request \<Rightarrow> 'w \<Rightarrow> 'w \<times> (string + upload_reply)) \<Rightarrow>
    string option \<Rightarrow> upload_command \<Rightarrow> ('s, 'd, 'o, 'q) serve_session \<Rightarrow> 'w \<Rightarrow> 'w \<times> (string, unit) outcome" where
  "upload_session ops D post auth_cookie c s w =
     (case Option.bind (lock_tree s) (\<lambda>t. map_option (oo_binary ops (rt_inner t)) (upload_roots D t)) of
        None \<Rightarrow> (w, Panics)
      | Some (bytes, Inl err) \<Rightarrow> (w, Failed err)
      | Some (bytes, Inr _) \<Rightarrow>
          (case upload_encoded post auth_cookie c bytes w of
             (w1, Inl err) \<Rightarrow> (w1, Failed err)
           | (w1, Inr _) \<Rightarrow> (w1, Done ())))"


section \<open>Properties\<close>

text \<open>
  What is relied on of the file system: creating and writing touch only the contents of their file,
  renaming moves a file or does nothing, removing removes a file or does nothing, and folders hold no
  contents.
\<close>

definition files_ok :: "'f file_ops \<Rightarrow> ('f \<Rightarrow> path \<Rightarrow> string option) \<Rightarrow> bool" where
  "files_ok ops contents \<longleftrightarrow>
     (\<forall>p f q. q \<noteq> p \<longrightarrow> contents (fst (fo_create ops p f)) q = contents f q) \<and>
     (\<forall>p f f'. fo_create ops p f = (f', Inr ()) \<longrightarrow> contents f' p = Some []) \<and>
     (\<forall>p bytes f q. q \<noteq> p \<longrightarrow> contents (fst (fo_write ops p bytes f)) q = contents f q) \<and>
     (\<forall>p bytes f f' old. fo_write ops p bytes f = (f', Inr ()) \<longrightarrow> contents f p = Some old \<longrightarrow>
        contents f' p = Some (old @ bytes)) \<and>
     (\<forall>p q f f' r. fo_rename ops p q f = (f', r) \<longrightarrow>
        contents f' = (if r = Inr () then (contents f)(q := contents f p, p := None) else contents f)) \<and>
     (\<forall>p f f' r. fo_remove_file ops p f = (f', r) \<longrightarrow>
        contents f' = (if r = Inr () then (contents f)(p := None) else contents f)) \<and>
     (\<forall>p f q. contents (fst (fo_create_dir_all ops p f)) q = contents f q)"

lemma files_okD:
  assumes "files_ok ops contents"
  shows "q \<noteq> p \<Longrightarrow> contents (fst (fo_create ops p f)) q = contents f q"
    and "fo_create ops p f = (f', Inr ()) \<Longrightarrow> contents f' p = Some []"
    and "q \<noteq> p \<Longrightarrow> contents (fst (fo_write ops p bytes f)) q = contents f q"
    and "fo_write ops p bytes f = (f', Inr ()) \<Longrightarrow> contents f p = Some old \<Longrightarrow> contents f' p = Some (old @ bytes)"
    and "fo_rename ops p q f = (f', r) \<Longrightarrow>
      contents f' = (if r = Inr () then (contents f)(q := contents f p, p := None) else contents f)"
    and "fo_remove_file ops p f = (f', r) \<Longrightarrow>
      contents f' = (if r = Inr () then (contents f)(p := None) else contents f)"
    and "contents (fst (fo_create_dir_all ops p f)) q = contents f q"
  using assms by (auto simp: files_ok_def)

lemma encoded_touches:
  assumes "files_ok (oo_files ops) contents" and "q \<noteq> p"
  shows "contents (fst (write_encoded ops p encoded f)) q = contents f q"
proof -
  obtain f1 r where created: "fo_create (oo_files ops) p f = (f1, r)" by fastforce
  have "contents f1 q = contents f q" using files_okD(1) [OF assms, of f] created by simp
  then show ?thesis
    using created files_okD(3) [OF assms, of "fst encoded" f1]
    by (auto simp: write_encoded_def split: sum.split prod.split)
qed

lemma encoded_written:
  assumes "files_ok (oo_files ops) contents" and "write_encoded ops p encoded f = (f', Inr u)"
  shows "contents f' p = Some (fst encoded) \<and> snd encoded = Inr ()"
  using assms(2) files_okD(2,4) [OF assms(1)]
  by (auto simp: write_encoded_def map_sum_eq_Inr split: sum.splits prod.splits) 

lemma staged:
  assumes files: "files_ok (oo_files ops) contents" and "stage_plugin ops folder encoded f = (f', r)"
  shows "(if r = Done () then snd encoded = Inr () \<and> contents f' (plugin_path folder) = Some (fst encoded) \<and>
       contents f' (staging_path folder) = None
     else contents f' (plugin_path folder) = contents f (plugin_path folder)) \<and>
     (\<forall>q. q \<noteq> plugin_path folder \<longrightarrow> q \<noteq> staging_path folder \<longrightarrow> contents f' q = contents f q)"
proof -
  let ?plugin = "plugin_path folder" and ?staging = "staging_path folder"
  have apart: "?plugin \<noteq> ?staging" by (simp add: plugin_path_def staging_path_def PLUGIN_FILE_NAME_def)
  obtain f1 e1 where w: "write_encoded ops ?staging encoded f = (f1, e1)" by fastforce
  have kept: "contents f1 q = contents f q" if "q \<noteq> ?staging" for q using encoded_touches [OF files that, of encoded f] w by simp
  obtain f2 e2 where m: "fo_rename (oo_files ops) ?staging ?plugin f1 = (f2, e2)" by fastforce
  obtain f3 e3 where d: "fo_remove_file (oo_files ops) ?staging f2 = (f3, e3)" by fastforce
  note moved = files_okD(5) [OF files m] and removed = files_okD(6) [OF files d]
  show ?thesis
  proof (cases e1)
    case (Inl err)
    then show ?thesis using assms(2) w kept apart by (auto simp: stage_plugin_def)
  next
    case (Inr u)
    note written = encoded_written [OF files, of ?staging encoded f f1 u]
    show ?thesis
      using assms(2) w m d kept apart moved removed written Inr
      by (cases e2) (auto simp: stage_plugin_def split: if_splits)
  qed
qed

text \<open>
  An install of the plugin is atomic: whatever fails, the packed plugin, the encoder, the disk or
  the rename, the plugin that was there has its old contents; on success it has all the bytes of the new
  one and no staging file is left.  Nothing else in the file system is touched.
\<close>

theorem installs_are_atomic:
  assumes files: "files_ok (oo_files ops) contents" and folder: "oo_plugins_path ops = Inr folder"
    and "install_plugin ops D plugin_session f = (f', r)"
  shows "(if r = Done () then
       \<exists>s t. plugin_session = Done s \<and> lock_tree s = Some t \<and> snd (oo_binary ops (rt_inner t) [get_root_id D t]) = Inr () \<and>
         contents f' (plugin_path folder) = Some (fst (oo_binary ops (rt_inner t) [get_root_id D t])) \<and>
         contents f' (staging_path folder) = None
     else contents f' (plugin_path folder) = contents f (plugin_path folder)) \<and>
     (\<forall>q. q \<noteq> plugin_path folder \<longrightarrow> q \<noteq> staging_path folder \<longrightarrow> contents f' q = contents f q)"
proof -
  have wrote: "(if r = Done () then
       \<exists>s t. plugin_session = Done s \<and> lock_tree s = Some t \<and> snd (oo_binary ops (rt_inner t) [get_root_id D t]) = Inr () \<and>
         contents f' (plugin_path folder) = Some (fst (oo_binary ops (rt_inner t) [get_root_id D t])) \<and>
         contents f' (staging_path folder) = None
     else contents f' (plugin_path folder) = contents f1 (plugin_path folder)) \<and>
     (\<forall>q. q \<noteq> plugin_path folder \<longrightarrow> q \<noteq> staging_path folder \<longrightarrow> contents f' q = contents f1 q)"
    if "write_plugin ops D plugin_session folder f1 = (f', r)" for f1
    using that staged [OF files, of folder]
    by (auto simp: write_plugin_def split: outcome.splits option.splits)
  obtain f1 e where made: "fo_create_dir_all (oo_files ops) folder f = (f1, e)" by fastforce
  have same: "contents f1 = contents f" using files_okD(7) [OF files, of folder f] made by (auto simp: fun_eq_iff)
  show ?thesis
  proof (cases "fo_exists (oo_files ops) folder f \<or> (\<exists>u. e = Inr u)")
    case True
    then show ?thesis
      using assms(3) folder made same wrote [of f] wrote [of f1]
      by (auto simp: install_plugin_def split: if_splits)
  next
    case False
    then show ?thesis
      using assms(3) folder made same by (cases e) (auto simp: install_plugin_def)
  qed
qed

text \<open>
  A build is not: the output is truncated before the model is encoded, so when the encoder fails
  the old output is lost, and what the encoder wrote until then stands in its place.
\<close>

theorem failed_builds_lose_the_old_output:
  assumes "files_ok (oo_files ops) contents" and "project_name s = Some name" and "lock_tree s = Some t"
    and "written_roots D t kind = Some roots" and "encode_model ops kind (rt_inner t) roots = (bytes, Inl err)"
    and "fo_create (oo_files ops) output f = (f1, Inr ())" and "fo_write (oo_files ops) output bytes f1 = (f2, Inr ())"
  shows "\<exists>printed. write_model ops D s output kind f = (f2, printed, Failed err) \<and> contents f2 output = Some bytes"
proof -
  have "contents f2 output = Some ([] @ bytes)"
    using files_okD(4) [OF assms(1,7)] files_okD(2) [OF assms(1,6)] by blast
  then show ?thesis
    using assms(2-7) by (simp add: write_model_def write_encoded_def Let_def)
qed


section \<open>A small disk\<close>

definition map_files :: "(path \<Rightarrow> string option) file_ops" where
  "map_files =
     \<lparr>fo_exists = \<lambda>p f. f p \<noteq> None, fo_create_dir_all = \<lambda>_ f. (f, Inr ()),
      fo_create = \<lambda>p f. (f(p \<mapsto> []), Inr ()),
      fo_write = \<lambda>p bytes f. (case f p of None \<Rightarrow> (f, Inl noop_error) | Some old \<Rightarrow> (f(p \<mapsto> old @ bytes), Inr ())),
      fo_rename = \<lambda>p q f. (case f p of None \<Rightarrow> (f, Inl noop_error) | Some bytes \<Rightarrow> (f(q \<mapsto> bytes, p := None), Inr ())),
      fo_remove_file = \<lambda>p f. (case f p of None \<Rightarrow> (f, Inl noop_error) | Some _ \<Rightarrow> (f(p := None), Inr ()))\<rparr>"

lemma map_files_ok: "files_ok map_files (\<lambda>f. f)"
  by (auto simp: files_ok_def map_files_def split: option.splits)

definition failing_ops :: "(nat ref_dom, path \<Rightarrow> string option) output_ops" where
  "failing_ops =
     \<lparr>oo_files = map_files, oo_io_text = ie_message, oo_binary = \<lambda>_ _. (''half'', Inl ''bad''),
      oo_xml = \<lambda>_ _. ([], Inl ''bad''), oo_plugins_path = Inr [RootDir]\<rparr>"

lemma installs_are_atomic_witness:
  "fst (install_plugin failing_ops ref_dom_ops (Done (sample_session bare_tree [])) [plugin_path [RootDir] \<mapsto> ''old''])
     (plugin_path [RootDir]) = Some ''old''"
proof -
  let ?run = "install_plugin failing_ops ref_dom_ops (Done (sample_session bare_tree [])) [plugin_path [RootDir] \<mapsto> ''old'']"
  have files: "files_ok (oo_files failing_ops) (\<lambda>f. f)" "oo_plugins_path failing_ops = Inr [RootDir]"
    using map_files_ok by (simp_all add: failing_ops_def)
  obtain f' r where run: "?run = (f', r)" by fastforce
  have "r \<noteq> Done ()"
    using installs_are_atomic [OF files run] by (auto simp: failing_ops_def)
  then show ?thesis using installs_are_atomic [OF files run] run by simp
qed

lemma failed_builds_lose_the_old_output_witness:
  "\<exists>f printed. write_model failing_ops ref_dom_ops (sample_session bare_tree []) [RootDir, Normal ''m.rbxm''] Rbxm
      [[RootDir, Normal ''m.rbxm''] \<mapsto> ''old''] = (f, printed, Failed ''bad'') \<and> f [RootDir, Normal ''m.rbxm''] = Some ''half''"
proof -
  have files: "files_ok (oo_files failing_ops) (\<lambda>f. f)" using map_files_ok by (simp add: failing_ops_def)
  have "project_name (sample_session bare_tree []) = Some ''game''" "lock_tree (sample_session bare_tree []) = Some bare_tree"
    "written_roots ref_dom_ops bare_tree Rbxm = Some [get_root_id ref_dom_ops bare_tree]"
    "encode_model failing_ops Rbxm (rt_inner bare_tree) [get_root_id ref_dom_ops bare_tree] = (''half'', Inl ''bad'')"
    "fo_create (oo_files failing_ops) [RootDir, Normal ''m.rbxm''] [[RootDir, Normal ''m.rbxm''] \<mapsto> ''old''] =
       ([[RootDir, Normal ''m.rbxm''] \<mapsto> []], Inr ())"
    "fo_write (oo_files failing_ops) [RootDir, Normal ''m.rbxm''] ''half'' [[RootDir, Normal ''m.rbxm''] \<mapsto> []] =
       ([[RootDir, Normal ''m.rbxm''] \<mapsto> ''half''], Inr ())"
    by (simp_all add: project_name_def sample_session_def lock_tree_def written_roots_def encode_model_def failing_ops_def map_files_def)
  from failed_builds_lose_the_old_output [OF files this] show ?thesis by blast
qed

end
