(* ===== verification/Init_Command.thy ===== *)
theory Init_Command
  imports Serve_Command
begin

text \<open>
  The command that starts a project, \<open>src/cli/init.rs\<close>: a template, a folder of the packed templates, is
  loaded into memory and copied, file by file.  The native file system and git are the record
  \<open>init_ops\<close> over a state \<open>'f\<close>.  The walk over the template is breadth first; its fuel counts the
  entries that are taken from the queue.
\<close>

record 'f init_ops =
  io_text :: "io_error \<Rightarrow> string"
  io_create_dir_all :: "path \<Rightarrow> 'f \<Rightarrow> 'f \<times> unit io_result"
  io_canonicalize :: "path \<Rightarrow> 'f \<Rightarrow> path io_result"
  io_create_dir :: "path \<Rightarrow> 'f \<Rightarrow> 'f \<times> unit io_result"
  io_create_new :: "path \<Rightarrow> 'f \<Rightarrow> 'f \<times> unit io_result"
  io_write_all :: "path \<Rightarrow> string \<Rightarrow> 'f \<Rightarrow> 'f \<times> unit io_result"
  io_inside_work_tree :: "path \<Rightarrow> 'f \<Rightarrow> bool io_result"
  io_git_init :: "path \<Rightarrow> 'f \<Rightarrow> 'f \<times> (io_error + string option)"
  io_version :: string

definition GIT_IGNORE_PLACEHOLDER :: string where "GIT_IGNORE_PLACEHOLDER = ''gitignore.txt''"

datatype init_kind = PlaceKind | ModelKind | PluginKind

definition init_kind_from_str :: "string \<Rightarrow> string + init_kind" where
  "init_kind_from_str source =
     (if source = ''place'' then Inr PlaceKind
      else if source = ''model'' then Inr ModelKind
      else if source = ''plugin'' then Inr PluginKind
      else Inl (''Invalid init kind '' @ [CHR 0x27] @ source @ [CHR 0x27] @ ''. Valid kinds are: place, model, plugin''))"

definition template_path :: "init_kind \<Rightarrow> string" where
  "template_path kind = (case kind of PlaceKind \<Rightarrow> ''place'' | ModelKind \<Rightarrow> ''model'' | PluginKind \<Rightarrow> ''plugin'')"

definition kind_debug :: "init_kind \<Rightarrow> string" where
  "kind_debug kind = (case kind of PlaceKind \<Rightarrow> ''Place'' | ModelKind \<Rightarrow> ''Model'' | PluginKind \<Rightarrow> ''Plugin'')"

text \<open>The packed templates are decoded by bincode, which may fail.\<close>

definition template_of :: "(io_error \<Rightarrow> string) \<Rightarrow> init_kind \<Rightarrow> string + vfs_snapshot \<Rightarrow> string + in_memory_fs" where
  "template_of to_text kind packed =
     (case packed of
        Inl err \<Rightarrow> Inl ((''Rojo's templates were not properly packed into Rojo's binary. '' @
          ''This is a bug in Rojo; please file an issue.'') @ '': '' @ err)
      | Inr (VFile _) \<Rightarrow> Inl (''Rojo's templates were packed as a file instead of a directory. '' @
          ''This is a bug in Rojo; please file an issue.'')
      | Inr (VDir children) \<Rightarrow>
          (case map_of children (template_path kind) of
             None \<Rightarrow> Inl (''The template for project type '' @ kind_debug kind @
               '' is missing. This is a bug in Rojo; please file an issue.'')
           | Some template \<Rightarrow>
               (case load_snapshot im_new [] template of
                  (_, Inl e) \<Rightarrow> Inl (''Failed to load Rojo's bundled template into memory: '' @ to_text e)
                | (fs, Inr _) \<Rightarrow> Inr fs)))"

text \<open>\<open>str::replace\<close>: matches from the left, none overlapping.\<close>

function str_replace :: "string \<Rightarrow> string \<Rightarrow> string \<Rightarrow> string" where
  "str_replace pat to [] = []"
| "str_replace pat to (c # cs) =
     (if pat \<noteq> [] \<and> str_starts_with (c # cs) pat then to @ str_replace pat to (drop (length pat) (c # cs))
      else c # str_replace pat to cs)"
  by pat_completeness auto
termination by (relation "measure (\<lambda>(pat, to, s). length s)") auto

declare str_replace.simps [simp del]

definition render_template :: "string \<Rightarrow> string \<Rightarrow> string \<Rightarrow> string" where
  "render_template version name template =
     str_replace ''{rojo_version}'' version (str_replace ''{project_name}'' name template)"

text \<open>A file is made only where there is none.\<close>

definition write_if_not_exists :: "('f, 'x) init_ops_scheme \<Rightarrow> path \<Rightarrow> string \<Rightarrow> 'f \<Rightarrow> 'f \<times> unit io_result" where
  "write_if_not_exists ops p contents f =
     (case io_create_new ops p f of
        (f1, Inl e) \<Rightarrow> (f1, if ie_kind e = AlreadyExists then Inr () else Inl e)
      | (f1, Inr _) \<Rightarrow> io_write_all ops p contents f1)"

text \<open>Where a file of the template goes; the placeholder is skipped with git.\<close>

definition init_target :: "bool \<Rightarrow> path \<Rightarrow> path option" where
  "init_target skip_git p =
     (if path_file_name p = Some GIT_IGNORE_PLACEHOLDER
      then if skip_git then None else Some (butlast p @ [Normal ''.gitignore''])
      else Some p)"

fun collect_entries :: "path io_result list \<Rightarrow> path list io_result" where
  "collect_entries [] = Inr []"
| "collect_entries (Inl e # es) = Inl e"
| "collect_entries (Inr p # es) = map_sum id ((#) p) (collect_entries es)"

definition list_template :: "in_memory_fs vfs \<Rightarrow> path \<Rightarrow> in_memory_fs vfs \<times> path list io_result" where
  "list_template v p =
     (case vfs_read_dir in_memory_backend v p of
        (v1, Inl e) \<Rightarrow> (v1, Inl e)
      | (v1, Inr es) \<Rightarrow> (v1, collect_entries es))"

text \<open>One turn of the walk: what it adds to the queue, and its effect outside.\<close>

definition init_dir :: "('f, 'x) init_ops_scheme \<Rightarrow> path \<Rightarrow> path \<Rightarrow> in_memory_fs vfs \<Rightarrow> 'f \<Rightarrow>
    in_memory_fs vfs \<times> 'f \<times> path list io_result" where
  "init_dir ops base p v f =
     (case io_create_dir ops (path_join base p) f of
        (f1, Inl e) \<Rightarrow> (v, f1, Inl e)
      | (f1, Inr _) \<Rightarrow> (case list_template v p of (v1, r) \<Rightarrow> (v1, f1, r)))"

definition init_file :: "('f, 'x) init_ops_scheme \<Rightarrow> bool \<Rightarrow> string \<Rightarrow> path \<Rightarrow> path \<Rightarrow> in_memory_fs vfs \<Rightarrow> 'f \<Rightarrow>
    in_memory_fs vfs \<times> 'f \<times> path list io_result" where
  "init_file ops skip_git name base p v f =
     (case vfs_read_to_string_lf_normalized in_memory_backend v p of
        (v1, Inl e) \<Rightarrow> (v1, f, Inl e)
      | (v1, Inr content) \<Rightarrow>
          (case init_target skip_git p of
             None \<Rightarrow> (v1, f, Inr [])
           | Some target \<Rightarrow>
               (case write_if_not_exists ops (path_join base target) (render_template (io_version ops) name content) f of
                  (f1, r) \<Rightarrow> (v1, f1, map_sum id (\<lambda>_. []) r))))"

definition init_entry :: "('f, 'x) init_ops_scheme \<Rightarrow> bool \<Rightarrow> string \<Rightarrow> path \<Rightarrow> path \<Rightarrow> in_memory_fs vfs \<Rightarrow> 'f \<Rightarrow>
    in_memory_fs vfs \<times> 'f \<times> path list io_result" where
  "init_entry ops skip_git name base p v f =
     (case vfs_metadata in_memory_backend v p of
        (v1, Inl e) \<Rightarrow> (v1, f, Inl e)
      | (v1, Inr m) \<Rightarrow> (if is_dir m then init_dir ops base p v1 f else init_file ops skip_git name base p v1 f))"

fun init_loop :: "('f, 'x) init_ops_scheme \<Rightarrow> nat \<Rightarrow> bool \<Rightarrow> string \<Rightarrow> path \<Rightarrow> path list \<Rightarrow> in_memory_fs vfs \<Rightarrow> 'f \<Rightarrow>
    'f \<times> (string, unit) outcome" where
  "init_loop ops fuel skip_git name base [] v f = (f, Done ())"
| "init_loop ops 0 skip_git name base (p # paths) v f = (f, OutOfFuel)"
| "init_loop ops (Suc fuel) skip_git name base (p # paths) v f =
     (case init_entry ops skip_git name base p v f of
        (v1, f1, Inl e) \<Rightarrow> (f1, Failed (io_text ops e))
      | (v1, f1, Inr found) \<Rightarrow> init_loop ops fuel skip_git name base (paths @ found) v1 f1)"

definition should_git_init :: "('f, 'x) init_ops_scheme \<Rightarrow> path \<Rightarrow> 'f \<Rightarrow> bool" where
  "should_git_init ops p f = (case io_inside_work_tree ops p f of Inr success \<Rightarrow> \<not> success | Inl _ \<Rightarrow> False)"

text \<open>The exit status of git is nothing for success, or the text of its code.\<close>

definition git_init :: "('f, 'x) init_ops_scheme \<Rightarrow> path \<Rightarrow> 'f \<Rightarrow> 'f \<times> (string, unit) outcome" where
  "git_init ops base f =
     (case io_git_init ops base f of
        (f1, Inl e) \<Rightarrow> (f1, Failed (io_text ops e))
      | (f1, Inr None) \<Rightarrow> (f1, Done ())
      | (f1, Inr (Some code)) \<Rightarrow> (f1, Failed (''git init failed: status code '' @ code)))"

definition copy_template :: "('f, 'x) init_ops_scheme \<Rightarrow> nat \<Rightarrow> bool \<Rightarrow> string \<Rightarrow> path \<Rightarrow> in_memory_fs \<Rightarrow> 'f \<Rightarrow>
    'f \<times> (string, unit) outcome" where
  "copy_template ops fuel skip_git name base template f =
     (case list_template (set_watch_enabled (vfs_new template) False) [] of
        (v, Inl e) \<Rightarrow> (f, Failed (io_text ops e))
      | (v, Inr paths) \<Rightarrow> init_loop ops fuel skip_git name base paths v f)"

text \<open>What follows once the folder is there: the walk, and git.\<close>

definition init_project :: "('f, 'x) init_ops_scheme \<Rightarrow> nat \<Rightarrow> init_kind \<Rightarrow> bool \<Rightarrow> in_memory_fs \<Rightarrow> path \<Rightarrow> string \<Rightarrow>
    'f \<Rightarrow> 'f \<times> string list \<times> (string, unit) outcome" where
  "init_project ops fuel kind skip_git template base name f =
     (let creating = ''Creating new '' @ kind_debug kind @ '' project '' @ [CHR 0x27] @ name @ [CHR 0x27]
      in case copy_template ops fuel skip_git name base template f of
           (f1, Done _) \<Rightarrow>
             (case (if \<not> skip_git \<and> should_git_init ops base f1 then git_init ops base f1 else (f1, Done ())) of
                (f2, Done _) \<Rightarrow> (f2, [creating, ''Created project successfully.''], Done ())
              | (f2, r) \<Rightarrow> (f2, [creating], r))
         | (f1, r) \<Rightarrow> (f1, [creating], r))"

definition init_run :: "('f, 'x) init_ops_scheme \<Rightarrow> nat \<Rightarrow> string + vfs_snapshot \<Rightarrow> string + path \<Rightarrow> path \<Rightarrow> init_kind \<Rightarrow> bool \<Rightarrow>
    'f \<Rightarrow> 'f \<times> string list \<times> (string, unit) outcome" where
  "init_run ops fuel packed current_dir p kind skip_git f =
     (case template_of (io_text ops) kind packed of
        Inl err \<Rightarrow> (f, [], Failed err)
      | Inr template \<Rightarrow>
          (case resolve_path current_dir p of
             Inl err \<Rightarrow> (f, [], Failed err)
           | Inr base \<Rightarrow>
               (case io_create_dir_all ops base f of
                  (f1, Inl e) \<Rightarrow> (f1, [], Failed (io_text ops e))
                | (f1, Inr _) \<Rightarrow>
                    (case io_canonicalize ops base f1 of
                       Inl e \<Rightarrow> (f1, [], Failed (io_text ops e))
                     | Inr whole \<Rightarrow>
                         init_project ops fuel kind skip_git template base
                           (case path_file_name whole of Some n \<Rightarrow> n | None \<Rightarrow> ''new-project'') f1))))"


section \<open>Existing files are kept\<close>

text \<open>
  What is relied on: making folders and git leave the contents of existing files, a new file is made only
  where there was none, and writing touches only its file.
\<close>

definition keeps_files :: "('f \<Rightarrow> path \<Rightarrow> string option) \<Rightarrow> 'f \<Rightarrow> 'f \<Rightarrow> bool" where
  "keeps_files contents f f' \<longleftrightarrow> (\<forall>q c. contents f q = Some c \<longrightarrow> contents f' q = Some c)"

definition init_files_ok :: "('f, 'x) init_ops_scheme \<Rightarrow> ('f \<Rightarrow> path \<Rightarrow> string option) \<Rightarrow> bool" where
  "init_files_ok ops contents \<longleftrightarrow>
     (\<forall>p f. keeps_files contents f (fst (io_create_dir_all ops p f))) \<and>
     (\<forall>p f. keeps_files contents f (fst (io_create_dir ops p f))) \<and>
     (\<forall>p f. keeps_files contents f (fst (io_git_init ops p f))) \<and>
     (\<forall>p f. keeps_files contents f (fst (io_create_new ops p f))) \<and>
     (\<forall>p f f'. io_create_new ops p f = (f', Inr ()) \<longrightarrow> contents f p = None) \<and>
     (\<forall>p c f q. q \<noteq> p \<longrightarrow> contents (fst (io_write_all ops p c f)) q = contents f q)"

lemma keeps_files_trans: "keeps_files contents f g \<Longrightarrow> keeps_files contents g h \<Longrightarrow> keeps_files contents f h"
  by (simp add: keeps_files_def)

lemma keeps_files_refl [simp]: "keeps_files contents f f"
  by (simp add: keeps_files_def)

lemma init_files_okD:
  assumes "init_files_ok ops contents"
  shows "keeps_files contents f (fst (io_create_dir_all ops p f))"
    and "keeps_files contents f (fst (io_create_dir ops p f))"
    and "keeps_files contents f (fst (io_git_init ops p f))"
    and "keeps_files contents f (fst (io_create_new ops p f))"
    and "io_create_new ops p f = (f', Inr ()) \<Longrightarrow> contents f p = None"
    and "q \<noteq> p \<Longrightarrow> contents (fst (io_write_all ops p c f)) q = contents f q"
  using assms by (auto simp: init_files_ok_def)

lemma write_keeps:
  assumes "init_files_ok ops contents"
  shows "keeps_files contents f (fst (write_if_not_exists ops p c f))"
proof -
  obtain f1 r where made: "io_create_new ops p f = (f1, r)" by fastforce
  have first: "keeps_files contents f f1" using init_files_okD(4) [OF assms, of f p] made by simp
  show ?thesis
  proof (cases r)
    case (Inl e)
    then show ?thesis using made first by (simp add: write_if_not_exists_def)
  next
    case (Inr u)
    then have "contents f p = None" using init_files_okD(5) [OF assms, of p f f1] made by simp
    then have "contents (fst (io_write_all ops p c f1)) q = contents f1 q" if "contents f q = Some old" for q old
      using that init_files_okD(6) [OF assms, of q p c f1] by fastforce
    then show ?thesis
      using made first Inr by (auto simp: write_if_not_exists_def keeps_files_def)
  qed
qed

lemma entry_keeps:
  assumes "init_files_ok ops contents"
  shows "keeps_files contents f (fst (snd (init_entry ops skip_git name base p v f)))"
  using init_files_okD(2) [OF assms, of f "path_join base p"] write_keeps [OF assms]
  by (auto simp: init_entry_def init_dir_def init_file_def split: prod.splits sum.splits option.splits)
    (metis fst_conv)+

lemma loop_keeps:
  assumes "init_files_ok ops contents"
  shows "keeps_files contents f (fst (init_loop ops fuel skip_git name base paths v f))"
proof (induction fuel arbitrary: paths v f)
  case 0
  then show ?case by (cases paths) simp_all
next
  case (Suc fuel)
  show ?case
  proof (cases paths)
    case (Cons p others)
    obtain v1 f1 r where entry: "init_entry ops skip_git name base p v f = (v1, f1, r)" by (cases "init_entry ops skip_git name base p v f") auto
    have first: "keeps_files contents f f1" using entry_keeps [OF assms, of f skip_git name base p v] entry by simp
    show ?thesis using entry Cons first keeps_files_trans [OF first Suc.IH] by (cases r) simp_all
  qed simp
qed

lemma project_keeps:
  assumes "init_files_ok ops contents"
  shows "keeps_files contents f (fst (init_project ops fuel kind skip_git template base name f))"
proof -
  obtain f1 r1 where copied: "copy_template ops fuel skip_git name base template f = (f1, r1)" by fastforce
  have k1: "keeps_files contents f f1"
    using copied loop_keeps [OF assms] by (auto simp: copy_template_def split: prod.splits sum.splits) (metis fst_conv)+
  obtain f2 r2 where git: "git_init ops base f1 = (f2, r2)" by fastforce
  have "keeps_files contents f1 f2"
    using git init_files_okD(3) [OF assms, of f1 base] by (auto simp: git_init_def split: prod.splits sum.splits option.splits)
  then have k2: "keeps_files contents f f2" using k1 by (rule keeps_files_trans [rotated])
  show ?thesis
    using copied git k1 k2 by (cases r1; cases r2) (simp_all add: init_project_def Let_def)
qed

text \<open>
  The init command overwrites nothing: whatever its outcome, and however often it is run, every file
  that was there before has the same contents afterwards.
\<close>

theorem init_keeps_existing_files:
  assumes "init_files_ok ops contents" and "contents f q = Some c"
  shows "contents (fst (init_run ops fuel packed current_dir p kind skip_git f)) q = Some c"
proof -
  have "keeps_files contents f (fst (init_run ops fuel packed current_dir p kind skip_git f))"
  proof (cases "template_of (io_text ops) kind packed"; cases "resolve_path current_dir p")
    fix template base
    assume start: "template_of (io_text ops) kind packed = Inr template" "resolve_path current_dir p = Inr base"
    obtain f1 r1 where made: "io_create_dir_all ops base f = (f1, r1)" by fastforce
    then have k1: "keeps_files contents f f1" using init_files_okD(1) [OF assms(1), of f base] by simp
    show ?thesis
      using start made k1 keeps_files_trans [OF k1 project_keeps [OF assms(1)]]
      by (cases r1) (simp_all add: init_run_def split: sum.split)
  qed (simp_all add: init_run_def)
  then show ?thesis using assms(2) by (simp add: keeps_files_def)
qed


section \<open>The walk ends\<close>

fun template_size :: "vfs_snapshot \<Rightarrow> nat" where
  "template_size (VFile c) = 1"
| "template_size (VDir cs) = Suc (sum_list (map (\<lambda>(_, s). template_size s) cs))"

lemma template_size_pos [simp]: "template_size t \<noteq> 0"
  by (cases t) simp_all

text \<open>The file system holds the template.\<close>

definition holds_template :: "vfs_snapshot \<Rightarrow> in_memory_fs vfs \<Rightarrow> bool" where
  "holds_template tpl v \<longleftrightarrow> \<not> watch_enabled v \<and>
     (\<forall>ns t. snapshot_at tpl ns = Some t \<longrightarrow> hm_get (entries (backend v)) (map Normal ns) = Some (entry_of (map Normal ns) t))"

lemma loaded_template:
  assumes "load_snapshot im_new [] tpl = (fs, Inr ())" and "snapshot_ok tpl"
  shows "holds_template tpl (set_watch_enabled (vfs_new fs) False)"
  using load_contents(1) [OF assms, of _] by (auto simp: holds_template_def set_watch_enabled_def vfs_new_def)

lemma collect_entries_all: "collect_entries (map Inr ps) = Inr ps"
  by (induction ps) simp_all

lemma list_template_dir:
  assumes "holds_template tpl v" and "snapshot_at tpl ns = Some (VDir cs)"
  shows "list_template v (map Normal ns) = (v, Inr (child_paths (map Normal ns) cs []))"
  using assms
  by (simp add: holds_template_def list_template_def vfs_read_dir_def then_watch_def on_backend_def in_memory_backend_def
      im_read_dir_def collect_entries_all)

lemma snapshot_at_append:
  "snapshot_at s (ns @ ms) = Option.bind (snapshot_at s ns) (\<lambda>t. snapshot_at t ms)"
  by (induction s ns rule: snapshot_at.induct) (auto split: Option.bind_splits)

lemma snapshot_at_ok: "snapshot_ok s \<Longrightarrow> snapshot_at s ns = Some t \<Longrightarrow> snapshot_ok t"
  by (induction s ns rule: snapshot_at.induct) (auto split: Option.bind_splits dest!: map_of_SomeD)

lemma sum_list_same_mset:
  fixes g :: "'a \<Rightarrow> nat"
  assumes "mset xs = mset ys"
  shows "sum_list (map g xs) = sum_list (map g ys)"
  using assms by (metis mset_map sum_mset_sum_list)

text \<open>The children of a folder of the template, as work for the walk.\<close>

lemma folder_items:
  assumes "snapshot_at tpl ns = Some (VDir cs)" and "snapshot_ok tpl"
  shows "\<exists>items. map (map Normal \<circ> fst) items = child_paths (map Normal ns) cs [] \<and>
    (\<forall>(ms, t) \<in> set items. snapshot_at tpl ms = Some t) \<and>
    sum_list (map (template_size \<circ> snd) items) = sum_list (map (\<lambda>(_, s). template_size s) cs)"
proof -
  have distinct: "distinct (map fst cs)" using snapshot_at_ok [OF assms(2,1)] by simp
  let ?p = "map Normal ns"
  let ?name = "\<lambda>q. (case last q of Normal n \<Rightarrow> n | _ \<Rightarrow> [])"
  let ?item = "\<lambda>q. (ns @ [?name q], the (map_of cs (?name q)))"
  let ?items = "map ?item (child_paths ?p cs [])"
  have children: "\<exists>n s. q = ?p @ [Normal n] \<and> (n, s) \<in> set cs" if "q \<in> set (child_paths ?p cs [])" for q
    using that by (auto simp: set_child_paths)
  have value_at: "map_of cs n = Some s" if "(n, s) \<in> set cs" for n s using that distinct by simp
  have "map (map Normal \<circ> fst) ?items = child_paths ?p cs []"
    by (simp add: comp_def) (rule map_idI, use children in fastforce)
  moreover have "\<forall>(ms, t) \<in> set ?items. snapshot_at tpl ms = Some t"
    using children value_at assms(1) by (fastforce simp: snapshot_at_append)
  moreover have "sum_list (map (template_size \<circ> snd) ?items) = sum_list (map (\<lambda>(_, s). template_size s) cs)"
  proof -
    have named: "distinct (map (\<lambda>(n, _). ?p @ [Normal n]) cs)"
      using distinct distinct_map [of "\<lambda>n. ?p @ [Normal n]" "map fst cs"] by (simp add: comp_def split_def inj_on_def)
    have "set (child_paths ?p cs []) = set (map (\<lambda>(n, _). ?p @ [Normal n]) cs)" by (simp add: set_child_paths)
    then have "mset (child_paths ?p cs []) = mset (map (\<lambda>(n, _). ?p @ [Normal n]) cs)"
      by (rule set_eq_iff_mset_eq_distinct [OF distinct_child_paths [OF distinct.simps(1) [THEN iffD2, OF TrueI]] named, THEN iffD1])
    then have "sum_list (map (template_size \<circ> snd \<circ> ?item) (child_paths ?p cs [])) =
        sum_list (map (template_size \<circ> snd \<circ> ?item) (map (\<lambda>(n, _). ?p @ [Normal n]) cs))"
      by (rule sum_list_same_mset)
    also have "\<dots> = sum_list (map (\<lambda>(_, s). template_size s) cs)"
      using value_at by (auto intro!: arg_cong [where f = sum_list] simp: comp_def)
    finally show ?thesis by (simp add: comp_def)
  qed
  ultimately show ?thesis by blast
qed

lemma entry_of_template:
  assumes "holds_template tpl v" and "snapshot_at tpl ns = Some t"
  shows "init_entry ops skip_git name base (map Normal ns) v f =
    (case t of VFile c \<Rightarrow> init_file ops skip_git name base (map Normal ns) v f | VDir cs \<Rightarrow> init_dir ops base (map Normal ns) v f)"
  using assms
  by (cases t) (auto simp: holds_template_def init_entry_def vfs_metadata_def on_backend_def in_memory_backend_def
      im_metadata_def is_dir_def)

lemma template_file:
  assumes "holds_template tpl v" and "snapshot_at tpl ns = Some (VFile c)"
    and "init_file ops skip_git name base (map Normal ns) v f = (v1, f1, Inr found)"
  shows "v1 = v \<and> found = []"
  using assms
  by (auto simp: holds_template_def init_file_def vfs_read_to_string_lf_normalized_def vfs_read_to_string_def then_watch_def
      on_backend_def in_memory_backend_def im_read_def map_sum_eq_Inr split: if_splits option.splits prod.splits)

lemma init_loop_ends:
  assumes "holds_template tpl v" and "snapshot_ok tpl" and "paths = map (map Normal \<circ> fst) items"
    and "\<forall>(ns, t) \<in> set items. snapshot_at tpl ns = Some t" and "sum_list (map (template_size \<circ> snd) items) \<le> fuel"
  shows "snd (init_loop ops fuel skip_git name base paths v f) \<noteq> OutOfFuel"
  using assms(3-5)
proof (induction fuel arbitrary: paths items f)
  case 0
  have "items = []" using 0(3) by (cases items) auto
  then show ?case using 0(1) by simp
next
  case (Suc fuel)
  show ?case
  proof (cases items)
    case Nil
    then show ?thesis using Suc.prems(1) by simp
  next
    case (Cons item others)
    obtain ns t where item: "item = (ns, t)" by fastforce
    have at: "snapshot_at tpl ns = Some t" and rest: "\<forall>(ns, t) \<in> set others. snapshot_at tpl ns = Some t"
      using Suc.prems(2) Cons item by auto
    have paths: "paths = map Normal ns # map (map Normal \<circ> fst) others" using Suc.prems(1) Cons item by simp
    obtain v1 f1 r where entry: "init_entry ops skip_git name base (map Normal ns) v f = (v1, f1, r)"
      by (cases "init_entry ops skip_git name base (map Normal ns) v f") auto
    have "\<exists>more. v1 = v \<and> found = map (map Normal \<circ> fst) more \<and> (\<forall>(ms, t) \<in> set more. snapshot_at tpl ms = Some t) \<and>
        Suc (sum_list (map (template_size \<circ> snd) more)) = template_size t" if "r = Inr found" for found
    proof (cases t)
      case (VFile c)
      then have "init_file ops skip_git name base (map Normal ns) v f = (v1, f1, Inr found)"
        using entry entry_of_template [OF assms(1) at, of ops skip_git name base f] that by simp
      from template_file [OF assms(1) _ this] at VFile show ?thesis by (intro exI [of _ "[]"]) simp
    next
      case (VDir cs)
      then have "init_dir ops base (map Normal ns) v f = (v1, f1, Inr found)"
        using entry entry_of_template [OF assms(1) at, of ops skip_git name base f] that by simp
      then have "v1 = v" "found = child_paths (map Normal ns) cs []"
        using list_template_dir [OF assms(1)] at VDir by (auto simp: init_dir_def split: prod.splits sum.splits)
      with folder_items [OF _ assms(2), of ns cs] at VDir show ?thesis by (metis template_size.simps(2))
    qed
    then show ?thesis
    proof (cases r)
      case (Inl e)
      then show ?thesis using entry paths by simp
    next
      case (Inr found)
      then obtain more where more: "v1 = v" "found = map (map Normal \<circ> fst) more"
        "\<forall>(ms, t) \<in> set more. snapshot_at tpl ms = Some t" "Suc (sum_list (map (template_size \<circ> snd) more)) = template_size t"
        using \<open>\<And>found. r = Inr found \<Longrightarrow> _\<close> by blast
      have "snd (init_loop ops fuel skip_git name base (map (map Normal \<circ> fst) (others @ more)) v f1) \<noteq> OutOfFuel"
        by (rule Suc.IH [OF refl]) (use rest more(3,4) Suc.prems(3) Cons item in \<open>auto simp: comp_def\<close>)
      then show ?thesis using entry paths Inr more(1,2) by simp
    qed
  qed
qed

text \<open>
  Copying a template ends: as many turns as it has files and folders are enough, whatever the file
  system answers.
\<close>

theorem inits_end:
  assumes "packed = VDir children" and "map_of children (template_path kind) = Some template" and "snapshot_ok template"
    and "template_size template \<le> fuel"
  shows "snd (snd (init_run ops fuel (Inr packed) current_dir p kind skip_git f)) \<noteq> OutOfFuel"
proof -
  have copies: "snd (copy_template ops fuel skip_git name base fs g) \<noteq> OutOfFuel"
    if "load_snapshot im_new [] template = (fs, Inr u)" for fs u name base g
  proof (cases template)
    case (VFile c)
    with that show ?thesis
      using loaded_template [of template fs] assms(3)
      by (auto simp: copy_template_def list_template_def holds_template_def vfs_read_dir_def then_watch_def on_backend_def
          in_memory_backend_def im_read_dir_def dest: spec [of _ "[]"])
  next
    case (VDir cs)
    have held: "holds_template template (set_watch_enabled (vfs_new fs) False)"
      using loaded_template [of template fs] that assms(3) by simp
    obtain items where items: "map (map Normal \<circ> fst) items = child_paths [] cs []"
      "\<forall>(ms, t) \<in> set items. snapshot_at template ms = Some t"
      "sum_list (map (template_size \<circ> snd) items) = sum_list (map (\<lambda>(_, s). template_size s) cs)"
      using folder_items [of template "[]" cs] VDir assms(3) by auto
    have "sum_list (map (template_size \<circ> snd) items) \<le> fuel" using items(3) VDir assms(4) by simp
    from init_loop_ends [OF held assms(3) items(1) [symmetric] items(2) this] show ?thesis
      using list_template_dir [OF held, of "[]" cs] VDir by (simp add: copy_template_def)
  qed
  have git: "snd (git_init ops base g) \<noteq> OutOfFuel" for base g
    by (simp add: git_init_def split: prod.split sum.split option.split)
  have "snd (snd (init_project ops fuel kind skip_git fs base name g)) \<noteq> OutOfFuel"
    if "load_snapshot im_new [] template = (fs, Inr u)" for fs u name base g
    using copies [OF that, of name base g] git
    by (auto simp: init_project_def Let_def split: prod.split outcome.split) (metis snd_conv)+
  then show ?thesis
    using assms(1,2) by (auto simp: init_run_def template_of_def split: prod.split sum.split)
qed



section \<open>A small template\<close>

definition plain_init :: "(path \<Rightarrow> string option) init_ops" where
  "plain_init =
     \<lparr>io_text = ie_message, io_create_dir_all = \<lambda>_ f. (f, Inr ()), io_canonicalize = \<lambda>p _. Inr p,
      io_create_dir = \<lambda>_ f. (f, Inr ()),
      io_create_new = \<lambda>p f. (case f p of
          None \<Rightarrow> (f(p \<mapsto> []), Inr ())
        | Some _ \<Rightarrow> (f, Inl \<lparr>ie_kind = AlreadyExists, ie_message = [], ie_path = p\<rparr>)),
      io_write_all = \<lambda>p c f. (f(p \<mapsto> c), Inr ()), io_inside_work_tree = \<lambda>_ _. Inr True,
      io_git_init = \<lambda>_ f. (f, Inr None), io_version = ''7''\<rparr>"

definition small_templates :: vfs_snapshot where
  "small_templates = VDir [(''model'', VDir [(''README.md'', VFile ''# {project_name}''), (''src'', VDir [(''init.luau'', VFile [])])])]"

lemma init_keeps_existing_files_witness:
  "fst (init_run plain_init 9 (Inr small_templates) (Inr []) [RootDir, Normal ''game''] ModelKind False
     [[RootDir, Normal ''game'', Normal ''README.md''] \<mapsto> ''mine'']) [RootDir, Normal ''game'', Normal ''README.md''] = Some ''mine''"
proof -
  have "init_files_ok plain_init (\<lambda>f. f)"
    by (auto simp: init_files_ok_def plain_init_def keeps_files_def split: option.splits)
  then show ?thesis by (rule init_keeps_existing_files) simp
qed

lemma inits_end_witness:
  "snd (snd (init_run plain_init 4 (Inr small_templates) (Inr []) [RootDir, Normal ''game''] ModelKind False Map.empty)) \<noteq> OutOfFuel"
  unfolding small_templates_def
  by (rule inits_end [OF refl, where template = "VDir [(''README.md'', VFile ''# {project_name}''), (''src'', VDir [(''init.luau'', VFile [])])]"])
    (simp_all add: template_path_def)

end
