(* ===== verification/Spec2Isabelle.thy ===== *)
theory Spec2Isabelle
  imports Prelude Multi_Map Message_Queue Client_Registry Fs_Path In_Memory_Fs Vfs Variants Metadata Dom
    Rojo_Tree Patch_Compute Patch_Apply Patch_Laws Change_Processor Ip_Address Web_Origin Floats Text
    Resolution Auto_Connect Project Session_Registry Float_Display Lua_Ast Json Lua_Values Localization
    Outcome Meta_File Snapshot_Middleware Middleware_Laws Middleware_Properties File_Names Fs_Snapshot
    Property_Filter Syncback_Rules Hashing Ref_Links Syncback_Snapshot Syncback_Middleware Syncback_Project Syncback_Loop
    Hash_Properties Syncback_Laws Syncback_Properties Serve_Session Web_Query Web_Interface Web_Api Web_Properties
    Diagnosis Session_Status Mcp_Server Mcp_Properties
    Sourcemap Wait_Command Serve_Command Output_Commands Init_Command
begin

text \<open>
  The Rust server of Roxo, a fork of Rojo that syncs a directory of source files with instances in
  Roblox Studio.

  \<^bold>\<open>The program.\<close>  A serve session watches a project's files through a virtual file system (the
  crate \<open>crates/memofs\<close>), turns them into snapshots of instances (\<open>src/snapshot_middleware\<close>), keeps
  an instance tree with bookkeeping beside each instance (\<open>src/snapshot\<close>), and pushes every change of
  the tree as an applied patch into a message queue (\<open>src/message_queue.rs\<close>), from which attached
  Studio clients read (\<open>src/web\<close>).  The job thread of the change processor
  (\<open>src/change_processor.rs\<close>) does the work: a file system event is canonicalized, the instances
  whose relevant paths it touches are looked up in the tree's path index, their new snapshots are
  compared with the tree (\<open>compute_patch_set\<close>) and the patch is applied (\<open>apply_patch_set\<close>) and
  queued; a write request of a client is written to files and applied the same way.  Around this core
  stand the registry of clients and discovery probes, the directory of running sessions, the
  validation of request hosts and origins, the project file and the resolution of property values.

  \<^bold>\<open>The theories.\<close>  In the order of their imports:

  \<^item> \<open>Prelude\<close>: unsigned integers as words, strings as lists of bytes, \<open>Option\<close> and \<open>Result\<close> as
    \<open>option\<close> and sums, hash maps as association lists whose order stands for the unspecified
    iteration order (\<open>hm_get\<close>, \<open>hm_insert\<close>, \<open>hm_remove\<close>), and lemmas on them.
  \<^item> \<open>Multi_Map\<close> (\<open>src/multimap.rs\<close>): the map of buckets behind both tree indices, refining a
    relation.
  \<^item> \<open>Message_Queue\<close> (\<open>src/message_queue.rs\<close>): history and one-shot listeners; the critical sections
    of \<open>subscribe\<close> and \<open>push_messages\<close> as steps, so that their interleavings are runs.
  \<^item> \<open>Client_Registry\<close> (\<open>src/client_registry.rs\<close>): attached clients and probes, with every reading of
    the clock an argument.
  \<^item> \<open>Fs_Path\<close>, \<open>Text\<close>, \<open>Floats\<close>, \<open>Ip_Address\<close>: the parts of the standard library the source uses
    (paths by components, decimal formatting, the casts of floats on their bits, address parsing).
  \<^item> \<open>In_Memory_Fs\<close>, \<open>Vfs\<close> (\<open>crates/memofs\<close>): the in-memory backend and the watching front
    end.  The locale \<open>vfs_backend\<close> is the contract of a backend, with a view of its files;
    \<open>imfs\<close> interprets it on the in-memory backend.
  \<^item> \<open>Variants\<close> (\<open>src/variant_eq.rs\<close>): property values and their comparison with tolerance.
  \<^item> \<open>Metadata\<close> (\<open>src/snapshot/metadata.rs\<close>, \<open>src/glob.rs\<close>, parts of \<open>src/project.rs\<close> and
    \<open>src/resolution.rs\<close>): what is kept beside an instance.
  \<^item> \<open>Dom\<close>: \<open>WeakDom\<close> of the crate \<open>rbx_dom_weak\<close>, which the source only calls: the record
    \<open>dom_ops\<close> of its operations is an argument of everything that uses it, the locale \<open>weak_dom\<close>
    states the laws relied on, and a reference implementation, whose interpretation is \<open>rd\<close>,
    shows that they can hold.  An inserted instance keeps the properties of its builder, but for a
    \<open>UniqueId\<close>, which the crate replaces when it is taken (\<open>kept_properties\<close>).
  \<^item> \<open>Rojo_Tree\<close> (\<open>src/snapshot/tree.rs\<close>, \<open>src/snapshot/instance_snapshot.rs\<close>), \<open>Patch_Compute\<close>
    (\<open>src/snapshot/patch_compute.rs\<close>, \<open>patch.rs\<close>), \<open>Patch_Apply\<close> (\<open>src/snapshot/patch_apply.rs\<close>),
    \<open>Patch_Laws\<close>: the tree, the computation of patches and their application.
  \<^item> \<open>Change_Processor\<close> (\<open>src/change_processor.rs\<close>): the steps of the job thread.
  \<^item> \<open>Web_Origin\<close> (\<open>src/web/origin.rs\<close>): host and origin validation.
  \<^item> \<open>Resolution\<close> (\<open>src/resolution.rs\<close>): values of project and model files to and from property
    values, over an abstract reflection database.
  \<^item> \<open>Auto_Connect\<close>, \<open>Project\<close> (\<open>src/auto_connect.rs\<close>, \<open>src/project.rs\<close>): the policy and the
    project file.
  \<^item> \<open>Session_Registry\<close> (\<open>src/session_registry.rs\<close>): the beacons of running sessions.
  \<^item> \<open>Float_Display\<close>, \<open>Lua_Ast\<close> (\<open>src/lua_ast.rs\<close>), \<open>Json\<close> (\<open>src/json.rs\<close>), \<open>Lua_Values\<close>
    (\<open>json.rs\<close>, \<open>toml.rs\<close>, \<open>yaml.rs\<close> of \<open>src/snapshot_middleware\<close>), \<open>Localization\<close> (\<open>csv.rs\<close> there):
    the printer of Lua code with the decimal text of doubles, and the conversions of data files.
  \<^item> \<open>Outcome\<close>: code that threads the file system, may fail, panic or recurse without end, with its
    combinators (\<open>and_then\<close> is the question mark operator).
  \<^item> \<open>Meta_File\<close> (\<open>meta_file.rs\<close>), \<open>Snapshot_Middleware\<close> (the other files of
    \<open>src/snapshot_middleware\<close>): from files to snapshots.  What the repository does not define
    (parsers, decoders, the reflection database, globs) is the record \<open>snapshot_env\<close>.
  \<^item> \<open>Middleware_Laws\<close>, \<open>Middleware_Properties\<close>: the locale \<open>tree_backend\<close> extends \<open>vfs_backend\<close> by
    directory listings, \<open>imtree\<close> interprets it on the in-memory backend; invariants of actions
    (\<open>stays\<close>), what results satisfy (\<open>gives\<close>), more fuel (\<open>refined_by\<close>), and the theorems on
    snapshots that follow.
  \<^item> \<open>File_Names\<close> (\<open>src/syncback/file_names.rs\<close>), \<open>Fs_Snapshot\<close> (\<open>src/syncback/fs_snapshot.rs\<close>): the
    way back, the names of files for instances and the set of changes written to the file system.
    The locale \<open>write_backend\<close> is the contract of a backend that is written to; \<open>imwrite\<close> interprets
    it on the in-memory backend.
  \<^item> \<open>Property_Filter\<close> (\<open>src/syncback/property_filter.rs\<close>), \<open>Syncback_Rules\<close> (the rules and walks of
    \<open>src/syncback/mod.rs\<close>), \<open>Hashing\<close> (\<open>src/syncback/hash\<close>), \<open>Ref_Links\<close>
    (\<open>src/syncback/ref_properties.rs\<close>), \<open>Syncback_Snapshot\<close> (\<open>src/syncback/snapshot.rs\<close>),
    \<open>Syncback_Middleware\<close>, \<open>Syncback_Project\<close> (the \<open>syncback\<close> functions of
    \<open>src/snapshot_middleware\<close>), \<open>Syncback_Loop\<close> (\<open>syncback_loop\<close>): from a place or model file back to
    the project's files, with hashes deciding what has changed.  The ids drawn by \<open>UniqueId::now\<close> are a
    sequence given with the run (\<open>ie_now\<close>), so two runs need not draw the same.
  \<^item> \<open>Hash_Properties\<close>, \<open>Syncback_Laws\<close>, \<open>Syncback_Properties\<close>: the theorems on hashes and on
    syncback.
  \<^item> \<open>Serve_Session\<close> (\<open>src/serve_session.rs\<close>): the session that the job thread and the requests
    share, with the mutex of the tree, which a panic under the lock poisons, and the turns of the job
    thread on it.
  \<^item> \<open>Web_Query\<close>, \<open>Web_Interface\<close> (\<open>src/web/interface.rs\<close>), \<open>Web_Api\<close> (\<open>src/web/api.rs\<close>,
    \<open>util.rs\<close>, \<open>mod.rs\<close>): query strings, the data that clients see, and the handlers of requests with
    the loop of a subscription.  \<open>web_env\<close> has what they call of other crates.
  \<^item> \<open>Web_Properties\<close>: the theorems on requests and subscriptions.
  \<^item> \<open>Diagnosis\<close> (\<open>src/cli/diagnose.rs\<close>): why no Studio is connected to a server, and the edits of the
    project file that help; a pure function of the status a server reports.
  \<^item> \<open>Session_Status\<close> (\<open>src/cli/status.rs\<close>): the status of the running sessions for a terminal or a
    program.  \<open>cli_ops\<close> has what the command line asks of the machine.
  \<^item> \<open>Mcp_Server\<close>, \<open>Mcp_Properties\<close> (\<open>src/cli/mcp.rs\<close>): the server for agents, which reads lines of
    JSON-RPC and runs tools, starts and stops servers of its own and waits for Studio; and its
    theorems.  \<open>mcp_ops\<close> has what the tools ask of the operating system, every question is kept in a
    trace (\<open>os_request\<close>), and \<open>keeps\<close> is the triple of an action that keeps an invariant.  The
    locales \<open>reading_invariant\<close>, \<open>answering_invariant\<close>, \<open>steering_invariant\<close> and \<open>serving_invariant\<close>
    say what a property of the trace has to be closed under to hold for a whole run; \<open>children\<close>
    and \<open>observer\<close> interpret them.

  \<^item> \<open>Sourcemap\<close> (\<open>src/cli/sourcemap.rs\<close>): the nodes for editors, and when a patch makes them stale.
  \<^item> \<open>Wait_Command\<close> (\<open>src/cli/wait.rs\<close>, \<open>src/cli/sessions.rs\<close>), \<open>Serve_Command\<close> (\<open>src/cli/serve.rs\<close>,
    the binding in \<open>src/web/mod.rs\<close>): waiting for a session, the list of sessions, and the command
    that serves, with its beacon.
  \<^item> \<open>Output_Commands\<close> (\<open>src/cli/build.rs\<close>, \<open>plugin.rs\<close>, \<open>upload.rs\<close>): models written to a file, to the
    plugins folder or sent to Roblox; \<open>file_ops\<close> is the native file system, the encoders and the
    requests are arguments.
  \<^item> \<open>Init_Command\<close> (\<open>src/cli/init.rs\<close>): a new project, copied from a template that is loaded into
    the file system in memory; \<open>init_ops\<close> is the native file system and git.

  \<^bold>\<open>Conventions.\<close>  A panic is \<open>None\<close> of an outer \<open>option\<close>, so a theorem that some operation does not
  panic says its result is \<open>Some\<close>.  State is passed explicitly: an operation on \<open>&mut self\<close> returns
  the new record.  Iteration over a hash map follows the association list that models it, and
  theorems hold for every such order.  Log messages are left out.

  \<^bold>\<open>What is shown.\<close>  For the tree: every run of its operations on existing instances succeeds and
  keeps both indices exact (\<open>tree_runs_stay_exact\<close>), insertion and removal do what they say.  For
  patches: a computed patch always applies, an update, computed and applied, carries its instance
  over to the snapshot, an inserted snapshot needs no patch, and the exceptions (null references, the pivot flag).  For snapshots: taking one ends on trees without
  projects, reads only, is repeatable and records how to take it again, with the exceptions (a project
  at its own folder, localization tables, a second meta file).  For syncback: it only reads the file
  system until the changes are written, it ends when no project is on the way, trees that are equal after
  their preparation are written as no change at all, hashes are blind to the order of siblings, and the exceptions (a root project nested in
  itself, tags that run together).  For Lua code: it reads back as the
  value it was printed from.  For the job thread:
  no event and no write request panics, and the tree stays well formed.  For the queue: cursors chain
  without loss, sends are slices of the history, and the gap between the two locks of \<open>subscribe\<close> is
  exhibited.  For the registry: fresh ids, bounded memory, exact listings.  For file systems: write
  and read, removal, canonical paths.  For request validation: nothing but local and listed names gets through.
  For the API: no request changes the tree, the files or the queue, every request of a well-formed
  session that can be read is answered (\<open>/api/serialize\<close> if the model can be encoded), reads and subscriptions show the tree as it is, only local peers open files, and
  the exceptions (a replayed addition panics under the lock of the tree, listeners pile up, late subscriptions are not
  seen).
  For the agent server: only processes it started are killed, a read-only server asks the system for
  nothing but looks, the replies are those to the requests, once and in order, up to a line that ends the
  server, waiting ends, and the exceptions (huge
  timeouts, servers forgotten when the registry cannot be read).  For the diagnosis: its verdict follows the
  status, and the edits it suggests only add the place.
  For the other commands: a sourcemap shows what leads to a match, waiting ends, an installed plugin is
  replaced as a whole or not at all, starting a project ends and keeps the files that are there, and the
  exceptions (renamed folders leave the sourcemap stale, a server that cannot bind unregisters the one that
  runs, a build that fails loses the old output).
  For values and project files: round trips and the naming of projects.  For sessions: listing and
  the advertised ports.

  \<^bold>\<open>Bounds and termination.\<close>  Loops follow their data (\<open>rt_remove_loop\<close> drops an entry of the
  metadata map per step, \<open>canonicalize_from\<close> shortens the path, \<open>remove_loop\<close> the file table,
  \<open>find_in_classes\<close> the classes not yet met).  Three loops have fuel.  The first is
  \<open>snapshot_from_vfs\<close>, for the nesting of its calls, because a project may lead it anywhere: a tree without projects needs two units more
  than it is deep (\<open>tree_snapshot_terminates\<close>), more fuel changes no result
  (\<open>fuel_is_only_a_bound\<close>), and a project at its own folder exhausts any
  (\<open>project_at_its_own_folder_diverges\<close>).  The conversion of a decoded model tree is bounded by the
  number of its instances, and the reader of Lua code in \<open>Lua_Ast\<close> by the size of the expression.
  The second, \<open>sync_loop\<close>, counts the snapshots taken from its stack: the number of instances below
  the stack is enough without projects (\<open>syncback_ends\<close>), and a root project inside itself exhausts any
  (\<open>nested_root_project_never_ends\<close>).  The third, \<open>sync_nodes\<close>, follows the nodes of a project file and
  starts with their number.  Walks over instances are partial functions, total on well-formed trees.
  \<open>wait_polls\<close>, \<open>wait_rounds\<close> and \<open>await_beacon\<close> sleep between two looks at the clock; their fuel counts the
  turns.  For the first two, which sleep half a second, two for each second of the timeout and one more are
  enough (\<open>waits_for_studio_end\<close>, \<open>waits_end_with_the_condition\<close>); the third sleeps a fifth of a second, and
  101 are enough for its twenty seconds (\<open>await_beacon_ends\<close>).  \<open>init_loop\<close> takes as many turns as its
  template has files and folders (\<open>inits_end\<close>).
  Cursors and ids are words and their theorems name the bound under which they do not wrap.

  \<^bold>\<open>Not modelled.\<close>  The pages of \<open>src/web/ui.rs\<close> (an argument of \<open>service\<close>), the other commands of
  \<open>src/cli\<close> (the command line of syncback, the formatting of projects, the documentation) and the parsing of
  arguments, the native file system backend and the Lua plugin: they are input and output.  Third
  party encoders, decoders and servers, the reflection database and cryptographic hashes are
  parameters.
\<close>

end
